(* ===== verification/Py_Base.thy ===== *)
theory Py_Base
  imports Main "HOL-Library.List_Lexorder" "HOL-Library.Char_ord" "HOL-Library.Sublist"
begin

text \<open>
  The prelude of the development: exceptions as values of a sum type and the combinators
  that sequence them, and the part of Python's \<open>str\<close> interface the sources use.

  A Python string is a \<^typ>\<open>string\<close>, a list of characters with code points below 256 (the
  sources and their inputs are ASCII text). A function that may raise returns
  \<open>pyerr + 'a\<close>; the exception carries its class and its message.
\<close>

named_theorems res_simps \<open>equations of the exception combinators\<close>
named_theorems str_simps \<open>equations of the string operations\<close>

section \<open>Exceptions\<close>

datatype exn =
    TypeError | ValueError | KeyError | IndexError | AttributeError | ZeroDivisionError
  | OverflowError | AssertionError | UnboundLocalError | FileNotFoundError | FileExistsError
  | NotADirectoryError | IsADirectoryError | OSError | RuntimeError | SystemExit
  | CalledProcessError | YAMLError | JSONDecodeError | UnicodeDecodeError | BundleError | BudgetExceeded | PilotError
  | KubernetesError | RenderError | StructError | StatisticsError | ArithmeticError
  | InventoryFormatError

datatype pyerr = Raise (exn_of: exn) (msg_of: string)

type_synonym 'a res = "pyerr + 'a"

abbreviation raise :: "exn \<Rightarrow> string \<Rightarrow> 'a res" where
  "raise e m \<equiv> Inl (Raise e m)"

definition rbind :: "'a res \<Rightarrow> ('a \<Rightarrow> 'b res) \<Rightarrow> 'b res" where
  "rbind m f = (case m of Inl e \<Rightarrow> Inl e | Inr x \<Rightarrow> f x)"

definition is_ok :: "'a res \<Rightarrow> bool" where
  "is_ok m = (case m of Inl _ \<Rightarrow> False | Inr _ \<Rightarrow> True)"

text \<open>\<open>require c e m k\<close> is \<open>if not c: raise e(m)\<close> followed by \<open>k\<close>.\<close>

definition require :: "bool \<Rightarrow> exn \<Rightarrow> string \<Rightarrow> 'a res \<Rightarrow> 'a res" where
  "require c e m k = (if c then k else raise e m)"

text \<open>The three loop shapes: a loop that only checks, one that collects, one that folds.\<close>

fun rforeach :: "('a \<Rightarrow> unit res) \<Rightarrow> 'a list \<Rightarrow> unit res" where
  "rforeach f [] = Inr ()"
| "rforeach f (x # xs) = rbind (f x) (\<lambda>_. rforeach f xs)"

fun rmap :: "('a \<Rightarrow> 'b res) \<Rightarrow> 'a list \<Rightarrow> 'b list res" where
  "rmap f [] = Inr []"
| "rmap f (x # xs) = rbind (f x) (\<lambda>y. rbind (rmap f xs) (\<lambda>ys. Inr (y # ys)))"

fun rfold :: "('s \<Rightarrow> 'a \<Rightarrow> 's res) \<Rightarrow> 's \<Rightarrow> 'a list \<Rightarrow> 's res" where
  "rfold f s [] = Inr s"
| "rfold f s (x # xs) = rbind (f s x) (\<lambda>s'. rfold f s' xs)"

text \<open>A comprehension with a condition that may raise.\<close>

fun rfilter :: "('a \<Rightarrow> bool res) \<Rightarrow> 'a list \<Rightarrow> 'a list res" where
  "rfilter f [] = Inr []"
| "rfilter f (x # xs) = rbind (f x) (\<lambda>b. rbind (rfilter f xs) (\<lambda>ys. Inr (if b then x # ys else ys)))"

lemma rbind_simps [simp, res_simps]:
  "rbind (Inl e) f = Inl e"
  "rbind (Inr x) f = f x"
  by (simp_all add: rbind_def)

lemma rbind_Inr [simp]: "rbind m f = Inr y \<longleftrightarrow> (\<exists>x. m = Inr x \<and> f x = Inr y)"
  by (cases m) auto

lemma rbind_Inl: "rbind m f = Inl e \<longleftrightarrow> m = Inl e \<or> (\<exists>x. m = Inr x \<and> f x = Inl e)"
  by (cases m) auto

lemma require_simps [simp, res_simps]:
  "require True e m k = k"
  "require False e m k = raise e m"
  by (simp_all add: require_def)

lemma require_Inr [simp]: "require c e m k = Inr y \<longleftrightarrow> c \<and> k = Inr y"
  by (simp add: require_def)

lemma require_Inl: "require c e m k = Inl er \<longleftrightarrow> (\<not> c \<and> er = Raise e m) \<or> (c \<and> k = Inl er)"
  by (auto simp: require_def)

lemma is_ok_simps [simp]: "is_ok (Inr x)" "\<not> is_ok (Inl e)"
  by (simp_all add: is_ok_def)

lemma is_ok_conv: "is_ok m \<longleftrightarrow> (\<exists>x. m = Inr x)"
  by (cases m) auto

lemma rforeach_Inr [simp]: "rforeach f xs = Inr u \<longleftrightarrow> (\<forall>x \<in> set xs. f x = Inr ())"
  by (induction xs) auto

lemma rforeach_append: "rforeach f (xs @ ys) = rbind (rforeach f xs) (\<lambda>_. rforeach f ys)"
proof (induction xs)
  case (Cons x xs)
  then show ?case by (cases "f x") auto
qed simp

lemma rmap_Inr: "rmap f xs = Inr ys \<longleftrightarrow> list_all2 (\<lambda>x y. f x = Inr y) xs ys"
proof (induction xs arbitrary: ys)
  case Nil
  then show ?case by auto
next
  case (Cons x xs)
  then show ?case by (auto simp: list_all2_Cons1)
qed

lemma rmap_elem: "rmap f xs = Inr ys \<Longrightarrow> y \<in> set ys \<Longrightarrow> \<exists>x \<in> set xs. f x = Inr y"
  by (induction xs arbitrary: ys) auto

lemma rmap_total:
  "(\<And>x. x \<in> set xs \<Longrightarrow> f x = Inr (g x)) \<Longrightarrow> rmap f xs = Inr (map g xs)"
  by (induction xs) simp_all

lemma rmap_map: "rmap f (map g xs) = rmap (\<lambda>x. f (g x)) xs"
  by (induction xs) simp_all

lemma rmap_length: "rmap f xs = Inr ys \<Longrightarrow> length ys = length xs"
  by (auto simp: rmap_Inr dest: list_all2_lengthD)

lemma rfold_append: "rfold f s (xs @ ys) = rbind (rfold f s xs) (\<lambda>s'. rfold f s' ys)"
proof (induction xs arbitrary: s)
  case (Cons x xs)
  then show ?case by (cases "f s x") auto
qed simp

lemma rfold_invariant:
  assumes "rfold f s xs = Inr s'" and "P s"
    and "\<And>s x s'. x \<in> set xs \<Longrightarrow> P s \<Longrightarrow> f s x = Inr s' \<Longrightarrow> P s'"
  shows "P s'"
  using assms
proof (induction xs arbitrary: s)
  case (Cons x xs)
  then obtain t where "f s x = Inr t" "rfold f t xs = Inr s'" by auto
  with Cons.prems(2,3) have "P t" by auto
  with Cons.IH \<open>rfold f t xs = Inr s'\<close> Cons.prems(3) show ?case by auto
qed simp

text \<open>\<open>errs P r\<close>: every exception \<open>r\<close> may raise satisfies \<open>P\<close>.\<close>

lemma rfilter_Inr:
  "rfilter f xs = Inr ys \<longleftrightarrow> list_all (is_ok \<circ> f) xs \<and> ys = filter (\<lambda>x. f x = Inr True) xs"
proof (induction xs arbitrary: ys)
  case (Cons x xs)
  show ?case
  proof (cases "f x")
    case (Inr b)
    then show ?thesis using Cons.IH by (cases b) auto
  qed simp
qed auto

lemma rfilter_ok: "is_ok (rfilter f xs) \<longleftrightarrow> list_all (is_ok \<circ> f) xs"
  by (simp add: is_ok_conv rfilter_Inr)

definition errs :: "(pyerr \<Rightarrow> bool) \<Rightarrow> 'a res \<Rightarrow> bool" where
  "errs P r = (case r of Inl e \<Rightarrow> P e | Inr _ \<Rightarrow> True)"

lemma errsD: "errs P r \<Longrightarrow> r = Inl e \<Longrightarrow> P e"
  by (simp add: errs_def)

lemma errs_simps [simp]: "errs P (Inl e) = P e" "errs P (Inr x)"
  by (simp_all add: errs_def)

lemma errs_rbind: "errs P m \<Longrightarrow> (\<And>x. m = Inr x \<Longrightarrow> errs P (f x)) \<Longrightarrow> errs P (rbind m f)"
  by (cases m) simp_all

lemma errs_require: "(\<not> c \<Longrightarrow> P (Raise e m)) \<Longrightarrow> (c \<Longrightarrow> errs P k) \<Longrightarrow> errs P (require c e m k)"
  by (cases c) simp_all

lemma errs_rforeach: "(\<And>x. x \<in> set xs \<Longrightarrow> errs P (f x)) \<Longrightarrow> errs P (rforeach f xs)"
  by (induction xs) (simp_all add: errs_rbind)

lemma errs_rmap: "(\<And>x. x \<in> set xs \<Longrightarrow> errs P (f x)) \<Longrightarrow> errs P (rmap f xs)"
  by (induction xs) (simp_all add: errs_rbind)

lemma errs_rfold: "(\<And>s x. x \<in> set xs \<Longrightarrow> errs P (f s x)) \<Longrightarrow> errs P (rfold f s xs)"
  by (induction xs arbitrary: s) (simp_all add: errs_rbind)

lemmas errs_intros = errs_rbind errs_require errs_rforeach errs_rmap errs_rfold

section \<open>Lists\<close>

lemma in_set_enumerate: "v \<in> set vs \<Longrightarrow> \<exists>i. (i, v) \<in> set (enumerate n vs)"
proof (induction vs arbitrary: n)
  case (Cons a vs)
  then show ?case using Cons.IH [of "Suc n"] by auto
qed simp

lemma sorted_wrt_le_last:
  fixes f :: "'a \<Rightarrow> 'b :: linorder"
  assumes "sorted_wrt (\<lambda>a b. f a < f b) xs" "x \<in> set xs"
  shows "f x \<le> f (last xs)"
proof (cases xs rule: rev_cases)
  case (snoc ys y)
  then show ?thesis using assms by (auto simp: sorted_wrt_append less_imp_le)
qed (use assms in simp)

section \<open>Strings\<close>

abbreviation code :: "char \<Rightarrow> nat" where
  "code c \<equiv> of_char c"

definition nl :: string where
  "nl = [CHR 0x0A]"

text \<open>\<open>str.isspace\<close> on a code point below 256.\<close>

definition py_isspace :: "char \<Rightarrow> bool" where
  "py_isspace c \<longleftrightarrow> c \<in> set [CHR '' '', CHR 0x09, CHR 0x0A, CHR 0x0B, CHR 0x0C, CHR 0x0D,
     CHR 0x1C, CHR 0x1D, CHR 0x1E, CHR 0x1F, CHR 0x85, CHR 0xA0]"

definition is_digit :: "char \<Rightarrow> bool" where
  "is_digit c \<longleftrightarrow> c \<in> set ''0123456789''"

definition digit_val :: "char \<Rightarrow> nat" where
  "digit_val c = code c - 48"

definition is_lower_hex :: "char \<Rightarrow> bool" where
  "is_lower_hex c \<longleftrightarrow> c \<in> set ''0123456789abcdef''"

definition is_alpha :: "char \<Rightarrow> bool" where
  "is_alpha c \<longleftrightarrow> c \<in> set ''abcdefghijklmnopqrstuvwxyz''
     \<or> c \<in> set ''ABCDEFGHIJKLMNOPQRSTUVWXYZ''"

definition char_lower :: "char \<Rightarrow> char" where
  "char_lower c =
     (if c \<in> set ''ABCDEFGHIJKLMNOPQRSTUVWXYZ'' then char_of (code c + 32)
      else if 192 \<le> code c \<and> code c \<le> 222 \<and> code c \<noteq> 215 then char_of (code c + 32) else c)"

definition py_lower :: "string \<Rightarrow> string" where
  "py_lower = map char_lower"

definition lstrip :: "string \<Rightarrow> string" where
  "lstrip s = dropWhile py_isspace s"

definition strip :: "string \<Rightarrow> string" where
  "strip s = rev (dropWhile py_isspace (rev (dropWhile py_isspace s)))"

text \<open>\<open>s.removeprefix(p)\<close>.\<close>

definition removeprefix :: "string \<Rightarrow> string \<Rightarrow> string" where
  "removeprefix p s = (if prefix p s then drop (length p) s else s)"

text \<open>\<open>sub in s\<close>, \<open>s.find(sub)\<close> and \<open>s.find(sub, start)\<close> (\<open>None\<close> for \<open>-1\<close>).\<close>

fun str_in :: "string \<Rightarrow> string \<Rightarrow> bool" where
  "str_in sub [] = (sub = [])"
| "str_in sub (c # cs) = (prefix sub (c # cs) \<or> str_in sub cs)"

fun str_find :: "string \<Rightarrow> string \<Rightarrow> nat option" where
  "str_find sub [] = (if sub = [] then Some 0 else None)"
| "str_find sub (c # cs) =
     (if prefix sub (c # cs) then Some 0 else map_option Suc (str_find sub cs))"

text \<open>\<open>s.split(c)\<close> for a one-character separator, \<open>s.split(c, 1)\<close>, \<open>s.rpartition(sep)\<close>.\<close>

fun split_on :: "char \<Rightarrow> string \<Rightarrow> string list" where
  "split_on c [] = [[]]"
| "split_on c (x # xs) =
     (if x = c then [] # split_on c xs
      else case split_on c xs of [] \<Rightarrow> [[x]] | p # ps \<Rightarrow> (x # p) # ps)"

definition split_once :: "char \<Rightarrow> string \<Rightarrow> string list" where
  "split_once c s =
     (case dropWhile (\<lambda>x. x \<noteq> c) s of [] \<Rightarrow> [s] | _ # r \<Rightarrow> [takeWhile (\<lambda>x. x \<noteq> c) s, r])"

text \<open>\<open>s.rpartition(sep)\<close>: the parts around the last occurrence, or two empty strings.\<close>

fun last_split :: "string \<Rightarrow> string \<Rightarrow> (string \<times> string) option" where
  "last_split sep [] = None"
| "last_split sep (c # cs) =
     (case last_split sep cs of
        Some (a, b) \<Rightarrow> Some (c # a, b)
      | None \<Rightarrow> if prefix sep (c # cs) then Some ([], drop (length sep) (c # cs)) else None)"

definition rpartition :: "string \<Rightarrow> string \<Rightarrow> string \<times> string \<times> string" where
  "rpartition sep s =
     (case last_split sep s of Some (a, b) \<Rightarrow> (a, sep, b) | None \<Rightarrow> ([], [], s))"

text \<open>\<open>s.split()\<close>: the maximal runs of non-space characters.\<close>

fun py_split_acc :: "string \<Rightarrow> string \<Rightarrow> string list" where
  "py_split_acc acc [] = (if acc = [] then [] else [acc])"
| "py_split_acc acc (c # cs) =
     (if py_isspace c then (if acc = [] then py_split_acc [] cs else acc # py_split_acc [] cs)
      else py_split_acc (acc @ [c]) cs)"

definition py_split :: "string \<Rightarrow> string list" where
  "py_split s = py_split_acc [] s"

text \<open>\<open>pathlib.PurePosixPath\<close>: the components of a path text, and whether it is absolute.\<close>

definition path_parts :: "string \<Rightarrow> string list" where
  "path_parts s = filter (\<lambda>p. p \<noteq> [] \<and> p \<noteq> ''.'') (split_on (CHR ''/'') s)"

definition is_absolute :: "string \<Rightarrow> bool" where
  "is_absolute s = prefix ''/'' s"

text \<open>\<open>s.splitlines()\<close>: a line ends at a line boundary; a final boundary opens no line.\<close>

definition is_linebreak :: "char \<Rightarrow> bool" where
  "is_linebreak c \<longleftrightarrow> c \<in> set [CHR 0x0A, CHR 0x0B, CHR 0x0C, CHR 0x0D,
     CHR 0x1C, CHR 0x1D, CHR 0x1E, CHR 0x85]"

fun splitlines_acc :: "string \<Rightarrow> string \<Rightarrow> string list" where
  "splitlines_acc acc [] = (if acc = [] then [] else [acc])"
| "splitlines_acc acc (c # cs) =
     (if is_linebreak c
      then acc # splitlines_acc []
             (if c = CHR 0x0D \<and> cs \<noteq> [] \<and> hd cs = CHR 0x0A then tl cs else cs)
      else splitlines_acc (acc @ [c]) cs)"

definition splitlines :: "string \<Rightarrow> string list" where
  "splitlines s = splitlines_acc [] s"

fun join :: "string \<Rightarrow> string list \<Rightarrow> string" where
  "join sep [] = []"
| "join sep [x] = x"
| "join sep (x # y # xs) = x @ sep @ join sep (y # xs)"

text \<open>\<open>s.replace(old, new)\<close> and \<open>s.replace(old, new, 1)\<close> for a non-empty \<open>old\<close>.\<close>

function replace_all :: "string \<Rightarrow> string \<Rightarrow> string \<Rightarrow> string" where
  "replace_all old new [] = []"
| "replace_all old new (c # cs) =
     (if old \<noteq> [] \<and> prefix old (c # cs) then new @ replace_all old new (drop (length old) (c # cs))
      else c # replace_all old new cs)"
  by pat_completeness auto
termination
proof (relation "measure (\<lambda>(old, new, s). length s)")
  fix old new :: string and c :: char and cs :: string
  assume "old \<noteq> [] \<and> prefix old (c # cs)"
  then show "((old, new, drop (length old) (c # cs)), (old, new, c # cs))
      \<in> measure (\<lambda>(old, new, s). length s)"
    by (cases old) auto
qed auto

fun replace_first :: "string \<Rightarrow> string \<Rightarrow> string \<Rightarrow> string" where
  "replace_first old new [] = []"
| "replace_first old new (c # cs) =
     (if prefix old (c # cs) then new @ drop (length old) (c # cs)
      else c # replace_first old new cs)"

text \<open>Decimal output and the integers \<open>int(s)\<close> accepts.\<close>

definition digit_char :: "nat \<Rightarrow> char" where
  "digit_char n = ''0123456789'' ! (n mod 10)"

fun show_nat :: "nat \<Rightarrow> string" where
  "show_nat n = (if n < 10 then [digit_char n] else show_nat (n div 10) @ [digit_char n])"

declare show_nat.simps [simp del]

definition show_int :: "int \<Rightarrow> string" where
  "show_int i = (if i < 0 then CHR ''-'' # show_nat (nat (- i)) else show_nat (nat i))"

definition digits_val :: "string \<Rightarrow> nat" where
  "digits_val s = foldl (\<lambda>a c. 10 * a + digit_val c) 0 s"

text \<open>Digits in which single underscores may separate digits, as \<open>int()\<close> reads them.\<close>

fun int_body :: "string \<Rightarrow> bool" where
  "int_body [] = False"
| "int_body [c] = is_digit c"
| "int_body (c # d # cs) =
     (is_digit c \<and> (if d = CHR ''_'' then int_body cs else int_body (d # cs)))"

definition py_int :: "string \<Rightarrow> int option" where
  "py_int s0 = (let s = strip s0;
      neg = (s \<noteq> [] \<and> hd s = CHR ''-'');
      body = (if s \<noteq> [] \<and> (hd s = CHR ''-'' \<or> hd s = CHR ''+'') then tl s else s)
    in if int_body body
       then (let n = int (digits_val (filter (\<lambda>c. c \<noteq> CHR ''_'') body))
             in Some (if neg then - n else n))
       else None)"

lemma show_nat_nonempty [simp]: "show_nat n \<noteq> []"
  by (subst show_nat.simps) simp

lemma is_digit_digit_char [simp]: "is_digit (digit_char n)"
proof -
  have "n mod 10 < length ''0123456789''" by simp
  then show ?thesis unfolding is_digit_def digit_char_def by (rule nth_mem)
qed

lemma digit_val_digit_char [simp]: "digit_val (digit_char n) = n mod 10"
proof -
  have ten: "m \<in> {0, 1, 2, 3, 4, 5, 6, 7, 8, 9}" if "m < 10" for m :: nat using that by auto
  have "digit_val (''0123456789'' ! m) = m" if "m < 10" for m
    using ten [OF that] by (auto simp: digit_val_def)
  then show ?thesis by (simp add: digit_char_def)
qed

lemma show_nat_digits: "list_all is_digit (show_nat n)"
proof (induction n rule: show_nat.induct)
  case (1 n)
  then show ?case by (subst show_nat.simps) simp
qed

lemma digits_val_snoc: "digits_val (s @ [c]) = 10 * digits_val s + digit_val c"
  by (simp add: digits_val_def)

lemma digits_val_show_nat [simp]: "digits_val (show_nat n) = n"
proof (induction n rule: show_nat.induct)
  case (1 n)
  show ?case
  proof (cases "n < 10")
    case True
    then show ?thesis by (subst show_nat.simps) (simp add: digits_val_def)
  next
    case False
    then show ?thesis
      using 1 by (subst show_nat.simps) (simp add: digits_val_snoc)
  qed
qed

lemma hd_show_nat_zero: "hd (show_nat n) = CHR ''0'' \<longleftrightarrow> n = 0"
proof (induction n rule: show_nat.induct)
  case (1 n)
  have small: "digit_char n = CHR ''0'' \<longleftrightarrow> n = 0" if "n < 10"
  proof -
    have "n \<in> {0, 1, 2, 3, 4, 5, 6, 7, 8, 9}" using that by auto
    then show ?thesis by (auto simp: digit_char_def)
  qed
  show ?case
  proof (cases "n < 10")
    case True
    then show ?thesis using small by (subst show_nat.simps) simp
  next
    case False
    then have "hd (show_nat n) = hd (show_nat (n div 10))" by (subst show_nat.simps) simp
    then show ?thesis using 1 False by simp
  qed
qed

end
