(* ===== verification/Py_Float.thy ===== *)
theory Py_Float
  imports Py_Base Complex_Main "HOL-Library.Log_Nat"
begin

text \<open>
  Python's \<open>float\<close>: an IEEE 754 binary64 value as a rational number, an infinity or a NaN
  (the sign of zero is dropped: no source tests it). Arithmetic rounds its exact rational
  result to the nearest representable value, ties to even, with gradual underflow; the
  rounding function is executable and proved monotone and exact on the integers the
  counters of the sources reach.
\<close>

named_theorems float_simps \<open>evaluation of float comparisons\<close>

datatype pyfloat = Fin (fin_val: rat) | PInf | NInf | NaN

section \<open>Rounding\<close>

text \<open>\<open>ilog2 x\<close> is the exponent of the leading bit of a positive \<open>x\<close>.\<close>

definition ilog2 :: "rat \<Rightarrow> int" where
  "ilog2 x = (case quotient_of x of (p, q) \<Rightarrow>
     let k = bitlen p - bitlen q in if 2 powi k \<le> x then k else k - 1)"

definition round_even :: "rat \<Rightarrow> int" where
  "round_even x = (let f = \<lfloor>x\<rfloor>; d = x - of_int f in
     if d < 1 / 2 then f else if d > 1 / 2 then f + 1 else if even f then f else f + 1)"

definition ulp_exp :: "rat \<Rightarrow> int" where
  "ulp_exp x = max (ilog2 \<bar>x\<bar> - 52) (- 1074)"

definition fl :: "rat \<Rightarrow> rat" where
  "fl x = (if x = 0 then 0
           else of_int (round_even (x / 2 powi ulp_exp x)) * 2 powi ulp_exp x)"

definition max_float :: rat where
  "max_float = 2 ^ 1024 - 2 ^ 971"

definition to_float :: "rat \<Rightarrow> pyfloat" where
  "to_float x = (let y = fl x in
     if y > max_float then PInf else if y < - max_float then NInf else Fin y)"

lemma bitlen_pow_bounds:
  assumes "0 < (p :: int)"
  shows "2 powi (bitlen p - 1) \<le> (of_int p :: rat)" "(of_int p :: rat) < 2 powi (bitlen p)"
proof -
  have b: "2 ^ nat (bitlen p - 1) \<le> p \<and> p < 2 ^ nat (bitlen p)"
    using assms by (rule bitlen_bounds)
  have pos: "0 < bitlen p" using assms
    by (metis bitlen_eq_zero_iff bitlen_nonneg less_le not_less)
  have e1: "(2 :: rat) powi (bitlen p - 1) = of_int (2 ^ nat (bitlen p - 1))"
    using pos by (simp add: power_int_def)
  have e2: "(2 :: rat) powi (bitlen p) = of_int (2 ^ nat (bitlen p))"
    using pos by (simp add: power_int_def)
  show "2 powi (bitlen p - 1) \<le> (of_int p :: rat)"
    unfolding e1 using b by linarith
  show "(of_int p :: rat) < 2 powi (bitlen p)"
    unfolding e2 using b by linarith
qed

lemma ilog2_bounds:
  assumes "0 < x"
  shows "2 powi ilog2 x \<le> x" "x < 2 powi (ilog2 x + 1)"
proof -
  obtain p q where pq: "quotient_of x = (p, q)" by force
  have q: "0 < q" and x: "x = of_int p / of_int q"
    using pq quotient_of_denom_pos quotient_of_div by auto
  have p: "0 < p" using assms q x by (simp add: zero_less_divide_iff)
  let ?k = "bitlen p - bitlen q"
  note bp = bitlen_pow_bounds [OF p] and bq = bitlen_pow_bounds [OF q]
  have split1: "(2 :: rat) powi (?k + 1) = 2 powi (bitlen p) / 2 powi (bitlen q - 1)"
    by (simp add: power_int_diff [symmetric] algebra_simps)
  have split2: "(2 :: rat) powi (?k - 1) = 2 powi (bitlen p - 1) / 2 powi (bitlen q)"
    by (simp add: power_int_diff [symmetric] algebra_simps)
  have up: "x < 2 powi (?k + 1)"
    unfolding split1 x using p q bp bq
    by (intro frac_less) (auto simp: less_imp_le)
  have lo: "2 powi (?k - 1) \<le> x"
    unfolding split2 x using p q bp bq
    by (intro frac_le) (auto simp: less_imp_le)
  show "2 powi ilog2 x \<le> x" "x < 2 powi (ilog2 x + 1)"
    using up lo by (auto simp: ilog2_def pq Let_def)
qed

lemma ilog2_mono:
  assumes "0 < x" "x \<le> y"
  shows "ilog2 x \<le> ilog2 y"
proof (rule ccontr)
  assume "\<not> ilog2 x \<le> ilog2 y"
  then have "ilog2 y + 1 \<le> ilog2 x" by simp
  then have "(2 :: rat) powi (ilog2 y + 1) \<le> 2 powi ilog2 x"
    by (intro power_int_increasing) auto
  moreover have "y < 2 powi (ilog2 y + 1)" using assms by (intro ilog2_bounds) simp
  moreover have "2 powi ilog2 x \<le> x" using assms(1) by (rule ilog2_bounds)
  ultimately show False using assms(2) by linarith
qed

lemma round_even_bounds: "\<lfloor>x\<rfloor> \<le> round_even x" "round_even x \<le> \<lfloor>x\<rfloor> + 1"
  by (auto simp: round_even_def Let_def)

lemma round_even_of_int [simp]: "round_even (of_int i) = i"
  by (simp add: round_even_def)

lemma round_even_mono:
  assumes "x \<le> y"
  shows "round_even x \<le> round_even y"
proof (cases "\<lfloor>x\<rfloor> = \<lfloor>y\<rfloor>")
  case True
  then show ?thesis using assms by (auto simp: round_even_def Let_def)
next
  case False
  then have "\<lfloor>x\<rfloor> + 1 \<le> \<lfloor>y\<rfloor>" using floor_mono [OF assms] by linarith
  then show ?thesis using round_even_bounds(2) [of x] round_even_bounds(1) [of y] by linarith
qed

lemma round_even_minus: "round_even (- x) = - round_even x"
proof (cases "of_int \<lfloor>x\<rfloor> = x")
  case True
  then show ?thesis by (metis of_int_minus round_even_of_int)
next
  case False
  then have c: "\<lfloor>- x\<rfloor> = - \<lfloor>x\<rfloor> - 1"
    by (metis ceiling_def ceiling_altdef minus_minus diff_minus_eq_add add.commute
        minus_add_distrib uminus_add_conv_diff)
  show ?thesis unfolding round_even_def Let_def c by auto
qed

lemma round_even_error: "\<bar>of_int (round_even x) - x\<bar> \<le> 1 / 2"
proof -
  have "of_int \<lfloor>x\<rfloor> \<le> x" "x < of_int \<lfloor>x\<rfloor> + 1" by linarith+
  then show ?thesis unfolding round_even_def Let_def by (auto simp: abs_if; linarith)
qed

lemma fl_0 [simp]: "fl 0 = 0"
  by (simp add: fl_def)

lemma fl_minus: "fl (- x) = - fl x"
  by (simp add: fl_def ulp_exp_def round_even_minus)

text \<open>A value that is an integral multiple of its last place is representable.\<close>

lemma fl_exact:
  assumes "x = of_int m * 2 powi ulp_exp x"
  shows "fl x = x"
proof -
  have "x / 2 powi ulp_exp x = of_int m" using assms by (simp add: field_simps)
  then show ?thesis using assms by (simp add: fl_def)
qed

lemma fl_of_int:
  assumes "\<bar>i\<bar> < 2 ^ 53"
  shows "fl (of_int i) = of_int i"
proof (cases "i = 0")
  case False
  let ?x = "of_int i :: rat"
  have pos: "0 < \<bar>?x\<bar>" using False by simp
  have "2 powi ilog2 \<bar>?x\<bar> \<le> \<bar>?x\<bar>" using pos by (rule ilog2_bounds)
  also have "\<bar>?x\<bar> < 2 powi 53"
  proof -
    have "\<bar>?x\<bar> = of_int \<bar>i\<bar>" by simp
    also have "\<dots> < of_int (2 ^ 53)" using assms by (simp only: of_int_less_iff)
    finally show ?thesis by simp
  qed
  finally have less: "(2 :: rat) powi ilog2 \<bar>?x\<bar> < 2 powi 53" .
  have "ilog2 \<bar>?x\<bar> < 53"
  proof (rule ccontr)
    assume "\<not> ilog2 \<bar>?x\<bar> < 53"
    then have "(2 :: rat) powi 53 \<le> 2 powi ilog2 \<bar>?x\<bar>" by (intro power_int_increasing) auto
    with less show False by linarith
  qed
  then have "ulp_exp ?x \<le> 0" by (simp add: ulp_exp_def)
  then have "?x = of_int (i * 2 ^ nat (- ulp_exp ?x)) * 2 powi ulp_exp ?x"
    by (auto simp: power_int_def power_mult_distrib [symmetric])
  then show ?thesis by (rule fl_exact)
qed simp

lemma fl_1 [simp]: "fl 1 = 1"
  using fl_of_int [of 1] by simp

lemma powi_quotient_int:
  assumes "e \<le> l"
  shows "(2 :: rat) powi l / 2 powi e = of_int (2 ^ nat (l - e))"
proof -
  have "(2 :: rat) powi l / 2 powi e = 2 powi (l - e)" by (simp add: power_int_diff)
  then show ?thesis using assms by (simp add: power_int_def)
qed

lemma fl_le_pow:
  assumes "0 < x" "x \<le> 2 powi l" "ulp_exp x \<le> l"
  shows "fl x \<le> 2 powi l"
proof -
  let ?e = "ulp_exp x"
  have "x / 2 powi ?e \<le> of_int (2 ^ nat (l - ?e))"
    using assms(2) powi_quotient_int [OF assms(3)] divide_right_mono [of x "2 powi l" "2 powi ?e"]
    by simp
  then have "round_even (x / 2 powi ?e) \<le> 2 ^ nat (l - ?e)"
    by (metis round_even_mono round_even_of_int)
  then have "(of_int (round_even (x / 2 powi ?e)) :: rat) \<le> of_int (2 ^ nat (l - ?e))"
    by (simp only: of_int_le_iff)
  then have "(of_int (round_even (x / 2 powi ?e)) :: rat) \<le> 2 powi l / 2 powi ?e"
    by (simp only: powi_quotient_int [OF assms(3)])
  then show ?thesis using assms(1) by (simp add: fl_def field_simps)
qed

lemma fl_ge_pow:
  assumes "0 < x" "2 powi l \<le> x" "ulp_exp x \<le> l"
  shows "2 powi l \<le> fl x"
proof -
  let ?e = "ulp_exp x"
  have "of_int (2 ^ nat (l - ?e)) \<le> x / 2 powi ?e"
    using assms(2) powi_quotient_int [OF assms(3)] divide_right_mono [of "2 powi l" x "2 powi ?e"]
    by simp
  then have "2 ^ nat (l - ?e) \<le> round_even (x / 2 powi ?e)"
    by (metis round_even_mono round_even_of_int)
  then have "of_int (2 ^ nat (l - ?e)) \<le> (of_int (round_even (x / 2 powi ?e)) :: rat)"
    by (simp only: of_int_le_iff)
  then have "2 powi l / 2 powi ?e \<le> (of_int (round_even (x / 2 powi ?e)) :: rat)"
    by (simp only: powi_quotient_int [OF assms(3)])
  then show ?thesis using assms(1) by (simp add: fl_def field_simps)
qed

lemma fl_mono_pos:
  assumes "0 < x" "x \<le> y"
  shows "fl x \<le> fl y"
proof -
  let ?ex = "ulp_exp x" and ?ey = "ulp_exp y"
  have y: "0 < y" using assms by simp
  have ee: "?ex \<le> ?ey" using assms ilog2_mono [of x y] by (simp add: ulp_exp_def)
  show ?thesis
  proof (cases "?ex = ?ey")
    case True
    have "round_even (x / 2 powi ?ey) \<le> round_even (y / 2 powi ?ey)"
      using assms(2) by (intro round_even_mono divide_right_mono) auto
    then have "(of_int (round_even (x / 2 powi ?ey)) :: rat)
        \<le> of_int (round_even (y / 2 powi ?ey))" by (simp only: of_int_le_iff)
    then show ?thesis using True assms(1) y by (simp add: fl_def)
  next
    case False
    let ?l = "ilog2 y"
    have ey: "?ey = ?l - 52" using ee False assms(1) y by (auto simp: ulp_exp_def)
    have "ilog2 x + 1 \<le> ?l" using ee False assms(1) y by (auto simp: ulp_exp_def)
    then have "(2 :: rat) powi (ilog2 x + 1) \<le> 2 powi ?l" by (intro power_int_increasing) auto
    then have "x \<le> 2 powi ?l" using ilog2_bounds(2) [OF assms(1)] by linarith
    then have "fl x \<le> 2 powi ?l" using assms(1) ee ey by (intro fl_le_pow) auto
    moreover have "2 powi ?l \<le> fl y" using y ey ilog2_bounds(1) [OF y] by (intro fl_ge_pow) auto
    ultimately show ?thesis by linarith
  qed
qed

lemma fl_nonneg: "0 \<le> x \<Longrightarrow> 0 \<le> fl x"
proof (cases "x = 0")
  case False
  assume "0 \<le> x"
  have "0 \<le> round_even (x / 2 powi ulp_exp x)"
    using \<open>0 \<le> x\<close> round_even_mono [of 0 "x / 2 powi ulp_exp x"] round_even_of_int [of 0] by simp
  then show ?thesis using False by (simp add: fl_def)
qed simp

theorem fl_mono: "x \<le> y \<Longrightarrow> fl x \<le> fl y"
proof (cases "0 < x")
  case True
  then show "x \<le> y \<Longrightarrow> ?thesis" by (rule fl_mono_pos)
next
  case False
  assume "x \<le> y"
  show ?thesis
  proof (cases "y < 0")
    case True
    then show ?thesis using fl_mono_pos [of "- y" "- x"] \<open>x \<le> y\<close> by (simp add: fl_minus)
  next
    case False
    have "0 \<le> fl (- x)" using \<open>\<not> 0 < x\<close> by (intro fl_nonneg) simp
    moreover have "0 \<le> fl y" using False by (intro fl_nonneg) simp
    ultimately show ?thesis by (simp add: fl_minus)
  qed
qed

text \<open>The interface the numeric components rely on: a monotone rounding, exact at 0 and 1.\<close>

locale rounding =
  fixes rnd :: "rat \<Rightarrow> rat"
  assumes rnd_mono: "x \<le> y \<Longrightarrow> rnd x \<le> rnd y"
    and rnd_0: "rnd 0 = 0"
    and rnd_1: "rnd 1 = 1"
begin

lemma rnd_unit_interval: "0 \<le> x \<Longrightarrow> x \<le> 1 \<Longrightarrow> 0 \<le> rnd x \<and> rnd x \<le> 1"
  using rnd_mono [of 0 x] rnd_mono [of x 1] by (simp add: rnd_0 rnd_1)

lemma rnd_nonneg: "0 \<le> x \<Longrightarrow> 0 \<le> rnd x"
  using rnd_mono [of 0 x] by (simp add: rnd_0)

lemma rnd_ratio:
  assumes "0 \<le> a" "a \<le> b"
  shows "0 \<le> rnd (of_int a / of_int b) \<and> rnd (of_int a / of_int b) \<le> 1"
  using assms by (intro rnd_unit_interval) (auto simp: divide_le_eq_1)

lemma rnd_ge_threshold: "rnd t = t \<Longrightarrow> t \<le> x \<Longrightarrow> t \<le> rnd x"
  using rnd_mono [of t x] by simp

lemma rnd_le_threshold: "rnd t = t \<Longrightarrow> x \<le> t \<Longrightarrow> rnd x \<le> t"
  using rnd_mono [of x t] by simp

end

interpretation ieee: rounding fl
  by unfold_locales (auto intro: fl_mono)

section \<open>Operations\<close>

fun f_le :: "pyfloat \<Rightarrow> pyfloat \<Rightarrow> bool" where
  "f_le (Fin a) (Fin b) = (a \<le> b)"
| "f_le NaN _ = False"
| "f_le _ NaN = False"
| "f_le NInf _ = True"
| "f_le _ PInf = True"
| "f_le _ _ = False"

fun f_lt :: "pyfloat \<Rightarrow> pyfloat \<Rightarrow> bool" where
  "f_lt (Fin a) (Fin b) = (a < b)"
| "f_lt NaN _ = False"
| "f_lt _ NaN = False"
| "f_lt PInf _ = False"
| "f_lt _ NInf = False"
| "f_lt _ _ = True"

definition f_eq :: "pyfloat \<Rightarrow> pyfloat \<Rightarrow> bool" where
  "f_eq a b = (a = b \<and> a \<noteq> NaN)"

definition isfinite :: "pyfloat \<Rightarrow> bool" where
  "isfinite a = (case a of Fin _ \<Rightarrow> True | _ \<Rightarrow> False)"

fun f_neg :: "pyfloat \<Rightarrow> pyfloat" where
  "f_neg (Fin a) = Fin (- a)"
| "f_neg PInf = NInf"
| "f_neg NInf = PInf"
| "f_neg NaN = NaN"

fun f_add :: "pyfloat \<Rightarrow> pyfloat \<Rightarrow> pyfloat" where
  "f_add (Fin a) (Fin b) = to_float (a + b)"
| "f_add NaN _ = NaN"
| "f_add _ NaN = NaN"
| "f_add PInf NInf = NaN"
| "f_add NInf PInf = NaN"
| "f_add PInf _ = PInf"
| "f_add _ PInf = PInf"
| "f_add NInf _ = NInf"
| "f_add _ NInf = NInf"

definition f_sub :: "pyfloat \<Rightarrow> pyfloat \<Rightarrow> pyfloat" where
  "f_sub a b = f_add a (f_neg b)"

fun f_sign :: "pyfloat \<Rightarrow> int" where
  "f_sign (Fin a) = (if a < 0 then - 1 else if a = 0 then 0 else 1)"
| "f_sign PInf = 1"
| "f_sign NInf = - 1"
| "f_sign NaN = 0"

definition f_mul :: "pyfloat \<Rightarrow> pyfloat \<Rightarrow> pyfloat" where
  "f_mul a b = (case (a, b) of
     (Fin x, Fin y) \<Rightarrow> to_float (x * y)
   | _ \<Rightarrow> if a = NaN \<or> b = NaN \<or> f_sign a * f_sign b = 0 then NaN
          else if f_sign a * f_sign b > 0 then PInf else NInf)"

text \<open>\<open>a / b\<close> on floats: Python raises on a zero divisor.\<close>

definition f_div :: "pyfloat \<Rightarrow> pyfloat \<Rightarrow> pyfloat res" where
  "f_div a b = (case (a, b) of
     (_, Fin y) \<Rightarrow> if y = 0 then raise ZeroDivisionError ''float division by zero''
       else (case a of Fin x \<Rightarrow> Inr (to_float (x / y))
         | NaN \<Rightarrow> Inr NaN
         | _ \<Rightarrow> Inr (if f_sign a * f_sign b > 0 then PInf else NInf))
   | (Fin x, NaN) \<Rightarrow> Inr NaN
   | (Fin x, _) \<Rightarrow> Inr (Fin 0)
   | _ \<Rightarrow> Inr NaN)"

text \<open>\<open>float(i)\<close>, \<open>a / b\<close> on integers, \<open>int(x)\<close> (truncation).\<close>

definition float_of_int :: "int \<Rightarrow> pyfloat res" where
  "float_of_int i = (case to_float (of_int i) of Fin x \<Rightarrow> Inr (Fin x)
     | _ \<Rightarrow> raise OverflowError ''int too large to convert to float'')"

definition int_truediv :: "int \<Rightarrow> int \<Rightarrow> pyfloat res" where
  "int_truediv a b = (if b = 0 then raise ZeroDivisionError ''division by zero''
     else case to_float (of_int a / of_int b) of Fin x \<Rightarrow> Inr (Fin x)
       | _ \<Rightarrow> raise OverflowError ''integer division result too large for a float'')"

definition int_of_float :: "pyfloat \<Rightarrow> int res" where
  "int_of_float x = (case x of
     Fin a \<Rightarrow> Inr (if a < 0 then \<lceil>a\<rceil> else \<lfloor>a\<rfloor>)
   | NaN \<Rightarrow> raise ValueError ''cannot convert float NaN to integer''
   | _ \<Rightarrow> raise OverflowError ''cannot convert float infinity to integer'')"

definition f_abs :: "pyfloat \<Rightarrow> pyfloat" where
  "f_abs x = (if f_lt x (Fin 0) then f_neg x else x)"

text \<open>\<open>sum(xs)\<close> of floats, from the left.\<close>

definition py_sum :: "pyfloat list \<Rightarrow> pyfloat" where
  "py_sum xs = foldl f_add (Fin 0) xs"

text \<open>\<open>f"{x:.kf}"\<close> and \<open>f"{x:.k%}"\<close>: the decimal nearest to the binary value, ties to even.\<close>

definition zero_pad :: "nat \<Rightarrow> string \<Rightarrow> string" where
  "zero_pad k s = replicate (k - length s) (CHR ''0'') @ s"

definition fmt_fixed :: "nat \<Rightarrow> pyfloat \<Rightarrow> string" where
  "fmt_fixed k x = (case x of
     PInf \<Rightarrow> ''inf'' | NInf \<Rightarrow> ''-inf'' | NaN \<Rightarrow> ''nan''
   | Fin a \<Rightarrow> (let n = nat (round_even (\<bar>a\<bar> * 10 ^ k)) in
       (if a < 0 then ''-'' else '''') @ show_nat (n div 10 ^ k) @
       (if k = 0 then '''' else ''.'' @ zero_pad k (show_nat (n mod 10 ^ k)))))"

definition fmt_percent :: "nat \<Rightarrow> pyfloat \<Rightarrow> string" where
  "fmt_percent k x = fmt_fixed k (f_mul x (Fin 100)) @ ''%''"

lemma isfinite_simps [simp, float_simps]:
  "isfinite (Fin a)" "\<not> isfinite PInf" "\<not> isfinite NInf" "\<not> isfinite NaN"
  by (simp_all add: isfinite_def)

lemma isfinite_conv: "isfinite x \<longleftrightarrow> (\<exists>a. x = Fin a)"
  by (cases x) auto

lemma f_le_antisym_lt: "x \<noteq> NaN \<Longrightarrow> y \<noteq> NaN \<Longrightarrow> f_lt x y \<longleftrightarrow> \<not> f_le y x"
  by (cases x; cases y) auto

lemma max_float_ge_1: "1 \<le> max_float"
  unfolding max_float_def by simp

lemma to_float_unit:
  assumes "0 \<le> x" "x \<le> 1"
  shows "to_float x = Fin (fl x)"
proof -
  have "0 \<le> fl x \<and> fl x \<le> 1" using assms by (rule ieee.rnd_unit_interval)
  then show ?thesis using max_float_ge_1 by (simp add: to_float_def Let_def)
qed

text \<open>The share of a part in a whole, the shape of every ratio the sources compute.\<close>

lemma int_truediv_share:
  assumes "0 \<le> a" "a \<le> b" "0 < b"
  shows "int_truediv a b = Inr (Fin (fl (of_int a / of_int b)))"
  using assms to_float_unit [of "of_int a / of_int b"] by (simp add: int_truediv_def)

lemma float_of_int_small:
  assumes "\<bar>i\<bar> < 2 ^ 53"
  shows "float_of_int i = Inr (Fin (of_int i))"
proof -
  have "\<bar>of_int i :: rat\<bar> < 2 ^ 53"
    using assms by (metis of_int_abs of_int_less_iff of_int_numeral of_int_power)
  moreover have "(2 ^ 53 :: rat) \<le> max_float" unfolding max_float_def by simp
  ultimately show ?thesis
    using fl_of_int [OF assms] by (simp add: float_of_int_def to_float_def Let_def abs_less_iff)
qed

lemma to_float_small: "\<bar>i\<bar> < 2 ^ 53 \<Longrightarrow> to_float (of_int i) = Fin (of_int i)"
  using float_of_int_small [of i] by (auto simp: float_of_int_def split: pyfloat.splits)

lemma f_div_total: "y \<noteq> Fin 0 \<Longrightarrow> \<exists>x. f_div v y = Inr x"
  by (cases v; cases y) (auto simp: f_div_def)

text \<open>Powers of two are exact.\<close>

lemma ulp_exp_le:
  assumes "0 < x" "x \<le> 2 powi l" "- 1074 \<le> l"
  shows "ulp_exp x \<le> l"
proof -
  have "(2 :: rat) powi ilog2 x \<le> 2 powi l" using ilog2_bounds(1) [OF assms(1)] assms(2) by linarith
  then have "ilog2 x \<le> l"
    by (metis linorder_not_le one_less_numeral_iff power_int_strict_increasing semiring_norm(76))
  then show ?thesis using assms by (simp add: ulp_exp_def)
qed

lemma fl_powi:
  assumes "- 1074 \<le> l"
  shows "fl (2 powi l) = 2 powi l"
proof -
  let ?e = "ulp_exp (2 powi l)"
  have e: "?e \<le> l" using assms by (intro ulp_exp_le) simp_all
  have "(2 :: rat) powi l = of_int (2 ^ nat (l - ?e)) * 2 powi ?e"
    using powi_quotient_int [OF e] by (simp add: field_simps)
  then show ?thesis by (rule fl_exact)
qed

lemma fl_pow2: "fl (2 ^ n) = 2 ^ n"
  using fl_powi [of "int n"] by simp

lemma fl_half: "fl (1 / 2) = 1 / 2"
  using fl_powi [of "- 1"] by (simp add: power_int_minus field_simps)

lemma to_float_pow2: "n \<le> 1023 \<Longrightarrow> to_float (2 ^ n) = Fin (2 ^ n)"
proof -
  assume "n \<le> 1023"
  then have "(2 :: rat) ^ n \<le> 2 ^ 1023" by (intro power_increasing) simp_all
  moreover have "(2 :: rat) ^ 1023 \<le> max_float" unfolding max_float_def by simp
  ultimately have "(2 :: rat) ^ n \<le> max_float" by linarith
  moreover have "- max_float \<le> (2 :: rat) ^ n" using calculation max_float_ge_1 zero_le_power [of "2 :: rat" n] by linarith
  ultimately show ?thesis by (simp add: to_float_def fl_pow2 Let_def)
qed

lemma to_float_overflow: "to_float (2 ^ 1024) = PInf"
proof -
  have "max_float < (2 :: rat) ^ 1024" unfolding max_float_def by simp
  then show ?thesis by (simp only: to_float_def fl_pow2 Let_def if_True)
qed

lemma to_float_range:
  assumes "0 \<le> x" "x \<le> 2 ^ n" "n \<le> 1023"
  shows "to_float x = Fin (fl x)" "0 \<le> fl x" "fl x \<le> 2 ^ n"
proof -
  show f: "0 \<le> fl x" "fl x \<le> 2 ^ n"
    using fl_nonneg [OF assms(1)] fl_mono [OF assms(2)] by (simp_all add: fl_pow2)
  have "\<not> max_float < (2 :: rat) ^ n"
    using to_float_pow2 [OF assms(3)] by (auto simp: to_float_def fl_pow2 Let_def split: if_splits)
  then show "to_float x = Fin (fl x)" using f max_float_ge_1 by (simp add: to_float_def Let_def)
qed

end
