(* ===== verification/Bracket.thy ===== *)
theory Bracket
  imports Py_Float
begin

text \<open>
  The bracketed search of the pilot (\<open>research/cpu-limits/phase8/campaign/bracket.py\<close>): the
  plan of CPU limits to measure and the bracket derived from the trials. The \<open>while\<close> loop of
  \<open>plan_limits\<close> appends at most one limit per turn, so it recurses on the cells left.
\<close>

datatype outcome = MEETS_SLO | BREACHES_SLO | INVALID

datatype stop_reason = STOP_MEETS_SLO | CAPACITY_REACHED | INVALID_ONLY

section \<open>The plan\<close>

definition round_limit :: "pyfloat \<Rightarrow> int res" where
  "round_limit current =
     (if f_le (Fin 100) current
      then rbind (f_div current (Fin 10)) (\<lambda>q.
             rbind (int_of_float (f_add q (Fin (1 / 2)))) (\<lambda>i. Inr (i * 10)))
      else int_of_float (f_add current (Fin (1 / 2))))"

fun plan_loop :: "int \<Rightarrow> int \<Rightarrow> pyfloat \<Rightarrow> nat \<Rightarrow> pyfloat \<Rightarrow> int list \<Rightarrow> int list res" where
  "plan_loop mn mx growth 0 current limits = Inr limits"
| "plan_loop mn mx growth (Suc k) current limits =
     rbind (round_limit current) (\<lambda>raw.
       let limit = min (max raw mn) mx in
       if limits \<noteq> [] \<and> limit \<le> last limits then Inr limits
       else if limit \<ge> mx then Inr (limits @ [limit])
       else plan_loop mn mx growth k (f_mul current growth) (limits @ [limit]))"

definition plan_limits :: "int \<Rightarrow> int \<Rightarrow> pyfloat \<Rightarrow> int \<Rightarrow> int list res" where
  "plan_limits mn mx growth max_cells =
     (if mn < 1 then raise ValueError ''min_limit_millicores must be at least 1''
      else if mx < mn
        then raise ValueError ''max_limit_millicores must be at least min_limit_millicores''
      else if f_le growth (Fin 1)
        then raise ValueError ''growth must be greater than 1 or the plan never grows''
      else if max_cells < 1 then raise ValueError ''max_cells must be at least 1''
      else rbind (float_of_int mn) (\<lambda>current. plan_loop mn mx growth (nat max_cells) current []))"

section \<open>The bracket\<close>

record trial =
  limit_millicores :: int
  trial_outcome :: outcome
  trial_reason :: string

record bracket =
  passing_millicores :: int
  failing_below_millicores :: "int option"
  bracket_trials :: "trial list"
  bracket_stop :: stop_reason
  node_capacity_millicores :: int

fun first_not_increasing :: "trial list \<Rightarrow> (int \<times> int) option" where
  "first_not_increasing (a # b # ts) =
     (if limit_millicores b \<le> limit_millicores a
      then Some (limit_millicores a, limit_millicores b)
      else first_not_increasing (b # ts))"
| "first_not_increasing _ = None"

fun failing_loop :: "int \<Rightarrow> int option \<Rightarrow> trial list \<Rightarrow> int option" where
  "failing_loop p acc [] = acc"
| "failing_loop p acc (t # ts) =
     (if limit_millicores t \<ge> p then acc
      else failing_loop p
        (if trial_outcome t = BREACHES_SLO then Some (limit_millicores t) else acc) ts)"

definition evaluate_trials :: "trial list \<Rightarrow> int \<Rightarrow> bracket res" where
  "evaluate_trials trials capacity =
     (if trials = [] then raise PilotError ''no trials were recorded''
      else case first_not_increasing trials of
        Some (a, b) \<Rightarrow> raise PilotError (''trial limits must strictly increase: '' @
          show_int a @ ''m then '' @ show_int b @ ''m'')
      | None \<Rightarrow>
      (case find (\<lambda>t. limit_millicores t > capacity) trials of
        Some t \<Rightarrow> raise PilotError (''trial limit '' @ show_int (limit_millicores t) @
          ''m exceeds node capacity '' @ show_int capacity @
          ''m; the result would describe an unschedulable limit'')
      | None \<Rightarrow>
      (case find (\<lambda>t. trial_outcome t = MEETS_SLO) trials of
        None \<Rightarrow>
          (let invalid = filter (\<lambda>t. trial_outcome t = INVALID) trials in
           if invalid \<noteq> [] \<and> length invalid = length trials
           then raise PilotError
             (''every trial was invalid; the measurement chain never produced usable data'')
           else raise PilotError (''unsatisfiable: no admissible limit met the SLO, '' @
             ''highest tried was '' @ show_int (limit_millicores (last trials)) @
             ''m against node capacity '' @ show_int capacity @ ''m''))
      | Some passing \<Rightarrow>
          Inr \<lparr> passing_millicores = limit_millicores passing,
                failing_below_millicores = failing_loop (limit_millicores passing) None trials,
                bracket_trials = trials,
                bracket_stop = (if limit_millicores passing \<ge> capacity then CAPACITY_REACHED
                                else STOP_MEETS_SLO),
                node_capacity_millicores = capacity \<rparr>)))"

section \<open>Laws of the plan\<close>

definition plan_inv :: "int \<Rightarrow> int \<Rightarrow> int list \<Rightarrow> bool" where
  "plan_inv mn mx ls \<longleftrightarrow> sorted_wrt (<) ls \<and> (\<forall>l \<in> set ls. mn \<le> l \<and> l \<le> mx)"

lemma plan_inv_snoc:
  assumes "plan_inv mn mx ls" "mn \<le> l" "l \<le> mx" "ls = [] \<or> last ls < l"
  shows "plan_inv mn mx (ls @ [l])"
proof -
  have "\<forall>x \<in> set ls. x \<le> last ls"
    using assms(1) sorted_wrt_le_last [of "\<lambda>x. x" ls] by (auto simp: plan_inv_def)
  then show ?thesis using assms by (fastforce simp: plan_inv_def sorted_wrt_append)
qed

lemma plan_loop_inv:
  assumes "plan_loop mn mx g k cur ls = Inr ls'" "plan_inv mn mx ls" "mn \<le> mx"
  shows "plan_inv mn mx ls' \<and> length ls' \<le> length ls + k \<and> (ls \<noteq> [] \<or> 0 < k \<longrightarrow> ls' \<noteq> [])"
  using assms
proof (induction k arbitrary: cur ls)
  case (Suc k)
  from Suc.prems(1) obtain raw where r: "round_limit cur = Inr raw" by auto
  let ?l = "min (max raw mn) mx"
  have l: "mn \<le> ?l" "?l \<le> mx" using Suc.prems(3) by auto
  have step: "plan_inv mn mx (ls @ [?l])" if "\<not> (ls \<noteq> [] \<and> ?l \<le> last ls)"
    using Suc.prems(2) l that by (intro plan_inv_snoc) auto
  show ?case
  proof (cases "ls \<noteq> [] \<and> ?l \<le> last ls")
    case True
    then show ?thesis using Suc.prems r by (auto simp: Let_def)
  next
    case False
    show ?thesis
    proof (cases "?l \<ge> mx")
      case True
      then show ?thesis using Suc.prems r False step by (auto simp: Let_def split: if_splits)
    next
      case notmx: False
      then have "plan_loop mn mx g k (f_mul cur g) (ls @ [?l]) = Inr ls'"
        using Suc.prems(1) r False by (auto simp: Let_def split: if_splits)
      from Suc.IH [OF this step [OF False] Suc.prems(3)] show ?thesis by auto
    qed
  qed
qed auto

lemma fl_exact_pow: "0 \<le> k \<Longrightarrow> fl (2 ^ k) = 2 ^ k"
proof -
  let ?x = "2 ^ k :: rat"
  have pos: "0 < ?x" by simp
  have "ilog2 ?x = int k"
  proof (rule antisym)
    have "(2 :: rat) powi ilog2 ?x \<le> 2 powi (int k)" using ilog2_bounds(1) [OF pos] by simp
    then show "ilog2 ?x \<le> int k"
      by (metis linorder_not_le one_less_numeral_iff power_int_strict_increasing semiring_norm(76))
    have "(2 :: rat) powi (int k) < 2 powi (ilog2 ?x + 1)" using ilog2_bounds(2) [OF pos] by simp
    then show "int k \<le> ilog2 ?x"
      by (metis add1_zle_eq linorder_not_le one_le_numeral power_int_increasing)
  qed
  then have "ulp_exp ?x \<le> int k" by (simp add: ulp_exp_def)
  then have "?x = of_int (2 ^ nat (int k - ulp_exp ?x)) * 2 powi ulp_exp ?x"
    using powi_quotient_int [of "ulp_exp ?x" "int k"] by (simp add: field_simps)
  then show ?thesis by (rule fl_exact)
qed

lemma to_float_bounded:
  assumes "0 \<le> x" "x \<le> 2 ^ 1000"
  shows "to_float x = Fin (fl x)"
proof -
  have "fl x \<le> 2 ^ 1000" using fl_mono [OF assms(2)] fl_exact_pow [of 1000] by simp
  moreover have "(2 ^ 1000 :: rat) \<le> max_float" unfolding max_float_def by simp
  moreover have "0 \<le> fl x" using assms(1) by (rule fl_nonneg)
  moreover have "0 \<le> max_float" using max_float_ge_1 by simp
  ultimately show ?thesis by (simp add: to_float_def Let_def)
qed

lemma round_limit_total:
  assumes "1 \<le> c" "c \<le> 2 ^ 990"
  shows "\<exists>raw. round_limit (Fin c) = Inr raw \<and> (2 ^ 54 \<le> c \<longrightarrow> 2 ^ 53 \<le> raw)"
proof (cases "100 \<le> c")
  case True
  have q: "to_float (c / 10) = Fin (fl (c / 10))"
    using assms by (intro to_float_bounded) auto
  have qn: "0 \<le> fl (c / 10)" using assms(1) by (intro fl_nonneg) simp
  have "fl (c / 10) \<le> 2 ^ 990"
    using fl_mono [of "c / 10" "2 ^ 990"] assms fl_exact_pow [of 990] by simp
  then have qh: "to_float (fl (c / 10) + 1 / 2) = Fin (fl (fl (c / 10) + 1 / 2))"
    using qn by (intro to_float_bounded) auto
  let ?h = "fl (fl (c / 10) + 1 / 2)"
  have hn: "\<not> ?h < 0" using fl_nonneg [of "fl (c / 10) + 1 / 2"] qn by simp
  have r: "round_limit (Fin c) = Inr (\<lfloor>?h\<rfloor> * 10)"
    using True q qh hn by (simp add: round_limit_def f_div_def int_of_float_def)
  have "2 ^ 53 \<le> \<lfloor>?h\<rfloor> * 10" if "2 ^ 54 \<le> c"
  proof -
    have "(2 ^ 50 :: rat) \<le> c / 10" using that by simp
    then have "2 ^ 50 \<le> fl (c / 10)" using fl_mono fl_exact_pow [of 50] by fastforce
    then have "2 ^ 50 \<le> ?h" using fl_mono [of "2 ^ 50" "fl (c / 10) + 1 / 2"] fl_exact_pow [of 50]
      by simp
    then have "(of_int (2 ^ 50) :: rat) \<le> ?h" by simp
    then have "(2 ^ 50 :: int) \<le> \<lfloor>?h\<rfloor>" by (simp only: le_floor_iff)
    then have "(2 ^ 50 :: int) * 10 \<le> \<lfloor>?h\<rfloor> * 10" by (rule mult_right_mono) simp
    moreover have "(2 ^ 53 :: int) \<le> 2 ^ 50 * 10" by simp
    ultimately show ?thesis by (rule order_trans [rotated])
  qed
  with r show ?thesis by blast
next
  case False
  have "to_float (c + 1 / 2) = Fin (fl (c + 1 / 2))"
    using assms False by (intro to_float_bounded) auto
  moreover have "\<not> fl (c + 1 / 2) < 0" using fl_nonneg [of "c + 1 / 2"] assms by simp
  ultimately show ?thesis using False by (simp add: round_limit_def int_of_float_def)
qed

lemma plan_loop_total:
  assumes "1 < g" "g \<le> 2 ^ 900" "1 \<le> c" "c \<le> 2 ^ 990" "mx < 2 ^ 53"
  shows "\<exists>ls'. plan_loop mn mx (Fin g) k (Fin c) ls = Inr ls'"
  using assms
proof (induction k arbitrary: c ls)
  case (Suc k)
  obtain raw where r: "round_limit (Fin c) = Inr raw" and big: "2 ^ 54 \<le> c \<longrightarrow> 2 ^ 53 \<le> raw"
    using round_limit_total Suc.prems by blast
  let ?l = "min (max raw mn) mx"
  show ?case
  proof (cases "(ls \<noteq> [] \<and> ?l \<le> last ls) \<or> mx \<le> ?l")
    case True
    then show ?thesis using r by (auto simp: Let_def)
  next
    case False
    then have "raw < mx" by auto
    then have c: "c < 2 ^ 54" using big Suc.prems(5) by linarith
    have prod: "c * g \<le> 2 ^ 54 * 2 ^ 900"
      using c Suc.prems by (intro mult_mono) auto
    have one: "1 \<le> c * g" using Suc.prems mult_mono [of 1 c 1 g] by simp
    have "to_float (c * g) = Fin (fl (c * g))"
      using prod one by (intro to_float_bounded) auto
    then have m: "f_mul (Fin c) (Fin g) = Fin (fl (c * g))" by (simp add: f_mul_def)
    have "1 \<le> fl (c * g)" using fl_mono [OF one] by simp
    moreover have "fl (c * g) \<le> 2 ^ 990"
      using fl_mono [of "c * g" "2 ^ 990"] prod fl_exact_pow [of 990] by simp
    ultimately have "\<exists>ls'. plan_loop mn mx (Fin g) k (Fin (fl (c * g))) (ls @ [?l]) = Inr ls'"
      using Suc.prems by (intro Suc.IH) auto
    then show ?thesis using r m False by (auto simp: Let_def)
  qed
qed simp

section \<open>Laws of the bracket\<close>

abbreviation increasing :: "trial list \<Rightarrow> bool" where
  "increasing ts \<equiv> sorted_wrt (\<lambda>a b. limit_millicores a < limit_millicores b) ts"

lemma first_not_increasing_None: "first_not_increasing ts = None \<longleftrightarrow> increasing ts"
proof (induction ts rule: first_not_increasing.induct)
  case (1 a b ts)
  then show ?case by (auto intro: less_trans)
qed auto

lemma failing_loop_increasing:
  assumes "increasing ts"
  shows "failing_loop p acc ts =
    (let bs = filter (\<lambda>t. limit_millicores t < p \<and> trial_outcome t = BREACHES_SLO) ts
     in if bs = [] then acc else Some (limit_millicores (last bs)))"
  using assms
proof (induction ts arbitrary: acc)
  case (Cons t ts)
  have none: "filter (\<lambda>u. limit_millicores u < p \<and> trial_outcome u = BREACHES_SLO) ts = []"
    if "limit_millicores t \<ge> p"
    using Cons.prems that by (auto simp: filter_empty_conv)
  show ?case using Cons none by (auto simp: Let_def)
qed simp

lemma last_filter_Max:
  assumes "increasing ts" "filter P ts \<noteq> []"
  shows "limit_millicores (last (filter P ts)) = Max (limit_millicores ` set (filter P ts))"
proof -
  let ?fs = "filter P ts"
  have "increasing ?fs" using assms(1) by (rule sorted_wrt_filter)
  then have "\<forall>t \<in> set ?fs. limit_millicores t \<le> limit_millicores (last ?fs)"
    by (intro ballI sorted_wrt_le_last [of limit_millicores]) auto
  then show ?thesis using last_in_set [OF assms(2)]
    by (intro Max_eqI [symmetric]) (auto simp del: set_filter)
qed

lemma evaluate_trials_ok:
  assumes "evaluate_trials ts cap = Inr b"
  shows "ts \<noteq> []" "increasing ts" "\<forall>t \<in> set ts. limit_millicores t \<le> cap"
    "\<exists>p. find (\<lambda>t. trial_outcome t = MEETS_SLO) ts = Some p \<and>
       b = \<lparr> passing_millicores = limit_millicores p,
             failing_below_millicores = failing_loop (limit_millicores p) None ts,
             bracket_trials = ts,
             bracket_stop = (if limit_millicores p \<ge> cap then CAPACITY_REACHED
                             else STOP_MEETS_SLO),
             node_capacity_millicores = cap \<rparr>"
  using assms
  by (auto simp: evaluate_trials_def Let_def first_not_increasing_None [symmetric] find_None_iff
      split: if_splits option.splits)

lemma find_Some_split:
  assumes "find P xs = Some x"
  shows "\<exists>us vs. xs = us @ x # vs \<and> P x \<and> (\<forall>u \<in> set us. \<not> P u)"
  using assms
proof (induction xs)
  case (Cons y ys)
  show ?case
  proof (cases "P y")
    case True
    then show ?thesis using Cons.prems by (auto intro: exI [of _ "[]"])
  next
    case False
    then obtain us vs where "ys = us @ x # vs \<and> P x \<and> (\<forall>u \<in> set us. \<not> P u)"
      using Cons by auto
    then show ?thesis using False by (intro exI [of _ "y # us"] exI [of _ vs]) auto
  qed
qed simp

lemma passing_is_Min:
  assumes "increasing ts" "find P ts = Some p"
  shows "limit_millicores p = Min (limit_millicores ` {t \<in> set ts. P t})"
proof -
  obtain us vs where ts: "ts = us @ p # vs" "P p" "\<forall>u \<in> set us. \<not> P u"
    using find_Some_split [OF assms(2)] by blast
  have "limit_millicores p \<le> limit_millicores t" if "t \<in> set ts" "P t" for t
    using assms(1) ts that by (auto simp: sorted_wrt_append)
  then show ?thesis using ts by (intro Min_eqI [symmetric]) auto
qed

abbreviation limits_where :: "(trial \<Rightarrow> bool) \<Rightarrow> trial list \<Rightarrow> int set" where
  "limits_where P ts \<equiv> limit_millicores ` {t \<in> set ts. P t}"

lemma failing_loop_Max:
  assumes "increasing ts"
  shows "failing_loop p None ts =
    (let L = limits_where (\<lambda>t. limit_millicores t < p \<and> trial_outcome t = BREACHES_SLO) ts
     in if L = {} then None else Some (Max L))"
proof -
  let ?P = "\<lambda>t. limit_millicores t < p \<and> trial_outcome t = BREACHES_SLO"
  have set: "limits_where ?P ts = limit_millicores ` set (filter ?P ts)" by simp
  show ?thesis
    unfolding failing_loop_increasing [OF assms] Let_def set
    using last_filter_Max [OF assms, of ?P] by (auto simp: filter_empty_conv)
qed

section \<open>Properties\<close>



text \<open>
  The derivation of the bracket succeeds exactly on a non-empty, strictly increasing list
  of trials within the node capacity that holds a trial meeting the objectives; every other
  list raises. No bracket is guessed when no admissible limit passed.
\<close>

theorem evaluate_trials_succeeds_iff:
  "is_ok (evaluate_trials ts cap) \<longleftrightarrow>
     ts \<noteq> [] \<and> sorted_wrt (\<lambda>a b. limit_millicores a < limit_millicores b) ts
     \<and> (\<forall>t \<in> set ts. limit_millicores t \<le> cap)
     \<and> (\<exists>t \<in> set ts. trial_outcome t = MEETS_SLO)"
proof -
  have "is_ok (evaluate_trials ts cap) \<longleftrightarrow> ts \<noteq> [] \<and> first_not_increasing ts = None
      \<and> find (\<lambda>t. limit_millicores t > cap) ts = None
      \<and> find (\<lambda>t. trial_outcome t = MEETS_SLO) ts \<noteq> None"
    by (cases "ts = []"; cases "first_not_increasing ts";
        cases "find (\<lambda>t. limit_millicores t > cap) ts";
        cases "find (\<lambda>t. trial_outcome t = MEETS_SLO) ts")
      (simp_all add: evaluate_trials_def Let_def split: prod.split)
  moreover have "find (\<lambda>t. limit_millicores t > cap) ts = None
      \<longleftrightarrow> (\<forall>t \<in> set ts. limit_millicores t \<le> cap)"
    by (auto simp: find_None_iff not_less)
  moreover have "find (\<lambda>t. trial_outcome t = MEETS_SLO) ts \<noteq> None
      \<longleftrightarrow> (\<exists>t \<in> set ts. trial_outcome t = MEETS_SLO)"
    unfolding find_None_iff by blast
  ultimately show ?thesis by (simp only: first_not_increasing_None)
qed

theorem evaluate_trials_succeeds_iff_witness:
  "is_ok (evaluate_trials
      [\<lparr>limit_millicores = 100, trial_outcome = INVALID, trial_reason = []\<rparr>,
       \<lparr>limit_millicores = 200, trial_outcome = MEETS_SLO, trial_reason = []\<rparr>] 200)"
  unfolding evaluate_trials_succeeds_iff by simp

text \<open>
  C3: a derived bracket is the one the trials determine: the passing limit is the smallest
  limit that met the objectives, the failing limit is the largest breaching limit below it
  (none when no breach was measured below), the trials and the capacity are recorded
  unchanged, and the stop reason says whether the passing limit exhausts the node.
\<close>

theorem evaluate_trials_bracket:
  assumes "evaluate_trials ts cap = Inr b"
  shows "passing_millicores b = Min (limits_where (\<lambda>t. trial_outcome t = MEETS_SLO) ts)
    \<and> failing_below_millicores b =
        (let L = limits_where (\<lambda>t. limit_millicores t < passing_millicores b
                   \<and> trial_outcome t = BREACHES_SLO) ts
         in if L = {} then None else Some (Max L))
    \<and> passing_millicores b \<le> cap
    \<and> (bracket_stop b = CAPACITY_REACHED \<longleftrightarrow> passing_millicores b = cap)
    \<and> bracket_trials b = ts \<and> node_capacity_millicores b = cap"
proof -
  note ok = evaluate_trials_ok [OF assms]
  obtain p where p: "find (\<lambda>t. trial_outcome t = MEETS_SLO) ts = Some p"
    and b: "passing_millicores b = limit_millicores p"
      "failing_below_millicores b = failing_loop (limit_millicores p) None ts"
      "bracket_trials b = ts" "node_capacity_millicores b = cap"
      "bracket_stop b = (if limit_millicores p \<ge> cap then CAPACITY_REACHED else STOP_MEETS_SLO)"
    using ok(4) by auto
  have "p \<in> set ts" using find_Some_split [OF p] by auto
  then have "limit_millicores p \<le> cap" using ok(3) by blast
  then show ?thesis
    unfolding b failing_loop_Max [OF ok(2)] passing_is_Min [OF ok(2) p, symmetric]
    by simp
qed

theorem evaluate_trials_bracket_witness:
  "\<exists>b. evaluate_trials
      [\<lparr>limit_millicores = 100, trial_outcome = BREACHES_SLO, trial_reason = []\<rparr>,
       \<lparr>limit_millicores = 200, trial_outcome = MEETS_SLO, trial_reason = []\<rparr>] 4000 = Inr b
    \<and> passing_millicores b = 200 \<and> failing_below_millicores b = Some 100"
proof -
  let ?ts = "[\<lparr>limit_millicores = 100, trial_outcome = BREACHES_SLO, trial_reason = []\<rparr>,
       \<lparr>limit_millicores = 200, trial_outcome = MEETS_SLO, trial_reason = []\<rparr>]"
  obtain b where b: "evaluate_trials ?ts 4000 = Inr b"
    by (simp add: evaluate_trials_def)
  have sets: "{t \<in> set ?ts. trial_outcome t = MEETS_SLO} = {?ts ! 1}"
    "{t \<in> set ?ts. limit_millicores t < 200 \<and> trial_outcome t = BREACHES_SLO} = {?ts ! 0}"
    by auto
  have pass: "passing_millicores b = 200"
    using evaluate_trials_bracket [OF b] unfolding sets by simp
  then show ?thesis
    using evaluate_trials_bracket [OF b, unfolded pass sets Let_def] b by simp
qed

end
