(* ===== verification/Slo.thy ===== *)
theory Slo
  imports Bracket
begin

text \<open>
  The verdict of one pilot cell (\<open>research/cpu-limits/phase8/campaign/slo.py\<close>): the
  objectives with their constructor check, the observation, and the function that turns an
  observation into an outcome and a reason.
\<close>

record slo =
  max_p99_latency_ms :: pyfloat
  min_throughput_rps :: pyfloat
  max_error_ratio :: pyfloat
  min_availability_ratio :: pyfloat

definition Slo_post_init :: "slo \<Rightarrow> slo res" where
  "Slo_post_init s =
     (if f_le (max_p99_latency_ms s) (Fin 0)
        then raise ValueError ''max_p99_latency_ms must be positive''
      else if f_lt (min_throughput_rps s) (Fin 0)
        then raise ValueError ''min_throughput_rps must not be negative''
      else if \<not> (f_le (Fin 0) (max_error_ratio s) \<and> f_le (max_error_ratio s) (Fin 1))
        then raise ValueError ''max_error_ratio must be within 0..=1''
      else if \<not> (f_le (Fin 0) (min_availability_ratio s)
                  \<and> f_le (min_availability_ratio s) (Fin 1))
        then raise ValueError ''min_availability_ratio must be within 0..=1''
      else Inr s)"

record observation =
  p50_latency_ms :: "pyfloat option"
  p99_latency_ms :: "pyfloat option"
  throughput_rps :: "pyfloat option"
  error_ratio :: "pyfloat option"
  availability_ratio :: "pyfloat option"
  cpu_usage_millicores :: "pyfloat option"
  throttled_ms_per_second :: "pyfloat option"
  completed_requests :: int
  loadgen_valid :: bool
  loadgen_invalid_reason :: string
  target_reached :: "bool option"

text \<open>\<open>getattr(self, name) is None\<close>; the last four fields hold no \<open>None\<close> but \<open>target_reached\<close>.\<close>

definition field_is_None :: "observation \<Rightarrow> string \<Rightarrow> bool res" where
  "field_is_None o1 name =
     (if name = ''p50_latency_ms'' then Inr (p50_latency_ms o1 = None)
      else if name = ''p99_latency_ms'' then Inr (p99_latency_ms o1 = None)
      else if name = ''throughput_rps'' then Inr (throughput_rps o1 = None)
      else if name = ''error_ratio'' then Inr (error_ratio o1 = None)
      else if name = ''availability_ratio'' then Inr (availability_ratio o1 = None)
      else if name = ''cpu_usage_millicores'' then Inr (cpu_usage_millicores o1 = None)
      else if name = ''throttled_ms_per_second'' then Inr (throttled_ms_per_second o1 = None)
      else if name = ''completed_requests'' then Inr False
      else if name = ''loadgen_valid'' then Inr False
      else if name = ''loadgen_invalid_reason'' then Inr False
      else if name = ''target_reached'' then Inr (target_reached o1 = None)
      else raise AttributeError (''Observation object has no attribute '' @ name))"

fun missing_fields :: "observation \<Rightarrow> string list \<Rightarrow> string list res" where
  "missing_fields o1 [] = Inr []"
| "missing_fields o1 (name # names) =
     rbind (field_is_None o1 name) (\<lambda>none.
       rbind (missing_fields o1 names) (\<lambda>rest. Inr (if none then name # rest else rest)))"

text \<open>\<open>FAILED_REQUESTS_PATTERN\<close>: digits, \<open> of \<close>, digits, \<open> requests failed\<close>, at the start.\<close>

definition match_failed_requests :: "string \<Rightarrow> (string \<times> string) option" where
  "match_failed_requests s =
     (let g1 = takeWhile is_digit s; r1 = dropWhile is_digit s in
      if g1 = [] \<or> \<not> prefix '' of '' r1 then None
      else let r2 = drop 4 r1; g2 = takeWhile is_digit r2; r3 = dropWhile is_digit r2 in
        if g2 = [] \<or> \<not> prefix '' requests failed'' r3 then None else Some (g1, g2))"

definition failed_request_share :: "string \<Rightarrow> pyfloat option res" where
  "failed_request_share reason =
     (case match_failed_requests reason of
        None \<Rightarrow> Inr None
      | Some (g1, g2) \<Rightarrow>
          rbind (int_truediv (int (digits_val g1)) (int (digits_val g2))) (\<lambda>x. Inr (Some x)))"

definition service_breach_share :: "observation \<Rightarrow> pyfloat option res" where
  "service_breach_share o1 =
     (if loadgen_valid o1 \<or> target_reached o1 \<noteq> Some True then Inr None
      else failed_request_share (loadgen_invalid_reason o1))"

definition default_required_fields :: "string list" where
  "default_required_fields =
     [''p50_latency_ms'', ''p99_latency_ms'', ''throughput_rps'', ''error_ratio'',
      ''availability_ratio'', ''cpu_usage_millicores'', ''throttled_ms_per_second'']"

definition DEFAULT_INVALID_ERROR_SHARE :: pyfloat where
  "DEFAULT_INVALID_ERROR_SHARE = Fin (1 / 2)"

definition slo_breaches :: "slo \<Rightarrow> pyfloat \<Rightarrow> pyfloat \<Rightarrow> pyfloat \<Rightarrow> pyfloat \<Rightarrow> string list" where
  "slo_breaches s p99 thr err avail =
     (if f_lt (max_p99_latency_ms s) p99
      then [''p99 '' @ fmt_fixed 1 p99 @ '' ms > '' @ fmt_fixed 1 (max_p99_latency_ms s) @ '' ms'']
      else []) @
     (if f_lt thr (min_throughput_rps s)
      then [''throughput '' @ fmt_fixed 1 thr @ '' rps < '' @
            fmt_fixed 1 (min_throughput_rps s) @ '' rps'']
      else []) @
     (if f_lt (max_error_ratio s) err
      then [''error ratio '' @ fmt_fixed 4 err @ '' > '' @ fmt_fixed 4 (max_error_ratio s)]
      else []) @
     (if f_lt avail (min_availability_ratio s)
      then [''availability '' @ fmt_fixed 4 avail @ '' < '' @ fmt_fixed 4 (min_availability_ratio s)]
      else [])"

text \<open>\<open>verdict\<close> from its \<open>assert\<close> statements on: every required field is present.\<close>

definition judge_values :: "observation \<Rightarrow> slo \<Rightarrow> (outcome \<times> string) res" where
  "judge_values o1 s =
     (case (p99_latency_ms o1, throughput_rps o1, error_ratio o1, availability_ratio o1) of
        (Some p99, Some thr, Some err, Some avail) \<Rightarrow>
          (case find (\<lambda>(n, v). \<not> isfinite v)
             [(''p99_latency_ms'', p99), (''throughput_rps'', thr),
              (''error_ratio'', err), (''availability_ratio'', avail)] of
             Some (n, v) \<Rightarrow> Inr (INVALID, n @ '' is not finite ('' @ fmt_fixed 0 v @ '')'')
           | None \<Rightarrow>
               (let breaches = slo_breaches s p99 thr err avail in
                if breaches \<noteq> [] then Inr (BREACHES_SLO, join ''; '' breaches)
                else Inr (MEETS_SLO, ''all objectives met'')))
      | _ \<Rightarrow> raise AssertionError [])"

text \<open>The branch of \<open>verdict\<close> for a run the load generator reported invalid.\<close>

definition judge_loadgen_invalid :: "observation \<Rightarrow> pyfloat \<Rightarrow> (outcome \<times> string) res" where
  "judge_loadgen_invalid o1 invalid_error_share =
     (let reason = (if loadgen_invalid_reason o1 \<noteq> [] then loadgen_invalid_reason o1
                    else ''load generator reported the run invalid'');
          invalid = Inr (INVALID, ''load generator invalid: '' @ reason) in
      if completed_requests o1 < 1 then invalid
      else rbind (service_breach_share o1) (\<lambda>share.
        case share of
          Some x \<Rightarrow>
            if f_le invalid_error_share x
            then Inr (BREACHES_SLO, ''service failed '' @ fmt_percent 1 x @
              '' of offered requests, at or above the '' @
              fmt_percent 0 invalid_error_share @ '' breach threshold: '' @ reason)
            else invalid
        | None \<Rightarrow> invalid))"

definition verdict ::
  "observation \<Rightarrow> slo \<Rightarrow> string list \<Rightarrow> pyfloat \<Rightarrow> (outcome \<times> string) res" where
  "verdict o1 s required_fields invalid_error_share =
     (if \<not> (f_le (Fin 0) invalid_error_share \<and> f_le invalid_error_share (Fin 1))
      then raise ValueError ''invalid_error_share must be within 0..=1''
      else if \<not> loadgen_valid o1 then judge_loadgen_invalid o1 invalid_error_share
      else if completed_requests o1 < 1
        then Inr (INVALID, ''no requests completed in the measured window'')
      else rbind (missing_fields o1 required_fields) (\<lambda>missing.
        if missing \<noteq> [] then Inr (INVALID, ''missing measurement(s): '' @ join '', '' missing)
        else judge_values o1 s))"

section \<open>Laws\<close>

text \<open>An observation with every default field measured, the four judged ones finite.\<close>

definition measured :: "observation \<Rightarrow> bool" where
  "measured o1 \<longleftrightarrow> p50_latency_ms o1 \<noteq> None \<and> cpu_usage_millicores o1 \<noteq> None
     \<and> throttled_ms_per_second o1 \<noteq> None
     \<and> (\<forall>f \<in> {p99_latency_ms, throughput_rps, error_ratio, availability_ratio}.
          \<exists>v. f o1 = Some (Fin v))"

definition objectives_met :: "observation \<Rightarrow> slo \<Rightarrow> bool" where
  "objectives_met o1 s \<longleftrightarrow>
     \<not> f_lt (max_p99_latency_ms s) (the (p99_latency_ms o1))
     \<and> \<not> f_lt (the (throughput_rps o1)) (min_throughput_rps s)
     \<and> \<not> f_lt (max_error_ratio s) (the (error_ratio o1))
     \<and> \<not> f_lt (the (availability_ratio o1)) (min_availability_ratio s)"

abbreviation share_in_range :: "pyfloat \<Rightarrow> bool" where
  "share_in_range x \<equiv> f_le (Fin 0) x \<and> f_le x (Fin 1)"

lemma missing_fields_filter:
  assumes "\<forall>n \<in> set ns. is_ok (field_is_None o1 n)"
  shows "missing_fields o1 ns = Inr (filter (\<lambda>n. field_is_None o1 n = Inr True) ns)"
  using assms
proof (induction ns)
  case (Cons n ns)
  then obtain b where "field_is_None o1 n = Inr b" by (auto simp: is_ok_conv)
  then show ?case using Cons by (cases b) simp_all
qed simp

lemma field_is_None_default:
  "field_is_None o1 ''p50_latency_ms'' = Inr (p50_latency_ms o1 = None)"
  "field_is_None o1 ''p99_latency_ms'' = Inr (p99_latency_ms o1 = None)"
  "field_is_None o1 ''throughput_rps'' = Inr (throughput_rps o1 = None)"
  "field_is_None o1 ''error_ratio'' = Inr (error_ratio o1 = None)"
  "field_is_None o1 ''availability_ratio'' = Inr (availability_ratio o1 = None)"
  "field_is_None o1 ''cpu_usage_millicores'' = Inr (cpu_usage_millicores o1 = None)"
  "field_is_None o1 ''throttled_ms_per_second'' = Inr (throttled_ms_per_second o1 = None)"
  by (simp_all add: field_is_None_def)

lemma missing_default_fields:
  "missing_fields o1 default_required_fields =
     Inr (filter (\<lambda>n. field_is_None o1 n = Inr True) default_required_fields)"
  by (rule missing_fields_filter) (simp add: default_required_fields_def field_is_None_default)

lemma missing_default_empty:
  "filter (\<lambda>n. field_is_None o1 n = Inr True) default_required_fields = [] \<longleftrightarrow>
     p50_latency_ms o1 \<noteq> None \<and> p99_latency_ms o1 \<noteq> None \<and> throughput_rps o1 \<noteq> None
     \<and> error_ratio o1 \<noteq> None \<and> availability_ratio o1 \<noteq> None
     \<and> cpu_usage_millicores o1 \<noteq> None \<and> throttled_ms_per_second o1 \<noteq> None"
  unfolding filter_empty_conv default_required_fields_def
  by (simp add: field_is_None_default)

lemma slo_breaches_empty:
  "slo_breaches s p99 thr err avail = [] \<longleftrightarrow>
     \<not> f_lt (max_p99_latency_ms s) p99 \<and> \<not> f_lt thr (min_throughput_rps s)
     \<and> \<not> f_lt (max_error_ratio s) err \<and> \<not> f_lt avail (min_availability_ratio s)"
  by (simp add: slo_breaches_def)

lemma judge_values_meets:
  "(\<exists>m. judge_values o1 s = Inr (MEETS_SLO, m)) \<longleftrightarrow>
     (\<exists>p t e v. p99_latency_ms o1 = Some (Fin p) \<and> throughput_rps o1 = Some (Fin t)
        \<and> error_ratio o1 = Some (Fin e) \<and> availability_ratio o1 = Some (Fin v)
        \<and> slo_breaches s (Fin p) (Fin t) (Fin e) (Fin v) = [])"
proof (cases "p99_latency_ms o1 = None \<or> throughput_rps o1 = None \<or> error_ratio o1 = None
    \<or> availability_ratio o1 = None")
  case True
  then show ?thesis by (auto simp: judge_values_def split: option.splits)
next
  case False
  then obtain p t e v where *: "p99_latency_ms o1 = Some p" "throughput_rps o1 = Some t"
    "error_ratio o1 = Some e" "availability_ratio o1 = Some v" by auto
  show ?thesis
    by (cases p; cases t; cases e; cases v) (simp_all add: judge_values_def * Let_def)
qed

lemma judge_loadgen_invalid_outcome:
  "judge_loadgen_invalid o1 sh = Inr (oc, m) \<Longrightarrow>
     oc = INVALID \<or> oc = BREACHES_SLO \<and> 1 \<le> completed_requests o1
       \<and> (\<exists>x. service_breach_share o1 = Inr (Some x) \<and> f_le sh x)"
  unfolding judge_loadgen_invalid_def Let_def by (simp split: if_splits option.splits) auto

text \<open>
  C1: with the default required fields, a cell is judged to meet the objectives exactly when
  the breach threshold is a ratio, the load generator is valid, at least one request
  completed, every required field was measured, the four judged values are finite and none
  of them crosses its objective. A missing or non-finite measurement therefore never passes.
\<close>

theorem verdict_meets_iff:
  "(\<exists>m. verdict o1 s default_required_fields share = Inr (MEETS_SLO, m)) \<longleftrightarrow>
     share_in_range share \<and> loadgen_valid o1 \<and> 1 \<le> completed_requests o1
     \<and> measured o1 \<and> objectives_met o1 s"
proof (cases "share_in_range share \<and> loadgen_valid o1 \<and> 1 \<le> completed_requests o1")
  case False
  then show ?thesis
    by (auto simp: verdict_def dest: judge_loadgen_invalid_outcome split: if_splits)
next
  case True
  then have "verdict o1 s default_required_fields share =
      (if filter (\<lambda>n. field_is_None o1 n = Inr True) default_required_fields \<noteq> []
       then Inr (INVALID, ''missing measurement(s): '' @ join '', ''
         (filter (\<lambda>n. field_is_None o1 n = Inr True) default_required_fields))
       else judge_values o1 s)"
    by (simp add: verdict_def missing_default_fields)
  then show ?thesis
    using True judge_values_meets [of o1 s]
    by (auto simp: missing_default_empty slo_breaches_empty measured_def objectives_met_def)
qed

text \<open>
  A run the load generator reported invalid counts as a breach exactly when requests
  completed, the service was reached, and the reason reports a share of failed requests at or
  above the threshold; it is \<open>invalid\<close> or raises otherwise and never passes.
\<close>

theorem verdict_service_breach_iff:
  "(\<exists>m. \<not> loadgen_valid o1 \<and> verdict o1 s required share = Inr (BREACHES_SLO, m)) \<longleftrightarrow>
     \<not> loadgen_valid o1 \<and> share_in_range share \<and> 1 \<le> completed_requests o1
     \<and> target_reached o1 = Some True
     \<and> (\<exists>x. failed_request_share (loadgen_invalid_reason o1) = Inr (Some x) \<and> f_le share x)"
proof (cases "\<not> loadgen_valid o1 \<and> share_in_range share")
  case False
  then show ?thesis by (auto simp: verdict_def)
next
  case True
  then have v: "verdict o1 s required share = judge_loadgen_invalid o1 share"
    by (auto simp: verdict_def)
  have "\<exists>m. judge_loadgen_invalid o1 share = Inr (BREACHES_SLO, m)"
    if "1 \<le> completed_requests o1" "service_breach_share o1 = Inr (Some x)" "f_le share x" for x
    using that unfolding judge_loadgen_invalid_def Let_def by simp
  moreover have "1 \<le> completed_requests o1 \<and> (\<exists>x. service_breach_share o1 = Inr (Some x) \<and> f_le share x)"
    if "judge_loadgen_invalid o1 share = Inr (BREACHES_SLO, m)" for m
    using judge_loadgen_invalid_outcome [OF that] by simp
  moreover have "service_breach_share o1 = Inr (Some x) \<longleftrightarrow> target_reached o1 = Some True
      \<and> failed_request_share (loadgen_invalid_reason o1) = Inr (Some x)" for x
    using True by (simp add: service_breach_share_def)
  ultimately show ?thesis
    using True unfolding v by blast
qed

end
