(* ===== verification/Py_Value.thy ===== *)
theory Py_Value
  imports Py_Float "HOL-Library.AList" "HOL-Library.Multiset"
begin

text \<open>
  Untyped Python data as the YAML and JSON readers produce it: \<open>None\<close>, booleans, integers,
  floats, strings, lists and dictionaries with string keys. A dictionary is an association
  list in insertion order; \<open>wf_val\<close> says that keys are distinct. \<open>py_eq\<close> is \<open>==\<close>: numbers
  compare across types and dictionaries without regard to order.
\<close>

datatype pyval =
    VNone
  | VBool bool
  | VInt int
  | VFloat pyfloat
  | VStr string
  | VList "pyval list"
  | VDict "(string \<times> pyval) list"

type_synonym pydict = "(string \<times> pyval) list"

section \<open>Dictionaries\<close>

text \<open>\<open>d.get(k)\<close>, \<open>d.get(k, default)\<close>, \<open>d[k]\<close> and \<open>d[k] = v\<close>.\<close>

definition dget :: "pydict \<Rightarrow> string \<Rightarrow> pyval" where
  "dget d k = (case map_of d k of None \<Rightarrow> VNone | Some v \<Rightarrow> v)"

definition dget_or :: "pydict \<Rightarrow> string \<Rightarrow> pyval \<Rightarrow> pyval" where
  "dget_or d k dflt = (case map_of d k of None \<Rightarrow> dflt | Some v \<Rightarrow> v)"

definition ditem :: "pydict \<Rightarrow> string \<Rightarrow> pyval res" where
  "ditem d k = (case map_of d k of None \<Rightarrow> raise KeyError k | Some v \<Rightarrow> Inr v)"

definition dset :: "pydict \<Rightarrow> string \<Rightarrow> pyval \<Rightarrow> pydict" where
  "dset d k v = AList.update k v d"

text \<open>\<open>d.setdefault(k, []).append(v)\<close>.\<close>

definition add_sample :: "('k \<times> 'v list) list \<Rightarrow> 'k \<Rightarrow> 'v \<Rightarrow> ('k \<times> 'v list) list" where
  "add_sample d k v = AList.update k ((case map_of d k of Some vs \<Rightarrow> vs | None \<Rightarrow> []) @ [v]) d"

definition has_key :: "pydict \<Rightarrow> string \<Rightarrow> bool" where
  "has_key d k = (k \<in> set (map fst d))"

lemma has_key_map_of: "has_key d k \<longleftrightarrow> map_of d k \<noteq> None"
  by (simp add: has_key_def map_of_eq_None_iff)

lemma map_of_dset [simp]: "map_of (dset d k v) = (map_of d)(k \<mapsto> v)"
  by (simp add: dset_def update_conv')

lemma distinct_dset: "distinct (map fst d) \<Longrightarrow> distinct (map fst (dset d k v))"
  by (simp add: dset_def distinct_update)

section \<open>Type tests\<close>

definition is_str :: "pyval \<Rightarrow> bool" where
  "is_str v = (case v of VStr _ \<Rightarrow> True | _ \<Rightarrow> False)"

definition is_dict :: "pyval \<Rightarrow> bool" where
  "is_dict v = (case v of VDict _ \<Rightarrow> True | _ \<Rightarrow> False)"

definition is_list :: "pyval \<Rightarrow> bool" where
  "is_list v = (case v of VList _ \<Rightarrow> True | _ \<Rightarrow> False)"

text \<open>A string with a character that is not white space (\<open>isinstance(v, str) and v.strip()\<close>).\<close>

definition nonblank_str :: "pyval \<Rightarrow> bool" where
  "nonblank_str v = (case v of VStr s \<Rightarrow> strip s \<noteq> [] | _ \<Rightarrow> False)"

lemma is_str_conv: "is_str v \<longleftrightarrow> (\<exists>s. v = VStr s)"
  by (cases v) (auto simp: is_str_def)

lemma is_dict_conv: "is_dict v \<longleftrightarrow> (\<exists>d. v = VDict d)"
  by (cases v) (auto simp: is_dict_def)

lemma is_list_conv: "is_list v \<longleftrightarrow> (\<exists>l. v = VList l)"
  by (cases v) (auto simp: is_list_def)

lemma nonblank_str_conv: "nonblank_str v \<longleftrightarrow> (\<exists>s. v = VStr s \<and> strip s \<noteq> [])"
  by (cases v) (auto simp: nonblank_str_def)

text \<open>
  \<open>as_str v e m k\<close> is \<open>if not isinstance(v, str): raise e(m)\<close> followed by \<open>k\<close> on the string; so
  for mappings and lists, and \<open>as_some\<close> for a value that may be \<open>None\<close>.
\<close>

definition as_str :: "pyval \<Rightarrow> exn \<Rightarrow> string \<Rightarrow> (string \<Rightarrow> 'a res) \<Rightarrow> 'a res" where
  "as_str v e m k = (case v of VStr s \<Rightarrow> k s | _ \<Rightarrow> raise e m)"

definition as_dict :: "pyval \<Rightarrow> exn \<Rightarrow> string \<Rightarrow> (pydict \<Rightarrow> 'a res) \<Rightarrow> 'a res" where
  "as_dict v e m k = (case v of VDict d \<Rightarrow> k d | _ \<Rightarrow> raise e m)"

definition as_list :: "pyval \<Rightarrow> exn \<Rightarrow> string \<Rightarrow> (pyval list \<Rightarrow> 'a res) \<Rightarrow> 'a res" where
  "as_list v e m k = (case v of VList xs \<Rightarrow> k xs | _ \<Rightarrow> raise e m)"

definition as_some :: "'b option \<Rightarrow> exn \<Rightarrow> string \<Rightarrow> ('b \<Rightarrow> 'a res) \<Rightarrow> 'a res" where
  "as_some v e m k = (case v of Some x \<Rightarrow> k x | None \<Rightarrow> raise e m)"

text \<open>\<open>bool(v)\<close>.\<close>

definition truthy :: "pyval \<Rightarrow> bool" where
  "truthy v = (case v of VNone \<Rightarrow> False | VBool b \<Rightarrow> b | VInt i \<Rightarrow> i \<noteq> 0 | VFloat x \<Rightarrow> x \<noteq> Fin 0
     | VStr s \<Rightarrow> s \<noteq> [] | VList xs \<Rightarrow> xs \<noteq> [] | VDict d \<Rightarrow> d \<noteq> [])"

text \<open>\<open>for x in v\<close>: lists give their elements, mappings their keys, strings their characters.\<close>

definition iter_val :: "pyval \<Rightarrow> pyval list res" where
  "iter_val v = (case v of
     VList xs \<Rightarrow> Inr xs
   | VDict d \<Rightarrow> Inr (map (\<lambda>kv. VStr (fst kv)) d)
   | VStr s \<Rightarrow> Inr (map (\<lambda>c. VStr [c]) s)
   | _ \<Rightarrow> raise TypeError ''object is not iterable'')"

lemma as_Inr [simp]:
  "as_str v e m k = Inr y \<longleftrightarrow> (\<exists>s. v = VStr s \<and> k s = Inr y)"
  "as_dict v e m k2 = Inr y \<longleftrightarrow> (\<exists>d. v = VDict d \<and> k2 d = Inr y)"
  "as_list v e m k3 = Inr y \<longleftrightarrow> (\<exists>xs. v = VList xs \<and> k3 xs = Inr y)"
  "as_some o1 e m k4 = Inr y \<longleftrightarrow> (\<exists>x. o1 = Some x \<and> k4 x = Inr y)"
  by (cases v; cases o1; simp add: as_str_def as_dict_def as_list_def as_some_def)+

lemma as_simps [simp]:
  "as_str (VStr s) e m k = k s" "as_dict (VDict d) e m k2 = k2 d"
  "as_list (VList xs) e m k3 = k3 xs" "as_some (Some x) e m k4 = k4 x"
  "as_some None e m k4 = raise e m"
  by (simp_all add: as_str_def as_dict_def as_list_def as_some_def)

lemma errs_as:
  "(\<And>s. v = VStr s \<Longrightarrow> errs P (k s)) \<Longrightarrow> P (Raise e m) \<Longrightarrow> errs P (as_str v e m k)"
  "(\<And>d. v = VDict d \<Longrightarrow> errs P (k2 d)) \<Longrightarrow> P (Raise e m) \<Longrightarrow> errs P (as_dict v e m k2)"
  "(\<And>xs. v = VList xs \<Longrightarrow> errs P (k3 xs)) \<Longrightarrow> P (Raise e m) \<Longrightarrow> errs P (as_list v e m k3)"
  "(\<And>x. o1 = Some x \<Longrightarrow> errs P (k4 x)) \<Longrightarrow> P (Raise e m) \<Longrightarrow> errs P (as_some o1 e m k4)"
  by (cases v; cases o1; simp add: as_str_def as_dict_def as_list_def as_some_def)+

section \<open>Equality\<close>

text \<open>The numeric value of a number, for comparisons across \<open>bool\<close>, \<open>int\<close> and \<open>float\<close>.\<close>

fun num_of :: "pyval \<Rightarrow> pyfloat option" where
  "num_of (VBool b) = Some (Fin (if b then 1 else 0))"
| "num_of (VInt i) = Some (Fin (of_int i))"
| "num_of (VFloat x) = Some x"
| "num_of _ = None"

function (sequential)
  py_eq :: "pyval \<Rightarrow> pyval \<Rightarrow> bool" and
  eq_list :: "pyval list \<Rightarrow> pyval list \<Rightarrow> bool" and
  eq_items :: "pydict \<Rightarrow> pydict \<Rightarrow> bool"
where
  "py_eq VNone VNone = True"
| "py_eq (VStr a) (VStr b) = (a = b)"
| "py_eq (VList xs) (VList ys) = eq_list xs ys"
| "py_eq (VDict xs) (VDict ys) = (length xs = length ys \<and> eq_items xs ys)"
| "py_eq a b = (case (num_of a, num_of b) of (Some x, Some y) \<Rightarrow> f_eq x y | _ \<Rightarrow> False)"
| "eq_list [] [] = True"
| "eq_list (x # xs) (y # ys) = (py_eq x y \<and> eq_list xs ys)"
| "eq_list _ _ = False"
| "eq_items [] ys = True"
| "eq_items ((k, v) # xs) ys =
     ((case map_of ys k of None \<Rightarrow> False | Some w \<Rightarrow> py_eq v w) \<and> eq_items xs ys)"
  by pat_completeness auto
termination
  by (relation "measure (\<lambda>s. case s of Inl (a, b) \<Rightarrow> size a
      | Inr (Inl (xs, ys)) \<Rightarrow> size_list size xs
      | Inr (Inr (xs, ys)) \<Rightarrow> size_list (size_prod (\<lambda>_. 0) size) xs)")
    auto

section \<open>Numbers\<close>

text \<open>\<open>isinstance(v, int)\<close>, booleans included, and comparison of two numbers.\<close>

definition as_int :: "pyval \<Rightarrow> int option" where
  "as_int v = (case v of VInt i \<Rightarrow> Some i | VBool b \<Rightarrow> Some (if b then 1 else 0) | _ \<Rightarrow> None)"

definition num_lt :: "pyval \<Rightarrow> pyval \<Rightarrow> bool" where
  "num_lt a b = (case (num_of a, num_of b) of (Some x, Some y) \<Rightarrow> f_lt x y | _ \<Rightarrow> False)"

definition num_le :: "pyval \<Rightarrow> pyval \<Rightarrow> bool" where
  "num_le a b = (case (num_of a, num_of b) of (Some x, Some y) \<Rightarrow> f_le x y | _ \<Rightarrow> False)"

definition nonempty_str :: "pyval \<Rightarrow> bool" where
  "nonempty_str v = (case v of VStr s \<Rightarrow> s \<noteq> [] | _ \<Rightarrow> False)"

definition int_at_least :: "int \<Rightarrow> pyval \<Rightarrow> bool" where
  "int_at_least n v = (case as_int v of Some i \<Rightarrow> n \<le> i | None \<Rightarrow> False)"

definition nonneg_int :: "pyval \<Rightarrow> bool" where
  "nonneg_int v = (case v of VInt i \<Rightarrow> 0 \<le> i | _ \<Rightarrow> False)"

definition in_unit :: "pyval \<Rightarrow> bool" where
  "in_unit v \<longleftrightarrow> num_le (VInt 0) v \<and> num_le v (VInt 1)"

text \<open>The values a set or a dictionary can hold as keys.\<close>

definition hashable :: "pyval \<Rightarrow> bool" where
  "hashable v \<longleftrightarrow> \<not> is_list v \<and> \<not> is_dict v"

lemma py_eq_VStr: "py_eq v (VStr s) \<longleftrightarrow> v = VStr s"
  by (cases v) auto

text \<open>\<open>v not in {...}\<close> on a set of strings: an unhashable value raises.\<close>

definition str_in_set :: "pyval \<Rightarrow> string list \<Rightarrow> bool res" where
  "str_in_set v names = (case v of
     VStr s \<Rightarrow> Inr (s \<in> set names)
   | VList _ \<Rightarrow> raise TypeError ''unhashable type: list''
   | VDict _ \<Rightarrow> raise TypeError ''unhashable type: dict''
   | _ \<Rightarrow> Inr False)"

lemma in_unit_num:
  assumes "num_of v = Some (Fin a)"
  shows "in_unit v \<longleftrightarrow> 0 \<le> a \<and> a \<le> 1"
  using assms by (simp add: in_unit_def num_le_def)

lemma nonneg_int_iff: "nonneg_int v \<longleftrightarrow> (\<exists>i. v = VInt i \<and> 0 \<le> i)"
  by (cases v) (auto simp: nonneg_int_def)

lemma int_at_least_iff: "int_at_least n v \<longleftrightarrow> (\<exists>i. as_int v = Some i \<and> n \<le> i)"
  by (auto simp: int_at_least_def split: option.splits)

lemma str_in_set_ok [simp]: "str_in_set v names = Inr True \<longleftrightarrow> (\<exists>s \<in> set names. v = VStr s)"
  by (cases v) (auto simp: str_in_set_def)

section \<open>Order of keys\<close>

text \<open>Values with distinct dictionary keys and no floating-point number.\<close>

fun wf_val :: "pyval \<Rightarrow> bool" where
  "wf_val (VFloat _) = False"
| "wf_val (VList xs) = list_all wf_val xs"
| "wf_val (VDict d) = (distinct (map fst d) \<and> list_all (\<lambda>kv. wf_val (snd kv)) d)"
| "wf_val _ = True"

text \<open>\<open>sort_keys=True\<close>: dictionaries in key order at every level.\<close>

fun sort_keys :: "pyval \<Rightarrow> pyval" where
  "sort_keys (VList xs) = VList (map sort_keys xs)"
| "sort_keys (VDict d) = VDict (sort_key fst (map (\<lambda>kv. (fst kv, sort_keys (snd kv))) d))"
| "sort_keys v = v"

lemma eq_items_iff:
  "eq_items xs ys \<longleftrightarrow> (\<forall>(k, v) \<in> set xs. \<exists>w. map_of ys k = Some w \<and> py_eq v w)"
  by (induction xs) (auto split: option.splits)

lemma eq_list_iff: "eq_list xs ys \<longleftrightarrow> list_all2 py_eq xs ys"
  by (induction xs ys rule: list_induct2') auto

lemma map_of_sort_key:
  assumes "distinct (map fst d)"
  shows "map_of (sort_key fst d) = map_of d"
  using assms by (intro map_of_inject_set [THEN iffD2]) (auto simp: distinct_map)

lemma wf_val_sort_keys: "wf_val v \<Longrightarrow> wf_val (sort_keys v)"
proof (induction v rule: sort_keys.induct)
  case (2 d)
  have "map fst (map (\<lambda>kv. (fst kv, sort_keys (snd kv))) d) = map fst d" by simp
  moreover have "distinct (map fst (sort_key fst xs)) \<longleftrightarrow> distinct (map fst xs)"
    for xs :: "(string \<times> pyval) list"
    by (metis mset_eq_imp_distinct_iff mset_map mset_sort)
  ultimately show ?case using 2 by (auto simp: list_all_iff comp_def)
qed (auto simp: list_all_iff)

lemma py_eq_sort_keys: "wf_val v \<Longrightarrow> py_eq (sort_keys v) v"
proof (induction v rule: sort_keys.induct)
  case (1 xs)
  then show ?case by (auto simp: eq_list_iff list_all2_map1 list_all_iff intro!: list_all2_all_nthI)
next
  case (2 d)
  then show ?case by (auto simp: eq_items_iff list_all_iff)
qed (auto simp: f_eq_def)

lemma py_eq_refl: "wf_val v \<Longrightarrow> py_eq v v"
proof (induction v)
  case (VList xs)
  then show ?case by (auto simp: eq_list_iff list_all_iff intro!: list_all2_all_nthI)
next
  case (VDict d)
  then show ?case by (fastforce simp: eq_items_iff list_all_iff)
qed (auto simp: f_eq_def)

end
