(* ===== verification/Py_Sha256.thy ===== *)
theory Py_Sha256
  imports Py_Base "HOL-Library.Word"
begin

text \<open>
  \<open>hashlib.sha256(...).hexdigest()\<close>: FIPS 180-4 SHA-256 on 32-bit words. Bytes are characters.
  A digest fed in chunks is the digest of their concatenation, so the chunked readers of the
  sources hash the whole content.
\<close>

unbundle bit_operations_syntax

definition sha_k :: "32 word list" where
  "sha_k = [
     1116352408, 1899447441, 3049323471, 3921009573,
     961987163, 1508970993, 2453635748, 2870763221,
     3624381080, 310598401, 607225278, 1426881987,
     1925078388, 2162078206, 2614888103, 3248222580,
     3835390401, 4022224774, 264347078, 604807628,
     770255983, 1249150122, 1555081692, 1996064986,
     2554220882, 2821834349, 2952996808, 3210313671,
     3336571891, 3584528711, 113926993, 338241895,
     666307205, 773529912, 1294757372, 1396182291,
     1695183700, 1986661051, 2177026350, 2456956037,
     2730485921, 2820302411, 3259730800, 3345764771,
     3516065817, 3600352804, 4094571909, 275423344,
     430227734, 506948616, 659060556, 883997877,
     958139571, 1322822218, 1537002063, 1747873779,
     1955562222, 2024104815, 2227730452, 2361852424,
     2428436474, 2756734187, 3204031479, 3329325298]"

definition sha_init :: "32 word list" where
  "sha_init = [1779033703, 3144134277, 1013904242, 2773480762,
     1359893119, 2600822924, 528734635, 1541459225]"

abbreviation ror :: "nat \<Rightarrow> 32 word \<Rightarrow> 32 word" where
  "ror n w \<equiv> word_rotr n w"

definition sigma0 :: "32 word \<Rightarrow> 32 word" where
  "sigma0 x = ror 7 x XOR ror 18 x XOR drop_bit 3 x"

definition sigma1 :: "32 word \<Rightarrow> 32 word" where
  "sigma1 x = ror 17 x XOR ror 19 x XOR drop_bit 10 x"

definition Sigma0 :: "32 word \<Rightarrow> 32 word" where
  "Sigma0 x = ror 2 x XOR ror 13 x XOR ror 22 x"

definition Sigma1 :: "32 word \<Rightarrow> 32 word" where
  "Sigma1 x = ror 6 x XOR ror 11 x XOR ror 25 x"

text \<open>The message schedule, newest word first: 16 words of the block and 48 more.\<close>

fun schedule :: "nat \<Rightarrow> 32 word list \<Rightarrow> 32 word list" where
  "schedule 0 ws = ws"
| "schedule (Suc n) ws =
     schedule n ((sigma1 (ws ! 1) + ws ! 6 + sigma0 (ws ! 14) + ws ! 15) # ws)"

fun sha_round :: "32 word list \<Rightarrow> 32 word \<times> 32 word \<Rightarrow> 32 word list" where
  "sha_round [a, b, c, d, e, f, g, h] (k, w) =
     (let t1 = h + Sigma1 e + ((e AND f) XOR ((NOT e) AND g)) + k + w;
          t2 = Sigma0 a + ((a AND b) XOR (a AND c) XOR (b AND c))
      in [t1 + t2, a, b, c, d + t1, e, f, g])"
| "sha_round st _ = st"

definition compress :: "32 word list \<Rightarrow> 32 word list \<Rightarrow> 32 word list" where
  "compress st block =
     map2 (+) st (foldl sha_round st (zip sha_k (rev (schedule 48 (rev block)))))"

definition byte_word :: "char \<Rightarrow> 32 word" where
  "byte_word c = word_of_nat (code c)"

fun be_words :: "string \<Rightarrow> 32 word list" where
  "be_words (a # b # c # d # r) =
     (push_bit 24 (byte_word a) OR push_bit 16 (byte_word b) OR push_bit 8 (byte_word c)
      OR byte_word d) # be_words r"
| "be_words _ = []"

text \<open>The bit length, big endian in eight bytes, after a one bit and zeros.\<close>

definition be_bytes :: "nat \<Rightarrow> nat \<Rightarrow> string" where
  "be_bytes k n = map (\<lambda>i. char_of (n div 256 ^ i mod 256)) (rev [0 ..< k])"

definition sha_pad :: "string \<Rightarrow> string" where
  "sha_pad s = s @ CHR 0x80 # replicate ((55 + 64 - length s mod 64) mod 64) (CHR 0x00)
     @ be_bytes 8 (8 * length s)"

function sha_blocks :: "32 word list \<Rightarrow> 32 word list \<Rightarrow> 32 word list" where
  "sha_blocks st ws =
     (if length ws < 16 then st else sha_blocks (compress st (take 16 ws)) (drop 16 ws))"
  by pat_completeness auto
termination
  by (relation "measure (\<lambda>(st, ws). length ws)") auto

declare sha_blocks.simps [simp del]

definition hex_char :: "nat \<Rightarrow> char" where
  "hex_char n = ''0123456789abcdef'' ! (n mod 16)"

definition word_hex :: "32 word \<Rightarrow> string" where
  "word_hex w = map (\<lambda>i. hex_char (unat (drop_bit (4 * i) w AND 15))) (rev [0 ..< 8])"

definition sha256_hex :: "string \<Rightarrow> string" where
  "sha256_hex s = concat (map word_hex (sha_blocks sha_init (be_words (sha_pad s))))"

section \<open>Laws\<close>

lemma hex_char_lower [simp]: "is_lower_hex (hex_char n)"
proof -
  have "n mod 16 < length ''0123456789abcdef''" by simp
  then show ?thesis unfolding is_lower_hex_def hex_char_def by (rule nth_mem)
qed

lemma sha_pad_length: "length (sha_pad s) mod 64 = 0"
proof -
  let ?r = "length s mod 64"
  have "?r < 64" by simp
  then have "(?r + 1 + (55 + 64 - ?r) mod 64 + 8) mod 64 = 0"
    by (cases "?r \<le> 55") (auto simp: le_mod_geq)
  moreover have "length (sha_pad s) = length s + (1 + (55 + 64 - ?r) mod 64 + 8)"
    by (simp add: sha_pad_def be_bytes_def)
  ultimately show ?thesis by (metis add.assoc mod_add_left_eq)
qed

lemma length_compress: "length st = 8 \<Longrightarrow> length (compress st b) = 8"
proof -
  have step: "length (sha_round st kw) = 8" if "length st = 8" for st kw
    using that by (cases kw) (auto simp: numeral_eq_Suc length_Suc_conv Let_def)
  have "length (foldl sha_round st kws) = 8" if "length st = 8" for st kws
    using that by (induction kws arbitrary: st) (auto simp: step)
  then show "length st = 8 \<Longrightarrow> ?thesis" by (simp add: compress_def)
qed

lemma length_sha_blocks: "length st = 8 \<Longrightarrow> length (sha_blocks st ws) = 8"
proof (induction st ws rule: sha_blocks.induct)
  case (1 st ws)
  then show ?case by (subst sha_blocks.simps) (auto simp: length_compress)
qed

theorem sha256_hex_digest:
  "length (sha256_hex s) = 64" "list_all is_lower_hex (sha256_hex s)"
proof -
  let ?ws = "sha_blocks sha_init (be_words (sha_pad s))"
  have "length ?ws = 8" by (rule length_sha_blocks) (simp add: sha_init_def)
  moreover have "length (concat (map word_hex ws)) = 8 * length ws" for ws
    by (induction ws) (auto simp: word_hex_def)
  ultimately show "length (sha256_hex s) = 64" by (simp add: sha256_hex_def)
  show "list_all is_lower_hex (sha256_hex s)"
    by (auto simp: sha256_hex_def list_all_iff word_hex_def)
qed

end
