(* ===== verification/Py_Json.thy ===== *)
theory Py_Json
  imports Py_Value Py_Sha256
begin

text \<open>
  \<open>json.dumps\<close> and \<open>json.loads\<close> of the standard library. The printer has the separators and
  the indentation as parameters; the parser is a recursive descent with fuel (the length of
  the text is enough, every call consumes a character before it recurses). The main result is
  the round trip for values without floating-point numbers. Escapes that denote code points
  from 256 on have no string in the model and are rejected.
\<close>

section \<open>Printing\<close>

text \<open>\<open>repr(x)\<close> of a float: the fewest digits that read back.\<close>

definition dec_exp :: "rat \<Rightarrow> int" where
  "dec_exp a = (if 1 \<le> a then int (length (show_nat (nat \<lfloor>a\<rfloor>))) - 1
                else - int (length (show_nat (nat (\<lceil>1 / a\<rceil> - 1)))))"

definition repr_digits :: "rat \<Rightarrow> int \<times> int" where
  "repr_digits a =
     (let e = dec_exp a;
          cand = map (\<lambda>n. (round_even (a / 10 powi (e - int n + 1)), e - int n + 1)) [1 ..< 18]
      in case find (\<lambda>(m, p). fl (of_int m * 10 powi p) = a) cand of
           Some mp \<Rightarrow> mp | None \<Rightarrow> last cand)"

definition strip_zeros :: "string \<Rightarrow> string" where
  "strip_zeros s = rev (dropWhile (\<lambda>c. c = CHR ''0'') (rev s))"

definition float_repr_pos :: "rat \<Rightarrow> string" where
  "float_repr_pos a =
     (case repr_digits a of (m, p) \<Rightarrow>
        let all = show_nat (nat m); ds = strip_zeros all; decpt = int (length all) + p in
        if - 4 < decpt \<and> decpt \<le> 16
        then (if decpt \<le> 0 then ''0.'' @ replicate (nat (- decpt)) (CHR ''0'') @ ds
              else if decpt \<ge> int (length ds)
              then ds @ replicate (nat decpt - length ds) (CHR ''0'') @ ''.0''
              else take (nat decpt) ds @ ''.'' @ drop (nat decpt) ds)
        else take 1 ds @ (if length ds > 1 then ''.'' @ drop 1 ds else []) @ ''e'' @
             (if decpt - 1 < 0 then ''-'' else ''+'') @ zero_pad 2 (show_nat (nat \<bar>decpt - 1\<bar>)))"

definition float_repr :: "pyfloat \<Rightarrow> string" where
  "float_repr x = (case x of PInf \<Rightarrow> ''inf'' | NInf \<Rightarrow> ''-inf'' | NaN \<Rightarrow> ''nan''
     | Fin a \<Rightarrow> if a = 0 then ''0.0'' else if a < 0 then CHR ''-'' # float_repr_pos (- a)
        else float_repr_pos a)"

definition json_float :: "pyfloat \<Rightarrow> string" where
  "json_float x = (case x of PInf \<Rightarrow> ''Infinity'' | NInf \<Rightarrow> ''-Infinity'' | NaN \<Rightarrow> ''NaN''
     | Fin a \<Rightarrow> float_repr x)"

text \<open>One character under \<open>ensure_ascii\<close>.\<close>

definition esc_char :: "char \<Rightarrow> string" where
  "esc_char c =
     (if c = CHR 0x22 then [CHR 0x5C, CHR 0x22]
      else if c = CHR 0x5C then [CHR 0x5C, CHR 0x5C]
      else if c = CHR 0x0A then [CHR 0x5C, CHR ''n'']
      else if c = CHR 0x0D then [CHR 0x5C, CHR ''r'']
      else if c = CHR 0x09 then [CHR 0x5C, CHR ''t'']
      else if c = CHR 0x0C then [CHR 0x5C, CHR ''f'']
      else if c = CHR 0x08 then [CHR 0x5C, CHR ''b'']
      else if 32 \<le> code c \<and> code c \<le> 126 then [c]
      else CHR 0x5C # ''u00'' @ [hex_char (code c div 16), hex_char (code c)])"

definition json_string :: "string \<Rightarrow> string" where
  "json_string s = CHR 0x22 # concat (map esc_char s) @ [CHR 0x22]"

record style =
  item_sep :: string
  key_sep :: string
  indent_by :: "nat option"

definition compact_style :: style where
  "compact_style = \<lparr> item_sep = '','', key_sep = '':'', indent_by = None \<rparr>"

definition indent2_style :: style where
  "indent2_style = \<lparr> item_sep = '','', key_sep = '': '', indent_by = Some 2 \<rparr>"

definition default_style :: style where
  "default_style = \<lparr> item_sep = '', '', key_sep = '': '', indent_by = None \<rparr>"

definition nl_indent :: "style \<Rightarrow> nat \<Rightarrow> string" where
  "nl_indent sty lvl = (case indent_by sty of None \<Rightarrow> []
     | Some n \<Rightarrow> nl @ replicate (n * lvl) (CHR '' ''))"

fun dump_val :: "style \<Rightarrow> nat \<Rightarrow> pyval \<Rightarrow> string" where
  "dump_val sty lvl VNone = ''null''"
| "dump_val sty lvl (VBool b) = (if b then ''true'' else ''false'')"
| "dump_val sty lvl (VInt i) = show_int i"
| "dump_val sty lvl (VFloat x) = json_float x"
| "dump_val sty lvl (VStr s) = json_string s"
| "dump_val sty lvl (VList xs) =
     (if xs = [] then ''[]''
      else ''['' @ nl_indent sty (Suc lvl)
        @ join (item_sep sty @ nl_indent sty (Suc lvl)) (map (dump_val sty (Suc lvl)) xs)
        @ nl_indent sty lvl @ '']'')"
| "dump_val sty lvl (VDict d) =
     (if d = [] then ''{}''
      else ''{'' @ nl_indent sty (Suc lvl)
        @ join (item_sep sty @ nl_indent sty (Suc lvl))
            (map (\<lambda>kv. json_string (fst kv) @ key_sep sty @ dump_val sty (Suc lvl) (snd kv)) d)
        @ nl_indent sty lvl @ ''}'')"

definition dumps :: "style \<Rightarrow> pyval \<Rightarrow> string" where
  "dumps sty v = dump_val sty 0 v"

text \<open>\<open>repr(v)\<close> and \<open>str(v)\<close>.\<close>

definition repr_char :: "char \<Rightarrow> char \<Rightarrow> string" where
  "repr_char q c =
     (if c = q \<or> c = CHR 0x5C then [CHR 0x5C, c]
      else if c = CHR 0x0A then [CHR 0x5C, CHR ''n'']
      else if c = CHR 0x0D then [CHR 0x5C, CHR ''r'']
      else if c = CHR 0x09 then [CHR 0x5C, CHR ''t'']
      else if code c < 32 \<or> (127 \<le> code c \<and> code c \<le> 160) \<or> code c = 173
      then CHR 0x5C # CHR ''x'' # [hex_char (code c div 16), hex_char (code c)]
      else [c])"

definition repr_str :: "string \<Rightarrow> string" where
  "repr_str s = (let q = (if CHR 0x27 \<in> set s \<and> CHR 0x22 \<notin> set s then CHR 0x22 else CHR 0x27)
     in q # concat (map (repr_char q) s) @ [q])"

fun py_repr :: "pyval \<Rightarrow> string" where
  "py_repr VNone = ''None''"
| "py_repr (VBool b) = (if b then ''True'' else ''False'')"
| "py_repr (VInt i) = show_int i"
| "py_repr (VFloat x) = float_repr x"
| "py_repr (VStr s) = repr_str s"
| "py_repr (VList xs) = ''['' @ join '', '' (map py_repr xs) @ '']''"
| "py_repr (VDict d) =
     ''{'' @ join '', '' (map (\<lambda>kv. repr_str (fst kv) @ '': '' @ py_repr (snd kv)) d) @ ''}''"

definition py_str :: "pyval \<Rightarrow> string" where
  "py_str v = (case v of VStr s \<Rightarrow> s | _ \<Rightarrow> py_repr v)"

text \<open>\<open>str(d[k])\<close>.\<close>

definition text_item :: "pydict \<Rightarrow> string \<Rightarrow> string res" where
  "text_item d k = rbind (ditem d k) (\<lambda>v. Inr (py_str v))"

section \<open>Conversions\<close>

text \<open>\<open>int(v)\<close>.\<close>

definition int_of_val :: "pyval \<Rightarrow> int res" where
  "int_of_val v = (case v of
     VInt i \<Rightarrow> Inr i
   | VBool b \<Rightarrow> Inr (if b then 1 else 0)
   | VFloat x \<Rightarrow> int_of_float x
   | VStr s \<Rightarrow> (case py_int s of Some i \<Rightarrow> Inr i
       | None \<Rightarrow> raise ValueError (''invalid literal for int() with base 10: '' @ repr_str s))
   | _ \<Rightarrow> raise TypeError ''int() argument must be a string or a number'')"

text \<open>
  \<open>float(s)\<close> on a text: an optional sign, then a name or a decimal literal in which single
  underscores may separate digits.
\<close>

definition digit_or_underscore :: "char \<Rightarrow> bool" where
  "digit_or_underscore c \<longleftrightarrow> is_digit c \<or> c = CHR ''_''"

definition part_val :: "string \<Rightarrow> nat" where
  "part_val s = digits_val (filter is_digit s)"

definition exponent_of :: "string \<Rightarrow> int option" where
  "exponent_of r =
     (if r = [] then Some 0
      else if hd r \<noteq> CHR ''e'' \<and> hd r \<noteq> CHR ''E'' then None
      else let t = tl r;
               neg = (t \<noteq> [] \<and> hd t = CHR ''-'');
               ds = (if t \<noteq> [] \<and> (hd t = CHR ''-'' \<or> hd t = CHR ''+'') then tl t else t)
           in if int_body ds then Some (if neg then - int (part_val ds) else int (part_val ds))
              else None)"

definition decimal_of :: "string \<Rightarrow> rat option" where
  "decimal_of s =
     (let ip = takeWhile digit_or_underscore s; r1 = dropWhile digit_or_underscore s;
          dot = (r1 \<noteq> [] \<and> hd r1 = CHR ''.'');
          fp = (if dot then takeWhile digit_or_underscore (tl r1) else []);
          r2 = (if dot then dropWhile digit_or_underscore (tl r1) else r1)
      in if (ip = [] \<and> fp = []) \<or> (ip \<noteq> [] \<and> \<not> int_body ip) \<or> (fp \<noteq> [] \<and> \<not> int_body fp) then None
         else map_option (\<lambda>e. of_nat (part_val (ip @ fp)) * 10 powi (e - int (length (filter is_digit fp))))
           (exponent_of r2))"

definition py_float :: "string \<Rightarrow> pyfloat option" where
  "py_float s0 =
     (let s = strip s0;
          neg = (s \<noteq> [] \<and> hd s = CHR ''-'');
          body = (if s \<noteq> [] \<and> (hd s = CHR ''-'' \<or> hd s = CHR ''+'') then tl s else s);
          low = py_lower body
      in if low = ''inf'' \<or> low = ''infinity'' then Some (if neg then NInf else PInf)
         else if low = ''nan'' then Some NaN
         else map_option (\<lambda>q. to_float (if neg then - q else q)) (decimal_of body))"

text \<open>\<open>float(v)\<close>.\<close>

definition float_of_val :: "pyval \<Rightarrow> pyfloat res" where
  "float_of_val v = (case v of
     VInt i \<Rightarrow> float_of_int i
   | VBool b \<Rightarrow> Inr (Fin (if b then 1 else 0))
   | VFloat x \<Rightarrow> Inr x
   | VStr s \<Rightarrow> as_some (py_float s) ValueError (''could not convert string to float: '' @ repr_str s) Inr
   | _ \<Rightarrow> raise TypeError ''float() argument must be a string or a real number'')"

text \<open>\<open>round(x, k)\<close>: the float nearest to the correctly rounded decimal.\<close>

definition py_round :: "nat \<Rightarrow> pyfloat \<Rightarrow> pyfloat" where
  "py_round k x = (case x of
     Fin a \<Rightarrow> to_float (of_int (round_even (a * 10 ^ k)) / 10 ^ k) | _ \<Rightarrow> x)"

section \<open>Parsing\<close>

definition json_ws :: "char \<Rightarrow> bool" where
  "json_ws c \<longleftrightarrow> c \<in> set [CHR '' '', CHR 0x09, CHR 0x0A, CHR 0x0D]"

abbreviation skip_ws :: "string \<Rightarrow> string" where
  "skip_ws s \<equiv> dropWhile json_ws s"

fun hex_val :: "char \<Rightarrow> nat option" where
  "hex_val c = (if is_digit c then Some (code c - 48)
     else if c \<in> set ''abcdef'' then Some (code c - 87)
     else if c \<in> set ''ABCDEF'' then Some (code c - 55) else None)"

definition simple_escape :: "char \<Rightarrow> char option" where
  "simple_escape c = map_of
     [(CHR 0x22, CHR 0x22), (CHR 0x5C, CHR 0x5C), (CHR ''/'', CHR ''/''), (CHR ''b'', CHR 0x08),
      (CHR ''f'', CHR 0x0C), (CHR ''n'', CHR 0x0A), (CHR ''r'', CHR 0x0D), (CHR ''t'', CHR 0x09)] c"

text \<open>The rest of a string literal after its opening quote.\<close>

fun parse_str :: "string \<Rightarrow> (string \<times> string) option" where
  "parse_str [] = None"
| "parse_str (c # s) =
     (if c = CHR 0x22 then Some ([], s)
      else if c = CHR 0x5C then
        (case s of
           [] \<Rightarrow> None
         | e # s1 \<Rightarrow>
             (if e = CHR ''u'' then
                (case s1 of
                   a # b # x # y # s2 \<Rightarrow>
                     (case (hex_val a, hex_val b, hex_val x, hex_val y) of
                        (Some 0, Some 0, Some i, Some j) \<Rightarrow>
                          map_option (\<lambda>(t, r). (char_of (16 * i + j) # t, r)) (parse_str s2)
                      | _ \<Rightarrow> None)
                 | _ \<Rightarrow> None)
              else case simple_escape e of
                     None \<Rightarrow> None
                   | Some c' \<Rightarrow> map_option (\<lambda>(t, r). (c' # t, r)) (parse_str s1)))
      else if code c < 32 then None
      else map_option (\<lambda>(t, r). (c # t, r)) (parse_str s))"

text \<open>\<open>(-?(?:0|[1-9]\d*))(\.\d+)?([eE][-+]?\d+)?\<close>\<close>

definition parse_frac :: "string \<Rightarrow> (string \<times> string) option" where
  "parse_frac s = (case s of c # r \<Rightarrow>
       if c = CHR ''.'' \<and> takeWhile is_digit r \<noteq> [] then Some (takeWhile is_digit r, dropWhile is_digit r)
       else None | [] \<Rightarrow> None)"

definition parse_exp :: "string \<Rightarrow> (int \<times> string) option" where
  "parse_exp s = (case s of c # r \<Rightarrow>
       if c = CHR ''e'' \<or> c = CHR ''E'' then
         (let neg = (r \<noteq> [] \<and> hd r = CHR ''-'');
              r1 = (if r \<noteq> [] \<and> (hd r = CHR ''-'' \<or> hd r = CHR ''+'') then tl r else r);
              ds = takeWhile is_digit r1; n = int (digits_val ds) in
          if ds = [] then None else Some (if neg then - n else n, dropWhile is_digit r1))
       else None | [] \<Rightarrow> None)"

definition int_digits :: "string \<Rightarrow> string" where
  "int_digits s = (if s \<noteq> [] \<and> hd s = CHR ''0'' then ''0'' else takeWhile is_digit s)"

definition parse_num :: "string \<Rightarrow> (pyval \<times> string) option" where
  "parse_num s0 =
     (let neg = (s0 \<noteq> [] \<and> hd s0 = CHR ''-''); s = (if neg then tl s0 else s0);
          ds = int_digits s;
          s1 = drop (length ds) s;
          sgn = (if neg then - 1 else 1) in
      if ds = [] then None
      else case (parse_frac s1, parse_exp s1) of
        (None, None) \<Rightarrow> Some (VInt (sgn * int (digits_val ds)), s1)
      | (None, Some (e, r)) \<Rightarrow>
          Some (VFloat (to_float (of_int (sgn * int (digits_val ds)) * 10 powi e)), r)
      | (Some (fs, r), _) \<Rightarrow>
          (let m = of_int (sgn * int (digits_val (ds @ fs))) :: rat; k = - int (length fs) in
           case parse_exp r of
             None \<Rightarrow> Some (VFloat (to_float (m * 10 powi k)), r)
           | Some (e, r') \<Rightarrow> Some (VFloat (to_float (m * 10 powi (k + e))), r')))"

fun parse_val :: "nat \<Rightarrow> string \<Rightarrow> (pyval \<times> string) option"
  and parse_elems :: "nat \<Rightarrow> string \<Rightarrow> (pyval list \<times> string) option"
  and parse_items :: "nat \<Rightarrow> string \<Rightarrow> (pydict \<times> string) option"
where
  "parse_val 0 s = None"
| "parse_val (Suc n) s =
     (case s of
        [] \<Rightarrow> None
      | c # r \<Rightarrow>
          if c = CHR 0x22 then map_option (\<lambda>(t, r'). (VStr t, r')) (parse_str r)
          else if c = CHR ''{'' then
            (case skip_ws r of
               [] \<Rightarrow> None
             | c' # r' \<Rightarrow> if c' = CHR ''}'' then Some (VDict [], r')
                 else map_option (\<lambda>(d, r2).
                        (VDict (foldl (\<lambda>acc (k, v). dset acc k v) [] d), r2))
                        (parse_items n (c' # r')))
          else if c = CHR ''['' then
            (case skip_ws r of
               [] \<Rightarrow> None
             | c' # r' \<Rightarrow> if c' = CHR '']'' then Some (VList [], r')
                 else map_option (\<lambda>(xs, r2). (VList xs, r2)) (parse_elems n (c' # r')))
          else if prefix ''null'' s then Some (VNone, drop 4 s)
          else if prefix ''true'' s then Some (VBool True, drop 4 s)
          else if prefix ''false'' s then Some (VBool False, drop 5 s)
          else if prefix ''NaN'' s then Some (VFloat NaN, drop 3 s)
          else if prefix ''Infinity'' s then Some (VFloat PInf, drop 8 s)
          else if prefix ''-Infinity'' s then Some (VFloat NInf, drop 9 s)
          else parse_num s)"
| "parse_elems 0 s = None"
| "parse_elems (Suc n) s =
     (case parse_val n s of
        None \<Rightarrow> None
      | Some (v, r) \<Rightarrow>
          (case skip_ws r of
             [] \<Rightarrow> None
           | c # r1 \<Rightarrow>
               if c = CHR '']'' then Some ([v], r1)
               else if c = CHR '','' then
                 map_option (\<lambda>(vs, r2). (v # vs, r2)) (parse_elems n (skip_ws r1))
               else None))"
| "parse_items 0 s = None"
| "parse_items (Suc n) s =
     (case s of
        [] \<Rightarrow> None
      | q # s1 \<Rightarrow>
          if q \<noteq> CHR 0x22 then None
          else (case parse_str s1 of
            None \<Rightarrow> None
          | Some (k, r) \<Rightarrow>
              (case skip_ws r of
                 [] \<Rightarrow> None
               | c # r1 \<Rightarrow>
                   if c \<noteq> CHR '':'' then None
                   else (case parse_val n (skip_ws r1) of
                     None \<Rightarrow> None
                   | Some (v, r2) \<Rightarrow>
                       (case skip_ws r2 of
                          [] \<Rightarrow> None
                        | c2 # r3 \<Rightarrow>
                            if c2 = CHR ''}'' then Some ([(k, v)], r3)
                            else if c2 = CHR '','' then
                              map_option (\<lambda>(d, r4). ((k, v) # d, r4))
                                (parse_items n (skip_ws r3))
                            else None)))))"

definition loads :: "string \<Rightarrow> pyval res" where
  "loads s = (case parse_val (Suc (length s)) (skip_ws s) of
     None \<Rightarrow> raise JSONDecodeError ''Expecting value''
   | Some (v, r) \<Rightarrow> if skip_ws r = [] then Inr v else raise JSONDecodeError ''Extra data'')"

section \<open>Round trip of scalars\<close>

lemma hex_val_hex_char [simp]: "hex_val (hex_char n) = Some (n mod 16)"
proof -
  have sixteen: "m \<in> {0, 1, 2, 3, 4, 5, 6, 7, 8, 9, 10, 11, 12, 13, 14, 15}" if "m < 16" for m :: nat
    using that by (simp; presburger)
  have "hex_val (''0123456789abcdef'' ! m) = Some m" if "m < 16" for m
    using sixteen [OF that] unfolding insert_iff empty_iff
    by (elim disjE) (simp_all add: hex_val.simps is_digit_def)
  then show ?thesis by (simp add: hex_char_def del: hex_val.simps)
qed

declare hex_val.simps [simp del]

lemma hex_val_zero [simp]: "hex_val (CHR ''0'') = Some 0"
  by (simp add: hex_val.simps is_digit_def)

lemma code_lt_256: "code c < 256"
  by (cases c) (simp add: of_char_def horner_sum_of_bool_2_less)

lemma parse_str_esc:
  "parse_str (esc_char c @ s) = map_option (\<lambda>(t, r). (c # t, r)) (parse_str s)"
proof -
  have "code c div 16 < 16" using code_lt_256 [of c] by (intro less_mult_imp_div_less) simp
  then have "16 * (code c div 16 mod 16) + code c mod 16 = code c" by simp
  then have "char_of (16 * (code c div 16 mod 16) + code c mod 16) = c" by simp
  then show ?thesis
    by (auto simp: esc_char_def simple_escape_def split: prod.splits)
qed

lemma parse_str_json: "parse_str (concat (map esc_char t) @ CHR 0x22 # r) = Some (t, r)"
  by (induction t) (auto simp: parse_str_esc)

definition num_stop :: "string \<Rightarrow> bool" where
  "num_stop r \<longleftrightarrow> r = [] \<or> (\<not> is_digit (hd r) \<and> hd r \<notin> set ''.eE'')"

lemma takeWhile_all_append:
  "list_all P s \<Longrightarrow> r = [] \<or> \<not> P (hd r) \<Longrightarrow> takeWhile P (s @ r) = s"
  by (induction s) (cases r, auto)+

lemma dropWhile_all_append:
  "list_all P s \<Longrightarrow> r = [] \<or> \<not> P (hd r) \<Longrightarrow> dropWhile P (s @ r) = r"
  by (induction s) (cases r, auto)+

lemma num_stop_parts: "num_stop r \<Longrightarrow> parse_frac r = None \<and> parse_exp r = None"
  by (cases r) (auto simp: num_stop_def parse_frac_def parse_exp_def)

lemma hd_show_nat: "is_digit (hd (show_nat n))"
  using show_nat_digits [of n] by (cases "show_nat n") auto

lemma int_digits_show:
  assumes "num_stop r"
  shows "int_digits (show_nat n @ r) = show_nat n"
proof (cases "n = 0")
  case True
  then show ?thesis by (simp add: int_digits_def show_nat.simps digit_char_def)
next
  case False
  have "takeWhile is_digit (show_nat n @ r) = show_nat n"
    using show_nat_digits assms by (intro takeWhile_all_append) (auto simp: num_stop_def)
  then show ?thesis using False hd_show_nat_zero [of n] by (simp add: int_digits_def)
qed

lemma parse_num_nat:
  assumes "num_stop r"
  shows "parse_num (show_nat n @ r) = Some (VInt (int n), r)"
    and "parse_num (CHR ''-'' # show_nat n @ r) = Some (VInt (- int n), r)"
proof -
  have "hd (show_nat n) \<noteq> CHR ''-''" using hd_show_nat [of n] by (auto simp: is_digit_def)
  then show "parse_num (show_nat n @ r) = Some (VInt (int n), r)"
    using num_stop_parts [OF assms] int_digits_show [OF assms, of n]
    by (simp add: parse_num_def Let_def)
  show "parse_num (CHR ''-'' # show_nat n @ r) = Some (VInt (- int n), r)"
    using num_stop_parts [OF assms] int_digits_show [OF assms, of n]
    by (simp add: parse_num_def Let_def)
qed

lemma parse_num_int: "num_stop r \<Longrightarrow> parse_num (show_int i @ r) = Some (VInt i, r)"
  using parse_num_nat [of r "nat i"] parse_num_nat [of r "nat (- i)"]
  by (auto simp: show_int_def)

lemma parse_val_int:
  assumes "num_stop r"
  shows "parse_val (Suc n) (show_int i @ r) = Some (VInt i, r)"
proof -
  obtain c s where s: "show_int i = c # s" and c: "c = CHR ''-'' \<or> is_digit c"
    and neg: "c = CHR ''-'' \<longrightarrow> s \<noteq> [] \<and> is_digit (hd s)"
    using hd_show_nat [of "nat i"] hd_show_nat [of "nat (- i)"]
    by (cases "i < 0"; cases "show_nat (nat i)") (auto simp: show_int_def is_digit_def)
  have noinf: "\<not> prefix ''-Infinity'' (c # s @ r)"
    using neg by (cases s) (auto simp: is_digit_def)
  have special: "c \<notin> set [CHR 0x22, CHR ''{'', CHR ''['', CHR ''n'', CHR ''t'', CHR ''f'', CHR ''N'', CHR ''I'']"
    using c by (elim disjE) (simp, simp add: is_digit_def, elim disjE, simp_all)
  then have rev: "CHR ''n'' \<noteq> c" "CHR ''t'' \<noteq> c" "CHR ''f'' \<noteq> c" "CHR ''N'' \<noteq> c" "CHR ''I'' \<noteq> c"
    by auto
  show ?thesis
    using parse_num_int [OF assms, of i] special noinf by (simp add: s rev)
qed

section \<open>Round trip of structures\<close>

definition style_ok :: "style \<Rightarrow> bool" where
  "style_ok sty \<longleftrightarrow> (\<exists>w. item_sep sty = '','' @ w \<and> list_all json_ws w)
     \<and> (\<exists>w. key_sep sty = '':'' @ w \<and> list_all json_ws w)"

lemma styles_ok [simp]: "style_ok compact_style" "style_ok indent2_style" "style_ok default_style"
  by (auto simp: style_ok_def compact_style_def indent2_style_def default_style_def json_ws_def)

lemma nl_indent_ws: "list_all json_ws (nl_indent sty lvl)"
  by (auto simp: nl_indent_def nl_def json_ws_def list_all_iff split: option.splits)

definition starts_value :: "string \<Rightarrow> bool" where
  "starts_value s \<longleftrightarrow> s \<noteq> [] \<and> \<not> json_ws (hd s) \<and> hd s \<noteq> CHR '']'' \<and> hd s \<noteq> CHR ''}''"

lemma digit_starts: "is_digit c \<Longrightarrow> \<not> json_ws c \<and> c \<noteq> CHR '']'' \<and> c \<noteq> CHR ''}''"
  by (auto simp: is_digit_def json_ws_def)

lemma dump_starts: "wf_val v \<Longrightarrow> starts_value (dump_val sty lvl v)"
proof (cases v)
  case (VInt i)
  then show ?thesis using digit_starts [OF hd_show_nat]
    by (auto simp: show_int_def starts_value_def json_ws_def)
qed (auto simp: starts_value_def json_ws_def json_string_def)

lemma skip_ws_append: "list_all json_ws w \<Longrightarrow> starts_value s \<Longrightarrow> skip_ws (w @ s @ r) = s @ r"
  by (induction w) (cases s, auto simp: starts_value_def)+

lemma skip_ws_close: "list_all json_ws w \<Longrightarrow> \<not> json_ws c \<Longrightarrow> skip_ws (w @ c # r) = c # r"
  by (induction w) auto

lemma json_seps [simp]:
  "\<not> json_ws (CHR '']'')" "\<not> json_ws (CHR ''}'')" "\<not> json_ws (CHR '','')" "\<not> json_ws (CHR '':'')"
  "\<not> json_ws (CHR 0x22)"
  by (simp_all add: json_ws_def)

text \<open>Text after a value inside a list or a mapping: white space, then a separator.\<close>

definition sep_rest :: "string \<Rightarrow> bool" where
  "sep_rest r \<longleftrightarrow> (\<exists>w c r'. r = w @ c # r' \<and> list_all json_ws w \<and> c \<in> set '',]}'')"

lemma sep_rest_num_stop: "sep_rest r \<Longrightarrow> num_stop r"
  unfolding sep_rest_def num_stop_def
  by (elim exE conjE, rename_tac w c r', case_tac w) (auto simp: json_ws_def is_digit_def)

definition item_text :: "style \<Rightarrow> nat \<Rightarrow> string \<times> pyval \<Rightarrow> string" where
  "item_text sty lvl kv = json_string (fst kv) @ key_sep sty @ dump_val sty lvl (snd kv)"

lemma join_Cons: "join sep (x # xs) = (if xs = [] then x else x @ sep @ join sep xs)"
  by (cases xs) auto

lemma sep_rest_comma:
  "style_ok sty \<Longrightarrow> sep_rest ((item_sep sty @ w) @ s)"
  by (auto simp: style_ok_def sep_rest_def intro!: exI [of _ "[]"])

lemma sep_rest_close: "list_all json_ws w \<Longrightarrow> c \<in> set '',]}'' \<Longrightarrow> sep_rest (w @ c # r)"
  by (auto simp: sep_rest_def)

lemma parse_elems_dump:
  assumes sty: "style_ok sty"
    and val: "\<And>v n r. v \<in> set xs \<Longrightarrow> num_stop r \<Longrightarrow> length (dump_val sty l v) \<le> n
      \<Longrightarrow> parse_val n (dump_val sty l v @ r) = Some (v, r)"
    and st: "\<And>v. v \<in> set xs \<Longrightarrow> starts_value (dump_val sty l v)"
    and ws: "list_all json_ws w" "list_all json_ws w2"
    and "xs \<noteq> []" "length (join (item_sep sty @ w) (map (dump_val sty l) xs)) < n"
  shows "parse_elems n (join (item_sep sty @ w) (map (dump_val sty l) xs) @ w2 @ CHR '']'' # r)
    = Some (xs, r)"
  using assms(2,3,6,7)
proof (induction xs arbitrary: n)
  case (Cons x xs)
  obtain m where n: "n = Suc m" using Cons.prems(4) by (cases n) auto
  obtain iw where iw: "item_sep sty = '','' @ iw" "list_all json_ws iw"
    using sty by (auto simp: style_ok_def)
  show ?case
  proof (cases "xs = []")
    case True
    have "num_stop (w2 @ CHR '']'' # r)" using ws by (intro sep_rest_num_stop sep_rest_close) auto
    then have "parse_val m (dump_val sty l x @ w2 @ CHR '']'' # r) = Some (x, w2 @ CHR '']'' # r)"
      using Cons.prems True n by (intro Cons.prems(1)) auto
    then show ?thesis using True n ws by (simp add: skip_ws_close)
  next
    case False
    let ?rest = "join (item_sep sty @ w) (map (dump_val sty l) xs) @ w2 @ CHR '']'' # r"
    have len: "length (dump_val sty l x) \<le> m"
      "length (join (item_sep sty @ w) (map (dump_val sty l) xs)) < m"
      using Cons.prems(4) n False iw(1) by (auto simp: join_Cons)
    have "num_stop ((item_sep sty @ w) @ ?rest)"
      using sty by (intro sep_rest_num_stop sep_rest_comma)
    then have 1: "parse_val m (dump_val sty l x @ (item_sep sty @ w) @ ?rest) =
        Some (x, (item_sep sty @ w) @ ?rest)"
      using len by (intro Cons.prems(1)) auto
    have 2: "parse_elems m ?rest = Some (xs, r)"
      using Cons.prems False len by (intro Cons.IH) auto
    obtain y ys where xs: "xs = y # ys" using False by (cases xs) auto
    have "starts_value (join (item_sep sty @ w) (map (dump_val sty l) xs))"
      using Cons.prems(2) [of y] by (cases "dump_val sty l y") (auto simp: xs join_Cons starts_value_def)
    then have 3: "skip_ws (iw @ w @ ?rest) = ?rest"
      using skip_ws_append [of "iw @ w"] iw(2) ws(1) by fastforce
    show ?thesis using 1 2 3 False n iw(1) by (simp add: join_Cons)
  qed
qed simp

lemma item_text_starts: "starts_value (item_text sty l kv)"
  by (simp add: starts_value_def item_text_def json_string_def)

lemma parse_items_dump:
  assumes sty: "style_ok sty"
    and val: "\<And>kv n r. kv \<in> set d \<Longrightarrow> num_stop r \<Longrightarrow> length (dump_val sty l (snd kv)) \<le> n
      \<Longrightarrow> parse_val n (dump_val sty l (snd kv) @ r) = Some (snd kv, r)"
    and st: "\<And>kv. kv \<in> set d \<Longrightarrow> starts_value (dump_val sty l (snd kv))"
    and ws: "list_all json_ws w" "list_all json_ws w2"
    and "d \<noteq> []" "length (join (item_sep sty @ w) (map (item_text sty l) d)) < n"
  shows "parse_items n (join (item_sep sty @ w) (map (item_text sty l) d) @ w2 @ CHR ''}'' # r)
    = Some (d, r)"
  using assms(2,3,6,7)
proof (induction d arbitrary: n)
  case (Cons x d)
  obtain m where n: "n = Suc m" using Cons.prems(4) by (cases n) auto
  obtain k v where x: "x = (k, v)" by (cases x)
  obtain iw where iw: "item_sep sty = '','' @ iw" "list_all json_ws iw"
    using sty by (auto simp: style_ok_def)
  obtain kw where kw: "key_sep sty = '':'' @ kw" "list_all json_ws kw"
    using sty by (auto simp: style_ok_def)
  have key: "skip_ws (kw @ dump_val sty l v @ t) = dump_val sty l v @ t" for t
    using kw(2) Cons.prems(2) [of x] x by (intro skip_ws_append) auto
  have head: "parse_items n (item_text sty l x @ t) =
      (case parse_val m (dump_val sty l v @ t) of None \<Rightarrow> None
       | Some (v', r2) \<Rightarrow> (case skip_ws r2 of [] \<Rightarrow> None
         | c2 # r3 \<Rightarrow> if c2 = CHR ''}'' then Some ([(k, v')], r3)
            else if c2 = CHR '','' then
              map_option (\<lambda>(d, r4). ((k, v') # d, r4)) (parse_items m (skip_ws r3))
            else None))" for t
    using parse_str_json [of k] key [of t] kw(1) by (simp add: n x item_text_def json_string_def)
  show ?case
  proof (cases "d = []")
    case True
    have "num_stop (w2 @ CHR ''}'' # r)" using ws by (intro sep_rest_num_stop sep_rest_close) auto
    moreover have "length (dump_val sty l v) \<le> m"
      using Cons.prems(4) True n x by (simp add: item_text_def)
    ultimately have "parse_val m (dump_val sty l v @ w2 @ CHR ''}'' # r) = Some (v, w2 @ CHR ''}'' # r)"
      using Cons.prems(1) [of x] x by simp
    then show ?thesis using True head [of "w2 @ CHR ''}'' # r"] ws x by (simp add: skip_ws_close)
  next
    case False
    let ?rest = "join (item_sep sty @ w) (map (item_text sty l) d) @ w2 @ CHR ''}'' # r"
    have "length (dump_val sty l v) \<le> length (item_text sty l x)"
      by (simp add: item_text_def x)
    then have len: "length (dump_val sty l v) \<le> m"
      "length (join (item_sep sty @ w) (map (item_text sty l) d)) < m"
      using Cons.prems(4) n False iw(1) by (auto simp: join_Cons)
    have "num_stop ((item_sep sty @ w) @ ?rest)"
      using sty by (intro sep_rest_num_stop sep_rest_comma)
    then have 1: "parse_val m (dump_val sty l v @ (item_sep sty @ w) @ ?rest) =
        Some (v, (item_sep sty @ w) @ ?rest)"
      using len Cons.prems(1) [of x] x by simp
    have 2: "parse_items m ?rest = Some (d, r)"
      using Cons.prems False len by (intro Cons.IH) auto
    obtain y ys where xs: "d = y # ys" using False by (cases d) auto
    have "starts_value (join (item_sep sty @ w) (map (item_text sty l) d))"
      using item_text_starts [of sty l y]
      by (cases "item_text sty l y") (auto simp: xs join_Cons starts_value_def)
    then have 3: "skip_ws (iw @ w @ ?rest) = ?rest"
      using skip_ws_append [of "iw @ w"] iw(2) ws(1) by fastforce
    show ?thesis using 1 2 3 False iw(1) head [of "(item_sep sty @ w) @ ?rest"] x
      by (simp add: join_Cons)
  qed
qed simp

lemma foldl_dset_distinct:
  "distinct (map fst (acc @ d)) \<Longrightarrow> foldl (\<lambda>acc (k, v). dset acc k v) acc d = acc @ d"
proof (induction d arbitrary: acc)
  case (Cons kv d)
  have "AList.update k v acc = acc @ [(k, v)]" if "k \<notin> fst ` set acc" for k v
    using that by (induction acc) auto
  then have "dset acc (fst kv) (snd kv) = acc @ [kv]" using Cons.prems by (simp add: dset_def)
  then show ?case using Cons.IH [of "acc @ [kv]"] Cons.prems by (simp add: case_prod_unfold)
qed simp

lemma parse_val_dump:
  assumes "style_ok sty"
  shows "wf_val v \<Longrightarrow> num_stop r \<Longrightarrow> length (dump_val sty l v) \<le> n
    \<Longrightarrow> parse_val n (dump_val sty l v @ r) = Some (v, r)"
proof (induction v arbitrary: l n r)
  case VNone
  then show ?case by (cases n) auto
next
  case (VBool b)
  then show ?case by (cases n; cases b) auto
next
  case (VInt i)
  then have "0 < n" using dump_starts [of "VInt i" sty l] by (cases n) (auto simp: starts_value_def)
  then show ?case using VInt parse_val_int by (cases n) auto
next
  case (VFloat x)
  then show ?case by simp
next
  case (VStr s)
  then show ?case using parse_str_json by (cases n) (auto simp: json_string_def)
next
  case (VList xs)
  show ?case
  proof (cases "xs = []")
    case True
    then show ?thesis using VList by (cases n) auto
  next
    case False
    let ?w = "nl_indent sty (Suc l)"
    let ?j = "join (item_sep sty @ ?w) (map (dump_val sty (Suc l)) xs)"
    obtain m where n: "n = Suc m" using VList.prems(3) False by (cases n) auto
    have st: "\<And>v. v \<in> set xs \<Longrightarrow> starts_value (dump_val sty (Suc l) v)"
      using VList.prems(1) dump_starts by (auto simp: list_all_iff)
    have "parse_elems m (?j @ nl_indent sty l @ CHR '']'' # r) = Some (xs, r)"
      using VList False n assms st nl_indent_ws
      by (intro parse_elems_dump) (auto simp: list_all_iff)
    moreover have "starts_value ?j"
      using False st by (cases xs) (auto simp: join_Cons starts_value_def)
    then obtain c s where "?j = c # s" "\<not> json_ws c" "c \<noteq> CHR '']''"
      by (cases ?j) (auto simp: starts_value_def)
    moreover have "skip_ws (?w @ ?j @ t) = ?j @ t" for t
      using nl_indent_ws \<open>starts_value ?j\<close> by (rule skip_ws_append)
    ultimately show ?thesis using False n by simp
  qed
next
  case (VDict d)
  show ?case
  proof (cases "d = []")
    case True
    then show ?thesis using VDict by (cases n) auto
  next
    case False
    let ?w = "nl_indent sty (Suc l)"
    let ?j = "join (item_sep sty @ ?w) (map (item_text sty (Suc l)) d)"
    have dump: "dump_val sty l (VDict d) = ''{'' @ ?w @ ?j @ nl_indent sty l @ ''}''"
      using False by (simp add: item_text_def [abs_def])
    obtain m where n: "n = Suc m" using VDict.prems(3) False by (cases n) auto
    have wf: "wf_val (snd kv)" if "kv \<in> set d" for kv
      using VDict.prems(1) that by (auto simp: list_all_iff)
    have ih: "parse_val n (dump_val sty (Suc l) (snd kv) @ r) = Some (snd kv, r)"
      if "kv \<in> set d" "num_stop r" "length (dump_val sty (Suc l) (snd kv)) \<le> n" for kv n r
      using VDict.IH [of kv "snd kv"] that wf by (cases kv) auto
    have "parse_items m (?j @ nl_indent sty l @ CHR ''}'' # r) = Some (d, r)"
      using False n assms nl_indent_ws VDict.prems(3) ih wf dump_starts unfolding dump
      by (intro parse_items_dump) auto
    moreover have "starts_value ?j"
      using False item_text_starts [of sty "Suc l" "hd d"]
      by (cases d) (auto simp: join_Cons starts_value_def)
    then obtain c s where "?j = c # s" "\<not> json_ws c" "c \<noteq> CHR ''}''"
      by (cases ?j) (auto simp: starts_value_def)
    moreover have "skip_ws (?w @ ?j @ t) = ?j @ t" for t
      using nl_indent_ws \<open>starts_value ?j\<close> by (rule skip_ws_append)
    moreover have "foldl (\<lambda>acc (k, v). dset acc k v) [] d = d"
      using VDict.prems(1) foldl_dset_distinct [of "[]" d] by simp
    ultimately show ?thesis unfolding dump n by simp
  qed
qed

text \<open>Text printed in a supported style, with white space after it, reads back as the value.\<close>

theorem loads_dumps:
  assumes "style_ok sty" "wf_val v" "list_all json_ws w"
  shows "loads (dumps sty v @ w) = Inr v"
proof -
  have "num_stop w" using assms(3) by (cases w) (auto simp: num_stop_def json_ws_def is_digit_def)
  then have "parse_val (Suc (length (dumps sty v @ w))) (dumps sty v @ w) = Some (v, w)"
    unfolding dumps_def using assms by (intro parse_val_dump) auto
  moreover have "skip_ws (dumps sty v @ w) = dumps sty v @ w"
    using skip_ws_append [of "[]" "dumps sty v" w] dump_starts [OF assms(2)]
    by (simp add: dumps_def)
  moreover have "skip_ws w = []" using assms(3) by (simp add: list_all_iff)
  ultimately show ?thesis by (simp add: loads_def)
qed

section \<open>Output is ASCII\<close>

definition ascii :: "string \<Rightarrow> bool" where
  "ascii s \<longleftrightarrow> list_all (\<lambda>c. code c < 128) s"

lemma ascii_simps [simp]:
  "ascii []" "ascii (c # s) \<longleftrightarrow> code c < 128 \<and> ascii s" "ascii (s @ t) \<longleftrightarrow> ascii s \<and> ascii t"
  by (simp_all add: ascii_def)

lemma hex_ascii: "is_lower_hex c \<Longrightarrow> code c < 128"
  unfolding is_lower_hex_def by (simp, elim disjE) simp_all

lemma digit_ascii: "is_digit c \<Longrightarrow> code c < 128"
  unfolding is_digit_def by (simp, elim disjE) simp_all

lemma ascii_show_nat [simp]: "ascii (show_nat n)"
  using show_nat_digits [of n] digit_ascii by (auto simp: ascii_def list_all_iff)

lemma ascii_json_string [simp]: "ascii (json_string s)"
proof -
  have "ascii (esc_char c)" for c
    using hex_ascii [OF hex_char_lower] by (simp add: esc_char_def)
  then show ?thesis by (induction s) (auto simp: json_string_def)
qed

lemma ascii_join: "ascii sep \<Longrightarrow> (\<And>x. x \<in> set xs \<Longrightarrow> ascii x) \<Longrightarrow> ascii (join sep xs)"
  by (induction sep xs rule: join.induct) auto

lemma ascii_dump:
  assumes "ascii (item_sep sty)" "ascii (key_sep sty)"
  shows "wf_val v \<Longrightarrow> ascii (dump_val sty l v)"
proof -
  have ind: "ascii (nl_indent sty k)" for k
    by (auto simp: nl_indent_def nl_def ascii_def list_all_iff split: option.splits)
  show "wf_val v \<Longrightarrow> ?thesis"
  proof (induction v arbitrary: l)
    case (VList xs)
    then have "ascii (join (item_sep sty @ nl_indent sty (Suc l)) (map (dump_val sty (Suc l)) xs))"
      using assms ind by (intro ascii_join) (auto simp: list_all_iff)
    then show ?case using ind by simp
  next
    case (VDict d)
    then have "ascii (join (item_sep sty @ nl_indent sty (Suc l))
        (map (\<lambda>kv. json_string (fst kv) @ key_sep sty @ dump_val sty (Suc l) (snd kv)) d))"
      using assms ind by (intro ascii_join) (auto simp: list_all_iff)
    then show ?case using ind by simp
  qed (auto simp: show_int_def)
qed

lemma ascii_dumps: "wf_val v \<Longrightarrow> ascii (dumps compact_style v)" "wf_val v \<Longrightarrow> ascii (dumps indent2_style v)"
  by (simp_all add: dumps_def ascii_dump compact_style_def indent2_style_def)

end
