(* ===== verification/Pilot.thy ===== *)
theory Pilot
  imports Slo Py_Json
begin

text \<open>
  How the pilot turns one measured cell into a verdict (\<open>phase8/campaign/pilot.py\<close>): the cgroup
  counters, the rates derived from two samples, the observation built from the report of the load
  generator, and the call of \<open>verdict\<close>. The text of \<open>cpu.stat\<close>, the clock and the report are
  arguments; the deployment of the cell is not modelled.
\<close>

section \<open>Counters\<close>

record cgroup_sample =
  at_seconds :: pyfloat
  nr_periods :: int
  nr_throttled :: int
  throttled_usec :: int
  usage_usec :: int

definition USEC_PER_SECOND :: int where
  "USEC_PER_SECOND = 1000000"

definition pilot_stat_line :: "(string \<times> int) list \<Rightarrow> string \<Rightarrow> (string \<times> int) list" where
  "pilot_stat_line values line = (case py_split line of
     [key, v] \<Rightarrow> (case py_int v of Some i \<Rightarrow> AList.update key i values | None \<Rightarrow> values)
   | _ \<Rightarrow> values)"

definition pilot_cpu_stat :: "string \<Rightarrow> (string \<times> int) list" where
  "pilot_cpu_stat raw = foldl pilot_stat_line [] (splitlines raw)"

definition sample_cgroup :: "string \<Rightarrow> pyfloat \<Rightarrow> cgroup_sample res" where
  "sample_cgroup raw now =
     (let values = pilot_cpu_stat raw; get = (\<lambda>k. case map_of values k of Some i \<Rightarrow> i | None \<Rightarrow> 0) in
      rbind (rforeach (\<lambda>required. require (map_of values required \<noteq> None) KubernetesError
        (''cpu.stat is missing '' @ required @ '': '' @ take 200 (strip raw)) (Inr ()))
        [''usage_usec'', ''nr_periods'', ''nr_throttled'', ''throttled_usec'']) (\<lambda>_.
      Inr \<lparr> at_seconds = now, nr_periods = get ''nr_periods'', nr_throttled = get ''nr_throttled'',
        throttled_usec = get ''throttled_usec'', usage_usec = get ''usage_usec'' \<rparr>))"

text \<open>An integer divided by a float, and \<open>min(1.0, x)\<close>, which keeps \<open>1.0\<close> unless \<open>x\<close> is smaller.\<close>

definition int_over :: "int \<Rightarrow> pyfloat \<Rightarrow> pyfloat res" where
  "int_over i x = rbind (float_of_int i) (\<lambda>a. f_div a x)"

definition min_one :: "pyfloat \<Rightarrow> pyfloat" where
  "min_one x = (if f_lt x (Fin 1) then x else Fin 1)"

definition derive_cpu_metrics :: "cgroup_sample \<Rightarrow> cgroup_sample \<Rightarrow> int \<Rightarrow> (string \<times> pyfloat) list res" where
  "derive_cpu_metrics before after limit_m =
     (let elapsed = f_sub (at_seconds after) (at_seconds before);
          throttled_delta = throttled_usec after - throttled_usec before;
          usage_delta = usage_usec after - usage_usec before;
          periods_delta = nr_periods after - nr_periods before in
      require (\<not> f_le elapsed (Fin 0)) KubernetesError ''cgroup samples are not ordered in time'' (
      require (0 \<le> throttled_delta \<and> 0 \<le> usage_delta \<and> 0 \<le> periods_delta) KubernetesError
        ''cgroup counters decreased; the container was replaced'' (
      rbind (int_over throttled_delta (f_mul elapsed (Fin (of_int USEC_PER_SECOND)))) (\<lambda>ratio.
      rbind (int_over throttled_delta elapsed) (\<lambda>t1. rbind (f_div t1 (Fin 1000)) (\<lambda>throttled.
      rbind (int_over usage_delta elapsed) (\<lambda>u1. rbind (f_div u1 (Fin 1000)) (\<lambda>usage.
      rbind (float_of_int limit_m) (\<lambda>limit.
      rbind (float_of_int periods_delta) (\<lambda>periods.
      rbind (float_of_int (nr_throttled after - nr_throttled before)) (\<lambda>periods_throttled.
      Inr [(''throttle_ratio'', min_one ratio), (''throttled_ms_per_second'', throttled),
        (''cpu_usage_millicores'', usage), (''cpu_limit_millicores'', limit), (''periods'', periods),
        (''periods_throttled'', periods_throttled), (''elapsed_seconds'', elapsed)])))))))))))"

section \<open>The observation\<close>

text \<open>\<open>k in v\<close> and \<open>v[k]\<close> on values of the report.\<close>

definition in_val :: "string \<Rightarrow> pyval \<Rightarrow> bool res" where
  "in_val k v = (case v of
     VDict d \<Rightarrow> Inr (has_key d k)
   | VList xs \<Rightarrow> Inr (list_ex (py_eq (VStr k)) xs)
   | VStr s \<Rightarrow> Inr (str_in k s)
   | _ \<Rightarrow> raise TypeError ''argument is not iterable'')"

definition sub_val :: "pyval \<Rightarrow> string \<Rightarrow> pyval res" where
  "sub_val v k = (case v of
     VDict d \<Rightarrow> ditem d k
   | VList _ \<Rightarrow> raise TypeError ''list indices must be integers or slices, not str''
   | VStr _ \<Rightarrow> raise TypeError ''string indices must be integers, not str''
   | _ \<Rightarrow> raise TypeError ''object is not subscriptable'')"

text \<open>\<open>float(v[k]) if k in v else None\<close>.\<close>

definition opt_float :: "pyval \<Rightarrow> string \<Rightarrow> pyfloat option res" where
  "opt_float v k = rbind (in_val k v) (\<lambda>there.
     if there then rbind (sub_val v k) (\<lambda>x. rbind (float_of_val x) (\<lambda>f. Inr (Some f))) else Inr None)"

text \<open>
  The parameter \<open>target_reached\<close> is not used in the body. \<open>availability\<close> is bound only when a
  request completed; reading it otherwise raises.
\<close>

definition observation_from :: "pydict \<Rightarrow> (string \<times> pyfloat) list \<Rightarrow> bool option \<Rightarrow> observation res" where
  "observation_from loadgen cpu reached =
     (let latency = (let v = dget loadgen ''latency_ms'' in if truthy v then v else VDict []) in
      rbind (int_of_val (dget_or loadgen ''completed'' (VInt 0))) (\<lambda>completed.
      rbind (int_of_val (dget_or loadgen ''errors'' (VInt 0))) (\<lambda>errors.
      rbind (if 0 < completed then rbind (int_truediv errors completed) (\<lambda>q. Inr (Some (f_sub (Fin 1) q)))
             else Inr None) (\<lambda>availability.
      rbind (opt_float latency ''p50'') (\<lambda>p50.
      rbind (opt_float latency ''p99'') (\<lambda>p99.
      rbind (opt_float (VDict loadgen) ''achieved_rate_rps'') (\<lambda>throughput.
      rbind (opt_float (VDict loadgen) ''error_ratio'') (\<lambda>error.
      as_some availability UnboundLocalError
        (''cannot access local variable '' @ repr_str ''availability'' @ '' where it is not associated with a value'')
        (\<lambda>available.
      Inr \<lparr> p50_latency_ms = p50, p99_latency_ms = p99, throughput_rps = throughput, error_ratio = error,
        availability_ratio = Some available, cpu_usage_millicores = map_of cpu ''cpu_usage_millicores'',
        throttled_ms_per_second = map_of cpu ''throttled_ms_per_second'', completed_requests = completed,
        loadgen_valid = truthy (dget_or loadgen ''valid'' (VBool False)),
        loadgen_invalid_reason = (let v = dget loadgen ''invalid_reason'' in if truthy v then py_str v else []),
        target_reached = None \<rparr>)))))))))"

section \<open>The verdict on a cell\<close>

text \<open>\<open>measure_cell\<close> from the two samples and the report on.\<close>

definition judge_cell ::
  "cgroup_sample \<Rightarrow> cgroup_sample \<Rightarrow> int \<Rightarrow> pydict \<Rightarrow> slo \<Rightarrow> (outcome \<times> string) res" where
  "judge_cell before after limit_m report s =
     rbind (derive_cpu_metrics before after limit_m) (\<lambda>cpu.
     rbind (observation_from report cpu (Some True)) (\<lambda>o1.
     verdict o1 s default_required_fields DEFAULT_INVALID_ERROR_SHARE))"

section \<open>Laws\<close>

lemma observation_from_ok:
  assumes "observation_from report cpu reached = Inr o1"
  shows "target_reached o1 = None" "loadgen_valid o1 = truthy (dget_or report ''valid'' (VBool False))"
    "0 < completed_requests o1"
  using assms by (auto simp: observation_from_def Let_def split: if_splits)

lemma min_one_unit:
  assumes "f_div (Fin a) y = Inr x" "0 \<le> a" "\<not> f_lt y (Fin 0)"
  shows "\<exists>b. min_one x = Fin b \<and> 0 \<le> b \<and> b \<le> 1"
proof (cases y)
  case (Fin c)
  then have c: "0 < c" using assms(1,3) by (auto simp: f_div_def split: if_splits)
  then have x: "x = to_float (a / c)" using assms(1) Fin by (simp add: f_div_def)
  have "0 \<le> fl (a / c)" using assms(2) c by (intro fl_nonneg) simp
  then show ?thesis using x by (auto simp: to_float_def Let_def min_one_def)
qed (use assms in \<open>auto simp: f_div_def min_one_def\<close>)

lemma float_of_int_nonneg:
  assumes "float_of_int i = Inr v" "0 \<le> i"
  shows "\<exists>a. v = Fin a \<and> 0 \<le> a"
  using assms fl_nonneg [of "of_int i"] by (auto simp: float_of_int_def to_float_def Let_def split: if_splits)

lemma scaled_not_negative: "\<not> f_le e (Fin 0) \<Longrightarrow> \<not> f_lt (f_mul e (Fin (of_int USEC_PER_SECOND))) (Fin 0)"
proof (cases e)
  case (Fin c)
  moreover assume "\<not> f_le e (Fin 0)"
  ultimately have "0 \<le> fl (c * of_int USEC_PER_SECOND)" by (intro fl_nonneg) (simp add: USEC_PER_SECOND_def)
  then show ?thesis using Fin by (simp add: f_mul_def to_float_def Let_def)
qed (simp_all add: f_mul_def USEC_PER_SECOND_def)

section \<open>Properties\<close>

text \<open>
  The throttled share of a cell lies between 0 and 1 whatever the two samples are, as soon as
  the rates are derived at all: counters that decrease and samples out of order are refused, and a
  clock that is not a number or infinite cannot leave the interval either.
\<close>

theorem derive_cpu_metrics_ratio:
  assumes "derive_cpu_metrics before after limit_m = Inr m"
  shows "\<exists>r. map_of m ''throttle_ratio'' = Some (Fin r) \<and> 0 \<le> r \<and> r \<le> 1"
proof -
  let ?e = "f_sub (at_seconds after) (at_seconds before)"
  obtain ratio where d: "0 \<le> throttled_usec after - throttled_usec before" "\<not> f_le ?e (Fin 0)"
    and r: "int_over (throttled_usec after - throttled_usec before) (f_mul ?e (Fin (of_int USEC_PER_SECOND))) = Inr ratio"
    and m: "map_of m ''throttle_ratio'' = Some (min_one ratio)"
    using assms unfolding derive_cpu_metrics_def Let_def by auto
  obtain v where v: "float_of_int (throttled_usec after - throttled_usec before) = Inr v"
    "f_div v (f_mul ?e (Fin (of_int USEC_PER_SECOND))) = Inr ratio"
    using r by (auto simp: int_over_def)
  obtain a where "v = Fin a" "0 \<le> a" using float_of_int_nonneg [OF v(1) d(1)] by blast
  then show ?thesis using min_one_unit [OF _ _ scaled_not_negative [OF d(2)]] v(2) m by auto
qed

definition sample_before :: cgroup_sample where
  "sample_before = \<lparr> at_seconds = Fin 10, nr_periods = 100, nr_throttled = 5, throttled_usec = 4000, usage_usec = 90000 \<rparr>"

definition sample_after :: cgroup_sample where
  "sample_after = \<lparr> at_seconds = Fin 12, nr_periods = 120, nr_throttled = 7, throttled_usec = 504000, usage_usec = 190000 \<rparr>"

lemma int_over_total: "\<bar>i\<bar> < 2 ^ 53 \<Longrightarrow> y \<noteq> Fin 0 \<Longrightarrow> \<exists>x. int_over i y = Inr x"
  using float_of_int_small [of i] f_div_total by (simp add: int_over_def)

lemma sample_metrics: "\<exists>m. derive_cpu_metrics sample_before sample_after 500 = Inr m"
proof -
  have e: "f_sub (at_seconds sample_after) (at_seconds sample_before) = Fin 2"
    using to_float_small [of 2] by (simp add: sample_before_def sample_after_def f_sub_def)
  have k: "f_mul (Fin 2) (Fin (of_int USEC_PER_SECOND)) = Fin 2000000"
    using to_float_small [of 2000000] by (simp add: f_mul_def USEC_PER_SECOND_def)
  obtain a b where ab: "int_over 500000 (Fin 2000000) = Inr a" "int_over 500000 (Fin 2) = Inr b"
    using int_over_total [of 500000] by fastforce
  obtain c d f where cdf: "f_div b (Fin 1000) = Inr c" "int_over 100000 (Fin 2) = Inr d" "f_div d (Fin 1000) = Inr f"
    using f_div_total [of "Fin 1000"] int_over_total [of 100000 "Fin 2"] by fastforce
  show ?thesis
    unfolding derive_cpu_metrics_def Let_def e k
    using ab cdf float_of_int_small [of 500] float_of_int_small [of 20] float_of_int_small [of 2]
    by (simp add: sample_before_def sample_after_def require_def)
qed

theorem derive_cpu_metrics_ratio_witness:
  "\<exists>m r. derive_cpu_metrics sample_before sample_after 500 = Inr m
    \<and> map_of m ''throttle_ratio'' = Some (Fin r) \<and> r \<le> 1"
proof -
  obtain m where "derive_cpu_metrics sample_before sample_after 500 = Inr m"
    using sample_metrics by blast
  then show ?thesis using derive_cpu_metrics_ratio by blast
qed

text \<open>
  C4: the pilot never counts a failing service as a breach. \<open>observation_from\<close> drops its argument
  \<open>target_reached\<close>, so although \<open>measure_cell\<close> passes \<open>True\<close> the verdict sees a target that was not
  reached: a cell whose report is invalid is \<open>INVALID\<close>, however many requests the service failed.
  And a report without completed requests gives no verdict at all, but an exception.
\<close>

theorem judge_cell_invalid_report:
  assumes "judge_cell before after limit_m report s = Inr (res, reason)"
  shows "(if truthy (dget_or report ''valid'' (VBool False)) then True else res = INVALID)
    \<and> (\<exists>n. int_of_val (dget_or report ''completed'' (VInt 0)) = Inr n \<and> 0 < n)"
proof -
  obtain cpu o1 where o1: "observation_from report cpu (Some True) = Inr o1"
    and v: "verdict o1 s default_required_fields DEFAULT_INVALID_ERROR_SHARE = Inr (res, reason)"
    using assms by (auto simp: judge_cell_def)
  have "res = INVALID" if "\<not> loadgen_valid o1"
    using v that observation_from_ok(1) [OF o1]
    by (auto simp: verdict_def judge_loadgen_invalid_def service_breach_share_def Let_def split: if_splits)
  moreover have "\<exists>n. int_of_val (dget_or report ''completed'' (VInt 0)) = Inr n \<and> 0 < n"
    using o1 by (auto simp: observation_from_def Let_def split: if_splits)
  ultimately show ?thesis using observation_from_ok(2) [OF o1] by auto
qed

definition failing_report :: pydict where
  "failing_report = [(''completed'', VInt 10), (''valid'', VBool False),
     (''invalid_reason'', VStr ''90 of 100 requests failed'')]"

definition sample_slo :: slo where
  "sample_slo = \<lparr> max_p99_latency_ms = Fin 50, min_throughput_rps = Fin 10, max_error_ratio = Fin 0,
     min_availability_ratio = Fin 0 \<rparr>"

theorem judge_cell_invalid_report_witness:
  "\<exists>reason. judge_cell sample_before sample_after 500 failing_report sample_slo = Inr (INVALID, reason)"
proof -
  obtain cpu where cpu: "derive_cpu_metrics sample_before sample_after 500 = Inr cpu" using sample_metrics by blast
  have "int_truediv 0 10 = Inr (Fin 0)" using to_float_small [of 0] by (simp add: int_truediv_def)
  then obtain o1 where o1: "observation_from failing_report cpu (Some True) = Inr o1"
    by (simp add: observation_from_def failing_report_def dget_def dget_or_def int_of_val_def truthy_def
        opt_float_def in_val_def has_key_def)
  have "loadgen_valid o1 = False" "target_reached o1 = None"
    using observation_from_ok [OF o1] by (simp_all add: failing_report_def dget_or_def truthy_def)
  then have "\<exists>res reason. verdict o1 sample_slo default_required_fields DEFAULT_INVALID_ERROR_SHARE = Inr (res, reason)"
    by (auto simp: verdict_def DEFAULT_INVALID_ERROR_SHARE_def judge_loadgen_invalid_def service_breach_share_def Let_def)
  then obtain res reason where j: "judge_cell sample_before sample_after 500 failing_report sample_slo = Inr (res, reason)"
    using cpu o1 by (auto simp: judge_cell_def)
  have "\<not> truthy (dget_or failing_report ''valid'' (VBool False))" by code_simp
  then show ?thesis using judge_cell_invalid_report [OF j] j by auto
qed

end
