(* ===== verification/Py_Random.thy ===== *)
theory Py_Random
  imports Main "HOL-Library.Multiset"
begin

text \<open>
  \<open>random.Random\<close> as the planners use it. The generator of uniform draws is a parameter
  \<open>randbelow\<close>: it takes a state and a bound and returns a number and the next state, and the
  clients rely on \<open>draws_below\<close>, that a draw below \<open>n\<close> is below \<open>n\<close>. The algorithms of \<open>sample\<close> and
  \<open>shuffle\<close> on top of it are those of the standard library; both only permute.
\<close>

text \<open>
  \<open>random.sample(population, k)\<close> with a pool: turn \<open>i\<close> draws \<open>j\<close> below \<open>n - i\<close>, takes \<open>pool[j]\<close>
  and moves the last unused element into its place. \<open>m\<close> is \<open>n - i\<close>.
\<close>

fun sample_loop :: "('g \<Rightarrow> nat \<Rightarrow> nat \<times> 'g) \<Rightarrow> nat \<Rightarrow> 'a list \<Rightarrow> nat \<Rightarrow> 'g \<Rightarrow> 'a list \<times> 'g" where
  "sample_loop randbelow 0 pool m g = ([], g)"
| "sample_loop randbelow (Suc k) pool m g =
     (case randbelow g m of (j, g') \<Rightarrow>
      case sample_loop randbelow k (pool[j := pool ! (m - 1)]) (m - 1) g' of (xs, g'') \<Rightarrow>
        (pool ! j # xs, g''))"

definition sample :: "('g \<Rightarrow> nat \<Rightarrow> nat \<times> 'g) \<Rightarrow> 'a list \<Rightarrow> 'g \<Rightarrow> 'a list \<times> 'g" where
  "sample randbelow population g =
     sample_loop randbelow (length population) population (length population) g"

text \<open>
  \<open>random.shuffle(x)\<close>: for every position from the last down to the second, a swap with a position
  drawn at or below it.
\<close>

fun shuffle_loop :: "('g \<Rightarrow> nat \<Rightarrow> nat \<times> 'g) \<Rightarrow> nat \<Rightarrow> 'a list \<Rightarrow> 'g \<Rightarrow> 'a list" where
  "shuffle_loop randbelow 0 xs g = xs"
| "shuffle_loop randbelow (Suc i) xs g =
     (case randbelow g (Suc i + 1) of (j, g') \<Rightarrow>
      shuffle_loop randbelow i (xs[Suc i := xs ! j, j := xs ! Suc i]) g')"

definition shuffle :: "('g \<Rightarrow> nat \<Rightarrow> nat \<times> 'g) \<Rightarrow> 'a list \<Rightarrow> 'g \<Rightarrow> 'a list" where
  "shuffle randbelow xs g = shuffle_loop randbelow (length xs - 1) xs g"

section \<open>Laws\<close>

definition draws_below :: "('g \<Rightarrow> nat \<Rightarrow> nat \<times> 'g) \<Rightarrow> bool" where
  "draws_below randbelow \<longleftrightarrow> (\<forall>g n. 0 < n \<longrightarrow> fst (randbelow g n) < n)"

text \<open>One turn moves an element of the unused part of the pool into the result.\<close>

lemma pool_step:
  assumes "j < m" "m \<le> length pool"
  shows "mset (take m pool) = add_mset (pool ! j) (mset (take (m - 1) (pool[j := pool ! (m - 1)])))"
proof -
  have t: "take m pool = take (m - 1) pool @ [pool ! (m - 1)]"
    using assms take_Suc_conv_app_nth [of "m - 1" pool] by simp
  show ?thesis
  proof (cases "j = m - 1")
    case True
    then show ?thesis using t by simp
  next
    case False
    then have j: "j < length (take (m - 1) pool)" using assms by simp
    have u: "take (m - 1) (pool[j := pool ! (m - 1)]) = (take (m - 1) pool)[j := pool ! (m - 1)]"
      by (rule take_update_swap)
    have "mset ((take (m - 1) pool)[j := pool ! (m - 1)])
        = add_mset (pool ! (m - 1)) (mset (take (m - 1) pool) - {#take (m - 1) pool ! j#})"
      using j by (rule mset_update)
    moreover have "take (m - 1) pool ! j = pool ! j" using j by simp
    moreover have "pool ! j \<in># mset (take (m - 1) pool)"
      using j by (metis \<open>take (m - 1) pool ! j = pool ! j\<close> nth_mem_mset)
    ultimately show ?thesis using t u by simp
  qed
qed

lemma sample_loop_mset:
  assumes "draws_below randbelow" "m \<le> length pool"
  shows "mset (fst (sample_loop randbelow m pool m g)) = mset (take m pool)"
  using assms(2)
proof (induction m arbitrary: pool g)
  case (Suc m)
  obtain j g' where r: "randbelow g (Suc m) = (j, g')" by fastforce
  then have j: "j < Suc m" using assms(1) unfolding draws_below_def by (metis fst_conv zero_less_Suc)
  obtain xs g'' where s: "sample_loop randbelow m (pool[j := pool ! m]) m g' = (xs, g'')" by fastforce
  have "mset xs = mset (take m (pool[j := pool ! m]))"
    using Suc.IH [of "pool[j := pool ! m]" g'] Suc.prems s by simp
  then show ?case using pool_step [OF j Suc.prems] r s by simp
qed simp

lemma sample_mset:
  assumes "draws_below randbelow"
  shows "mset (fst (sample randbelow xs g)) = mset xs"
  using sample_loop_mset [of randbelow "length xs" xs g] assms by (simp add: sample_def)

lemma shuffle_loop_mset:
  assumes "draws_below randbelow" "i < length xs \<or> i = 0"
  shows "mset (shuffle_loop randbelow i xs g) = mset xs"
  using assms(2)
proof (induction i arbitrary: xs g)
  case (Suc i)
  obtain j g' where r: "randbelow g (Suc i + 1) = (j, g')" by fastforce
  then have "j < Suc i + 1" using assms(1) unfolding draws_below_def by (metis fst_conv zero_less_Suc Suc_eq_plus1)
  then have j: "j < length xs" "Suc i < length xs" using Suc.prems by simp_all
  have "mset (shuffle_loop randbelow i (xs[Suc i := xs ! j, j := xs ! Suc i]) g')
      = mset (xs[Suc i := xs ! j, j := xs ! Suc i])"
    using j by (intro Suc.IH) simp
  also have "\<dots> = mset xs" using j by (simp add: mset_swap)
  finally show ?case using r by simp
qed simp

lemma shuffle_mset [simp]:
  assumes "draws_below randbelow"
  shows "mset (shuffle randbelow xs g) = mset xs"
  unfolding shuffle_def using assms by (rule shuffle_loop_mset) (cases xs, simp_all)

lemma shuffle_same:
  assumes "draws_below randbelow"
  shows "length (shuffle randbelow xs g) = length xs" "set (shuffle randbelow xs g) = set xs"
  using shuffle_mset [OF assms, of xs g] by (metis size_mset, metis set_mset_mset)

end
