(* ===== verification/Py_Files.thy ===== *)
theory Py_Files
  imports Py_Json
begin

text \<open>
  A file system and the part of \<open>os\<close>, \<open>pathlib\<close> and \<open>shutil\<close> the tools use. A path is the list
  of its components from the root; the store is an association list from paths to nodes. An
  operation either returns the changed store or raises the error the structure of the tree
  forces (missing parents, files in the place of directories, non-empty targets). Links,
  permissions and device failures are not modelled. Programs are functions from the store to
  a result and the store they leave, also when they raise.
\<close>

named_theorems fs_simps \<open>what a path holds after an operation\<close>

type_synonym path = "string list"

datatype node = File string | Dir

type_synonym fs = "(path \<times> node) list"

definition lookup :: "fs \<Rightarrow> path \<Rightarrow> node option" where
  "lookup fs p = (if p = [] then Some Dir else map_of fs p)"

definition is_file :: "fs \<Rightarrow> path \<Rightarrow> bool" where
  "is_file fs p = (case lookup fs p of Some (File _) \<Rightarrow> True | _ \<Rightarrow> False)"

definition is_dir :: "fs \<Rightarrow> path \<Rightarrow> bool" where
  "is_dir fs p = (lookup fs p = Some Dir)"

definition path_exists :: "fs \<Rightarrow> path \<Rightarrow> bool" where
  "path_exists fs p = (lookup fs p \<noteq> None)"

text \<open>The error for a path whose parent directory is not there.\<close>

definition path_error :: "fs \<Rightarrow> path \<Rightarrow> 'a res" where
  "path_error fs p = (if list_ex (is_file fs) (prefixes (butlast p))
     then raise NotADirectoryError (join ''/'' p) else raise FileNotFoundError (join ''/'' p))"

definition read_bytes :: "fs \<Rightarrow> path \<Rightarrow> string res" where
  "read_bytes fs p = (case lookup fs p of
     Some (File c) \<Rightarrow> Inr c
   | Some Dir \<Rightarrow> raise IsADirectoryError (join ''/'' p)
   | None \<Rightarrow> path_error fs p)"

definition write_bytes :: "path \<Rightarrow> string \<Rightarrow> fs \<Rightarrow> fs res" where
  "write_bytes p c fs =
     (if is_dir fs p then raise IsADirectoryError (join ''/'' p)
      else if \<not> is_dir fs (butlast p) then path_error fs p
      else Inr (AList.update p (File c) fs))"

text \<open>\<open>mkdir(parents=True, exist_ok=True)\<close>\<close>

definition mkdir_p :: "path \<Rightarrow> fs \<Rightarrow> fs res" where
  "mkdir_p p fs = rfold (\<lambda>fs q. case lookup fs q of
       Some Dir \<Rightarrow> Inr fs
     | Some (File _) \<Rightarrow>
         raise (if q = p then FileExistsError else NotADirectoryError) (join ''/'' p)
     | None \<Rightarrow> Inr (AList.update q Dir fs)) fs (prefixes p)"

text \<open>\<open>unlink(missing_ok=True)\<close> and \<open>shutil.rmtree\<close>\<close>

definition unlink :: "path \<Rightarrow> fs \<Rightarrow> fs res" where
  "unlink p fs = (case lookup fs p of
     Some (File _) \<Rightarrow> Inr (filter (\<lambda>e. fst e \<noteq> p) fs)
   | Some Dir \<Rightarrow> raise IsADirectoryError (join ''/'' p)
   | None \<Rightarrow> if list_ex (is_file fs) (prefixes (butlast p))
        then raise NotADirectoryError (join ''/'' p) else Inr fs)"

definition rmtree :: "path \<Rightarrow> fs \<Rightarrow> fs res" where
  "rmtree p fs = (case lookup fs p of
     Some Dir \<Rightarrow> Inr (filter (\<lambda>e. \<not> prefix p (fst e)) fs)
   | Some (File _) \<Rightarrow> raise NotADirectoryError (join ''/'' p)
   | None \<Rightarrow> path_error fs p)"

definition has_children :: "fs \<Rightarrow> path \<Rightarrow> bool" where
  "has_children fs p = list_ex (\<lambda>e. strict_prefix p (fst e)) fs"

definition move_tree :: "path \<Rightarrow> path \<Rightarrow> fs \<Rightarrow> fs" where
  "move_tree src dst fs =
     map (\<lambda>e. (dst @ drop (length src) (fst e), snd e)) (filter (\<lambda>e. prefix src (fst e)) fs)
     @ filter (\<lambda>e. \<not> prefix src (fst e) \<and> \<not> prefix dst (fst e)) fs"

definition os_replace :: "path \<Rightarrow> path \<Rightarrow> fs \<Rightarrow> fs res" where
  "os_replace src dst fs = (case lookup fs src of
     None \<Rightarrow> path_error fs src
   | Some n \<Rightarrow>
       if dst = src then Inr fs
       else if n = Dir \<and> prefix src dst then raise OSError ''Invalid argument''
       else if dst = [] then raise OSError ''Device or resource busy''
       else if \<not> is_dir fs (butlast dst) then path_error fs dst
       else (case n of
           File c \<Rightarrow>
             if is_dir fs dst then raise IsADirectoryError (join ''/'' dst)
             else Inr (AList.update dst (File c) (filter (\<lambda>e. fst e \<noteq> src) fs))
         | Dir \<Rightarrow>
             if is_file fs dst then raise NotADirectoryError (join ''/'' dst)
             else if is_dir fs dst \<and> has_children fs dst
             then raise OSError ''Directory not empty''
             else Inr (move_tree src dst fs)))"

text \<open>The names directly under a directory.\<close>

definition child_names :: "fs \<Rightarrow> path \<Rightarrow> string list" where
  "child_names fs p = remdups
     (map (\<lambda>e. last (fst e)) (filter (\<lambda>e. fst e \<noteq> [] \<and> butlast (fst e) = p) fs))"

text \<open>\<open>directory / text\<close> and \<open>path.with_name(name)\<close>\<close>

definition path_join :: "path \<Rightarrow> string \<Rightarrow> path" where
  "path_join d s = (if is_absolute s then path_parts s else d @ path_parts s)"

definition with_name :: "path \<Rightarrow> string \<Rightarrow> path" where
  "with_name p name = butlast p @ [name]"

definition path_name :: "path \<Rightarrow> string" where
  "path_name p = (if p = [] then [] else last p)"

definition path_text :: "path \<Rightarrow> string" where
  "path_text p = ''/'' @ join ''/'' p"

text \<open>\<open>Path.resolve()\<close> of an absolute path: its upward steps are taken (there are no links).\<close>

definition step_part :: "path \<Rightarrow> string \<Rightarrow> path" where
  "step_part p c = (if c = ''..'' then butlast p else p @ [c])"

definition resolve_parts :: "path \<Rightarrow> path" where
  "resolve_parts p = foldl step_part [] p"

text \<open>UTF-8 text of code points below 256; other bytes do not decode in the model.\<close>

fun utf8_decode :: "string \<Rightarrow> string option" where
  "utf8_decode [] = Some []"
| "utf8_decode (c # cs) =
     (if code c < 128 then map_option (\<lambda>t. c # t) (utf8_decode cs)
      else case cs of
        d # ds \<Rightarrow> if (c = CHR 0xC2 \<or> c = CHR 0xC3) \<and> 128 \<le> code d \<and> code d < 192
          then map_option (\<lambda>t. char_of (code d + (if c = CHR 0xC3 then 64 else 0)) # t) (utf8_decode ds)
          else None
      | [] \<Rightarrow> None)"

definition utf8_encode :: "string \<Rightarrow> string" where
  "utf8_encode s = concat (map (\<lambda>c. if code c < 128 then [c]
     else if code c < 192 then [CHR 0xC2, c] else [CHR 0xC3, char_of (code c - 64)]) s)"

definition read_text :: "fs \<Rightarrow> path \<Rightarrow> string res" where
  "read_text fs p = rbind (read_bytes fs p) (\<lambda>b. as_some (utf8_decode b) UnicodeDecodeError [] Inr)"

section \<open>Programs\<close>

type_synonym 'a io = "fs \<Rightarrow> 'a res \<times> fs"

definition io_return :: "'a \<Rightarrow> 'a io" where
  "io_return x fs = (Inr x, fs)"

definition io_raise :: "exn \<Rightarrow> string \<Rightarrow> 'a io" where
  "io_raise e m fs = (raise e m, fs)"

definition io_bind :: "'a io \<Rightarrow> ('a \<Rightarrow> 'b io) \<Rightarrow> 'b io" where
  "io_bind m k fs = (case m fs of (Inl e, fs') \<Rightarrow> (Inl e, fs') | (Inr x, fs') \<Rightarrow> k x fs')"

definition io_lift :: "'a res \<Rightarrow> 'a io" where
  "io_lift r fs = (r, fs)"

definition io_get :: "(fs \<Rightarrow> 'a) \<Rightarrow> 'a io" where
  "io_get f fs = (Inr (f fs), fs)"

definition io_read :: "(fs \<Rightarrow> 'a res) \<Rightarrow> 'a io" where
  "io_read f fs = (f fs, fs)"

definition io_do :: "(fs \<Rightarrow> fs res) \<Rightarrow> unit io" where
  "io_do f fs = (case f fs of Inl e \<Rightarrow> (Inl e, fs) | Inr fs' \<Rightarrow> (Inr (), fs'))"

text \<open>\<open>try: m except E as exc: h\<close>, the handler deciding by the class of the exception.\<close>

definition io_except :: "'a io \<Rightarrow> (pyerr \<Rightarrow> 'a io) \<Rightarrow> 'a io" where
  "io_except m h fs = (case m fs of (Inl e, fs') \<Rightarrow> h e fs' | (Inr x, fs') \<Rightarrow> (Inr x, fs'))"

definition is_os_error :: "exn \<Rightarrow> bool" where
  "is_os_error e \<longleftrightarrow> e \<in> {OSError, FileNotFoundError, FileExistsError, NotADirectoryError,
     IsADirectoryError}"

text \<open>\<open>try: m finally: c\<close>\<close>

definition io_finally :: "'a io \<Rightarrow> unit io \<Rightarrow> 'a io" where
  "io_finally m c fs = (case m fs of (r, fs1) \<Rightarrow>
     (case c fs1 of (Inl e, fs2) \<Rightarrow> (Inl e, fs2) | (Inr _, fs2) \<Rightarrow> (r, fs2)))"

text \<open>\<open>Path.write_text\<close> with \<open>encoding="utf-8"\<close>.\<close>

definition write_text :: "path \<Rightarrow> string \<Rightarrow> unit io" where
  "write_text p s = io_do (write_bytes p (utf8_encode s))"

fun io_foreach :: "('a \<Rightarrow> unit io) \<Rightarrow> 'a list \<Rightarrow> unit io" where
  "io_foreach f [] = io_return ()"
| "io_foreach f (x # xs) = io_bind (f x) (\<lambda>_. io_foreach f xs)"

abbreviation io_then :: "unit io \<Rightarrow> 'b io \<Rightarrow> 'b io" where
  "io_then m k \<equiv> io_bind m (\<lambda>_. k)"

lemma io_Inr [simp]:
  "io_return x fs = (Inr y, fs') \<longleftrightarrow> y = x \<and> fs' = fs"
  "io_raise e m fs = (Inr z, fs') \<longleftrightarrow> False"
  "io_lift r fs = (Inr u, fs') \<longleftrightarrow> r = Inr u \<and> fs' = fs"
  "io_get f fs = (Inr v, fs') \<longleftrightarrow> v = f fs \<and> fs' = fs"
  "io_read g fs = (Inr w, fs') \<longleftrightarrow> g fs = Inr w \<and> fs' = fs"
  "io_do h fs = (Inr t, fs') \<longleftrightarrow> h fs = Inr fs'"
  "io_bind m2 k fs = (Inr s, fs') \<longleftrightarrow> (\<exists>x2 fs1. m2 fs = (Inr x2, fs1) \<and> k x2 fs1 = (Inr s, fs'))"
  by (auto simp: io_return_def io_raise_def io_lift_def io_get_def io_read_def io_do_def io_bind_def
      split: sum.splits prod.splits)

lemma io_bind_get [simp]: "io_bind (io_get f) k fs = k (f fs) fs"
  by (simp add: io_bind_def io_get_def)

lemma io_except_Inr:
  "io_except m h fs = (Inr x, fs') \<longleftrightarrow>
     m fs = (Inr x, fs') \<or> (\<exists>e fs1. m fs = (Inl e, fs1) \<and> h e fs1 = (Inr x, fs'))"
  by (auto simp: io_except_def split: sum.splits prod.splits)

lemma io_finally_Inr [simp]:
  "io_finally m c fs = (Inr x, fs') \<longleftrightarrow> (\<exists>fs1. m fs = (Inr x, fs1) \<and> c fs1 = (Inr (), fs'))"
  by (auto simp: io_finally_def split: sum.splits prod.splits)

text \<open>A state predicate kept by a program, whether it returns or raises.\<close>

definition io_keeps :: "(fs \<Rightarrow> bool) \<Rightarrow> 'a io \<Rightarrow> bool" where
  "io_keeps P m \<longleftrightarrow> (\<forall>fs. P fs \<longrightarrow> P (snd (m fs)))"

lemma io_keeps_intros:
  "io_keeps P (io_return x)" "io_keeps P (io_raise e s)" "io_keeps P (io_lift r)"
  "io_keeps P (io_get f)" "io_keeps P (io_read g)"
  by (simp_all add: io_keeps_def io_return_def io_raise_def io_lift_def io_get_def io_read_def)

lemma io_keeps_bind:
  "io_keeps P m \<Longrightarrow> (\<And>x. io_keeps P (k x)) \<Longrightarrow> io_keeps P (io_bind m k)"
  by (auto simp: io_keeps_def io_bind_def split: sum.splits prod.splits)

lemma io_keeps_finally: "io_keeps P m \<Longrightarrow> io_keeps P c \<Longrightarrow> io_keeps P (io_finally m c)"
  by (auto simp: io_keeps_def io_finally_def split: sum.splits prod.splits)

lemma io_keeps_except:
  "io_keeps P m \<Longrightarrow> (\<And>e. io_keeps P (h e)) \<Longrightarrow> io_keeps P (io_except m h)"
  by (auto simp: io_keeps_def io_except_def split: sum.splits prod.splits)

lemma io_keeps_if: "io_keeps P a \<Longrightarrow> io_keeps P b \<Longrightarrow> io_keeps P (if c then a else b)"
  by simp

lemma io_keeps_do: "(\<And>fs fs'. P fs \<Longrightarrow> f fs = Inr fs' \<Longrightarrow> P fs') \<Longrightarrow> io_keeps P (io_do f)"
  by (auto simp: io_keeps_def io_do_def split: sum.splits)

lemma io_keeps_foreach: "(\<And>x. x \<in> set xs \<Longrightarrow> io_keeps P (f x)) \<Longrightarrow> io_keeps P (io_foreach f xs)"
  by (induction xs) (auto intro: io_keeps_intros io_keeps_bind)

lemma utf8_decode_encode [simp]: "utf8_decode (utf8_encode s) = Some s"
proof (induction s)
  case (Cons c s)
  have "code c - 64 < 256" using code_lt_256 [of c] by linarith
  then have high: "code (char_of (code c - 64) :: char) = code c - 64"
    by (simp only: of_char_of mod_less)
  consider "code c < 128" | "128 \<le> code c" "code c < 192" | "192 \<le> code c" by linarith
  then show ?case
  proof cases
    case 3
    then have "128 \<le> code c - 64" "code c - 64 < 192" using code_lt_256 [of c] by linarith+
    then show ?thesis using 3 Cons high by (simp add: utf8_encode_def del: of_char_of)
  qed (use Cons in \<open>simp_all add: utf8_encode_def\<close>)
qed (simp add: utf8_encode_def)

lemma utf8_ascii: "ascii s \<Longrightarrow> utf8_encode s = s \<and> utf8_decode s = Some s"
proof -
  assume "ascii s"
  then have "utf8_encode s = s" by (induction s) (auto simp: utf8_encode_def)
  then show ?thesis using utf8_decode_encode [of s] by simp
qed

section \<open>What a path holds after an operation\<close>

lemma map_of_filter_key: "map_of (filter (\<lambda>e. P (fst e)) fs) k = (if P k then map_of fs k else None)"
  by (induction fs) auto

lemma lookup_root [simp]: "lookup fs [] = Some Dir"
  by (simp add: lookup_def)

lemma is_dir_root [simp]: "is_dir fs []"
  by (simp add: is_dir_def)

lemma is_file_iff: "is_file fs p \<longleftrightarrow> (\<exists>c. lookup fs p = Some (File c))"
  by (simp add: is_file_def split: option.splits node.splits)

lemma lookup_update [fs_simps]:
  "p \<noteq> [] \<Longrightarrow> lookup (AList.update p n fs) q = (if q = p then Some n else lookup fs q)"
  by (simp add: lookup_def update_conv')

lemma write_bytes_ok [fs_simps]:
  assumes "write_bytes p c fs = Inr fs'"
  shows "lookup fs' q = (if q = p then Some (File c) else lookup fs q)"
    and "p \<noteq> []" "\<not> is_dir fs p" "is_dir fs (butlast p)"
proof -
  show p: "p \<noteq> []" "\<not> is_dir fs p" "is_dir fs (butlast p)"
    using assms by (auto simp: write_bytes_def path_error_def split: if_splits)
  show "lookup fs' q = (if q = p then Some (File c) else lookup fs q)"
    using assms p by (auto simp: write_bytes_def lookup_update path_error_def split: if_splits)
qed

lemma unlink_ok [fs_simps]:
  assumes "unlink p fs = Inr fs'"
  shows "lookup fs' q = (if q = p then None else lookup fs q)"
    and "\<not> is_dir fs p"
proof -
  have p: "p \<noteq> []" using assms by (auto simp: unlink_def)
  show "lookup fs' q = (if q = p then None else lookup fs q)"
    using assms p map_of_filter_key [of "\<lambda>k. k \<noteq> p" fs q]
    by (auto simp: unlink_def lookup_def split: option.splits node.splits if_splits)
  show "\<not> is_dir fs p"
    using assms by (auto simp: unlink_def is_dir_def)
qed

lemma rmtree_ok [fs_simps]:
  assumes "rmtree p fs = Inr fs'" "p \<noteq> []"
  shows "lookup fs' q = (if prefix p q then None else lookup fs q)"
  using assms map_of_filter_key [of "\<lambda>k. \<not> prefix p k" fs q]
  by (auto simp: rmtree_def lookup_def path_error_def split: option.splits node.splits if_splits)

lemma map_of_renamed:
  assumes "prefix dst q"
  shows "map_of (map (\<lambda>e. (dst @ drop (length src) (fst e), snd e))
      (filter (\<lambda>e. prefix src (fst e)) fs)) q = map_of fs (src @ drop (length dst) q)"
proof -
  have key: "dst @ drop (length src) k = q \<longleftrightarrow> k = src @ drop (length dst) q" if "prefix src k" for k
    using assms that by (auto simp: prefix_def)
  show ?thesis
  proof (induction fs)
    case (Cons e fs)
    have "fst e \<noteq> src @ drop (length dst) q" if "\<not> prefix src (fst e)" using that by auto
    then show ?case using Cons key [of "fst e"] by (cases "prefix src (fst e)") auto
  qed simp
qed

lemma map_of_renamed_None:
  "\<not> prefix dst q \<Longrightarrow> map_of (map (\<lambda>e. (dst @ drop (length src) (fst e), snd e)) fs) q = None"
  by (induction fs) auto

lemma lookup_move_tree:
  assumes "dst \<noteq> []" "src \<noteq> []"
  shows "lookup (move_tree src dst fs) q =
    (if prefix dst q then lookup fs (src @ drop (length dst) q)
     else if prefix src q then None else lookup fs q)"
proof (cases "q = []")
  case True
  then show ?thesis using assms by (simp add: lookup_def)
next
  case False
  note f = map_of_filter_key [of "\<lambda>k. \<not> prefix src k \<and> \<not> prefix dst k" fs q]
  show ?thesis
  proof (cases "prefix dst q")
    case True
    then show ?thesis using False assms f map_of_renamed [OF True, of src fs]
      by (auto simp: move_tree_def lookup_def map_add_def split: option.splits)
  next
    case nd: False
    then show ?thesis
      using False assms f map_of_renamed_None [OF nd, of src "filter (\<lambda>e. prefix src (fst e)) fs"]
      by (auto simp: move_tree_def lookup_def map_add_def split: option.splits)
  qed
qed

lemma replace_file_ok [fs_simps]:
  assumes "os_replace src dst fs = Inr fs'" "lookup fs src = Some (File c)"
  shows "lookup fs' q = (if q = dst then Some (File c) else if q = src then None else lookup fs q)"
    and "\<not> is_dir fs dst" "is_dir fs (butlast dst) \<or> dst = src"
proof -
  have "src \<noteq> []" using assms(2) by auto
  then show "lookup fs' q = (if q = dst then Some (File c) else if q = src then None else lookup fs q)"
    using assms map_of_filter_key [of "\<lambda>k. k \<noteq> src" fs q]
    by (auto simp: os_replace_def path_error_def lookup_update split: if_splits)
      (auto simp: lookup_def update_conv')
  show "\<not> is_dir fs dst" "is_dir fs (butlast dst) \<or> dst = src"
    using assms by (auto simp: os_replace_def path_error_def is_dir_def split: if_splits)
qed

lemma replace_dir_ok [fs_simps]:
  assumes "os_replace src dst fs = Inr fs'" "lookup fs src = Some Dir" "dst \<noteq> src" "src \<noteq> []"
  shows "lookup fs' q = (if prefix dst q then lookup fs (src @ drop (length dst) q)
      else if prefix src q then None else lookup fs q)"
    and "is_dir fs (butlast dst)" "\<not> is_file fs dst" "\<not> prefix src dst" "dst \<noteq> []"
  using assms lookup_move_tree
  by (auto simp: os_replace_def path_error_def split: if_splits)

lemma mkdir_fold_ok:
  assumes "rfold (\<lambda>fs q. case lookup fs q of
       Some Dir \<Rightarrow> Inr fs
     | Some (File _) \<Rightarrow> raise (if q = p then FileExistsError else NotADirectoryError) m
     | None \<Rightarrow> Inr (AList.update q Dir fs)) fs qs = Inr fs'"
  shows "lookup fs' q = (if q \<in> set qs then Some Dir else lookup fs q)
    \<and> (q \<in> set qs \<longrightarrow> lookup fs q = None \<or> lookup fs q = Some Dir)"
  using assms
proof (induction qs arbitrary: fs)
  case (Cons a qs)
  show ?case
  proof (cases "lookup fs a")
    case None
    then have a: "a \<noteq> []" by auto
    have "lookup fs' q = (if q \<in> set qs then Some Dir else lookup (AList.update a Dir fs) q)
        \<and> (q \<in> set qs \<longrightarrow> lookup (AList.update a Dir fs) q = None \<or> lookup (AList.update a Dir fs) q = Some Dir)"
      using Cons.prems None by (intro Cons.IH) simp
    then show ?thesis using a None by (auto simp: lookup_update split: if_splits)
  next
    case (Some n)
    then have n: "n = Dir" using Cons.prems by (cases n) auto
    have "lookup fs' q = (if q \<in> set qs then Some Dir else lookup fs q)
        \<and> (q \<in> set qs \<longrightarrow> lookup fs q = None \<or> lookup fs q = Some Dir)"
      using Cons.prems Some n by (intro Cons.IH) simp
    then show ?thesis using Some n by auto
  qed
qed simp

lemma mkdir_p_ok [fs_simps]:
  assumes "mkdir_p p fs = Inr fs'"
  shows "lookup fs' q = (if prefix q p then Some Dir else lookup fs q)"
    and "prefix q p \<Longrightarrow> lookup fs q = None \<or> lookup fs q = Some Dir"
  using mkdir_fold_ok [OF assms [unfolded mkdir_p_def], of q] by auto

section \<open>Well-formed trees\<close>

text \<open>Every path that holds something has a directory above it; every operation keeps this.\<close>

definition wf_fs :: "fs \<Rightarrow> bool" where
  "wf_fs fs \<longleftrightarrow> (\<forall>p. p \<noteq> [] \<longrightarrow> lookup fs p \<noteq> None \<longrightarrow> is_dir fs (butlast p))"

text \<open>The operations of the store raise only exceptions of the operating system.\<close>

lemma store_errs:
  "errs (\<lambda>e. is_os_error (exn_of e)) (write_bytes p c fs)" "errs (\<lambda>e. is_os_error (exn_of e)) (mkdir_p p fs)"
  "errs (\<lambda>e. is_os_error (exn_of e)) (read_bytes fs p)"
proof -
  show "errs (\<lambda>e. is_os_error (exn_of e)) (write_bytes p c fs)" "errs (\<lambda>e. is_os_error (exn_of e)) (read_bytes fs p)"
    by (auto simp: write_bytes_def read_bytes_def path_error_def is_os_error_def split: option.splits node.splits)
  show "errs (\<lambda>e. is_os_error (exn_of e)) (mkdir_p p fs)"
    unfolding mkdir_p_def by (rule errs_rfold) (auto simp: is_os_error_def split: option.splits node.splits)
qed

lemma wf_fsD: "wf_fs fs \<Longrightarrow> p \<noteq> [] \<Longrightarrow> lookup fs p \<noteq> None \<Longrightarrow> is_dir fs (butlast p)"
  by (auto simp: wf_fs_def)

lemma wf_fs_None: "wf_fs fs \<Longrightarrow> p \<noteq> [] \<Longrightarrow> lookup fs (butlast p) \<noteq> Some Dir \<Longrightarrow> lookup fs p = None"
  by (auto simp: wf_fs_def is_dir_def)

lemma wf_prefix_dir:
  assumes "wf_fs fs" "lookup fs p \<noteq> None" "strict_prefix q p"
  shows "is_dir fs q"
  using assms(2,3)
proof (induction p rule: rev_induct)
  case (snoc x p)
  have "is_dir fs p" using wf_fsD [OF assms(1), of "p @ [x]"] snoc.prems(1) by simp
  then show ?case using snoc by (cases "q = p") (auto simp: is_dir_def strict_prefix_def)
qed simp

lemma prefix_butlastI: "prefix p (butlast q) \<Longrightarrow> prefix p q"
  by (metis append_butlast_last_id butlast.simps(1) prefix_prefix)

locale store_op =
  fixes op :: "fs \<Rightarrow> fs res"
  assumes op_wf: "wf_fs fs \<Longrightarrow> op fs = Inr fs' \<Longrightarrow> wf_fs fs'"
begin

lemma keeps_wf: "io_keeps wf_fs (io_do op)"
  using op_wf by (rule io_keeps_do)

end

interpretation write_op: store_op "write_bytes p c" for p c
proof unfold_locales
  fix fs fs' assume wf: "wf_fs fs" and w: "write_bytes p c fs = Inr fs'"
  note l = write_bytes_ok [OF w]
  show "wf_fs fs'"
    unfolding wf_fs_def is_dir_def
    using wf_fsD [OF wf] wf_fs_None [OF wf] l(2,3,4) by (auto simp: l(1) is_dir_def)
qed

interpretation unlink_op: store_op "unlink p" for p
proof unfold_locales
  fix fs fs' assume wf: "wf_fs fs" and w: "unlink p fs = Inr fs'"
  note l = unlink_ok [OF w]
  show "wf_fs fs'"
    unfolding wf_fs_def is_dir_def
    using wf_fsD [OF wf] wf_fs_None [OF wf] l(2) by (auto simp: l(1) is_dir_def)
qed

interpretation mkdir_op: store_op "mkdir_p p" for p
proof unfold_locales
  fix fs fs' assume wf: "wf_fs fs" and w: "mkdir_p p fs = Inr fs'"
  note l = mkdir_p_ok [OF w]
  have "prefix (butlast q) p" if "prefix q p" for q
    using that prefixeq_butlast prefix_order.trans by blast
  then show "wf_fs fs'"
    unfolding wf_fs_def is_dir_def
    using wf_fsD [OF wf] l(2) by (auto simp: l(1) is_dir_def)
qed

lemma rmtree_wf:
  assumes "wf_fs fs" "rmtree p fs = Inr fs'" "p \<noteq> []"
  shows "wf_fs fs'"
  unfolding wf_fs_def is_dir_def
  using wf_fsD [OF assms(1)] prefix_butlastI by (auto simp: rmtree_ok [OF assms(2,3)] is_dir_def)

lemma replace_wf:
  assumes "wf_fs fs" "os_replace src dst fs = Inr fs'" "src \<noteq> []"
  shows "wf_fs fs'"
proof (cases "dst = src")
  case True
  then have "fs' = fs" using assms(2) by (auto simp: os_replace_def path_error_def split: option.splits if_splits)
  then show ?thesis using assms(1) by simp
next
  case ne: False
  obtain n where n: "lookup fs src = Some n"
    using assms(2) by (auto simp: os_replace_def path_error_def split: option.splits if_splits)
  show ?thesis
  proof (cases n)
    case (File c)
    note l = replace_file_ok [OF assms(2), of c]
    show ?thesis
      unfolding wf_fs_def is_dir_def
      using wf_fsD [OF assms(1)] wf_fs_None [OF assms(1)] l(2,3) n File ne by (auto simp: l(1) is_dir_def)
  next
    case Dir
    note l = replace_dir_ok [OF assms(2) n [unfolded Dir] ne assms(3)]
    have "lookup fs' (butlast q) = Some Dir" if q: "q \<noteq> []" "lookup fs' q \<noteq> None" for q
    proof (cases "prefix dst q")
      case True
      then obtain r where r: "q = dst @ r" by (auto simp: prefix_def)
      show ?thesis
      proof (cases "r = []")
        case True
        have "\<not> prefix dst (butlast dst)"
          using l(5) by (metis append_butlast_last_id not_Cons_self2 prefix_order.eq_iff prefixeq_butlast
              append_self_conv)
        moreover have "\<not> prefix src (butlast dst)" using l(4) prefix_butlastI by blast
        ultimately show ?thesis using l(1) [of "butlast dst"] l(2) r True by (simp add: is_dir_def)
      next
        case False
        then have "lookup fs (src @ r) \<noteq> None" using q r l(1) [of q] by simp
        then have "lookup fs (src @ butlast r) = Some Dir"
          using wf_fsD [OF assms(1), of "src @ r"] False by (simp add: is_dir_def butlast_append)
        then show ?thesis using l(1) [of "butlast q"] r False by (simp add: butlast_append)
      qed
    next
      case False
      then have "\<not> prefix src q" "lookup fs q \<noteq> None" using q l(1) [of q] by (auto split: if_splits)
      then show ?thesis
        using False wf_fsD [OF assms(1) q(1)] l(1) [of "butlast q"] prefix_butlastI
        by (auto simp: is_dir_def)
    qed
    then show ?thesis by (simp add: wf_fs_def is_dir_def)
  qed
qed

section \<open>Frames\<close>

text \<open>
  \<open>touches R m\<close>: the program \<open>m\<close> changes nothing at the paths that are neither above nor below
  a path of \<open>R\<close>, whether it returns or raises.
\<close>

definition touches :: "path set \<Rightarrow> 'a io \<Rightarrow> bool" where
  "touches R m \<longleftrightarrow> (\<forall>fs q. (\<forall>t \<in> R. parallel t q) \<longrightarrow> lookup (snd (m fs)) q = lookup fs q)"

lemma touchesD: "touches R m \<Longrightarrow> m fs = (r, fs') \<Longrightarrow> (\<And>t. t \<in> R \<Longrightarrow> parallel t q)
    \<Longrightarrow> lookup fs' q = lookup fs q"
  unfolding touches_def by (metis snd_conv)

lemma touches_pure [intro]:
  "touches R (io_return x)" "touches R (io_raise e s)" "touches R (io_lift r)"
  "touches R (io_get f)" "touches R (io_read g)"
  by (simp_all add: touches_def io_return_def io_raise_def io_lift_def io_get_def io_read_def)

lemma touches_bind [intro]:
  "touches R m \<Longrightarrow> (\<And>x. touches R (k x)) \<Longrightarrow> touches R (io_bind m k)"
  unfolding touches_def io_bind_def by (auto split: sum.splits prod.splits) (metis snd_conv)+

lemma touches_finally [intro]: "touches R m \<Longrightarrow> touches R c \<Longrightarrow> touches R (io_finally m c)"
  unfolding touches_def io_finally_def by (auto split: sum.splits prod.splits) (metis snd_conv)+

lemma touches_except [intro]:
  "touches R m \<Longrightarrow> (\<And>e. touches R (h e)) \<Longrightarrow> touches R (io_except m h)"
  unfolding touches_def io_except_def by (auto split: sum.splits prod.splits) (metis snd_conv)+

lemma touches_if: "touches R a \<Longrightarrow> touches R b \<Longrightarrow> touches R (if c then a else b)"
  by simp

lemmas touches_intros = touches_pure touches_bind touches_finally touches_except touches_if

lemma touches_foreach: "(\<And>x. x \<in> set xs \<Longrightarrow> touches R (f x)) \<Longrightarrow> touches R (io_foreach f xs)"
  by (induction xs) auto

lemma touches_mono: "touches R m \<Longrightarrow> R \<subseteq> R' \<Longrightarrow> touches R' m"
  unfolding touches_def by blast

lemma touches_do:
  "(\<And>fs fs' q. f fs = Inr fs' \<Longrightarrow> (\<forall>t \<in> R. parallel t q) \<Longrightarrow> lookup fs' q = lookup fs q)
    \<Longrightarrow> touches R (io_do f)"
  by (auto simp: touches_def io_do_def split: sum.splits)

definition covered :: "path set \<Rightarrow> path \<Rightarrow> bool" where
  "covered R p \<longleftrightarrow> (\<exists>t \<in> R. prefix t p)"

lemma coveredI: "t \<in> R \<Longrightarrow> prefix t p \<Longrightarrow> covered R p"
  by (auto simp: covered_def)

lemma not_covered: "(\<forall>t \<in> R. parallel t q) \<Longrightarrow> covered R p \<Longrightarrow> \<not> prefix p q"
  by (auto simp: covered_def parallel_def intro: prefix_order.trans)

lemma touches_write: "covered R p \<Longrightarrow> touches R (io_do (write_bytes p c))"
  by (rule touches_do) (use not_covered in \<open>auto simp: write_bytes_ok(1)\<close>)

lemma touches_unlink: "covered R p \<Longrightarrow> touches R (io_do (unlink p))"
  by (rule touches_do) (use not_covered in \<open>auto simp: unlink_ok(1)\<close>)

lemma rmtree_lookup: "rmtree p fs = Inr fs' \<Longrightarrow> \<not> prefix p q \<Longrightarrow> lookup fs' q = lookup fs q"
  by (cases "p = []") (auto simp: rmtree_ok)

lemma touches_rmtree: "covered R p \<Longrightarrow> touches R (io_do (rmtree p))"
  by (rule touches_do) (use not_covered rmtree_lookup in blast)

lemma touches_mkdir:
  assumes "t \<in> R" "prefix p t \<or> prefix t p"
  shows "touches R (io_do (mkdir_p p))"
proof (rule touches_do)
  fix fs fs' q assume m: "mkdir_p p fs = Inr fs'" and q: "\<forall>t \<in> R. parallel t q"
  have "\<not> prefix q p"
    using assms q by (meson parallel_def prefix_order.trans prefix_same_cases)
  then show "lookup fs' q = lookup fs q" using mkdir_p_ok(1) [OF m] by simp
qed

lemma replace_lookup:
  assumes "os_replace src dst fs = Inr fs'" "\<not> prefix src q" "\<not> prefix dst q"
  shows "lookup fs' q = lookup fs q"
proof (cases "dst = src \<or> src = []")
  case True
  then show ?thesis using assms
    by (auto simp: os_replace_def path_error_def split: option.splits if_splits)
next
  case False
  obtain n where n: "lookup fs src = Some n"
    using assms(1) by (auto simp: os_replace_def path_error_def split: option.splits if_splits)
  show ?thesis
  proof (cases n)
    case (File c)
    have "q \<noteq> src" "q \<noteq> dst" using assms(2,3) by auto
    then show ?thesis using replace_file_ok(1) [OF assms(1), of c q] n File by simp
  next
    case Dir
    then show ?thesis using replace_dir_ok(1) [OF assms(1) _ _ _, of q] n False assms by auto
  qed
qed

lemma touches_replace: "covered R src \<Longrightarrow> covered R dst \<Longrightarrow> touches R (io_do (os_replace src dst))"
proof (rule touches_do)
  fix fs fs' q
  assume c: "covered R src" "covered R dst" and r: "os_replace src dst fs = Inr fs'"
    and q: "\<forall>t \<in> R. parallel t q"
  show "lookup fs' q = lookup fs q"
    using r not_covered [OF q c(1)] not_covered [OF q c(2)] by (rule replace_lookup)
qed

lemma parallel_append [simp]: "parallel (d @ p) (d @ q) \<longleftrightarrow> parallel p q"
  by (simp add: parallel_def)

lemma parallel_sym: "parallel p q \<Longrightarrow> parallel q p"
  by (auto simp: parallel_def)

lemma parallel_below:
  assumes "parallel t u"
  shows "parallel t (u @ r)"
proof (rule parallelI)
  show "\<not> prefix t (u @ r)"
  proof
    assume "prefix t (u @ r)"
    then have "prefix t u \<or> prefix u t" by (rule prefix_same_cases) simp
    then show False using assms by (simp add: parallel_def)
  qed
  show "\<not> prefix (u @ r) t"
    using assms append_prefixD [of u r t] by (auto simp: parallel_def)
qed

text \<open>What lies at or below a path incomparable with everything a program touches stays.\<close>

lemma touches_subtree:
  assumes "touches R m" "m fs = (r, fs')" "\<And>t. t \<in> R \<Longrightarrow> parallel t u"
  shows "lookup fs' (u @ q) = lookup fs (u @ q)"
  using assms parallel_below by (intro touchesD [OF assms(1,2)]) blast

lemma pairwise_parallel:
  assumes "sorted_wrt parallel (map f xs)" "x \<in> set xs" "y \<in> set xs" "x \<noteq> y"
  shows "parallel (f x) (f y)"
proof -
  obtain i j where ij: "i < length xs" "j < length xs" "x = xs ! i" "y = xs ! j"
    using assms(2,3) by (metis in_set_conv_nth)
  then have "i \<noteq> j" using assms(4) by auto
  then consider "i < j" | "j < i" by linarith
  then show ?thesis
  proof cases
    case 1
    then show ?thesis using assms(1) ij by (simp add: sorted_wrt_iff_nth_less)
  next
    case 2
    then show ?thesis using assms(1) ij by (simp add: sorted_wrt_iff_nth_less parallel_sym)
  qed
qed

text \<open>A loop establishes for every element what its body establishes, if no later turn undoes it.\<close>

lemma io_foreach_post:
  assumes "io_foreach f xs fs = (Inr (), fs')"
    and "\<And>x s s'. x \<in> set xs \<Longrightarrow> I s \<Longrightarrow> f x s = (Inr (), s') \<Longrightarrow> Q x s' \<and> I s'"
    and "\<And>x y s s'. x \<in> set xs \<Longrightarrow> y \<in> set xs \<Longrightarrow> x \<noteq> y \<Longrightarrow> I s \<Longrightarrow> Q x s
      \<Longrightarrow> f y s = (Inr (), s') \<Longrightarrow> Q x s'"
    and "I fs"
  shows "I fs' \<and> (\<forall>x \<in> set xs. Q x fs')"
proof -
  have "io_foreach f ys s = (Inr (), fs') \<Longrightarrow> I s \<Longrightarrow> set ys \<subseteq> set xs \<Longrightarrow> (\<forall>x \<in> D. Q x s)
      \<Longrightarrow> D \<subseteq> set xs \<Longrightarrow> I fs' \<and> (\<forall>x \<in> D \<union> set ys. Q x fs')" for ys s D
  proof (induction ys arbitrary: s D)
    case (Cons y ys)
    then obtain s1 where s1: "f y s = (Inr (), s1)" "io_foreach f ys s1 = (Inr (), fs')" by auto
    have "Q y s1 \<and> I s1" using assms(2) Cons.prems s1 by auto
    moreover have "\<forall>x \<in> insert y D. Q x s1"
      using assms(3) [OF _ _ _ Cons.prems(2) _ s1(1)] Cons.prems \<open>Q y s1 \<and> I s1\<close> by auto
    ultimately have "I fs' \<and> (\<forall>x \<in> insert y D \<union> set ys. Q x fs')"
      using Cons.IH [OF s1(2), of "insert y D"] Cons.prems by auto
    then show ?case by auto
  qed auto
  from this [OF assms(1) assms(4), of "{}"] show ?thesis by simp
qed

text \<open>A document that is written below a created directory can be read back.\<close>

lemma write_document_cases:
  "case io_then (io_do (mkdir_p (butlast p))) (write_text p t) fs of
     (Inr _, fs') \<Rightarrow> read_text fs' p = Inr t
   | (Inl e, _) \<Rightarrow> is_os_error (exn_of e)"
proof (cases "mkdir_p (butlast p) fs")
  case (Inl e)
  then show ?thesis using errsD [OF store_errs(2) Inl] by (simp add: io_bind_def io_do_def)
next
  case (Inr fs1)
  show ?thesis
  proof (cases "write_bytes p (utf8_encode t) fs1")
    case (Inl e)
    then show ?thesis using Inr errsD [OF store_errs(1) Inl] by (simp add: write_text_def io_bind_def io_do_def)
  next
    case w: (Inr fs2)
    then show ?thesis using Inr write_bytes_ok(1) [OF w]
      by (simp add: write_text_def io_bind_def io_do_def read_text_def read_bytes_def)
  qed
qed

end
