(* ===== verification/Campaign.thy ===== *)
theory Campaign
  imports Py_Random Py_Files
begin

text \<open>
  The factorial campaign design with its budget guard (\<open>phase8/campaign/campaign.py\<close>): the checks
  on factors and configuration, the full and the fractional design, and the command that writes
  the plan. Levels are values of a JSON document; the random generator is a parameter.
\<close>

section \<open>Factors and configuration\<close>

record factor =
  factor_name :: string
  levels :: "pyval list"

record campaign_config =
  repetitions :: int
  campaign_seed :: int
  budget_cap :: int
  confirmed :: bool
  allow_fractional :: bool
  seconds_per_trial :: int
  cpu_millicores_per_trial :: int

definition default_config :: campaign_config where
  "default_config = \<lparr> repetitions = 1, campaign_seed = 1, budget_cap = 64, confirmed = False,
     allow_fractional = False, seconds_per_trial = 600, cpu_millicores_per_trial = 500 \<rparr>"

record campaign_plan =
  plan_design :: string
  full_cells :: int
  plan_cells :: "pydict list"
  total_trials :: int
  preview :: "(string \<times> int) list"
  plan_seed :: int
  plan_repetitions :: int

text \<open>\<open>set(levels)\<close>: lists and objects cannot be members.\<close>

definition set_add :: "pyval list \<Rightarrow> pyval \<Rightarrow> pyval list res" where
  "set_add s v = (case v of
     VList _ \<Rightarrow> raise TypeError (''unhashable type: '' @ repr_str ''list'')
   | VDict _ \<Rightarrow> raise TypeError (''unhashable type: '' @ repr_str ''dict'')
   | _ \<Rightarrow> Inr (if list_ex (\<lambda>w. py_eq w v) s then s else s @ [v]))"

definition level_set :: "pyval list \<Rightarrow> pyval list res" where
  "level_set vs = rfold set_add [] vs"

text \<open>The generator inside \<open>any\<close>, which stops at the first factor that is not admissible.\<close>

fun any_bad_levels :: "factor list \<Rightarrow> bool res" where
  "any_bad_levels [] = Inr False"
| "any_bad_levels (f # fs) =
     (if length (levels f) < 2 then Inr True
      else rbind (level_set (levels f)) (\<lambda>s.
        if length s \<noteq> length (levels f) then Inr True else any_bad_levels fs))"

section \<open>The plan\<close>

definition all_cells :: "factor list \<Rightarrow> pydict list" where
  "all_cells factors = map (zip (map factor_name factors)) (product_lists (map levels factors))"

definition check_campaign :: "factor list \<Rightarrow> campaign_config \<Rightarrow> unit res" where
  "check_campaign factors config =
     require (1 \<le> repetitions config) ValueError ''repetitions must be at least 1'' (
     require (1 \<le> budget_cap config) ValueError ''budget_cap must be at least 1'' (
     require (1 \<le> seconds_per_trial config \<and> 1 \<le> cpu_millicores_per_trial config) ValueError
       ''trial resource estimates must be positive'' (
     require (factors \<noteq> [] \<and> distinct (map factor_name factors)) ValueError
       ''factors must have unique names and cannot be empty'' (
     rbind (any_bad_levels factors) (\<lambda>bad.
     require (\<not> bad) ValueError ''each factor must have at least two unique levels'' (Inr ()))))))"

definition choose_cells ::
  "(int \<Rightarrow> 'g) \<Rightarrow> ('g \<Rightarrow> nat \<Rightarrow> nat \<times> 'g) \<Rightarrow> pydict list \<Rightarrow> campaign_config \<Rightarrow> bool \<Rightarrow> pydict list res" where
  "choose_cells random randbelow cells config use_fractional =
     (if use_fractional then
        let rest = shuffle randbelow (tl cells) (random (campaign_seed config));
            max_cells = budget_cap config div repetitions config in
        require (2 \<le> max_cells) BudgetExceeded ''budget cannot fit baseline and one fractional cell'' (
        Inr (hd cells # take (nat (max_cells - 1)) rest))
      else Inr cells)"

definition plan_campaign ::
  "(int \<Rightarrow> 'g) \<Rightarrow> ('g \<Rightarrow> nat \<Rightarrow> nat \<times> 'g) \<Rightarrow> factor list \<Rightarrow> campaign_config \<Rightarrow> campaign_plan res" where
  "plan_campaign random randbelow factors config =
     rbind (check_campaign factors config) (\<lambda>_.
     let full = foldl (\<lambda>n f. n * int (length (levels f))) 1 factors;
         full_trials = full * repetitions config;
         use_fractional = (full_trials > budget_cap config \<and> allow_fractional config);
         design = (if use_fractional then ''fractional'' else ''full'') in
     rbind (choose_cells random randbelow (all_cells factors) config use_fractional) (\<lambda>cells.
     let total = int (length cells) * repetitions config in
     require (total \<le> budget_cap config \<or> confirmed config) BudgetExceeded
       (design @ '' design requires '' @ show_int total @ '' trials, above budget cap '' @
        show_int (budget_cap config) @ ''; explicit confirmation is required'') (
     let final = (if use_fractional
           then hd cells # shuffle randbelow (tl cells) (random (campaign_seed config))
           else shuffle randbelow cells (random (campaign_seed config))) in
     Inr \<lparr> plan_design = design, full_cells = full, plan_cells = final, total_trials = total,
       preview = [(''full_trials'', full_trials), (''planned_trials'', total),
         (''estimated_seconds'', total * seconds_per_trial config),
         (''estimated_cpu_millicore_seconds'',
          total * seconds_per_trial config * cpu_millicores_per_trial config)],
       plan_seed = campaign_seed config, plan_repetitions = repetitions config \<rparr>)))"

section \<open>The command\<close>

definition plan_document :: "campaign_plan \<Rightarrow> pyval" where
  "plan_document p = VDict [(''design'', VStr (plan_design p)), (''seed'', VInt (plan_seed p)),
     (''repetitions'', VInt (plan_repetitions p)), (''full_cells'', VInt (full_cells p)),
     (''planned_cells'', VInt (int (length (plan_cells p)))), (''total_trials'', VInt (total_trials p)),
     (''preview'', VDict (map (\<lambda>(k, v). (k, VInt v)) (preview p))),
     (''cells'', VList (map VDict (plan_cells p)))]"

definition factors_of :: "pyval \<Rightarrow> factor list res" where
  "factors_of raw = (case raw of
     VDict d \<Rightarrow> require (list_all (\<lambda>kv. is_list (snd kv)) d) SystemExit
       ''--factors must contain a JSON object of arrays''
       (Inr (map (\<lambda>(k, v). \<lparr> factor_name = k, levels = (case v of VList xs \<Rightarrow> xs | _ \<Rightarrow> []) \<rparr>) d))
   | _ \<Rightarrow> raise SystemExit ''--factors must contain a JSON object of arrays'')"

text \<open>The classes below \<open>ValueError\<close>.\<close>

definition is_value_error :: "exn \<Rightarrow> bool" where
  "is_value_error e \<longleftrightarrow> e \<in> {ValueError, BudgetExceeded, JSONDecodeError, UnicodeDecodeError}"

definition campaign_main ::
  "(int \<Rightarrow> 'g) \<Rightarrow> ('g \<Rightarrow> nat \<Rightarrow> nat \<times> 'g) \<Rightarrow> path \<Rightarrow> path \<Rightarrow> campaign_config \<Rightarrow> nat io" where
  "campaign_main random randbelow factors_file output config =
     io_bind (io_read (\<lambda>fs. rbind (read_text fs factors_file) (\<lambda>t. rbind (loads t) factors_of))) (\<lambda>design.
     io_bind (io_lift (case plan_campaign random randbelow design config of
         Inl e \<Rightarrow> if is_value_error (exn_of e) then raise SystemExit (msg_of e) else Inl e
       | Inr plan \<Rightarrow> Inr plan)) (\<lambda>plan.
     io_then (io_do (mkdir_p (butlast output))) (
     io_then (io_do (write_bytes output
       (utf8_encode (dumps indent2_style (sort_keys (plan_document plan)) @ nl)))) (
     io_return 0))))"

section \<open>Laws\<close>

lemma length_product_lists: "length (product_lists xss) = prod_list (map length xss)"
  by (induction xss) (simp_all add: length_concat o_def sum_list_triv)

lemma foldl_times: "foldl (\<lambda>n f. n * int (length (levels f))) k fs = k * int (prod_list (map (length \<circ> levels) fs))"
  by (induction fs arbitrary: k) simp_all

lemma full_count: "foldl (\<lambda>n f. n * int (length (levels f))) 1 fs = int (length (all_cells fs))"
  by (simp add: foldl_times all_cells_def length_product_lists)

lemma any_bad_levels_False:
  "any_bad_levels fs = Inr False \<Longrightarrow> f \<in> set fs \<Longrightarrow> 2 \<le> length (levels f)"
  by (induction fs) (auto split: if_splits)

lemma all_cells_nonempty: "any_bad_levels fs = Inr False \<Longrightarrow> all_cells fs \<noteq> []"
proof -
  assume "any_bad_levels fs = Inr False"
  then have "0 \<notin> set (map (length \<circ> levels) fs)" using any_bad_levels_False by fastforce
  then have "length (all_cells fs) \<noteq> 0" by (simp add: all_cells_def length_product_lists prod_list_zero_iff)
  then show ?thesis by auto
qed

lemma check_campaign_ok:
  "check_campaign fs c = Inr () \<longleftrightarrow> 1 \<le> repetitions c \<and> 1 \<le> budget_cap c \<and> 1 \<le> seconds_per_trial c
     \<and> 1 \<le> cpu_millicores_per_trial c \<and> fs \<noteq> [] \<and> distinct (map factor_name fs)
     \<and> any_bad_levels fs = Inr False"
  by (auto simp: check_campaign_def)

text \<open>The fractional design takes as many cells as the budget allows.\<close>

lemma fraction_fits:
  fixes n r b :: int
  assumes "1 \<le> r" "b < n * r"
  shows "b div r < n" "b div r * r \<le> b"
proof -
  have "0 \<le> b mod r" using assms(1) by simp
  then show "b div r * r \<le> b" using div_mult_mod_eq [of b r] by linarith
  then have "b div r * r < n * r" using assms(2) by linarith
  then show "b div r < n" using assms(1) by simp
qed

definition fractional :: "factor list \<Rightarrow> campaign_config \<Rightarrow> bool" where
  "fractional fs c \<longleftrightarrow> int (length (all_cells fs)) * repetitions c > budget_cap c \<and> allow_fractional c"

lemma choose_cells_fraction:
  assumes "draws_below randbelow" "check_campaign fs c = Inr ()" "fractional fs c"
    and "choose_cells random randbelow (all_cells fs) c True = Inr cells"
  shows "hd cells = hd (all_cells fs)" "mset cells \<subseteq># mset (all_cells fs)" "cells \<noteq> []"
    "int (length cells) = budget_cap c div repetitions c"
proof -
  let ?rest = "shuffle randbelow (tl (all_cells fs)) (random (campaign_seed c))"
  let ?m = "budget_cap c div repetitions c"
  have m: "2 \<le> ?m" and cells: "cells = hd (all_cells fs) # take (nat (?m - 1)) ?rest"
    using assms(4) by (auto simp: choose_cells_def Let_def)
  have ne: "all_cells fs \<noteq> []" and r: "1 \<le> repetitions c"
    using assms(2) all_cells_nonempty by (auto simp: check_campaign_ok)
  show "hd cells = hd (all_cells fs)" "cells \<noteq> []" using cells by simp_all
  have "mset (take (nat (?m - 1)) ?rest) \<subseteq># mset ?rest"
    using mset_subset_eq_add_left append_take_drop_id mset_append by metis
  also have "mset ?rest = mset (tl (all_cells fs))" using assms(1) by simp
  finally show "mset cells \<subseteq># mset (all_cells fs)" using ne cells by (cases "all_cells fs") simp_all
  have "?m < int (length (all_cells fs))"
    using fraction_fits(1) [OF r] assms(3) by (simp add: fractional_def)
  then show "int (length cells) = ?m"
    using m cells shuffle_same(1) [OF assms(1), of "tl (all_cells fs)"] by simp
qed

lemma plan_campaign_cases:
  "plan_campaign random randbelow fs c = Inr p \<longleftrightarrow>
     check_campaign fs c = Inr () \<and> (\<exists>cells.
       choose_cells random randbelow (all_cells fs) c (fractional fs c) = Inr cells
       \<and> (int (length cells) * repetitions c \<le> budget_cap c \<or> confirmed c)
       \<and> (let full = int (length (all_cells fs)); total = int (length cells) * repetitions c in
          p = \<lparr> plan_design = (if fractional fs c then ''fractional'' else ''full''), full_cells = full,
            plan_cells = (if fractional fs c
              then hd cells # shuffle randbelow (tl cells) (random (campaign_seed c))
              else shuffle randbelow cells (random (campaign_seed c))), total_trials = total,
            preview = [(''full_trials'', full * repetitions c), (''planned_trials'', total),
              (''estimated_seconds'', total * seconds_per_trial c),
              (''estimated_cpu_millicore_seconds'', total * seconds_per_trial c * cpu_millicores_per_trial c)],
            plan_seed = campaign_seed c, plan_repetitions = repetitions c \<rparr>))"
  unfolding plan_campaign_def full_count fractional_def [symmetric] Let_def rbind_Inr require_Inr
  by (simp add: eq_commute [of p])

text \<open>A campaign of two factors whose full design does not fit the budget.\<close>

definition sample_factors :: "factor list" where
  "sample_factors = [\<lparr> factor_name = ''cpu'', levels = [VInt 250, VInt 500, VInt 1000] \<rparr>,
     \<lparr> factor_name = ''policy'', levels = [VStr ''static'', VStr ''none''] \<rparr>]"

definition sample_config :: campaign_config where
  "sample_config = default_config \<lparr> repetitions := 2, budget_cap := 9, allow_fractional := True \<rparr>"

lemma sample_check: "check_campaign sample_factors sample_config = Inr ()"
  by code_simp

lemma sample_draws: "draws_below (\<lambda>g n. (0, g))"
  by (simp add: draws_below_def)

section \<open>Properties\<close>

text \<open>
  C5: a campaign plan stays within its budget and within the factorial design. Whatever the
  draws, an accepted plan counts its own trials, exceeds the budget only with explicit
  confirmation, and its cells are taken from the full product of the levels: the full design is a
  permutation of it, a fractional design starts with the baseline, fills the budget and never
  exceeds it, confirmed or not.
\<close>

theorem plan_campaign_sound:
  assumes "draws_below randbelow" "plan_campaign random randbelow fs c = Inr p"
  shows "full_cells p = int (length (all_cells fs))
    \<and> total_trials p = int (length (plan_cells p)) * repetitions c
    \<and> (total_trials p \<le> budget_cap c \<or> confirmed c)
    \<and> mset (plan_cells p) \<subseteq># mset (all_cells fs)
    \<and> (if plan_design p = ''full'' then mset (plan_cells p) = mset (all_cells fs)
       else plan_design p = ''fractional'' \<and> hd (plan_cells p) = hd (all_cells fs)
         \<and> int (length (plan_cells p)) = budget_cap c div repetitions c \<and> total_trials p \<le> budget_cap c)"
proof -
  obtain cells where ok: "check_campaign fs c = Inr ()"
    and ch: "choose_cells random randbelow (all_cells fs) c (fractional fs c) = Inr cells"
    and b: "int (length cells) * repetitions c \<le> budget_cap c \<or> confirmed c"
    and p: "plan_design p = (if fractional fs c then ''fractional'' else ''full'')"
      "full_cells p = int (length (all_cells fs))"
      "plan_cells p = (if fractional fs c then hd cells # shuffle randbelow (tl cells) (random (campaign_seed c))
         else shuffle randbelow cells (random (campaign_seed c)))"
      "total_trials p = int (length cells) * repetitions c"
    using assms(2) unfolding plan_campaign_cases Let_def by auto
  show ?thesis
  proof (cases "fractional fs c")
    case True
    then have "choose_cells random randbelow (all_cells fs) c True = Inr cells" using ch by simp
    note f = choose_cells_fraction [OF assms(1) ok True this]
    have pc: "plan_cells p = hd cells # shuffle randbelow (tl cells) (random (campaign_seed c))"
      using p(3) True by simp
    have m: "mset (plan_cells p) = mset cells" using f(3) assms(1) pc by (cases cells) simp_all
    then have l: "length (plan_cells p) = length cells" by (metis size_mset)
    have "1 \<le> repetitions c" using ok by (simp add: check_campaign_ok)
    then have "total_trials p \<le> budget_cap c"
      using fraction_fits(2) [of "repetitions c" "budget_cap c"] True p(4) f(4) by (auto simp: fractional_def)
    then show ?thesis using f p(1,2,4) pc m l b True by simp
  next
    case False
    then have "cells = all_cells fs" using ch by (simp add: choose_cells_def)
    then show ?thesis using False p b assms(1) by (simp add: shuffle_same(1) [OF assms(1)])
  qed
qed

theorem plan_campaign_sound_witness:
  "\<exists>p. plan_campaign id (\<lambda>g n. (0, g)) sample_factors sample_config = Inr p
    \<and> plan_design p = ''fractional'' \<and> int (length (plan_cells p)) = 4 \<and> total_trials p \<le> 9"
proof -
  have "is_ok (plan_campaign id (\<lambda>g n. (0, g)) sample_factors sample_config)" by code_simp
  then obtain p where p: "plan_campaign id (\<lambda>g n. (0, g)) sample_factors sample_config = Inr p"
    by (auto simp: is_ok_conv)
  have "plan_design p = ''fractional''"
  proof -
    have "map_sum id plan_design (plan_campaign id (\<lambda>g n. (0, g)) sample_factors sample_config)
        = Inr ''fractional''" by code_simp
    then show ?thesis using p by simp
  qed
  then show ?thesis
    using p plan_campaign_sound [OF sample_draws p]
    by (simp add: sample_config_def default_config_def)
qed

text \<open>
  The budget guard refuses exactly the plans that need confirmation. For admissible factors and
  estimates a plan exists if and only if the full design fits the budget, or the operator confirmed
  and no fraction is asked for, or a fraction with the baseline and at least one more cell fits.
\<close>

theorem plan_campaign_exists_iff:
  assumes "draws_below randbelow" "check_campaign fs c = Inr ()"
  shows "(\<exists>p. plan_campaign random randbelow fs c = Inr p) \<longleftrightarrow>
    int (length (all_cells fs)) * repetitions c \<le> budget_cap c
    \<or> (if allow_fractional c then 2 \<le> budget_cap c div repetitions c else confirmed c)"
proof (cases "fractional fs c")
  case True
  have r: "1 \<le> repetitions c" using assms(2) by (simp add: check_campaign_ok)
  show ?thesis
  proof (cases "2 \<le> budget_cap c div repetitions c")
    case fits: True
    then obtain cells where ch: "choose_cells random randbelow (all_cells fs) c True = Inr cells"
      by (auto simp: choose_cells_def Let_def)
    have "int (length cells) * repetitions c \<le> budget_cap c"
      using choose_cells_fraction(4) [OF assms True ch] fraction_fits(2) [OF r] True
      by (auto simp: fractional_def)
    then show ?thesis using ch fits True assms(2) unfolding plan_campaign_cases Let_def
      by (auto simp: fractional_def)
  next
    case False
    then have "choose_cells random randbelow (all_cells fs) c True \<noteq> Inr cells" for cells
      by (auto simp: choose_cells_def Let_def)
    then show ?thesis using False True unfolding plan_campaign_cases by (auto simp: fractional_def)
  qed
next
  case False
  then show ?thesis using assms(2) unfolding plan_campaign_cases
    by (auto simp: choose_cells_def fractional_def Let_def)
qed

theorem plan_campaign_exists_iff_witness:
  "\<exists>p. plan_campaign id (\<lambda>g n. (0, g)) sample_factors sample_config = Inr p"
  using plan_campaign_exists_iff [OF sample_draws sample_check]
  by (simp add: sample_config_def default_config_def)

end
