(* ===== verification/Py_Statistics.thy ===== *)
theory Py_Statistics
  imports Py_Value
begin

text \<open>
  \<open>math.fsum\<close>, \<open>math.sqrt\<close> and the part of \<open>statistics\<close> the model fitter uses. Sums of finite
  values are exact before their one rounding; square roots are computed from an integer square
  root that is rounded to odd, as the standard library does, so that they are correctly rounded.
\<close>

section \<open>Square roots\<close>

function isqrt :: "int \<Rightarrow> int" where
  "isqrt n = (if n \<le> 0 then 0
     else let r = 2 * isqrt (n div 4) in if (r + 1) * (r + 1) \<le> n then r + 1 else r)"
  by pat_completeness auto
termination by (relation "measure nat") auto

declare isqrt.simps [simp del]

definition sqrt_rto :: "int \<Rightarrow> int \<Rightarrow> int" where
  "sqrt_rto n m = (let a = isqrt (n div m) in if a * a * m \<noteq> n \<and> even a then a + 1 else a)"

definition float_sqrt_of_frac :: "int \<Rightarrow> int \<Rightarrow> pyfloat res" where
  "float_sqrt_of_frac n m =
     (let q = (bitlen n - bitlen m - 109) div 2 in
      if 0 \<le> q then int_truediv (sqrt_rto n (m * 4 ^ nat q) * 2 ^ nat q) 1
      else int_truediv (sqrt_rto (n * 4 ^ nat (- q)) m) (2 ^ nat (- q)))"

section \<open>Sums and deviations\<close>

fun finite_vals :: "pyfloat list \<Rightarrow> rat list option" where
  "finite_vals [] = Some []"
| "finite_vals (Fin a # xs) = map_option (Cons a) (finite_vals xs)"
| "finite_vals (_ # xs) = None"

definition fsum :: "pyfloat list \<Rightarrow> pyfloat res" where
  "fsum xs = (case finite_vals xs of
     Some qs \<Rightarrow> (case to_float (sum_list qs) of Fin a \<Rightarrow> Inr (Fin a)
       | _ \<Rightarrow> raise OverflowError ''intermediate overflow in fsum'')
   | None \<Rightarrow>
       if PInf \<in> set xs \<and> NInf \<in> set xs then raise ValueError ''-inf + inf in fsum''
       else Inr (if NaN \<in> set xs then NaN else if PInf \<in> set xs then PInf else NInf))"

definition fmean :: "pyfloat list \<Rightarrow> pyfloat res" where
  "fmean xs = require (xs \<noteq> []) StatisticsError ''fmean requires at least one data point'' (
     rbind (fsum xs) (\<lambda>total. rbind (float_of_int (int (length xs))) (\<lambda>n. f_div total n)))"

text \<open>The exact sum of the squared deviations from the mean.\<close>

definition sum_of_squares :: "rat list \<Rightarrow> rat" where
  "sum_of_squares qs =
     (of_nat (length qs) * sum_list (map (\<lambda>q. q * q) qs) - sum_list qs * sum_list qs) / of_nat (length qs)"

definition root_of_squares :: "pyfloat list \<Rightarrow> nat \<Rightarrow> pyfloat res" where
  "root_of_squares xs d = as_some (finite_vals xs) AttributeError
     (''float object has no attribute numerator'') (\<lambda>qs.
     case quotient_of (sum_of_squares qs / of_nat d) of (n, m) \<Rightarrow> float_sqrt_of_frac n m)"

definition pstdev :: "pyfloat list \<Rightarrow> pyfloat res" where
  "pstdev xs = require (xs \<noteq> []) StatisticsError ''pstdev requires at least one data point''
     (root_of_squares xs (length xs))"

definition stdev :: "pyfloat list \<Rightarrow> pyfloat res" where
  "stdev xs = require (2 \<le> length xs) StatisticsError ''stdev requires at least two data points''
     (root_of_squares xs (length xs - 1))"

text \<open>
  \<open>statistics.variance\<close>: the exact variance, rounded once; a value that is not finite leaves the sum of
  those.
\<close>

definition variance :: "pyfloat list \<Rightarrow> pyfloat res" where
  "variance xs = require (2 \<le> length xs) StatisticsError ''variance requires at least two data points''
     (case finite_vals xs of
        Some qs \<Rightarrow> (case to_float (sum_of_squares qs / of_nat (length xs - 1)) of Fin a \<Rightarrow> Inr (Fin a)
          | _ \<Rightarrow> raise OverflowError ''integer division result too large for a float'')
      | None \<Rightarrow> Inr (foldl f_add (Fin 0) (filter (\<lambda>x. \<not> isfinite x) xs)))"

section \<open>Sorting\<close>

text \<open>\<open>sorted(xs, key=key)\<close> for a key that is a float and never NaN; equal keys keep their order.\<close>

fun insert_by :: "('a \<Rightarrow> pyfloat) \<Rightarrow> 'a \<Rightarrow> 'a list \<Rightarrow> 'a list" where
  "insert_by key x [] = [x]"
| "insert_by key x (y # ys) = (if f_lt (key y) (key x) then y # insert_by key x ys else x # y # ys)"

definition sort_by :: "('a \<Rightarrow> pyfloat) \<Rightarrow> 'a list \<Rightarrow> 'a list" where
  "sort_by key xs = foldr (insert_by key) xs []"

text \<open>\<open>statistics.median(xs)\<close>.\<close>

definition median :: "pyfloat list \<Rightarrow> pyfloat res" where
  "median xs = (let d = sort_by id xs; n = length d in
     if n = 0 then raise StatisticsError ''no median for empty data''
     else if odd n then Inr (d ! (n div 2))
     else f_div (f_add (d ! (n div 2 - 1)) (d ! (n div 2))) (Fin 2))"

lemma insert_by_mset: "mset (insert_by key x xs) = add_mset x (mset xs)"
  by (induction xs) simp_all

lemma sort_by_mset [simp]: "mset (sort_by key xs) = mset xs"
  by (induction xs) (simp_all add: sort_by_def insert_by_mset)

lemma sort_by_set [simp]: "set (sort_by key xs) = set xs"
  by (rule mset_eq_setD) simp

lemma sort_by_length [simp]: "length (sort_by key xs) = length xs"
  by (rule mset_eq_length) simp

lemma not_lt_trans: "b \<noteq> NaN \<Longrightarrow> \<not> f_lt b a \<Longrightarrow> \<not> f_lt c b \<Longrightarrow> \<not> f_lt c a"
  by (cases a; cases b; cases c) auto

lemma lt_not_lt: "f_lt a b \<Longrightarrow> \<not> f_lt b a"
  by (cases a; cases b) auto

lemma insert_by_sorted:
  assumes "sorted_wrt (\<lambda>a b. \<not> f_lt (key b) (key a)) xs" "key x \<noteq> NaN" "list_all (\<lambda>y. key y \<noteq> NaN) xs"
  shows "sorted_wrt (\<lambda>a b. \<not> f_lt (key b) (key a)) (insert_by key x xs)"
  using assms
proof (induction xs)
  case (Cons y ys)
  have s: "set (insert_by key x ys) = insert x (set ys)"
    using insert_by_mset [of key x ys] by (metis set_mset_mset set_mset_add_mset_insert)
  show ?case
  proof (cases "f_lt (key y) (key x)")
    case True
    then show ?thesis using Cons s lt_not_lt by auto
  next
    case False
    then have "\<not> f_lt (key z) (key x)" if "z \<in> set (y # ys)" for z
      using that Cons.prems not_lt_trans [of "key y" "key x" "key z"] by auto
    then show ?thesis using False Cons.prems by auto
  qed
qed simp

lemma sort_by_sorted:
  "list_all (\<lambda>y. key y \<noteq> NaN) xs \<Longrightarrow> sorted_wrt (\<lambda>a b. \<not> f_lt (key b) (key a)) (sort_by key xs)"
proof (induction xs)
  case (Cons x xs)
  have "list_all (\<lambda>y. key y \<noteq> NaN) (sort_by key xs)" using Cons.prems by (simp add: list_all_iff)
  then show ?case using Cons insert_by_sorted [of key "sort_by key xs" x] by (simp add: sort_by_def)
qed (simp add: sort_by_def)

section \<open>Laws\<close>

lemma float_sqrt_of_0: "float_sqrt_of_frac 0 m = Inr (Fin 0)"
proof -
  have "sqrt_rto 0 k = 0" for k by (simp add: sqrt_rto_def isqrt.simps)
  moreover have "int_truediv 0 (2 ^ k) = Inr (Fin 0)" "int_truediv 0 1 = Inr (Fin 0)" for k
    using to_float_small [of 0] by (simp_all add: int_truediv_def)
  ultimately show ?thesis by (simp add: float_sqrt_of_frac_def Let_def)
qed

lemma isqrt_bounds: "0 \<le> n \<Longrightarrow> 0 \<le> isqrt n \<and> isqrt n * isqrt n \<le> n \<and> n < (isqrt n + 1) * (isqrt n + 1)"
proof (induction n rule: isqrt.induct)
  case (1 n)
  show ?case
  proof (cases "n = 0")
    case False
    define r where "r = isqrt (n div 4)"
    have r: "0 \<le> r" "r * r \<le> n div 4" "n div 4 < (r + 1) * (r + 1)"
      using 1 False by (auto simp: r_def)
    have "n div 4 + 1 \<le> (r + 1) * (r + 1)" using r(3) by simp
    then have u: "n < 4 * ((r + 1) * (r + 1))" using mod_less_divisor by linarith
    have l: "4 * (r * r) \<le> n" using r(2) by linarith
    have "isqrt n = (if (2 * r + 1) * (2 * r + 1) \<le> n then 2 * r + 1 else 2 * r)"
      using False 1(2) by (subst isqrt.simps) (simp add: r_def Let_def)
    then show ?thesis using u l r(1) by (auto simp: algebra_simps)
  qed (simp add: isqrt.simps)
qed

lemma finite_vals_iff: "finite_vals xs = Some qs \<longleftrightarrow> xs = map Fin qs"
  by (induction xs arbitrary: qs rule: finite_vals.induct) (auto simp: Cons_eq_map_conv)

lemma finite_vals_Fin [simp]: "finite_vals (map Fin qs) = Some qs"
  by (simp add: finite_vals_iff)

section \<open>Representable values\<close>

text \<open>
  A representable value is a multiple of the smallest positive float, so the difference of two
  different ones never rounds to zero.
\<close>

definition is_float :: "pyfloat \<Rightarrow> bool" where
  "is_float x = (case x of Fin a \<Rightarrow> fl a = a | _ \<Rightarrow> True)"

definition tiny :: rat where
  "tiny = 2 powi (- 1074)"

lemma tiny_pos: "0 < tiny"
  by (simp add: tiny_def)

lemma fl_tiny: "fl tiny = tiny"
  using fl_powi [of "- 1074"] by (simp only: tiny_def)

lemma fl_fixed_grid:
  assumes "fl a = a"
  shows "\<exists>k. a = of_int k * tiny"
proof (cases "a = 0")
  case False
  define e where "e = ulp_exp a"
  have e: "- 1074 \<le> e" by (simp add: e_def ulp_exp_def)
  have "a = of_int (round_even (a / 2 powi e)) * 2 powi e"
    using assms False by (simp add: fl_def e_def)
  also have "(2 :: rat) powi e = of_int (2 ^ nat (e + 1074)) * tiny"
    using powi_quotient_int [OF e, folded tiny_def] tiny_pos by (simp add: field_simps)
  finally show ?thesis by (metis mult.assoc of_int_mult)
qed (intro exI [of _ 0], simp)

lemma fl_grid_nonzero:
  assumes "k \<noteq> 0"
  shows "fl (of_int k * tiny) \<noteq> 0"
proof -
  have pos: "0 < fl (of_int j * tiny)" if "0 < j" for j
  proof -
    have "1 * tiny \<le> of_int j * tiny" using that tiny_pos by (intro mult_right_mono) simp_all
    then have "tiny \<le> fl (of_int j * tiny)" using fl_mono [of tiny "of_int j * tiny"] fl_tiny by simp
    then show ?thesis using tiny_pos by linarith
  qed
  show ?thesis
  proof (cases "0 < k")
    case False
    then have "0 < fl (of_int (- k) * tiny)" using assms by (intro pos) simp
    then show ?thesis using fl_minus [of "of_int k * tiny"] by simp
  qed (use pos [of k] in simp)
qed

lemma f_sub_nonzero:
  assumes "fl a = a" "fl b = b" "a \<noteq> b"
  shows "f_sub (Fin a) (Fin b) \<noteq> Fin 0"
proof -
  obtain j k where jk: "a = of_int j * tiny" "b = of_int k * tiny"
    using assms(1,2) fl_fixed_grid by metis
  then have "fl (of_int (j - k) * tiny) \<noteq> 0" using assms(3) by (intro fl_grid_nonzero) auto
  moreover have "a + - b = of_int (j - k) * tiny" using jk by (simp add: algebra_simps)
  ultimately show ?thesis by (auto simp: f_sub_def to_float_def Let_def)
qed

end
