(* ===== verification/Monotonic.thy ===== *)
theory Monotonic
  imports Py_Statistics Py_Json
begin

text \<open>
  The bounded monotone response fit (\<open>phase8/model/monotonic.py\<close>): pooling of adjacent violators,
  the fit with its confidence bounds, the fit of a table of measured rows, and the prediction
  inside the measured range. All numbers are binary64; the pooling loop takes the mean of a block
  as an argument, so that its laws do not depend on how an interpreter adds floats.
\<close>

section \<open>Pooling\<close>

record mono_obs =
  obs_x :: pyfloat
  obs_value :: pyfloat

record mono_fit =
  fit_direction :: string
  x_min :: pyfloat
  x_max :: pyfloat
  fit_xs :: "pyfloat list"
  fit_values :: "pyfloat list"
  fit_lower :: "pyfloat list"
  fit_upper :: "pyfloat list"
  sample_count :: int

text \<open>\<open>sum(block) / len(block)\<close>; a block is never empty.\<close>

definition block_mean :: "pyfloat list \<Rightarrow> pyfloat" where
  "block_mean b = (case f_div (py_sum b) (Fin (of_nat (length b))) of Inr m \<Rightarrow> m | Inl _ \<Rightarrow> NaN)"

text \<open>The \<open>while\<close> loop, with the newest block first.\<close>

fun pool :: "('a list \<Rightarrow> pyfloat) \<Rightarrow> 'a list list \<Rightarrow> 'a list list" where
  "pool mean (b # a # bs) = (if f_lt (mean b) (mean a) then pool mean ((a @ b) # bs) else b # a # bs)"
| "pool mean bs = bs"

definition pav_blocks :: "('a list \<Rightarrow> pyfloat) \<Rightarrow> 'a list \<Rightarrow> 'a list list" where
  "pav_blocks mean vs = foldl (\<lambda>bs v. pool mean ([v] # bs)) [] vs"

definition pav :: "pyfloat list \<Rightarrow> bool \<Rightarrow> pyfloat list" where
  "pav vs decreasing =
     (let signed = (if decreasing then map f_neg vs else vs);
          blocks = rev (pav_blocks block_mean signed);
          fitted = concat (map (\<lambda>b. replicate (length b) (block_mean b)) blocks)
      in if decreasing then map f_neg fitted else fitted)"

section \<open>The fit\<close>

definition z_score :: "pyfloat \<Rightarrow> pyfloat" where
  "z_score confidence =
     (let c = py_round 2 confidence in
      if f_eq c (to_float (90 / 100)) then to_float (1645 / 1000)
      else if f_eq c (to_float (95 / 100)) then to_float (1960 / 1000)
      else if f_eq c (to_float (99 / 100)) then to_float (2576 / 1000)
      else to_float (1960 / 1000))"

text \<open>\<open>max(0.0, x)\<close>, \<open>max(a, b)\<close> and \<open>min(a, b)\<close>: the first argument unless the second is better.\<close>

definition f_max :: "pyfloat \<Rightarrow> pyfloat \<Rightarrow> pyfloat" where
  "f_max a b = (if f_lt a b then b else a)"

definition f_min :: "pyfloat \<Rightarrow> pyfloat \<Rightarrow> pyfloat" where
  "f_min a b = (if f_lt b a then b else a)"

definition check_fit :: "mono_obs list \<Rightarrow> string \<Rightarrow> pyfloat \<Rightarrow> mono_obs list res" where
  "check_fit observations direction confidence =
     require (direction \<in> {''lower'', ''higher''}) ValueError ''direction must be lower or higher'' (
     require (observations \<noteq> []) ValueError ''at least one observation is required'' (
     require (f_lt (Fin (1 / 2)) confidence \<and> f_lt confidence (Fin 1)) ValueError
       ''confidence must be between 0.5 and 1'' (
     let ordered = sort_by obs_x observations in
     require (list_all (\<lambda>o1. isfinite (obs_x o1) \<and> isfinite (obs_value o1)) ordered) ValueError
       ''observations must be finite'' (
     require (successively (\<lambda>l r. \<not> f_le (obs_x r) (obs_x l)) ordered) ValueError
       ''x values must be strictly increasing'' (Inr ordered)))))"

definition fit_monotonic :: "mono_obs list \<Rightarrow> string \<Rightarrow> pyfloat \<Rightarrow> mono_fit res" where
  "fit_monotonic observations direction confidence =
     rbind (check_fit observations direction confidence) (\<lambda>ordered.
     let raw = map obs_value ordered;
         values = pav raw (direction = ''lower'');
         residuals = map (\<lambda>(observed, fitted). f_sub observed fitted) (zip raw values) in
     rbind (if 1 < length residuals then pstdev residuals
            else Inr (f_mul (f_abs (hd raw)) (to_float (5 / 100)))) (\<lambda>spread.
     let margin = f_mul (z_score confidence) spread in
     Inr \<lparr> fit_direction = direction, x_min = obs_x (hd ordered), x_max = obs_x (last ordered),
       fit_xs = map obs_x ordered, fit_values = values,
       fit_lower = map (\<lambda>v. f_max (Fin 0) (f_sub v margin)) values,
       fit_upper = map (\<lambda>v. f_add v margin) values, sample_count = 0 \<rparr>))"

section \<open>Prediction\<close>

text \<open>The loop over the neighbouring points.\<close>

fun interpolate :: "pyfloat \<Rightarrow> pyfloat list \<Rightarrow> pyfloat list \<Rightarrow> pyfloat res" where
  "interpolate x (l # r # xs) (lv # rv # vs) =
     (if f_le l x \<and> f_le x r then
        rbind (f_div (f_sub x l) (f_sub r l)) (\<lambda>fraction.
        Inr (f_add lv (f_mul fraction (f_sub rv lv))))
      else interpolate x (r # xs) (rv # vs))"
| "interpolate x _ _ = raise AssertionError ''bounded interpolation failed''"

definition predict :: "mono_fit \<Rightarrow> pyfloat \<Rightarrow> pyfloat res" where
  "predict fit x =
     (if f_lt x (x_min fit) \<or> f_lt (x_max fit) x
      then raise ValueError (''x='' @ float_repr x @ '' is outside measured range ['' @
        float_repr (x_min fit) @ '', '' @ float_repr (x_max fit) @ '']'')
      else case find (\<lambda>(k, v). f_eq k x) (zip (fit_xs fit) (fit_values fit)) of
        Some (_, v) \<Rightarrow> Inr v
      | None \<Rightarrow> interpolate x (fit_xs fit) (fit_values fit))"

section \<open>Tables of rows\<close>

text \<open>\<open>isinstance(v, (int, float))\<close> and \<open>float(v)\<close>; booleans are integers.\<close>

definition number_of :: "pyval \<Rightarrow> pyfloat res" where
  "number_of v = (case v of
     VInt i \<Rightarrow> float_of_int i
   | VBool b \<Rightarrow> Inr (Fin (if b then 1 else 0))
   | VFloat x \<Rightarrow> Inr x
   | _ \<Rightarrow> raise TypeError ''float() argument must be a string or a real number'')"

definition is_number :: "pyval \<Rightarrow> bool" where
  "is_number v = (case v of VInt _ \<Rightarrow> True | VBool _ \<Rightarrow> True | VFloat _ \<Rightarrow> True | _ \<Rightarrow> False)"

type_synonym groups = "(pyfloat \<times> pyfloat list) list"

fun group_add :: "groups \<Rightarrow> pyfloat \<Rightarrow> pyfloat \<Rightarrow> groups" where
  "group_add [] x v = [(x, [v])]"
| "group_add ((k, vs) # g) x v = (if f_eq k x then (k, vs @ [v]) # g else (k, vs) # group_add g x v)"

definition usable_row :: "string \<Rightarrow> string \<Rightarrow> pydict \<Rightarrow> bool" where
  "usable_row x_key y_key row \<longleftrightarrow> dget row ''valid'' = VBool True
     \<and> list_ex (py_eq (dget_or row ''dependency_bound'' (VStr ''no''))) [VNone, VStr ''no'']
     \<and> is_number (dget row x_key) \<and> is_number (dget row y_key)"

text \<open>The sample of a row, if it has one; \<open>float()\<close> of a huge integer raises.\<close>

definition row_point :: "string \<Rightarrow> string \<Rightarrow> pydict \<Rightarrow> (pyfloat \<times> pyfloat) option res" where
  "row_point x_key y_key row =
     (if \<not> usable_row x_key y_key row then Inr None
      else rbind (number_of (dget row x_key)) (\<lambda>x.
        if \<not> isfinite x then Inr None
        else rbind (number_of (dget row y_key)) (\<lambda>v.
          Inr (if isfinite v then Some (x, v) else None))))"

definition group_row :: "string \<Rightarrow> string \<Rightarrow> groups \<Rightarrow> pydict \<Rightarrow> groups res" where
  "group_row x_key y_key g row =
     rbind (row_point x_key y_key row) (\<lambda>p. Inr (case p of None \<Rightarrow> g | Some (x, v) \<Rightarrow> group_add g x v))"

definition usable_obs :: "nat \<Rightarrow> groups \<Rightarrow> mono_obs list res" where
  "usable_obs min_samples g =
     rmap (\<lambda>(x, vs). rbind (fmean vs) (\<lambda>m. Inr \<lparr> obs_x = x, obs_value = m \<rparr>))
       (filter (\<lambda>(x, vs). min_samples \<le> length vs) (sort_by fst g))"

definition samples_at :: "groups \<Rightarrow> pyfloat \<Rightarrow> pyfloat list" where
  "samples_at g x = (case find (\<lambda>(k, vs). f_eq k x) g of Some (_, vs) \<Rightarrow> vs | None \<Rightarrow> [])"

definition row_bounds ::
  "groups \<Rightarrow> pyfloat \<Rightarrow> pyfloat \<times> pyfloat \<times> pyfloat \<times> pyfloat \<Rightarrow> (pyfloat \<times> pyfloat) res" where
  "row_bounds g z = (\<lambda>(x, fitted, fit_low, fit_high).
     let samples = samples_at g x in
     rbind (stdev samples) (\<lambda>s.
     rbind (float_sqrt_of_frac (int (length samples)) 1) (\<lambda>root.
     rbind (f_div s root) (\<lambda>standard_error.
     let margin = f_mul z standard_error in
     Inr (f_max (Fin 0) (f_min fit_low (f_sub fitted margin)), f_max fit_high (f_add fitted margin))))))"

definition fit_response_table ::
  "pydict list \<Rightarrow> string \<Rightarrow> string \<Rightarrow> string \<Rightarrow> int \<Rightarrow> pyfloat \<Rightarrow> mono_fit res" where
  "fit_response_table rows x_key y_key direction min_samples confidence =
     require (2 \<le> min_samples) ValueError ''min_samples must be at least two for confidence estimation'' (
     rbind (rfold (group_row x_key y_key) [] rows) (\<lambda>grouped.
     rbind (usable_obs (nat min_samples) grouped) (\<lambda>usable.
     require (2 \<le> length usable) ValueError (''insufficient usable measured cells: need at least two levels with ''
       @ show_int min_samples @ '' samples each'') (
     rbind (fit_monotonic usable direction confidence) (\<lambda>fit.
     rbind (rmap (row_bounds grouped (z_score confidence))
       (zip (fit_xs fit) (zip (fit_values fit) (zip (fit_lower fit) (fit_upper fit))))) (\<lambda>bounds.
     Inr (fit\<lparr> fit_lower := map fst bounds, fit_upper := map snd bounds,
       sample_count := sum_list (map (\<lambda>x. int (length (samples_at grouped x))) (fit_xs fit)) \<rparr>)))))))"

section \<open>Laws of the pooling\<close>

text \<open>Newest first, no block mean is below the next older one.\<close>

abbreviation pooled :: "('a list \<Rightarrow> pyfloat) \<Rightarrow> 'a list list \<Rightarrow> bool" where
  "pooled mean \<equiv> successively (\<lambda>b a. \<not> f_lt (mean b) (mean a))"

lemma pool_concat: "concat (rev (pool mean bs)) = concat (rev bs)"
  by (induction mean bs rule: pool.induct) simp_all

lemma pool_nonempty: "[] \<notin> set bs \<Longrightarrow> [] \<notin> set (pool mean bs)"
  by (induction mean bs rule: pool.induct) auto

lemma pool_pooled: "pooled mean (tl bs) \<Longrightarrow> pooled mean (pool mean bs)"
  by (induction mean bs rule: pool.induct) (auto simp: successively_Cons)

lemma pav_blocks_inv:
  "concat (rev (pav_blocks mean vs)) = vs \<and> [] \<notin> set (pav_blocks mean vs) \<and> pooled mean (pav_blocks mean vs)"
proof (induction vs rule: rev_induct)
  case (snoc v vs)
  let ?bs = "[v] # pav_blocks mean vs"
  have "pav_blocks mean (vs @ [v]) = pool mean ?bs" by (simp add: pav_blocks_def)
  moreover have "[] \<notin> set ?bs" using snoc by simp
  ultimately show ?case
    using snoc pool_concat [of mean ?bs] pool_nonempty [of ?bs mean] pool_pooled [of mean ?bs] by simp
qed (simp add: pav_blocks_def)

lemma f_lt_irrefl [simp]: "\<not> f_lt a a"
  by (cases a) simp_all

lemma f_lt_neg [simp]: "f_lt (f_neg a) (f_neg b) = f_lt b a"
  by (cases a; cases b) simp_all

lemma f_neg_neg [simp]: "f_neg (f_neg a) = a"
  by (cases a) simp_all

lemma successively_blocks:
  assumes "\<And>a. P a a" "[] \<notin> set bs" "successively (\<lambda>a b. P (g a) (g b)) bs"
  shows "successively P (concat (map (\<lambda>b. replicate (length b) (g b)) bs))"
  using assms(2,3)
proof (induction bs)
  case (Cons b bs)
  have r: "successively P (replicate n x)" for n x
  proof (induction n)
    case (Suc n)
    then show ?case by (cases n) (simp_all add: assms(1))
  qed simp
  show ?case
  proof (cases bs)
    case (Cons c cs)
    then have "hd (concat (map (\<lambda>b. replicate (length b) (g b)) bs)) = g c"
      using Cons.prems(1) by (cases c) simp_all
    then show ?thesis using Cons.IH Cons.prems Cons r by (auto simp: successively_append_iff)
  qed (simp add: r)
qed simp

lemma length_blocks: "length (concat (map (\<lambda>b. replicate (length b) (g b)) bs)) = length (concat bs)"
  by (induction bs) simp_all

text \<open>
  The fitted values are the means of consecutive blocks of the data, and they never move against
  the direction.
\<close>

lemma pav_increasing:
  "length (pav vs False) = length vs \<and> successively (\<lambda>a b. \<not> f_lt b a) (pav vs False)
     \<and> (\<exists>bs. concat bs = vs \<and> [] \<notin> set bs \<and> pav vs False = concat (map (\<lambda>b. replicate (length b) (block_mean b)) bs))"
proof -
  let ?bs = "rev (pav_blocks block_mean vs)"
  have i: "concat ?bs = vs" "[] \<notin> set ?bs" "pooled block_mean (rev ?bs)"
    using pav_blocks_inv [of block_mean vs] by simp_all
  have p: "pav vs False = concat (map (\<lambda>b. replicate (length b) (block_mean b)) ?bs)"
    by (simp add: pav_def Let_def)
  have "successively (\<lambda>a b. \<not> f_lt (block_mean b) (block_mean a)) ?bs"
    using i(3) by (simp add: successively_rev)
  then have "successively (\<lambda>a b. \<not> f_lt b a) (pav vs False)"
    unfolding p using i(2) by (intro successively_blocks) simp_all
  then show ?thesis using i p length_blocks [of block_mean ?bs] by auto
qed

lemma pav_neg: "pav vs True = map f_neg (pav (map f_neg vs) False)"
  by (simp add: pav_def Let_def)

lemma pav_shape:
  "length (pav vs d) = length vs" "successively (\<lambda>a b. if d then \<not> f_lt a b else \<not> f_lt b a) (pav vs d)"
proof -
  show "length (pav vs d) = length vs"
    using pav_increasing [of vs] pav_increasing [of "map f_neg vs"] by (cases d) (simp_all add: pav_neg)
  show "successively (\<lambda>a b. if d then \<not> f_lt a b else \<not> f_lt b a) (pav vs d)"
    using pav_increasing [of vs] pav_increasing [of "map f_neg vs"]
    by (cases d) (simp_all add: pav_neg successively_map)
qed

section \<open>Laws of the fit\<close>

definition increasing_xs :: "pyfloat list \<Rightarrow> bool" where
  "increasing_xs xs \<longleftrightarrow> list_all isfinite xs \<and> sorted_wrt f_lt xs"

lemma finite_lt_iff: "isfinite a \<Longrightarrow> isfinite b \<Longrightarrow> f_lt a b \<longleftrightarrow> \<not> f_le b a"
  by (cases a; cases b) auto

lemma finite_lt_trans: "f_lt a b \<Longrightarrow> f_lt b c \<Longrightarrow> f_lt a c"
  by (cases a; cases b; cases c) auto

lemma check_fit_ok:
  assumes "check_fit os dir conf = Inr ordered"
  shows "mset ordered = mset os" "increasing_xs (map obs_x ordered)" "ordered \<noteq> []" "dir \<in> {''lower'', ''higher''}"
proof -
  have o: "ordered = sort_by obs_x os" "os \<noteq> []" "list_all (\<lambda>o1. isfinite (obs_x o1) \<and> isfinite (obs_value o1)) ordered"
    "successively (\<lambda>l r. \<not> f_le (obs_x r) (obs_x l)) ordered" and d: "dir \<in> {''lower'', ''higher''}"
    using assms by (auto simp: check_fit_def Let_def)
  show m: "mset ordered = mset os" by (simp add: o(1))
  then show "ordered \<noteq> []" using o(2) by auto
  show "dir \<in> {''lower'', ''higher''}" by (rule d)
  have f: "list_all isfinite (map obs_x ordered)" using o(3) by (simp add: list_all_iff)
  have "successively f_lt (map obs_x ordered)"
    using o(3,4) unfolding successively_map
    by (elim successively_mono) (auto simp: list_all_iff finite_lt_iff)
  then have "sorted_wrt f_lt (map obs_x ordered)"
    using finite_lt_trans by (subst (asm) successively_iff_sorted_wrt_strong) blast+
  then show "increasing_xs (map obs_x ordered)" using f by (simp add: increasing_xs_def)
qed

lemma fit_monotonic_ok:
  assumes "fit_monotonic os dir conf = Inr fit"
  shows "increasing_xs (fit_xs fit)" "fit_xs fit \<noteq> []" "mset (fit_xs fit) = mset (map obs_x os)"
    "x_min fit = hd (fit_xs fit)" "x_max fit = last (fit_xs fit)" "length (fit_values fit) = length (fit_xs fit)"
    "length (fit_lower fit) = length (fit_xs fit)" "length (fit_upper fit) = length (fit_xs fit)"
    "successively (\<lambda>a b. if dir = ''lower'' then \<not> f_lt a b else \<not> f_lt b a) (fit_values fit)"
    "fit_direction fit = dir" "dir \<in> {''lower'', ''higher''}"
proof -
  obtain ordered where c: "check_fit os dir conf = Inr ordered"
    and f: "fit_direction fit = dir" "x_min fit = obs_x (hd ordered)" "x_max fit = obs_x (last ordered)"
      "fit_xs fit = map obs_x ordered" "fit_values fit = pav (map obs_value ordered) (dir = ''lower'')"
      "length (fit_lower fit) = length (fit_values fit)" "length (fit_upper fit) = length (fit_values fit)"
    using assms by (auto simp: fit_monotonic_def Let_def)
  note k = check_fit_ok [OF c]
  show "increasing_xs (fit_xs fit)" "fit_xs fit \<noteq> []" "dir \<in> {''lower'', ''higher''}" using k f by simp_all
  show "mset (fit_xs fit) = mset (map obs_x os)" using k(1) f(4) by simp
  show "x_min fit = hd (fit_xs fit)" "x_max fit = last (fit_xs fit)" "fit_direction fit = dir"
    using k(3) f by (simp_all add: hd_map last_map)
  show "length (fit_values fit) = length (fit_xs fit)" using f by (simp add: pav_shape)
  then show "length (fit_lower fit) = length (fit_xs fit)" "length (fit_upper fit) = length (fit_xs fit)"
    using f by simp_all
  show "successively (\<lambda>a b. if dir = ''lower'' then \<not> f_lt a b else \<not> f_lt b a) (fit_values fit)"
    unfolding f(5) by (rule pav_shape)
qed

text \<open>Between the first and the last point some neighbouring pair encloses the argument.\<close>

lemma interpolate_total:
  assumes "increasing_xs xs" "list_all is_float xs" "length vs = length xs" "f_eq c c"
    and "f_lt (hd xs) c" "f_lt c (last xs)" "xs \<noteq> []"
  shows "\<exists>y. interpolate c xs vs = Inr y"
  using assms
proof (induction c xs vs rule: interpolate.induct)
  case (1 x l r xs lv rv vs)
  show ?case
  proof (cases "f_le l x \<and> f_le x r")
    case True
    obtain a b where ab: "l = Fin a" "r = Fin b" "a < b" "fl a = a" "fl b = b"
      using 1(2,3) by (auto simp: increasing_xs_def is_float_def isfinite_conv)
    then have "f_sub r l \<noteq> Fin 0" using f_sub_nonzero [of b a] by auto
    then show ?thesis using True f_div_total [of "f_sub r l"] by fastforce
  next
    case False
    have "f_le l x" using 1(6) by (cases l; cases x) auto
    then have r: "f_lt r x" using False 1(2,5,7) by (cases r; cases x) (auto simp: increasing_xs_def f_eq_def)
    have "\<exists>y. interpolate x (r # xs) (rv # vs) = Inr y"
      using 1(2-8) r by (intro 1(1) [OF False]) (simp_all add: increasing_xs_def)
    then show ?thesis using False by (simp only: interpolate.simps if_False)
  qed
qed (use finite_lt_trans f_lt_irrefl in \<open>fastforce simp: length_Suc_conv eq_commute [of "Suc 0"]\<close>)+

lemma sorted_lt_distinct: "sorted_wrt f_lt xs \<Longrightarrow> distinct xs"
  by (induction xs) auto

lemma sorted_lt_find:
  "sorted_wrt f_lt xs \<Longrightarrow> list_all isfinite xs \<Longrightarrow> length vs = length xs \<Longrightarrow> i < length xs
     \<Longrightarrow> find (\<lambda>(k, v). f_eq k (xs ! i)) (zip xs vs) = Some (xs ! i, vs ! i)"
proof (induction xs arbitrary: vs i)
  case (Cons x xs)
  then obtain v ws where vs: "vs = v # ws" by (cases vs) auto
  show ?case
  proof (cases i)
    case (Suc j)
    then have "f_lt x (xs ! j)" using Cons.prems by simp
    then have "\<not> f_eq x (xs ! j)" by (auto simp: f_eq_def)
    then show ?thesis using Cons vs Suc by simp
  qed (use Cons vs in \<open>cases x; simp add: f_eq_def\<close>)
qed simp

text \<open>
  C6: A fit keeps the measured points, each once and in strictly increasing order, gives every
  point a value and two bounds, and its values never move against the direction; its range is the
  range of the points.
\<close>

theorem fit_monotonic_shape:
  "case fit_monotonic os dir conf of
     Inr fit \<Rightarrow> mset (fit_xs fit) = mset (map obs_x os) \<and> sorted_wrt f_lt (fit_xs fit)
       \<and> list_all isfinite (fit_xs fit) \<and> distinct (map obs_x os)
       \<and> length (fit_values fit) = length os \<and> length (fit_lower fit) = length os \<and> length (fit_upper fit) = length os
       \<and> successively (\<lambda>a b. if dir = ''lower'' then \<not> f_lt a b else \<not> f_lt b a) (fit_values fit)
       \<and> x_min fit = hd (fit_xs fit) \<and> x_max fit = last (fit_xs fit)
   | Inl _ \<Rightarrow> True"
proof (cases "fit_monotonic os dir conf")
  case (Inr fit)
  note k = fit_monotonic_ok [OF Inr]
  have s: "sorted_wrt f_lt (fit_xs fit)" using k(1) by (simp add: increasing_xs_def)
  then have "distinct (fit_xs fit)" by (rule sorted_lt_distinct)
  then show ?thesis using k s mset_eq_length [OF k(3)] mset_eq_imp_distinct_iff [OF k(3)] Inr
    by (simp add: increasing_xs_def)
qed simp

lemma sorted_lt_bounds:
  "sorted_wrt f_lt xs \<Longrightarrow> x \<in> set xs \<Longrightarrow> \<not> f_lt x (hd xs) \<and> \<not> f_lt (last xs) x"
proof (induction xs)
  case (Cons y ys)
  have n: "f_lt a b \<Longrightarrow> \<not> f_lt b a" for a b by (cases a; cases b) auto
  show ?case using Cons n by (cases "ys = []") (auto dest: last_in_set)
qed simp

lemma f_lt_total: "isfinite a \<Longrightarrow> b \<noteq> NaN \<Longrightarrow> \<not> f_eq a b \<Longrightarrow> f_lt a b \<or> f_lt b a"
  by (cases a; cases b) (auto simp: f_eq_def)

lemma predict_inside:
  assumes "increasing_xs (fit_xs fit)" "list_all is_float (fit_xs fit)" "fit_xs fit \<noteq> []"
    and "length (fit_values fit) = length (fit_xs fit)" "c \<noteq> NaN"
    and "\<not> f_lt c (hd (fit_xs fit))" "\<not> f_lt (last (fit_xs fit)) c"
    and e: "x_min fit = hd (fit_xs fit)" "x_max fit = last (fit_xs fit)"
  shows "\<exists>y. predict fit c = Inr y"
proof (cases "find (\<lambda>(k, v). f_eq k c) (zip (fit_xs fit) (fit_values fit))")
  case None
  have s: "set (fit_xs fit) = fst ` set (zip (fit_xs fit) (fit_values fit))"
    using assms(4) by (metis map_fst_zip set_map)
  have n: "\<not> f_eq k c" if "k \<in> set (fit_xs fit)" for k
    using None that unfolding s by (auto simp: find_None_iff)
  have fin: "isfinite (hd (fit_xs fit))" "isfinite (last (fit_xs fit))"
    using assms(1,3) by (auto simp: increasing_xs_def list_all_iff)
  have "f_lt (hd (fit_xs fit)) c" "f_lt c (last (fit_xs fit))"
    using f_lt_total [OF fin(1) assms(5)] f_lt_total [OF fin(2) assms(5)] n assms(3,6,7) by simp_all
  then have "\<exists>y. interpolate c (fit_xs fit) (fit_values fit) = Inr y"
    using assms by (intro interpolate_total) (simp_all add: f_eq_def)
  then show ?thesis using None assms by (simp add: predict_def)
next
  case (Some p)
  then show ?thesis using assms by (cases p) (simp add: predict_def)
qed

lemma predict_measured:
  assumes "increasing_xs (fit_xs fit)" "length (fit_values fit) = length (fit_xs fit)"
    and "x_min fit = hd (fit_xs fit)" "x_max fit = last (fit_xs fit)"
  shows "map (predict fit) (fit_xs fit) = map Inr (fit_values fit)"
proof (rule nth_equalityI)
  fix i assume i: "i < length (map (predict fit) (fit_xs fit))"
  then show "map (predict fit) (fit_xs fit) ! i = map Inr (fit_values fit) ! i"
    using assms sorted_lt_bounds [of "fit_xs fit" "fit_xs fit ! i"] sorted_lt_find [of "fit_xs fit" "fit_values fit" i]
    by (simp add: predict_def increasing_xs_def)
qed (simp add: assms)

text \<open>
  For a fit of measured points a prediction is refused with \<open>ValueError\<close> exactly outside the
  measured range and returns a value everywhere inside it: the loop over the neighbours always
  finds its interval and never divides by zero. At a measured point it returns the fitted value.
\<close>

theorem predict_in_range:
  assumes "fit_monotonic os dir conf = Inr fit" "list_all (is_float \<circ> obs_x) os" "c \<noteq> NaN"
  shows "(if f_lt c (x_min fit) \<or> f_lt (x_max fit) c
     then \<exists>m. predict fit c = raise ValueError m else \<exists>y. predict fit c = Inr y)
   \<and> map (predict fit) (fit_xs fit) = map Inr (fit_values fit)"
proof -
  note k = fit_monotonic_ok [OF assms(1)]
  have "set (fit_xs fit) = set (map obs_x os)" using k(3) by (rule mset_eq_setD)
  then have f: "list_all is_float (fit_xs fit)" using assms(2) by (auto simp: list_all_iff)
  show ?thesis
    using predict_inside [OF k(1) f k(2) k(6) assms(3) _ _ k(4,5)] predict_measured [OF k(1,6,4,5)] k(4,5)
    by (simp add: predict_def)
qed

definition two_points :: "mono_obs list" where
  "two_points = [\<lparr> obs_x = Fin 2, obs_value = Fin 4 \<rparr>, \<lparr> obs_x = Fin 1, obs_value = Fin 3 \<rparr>]"

lemma two_points_fit:
  "\<exists>fit. fit_monotonic two_points ''higher'' (Fin (3 / 4)) = Inr fit \<and> fit_xs fit = [Fin 1, Fin 2]
     \<and> x_min fit = Fin 1 \<and> x_max fit = Fin 2 \<and> fit_values fit = [Fin 3, Fin 4]"
proof -
  have t: "to_float 3 = Fin 3" "to_float 4 = Fin 4" "to_float 0 = Fin 0"
    using to_float_small [of 3] to_float_small [of 4] to_float_small [of 0] by simp_all
  have m: "block_mean [Fin 3] = Fin 3" "block_mean [Fin 4] = Fin 4"
    by (simp_all add: block_mean_def py_sum_def f_div_def t)
  have p: "pav [Fin 3, Fin 4] False = [Fin 3, Fin 4]" by (simp add: pav_def pav_blocks_def m)
  have c: "check_fit two_points ''higher'' (Fin (3 / 4)) = Inr (rev two_points)"
    by (simp add: check_fit_def two_points_def sort_by_def)
  have s: "pstdev [f_sub (Fin 3) (Fin 3), f_sub (Fin 4) (Fin 4)] = Inr (Fin 0)"
    by (simp add: pstdev_def root_of_squares_def sum_of_squares_def f_sub_def t float_sqrt_of_0)
  show ?thesis using c s by (simp add: fit_monotonic_def two_points_def p Let_def)
qed

theorem predict_in_range_witness:
  "\<exists>fit y m. fit_monotonic two_points ''higher'' (Fin (3 / 4)) = Inr fit \<and> predict fit (Fin (3 / 2)) = Inr y
     \<and> predict fit (Fin 3) = raise ValueError m \<and> map (predict fit) [Fin 1, Fin 2] = map Inr [Fin 3, Fin 4]"
proof -
  obtain fit where f: "fit_monotonic two_points ''higher'' (Fin (3 / 4)) = Inr fit" "fit_xs fit = [Fin 1, Fin 2]"
    "x_min fit = Fin 1" "x_max fit = Fin 2" "fit_values fit = [Fin 3, Fin 4]"
    using two_points_fit by blast
  have "fl 1 = 1" "fl 2 = 2" using fl_of_int [of 1] fl_of_int [of 2] by simp_all
  then have "list_all (is_float \<circ> obs_x) two_points" by (simp add: two_points_def is_float_def)
  note p = predict_in_range [OF f(1) this]
  show ?thesis using p [of "Fin (3 / 2)"] p [of "Fin 3"] f by simp
qed

section \<open>Laws of the table\<close>

definition points_of :: "(pyfloat \<times> pyfloat) option list \<Rightarrow> (pyfloat \<times> pyfloat) list" where
  "points_of ps = List.map_filter id ps"

lemma points_of_simps [simp]:
  "points_of [] = []" "points_of (ps @ [None]) = points_of ps" "points_of (ps @ [Some p]) = points_of ps @ [p]"
  by (simp_all add: points_of_def map_filter_def)

definition samples_of :: "(pyfloat \<times> pyfloat) option list \<Rightarrow> pyfloat \<Rightarrow> pyfloat list" where
  "samples_of ps x = map snd (filter (\<lambda>p. fst p = x) (points_of ps))"

lemma samples_at_add:
  "x \<noteq> NaN \<Longrightarrow> samples_at (group_add g x v) y = (if x = y then samples_at g y @ [v] else samples_at g y)"
  by (induction g x v rule: group_add.induct) (auto simp: samples_at_def f_eq_def)

lemma group_add_keys:
  "x \<noteq> NaN \<Longrightarrow> distinct (map fst g) \<Longrightarrow>
     fst ` set (group_add g x v) = insert x (fst ` set g) \<and> distinct (map fst (group_add g x v))"
  by (induction g x v rule: group_add.induct) (auto simp: f_eq_def)

lemma row_point_finite: "row_point xk yk row = Inr (Some (x, v)) \<Longrightarrow> x \<noteq> NaN"
  by (auto simp: row_point_def split: if_splits)

lemma group_row_Inr:
  "group_row xk yk g row = Inr h \<longleftrightarrow> (\<exists>p. row_point xk yk row = Inr p
     \<and> h = (case p of None \<Rightarrow> g | Some (x, v) \<Rightarrow> group_add g x v))"
  by (auto simp: group_row_def)

lemma grouped_points:
  assumes "rfold (group_row xk yk) [] rows = Inr g"
  shows "\<exists>ps. rmap (row_point xk yk) rows = Inr ps \<and> distinct (map fst g)
     \<and> fst ` set g = fst ` set (points_of ps) \<and> samples_at g = samples_of ps"
  using assms
proof (induction rows arbitrary: g rule: rev_induct)
  case Nil
  then show ?case by (auto simp: samples_at_def samples_of_def)
next
  case (snoc row rows)
  then obtain g0 p where g: "rfold (group_row xk yk) [] rows = Inr g0" "row_point xk yk row = Inr p"
    "g = (case p of None \<Rightarrow> g0 | Some (x, v) \<Rightarrow> group_add g0 x v)"
    by (auto simp: rfold_append group_row_Inr)
  obtain ps where ps: "rmap (row_point xk yk) rows = Inr ps" "distinct (map fst g0)"
    "fst ` set g0 = fst ` set (points_of ps)" "samples_at g0 = samples_of ps"
    using snoc.IH [OF g(1)] by blast
  have r: "rmap (row_point xk yk) (rows @ [row]) = Inr (ps @ [p])"
    using ps(1) g(2) by (simp add: rmap_Inr list_all2_appendI)
  show ?case
  proof (cases p)
    case None
    then show ?thesis using r ps g(3) by (intro exI [of _ "ps @ [p]"]) (auto simp: samples_of_def)
  next
    case (Some xv)
    then obtain x v where p: "p = Some (x, v)" by (cases xv) simp
    then have x: "x \<noteq> NaN" using g(2) row_point_finite by blast
    have "samples_at g = samples_of (ps @ [p])"
      using p g(3) ps(4) by (auto simp: fun_eq_iff samples_at_add [OF x] samples_of_def)
    then show ?thesis using r ps g(3) p group_add_keys [OF x ps(2)] by (intro exI [of _ "ps @ [p]"]) auto
  qed
qed

text \<open>In a grouping every key has the samples that are found at it.\<close>

lemma grouped_samples:
  assumes "distinct (map fst g)" "(x, vs) \<in> set g" "x \<noteq> NaN"
  shows "samples_at g x = vs"
proof -
  obtain g1 g2 where g: "g = g1 @ (x, vs) # g2" using assms(2) by (meson split_list)
  then have "x \<notin> fst ` set g1" using assms(1) by auto
  then have "find (\<lambda>(k, vs). f_eq k x) g1 = None" by (force simp: find_None_iff f_eq_def)
  then have "find (\<lambda>(k, vs). f_eq k x) (g1 @ (x, vs) # g2) = Some (x, vs)"
    using assms(3) by (induction g1) (auto simp: f_eq_def split: if_splits)
  then show ?thesis by (simp add: samples_at_def g)
qed

lemma usable_obs_ok:
  assumes "usable_obs n g = Inr us" "distinct (map fst g)" "NaN \<notin> fst ` set g"
  shows "set (map obs_x us) = {x \<in> fst ` set g. n \<le> length (samples_at g x)}"
    and "o1 \<in> set us \<Longrightarrow> fmean (samples_at g (obs_x o1)) = Inr (obs_value o1)"
proof -
  let ?g = "filter (\<lambda>(x, vs). n \<le> length vs) (sort_by fst g)"
  have s: "set (sort_by fst g) = set g" by simp
  have m: "rmap (\<lambda>(x, vs). rbind (fmean vs) (\<lambda>m. Inr \<lparr> obs_x = x, obs_value = m \<rparr>)) ?g = Inr us"
    using assms(1) by (simp add: usable_obs_def)
  have v: "samples_at g x = vs" if "(x, vs) \<in> set g" for x vs
    using that grouped_samples [OF assms(2) that] assms(3) by force
  have "map obs_x us = map fst ?g"
    using m unfolding rmap_Inr by (induction rule: list_all2_induct) (auto split: prod.splits)
  then show "set (map obs_x us) = {x \<in> fst ` set g. n \<le> length (samples_at g x)}"
    using s v by (auto simp: image_iff)
  show "fmean (samples_at g (obs_x o1)) = Inr (obs_value o1)" if "o1 \<in> set us"
    using rmap_elem [OF m that] s v by (auto split: prod.splits)
qed

lemma fit_monotonic_values:
  assumes "fit_monotonic os dir conf = Inr fit"
  shows "\<exists>ordered. mset ordered = mset os \<and> fit_xs fit = map obs_x ordered
     \<and> fit_values fit = pav (map obs_value ordered) (dir = ''lower'')"
proof -
  obtain ordered where "check_fit os dir conf = Inr ordered" "fit_xs fit = map obs_x ordered"
    "fit_values fit = pav (map obs_value ordered) (dir = ''lower'')"
    using assms by (auto simp: fit_monotonic_def Let_def)
  then show ?thesis using check_fit_ok(1) by blast
qed

lemma fit_response_table_parts:
  assumes "fit_response_table rows xk yk dir n conf = Inr fit"
  obtains g us f0 where "rfold (group_row xk yk) [] rows = Inr g" "usable_obs (nat n) g = Inr us" "2 \<le> length us"
    "fit_monotonic us dir conf = Inr f0" "fit_xs fit = fit_xs f0" "fit_values fit = fit_values f0" "2 \<le> n"
    "sample_count fit = sum_list (map (\<lambda>x. int (length (samples_at g x))) (fit_xs f0))"
  using assms unfolding fit_response_table_def by auto

lemma points_of_finite:
  assumes "rmap (row_point xk yk) rows = Inr ps"
  shows "NaN \<notin> fst ` set (points_of ps)"
proof -
  have "x \<noteq> NaN" if "Some (x, v) \<in> set ps" for x v
    using rmap_elem [OF assms that] row_point_finite by blast
  then show ?thesis by (force simp: points_of_def map_filter_def)
qed

text \<open>
  A fit of a table rests on exactly the levels with at least the required number of samples,
  where the samples of a level are the finite values of its valid and unconfounded rows. Its
  values are the pooled means of these samples in the order of the levels, and its sample count
  is the number of rows used.
\<close>

theorem fit_response_table_levels:
  "case fit_response_table rows x_key y_key direction min_samples confidence of
     Inr fit \<Rightarrow> (case rmap (row_point x_key y_key) rows of
       Inr ps \<Rightarrow> set (fit_xs fit) = {x \<in> fst ` set (points_of ps). nat min_samples \<le> length (samples_of ps x)}
         \<and> sorted_wrt f_lt (fit_xs fit) \<and> 2 \<le> length (fit_xs fit)
         \<and> (\<exists>ms. rmap fmean (map (samples_of ps) (fit_xs fit)) = Inr ms \<and> fit_values fit = pav ms (direction = ''lower''))
         \<and> sample_count fit = sum_list (map (\<lambda>x. int (length (samples_of ps x))) (fit_xs fit))
     | Inl _ \<Rightarrow> False)
   | Inl _ \<Rightarrow> True"
proof (cases "fit_response_table rows x_key y_key direction min_samples confidence")
  case (Inr fit)
  then obtain g us f0 where f: "rfold (group_row x_key y_key) [] rows = Inr g" "usable_obs (nat min_samples) g = Inr us"
    "2 \<le> length us" "fit_monotonic us direction confidence = Inr f0" "fit_xs fit = fit_xs f0"
    "fit_values fit = fit_values f0" "2 \<le> min_samples"
    "sample_count fit = sum_list (map (\<lambda>x. int (length (samples_at g x))) (fit_xs f0))"
    by (rule fit_response_table_parts)
  obtain ps where ps: "rmap (row_point x_key y_key) rows = Inr ps" "distinct (map fst g)"
    "fst ` set g = fst ` set (points_of ps)" "samples_at g = samples_of ps"
    using grouped_points [OF f(1)] by blast
  obtain ordered where o: "mset ordered = mset us" "fit_xs f0 = map obs_x ordered"
    "fit_values f0 = pav (map obs_value ordered) (direction = ''lower'')"
    using fit_monotonic_values [OF f(4)] by blast
  have n: "NaN \<notin> fst ` set g" using points_of_finite [OF ps(1)] ps(3) by simp
  note u = usable_obs_ok [OF f(2) ps(2) n]
  have os: "set ordered = set us" "length ordered = length us" using o(1) mset_eq_setD mset_eq_length by blast+
  have "set (fit_xs fit) = {x \<in> fst ` set (points_of ps). nat min_samples \<le> length (samples_of ps x)}"
    using u(1) os(1) f(5) o(2) ps by simp
  moreover have "rmap fmean (map (samples_of ps) (fit_xs fit)) = Inr (map obs_value ordered)"
    unfolding f(5) o(2) rmap_map using u(2) os(1) ps(4) by (intro rmap_total) simp
  moreover have "sorted_wrt f_lt (fit_xs fit)"
    using fit_monotonic_ok(1) [OF f(4)] f(5) by (simp add: increasing_xs_def)
  ultimately show ?thesis using Inr ps(1,4) f(3,5,6,8) o(2,3) os(2) by auto
qed simp

end
