(* ===== verification/Design.thy ===== *)
theory Design
  imports Py_Json Py_Random
begin

text \<open>
  The frozen block design of the CPU-limits campaign (\<open>cpu-limits/experiments/design.py\<close>): the
  36 cells, the seeded schedule of complete blocks and the design validator. The draws of
  \<open>random.Random\<close> are a parameter \<open>randbelow\<close>; what the schedule relies on is that a draw below
  \<open>n\<close> is below \<open>n\<close>. The sampling algorithm on top of it is the one of the standard library for
  populations of this size.
\<close>

section \<open>The frozen values\<close>

definition WORKLOADS :: "string list" where
  "WORKLOADS = [''cpu-bound'', ''io-bound'', ''memory-bound'', ''hybrid'']"

definition POLICIES :: "string list" where
  "POLICIES = [''fit'', ''best-effort'', ''request-low'', ''request-high'', ''guaranteed-low'',
     ''burstable-low'']"

definition CONDITIONS :: "string list" where
  "CONDITIONS = [''solo'', ''contention'']"

definition SOLO_POLICIES :: "string list" where
  "SOLO_POLICIES = [''fit'', ''best-effort'', ''request-low'', ''burstable-low'']"

definition CONTENTION_POLICIES :: "string list" where
  "CONTENTION_POLICIES = [''fit'', ''request-low'', ''request-high'', ''guaranteed-low'',
     ''burstable-low'']"

text \<open>The \<open>fit\<close> and the \<open>low\<close> value of a workload, in millicores.\<close>

definition CPU_VALUES :: "(string \<times> int \<times> int) list" where
  "CPU_VALUES = [(''cpu-bound'', 2000, 500), (''io-bound'', 1000, 250),
     (''memory-bound'', 1000, 500), (''hybrid'', 1000, 500)]"

definition LOW_REQUEST_MILLICORES :: int where
  "LOW_REQUEST_MILLICORES = 100"

record cell =
  cell_id :: string
  cell_workload :: string
  cell_policy :: string
  cell_condition :: string
  request_millicores :: "int option"
  limit_millicores_of :: "int option"

section \<open>Cells\<close>

definition resources_for :: "string \<Rightarrow> string \<Rightarrow> (int option \<times> int option) res" where
  "resources_for workload policy =
     require (workload \<in> set WORKLOADS) ValueError (''unknown workload: '' @ workload) (
     require (policy \<in> set POLICIES) ValueError (''unknown policy: '' @ policy) (
     as_some (map_of CPU_VALUES workload) KeyError workload (\<lambda>(fit, low).
     Inr (if policy = ''fit'' then (Some fit, Some fit)
          else if policy = ''best-effort'' then (None, None)
          else if policy = ''request-low'' then (Some LOW_REQUEST_MILLICORES, None)
          else if policy = ''request-high'' then (Some fit, None)
          else if policy = ''guaranteed-low'' then (Some low, Some low)
          else (Some LOW_REQUEST_MILLICORES, Some low)))))"

definition policies_of :: "string \<Rightarrow> string list" where
  "policies_of condition = (if condition = ''solo'' then SOLO_POLICIES else CONTENTION_POLICIES)"

definition make_cell :: "string \<times> string \<times> string \<Rightarrow> cell res" where
  "make_cell t = (case t of (condition, workload, policy) \<Rightarrow>
     rbind (resources_for workload policy) (\<lambda>(request, limit).
     Inr \<lparr> cell_id = condition @ ''-'' @ workload @ ''-'' @ policy, cell_workload = workload,
           cell_policy = policy, cell_condition = condition, request_millicores = request,
           limit_millicores_of = limit \<rparr>))"

definition cells :: "cell list res" where
  "cells = rmap make_cell (concat (map (\<lambda>condition. concat (map (\<lambda>workload.
     map (\<lambda>policy. (condition, workload, policy)) (policies_of condition)) WORKLOADS)) CONDITIONS))"

definition CELLS :: "cell list" where
  "CELLS = (case cells of Inr cs \<Rightarrow> cs | Inl _ \<Rightarrow> [])"

section \<open>The schedule\<close>

fun blocks_loop :: "('g \<Rightarrow> nat \<Rightarrow> nat \<times> 'g) \<Rightarrow> nat \<Rightarrow> 'g \<Rightarrow> cell list list" where
  "blocks_loop randbelow 0 g = []"
| "blocks_loop randbelow (Suc n) g =
     (case sample randbelow CELLS g of (block, g') \<Rightarrow> block # blocks_loop randbelow n g')"

definition schedule ::
  "(int \<Rightarrow> 'g) \<Rightarrow> ('g \<Rightarrow> nat \<Rightarrow> nat \<times> 'g) \<Rightarrow> int \<Rightarrow> int \<Rightarrow> cell list list res" where
  "schedule random randbelow blocks seed =
     require (1 \<le> blocks) ValueError ''blocks must be at least one'' (
     Inr (blocks_loop randbelow (nat blocks) (random seed)))"

section \<open>Validation\<close>

definition opt_negative :: "int option \<Rightarrow> bool" where
  "opt_negative v = (case v of Some x \<Rightarrow> x < 0 | None \<Rightarrow> False)"

definition opt_exceeds :: "int option \<Rightarrow> int option \<Rightarrow> bool" where
  "opt_exceeds a b = (case (a, b) of (Some x, Some y) \<Rightarrow> y < x | _ \<Rightarrow> False)"

definition cell_errors :: "cell \<Rightarrow> string list" where
  "cell_errors c =
     (if cell_workload c \<notin> set WORKLOADS then [cell_id c @ '': unknown workload''] else []) @
     (if cell_policy c \<notin> set POLICIES then [cell_id c @ '': unknown policy''] else []) @
     (if cell_condition c \<notin> set CONDITIONS then [cell_id c @ '': unknown condition''] else []) @
     (if cell_policy c \<notin> set (if cell_condition c = ''solo'' then SOLO_POLICIES else CONTENTION_POLICIES)
      then [cell_id c @ '': policy is not valid for condition''] else []) @
     (if opt_negative (request_millicores c) then [cell_id c @ '': negative request''] else []) @
     (if opt_negative (limit_millicores_of c) then [cell_id c @ '': negative limit''] else []) @
     (if opt_exceeds (request_millicores c) (limit_millicores_of c)
      then [cell_id c @ '': request exceeds limit''] else [])"

definition count_error :: "cell list \<Rightarrow> string \<times> nat \<Rightarrow> string list" where
  "count_error cs e = (case e of (condition, expected) \<Rightarrow>
     let n = length (filter (\<lambda>c. cell_condition c = condition) cs) in
     if n \<noteq> expected
     then [condition @ '' must contain '' @ show_nat expected @ '' cells, found '' @ show_nat n] else [])"

definition validate_design :: "cell list \<Rightarrow> string list" where
  "validate_design cs =
     (if length cs \<noteq> 36 then [''expected 36 cells, found '' @ show_nat (length cs)] else []) @
     (if \<not> distinct (map cell_id cs) then [''cell identifiers are not unique''] else []) @
     concat (map (count_error cs) [(''solo'', 16), (''contention'', 20)]) @
     concat (map cell_errors cs)"

section \<open>The command\<close>

record design_args =
  arg_validate :: bool
  arg_blocks :: int
  arg_seed :: int
  arg_json :: bool

definition opt_val :: "int option \<Rightarrow> pyval" where
  "opt_val v = (case v of Some i \<Rightarrow> VInt i | None \<Rightarrow> VNone)"

text \<open>\<open>asdict(cell)\<close>.\<close>

definition cell_val :: "cell \<Rightarrow> pyval" where
  "cell_val c = VDict [(''cell_id'', VStr (cell_id c)), (''workload'', VStr (cell_workload c)),
     (''policy'', VStr (cell_policy c)), (''condition'', VStr (cell_condition c)),
     (''request_millicores'', opt_val (request_millicores c)),
     (''limit_millicores'', opt_val (limit_millicores_of c))]"

definition opt_text :: "int option \<Rightarrow> string" where
  "opt_text v = (case v of None \<Rightarrow> ''none'' | Some i \<Rightarrow> show_int i)"

definition plan_line :: "nat \<Rightarrow> cell \<Rightarrow> string" where
  "plan_line index c = ''block-'' @ zero_pad 2 (show_nat index) @ '' '' @ cell_id c @ '' request='' @
     opt_text (request_millicores c) @ ''m limit='' @ opt_text (limit_millicores_of c) @ ''m''"

definition validate_output :: "bool \<Rightarrow> string list \<Rightarrow> string list" where
  "validate_output json errors =
     (if json then [dumps default_style (sort_keys (VDict
         [(''valid'', VBool (errors = [])), (''errors'', VList (map VStr errors)),
          (''cell_count'', VInt (int (length CELLS)))]))]
      else if errors \<noteq> [] then [''INVALID'', join nl errors] else [''VALID: 36 cells''])"

definition plan_output :: "bool \<Rightarrow> int \<Rightarrow> cell list list \<Rightarrow> string list" where
  "plan_output json seed blocks =
     (if json then [dumps default_style (sort_keys (VDict
         [(''seed'', VInt seed), (''blocks'', VList (map (\<lambda>(index, block).
            VDict [(''block'', VInt (int index)), (''cells'', VList (map cell_val block))])
            (enumerate 1 blocks)))]))]
      else concat (map (\<lambda>(index, block). map (plan_line index) block) (enumerate 1 blocks)))"

text \<open>The exit status and the lines printed; \<open>ValueError\<close> becomes \<open>SystemExit\<close>.\<close>

definition design_main ::
  "(int \<Rightarrow> 'g) \<Rightarrow> ('g \<Rightarrow> nat \<Rightarrow> nat \<times> 'g) \<Rightarrow> design_args \<Rightarrow> (nat \<times> string list) res" where
  "design_main random randbelow args =
     (let errors = validate_design CELLS in
      if arg_validate args
      then Inr (if errors = [] then 0 else 1, validate_output (arg_json args) errors)
      else case schedule random randbelow (arg_blocks args) (arg_seed args) of
        Inl e \<Rightarrow> if exn_of e = ValueError then raise SystemExit (msg_of e) else Inl e
      | Inr blocks \<Rightarrow> Inr (0, plan_output (arg_json args) (arg_seed args) blocks))"

section \<open>Laws\<close>

lemma blocks_loop_mset:
  assumes "draws_below randbelow"
  shows "length (blocks_loop randbelow n g) = n
    \<and> list_all (\<lambda>b. mset b = mset CELLS) (blocks_loop randbelow n g)"
proof (induction n arbitrary: g)
  case (Suc n)
  obtain b g' where b: "sample randbelow CELLS g = (b, g')" by fastforce
  then have "mset b = mset CELLS" using sample_mset [OF assms, of CELLS g] by simp
  then show ?case using Suc [of g'] b by simp
qed simp

lemma CELLS_valid: "validate_design CELLS = []"
  by code_simp

section \<open>Properties\<close>

text \<open>
  C16: every complete block measures every cell exactly once. Whatever the seed and the draws,
  a schedule of at least one block is produced, has the requested number of blocks, and each of
  them is a permutation of the 36 cells.
\<close>

theorem schedule_permutes_cells:
  assumes "draws_below randbelow" "1 \<le> blocks"
  shows "\<exists>bs. schedule random randbelow blocks seed = Inr bs \<and> length bs = nat blocks
    \<and> list_all (\<lambda>b. mset b = mset CELLS \<and> length b = 36 \<and> distinct (map cell_id b)) bs"
proof -
  have len: "length CELLS = 36" and d: "distinct (map cell_id CELLS)"
    using CELLS_valid by (simp_all add: validate_design_def split: if_splits)
  let ?bs = "blocks_loop randbelow (nat blocks) (random seed)"
  have "length b = 36 \<and> distinct (map cell_id b)" if "mset b = mset CELLS" for b
  proof
    show "length b = 36" using that len by (metis size_mset)
    have "mset (map cell_id b) = mset (map cell_id CELLS)" using that by simp
    then show "distinct (map cell_id b)" using d mset_eq_imp_distinct_iff by blast
  qed
  then show ?thesis
    using blocks_loop_mset [OF assms(1), of "nat blocks" "random seed"] assms(2)
    by (simp add: schedule_def list_all_iff)
qed

theorem schedule_permutes_cells_witness:
  "\<exists>bs. schedule nat (\<lambda>g n. (g mod n, Suc g)) 2 7 = Inr bs \<and> length bs = nat 2
    \<and> list_all (\<lambda>b. mset b = mset CELLS \<and> length b = 36 \<and> distinct (map cell_id b)) bs"
  by (rule schedule_permutes_cells) (simp_all add: draws_below_def)

text \<open>
  A design without violations has the planned shape: 36 cells with distinct identifiers, 16
  measured alone and 20 under contention, every policy admissible for its condition, and no
  request above its limit. The frozen cells are such a design.
\<close>

theorem validate_design_sound:
  assumes "validate_design cs = []"
  shows "length cs = 36 \<and> distinct (map cell_id cs)
    \<and> length (filter (\<lambda>c. cell_condition c = ''solo'') cs) = 16
    \<and> length (filter (\<lambda>c. cell_condition c = ''contention'') cs) = 20
    \<and> list_all (\<lambda>c. cell_workload c \<in> set WORKLOADS \<and> cell_policy c \<in> set (policies_of (cell_condition c))
        \<and> \<not> opt_exceeds (request_millicores c) (limit_millicores_of c)) cs"
  using assms
  by (auto simp: validate_design_def count_error_def cell_errors_def policies_of_def Let_def
      list_all_iff split: if_splits)

theorem validate_design_sound_witness:
  "length CELLS = 36 \<and> distinct (map cell_id CELLS)
    \<and> list_all (\<lambda>c. \<not> opt_exceeds (request_millicores c) (limit_millicores_of c)) CELLS"
  using validate_design_sound [OF CELLS_valid] by (auto simp: list_all_iff)

end
