(* ===== verification/Py_Csv.thy ===== *)
theory Py_Csv
  imports Py_Value
begin

text \<open>
  The \<open>csv\<close> module with its default dialect, on the text of a file opened with \<open>newline=""\<close>: the
  reader as the state machine of the standard library and \<open>csv.DictReader\<close> on top of it. The limit on
  the length of a field is left out.
\<close>

section \<open>The reader\<close>

text \<open>A file yields its lines with their ends, which are \<open>LF\<close>, \<open>CR\<close> or both.\<close>

abbreviation cr :: char where "cr \<equiv> CHR 0x0D"
abbreviation lf :: char where "lf \<equiv> CHR 0x0A"
abbreviation quot :: char where "quot \<equiv> CHR 0x22"

fun file_lines :: "string \<Rightarrow> string \<Rightarrow> string list" where
  "file_lines acc [] = (if acc = [] then [] else [acc])"
| "file_lines acc (c # d # s) =
     (if c = cr \<and> d = lf then (acc @ [c, d]) # file_lines [] s
      else if c = cr \<or> c = lf then (acc @ [c]) # file_lines [] (d # s)
      else file_lines (acc @ [c]) (d # s))"
| "file_lines acc [c] = [acc @ [c]]"

datatype csv_mode = StartRecord | StartField | InField | InQuoted | QuoteInQuoted | EatCrNl

record csv_state =
  csv_mode :: csv_mode
  csv_field :: string
  csv_fields :: "string list"
  csv_rows :: "string list list"

definition csv_init :: csv_state where
  "csv_init = \<lparr> csv_mode = StartRecord, csv_field = [], csv_fields = [], csv_rows = [] \<rparr>"

definition save_field :: "csv_mode \<Rightarrow> csv_state \<Rightarrow> csv_state" where
  "save_field m st = st\<lparr> csv_mode := m, csv_field := [], csv_fields := csv_fields st @ [csv_field st] \<rparr>"

definition add_char :: "csv_mode \<Rightarrow> char \<Rightarrow> csv_state \<Rightarrow> csv_state" where
  "add_char m c st = st\<lparr> csv_mode := m, csv_field := csv_field st @ [c] \<rparr>"

definition is_eol :: "char \<Rightarrow> bool" where
  "is_eol c \<longleftrightarrow> c = cr \<or> c = lf"

text \<open>
  One character. A character after the end of a line is an error of the module; a line of a file
  has none.
\<close>

definition field_char :: "char \<Rightarrow> csv_state \<Rightarrow> csv_state" where
  "field_char c st =
     (if is_eol c then save_field EatCrNl st
      else if c = quot then st\<lparr> csv_mode := InQuoted \<rparr>
      else if c = CHR '','' then save_field StartField st
      else add_char InField c st)"

definition csv_char :: "csv_state \<Rightarrow> char \<Rightarrow> csv_state" where
  "csv_char st c = (case csv_mode st of
     StartRecord \<Rightarrow> if is_eol c then st\<lparr> csv_mode := EatCrNl \<rparr> else field_char c st
   | StartField \<Rightarrow> field_char c st
   | InField \<Rightarrow>
       if is_eol c then save_field EatCrNl st
       else if c = CHR '','' then save_field StartField st
       else add_char InField c st
   | InQuoted \<Rightarrow> if c = quot then st\<lparr> csv_mode := QuoteInQuoted \<rparr> else add_char InQuoted c st
   | QuoteInQuoted \<Rightarrow>
       if c = quot then add_char InQuoted c st
       else if c = CHR '','' then save_field StartField st
       else if is_eol c then save_field EatCrNl st
       else add_char InField c st
   | EatCrNl \<Rightarrow> st)"

text \<open>The end of a line ends the record unless a quoted field is open.\<close>

definition end_record :: "csv_state \<Rightarrow> csv_state" where
  "end_record st = st\<lparr> csv_mode := StartRecord, csv_fields := [], csv_rows := csv_rows st @ [csv_fields st] \<rparr>"

definition csv_eol :: "csv_state \<Rightarrow> csv_state" where
  "csv_eol st = (case csv_mode st of
     InQuoted \<Rightarrow> st
   | m \<Rightarrow> if m = StartRecord \<or> m = EatCrNl then end_record st else end_record (save_field StartRecord st))"

definition csv_line :: "csv_state \<Rightarrow> string \<Rightarrow> csv_state" where
  "csv_line st line = csv_eol (foldl csv_char st line)"

definition csv_reader :: "string \<Rightarrow> string list list" where
  "csv_reader s =
     (let st = foldl csv_line csv_init (file_lines [] s)
      in if csv_mode st = InQuoted then csv_rows (end_record (save_field StartRecord st)) else csv_rows st)"

text \<open>
  \<open>csv.DictReader\<close>: the first row names the fields, empty rows are skipped, a short row is filled
  with \<open>None\<close>. The surplus of a long row is kept under the key \<open>None\<close>, which no caller looks up.
\<close>

definition row_dict :: "string list \<Rightarrow> string list \<Rightarrow> pydict" where
  "row_dict names row = foldl (\<lambda>d (k, v). dset d k v) []
     (zip names (map VStr row @ replicate (length names - length row) VNone))"

definition dict_reader :: "string \<Rightarrow> string list option \<times> pydict list" where
  "dict_reader s = (case csv_reader s of
     [] \<Rightarrow> (None, [])
   | names # rows \<Rightarrow> (Some names, map (row_dict names) (filter (\<lambda>r. r \<noteq> []) rows)))"

text \<open>Quotes, doubled quotes, a line break inside quotes, a blank line and a last line without an end.\<close>

lemma csv_reader_example:
  "csv_reader (''a,b'' @ [cr, lf] @ ''1,'' @ [quot] @ ''x,'' @ [quot, quot, lf] @ ''y'' @ [quot, lf, lf] @ '',z'')
     = [[''a'', ''b''], [''1'', ''x,'' @ [quot, lf] @ ''y''], [], [[], ''z'']]"
  by code_simp

end
