(* ===== verification/Policies.thy ===== *)
theory Policies
  imports Design Py_Csv Py_Files
begin

text \<open>
  The freeze of the CPU policies from pilot observations
  (\<open>cpu-limits/experiments/freeze_policies.py\<close>): the samples read from the two CSV files of a pilot,
  the choice of the \<open>fit\<close> and \<open>low\<close> values of a workload, the record of the choice and the command.
\<close>

section \<open>Samples\<close>

definition THROTTLE_MIN :: pyfloat where "THROTTLE_MIN = to_float (10 / 100)"
definition THROTTLE_MAX :: pyfloat where "THROTTLE_MAX = to_float (40 / 100)"
definition THROTTLE_TARGET :: pyfloat where "THROTTLE_TARGET = Fin (1 / 4)"

record pilot_sample =
  ps_block_id :: string
  ps_cell_id :: string
  ps_level :: string
  ps_workload :: string
  ps_policy :: string
  quota_us :: "int option"
  period_us :: "int option"
  periods :: int
  throttled_periods :: int

definition throttled_ratio :: "pilot_sample \<Rightarrow> pyfloat res" where
  "throttled_ratio s =
     require (0 < periods s) ValueError ''nr_periods must be positive for calibration'' (
     require (0 \<le> throttled_periods s \<and> throttled_periods s \<le> periods s) ValueError
       ''nr_throttled must be within nr_periods'' (
     int_truediv (throttled_periods s) (periods s)))"

text \<open>\<open>round(x)\<close> of a finite float.\<close>

definition round_int :: "pyfloat \<Rightarrow> int res" where
  "round_int x = (case x of Fin a \<Rightarrow> Inr (round_even a)
     | NaN \<Rightarrow> raise ValueError ''cannot convert float NaN to integer''
     | _ \<Rightarrow> raise OverflowError ''cannot convert float infinity to integer'')"

definition millicores :: "pilot_sample \<Rightarrow> int option res" where
  "millicores s = (case (quota_us s, period_us s) of
     (Some q, Some p) \<Rightarrow>
       if p \<le> 0 then Inr None
       else require (0 < q) ValueError ''cpu.max quota must be positive'' (
         rbind (int_truediv (1000 * q) p) (\<lambda>x. rbind (round_int x) (\<lambda>m. Inr (Some m))))
   | _ \<Rightarrow> Inr None)"

record frozen_policy =
  fp_workload :: string
  fit_millicores :: int
  low_millicores :: int
  fp_status :: string
  fp_evidence :: "pydict list"
  fp_limitation :: "string option"

section \<open>Reading\<close>

definition required_cell :: "pydict \<Rightarrow> string \<Rightarrow> string res" where
  "required_cell row key = (case dget_or row key (VStr []) of
     VStr v \<Rightarrow> require (strip v \<noteq> []) ValueError (''cgroups CSV row is missing '' @ key) (Inr (strip v))
   | _ \<Rightarrow> raise AttributeError ''NoneType object has no attribute strip'')"

definition as_int_cell :: "string \<Rightarrow> string \<Rightarrow> int res" where
  "as_int_cell value key =
     as_some (py_int value) ValueError (key @ '' must be an integer'') (\<lambda>result.
     require (0 \<le> result) ValueError (key @ '' must not be negative'') (Inr result))"

type_synonym cell_key = "string \<times> string"
type_synonym value_key = "string \<times> string \<times> string \<times> string"

definition block_row :: "(cell_key \<times> string \<times> string) list \<Rightarrow> pydict \<Rightarrow> (cell_key \<times> string \<times> string) list res" where
  "block_row result row =
     (if dget row ''status'' \<noteq> VStr ''complete'' then Inr result
      else rbind (required_cell row ''block_id'') (\<lambda>block.
        rbind (required_cell row ''cell_id'') (\<lambda>cid.
        rbind (required_cell row ''workload'') (\<lambda>workload.
        rbind (required_cell row ''policy'') (\<lambda>policy.
        require (workload \<in> set WORKLOADS) ValueError (''blocks CSV has unknown workload: '' @ workload) (
        Inr (AList.update (block, cid) (workload, policy) result)))))))"

definition workloads_by_cell :: "fs \<Rightarrow> path \<Rightarrow> (cell_key \<times> string \<times> string) list res" where
  "workloads_by_cell fs blocks_path =
     rbind (read_text fs blocks_path) (\<lambda>txt. case dict_reader txt of (fieldnames, rows) \<Rightarrow>
     require (case fieldnames of None \<Rightarrow> False
       | Some names \<Rightarrow> list_all (\<lambda>n. n \<in> set names) [''block_id'', ''cell_id'', ''workload'', ''policy'', ''status''])
       ValueError ''blocks CSV is missing required columns'' (
     rfold block_row [] rows))"

definition LEVELS :: "string list" where
  "LEVELS = [''container_leaf'', ''container_scope'', ''pod_slice'']"

text \<open>Whether a row of counters is used, by its key and its window.\<close>

definition wanted_row :: "string \<Rightarrow> pyval \<Rightarrow> bool" where
  "wanted_row key window =
     (if key \<in> {''cpu.stat.nr_periods'', ''cpu.stat.nr_throttled''} then window = VStr ''measurement_delta''
      else if key \<in> {''cpu.max.quota'', ''cpu.max.period''} then window = VStr ''start'' \<or> window = VStr ''end''
      else False)"

definition value_row ::
  "(cell_key \<times> string \<times> string) list \<Rightarrow> (value_key \<times> string) list \<Rightarrow> pydict \<Rightarrow> (value_key \<times> string) list res" where
  "value_row workloads values row =
     (case (dget_or row ''block_id'' (VStr []), dget_or row ''cell_id'' (VStr []), dget row ''level'',
            dget_or row ''key'' (VStr [])) of
       (VStr block, VStr cid, VStr level, VStr key) \<Rightarrow>
         if (block, cid) \<notin> set (map fst workloads) \<or> level \<notin> set LEVELS
           \<or> \<not> wanted_row key (dget row ''window'') then Inr values
         else rbind (required_cell row ''value'') (\<lambda>v.
           Inr (AList.update (block, cid, level, key) v values))
     | _ \<Rightarrow> Inr values)"

definition value_at :: "(value_key \<times> string) list \<Rightarrow> cell_key \<Rightarrow> string \<Rightarrow> string \<Rightarrow> string" where
  "value_at values cell level key = (case map_of values (fst cell, snd cell, level, key) of
     Some v \<Rightarrow> v | None \<Rightarrow> [])"

definition level_sample ::
  "(value_key \<times> string) list \<Rightarrow> cell_key \<times> string \<times> string \<Rightarrow> string \<Rightarrow> pilot_sample res" where
  "level_sample values = (\<lambda>(cell, workload, policy) level.
     let quota_text = value_at values cell level ''cpu.max.quota'';
         period_text = value_at values cell level ''cpu.max.period'' in
     rbind (if quota_text = ''max'' then Inr None
            else rbind (as_int_cell quota_text ''cpu.max.quota'') (\<lambda>q. Inr (Some q))) (\<lambda>quota.
     rbind (if period_text = [] then Inr None
            else rbind (as_int_cell period_text ''cpu.max.period'') (\<lambda>p. Inr (Some p))) (\<lambda>period.
     rbind (as_int_cell (value_at values cell level ''cpu.stat.nr_periods'') ''cpu.stat.nr_periods'') (\<lambda>n.
     rbind (as_int_cell (value_at values cell level ''cpu.stat.nr_throttled'') ''cpu.stat.nr_throttled'') (\<lambda>t.
     Inr \<lparr> ps_block_id = fst cell, ps_cell_id = snd cell, ps_level = level, ps_workload = workload,
       ps_policy = policy, quota_us = quota, period_us = period, periods = n, throttled_periods = t \<rparr>)))))"

text \<open>The loop over the levels of a cell, ended by the first level with both counters.\<close>

definition cell_samples ::
  "(value_key \<times> string) list \<Rightarrow> cell_key \<times> string \<times> string \<Rightarrow> pilot_sample list res" where
  "cell_samples values cell =
     (case find (\<lambda>level. value_at values (fst cell) level ''cpu.stat.nr_periods'' \<noteq> []
        \<and> value_at values (fst cell) level ''cpu.stat.nr_throttled'' \<noteq> []) LEVELS of
       None \<Rightarrow> Inr []
     | Some level \<Rightarrow> rbind (level_sample values cell level) (\<lambda>s. Inr [s]))"

definition read_pilot_samples :: "fs \<Rightarrow> path \<Rightarrow> path \<Rightarrow> pilot_sample list res" where
  "read_pilot_samples fs cgroups_path blocks_path =
     rbind (workloads_by_cell fs blocks_path) (\<lambda>workloads.
     rbind (read_text fs cgroups_path) (\<lambda>txt. case dict_reader txt of (fieldnames, rows) \<Rightarrow>
     require (case fieldnames of None \<Rightarrow> False
       | Some names \<Rightarrow> list_all (\<lambda>n. n \<in> set names) [''block_id'', ''cell_id'', ''window'', ''level'', ''key'', ''value''])
       ValueError ''cgroups CSV is missing required columns'' (
     rbind (rfold (value_row workloads) [] rows) (\<lambda>values.
     rbind (rmap (cell_samples values) workloads) (\<lambda>samples. Inr (concat samples))))))"

section \<open>The choice\<close>

definition in_band :: "pyfloat \<Rightarrow> bool" where
  "in_band r \<longleftrightarrow> f_le THROTTLE_MIN r \<and> f_le r THROTTLE_MAX"

definition opt_int :: "int option \<Rightarrow> pyval" where
  "opt_int m = (case m of None \<Rightarrow> VNone | Some i \<Rightarrow> VInt i)"

definition evidence_head :: "pilot_sample \<Rightarrow> pydict" where
  "evidence_head s = [(''block_id'', VStr (ps_block_id s)), (''cell_id'', VStr (ps_cell_id s)),
     (''level'', VStr (ps_level s)), (''policy'', VStr (ps_policy s))]"

definition evidence_of :: "pilot_sample \<Rightarrow> pydict res" where
  "evidence_of s =
     (case rbind (throttled_ratio s) (\<lambda>ratio. rbind (millicores s) (\<lambda>m. Inr (ratio, m))) of
       Inr (ratio, m) \<Rightarrow> Inr (evidence_head s @ [(''quota_millicores'', opt_int m),
         (''throttled_period_ratio'', VFloat ratio), (''in_target_band'', VBool (in_band ratio))])
     | Inl e \<Rightarrow> if exn_of e = ValueError
         then Inr (evidence_head s @ [(''status'', VStr ''invalid''), (''reason'', VStr (msg_of e))])
         else Inl e)"

text \<open>The millicores a \<open>fit\<close> sample contributes; zero does not count.\<close>

definition fit_candidate :: "pilot_sample \<Rightarrow> int list res" where
  "fit_candidate s = (if ps_policy s \<noteq> ''fit'' then Inr []
     else rbind (millicores s) (\<lambda>m. Inr (case m of Some v \<Rightarrow> if v \<noteq> 0 then [v] else [] | None \<Rightarrow> [])))"

definition low_candidate :: "pilot_sample \<Rightarrow> bool res" where
  "low_candidate s = rbind (millicores s) (\<lambda>m.
     if m = None then Inr False else rbind (throttled_ratio s) (\<lambda>r. Inr (in_band r)))"

definition sample_key :: "pilot_sample \<Rightarrow> (pyfloat \<times> int) res" where
  "sample_key s = rbind (throttled_ratio s) (\<lambda>r. rbind (millicores s) (\<lambda>m.
     Inr (f_abs (f_sub r THROTTLE_TARGET), case m of Some v \<Rightarrow> v | None \<Rightarrow> 0)))"

definition key_lt :: "pyfloat \<times> int \<Rightarrow> pyfloat \<times> int \<Rightarrow> bool" where
  "key_lt k l = (if f_eq (fst k) (fst l) then snd k < snd l else f_lt (fst k) (fst l))"

text \<open>\<open>min(xs, key=...)\<close>: the first element with the least key.\<close>

definition min_key :: "('k \<Rightarrow> 'k \<Rightarrow> bool) \<Rightarrow> 'k \<times> 'a \<Rightarrow> ('k \<times> 'a) list \<Rightarrow> 'k \<times> 'a" where
  "min_key lt x xs = foldl (\<lambda>best y. if lt (fst y) (fst best) then y else best) x xs"

definition FAIL_LIMITATION :: string where
  "FAIL_LIMITATION = ''pilot calibration did not produce a finite quota with a 10 to 40 percent throttled-period ratio; approved defaults remain in use''"

definition fit_value :: "int \<Rightarrow> int list \<Rightarrow> int" where
  "fit_value dflt vs = (case vs of [] \<Rightarrow> dflt | v # vs \<Rightarrow> foldl max v vs)"

definition decide_policy ::
  "string \<Rightarrow> int \<times> int \<Rightarrow> int \<Rightarrow> pydict list \<Rightarrow> ((pyfloat \<times> int) \<times> pilot_sample) list \<Rightarrow> frozen_policy res" where
  "decide_policy workload defaults fit evidence keyed = (case keyed of
       [] \<Rightarrow> Inr \<lparr> fp_workload = workload, fit_millicores = fst defaults, low_millicores = snd defaults,
               fp_status = ''FAIL'', fp_evidence = evidence, fp_limitation = Some FAIL_LIMITATION \<rparr>
     | k # ks \<Rightarrow>
         rbind (millicores (snd (min_key key_lt k ks))) (\<lambda>chosen.
         as_some chosen AssertionError [] (\<lambda>low.
         Inr \<lparr> fp_workload = workload, fit_millicores = fit, low_millicores = low,
           fp_status = ''PASS'', fp_evidence = evidence, fp_limitation = None \<rparr>)))"

definition keyed_samples :: "pilot_sample list \<Rightarrow> ((pyfloat \<times> int) \<times> pilot_sample) list res" where
  "keyed_samples low_candidates = rmap (\<lambda>s. rbind (sample_key s) (\<lambda>k. Inr (k, s))) low_candidates"

definition freeze_values :: "string \<Rightarrow> pilot_sample list \<Rightarrow> frozen_policy res" where
  "freeze_values workload samples =
     require (workload \<in> set WORKLOADS) ValueError (''unknown workload: '' @ workload) (
     as_some (map_of CPU_VALUES workload) KeyError workload (\<lambda>defaults.
     let sample_list = filter (\<lambda>s. ps_workload s = workload) samples in
     rbind (rmap fit_candidate sample_list) (\<lambda>fits.
     rbind (rmap evidence_of sample_list) (\<lambda>evidence.
     rbind (rfilter low_candidate sample_list) (\<lambda>low_candidates.
     rbind (keyed_samples low_candidates) (\<lambda>keyed.
     decide_policy workload defaults (fit_value (fst defaults) (concat fits)) evidence keyed))))))"

section \<open>The record and the command\<close>

definition policy_val :: "frozen_policy \<Rightarrow> pyval" where
  "policy_val p = VDict [(''workload'', VStr (fp_workload p)), (''fit_millicores'', VInt (fit_millicores p)),
     (''low_millicores'', VInt (low_millicores p)), (''status'', VStr (fp_status p)),
     (''evidence'', VList (map VDict (fp_evidence p))),
     (''limitation'', case fp_limitation p of None \<Rightarrow> VNone | Some t \<Rightarrow> VStr t)]"

definition policies_payload :: "frozen_policy list \<Rightarrow> pyval" where
  "policies_payload policies = VDict [(''protocol'', VStr ''cpu-limits-v1''),
     (''status'', VStr (if list_all (\<lambda>p. fp_status p = ''PASS'') policies then ''PASS'' else ''FAIL'')),
     (''throttled_period_ratio_target'', VDict [(''minimum'', VFloat THROTTLE_MIN), (''maximum'', VFloat THROTTLE_MAX)]),
     (''policies'', VList (map policy_val policies))]"

definition write_policies :: "path \<Rightarrow> frozen_policy list \<Rightarrow> unit io" where
  "write_policies p policies =
     io_then (io_do (mkdir_p (butlast p)))
     (write_text p (dumps indent2_style (sort_keys (policies_payload policies)) @ nl))"

definition failed_policy :: "string \<Rightarrow> string \<Rightarrow> frozen_policy res" where
  "failed_policy error workload = as_some (map_of CPU_VALUES workload) KeyError workload (\<lambda>(fit, low).
     Inr \<lparr> fp_workload = workload, fit_millicores = fit, low_millicores = low, fp_status = ''FAIL'',
       fp_evidence = [], fp_limitation = Some (''pilot calibration input failed: '' @ error) \<rparr>)"

record freeze_args =
  data_root :: path
  arg_cgroups :: "path option"
  arg_blocks :: "path option"
  arg_output :: "path option"

definition or_path :: "path option \<Rightarrow> path \<Rightarrow> path" where
  "or_path p q = (case p of Some r \<Rightarrow> r | None \<Rightarrow> q)"

definition input_error :: "exn \<Rightarrow> bool" where
  "input_error e \<longleftrightarrow> is_os_error e \<or> e = ValueError \<or> e = UnicodeDecodeError"

definition pilot_policies :: "fs \<Rightarrow> path \<Rightarrow> path \<Rightarrow> frozen_policy list res" where
  "pilot_policies fs cgroups blocks =
     (case rbind (read_pilot_samples fs cgroups blocks) (\<lambda>samples.
        rmap (\<lambda>workload. freeze_values workload samples) WORKLOADS) of
       Inr policies \<Rightarrow> Inr policies
     | Inl e \<Rightarrow> if input_error (exn_of e) then rmap (failed_policy (msg_of e)) WORKLOADS else Inl e)"

definition freeze_policies_main :: "freeze_args \<Rightarrow> int io" where
  "freeze_policies_main args =
     io_bind (io_read (\<lambda>fs. pilot_policies fs
       (or_path (arg_cgroups args) (data_root args @ [''pilot'', ''cgroups.csv'']))
       (or_path (arg_blocks args) (data_root args @ [''pilot'', ''blocks.csv''])))) (\<lambda>policies.
     io_then (write_policies (or_path (arg_output args) (data_root args @ [''policies.json''])) policies)
     (io_return (if list_all (\<lambda>p. fp_status p = ''PASS'') policies then 0 else 1)))"

section \<open>Laws of the choice\<close>

definition usable_low :: "pilot_sample \<Rightarrow> bool" where
  "usable_low s \<longleftrightarrow> low_candidate s = Inr True"

lemma low_candidate_True:
  "low_candidate s = Inr True \<longleftrightarrow> (\<exists>m r. millicores s = Inr (Some m) \<and> throttled_ratio s = Inr r \<and> in_band r)"
  by (auto simp: low_candidate_def split: if_splits)

lemma low_candidate_ok: "is_ok (low_candidate s) \<longleftrightarrow>
    (\<exists>m. millicores s = Inr m \<and> (m \<noteq> None \<longrightarrow> is_ok (throttled_ratio s)))"
  by (cases "millicores s"; cases "throttled_ratio s") (auto simp: low_candidate_def)

lemma throttled_ratio_eq:
  "throttled_ratio s = (if 0 < periods s \<and> 0 \<le> throttled_periods s \<and> throttled_periods s \<le> periods s
     then Inr (Fin (fl (of_int (throttled_periods s) / of_int (periods s))))
     else raise ValueError (if 0 < periods s then ''nr_throttled must be within nr_periods''
       else ''nr_periods must be positive for calibration''))"
  by (auto simp: throttled_ratio_def int_truediv_share require_def)

lemma min_key_mem: "min_key lt x xs \<in> set (x # xs)"
  unfolding min_key_def by (induction xs arbitrary: x) auto

lemma key_lt_asym: "key_lt a b \<Longrightarrow> \<not> key_lt b a"
  by (cases "fst a"; cases "fst b") (auto simp: key_lt_def f_eq_def split: if_splits)

lemma key_lt_negtrans:
  assumes "fst a \<noteq> NaN" "fst b \<noteq> NaN" "fst c \<noteq> NaN" "\<not> key_lt a b" "\<not> key_lt b c"
  shows "\<not> key_lt a c"
  using assms by (cases "fst a"; cases "fst b"; cases "fst c") (auto simp: key_lt_def f_eq_def split: if_splits)

lemma min_key_least:
  assumes "list_all (\<lambda>y. fst (fst y) \<noteq> NaN) (x # xs)" "y \<in> set (x # xs)"
  shows "\<not> key_lt (fst y) (fst (min_key key_lt x xs))"
  using assms
proof (induction xs arbitrary: x y)
  case Nil
  then show ?case using key_lt_asym [of "fst x" "fst x"] by (auto simp: min_key_def)
next
  case (Cons z xs)
  define b where "b = (if key_lt (fst z) (fst x) then z else x)"
  let ?r = "min_key key_lt b xs"
  have r: "min_key key_lt x (z # xs) = ?r" by (simp add: min_key_def b_def)
  have all: "list_all (\<lambda>y. fst (fst y) \<noteq> NaN) (b # xs)" using Cons.prems(1) by (simp add: b_def)
  then have n: "fst (fst ?r) \<noteq> NaN" using min_key_mem [of key_lt b xs] by (auto simp: list_all_iff)
  have IH: "\<not> key_lt (fst w) (fst ?r)" if "w \<in> set (b # xs)" for w using Cons.IH [OF all that] .
  have "\<not> key_lt (fst w) (fst b)" if "w \<in> {x, z}" for w
    using that key_lt_asym [of "fst x" "fst z"] key_lt_asym [of "fst w" "fst w"] by (auto simp: b_def)
  then have xz: "\<not> key_lt (fst w) (fst ?r)" if "w \<in> {x, z}" for w
    using key_lt_negtrans [of "fst w" "fst b" "fst ?r"] that IH [of b] n all Cons.prems(1) by auto
  show ?case using xz [of y] IH [of y] Cons.prems(2) unfolding r by simp blast
qed

lemma sample_key_number: "sample_key s = Inr k \<Longrightarrow> fst k \<noteq> NaN"
proof -
  assume "sample_key s = Inr k"
  then obtain r m where "throttled_ratio s = Inr r" and k: "fst k = f_abs (f_sub r THROTTLE_TARGET)"
    by (auto simp: sample_key_def)
  then obtain a where "r = Fin a"
    by (auto simp: throttled_ratio_eq split: if_splits)
  then show ?thesis using k
    by (auto simp: f_abs_def f_sub_def THROTTLE_TARGET_def to_float_def Let_def split: if_splits)
qed

text \<open>A choice fails on exactly the samples that have a quota and no valid ratio, or no valid quota.\<close>

lemma fit_candidate_ok: "is_ok (low_candidate s) \<Longrightarrow> is_ok (fit_candidate s)"
  by (cases "millicores s") (auto simp: low_candidate_ok fit_candidate_def)

lemma evidence_of_ok: "is_ok (low_candidate s) \<Longrightarrow> is_ok (evidence_of s)"
proof -
  assume "is_ok (low_candidate s)"
  then obtain m where m: "millicores s = Inr m" by (auto simp: low_candidate_ok)
  show ?thesis
  proof (cases "throttled_ratio s")
    case (Inl e)
    then have "exn_of e = ValueError" by (auto simp: throttled_ratio_eq split: if_splits)
    then show ?thesis using Inl by (simp add: evidence_of_def)
  qed (simp add: evidence_of_def m)
qed

lemma keyed_ok:
  assumes "list_all usable_low ss"
  shows "\<exists>ks. keyed_samples ss = Inr ks \<and> map snd ks = ss
    \<and> list_all (\<lambda>y. fst (fst y) \<noteq> NaN \<and> sample_key (snd y) = Inr (fst y)) ks"
  using assms
proof (induction ss)
  case (Cons s ss)
  then obtain k where k: "sample_key s = Inr k"
    by (auto simp: usable_low_def low_candidate_True sample_key_def)
  then show ?case using Cons sample_key_number by (fastforce simp: keyed_samples_def)
qed (simp add: keyed_samples_def)

definition key_of :: "pilot_sample \<Rightarrow> pyfloat \<times> int" where
  "key_of s = (case sample_key s of Inr k \<Rightarrow> k | Inl _ \<Rightarrow> (NaN, 0))"

lemma chosen_least:
  assumes "keyed_samples ss = Inr (k # ks)" "list_all usable_low ss"
  shows "snd (min_key key_lt k ks) \<in> set ss"
    and "t \<in> set ss \<Longrightarrow> \<not> key_lt (key_of t) (key_of (snd (min_key key_lt k ks)))"
proof -
  have m: "map snd (k # ks) = ss" and a: "list_all (\<lambda>y. fst (fst y) \<noteq> NaN \<and> sample_key (snd y) = Inr (fst y)) (k # ks)"
    using keyed_ok [OF assms(2)] assms(1) by auto
  have r: "min_key key_lt k ks \<in> set (k # ks)" by (rule min_key_mem)
  then show "snd (min_key key_lt k ks) \<in> set ss" unfolding m [symmetric] by auto
  have key: "key_of (snd y) = fst y" if "y \<in> set (k # ks)" for y
    using a that by (auto simp: key_of_def list_all_iff)
  have n: "list_all (\<lambda>y. fst (fst y) \<noteq> NaN) (k # ks)" using a by (simp add: list_all_iff)
  assume "t \<in> set ss"
  then obtain y where y: "y \<in> set (k # ks)" "t = snd y" unfolding m [symmetric] by (metis imageE list.set_map)
  then show "\<not> key_lt (key_of t) (key_of (snd (min_key key_lt k ks)))"
    using min_key_least [OF n y(1)] key [OF y(1)] key [OF r] by simp
qed

lemma WORKLOADS_values: "w \<in> set WORKLOADS \<longleftrightarrow> map_of CPU_VALUES w \<noteq> None"
  by (auto simp: WORKLOADS_def CPU_VALUES_def)

abbreviation samples_for :: "string \<Rightarrow> pilot_sample list \<Rightarrow> pilot_sample list" where
  "samples_for w samples \<equiv> filter (\<lambda>s. ps_workload s = w) samples"

lemma rmap_is_ok: "is_ok (rmap f xs) \<longleftrightarrow> list_all (is_ok \<circ> f) xs"
proof (induction xs)
  case (Cons x xs)
  then show ?case by (cases "f x"; cases "rmap f xs") auto
qed simp

lemma usable_low_filter: "filter (\<lambda>s. low_candidate s = Inr True) ss = filter usable_low ss"
  by (rule filter_cong) (simp_all add: usable_low_def)

lemma all_usable_low: "list_all usable_low (filter usable_low ss)"
  by (simp add: list_all_iff)

lemma decide_ok:
  assumes "keyed_samples (filter usable_low ss) = Inr ks"
  shows "is_ok (decide_policy w d f ev ks)"
proof (cases ks)
  case (Cons x xs)
  then have "snd (min_key key_lt x xs) \<in> set (filter usable_low ss)"
    using chosen_least(1) [of "filter usable_low ss" x xs] assms all_usable_low [of ss] by simp
  then have "usable_low (snd (min_key key_lt x xs))" by simp
  then show ?thesis using Cons by (auto simp: usable_low_def low_candidate_True decide_policy_def)
qed (simp add: decide_policy_def)

lemma freeze_values_ok:
  assumes "w \<in> set WORKLOADS" "list_all (is_ok \<circ> low_candidate) (samples_for w samples)"
  shows "is_ok (freeze_values w samples)"
proof -
  let ?ss = "samples_for w samples"
  obtain fit low where d: "map_of CPU_VALUES w = Some (fit, low)" using assms(1) WORKLOADS_values by auto
  have "list_all (is_ok \<circ> fit_candidate) ?ss" "list_all (is_ok \<circ> evidence_of) ?ss"
    using assms(2) fit_candidate_ok evidence_of_ok by (auto simp: list_all_iff)
  then obtain fits ev where e: "rmap fit_candidate ?ss = Inr fits" "rmap evidence_of ?ss = Inr ev"
    by (auto simp: rmap_is_ok [symmetric] is_ok_conv)
  have l: "rfilter low_candidate ?ss = Inr (filter usable_low ?ss)"
    using assms(2) by (simp add: rfilter_Inr usable_low_filter)
  obtain ks where k: "keyed_samples (filter usable_low ?ss) = Inr ks"
    using keyed_ok [OF all_usable_low] by blast
  show ?thesis using assms(1) d e l k decide_ok [OF k] by (simp add: freeze_values_def Let_def)
qed

lemma freeze_values_parts:
  assumes "freeze_values w samples = Inr p"
  shows "w \<in> set WORKLOADS" "list_all (is_ok \<circ> low_candidate) (samples_for w samples)" "fp_workload p = w"
    "length (fp_evidence p) = length (samples_for w samples)"
    "\<exists>ks. keyed_samples (filter usable_low (samples_for w samples)) = Inr ks
       \<and> (case ks of [] \<Rightarrow> fp_status p = ''FAIL'' \<and> map_of CPU_VALUES w = Some (fit_millicores p, low_millicores p)
          | k # ks' \<Rightarrow> fp_status p = ''PASS'' \<and> millicores (snd (min_key key_lt k ks')) = Inr (Some (low_millicores p)))"
proof -
  let ?ss = "samples_for w samples"
  obtain d fits ev ks where d: "w \<in> set WORKLOADS" "map_of CPU_VALUES w = Some d" "rmap evidence_of ?ss = Inr ev"
    "list_all (is_ok \<circ> low_candidate) ?ss" and k: "keyed_samples (filter usable_low ?ss) = Inr ks"
    and p: "decide_policy w d (fit_value (fst d) (concat fits)) ev ks = Inr p"
    using assms unfolding freeze_values_def Let_def by (auto simp: rfilter_Inr usable_low_filter)
  show "w \<in> set WORKLOADS" "list_all (is_ok \<circ> low_candidate) ?ss" using d by simp_all
  show "fp_workload p = w" "length (fp_evidence p) = length ?ss"
    using p rmap_length [OF d(3)] by (auto simp: decide_policy_def split: list.splits)
  show "\<exists>ks. keyed_samples (filter usable_low ?ss) = Inr ks
     \<and> (case ks of [] \<Rightarrow> fp_status p = ''FAIL'' \<and> map_of CPU_VALUES w = Some (fit_millicores p, low_millicores p)
        | k # ks' \<Rightarrow> fp_status p = ''PASS'' \<and> millicores (snd (min_key key_lt k ks')) = Inr (Some (low_millicores p)))"
    using k p d(2) by (auto simp: decide_policy_def split: list.splits)
qed


section \<open>Laws of the command\<close>

definition pilot_error :: "pyerr \<Rightarrow> bool" where
  "pilot_error e \<longleftrightarrow> input_error (exn_of e) \<or> exn_of e \<in> {AttributeError, OverflowError}"

lemma pilot_error_simps [simp]:
  "pilot_error (Raise ValueError m)" "pilot_error (Raise AttributeError m)" "pilot_error (Raise OverflowError m)"
  by (simp_all add: pilot_error_def input_error_def)

lemma read_text_errs: "errs pilot_error (read_text fs p)"
  by (auto simp: read_text_def read_bytes_def path_error_def as_some_def pilot_error_def input_error_def is_os_error_def errs_def
      split: option.splits node.splits if_splits sum.splits)

lemma required_cell_errs: "errs pilot_error (required_cell row key)"
  by (auto simp: required_cell_def require_def split: pyval.splits)

lemma as_int_cell_errs: "errs pilot_error (as_int_cell v key)"
  by (auto simp: as_int_cell_def require_def as_some_def split: option.splits)

lemma millicores_errs: "errs pilot_error (millicores s)"
  by (auto simp: millicores_def require_def int_truediv_def round_int_def split: option.splits pyfloat.splits)

lemma ratio_errs: "errs pilot_error (throttled_ratio s)"
  by (auto simp: throttled_ratio_eq)

lemmas pilot_errs = read_text_errs required_cell_errs as_int_cell_errs millicores_errs ratio_errs errs_intros

lemma read_pilot_samples_errs: "errs pilot_error (read_pilot_samples fs c b)"
proof -
  have "errs pilot_error (block_row r row)" for r row by (auto simp: block_row_def intro!: pilot_errs)
  then have b: "errs pilot_error (workloads_by_cell fs b)"
    by (auto simp: workloads_by_cell_def split: prod.splits intro!: pilot_errs)
  have v: "errs pilot_error (value_row ws vs row)" for ws vs row
    by (auto simp: value_row_def split: pyval.splits prod.splits intro!: pilot_errs)
  have "errs pilot_error (level_sample vs cell level)" for vs cell level
    by (cases cell) (auto simp: level_sample_def Let_def intro!: pilot_errs)
  then have "errs pilot_error (cell_samples vs cell)" for vs cell
    unfolding cell_samples_def by (simp split: option.splits add: errs_rbind)
  then show ?thesis using b v
    by (auto simp: read_pilot_samples_def split: prod.splits intro!: pilot_errs)
qed

lemma rfilter_errs: "(\<And>x. errs P (f x)) \<Longrightarrow> errs P (rfilter f xs)"
  by (induction xs) (auto intro!: errs_rbind)

lemma freeze_values_errs:
  assumes "w \<in> set WORKLOADS"
  shows "errs pilot_error (freeze_values w samples)"
proof -
  obtain d where d: "map_of CPU_VALUES w = Some d" using assms WORKLOADS_values by auto
  have f: "errs pilot_error (fit_candidate s)" for s by (auto simp: fit_candidate_def intro!: pilot_errs)
  have l: "errs pilot_error (low_candidate s)" for s by (auto simp: low_candidate_def intro!: pilot_errs)
  have k: "errs pilot_error (keyed_samples ss)" for ss
    by (auto simp: keyed_samples_def sample_key_def intro!: pilot_errs)
  have r: "errs pilot_error (rbind (throttled_ratio s) (\<lambda>ratio. rbind (millicores s) (\<lambda>m. Inr (ratio, m))))" for s
    by (intro pilot_errs) simp
  have e: "errs pilot_error (evidence_of s)" for s
    using errsD [OF r] by (auto simp: evidence_of_def split: sum.splits)
  have dec: "errs pilot_error (decide_policy w d x ev ks)"
    if "rfilter low_candidate ss = Inr us" "keyed_samples us = Inr ks" for ss us ks x ev
    using that decide_ok [of ss ks w d x ev] by (auto simp: rfilter_Inr usable_low_filter is_ok_conv)
  show ?thesis using assms d unfolding freeze_values_def Let_def
    by (auto intro!: errs_intros rfilter_errs f l e k dec)
qed

lemma failed_policy_ok:
  "\<exists>ps. rmap (failed_policy m) WORKLOADS = Inr ps \<and> map fp_workload ps = WORKLOADS
     \<and> list_all (\<lambda>p. fp_status p = ''FAIL'' \<and> map_of CPU_VALUES (fp_workload p) = Some (fit_millicores p, low_millicores p)) ps"
  by (simp add: WORKLOADS_def failed_policy_def CPU_VALUES_def)

definition policy_consistent :: "frozen_policy \<Rightarrow> bool" where
  "policy_consistent p = (if fp_status p = ''PASS'' then True
     else fp_status p = ''FAIL'' \<and> map_of CPU_VALUES (fp_workload p) = Some (fit_millicores p, low_millicores p))"

lemma freeze_values_consistent:
  assumes "freeze_values w samples = Inr p"
  shows "policy_consistent p \<and> fp_workload p = w"
proof -
  note parts = freeze_values_parts [OF assms]
  obtain ks where "case ks of [] \<Rightarrow> fp_status p = ''FAIL'' \<and> map_of CPU_VALUES w = Some (fit_millicores p, low_millicores p)
      | k # ks' \<Rightarrow> fp_status p = ''PASS'' \<and> millicores (snd (min_key key_lt k ks')) = Inr (Some (low_millicores p))"
    using parts(5) by blast
  then show ?thesis using parts(3) by (cases ks) (simp_all add: policy_consistent_def)
qed

lemma pilot_policies_cases:
  "case pilot_policies fs c b of
     Inr ps \<Rightarrow> map fp_workload ps = WORKLOADS \<and> list_all policy_consistent ps
   | Inl e \<Rightarrow> exn_of e \<in> {AttributeError, OverflowError}"
proof -
  let ?r = "rbind (read_pilot_samples fs c b) (\<lambda>samples. rmap (\<lambda>w. freeze_values w samples) WORKLOADS)"
  have e: "errs pilot_error ?r"
    by (intro errs_rbind read_pilot_samples_errs errs_rmap freeze_values_errs)
  show ?thesis
  proof (cases ?r)
    case (Inl x)
    obtain ps where "rmap (failed_policy (msg_of x)) WORKLOADS = Inr ps" "map fp_workload ps = WORKLOADS"
      "list_all policy_consistent ps"
      using failed_policy_ok [of "msg_of x"] by (auto simp: policy_consistent_def list_all_iff)
    then show ?thesis using Inl errsD [OF e Inl] by (auto simp: pilot_policies_def pilot_error_def)
  next
    case (Inr ps)
    then obtain samples where "list_all2 (\<lambda>w p. freeze_values w samples = Inr p) WORKLOADS ps"
      by (auto simp: rmap_Inr)
    then have "list_all2 (\<lambda>w p. policy_consistent p \<and> fp_workload p = w) WORKLOADS ps"
      by (rule list_all2_mono) (rule freeze_values_consistent)
    then have "map fp_workload ps = WORKLOADS \<and> list_all policy_consistent ps"
      by (induction rule: list_all2_induct) simp_all
    then show ?thesis unfolding pilot_policies_def Inr by simp
  qed
qed

lemma write_policies_cases:
  "case write_policies p ps fs of
     (Inr _, fs') \<Rightarrow> read_text fs' p = Inr (dumps indent2_style (sort_keys (policies_payload ps)) @ nl)
   | (Inl e, _) \<Rightarrow> is_os_error (exn_of e)"
  unfolding write_policies_def by (rule write_document_cases)

text \<open>
  When the command returns, the output file holds the record of one policy per workload, each
  passed or failed with its approved defaults, and the exit code is 0 exactly when all passed. It
  raises without a record only for a truncated row or a number beyond the float range, or when
  the record cannot be written.
\<close>

theorem freeze_policies_main_record:
  "case freeze_policies_main args fs of
     (Inr c, fs') \<Rightarrow> \<exists>policies. map fp_workload policies = WORKLOADS \<and> list_all policy_consistent policies
       \<and> read_text fs' (or_path (arg_output args) (data_root args @ [''policies.json'']))
           = Inr (dumps indent2_style (sort_keys (policies_payload policies)) @ nl)
       \<and> c = (if list_all (\<lambda>p. fp_status p = ''PASS'') policies then 0 else 1)
   | (Inl e, fs') \<Rightarrow> exn_of e \<in> {AttributeError, OverflowError} \<and> fs' = fs \<or> is_os_error (exn_of e)"
proof -
  let ?out = "or_path (arg_output args) (data_root args @ [''policies.json''])"
  let ?r = "pilot_policies fs (or_path (arg_cgroups args) (data_root args @ [''pilot'', ''cgroups.csv'']))
    (or_path (arg_blocks args) (data_root args @ [''pilot'', ''blocks.csv'']))"
  note c = pilot_policies_cases [of fs "or_path (arg_cgroups args) (data_root args @ [''pilot'', ''cgroups.csv''])"
    "or_path (arg_blocks args) (data_root args @ [''pilot'', ''blocks.csv''])"]
  show ?thesis
  proof (cases ?r)
    case (Inl e)
    then show ?thesis using c by (simp add: freeze_policies_main_def io_bind_def io_read_def)
  next
    case (Inr ps)
    have w: "case write_policies ?out ps fs of (Inr _, fs') \<Rightarrow>
        read_text fs' ?out = Inr (dumps indent2_style (sort_keys (policies_payload ps)) @ nl)
      | (Inl e, _) \<Rightarrow> is_os_error (exn_of e)"
      by (rule write_policies_cases)
    have k: "map fp_workload ps = WORKLOADS" "list_all policy_consistent ps" using c Inr by simp_all
    show ?thesis
    proof (cases "write_policies ?out ps fs")
      case (Pair r fs1)
      then show ?thesis using w k Inr
        by (cases r) (auto simp: freeze_policies_main_def io_bind_def io_read_def io_return_def)
    qed
  qed
qed

text \<open>A row that ends before a column yields \<open>None\<close>, on which \<open>strip\<close> raises.\<close>

lemma truncated_row_raises:
  "block_row [] (row_dict [''status'', ''block_id'', ''cell_id'', ''workload'', ''policy''] [''complete'', ''b1'', ''c1''])
     = raise AttributeError ''NoneType object has no attribute strip''"
  by code_simp

end
