(* ===== verification/Paired_Stats.thy ===== *)
theory Paired_Stats
  imports Py_Statistics Py_Random
begin

text \<open>
  The paired statistics of the CPU-limits campaign (\<open>cpu-limits/analysis/stats.py\<close>): paired log
  ratios, geometric means, the paired-t and the bootstrap interval, the Holm step-down procedure
  and the inversion of the Student-t distribution. All numbers are binary64. The transcendental
  functions of the C library are a parameter \<open>libm\<close>, and so are the draws of \<open>random.Random\<close>.
\<close>

section \<open>Paired ratios\<close>

record libm =
  m_exp :: "pyfloat \<Rightarrow> pyfloat res"
  m_log :: "pyfloat \<Rightarrow> pyfloat res"
  m_log1p :: "pyfloat \<Rightarrow> pyfloat res"
  m_lgamma :: "pyfloat \<Rightarrow> pyfloat res"

record paired_logs =
  log_ratios :: "pyfloat list"
  paired_blocks :: "string list"
  missing_blocks :: "string list"

record ratio_interval =
  ri_estimate :: pyfloat
  ri_low :: pyfloat
  ri_high :: pyfloat
  ri_n :: nat

record holm_decision =
  hd_p_value :: pyfloat
  hd_threshold :: pyfloat
  hd_rejected :: bool

definition require_positive :: "pyfloat \<Rightarrow> string \<Rightarrow> unit res" where
  "require_positive value name =
     require (isfinite value \<and> \<not> f_le value (Fin 0)) ValueError
       (name @ '' must be strictly positive and finite'') (Inr ())"

type_synonym block_values = "(string \<times> pyfloat option) list"

definition value_of :: "block_values \<Rightarrow> string \<Rightarrow> pyfloat option" where
  "value_of vs block = (case map_of vs block of Some v \<Rightarrow> v | None \<Rightarrow> None)"

definition pair_block :: "libm \<Rightarrow> block_values \<Rightarrow> block_values \<Rightarrow> paired_logs \<Rightarrow> string \<Rightarrow> paired_logs res" where
  "pair_block m control treatment st block =
     (case (value_of control block, value_of treatment block) of
       (Some c, Some t) \<Rightarrow>
         rbind (require_positive c block) (\<lambda>_.
         rbind (require_positive t block) (\<lambda>_.
         rbind (f_div t c) (\<lambda>q.
         rbind (m_log m q) (\<lambda>l.
         Inr (st\<lparr> paired_blocks := paired_blocks st @ [block], log_ratios := log_ratios st @ [l] \<rparr>)))))
     | _ \<Rightarrow> Inr (st\<lparr> missing_blocks := missing_blocks st @ [block] \<rparr>))"

definition all_blocks :: "block_values \<Rightarrow> block_values \<Rightarrow> string list" where
  "all_blocks control treatment = sort (remdups (map fst control @ map fst treatment))"

definition paired_log_ratios :: "libm \<Rightarrow> block_values \<Rightarrow> block_values \<Rightarrow> paired_logs res" where
  "paired_log_ratios m control treatment =
     rfold (pair_block m control treatment)
       \<lparr> log_ratios = [], paired_blocks = [], missing_blocks = [] \<rparr> (all_blocks control treatment)"

definition geometric_mean :: "libm \<Rightarrow> pyfloat list \<Rightarrow> pyfloat res" where
  "geometric_mean m values =
     require (values \<noteq> []) ValueError ''geometric mean requires at least one value'' (
     rbind (rforeach (\<lambda>v. require_positive v ''value'') values) (\<lambda>_.
     rbind (rmap (m_log m) values) (\<lambda>logs. rbind (fmean logs) (m_exp m))))"

definition geometric_mean_from_logs :: "libm \<Rightarrow> pyfloat list \<Rightarrow> pyfloat res" where
  "geometric_mean_from_logs m logs =
     require (logs \<noteq> []) ValueError ''geometric mean requires at least one log ratio'' (
     require (list_all isfinite logs) ValueError ''log ratios must be finite'' (
     rbind (fmean logs) (m_exp m)))"

definition finite_logs :: "pyfloat list \<Rightarrow> pyfloat list res" where
  "finite_logs logs = require (list_all isfinite logs) ValueError ''log ratios must be finite'' (Inr logs)"

section \<open>The Student-t distribution\<close>

definition beta_tiny :: pyfloat where "beta_tiny = to_float (1 / 10 ^ 300)"
definition beta_tolerance :: pyfloat where "beta_tolerance = to_float (3 / 10 ^ 14)"

definition away_from_zero :: "pyfloat \<Rightarrow> pyfloat" where
  "away_from_zero d = (if f_lt (f_abs d) beta_tiny then beta_tiny else d)"

text \<open>The two half steps of a turn differ in their coefficient only.\<close>

definition beta_half :: "pyfloat \<Rightarrow> pyfloat \<Rightarrow> pyfloat \<Rightarrow> (pyfloat \<times> pyfloat) res" where
  "beta_half coefficient c d =
     (let d1 = away_from_zero (f_add (Fin 1) (f_mul coefficient d)) in
      rbind (f_div coefficient c) (\<lambda>q.
      let c1 = away_from_zero (f_add (Fin 1) q) in
      rbind (f_div (Fin 1) d1) (\<lambda>d2. Inr (c1, d2))))"

definition even_coefficient :: "pyfloat \<Rightarrow> pyfloat \<Rightarrow> pyfloat \<Rightarrow> nat \<Rightarrow> pyfloat res" where
  "even_coefficient a b x i = (let it = Fin (of_nat i); twice = Fin (of_nat (2 * i)) in
     f_div (f_mul (f_mul it (f_sub b it)) x)
       (f_mul (f_sub (f_add a twice) (Fin 1)) (f_add a twice)))"

definition odd_coefficient :: "pyfloat \<Rightarrow> pyfloat \<Rightarrow> pyfloat \<Rightarrow> nat \<Rightarrow> pyfloat res" where
  "odd_coefficient a b x i = (let it = Fin (of_nat i); twice = Fin (of_nat (2 * i)) in
     f_div (f_mul (f_mul (f_neg (f_add a it)) (f_add (f_add a b) it)) x)
       (f_mul (f_add a twice) (f_add (f_add a twice) (Fin 1))))"

text \<open>The turns from \<open>i\<close> on; the first argument counts the turns that are left of the 200.\<close>

fun beta_loop :: "nat \<Rightarrow> nat \<Rightarrow> pyfloat \<Rightarrow> pyfloat \<Rightarrow> pyfloat \<Rightarrow> pyfloat \<Rightarrow> pyfloat \<Rightarrow> pyfloat \<Rightarrow> pyfloat res" where
  "beta_loop 0 i a b x c d result = raise ArithmeticError ''incomplete beta fraction did not converge''"
| "beta_loop (Suc n) i a b x c d result =
     rbind (even_coefficient a b x i) (\<lambda>k.
     rbind (beta_half k c d) (\<lambda>(c1, d1).
     let result1 = f_mul result (f_mul d1 c1) in
     rbind (odd_coefficient a b x i) (\<lambda>k2.
     rbind (beta_half k2 c1 d1) (\<lambda>(c2, d2).
     let change = f_mul d2 c2; result2 = f_mul result1 change in
     if f_lt (f_abs (f_sub change (Fin 1))) beta_tolerance then Inr result2
     else beta_loop n (Suc i) a b x c2 d2 result2))))"

definition beta_fraction :: "pyfloat \<Rightarrow> pyfloat \<Rightarrow> pyfloat \<Rightarrow> pyfloat res" where
  "beta_fraction a b x =
     rbind (f_div (f_mul (f_add a b) x) (f_add a (Fin 1))) (\<lambda>q.
     rbind (f_div (Fin 1) (away_from_zero (f_sub (Fin 1) q))) (\<lambda>d.
     beta_loop 200 1 a b x (Fin 1) d d))"

definition regularized_incomplete_beta :: "libm \<Rightarrow> pyfloat \<Rightarrow> pyfloat \<Rightarrow> pyfloat \<Rightarrow> pyfloat res" where
  "regularized_incomplete_beta m x a b =
     (if f_le x (Fin 0) then Inr (Fin 0)
      else if f_le (Fin 1) x then Inr (Fin 1)
      else
        rbind (m_lgamma m (f_add a b)) (\<lambda>gab.
        rbind (m_lgamma m a) (\<lambda>ga.
        rbind (m_lgamma m b) (\<lambda>gb.
        rbind (m_log m x) (\<lambda>lx.
        rbind (m_log1p m (f_neg x)) (\<lambda>l1x.
        rbind (m_exp m (f_add (f_add (f_sub (f_sub gab ga) gb) (f_mul a lx)) (f_mul b l1x))) (\<lambda>front.
        rbind (f_div (f_add a (Fin 1)) (f_add (f_add a b) (Fin 2))) (\<lambda>turn.
        if f_lt x turn
        then rbind (beta_fraction a b x) (\<lambda>f. f_div (f_mul front f) a)
        else rbind (beta_fraction b a (f_sub (Fin 1) x)) (\<lambda>f.
          rbind (f_div (f_mul front f) b) (\<lambda>q. Inr (f_sub (Fin 1) q)))))))))))"

definition student_t_cdf :: "libm \<Rightarrow> int \<Rightarrow> pyfloat \<Rightarrow> pyfloat res" where
  "student_t_cdf m degrees_of_freedom value =
     (if f_eq value (Fin 0) then Inr (Fin (1 / 2))
      else rbind (float_of_int degrees_of_freedom) (\<lambda>df.
        rbind (f_div df (f_add df (f_mul value value))) (\<lambda>x.
        rbind (f_div df (Fin 2)) (\<lambda>a.
        rbind (regularized_incomplete_beta m x a (Fin (1 / 2))) (\<lambda>beta.
        rbind (f_div beta (Fin 2)) (\<lambda>h.
        Inr (if f_lt (Fin 0) value then f_sub (Fin 1) h else h)))))))"

text \<open>
  The loop that doubles the upper end is not bounded by the code: \<open>None\<close> would be a run that does
  not end.
\<close>

partial_function (option) double_high :: "(pyfloat \<Rightarrow> pyfloat res) \<Rightarrow> pyfloat \<Rightarrow> pyfloat \<Rightarrow> pyfloat res option" where
  "double_high cdf p high = (case cdf high of
     Inl e \<Rightarrow> Some (Inl e)
   | Inr v \<Rightarrow> if f_lt v p then double_high cdf p (f_mul high (Fin 2)) else Some (Inr high))"

declare double_high.simps [code]

definition midpoint :: "pyfloat \<Rightarrow> pyfloat \<Rightarrow> pyfloat res" where
  "midpoint low high = f_div (f_add low high) (Fin 2)"

fun bisect :: "nat \<Rightarrow> (pyfloat \<Rightarrow> pyfloat res) \<Rightarrow> pyfloat \<Rightarrow> pyfloat \<Rightarrow> pyfloat \<Rightarrow> (pyfloat \<times> pyfloat) res" where
  "bisect 0 cdf p low high = Inr (low, high)"
| "bisect (Suc n) cdf p low high =
     rbind (midpoint low high) (\<lambda>middle.
     rbind (cdf middle) (\<lambda>v.
     if f_lt v p then bisect n cdf p middle high else bisect n cdf p low middle))"

text \<open>The body for a probability of at least one half; the recursive call reaches it in one step.\<close>

definition quantile_upper :: "libm \<Rightarrow> pyfloat \<Rightarrow> int \<Rightarrow> pyfloat res option" where
  "quantile_upper m p df =
     (if \<not> (f_lt (Fin 0) p \<and> f_lt p (Fin 1)) then Some (raise ValueError ''probability must be between zero and one'')
      else if df < 1 then Some (raise ValueError ''degrees of freedom must be at least one'')
      else if f_eq p (Fin (1 / 2)) then Some (Inr (Fin 0))
      else map_option (\<lambda>r. rbind r (\<lambda>high.
        rbind (bisect 80 (student_t_cdf m df) p (Fin 0) high) (\<lambda>(l, h). midpoint l h)))
        (double_high (student_t_cdf m df) p (Fin 1)))"

definition student_t_quantile :: "libm \<Rightarrow> pyfloat \<Rightarrow> int \<Rightarrow> pyfloat res option" where
  "student_t_quantile m p df =
     (if f_lt (Fin 0) p \<and> f_lt p (Fin (1 / 2)) \<and> 1 \<le> df
      then map_option (\<lambda>r. rbind r (\<lambda>q. Inr (f_neg q))) (quantile_upper m (f_sub (Fin 1) p) df)
      else quantile_upper m p df)"

section \<open>Intervals\<close>

definition paired_t_interval :: "libm \<Rightarrow> pyfloat list \<Rightarrow> pyfloat \<Rightarrow> ratio_interval res option" where
  "paired_t_interval m logs0 confidence =
     (case finite_logs logs0 of Inl e \<Rightarrow> Some (Inl e) | Inr logs \<Rightarrow>
      if length logs < 2 then Some (raise ValueError ''paired-t interval requires at least two paired blocks'')
      else if \<not> (f_lt (Fin 0) confidence \<and> f_lt confidence (Fin 1))
      then Some (raise ValueError ''confidence must be between zero and one'')
      else case rbind (fmean logs) (\<lambda>mean. rbind (stdev logs) (\<lambda>s.
          rbind (float_sqrt_of_frac (int (length logs)) 1) (\<lambda>r. rbind (f_div s r) (\<lambda>standard_error.
          rbind (f_div confidence (Fin 2)) (\<lambda>half. Inr (mean, standard_error, f_add (Fin (1 / 2)) half)))))) of
        Inl e \<Rightarrow> Some (Inl e)
      | Inr (mean, standard_error, probability) \<Rightarrow>
          map_option (\<lambda>q. rbind q (\<lambda>t. let half_width = f_mul t standard_error in
            rbind (m_exp m mean) (\<lambda>estimate.
            rbind (m_exp m (f_sub mean half_width)) (\<lambda>low.
            rbind (m_exp m (f_add mean half_width)) (\<lambda>high.
            Inr \<lparr> ri_estimate = estimate, ri_low = low, ri_high = high, ri_n = length logs \<rparr>)))))
          (student_t_quantile m probability (int (length logs) - 1)))"

text \<open>One resample draws as many blocks as there are, with replacement.\<close>

fun draw_blocks :: "('g \<Rightarrow> nat \<Rightarrow> nat \<times> 'g) \<Rightarrow> pyfloat list \<Rightarrow> nat \<Rightarrow> 'g \<Rightarrow> pyfloat list \<times> 'g" where
  "draw_blocks randrange logs 0 g = ([], g)"
| "draw_blocks randrange logs (Suc k) g =
     (case randrange g (length logs) of (j, g1) \<Rightarrow>
      case draw_blocks randrange logs k g1 of (xs, g2) \<Rightarrow> (logs ! j # xs, g2))"

fun resample_means :: "('g \<Rightarrow> nat \<Rightarrow> nat \<times> 'g) \<Rightarrow> pyfloat list \<Rightarrow> nat \<Rightarrow> 'g \<Rightarrow> pyfloat list res" where
  "resample_means randrange logs 0 g = Inr []"
| "resample_means randrange logs (Suc k) g =
     (case draw_blocks randrange logs (length logs) g of (xs, g1) \<Rightarrow>
      rbind (fmean xs) (\<lambda>v. rbind (resample_means randrange logs k g1) (\<lambda>vs. Inr (v # vs))))"

definition f_floor :: "pyfloat \<Rightarrow> int res" where
  "f_floor x = (case x of Fin a \<Rightarrow> Inr \<lfloor>a\<rfloor>
     | NaN \<Rightarrow> raise ValueError ''cannot convert float NaN to integer''
     | _ \<Rightarrow> raise OverflowError ''cannot convert float infinity to integer'')"

text \<open>\<open>xs[i]\<close>, counting from the end for a negative index.\<close>

definition list_at :: "'a list \<Rightarrow> int \<Rightarrow> 'a res" where
  "list_at xs i = (let j = (if i < 0 then i + int (length xs) else i) in
     require (0 \<le> j \<and> j < int (length xs)) IndexError ''list index out of range'' (Inr (xs ! nat j)))"

definition quantile_at :: "pyfloat list \<Rightarrow> pyfloat \<Rightarrow> int \<Rightarrow> pyfloat res" where
  "quantile_at means share resamples =
     rbind (float_of_int (resamples - 1)) (\<lambda>n. rbind (f_floor (f_mul share n)) (list_at means))"

definition block_bootstrap_interval ::
  "libm \<Rightarrow> (int \<Rightarrow> 'g) \<Rightarrow> ('g \<Rightarrow> nat \<Rightarrow> nat \<times> 'g) \<Rightarrow> pyfloat list \<Rightarrow> int \<Rightarrow> int \<Rightarrow> pyfloat \<Rightarrow> ratio_interval res" where
  "block_bootstrap_interval m random randrange logs0 resamples seed confidence =
     rbind (finite_logs logs0) (\<lambda>logs.
     require (logs \<noteq> []) ValueError ''block bootstrap requires at least one paired block'' (
     require (1 \<le> resamples) ValueError ''resamples must be at least one'' (
     require (f_lt (Fin 0) confidence \<and> f_lt confidence (Fin 1)) ValueError ''confidence must be between zero and one'' (
     rbind (resample_means randrange logs (nat resamples) (random seed)) (\<lambda>ms.
     let means = sort_by id ms in
     rbind (f_div (f_sub (Fin 1) confidence) (Fin 2)) (\<lambda>tail.
     rbind (quantile_at means tail resamples) (\<lambda>low.
     rbind (quantile_at means (f_sub (Fin 1) tail) resamples) (\<lambda>high.
     rbind (fmean logs) (\<lambda>mean.
     rbind (m_exp m mean) (\<lambda>estimate.
     rbind (m_exp m low) (\<lambda>elow.
     rbind (m_exp m high) (\<lambda>ehigh.
     Inr \<lparr> ri_estimate = estimate, ri_low = elow, ri_high = ehigh, ri_n = length logs \<rparr>))))))))))))"

section \<open>The Holm procedure\<close>

record holm_state =
  hs_thresholds :: "pyfloat list"
  hs_rejected :: "bool list"
  hs_stopped :: bool

definition holm_threshold :: "int \<Rightarrow> pyfloat \<Rightarrow> nat \<Rightarrow> pyfloat res" where
  "holm_threshold planned alpha position = rbind (float_of_int (planned - int position)) (f_div alpha)"

definition holm_step :: "pyfloat list \<Rightarrow> int \<Rightarrow> pyfloat \<Rightarrow> holm_state \<Rightarrow> nat \<times> nat \<Rightarrow> holm_state res" where
  "holm_step values planned alpha st = (\<lambda>(position, index).
     rbind (holm_threshold planned alpha position) (\<lambda>threshold.
     let st1 = st\<lparr> hs_thresholds := (hs_thresholds st)[index := threshold] \<rparr> in
     Inr (if \<not> hs_stopped st \<and> f_le (values ! index) threshold
          then st1\<lparr> hs_rejected := (hs_rejected st)[index := True] \<rparr>
          else st1\<lparr> hs_stopped := True \<rparr>)))"

definition holm_order :: "pyfloat list \<Rightarrow> nat list" where
  "holm_order values = sort_by (\<lambda>i. values ! i) [0 ..< length values]"

definition holm_decisions :: "pyfloat list \<Rightarrow> int \<Rightarrow> pyfloat \<Rightarrow> holm_decision list res" where
  "holm_decisions values planned alpha =
     require (int (length values) \<le> planned) ValueError ''planned family size cannot be smaller than observed size'' (
     require (1 \<le> planned) ValueError ''planned family size must be at least one'' (
     require (f_lt (Fin 0) alpha \<and> f_lt alpha (Fin 1)) ValueError ''alpha must be between zero and one'' (
     rbind (rforeach (\<lambda>v. require (f_le (Fin 0) v \<and> f_le v (Fin 1) \<and> isfinite v) ValueError
       ''p-values must be finite and between zero and one'' (Inr ())) values) (\<lambda>_.
     rbind (rfold (holm_step values planned alpha)
       \<lparr> hs_thresholds = replicate (length values) (Fin 0), hs_rejected = replicate (length values) False,
         hs_stopped = False \<rparr> (enumerate 0 (holm_order values))) (\<lambda>st.
     Inr (map (\<lambda>(i, v). \<lparr> hd_p_value = v, hd_threshold = hs_thresholds st ! i, hd_rejected = hs_rejected st ! i \<rparr>)
       (enumerate 0 values)))))))"

definition holm_step_down :: "pyfloat list \<Rightarrow> int \<Rightarrow> pyfloat \<Rightarrow> bool list res" where
  "holm_step_down values planned alpha =
     rbind (holm_decisions values planned alpha) (\<lambda>ds. Inr (map hd_rejected ds))"

section \<open>Termination of the quantile search\<close>

text \<open>
  What the search needs of a distribution function: far out it has the value 1. At the first power of
  two whose square overflows, the code computes with an infinity and reaches exactly this value,
  whatever the C library returns.
\<close>

definition far :: nat where
  "far = 512"

lemma far_bounds: "far \<le> 1022" "far + far = 1024"
  by (simp_all add: far_def)

locale saturating =
  fixes cdf :: "int \<Rightarrow> pyfloat \<Rightarrow> pyfloat res"
  assumes saturates: "cdf df (Fin (2 ^ far)) = Inr (Fin 1) \<or> (\<exists>e. cdf df (Fin (2 ^ far)) = Inl e)"
begin

lemma double_high_at:
  assumes "\<not> f_lt (Fin 1) p" "n \<le> far"
  shows "\<exists>r. double_high (cdf df) p (Fin (2 ^ n)) = Some r \<and> (\<forall>h. r = Inr h \<longrightarrow> (\<exists>k \<le> far. h = Fin (2 ^ k)))"
  using assms(2)
proof (induction "far - n" arbitrary: n)
  case 0
  then have n: "n = far" by simp
  show ?case using saturates [of df] assms(1) unfolding n by (subst double_high.simps) auto
next
  case (Suc d)
  have m: "f_mul (Fin (2 ^ n)) (Fin 2) = Fin (2 ^ Suc n)"
    using to_float_pow2 [of "Suc n"] Suc.hyps(2) far_bounds by (simp add: f_mul_def mult.commute)
  have IH: "\<exists>r. double_high (cdf df) p (Fin (2 ^ Suc n)) = Some r \<and> (\<forall>h. r = Inr h \<longrightarrow> (\<exists>k \<le> far. h = Fin (2 ^ k)))"
    using Suc.hyps(2) by (intro Suc.hyps(1)) simp_all
  show ?case
  proof (cases "cdf df (Fin (2 ^ n))")
    case (Inl e)
    then show ?thesis by (subst double_high.simps) simp
  next
    case (Inr v)
    then show ?thesis using IH Suc.prems by (subst double_high.simps) (auto simp: m simp del: power_Suc)
  qed
qed

lemma double_high_returns:
  assumes "f_lt p (Fin 1)"
  shows "\<exists>r. double_high (cdf df) p (Fin 1) = Some r \<and> (\<forall>h. r = Inr h \<longrightarrow> (\<exists>k \<le> far. h = Fin (2 ^ k)))"
  using double_high_at [of p 0 df] lt_not_lt [OF assms] by simp

end

interpretation student: saturating "student_t_cdf m" for m
proof
  fix df
  have sq: "f_mul (Fin (2 ^ far)) (Fin (2 ^ far)) = PInf"
    using to_float_overflow by (simp only: f_mul_def prod.case pyfloat.case power_add [symmetric] far_bounds)
  show "student_t_cdf m df (Fin (2 ^ far)) = Inr (Fin 1) \<or> (\<exists>e. student_t_cdf m df (Fin (2 ^ far)) = Inl e)"
  proof (cases "float_of_int df")
    case (Inr d)
    then obtain a where a: "d = Fin a" by (cases d) (auto simp: float_of_int_def split: pyfloat.splits)
    obtain q where q: "f_div (Fin a) (Fin 2) = Inr q" using f_div_total [of "Fin 2" "Fin a"] by auto
    have "to_float 0 = Fin 0" "to_float 1 = Fin 1" using to_float_small [of 0] to_float_small [of 1] by simp_all
    then show ?thesis using Inr a q sq
      by (simp add: student_t_cdf_def f_eq_def f_div_def regularized_incomplete_beta_def f_sub_def)
  qed (simp add: student_t_cdf_def f_eq_def)
qed

text \<open>The halving keeps the search interval on the non-negative side, below the same bound.\<close>

definition in_range :: "pyfloat \<Rightarrow> bool" where
  "in_range x \<longleftrightarrow> f_le (Fin 0) x \<and> f_le x (Fin (2 ^ far))"

lemma in_range_iff: "in_range x \<longleftrightarrow> (\<exists>a. x = Fin a \<and> 0 \<le> a \<and> a \<le> 2 ^ far)"
  by (cases x) (auto simp: in_range_def)

lemma midpoint_in_range:
  assumes "in_range x" "in_range y"
  shows "\<exists>c. midpoint x y = Inr c \<and> in_range c"
proof -
  obtain a b where ab: "x = Fin a" "y = Fin b" "0 \<le> a" "a \<le> 2 ^ far" "0 \<le> b" "b \<le> 2 ^ far"
    using assms by (auto simp: in_range_iff)
  have "a + b \<le> 2 ^ Suc far" using ab by simp
  then have s: "to_float (a + b) = Fin (fl (a + b))" "0 \<le> fl (a + b)" "fl (a + b) \<le> 2 ^ Suc far"
    using to_float_range [of "a + b" "Suc far"] ab far_bounds by simp_all
  then have "fl (a + b) / 2 \<le> 2 ^ far" by simp
  then have "to_float (fl (a + b) / 2) = Fin (fl (fl (a + b) / 2))" "0 \<le> fl (fl (a + b) / 2)"
    "fl (fl (a + b) / 2) \<le> 2 ^ far"
    using to_float_range [of "fl (a + b) / 2" far] s(2) far_bounds by simp_all
  then show ?thesis using s(1) ab(1,2) by (simp add: midpoint_def f_div_def in_range_iff)
qed

lemma bisect_in_range:
  "in_range low \<Longrightarrow> in_range high \<Longrightarrow> bisect n cdf p low high = Inr (l, h) \<Longrightarrow> in_range l \<and> in_range h"
proof (induction n arbitrary: low high)
  case (Suc n)
  then obtain c where "midpoint low high = Inr c" "in_range c" using midpoint_in_range by blast
  then show ?case using Suc by (auto split: if_splits)
qed simp

lemma quantile_upper_range:
  "case quantile_upper m p df of None \<Rightarrow> False | Some (Inl e) \<Rightarrow> True | Some (Inr q) \<Rightarrow> in_range q"
proof (cases "f_lt (Fin 0) p \<and> f_lt p (Fin 1) \<and> \<not> df < 1 \<and> \<not> f_eq p (Fin (1 / 2))")
  case True
  then obtain r where r: "double_high (student_t_cdf m df) p (Fin 1) = Some r"
    "\<forall>h. r = Inr h \<longrightarrow> (\<exists>k \<le> far. h = Fin (2 ^ k))"
    using student.double_high_returns [of p m df] by blast
  have q: "quantile_upper m p df = Some (rbind r (\<lambda>high.
      rbind (bisect 80 (student_t_cdf m df) p (Fin 0) high) (\<lambda>(l, h). midpoint l h)))"
    using True r(1) by (simp add: quantile_upper_def)
  show ?thesis
  proof (cases r)
    case (Inr high)
    have h: "in_range (Fin 0)" "in_range high" using r(2) Inr by (auto simp: in_range_iff intro!: power_increasing)
    show ?thesis
    proof (cases "bisect 80 (student_t_cdf m df) p (Fin 0) high")
      case lh: (Inr lh)
      obtain l u where "lh = (l, u)" by (cases lh)
      moreover obtain c where "midpoint l u = Inr c" "in_range c"
        using bisect_in_range [OF h] midpoint_in_range lh calculation by blast
      ultimately show ?thesis using q Inr lh by simp
    qed (use q Inr in simp)
  qed (use q in simp)
next
  case False
  have "in_range (Fin 0)" by (simp add: in_range_iff)
  then show ?thesis using False by (auto simp: quantile_upper_def)
qed

text \<open>
  C18: The quantile search ends for every probability and every number of degrees of freedom,
  whatever the functions of the C library return. A quantile is finite and has the sign of its side
  of the median.
\<close>

theorem student_t_quantile_ends:
  "case student_t_quantile m p df of
     None \<Rightarrow> False
   | Some (Inl e) \<Rightarrow> True
   | Some (Inr q) \<Rightarrow> isfinite q \<and> (if f_lt p (Fin (1 / 2)) then f_le q (Fin 0) else f_le (Fin 0) q)"
proof (cases "f_lt (Fin 0) p \<and> f_lt p (Fin (1 / 2)) \<and> 1 \<le> df")
  case True
  have "student_t_quantile m p df = map_option (\<lambda>r. rbind r (\<lambda>q. Inr (f_neg q))) (quantile_upper m (f_sub (Fin 1) p) df)"
    using True by (simp add: student_t_quantile_def)
  then show ?thesis using quantile_upper_range [of m "f_sub (Fin 1) p" df] True
    by (auto simp: in_range_iff split: option.splits sum.splits)
next
  case False
  then have q: "student_t_quantile m p df = quantile_upper m p df" by (simp only: student_t_quantile_def if_False)
  have n: "\<not> f_lt p (Fin (1 / 2))" if "quantile_upper m p df = Some (Inr x)" for x
    using False that by (auto simp: quantile_upper_def split: if_splits)
  show ?thesis using quantile_upper_range [of m p df] n unfolding q
    by (auto simp: in_range_iff split: option.splits sum.splits)
qed

section \<open>The Holm procedure decides its definition\<close>

definition threshold_at :: "int \<Rightarrow> pyfloat \<Rightarrow> nat \<Rightarrow> pyfloat" where
  "threshold_at planned alpha k = (case holm_threshold planned alpha k of Inr t \<Rightarrow> t | Inl _ \<Rightarrow> NaN)"

text \<open>
  The reference: in the order of the p-values, a hypothesis is rejected when its p-value and all
  earlier ones are at or below their thresholds.
\<close>

definition holm_reject :: "pyfloat list \<Rightarrow> int \<Rightarrow> pyfloat \<Rightarrow> nat list \<Rightarrow> nat \<Rightarrow> bool" where
  "holm_reject values planned alpha order k =
     list_all (\<lambda>l. f_le (values ! (order ! l)) (threshold_at planned alpha l)) [0 ..< Suc k]"

lemma all_below_Suc: "(\<forall>l \<le> Suc k. P l) \<longleftrightarrow> P 0 \<and> (\<forall>l \<le> k. P (Suc l))"
  by (metis Suc_le_mono le0 not0_implies_Suc)

lemma holm_fold:
  assumes "rfold (holm_step vs planned alpha) st (enumerate n os) = Inr st'" "distinct os"
    and "\<forall>i \<in> set os. i < length (hs_thresholds st) \<and> i < length (hs_rejected st)"
  shows "(\<forall>i. i \<notin> set os \<longrightarrow> hs_thresholds st' ! i = hs_thresholds st ! i \<and> hs_rejected st' ! i = hs_rejected st ! i)
    \<and> (\<forall>k < length os. hs_thresholds st' ! (os ! k) = threshold_at planned alpha (n + k)
         \<and> hs_rejected st' ! (os ! k) = (\<not> hs_stopped st
             \<and> (\<forall>l \<le> k. f_le (vs ! (os ! l)) (threshold_at planned alpha (n + l))) \<or> hs_rejected st ! (os ! k)))"
  using assms
proof (induction os arbitrary: n st)
  case (Cons i os)
  let ?t = "threshold_at planned alpha"
  obtain st1 where st1: "holm_step vs planned alpha st (n, i) = Inr st1"
    and r: "rfold (holm_step vs planned alpha) st1 (enumerate (Suc n) os) = Inr st'"
    using Cons.prems(1) by auto
  obtain t where t: "holm_threshold planned alpha n = Inr t" using st1 by (auto simp: holm_step_def)
  then have tn: "?t n = t" by (simp add: threshold_at_def)
  have s: "hs_thresholds st1 = (hs_thresholds st)[i := ?t n]"
    "hs_rejected st1 = (if \<not> hs_stopped st \<and> f_le (vs ! i) (?t n) then (hs_rejected st)[i := True] else hs_rejected st)"
    "hs_stopped st1 = (hs_stopped st \<or> \<not> f_le (vs ! i) (?t n))"
    using st1 t tn by (auto simp: holm_step_def Let_def split: if_splits)
  have i: "i \<notin> set os" "i < length (hs_thresholds st)" "i < length (hs_rejected st)" using Cons.prems(2,3) by auto
  have d: "distinct os" "\<forall>j \<in> set os. j < length (hs_thresholds st1) \<and> j < length (hs_rejected st1)"
    using Cons.prems(2,3) s by auto
  note IH = Cons.IH [OF r d]
  have ne: "os ! k \<noteq> i" if "k < length os" for k using i(1) that nth_mem by blast
  show ?case
  proof (intro conjI allI impI)
    fix j assume "j \<notin> set (i # os)"
    then show "hs_thresholds st' ! j = hs_thresholds st ! j" "hs_rejected st' ! j = hs_rejected st ! j"
      using IH s by auto
  next
    fix k assume k: "k < length (i # os)"
    show "hs_thresholds st' ! ((i # os) ! k) = ?t (n + k)"
      using IH s(1) i k ne by (cases k) auto
    show "hs_rejected st' ! ((i # os) ! k) = (\<not> hs_stopped st
        \<and> (\<forall>l \<le> k. f_le (vs ! ((i # os) ! l)) (?t (n + l))) \<or> hs_rejected st ! ((i # os) ! k))"
    proof (cases k)
      case 0
      then show ?thesis using IH s(2) i by auto
    next
      case (Suc j)
      then show ?thesis using IH s(2,3) k ne [of j] by (auto simp: all_below_Suc)
    qed
  qed
qed simp

lemma holm_fold_thresholds:
  "rfold (holm_step vs planned alpha) st (enumerate n os) = Inr st' \<Longrightarrow> k < length os
     \<Longrightarrow> is_ok (holm_threshold planned alpha (n + k))"
proof (induction os arbitrary: n st k)
  case (Cons i os)
  then obtain st1 where st1: "holm_step vs planned alpha st (n, i) = Inr st1"
    and r: "rfold (holm_step vs planned alpha) st1 (enumerate (Suc n) os) = Inr st'" by auto
  show ?case
  proof (cases k)
    case 0
    then show ?thesis using st1 by (auto simp: holm_step_def)
  next
    case (Suc j)
    then show ?thesis using Cons.IH [OF r, of j] Cons.prems(2) by simp
  qed
qed simp

lemma float_of_int_Inr:
  assumes "float_of_int i = Inr d"
  shows "d = Fin (fl (of_int i))"
  using assms by (auto simp: float_of_int_def to_float_def Let_def split: if_splits)

lemma threshold_at_eq:
  assumes "is_ok (holm_threshold planned (Fin a) k)" "int k < planned" "0 < a" "a < 1"
  shows "threshold_at planned (Fin a) k = Fin (fl (a / fl (of_int (planned - int k))))"
    and "1 \<le> fl (of_int (planned - int k))"
proof -
  have "(1 :: rat) \<le> of_int (planned - int k)" using assms(2) by simp
  then show d: "1 \<le> fl (of_int (planned - int k))" using fl_mono [of 1] by simp
  obtain x where x: "float_of_int (planned - int k) = Inr x"
    using assms(1) by (auto simp: holm_threshold_def is_ok_conv)
  have "a / fl (of_int (planned - int k)) \<le> 1" "0 \<le> a / fl (of_int (planned - int k))"
    using assms(3,4) d by (simp_all add: divide_le_eq_1)
  then show "threshold_at planned (Fin a) k = Fin (fl (a / fl (of_int (planned - int k))))"
    using float_of_int_Inr [OF x] x d to_float_unit
    by (auto simp: threshold_at_def holm_threshold_def f_div_def)
qed

lemma threshold_at_mono:
  assumes "\<And>l. l \<le> n \<Longrightarrow> is_ok (holm_threshold planned (Fin a) l)" "int n < planned" "0 < a" "a < 1" "k \<le> n"
  shows "f_le (threshold_at planned (Fin a) k) (threshold_at planned (Fin a) n)"
proof -
  have t: "threshold_at planned (Fin a) l = Fin (fl (a / fl (of_int (planned - int l))))"
    "1 \<le> fl (of_int (planned - int l))" if "l \<le> n" for l
    using threshold_at_eq [of planned a l] assms(1) [OF that] assms(2-4) that by simp_all
  have "fl (of_int (planned - int n)) \<le> fl (of_int (planned - int k))" using assms(5) by (intro fl_mono) simp
  then have "a / fl (of_int (planned - int k)) \<le> a / fl (of_int (planned - int n))"
    using t(2) [of n] assms(3) by (intro divide_left_mono) simp_all
  then show ?thesis using t(1) [OF assms(5)] t(1) [of n] fl_mono by simp
qed

lemma f_le_trans: "f_le a b \<Longrightarrow> f_le b c \<Longrightarrow> f_le a c"
  by (cases a; cases b; cases c) auto

lemma f_le_self: "f_le a b \<Longrightarrow> f_le a a"
  by (cases a; cases b) auto

text \<open>A p-value that is at most a rejected one is rejected as well.\<close>

lemma holm_reject_down:
  assumes "holm_reject vs planned (Fin a) order k" "l < length order" "f_le (vs ! (order ! l)) (vs ! (order ! k))"
    and "sorted_wrt (\<lambda>i j. f_le (vs ! i) (vs ! j)) order"
    and "\<And>l. l < length order \<Longrightarrow> is_ok (holm_threshold planned (Fin a) l)" "int (length order) \<le> planned" "0 < a" "a < 1"
  shows "holm_reject vs planned (Fin a) order l"
  unfolding holm_reject_def list_all_iff
proof
  let ?t = "threshold_at planned (Fin a)"
  fix j assume "j \<in> set [0 ..< Suc l]"
  then have j: "j \<le> l" "j < length order" using assms(2) by auto
  have k: "f_le (vs ! (order ! j)) (?t j)" if "j \<le> k"
    using assms(1) that by (auto simp: holm_reject_def list_all_iff)
  show "f_le (vs ! (order ! j)) (?t j)"
  proof (cases "j \<le> k")
    case False
    have "f_le (vs ! (order ! j)) (vs ! (order ! l))"
      using sorted_wrt_nth_less [OF assms(4), of j l] assms(2,3) j False by (cases "j = l") (auto intro: f_le_self)
    then have "f_le (vs ! (order ! j)) (vs ! (order ! k))" using assms(3) f_le_trans by blast
    moreover have "f_le (vs ! (order ! k)) (?t k)" using assms(1) by (auto simp: holm_reject_def list_all_iff)
    moreover have "f_le (?t k) (?t j)"
      using False assms(5-8) j(2) by (intro threshold_at_mono) simp_all
    ultimately show ?thesis using f_le_trans by blast
  qed (rule k)
qed

lemma unit_number: "f_le (Fin 0) v \<Longrightarrow> f_le v (Fin 1) \<Longrightarrow> \<exists>a. v = Fin a"
  by (cases v) auto

lemma holm_order_sorted:
  assumes "list_all (\<lambda>v. f_le (Fin 0) v \<and> f_le v (Fin 1)) values"
  shows "sorted_wrt (\<lambda>i j. f_le (values ! i) (values ! j)) (holm_order values)"
    "set (holm_order values) = {..< length values}" "length (holm_order values) = length values" "distinct (holm_order values)"
proof -
  have f: "\<exists>a. values ! i = Fin a" if "i < length values" for i
    using assms that unit_number by (auto simp: list_all_length)
  then have "list_all (\<lambda>i. values ! i \<noteq> NaN) [0 ..< length values]" by (fastforce simp: list_all_iff)
  then have w: "sorted_wrt (\<lambda>i j. \<not> f_lt (values ! j) (values ! i)) (holm_order values)"
    unfolding holm_order_def by (rule sort_by_sorted)
  show s: "set (holm_order values) = {..< length values}" by (auto simp: holm_order_def)
  have "f_le (values ! i) (values ! j)"
    if ij: "i \<in> set (holm_order values)" "j \<in> set (holm_order values)" "\<not> f_lt (values ! j) (values ! i)" for i j
  proof -
    obtain a b where "values ! i = Fin a" "values ! j = Fin b" using ij(1,2) f unfolding s by blast
    then show ?thesis using ij(3) by simp
  qed
  then show "sorted_wrt (\<lambda>i j. f_le (values ! i) (values ! j)) (holm_order values)"
    using w by (rule sorted_wrt_mono_rel)
  show "length (holm_order values) = length values" by (simp add: holm_order_def)
  have "mset (holm_order values) = mset [0 ..< length values]" by (simp add: holm_order_def)
  then show "distinct (holm_order values)" using mset_eq_imp_distinct_iff distinct_upt by blast
qed

text \<open>What the procedure leaves: the thresholds and the rejections in the order of the p-values.\<close>

lemma holm_decisions_ok:
  assumes "holm_decisions values planned alpha = Inr ds"
  shows "length ds = length values" "map hd_p_value ds = values"
    and "k < length values \<Longrightarrow> hd_rejected (ds ! (holm_order values ! k)) = holm_reject values planned alpha (holm_order values) k"
    and "k < length values \<Longrightarrow> hd_threshold (ds ! (holm_order values ! k)) = threshold_at planned alpha k"
    and "k < length values \<Longrightarrow> is_ok (holm_threshold planned alpha k)"
    and "list_all (\<lambda>v. f_le (Fin 0) v \<and> f_le v (Fin 1)) values" "int (length values) \<le> planned"
    and "\<exists>a. alpha = Fin a \<and> 0 < a \<and> a < 1"
proof -
  let ?n = "length values"
  let ?s0 = "\<lparr> hs_thresholds = replicate ?n (Fin 0), hs_rejected = replicate ?n False, hs_stopped = False \<rparr>"
  let ?os = "holm_order values"
  obtain st where st: "rfold (holm_step values planned alpha) ?s0 (enumerate 0 ?os) = Inr st"
    and ds: "ds = map (\<lambda>(i, v). \<lparr> hd_p_value = v, hd_threshold = hs_thresholds st ! i, hd_rejected = hs_rejected st ! i \<rparr>)
      (enumerate 0 values)"
    using assms by (auto simp: holm_decisions_def)
  show v: "list_all (\<lambda>v. f_le (Fin 0) v \<and> f_le v (Fin 1)) values" and "int ?n \<le> planned"
    using assms by (auto simp: holm_decisions_def list_all_iff)
  show "\<exists>a. alpha = Fin a \<and> 0 < a \<and> a < 1" using assms by (cases alpha) (auto simp: holm_decisions_def)
  note os = holm_order_sorted [OF v]
  show "length ds = ?n" by (simp add: ds)
  show "map hd_p_value ds = values" by (rule nth_equalityI) (simp_all add: ds nth_enumerate_eq)
  have at: "ds ! i = \<lparr> hd_p_value = values ! i, hd_threshold = hs_thresholds st ! i, hd_rejected = hs_rejected st ! i \<rparr>"
    if "i < ?n" for i using that by (simp add: ds nth_enumerate_eq)
  have f: "hs_thresholds st ! (?os ! k) = threshold_at planned alpha k
      \<and> hs_rejected st ! (?os ! k) = (\<forall>l \<le> k. f_le (values ! (?os ! l)) (threshold_at planned alpha l))"
    if "k < ?n" for k
  proof -
    have b: "?os ! k < ?n" using os(2,3) that nth_mem [of k ?os] by auto
    then show ?thesis using holm_fold [OF st os(4)] os(2,3) that by auto
  qed
  show "is_ok (holm_threshold planned alpha k)" if "k < ?n" using holm_fold_thresholds [OF st] os(3) that by simp
  show "hd_rejected (ds ! (?os ! k)) = holm_reject values planned alpha ?os k"
    "hd_threshold (ds ! (?os ! k)) = threshold_at planned alpha k" if "k < ?n"
    using f [OF that] at [of "?os ! k"] os(2,3) that nth_mem [of k ?os]
    by (auto simp: holm_reject_def list_all_iff less_Suc_eq_le)
qed

text \<open>
  The step-down loop computes the Holm procedure: in the order of the p-values a hypothesis is
  rejected exactly when its p-value and every smaller one is at or below \<open>alpha / (planned - k)\<close>,
  each threshold a rounded binary64 quotient. With a rejected hypothesis every one with a p-value
  at or below it is rejected.
\<close>

theorem holm_decisions_equiv:
  "case holm_decisions values planned alpha of
     Inr ds \<Rightarrow> map hd_p_value ds = values
       \<and> sorted_wrt (\<lambda>i j. f_le (values ! i) (values ! j)) (holm_order values)
       \<and> mset (holm_order values) = mset [0 ..< length values]
       \<and> map (\<lambda>i. hd_rejected (ds ! i)) (holm_order values)
           = map (holm_reject values planned alpha (holm_order values)) [0 ..< length values]
       \<and> list_all (\<lambda>d. list_all (\<lambda>e. if hd_rejected d \<and> f_le (hd_p_value e) (hd_p_value d) then hd_rejected e else True) ds) ds
   | Inl e \<Rightarrow> True"
proof (cases "holm_decisions values planned alpha")
  case (Inr ds)
  note k = holm_decisions_ok [OF Inr]
  note os = holm_order_sorted [OF k(6)]
  let ?os = "holm_order values"
  obtain a where a: "alpha = Fin a" "0 < a" "a < 1" using k(8) by blast
  have p: "hd_p_value (ds ! i) = values ! i" if "i < length values" for i
    using k(1,2) that nth_map [of i ds hd_p_value] by simp
  have pos: "\<exists>k < length values. ?os ! k = i" if "i < length values" for i
    using that os(2,3) by (metis in_set_conv_nth lessThan_iff)
  have rej: "hd_rejected (ds ! j)"
    if ij: "i < length values" "j < length values" and r: "hd_rejected (ds ! i)" "f_le (values ! j) (values ! i)" for i j
  proof -
    obtain x y where xy: "x < length values" "?os ! x = i" "y < length values" "?os ! y = j" using pos ij by blast
    then have "holm_reject values planned alpha ?os x" using k(3) [of x] r by simp
    then have "holm_reject values planned alpha ?os y"
      using holm_reject_down [of "values" planned a "?os" x y] xy r os a k(5,7) by simp
    then show ?thesis using k(3) [of y] xy by simp
  qed
  have "hd_rejected e" if de: "d \<in> set ds" "e \<in> set ds" "hd_rejected d" "f_le (hd_p_value e) (hd_p_value d)" for d e
  proof -
    obtain i j where ij: "i < length values" "j < length values" "d = ds ! i" "e = ds ! j"
      using de(1,2) k(1) by (metis in_set_conv_nth)
    then show ?thesis using rej [OF ij(1,2)] de(3,4) p by simp
  qed
  then have "list_all (\<lambda>d. list_all (\<lambda>e. if hd_rejected d \<and> f_le (hd_p_value e) (hd_p_value d) then hd_rejected e else True) ds) ds"
    unfolding list_all_iff by (meson if_split)
  moreover have "map (\<lambda>i. hd_rejected (ds ! i)) ?os = map (holm_reject values planned alpha ?os) [0 ..< length values]"
    by (rule nth_equalityI) (simp_all add: os(3) k(3))
  moreover have "mset ?os = mset [0 ..< length values]" by (simp add: holm_order_def)
  ultimately show ?thesis using Inr k(2) os(1) by simp
qed simp

section \<open>The bootstrap interval\<close>

text \<open>What is assumed of \<open>math.exp\<close>: it is monotone where it returns and raises \<open>OverflowError\<close> only.\<close>

definition exp_contract :: "libm \<Rightarrow> bool" where
  "exp_contract m \<longleftrightarrow> (\<forall>x. errs (\<lambda>e. exn_of e = OverflowError) (m_exp m x))
     \<and> (\<forall>x y a b. f_le x y \<longrightarrow> m_exp m x = Inr a \<longrightarrow> m_exp m y = Inr b \<longrightarrow> f_le a b)"

lemma fmean_number:
  assumes "list_all isfinite xs" "fmean xs = Inr v"
  shows "v \<noteq> NaN"
proof -
  obtain qs where "xs = map Fin qs" using assms(1)
    by (induction xs) (auto simp: isfinite_conv, metis list.simps(9))
  then show ?thesis using assms(2)
    by (auto simp: fmean_def fsum_def float_of_int_def f_div_def to_float_def Let_def split: if_splits pyfloat.splits)
qed

lemma draw_blocks_finite:
  assumes "draws_below randrange" "list_all isfinite logs" "logs \<noteq> []"
  shows "list_all isfinite (fst (draw_blocks randrange logs k g))"
proof (induction k arbitrary: g)
  case (Suc k)
  obtain j g1 where j: "randrange g (length logs) = (j, g1)" by fastforce
  then have "j < length logs" using assms(1,3) unfolding draws_below_def by (metis fst_conv length_greater_0_conv)
  then have "isfinite (logs ! j)" using assms(2) by (simp add: list_all_length)
  then show ?case using j Suc [of g1] by (auto split: prod.splits)
qed simp

lemma resample_means_ok:
  assumes "draws_below randrange" "list_all isfinite logs" "logs \<noteq> []"
  shows "resample_means randrange logs k g = Inr ms \<Longrightarrow> length ms = k \<and> list_all (\<lambda>v. v \<noteq> NaN) ms"
proof (induction k arbitrary: g ms)
  case (Suc k)
  obtain xs g1 where d: "draw_blocks randrange logs (length logs) g = (xs, g1)" by fastforce
  then have "list_all isfinite xs" using draw_blocks_finite [OF assms] by (metis fst_conv)
  then show ?case using Suc d fmean_number by auto
qed simp

text \<open>A share of the last position is a position, and a larger share a later one.\<close>

lemma quantile_at_position:
  assumes "0 \<le> s" "s \<le> 1" "1 \<le> resamples" "resamples \<le> 2 ^ 53" "int (length means) = resamples"
  shows "quantile_at means (Fin s) resamples = Inr (means ! nat \<lfloor>fl (s * of_int (resamples - 1))\<rfloor>)"
    and "nat \<lfloor>fl (s * of_int (resamples - 1))\<rfloor> < length means"
proof -
  let ?n = "of_int (resamples - 1) :: rat"
  have n: "float_of_int (resamples - 1) = Inr (Fin ?n)" "fl ?n = ?n"
    using float_of_int_small [of "resamples - 1"] fl_of_int [of "resamples - 1"] assms(3,4) by simp_all
  have x: "0 \<le> s * ?n" "s * ?n \<le> ?n"
    using assms(1-3) by (simp_all add: mult_left_le_one_le)
  have "?n \<le> of_int (2 ^ 53)" using assms(4) by (simp only: of_int_le_iff)
  then have "s * ?n \<le> 2 ^ 53" using x(2) by simp
  then have t: "to_float (s * ?n) = Fin (fl (s * ?n))" "0 \<le> fl (s * ?n)"
    using to_float_range [of "s * ?n" 53] x(1) by simp_all
  have "fl (s * ?n) \<le> ?n" using fl_mono [OF x(2)] n(2) by simp
  then have f: "0 \<le> \<lfloor>fl (s * ?n)\<rfloor>" "\<lfloor>fl (s * ?n)\<rfloor> \<le> resamples - 1"
    using t(2) by (simp, metis floor_mono floor_of_int)
  then show "nat \<lfloor>fl (s * ?n)\<rfloor> < length means" using assms(5) by linarith
  show "quantile_at means (Fin s) resamples = Inr (means ! nat \<lfloor>fl (s * ?n)\<rfloor>)"
    using n(1) t(1) f assms(5) by (simp add: quantile_at_def f_mul_def f_floor_def list_at_def Let_def)
qed

lemma tail_shares:
  assumes "f_lt (Fin 0) c" "f_lt c (Fin 1)"
  shows "\<exists>t. f_div (f_sub (Fin 1) c) (Fin 2) = Inr (Fin t) \<and> 0 \<le> t \<and> t \<le> 1
    \<and> f_sub (Fin 1) (Fin t) = Fin (fl (1 - t)) \<and> t \<le> fl (1 - t) \<and> fl (1 - t) \<le> 1"
proof -
  obtain a where a: "c = Fin a" "0 < a" "a < 1" using assms by (cases c) auto
  have u: "to_float (1 - a) = Fin (fl (1 - a))" "0 \<le> fl (1 - a)" "fl (1 - a) \<le> 1"
    using to_float_unit [of "1 - a"] ieee.rnd_unit_interval [of "1 - a"] a by simp_all
  define t where "t = fl (fl (1 - a) / 2)"
  have t: "to_float (fl (1 - a) / 2) = Fin t" "0 \<le> t" "t \<le> 1 / 2"
    using to_float_unit [of "fl (1 - a) / 2"] fl_nonneg [of "fl (1 - a) / 2"] fl_mono [of "fl (1 - a) / 2" "1 / 2"] u fl_half
    by (simp_all add: t_def)
  have "to_float (1 - t) = Fin (fl (1 - t))" "1 / 2 \<le> fl (1 - t)" "fl (1 - t) \<le> 1"
    using to_float_unit [of "1 - t"] ieee.rnd_unit_interval [of "1 - t"] fl_mono [of "1 / 2" "1 - t"] fl_half t by simp_all
  then show ?thesis using a u t by (intro exI [of _ t]) (simp add: f_sub_def f_div_def)
qed

lemma sort_by_le:
  assumes "list_all (\<lambda>v. v \<noteq> NaN) ms" "i \<le> j" "j < length ms"
  shows "f_le (sort_by id ms ! i) (sort_by id ms ! j)"
proof -
  let ?s = "sort_by id ms"
  have n: "?s ! k \<noteq> NaN" if "k < length ms" for k
    using assms(1) that nth_mem [of k ?s] by (auto simp: list_all_iff)
  have w: "sorted_wrt (\<lambda>a b. \<not> f_lt b a) ?s" using sort_by_sorted [of id ms] assms(1) by simp
  show ?thesis
  proof (cases "i = j")
    case False
    then have "\<not> f_lt (?s ! j) (?s ! i)" using sorted_wrt_nth_less [OF w, of i j] assms(2,3) by simp
    then show ?thesis using n [of i] n [of j] assms(2,3) f_le_antisym_lt [of "?s ! j" "?s ! i"] by simp
  next
    case True
    then show ?thesis using n [of j] assms(3) by (cases "?s ! j") auto
  qed
qed

lemma fmean_errs:
  assumes "list_all isfinite xs" "xs \<noteq> []"
  shows "errs (\<lambda>e. exn_of e = OverflowError) (fmean xs)"
proof -
  obtain qs where q: "xs = map Fin qs" using assms(1)
    by (induction xs) (auto simp: isfinite_conv, metis list.simps(9))
  have "\<exists>x. f_div v (Fin (fl (of_int (int (length xs))))) = Inr x" for v
  proof -
    have "(1 :: rat) \<le> of_int (int (length xs))" using assms(2) by (cases xs) auto
    then have "1 \<le> fl (of_int (int (length xs)))" using fl_mono [of 1] by simp
    then show ?thesis by (intro f_div_total) simp
  qed
  then have "errs (\<lambda>e. exn_of e = OverflowError) (f_div v n)" if "float_of_int (int (length xs)) = Inr n" for v n
    using float_of_int_Inr [OF that] by (metis errs_simps(2))
  moreover have "errs (\<lambda>e. exn_of e = OverflowError) (fsum xs)" "errs (\<lambda>e. exn_of e = OverflowError) (float_of_int i)" for i
    by (auto simp: q fsum_def float_of_int_def split: pyfloat.splits)
  ultimately show ?thesis using assms(2) by (auto simp: fmean_def intro!: errs_rbind)
qed

lemma draw_blocks_length: "length (fst (draw_blocks randrange logs k g)) = k"
  by (induction k arbitrary: g) (auto split: prod.splits, metis fst_conv)

lemma resample_means_errs:
  assumes "draws_below randrange" "list_all isfinite logs" "logs \<noteq> []"
  shows "errs (\<lambda>e. exn_of e = OverflowError) (resample_means randrange logs k g)"
proof (induction k arbitrary: g)
  case (Suc k)
  obtain xs g1 where d: "draw_blocks randrange logs (length logs) g = (xs, g1)" by fastforce
  then have "list_all isfinite xs" "xs \<noteq> []"
    using draw_blocks_finite [OF assms, of "length logs" g] draw_blocks_length [of randrange logs "length logs" g] assms(3) by auto
  then show ?case using Suc [of g1] d fmean_errs by (auto intro!: errs_rbind)
qed simp

definition bootstrap_error :: "pyerr \<Rightarrow> bool" where
  "bootstrap_error e \<longleftrightarrow> exn_of e \<in> {ValueError, OverflowError}"

lemma bootstrap_error_mono: "errs (\<lambda>e. exn_of e = OverflowError) r \<Longrightarrow> errs bootstrap_error r"
  by (cases r) (simp_all add: bootstrap_error_def)

text \<open>Both percentiles of the sorted means exist, the lower one at or below the upper one.\<close>

lemma percentiles:
  assumes "list_all (\<lambda>v. v \<noteq> NaN) ms" "int (length ms) = resamples" "1 \<le> resamples" "resamples \<le> 2 ^ 53"
    and "0 \<le> s" "s \<le> t" "t \<le> 1"
  shows "\<exists>a b. quantile_at (sort_by id ms) (Fin s) resamples = Inr a
    \<and> quantile_at (sort_by id ms) (Fin t) resamples = Inr b \<and> f_le a b"
proof -
  let ?n = "of_int (resamples - 1) :: rat"
  note q = quantile_at_position [of _ resamples "sort_by id ms"]
  have "s * ?n \<le> t * ?n" using assms(3,6) by (intro mult_right_mono) simp_all
  then have le: "nat \<lfloor>fl (s * ?n)\<rfloor> \<le> nat \<lfloor>fl (t * ?n)\<rfloor>" by (intro nat_mono floor_mono fl_mono)
  have "f_le (sort_by id ms ! nat \<lfloor>fl (s * ?n)\<rfloor>) (sort_by id ms ! nat \<lfloor>fl (t * ?n)\<rfloor>)"
    using sort_by_le [OF assms(1) le] q(2) [of t] assms by simp
  then show ?thesis using q(1) [of s] q(1) [of t] assms by simp
qed

definition bootstrap_args :: "pyfloat list \<Rightarrow> int \<Rightarrow> pyfloat \<Rightarrow> bool" where
  "bootstrap_args logs resamples confidence \<longleftrightarrow> list_all isfinite logs \<and> logs \<noteq> [] \<and> 1 \<le> resamples
     \<and> f_lt (Fin 0) confidence \<and> f_lt confidence (Fin 1)"

definition interval_of :: "libm \<Rightarrow> pyfloat list \<Rightarrow> pyfloat \<Rightarrow> pyfloat \<Rightarrow> ratio_interval res" where
  "interval_of m logs low high =
     rbind (fmean logs) (\<lambda>mean. rbind (m_exp m mean) (\<lambda>estimate. rbind (m_exp m low) (\<lambda>elow. rbind (m_exp m high) (\<lambda>ehigh.
     Inr \<lparr> ri_estimate = estimate, ri_low = elow, ri_high = ehigh, ri_n = length logs \<rparr>))))"

text \<open>Past its checks the function is the interval of two percentiles.\<close>

lemma bootstrap_interval_of:
  assumes "draws_below randrange" "resamples \<le> 2 ^ 53" "bootstrap_args logs resamples confidence"
    and "resample_means randrange logs (nat resamples) (random seed) = Inr ms"
  shows "\<exists>a b. f_le a b \<and> block_bootstrap_interval m random randrange logs resamples seed confidence = interval_of m logs a b"
proof -
  have v: "list_all isfinite logs" "logs \<noteq> []" "1 \<le> resamples" "f_lt (Fin 0) confidence" "f_lt confidence (Fin 1)"
    using assms(3) by (simp_all add: bootstrap_args_def)
  have ms: "list_all (\<lambda>v. v \<noteq> NaN) ms" "int (length ms) = resamples"
    using resample_means_ok [OF assms(1) v(1,2) assms(4)] v(3) by simp_all
  obtain t where t: "f_div (f_sub (Fin 1) confidence) (Fin 2) = Inr (Fin t)" "0 \<le> t"
    "f_sub (Fin 1) (Fin t) = Fin (fl (1 - t))" "t \<le> fl (1 - t)" "fl (1 - t) \<le> 1"
    using tail_shares [OF v(4,5)] by blast
  obtain a b where ab: "quantile_at (sort_by id ms) (Fin t) resamples = Inr a"
    "quantile_at (sort_by id ms) (Fin (fl (1 - t))) resamples = Inr b" "f_le a b"
    using percentiles [OF ms v(3) assms(2) t(2,4,5)] by blast
  have "block_bootstrap_interval m random randrange logs resamples seed confidence = interval_of m logs a b"
    unfolding block_bootstrap_interval_def finite_logs_def interval_of_def
    using v t(1,3) ab(1,2) assms(4) by simp
  then show ?thesis using ab(3) by blast
qed

lemma bootstrap_cases:
  assumes "draws_below randrange" "exp_contract m" "resamples \<le> 2 ^ 53"
  shows "errs bootstrap_error (block_bootstrap_interval m random randrange logs resamples seed confidence)"
    and "block_bootstrap_interval m random randrange logs resamples seed confidence = Inr ri
      \<Longrightarrow> f_le (ri_low ri) (ri_high ri) \<and> ri_n ri = length logs"
proof -
  let ?b = "block_bootstrap_interval m random randrange logs resamples seed confidence"
  have "errs bootstrap_error ?b \<and> (\<forall>ri. ?b = Inr ri \<longrightarrow> f_le (ri_low ri) (ri_high ri) \<and> ri_n ri = length logs)"
  proof (cases "bootstrap_args logs resamples confidence")
    case False
    then have "\<exists>msg. ?b = raise ValueError msg"
      unfolding block_bootstrap_interval_def finite_logs_def bootstrap_args_def by (auto simp: require_def)
    then show ?thesis by (auto simp: bootstrap_error_def)
  next
    case True
    then have v: "list_all isfinite logs" "logs \<noteq> []" by (simp_all add: bootstrap_args_def)
    show ?thesis
    proof (cases "resample_means randrange logs (nat resamples) (random seed)")
      case (Inl e)
      then have "?b = Inl e" using True
        unfolding block_bootstrap_interval_def finite_logs_def bootstrap_args_def by simp
      then show ?thesis using errsD [OF resample_means_errs [OF assms(1) v] Inl] by (simp add: bootstrap_error_def)
    next
      case (Inr ms)
      obtain a b where ab: "f_le a b" "?b = interval_of m logs a b"
        using bootstrap_interval_of [OF assms(1,3) True, where random = random and seed = seed and ms = ms] Inr by blast
      have "errs bootstrap_error (m_exp m x)" "errs bootstrap_error (fmean logs)" for x
        using assms(2) fmean_errs [OF v] bootstrap_error_mono by (auto simp: exp_contract_def)
      then have "errs bootstrap_error (interval_of m logs a b)" by (auto simp: interval_of_def intro!: errs_rbind)
      moreover have "f_le (ri_low r) (ri_high r) \<and> ri_n r = length logs" if "interval_of m logs a b = Inr r" for r
        using that ab(1) assms(2) by (auto simp: interval_of_def exp_contract_def)
      ultimately show ?thesis using ab(2) by simp
    qed
  qed
  then show "errs bootstrap_error ?b" "?b = Inr ri \<Longrightarrow> f_le (ri_low ri) (ri_high ri) \<and> ri_n ri = length logs" by blast+
qed

text \<open>
  The percentile positions of the bootstrap never leave the list of resampled means, for any
  seed, and the lower end of the interval is at or below the upper one. The function raises only
  \<open>ValueError\<close> for its arguments and \<open>OverflowError\<close> for a value beyond the float range.
\<close>

theorem bootstrap_interval_ordered:
  assumes "draws_below randrange" "exp_contract m" "resamples \<le> 2 ^ 53"
  shows "case block_bootstrap_interval m random randrange logs resamples seed confidence of
     Inr ri \<Rightarrow> f_le (ri_low ri) (ri_high ri) \<and> ri_n ri = length logs
   | Inl e \<Rightarrow> exn_of e \<in> {ValueError, OverflowError}"
proof (cases "block_bootstrap_interval m random randrange logs resamples seed confidence")
  case (Inl e)
  then show ?thesis using errsD [OF bootstrap_cases(1) [OF assms] Inl] by (simp add: bootstrap_error_def)
qed (use bootstrap_cases(2) [OF assms] in simp)

definition plain_libm :: libm where
  "plain_libm = \<lparr> m_exp = Inr, m_log = Inr, m_log1p = Inr, m_lgamma = Inr \<rparr>"

definition first_block :: "nat \<Rightarrow> nat \<Rightarrow> nat \<times> nat" where
  "first_block g n = (0, g)"

lemma first_block_draws: "draws_below first_block" "exp_contract plain_libm"
  by (simp_all add: draws_below_def first_block_def exp_contract_def plain_libm_def)

lemma example_interval_returns:
  "\<exists>ri. block_bootstrap_interval plain_libm nat first_block [Fin 0, Fin 1] 3 7 (Fin (1 / 2)) = Inr ri"
proof -
  have t: "to_float 0 = Fin 0" "to_float 1 = Fin 1" using to_float_small [of 0] to_float_small [of 1] by simp_all
  have n: "float_of_int 2 = Inr (Fin 2)" using float_of_int_small [of 2] by simp
  have m: "fmean [Fin 0, Fin 0] = Inr (Fin 0)" "\<exists>v. fmean [Fin 0, Fin 1] = Inr v"
    by (simp_all add: fmean_def fsum_def t n f_div_def)
  have "resample_means first_block [Fin 0, Fin 1] (nat 3) (nat 7) = Inr [Fin 0, Fin 0, Fin 0]"
    using m(1) by (simp add: numeral_3_eq_3 first_block_def)
  then obtain a b where "block_bootstrap_interval plain_libm nat first_block [Fin 0, Fin 1] 3 7 (Fin (1 / 2))
      = interval_of plain_libm [Fin 0, Fin 1] a b"
    using bootstrap_interval_of [OF first_block_draws(1), of 3 "[Fin 0, Fin 1]" "Fin (1 / 2)" nat 7 _ plain_libm]
    by (auto simp: bootstrap_args_def)
  then show ?thesis using m(2) by (auto simp: interval_of_def plain_libm_def)
qed

theorem bootstrap_interval_ordered_witness:
  "\<exists>ri. block_bootstrap_interval plain_libm nat first_block [Fin 0, Fin 1] 3 7 (Fin (1 / 2)) = Inr ri
     \<and> f_le (ri_low ri) (ri_high ri) \<and> ri_n ri = 2"
  using bootstrap_interval_ordered [OF first_block_draws, of 3 "[Fin 0, Fin 1]" nat 7 "Fin (1 / 2)"] example_interval_returns
  by auto

end
