(* ===== verification/Analyze.thy ===== *)
theory Analyze
  imports Paired_Stats Py_Csv Py_Files "HOL-Library.Product_Lexorder"
begin

text \<open>
  The analysis of a CPU-limits campaign (\<open>cpu-limits/analysis/analyze.py\<close>): the loader of the three
  CSV files, the summary of a cell, the planned contrasts with their paired intervals and Holm
  decisions. Files lie in the store, paths are texts relative to a working directory. The value of the
  analysis is an option: \<open>None\<close> would be a run that does not end.
\<close>

section \<open>Plan\<close>

definition PROTOCOL :: string where "PROTOCOL = ''cpu-limits-v1''"
definition MIN_BLOCKS :: nat where "MIN_BLOCKS = 3"
definition PERFORMANCE_MARGIN :: pyfloat where "PERFORMANCE_MARGIN = to_float (5 / 100)"
definition THROTTLE_MARGIN :: pyfloat where "THROTTLE_MARGIN = to_float (1 / 10)"

definition BLOCK_COLUMNS :: "string list" where
  "BLOCK_COLUMNS = [''protocol'', ''phase'', ''run_id'', ''block_id'', ''seed'', ''position'', ''cell_id'', ''workload'',
     ''policy'', ''condition'', ''node'', ''pod_uid'', ''status'', ''started_at'', ''finished_at'']"

definition CGROUP_COLUMNS :: "string list" where
  "CGROUP_COLUMNS = [''protocol'', ''run_id'', ''block_id'', ''cell_id'', ''captured_at'', ''window'', ''level'', ''path'',
     ''key'', ''value'', ''unit'']"

definition METRIC_COLUMNS :: "string list" where
  "METRIC_COLUMNS = [''protocol'', ''run_id'', ''block_id'', ''cell_id'', ''timestamp'', ''source'', ''metric'', ''value'',
     ''unit'', ''labels_json'']"

record family =
  fam_name :: string
  fam_control :: string
  fam_treatment :: string
  fam_condition :: string
  fam_margin :: pyfloat
  fam_size :: int

definition FAMILIES :: "family list" where
  "FAMILIES =
    [\<lparr> fam_name = ''limit_effect'', fam_control = ''fit'', fam_treatment = ''burstable-low'', fam_condition = ''solo'',
       fam_margin = PERFORMANCE_MARGIN, fam_size = 4 \<rparr>,
     \<lparr> fam_name = ''request_weight'', fam_control = ''request-high'', fam_treatment = ''request-low'', fam_condition = ''contention'',
       fam_margin = PERFORMANCE_MARGIN, fam_size = 4 \<rparr>,
     \<lparr> fam_name = ''guaranteed_vs_burstable'', fam_control = ''burstable-low'', fam_treatment = ''guaranteed-low'', fam_condition = ''contention'',
       fam_margin = PERFORMANCE_MARGIN, fam_size = 4 \<rparr>,
     \<lparr> fam_name = ''throttle_gap'', fam_control = ''fit'', fam_treatment = ''burstable-low'', fam_condition = ''solo'',
       fam_margin = THROTTLE_MARGIN, fam_size = 8 \<rparr>]"

definition THROUGHPUT_METRICS :: "(string \<times> string list) list" where
  "THROUGHPUT_METRICS =
    [(''cpu-bound'', [''bogo_ops_per_second'', ''ops_per_second'', ''throughput'']),
     (''io-bound'', [''requests_per_second'', ''throughput'']),
     (''memory-bound'', [''bogo_ops_per_second'', ''ops_per_second'', ''throughput'']),
     (''hybrid'', [''frames_per_second'', ''throughput''])]"

section \<open>Reading\<close>

definition missing_columns :: "string list \<Rightarrow> string list option \<Rightarrow> string list" where
  "missing_columns required names = sort (filter (\<lambda>c. c \<notin> set (case names of None \<Rightarrow> [] | Some ns \<Rightarrow> ns)) required)"

definition check_protocol :: "string \<Rightarrow> pydict \<Rightarrow> unit res" where
  "check_protocol p row = rbind (ditem row ''protocol'') (\<lambda>v.
     require (v = VStr PROTOCOL) ValueError (p @ '': unsupported protocol '' @ py_repr v) (Inr ()))"

definition read_csv :: "path \<Rightarrow> fs \<Rightarrow> string \<Rightarrow> string list \<Rightarrow> pydict list res" where
  "read_csv cwd fs p required =
     rbind (read_text fs (path_join cwd p)) (\<lambda>text. case dict_reader text of (names, rows) \<Rightarrow>
     let missing = missing_columns required names in
     require (missing = []) ValueError (p @ '': missing required column(s): '' @ py_repr (VList (map VStr missing))) (
     rbind (rforeach (check_protocol p) rows) (\<lambda>_. Inr rows)))"

definition analyze_number :: "pyval \<Rightarrow> string \<Rightarrow> pyfloat res" where
  "analyze_number v name =
     as_str v TypeError ''float() argument must be a string or a real number'' (\<lambda>s.
     as_some (py_float s) ValueError (name @ '' must be numeric'') (\<lambda>x.
     require (isfinite x \<and> \<not> f_lt x (Fin 0)) ValueError (name @ '' must be finite and non-negative'') (Inr x)))"

definition stripped :: "pydict \<Rightarrow> string \<Rightarrow> string res" where
  "stripped row k = rbind (ditem row k) (\<lambda>v. as_str v AttributeError ''object has no attribute strip'' (\<lambda>s. Inr (strip s)))"

definition pilot_path :: "string \<Rightarrow> bool" where
  "pilot_path p \<longleftrightarrow> ''pilot'' \<in> set (map py_lower (path_parts p))"

definition metric_step :: "(string \<times> string \<times> pyfloat) list \<Rightarrow> pydict \<Rightarrow> (string \<times> string \<times> pyfloat) list res" where
  "metric_step vals row =
     rbind (stripped row ''metric'') (\<lambda>metric.
     require (metric \<noteq> []) ValueError ''metrics CSV has an empty metric name'' (
     rbind (stripped row ''timestamp'') (\<lambda>timestamp.
     rbind (ditem row ''value'') (\<lambda>raw.
     rbind (analyze_number raw (''metric '' @ metric)) (\<lambda>x.
     Inr (case map_of vals metric of
         Some (old, _) \<Rightarrow> if old \<le> timestamp then AList.update metric (timestamp, x) vals else vals
       | None \<Rightarrow> AList.update metric (timestamp, x) vals))))))"

definition metric_values :: "pydict list \<Rightarrow> (string \<times> pyfloat) list res" where
  "metric_values rows = rbind (rfold metric_step [] rows) (\<lambda>vals. Inr (map (\<lambda>(n, _, x). (n, x)) vals))"

section \<open>The cgroup summary\<close>

definition PREFERRED_LEVELS :: "string list" where
  "PREFERRED_LEVELS = [''container_leaf'', ''container_scope'', ''pod_slice'']"

type_synonym window_values = "((pyval \<times> pyval) \<times> pyfloat) list"

definition cgroup_row ::
  "window_values \<times> (string \<times> string) list \<Rightarrow> pydict \<Rightarrow> (window_values \<times> (string \<times> string) list) res" where
  "cgroup_row st row = (case st of (vals, params) \<Rightarrow>
     rbind (ditem row ''key'') (\<lambda>key. rbind (ditem row ''window'') (\<lambda>window.
     rbind (stripped row ''value'') (\<lambda>raw.
     if key = VStr ''cpu.max.quota'' \<and> raw = ''max'' then Inr (vals, AList.update ''cpu.max.quota'' raw params)
     else rbind (analyze_number (VStr raw) (''cgroup '' @ py_str key)) (\<lambda>x.
       Inr (AList.update (window, key) x vals,
         case key of
           VStr k \<Rightarrow> if k \<in> {''cpu.weight'', ''cpu.max.period'', ''cpu.max.quota''} \<and> (window = VStr ''start'' \<or> window = VStr ''end'')
             then AList.update k raw params else params
         | _ \<Rightarrow> params))))))"

definition window_delta :: "window_values \<Rightarrow> string \<Rightarrow> pyfloat option" where
  "window_delta vals key = (case map_of vals (VStr ''measurement_delta'', VStr key) of
     Some x \<Rightarrow> Some x
   | None \<Rightarrow> (case (map_of vals (VStr ''start'', VStr key), map_of vals (VStr ''end'', VStr key)) of
       (Some a, Some b) \<Rightarrow> Some (f_sub b a) | _ \<Rightarrow> None))"

definition micro :: "pyfloat option \<Rightarrow> pyfloat option res" where
  "micro v = (case v of None \<Rightarrow> Inr None | Some x \<Rightarrow> rbind (f_div x (Fin 1000000)) (\<lambda>y. Inr (Some y)))"

definition quota_use :: "pyfloat option \<Rightarrow> pyfloat option \<Rightarrow> (string \<times> string) list \<Rightarrow> pyfloat option res" where
  "quota_use usage periods params =
     (case (usage, periods, map_of params ''cpu.max.quota'', map_of params ''cpu.max.period'') of
        (Some u, Some n, Some quota, Some period) \<Rightarrow>
          if quota = ''max'' then Inr None
          else rbind (analyze_number (VStr quota) ''cpu.max.quota'') (\<lambda>q.
            if f_lt (Fin 0) q \<and> f_lt (Fin 0) n then rbind (f_div u (f_mul q n)) (\<lambda>x. Inr (Some x)) else Inr None)
      | _ \<Rightarrow> Inr None)"

definition throttled_share :: "pyfloat option \<Rightarrow> pyfloat option \<Rightarrow> pyfloat option res" where
  "throttled_share periods throttled = (case (periods, throttled) of
     (Some n, Some t) \<Rightarrow> if f_eq n (Fin 0) then Inr None else rbind (f_div t n) (\<lambda>x. Inr (Some x))
   | _ \<Rightarrow> Inr None)"

type_synonym cell_summary = "(string \<times> pyfloat option) list"

definition summary_of :: "window_values \<Rightarrow> (string \<times> string) list \<Rightarrow> cell_summary res" where
  "summary_of vals params =
     (let usage = window_delta vals ''cpu.stat.usage_usec''; periods = window_delta vals ''cpu.stat.nr_periods'';
          throttled_periods = window_delta vals ''cpu.stat.nr_throttled'';
          throttled_usec = window_delta vals ''cpu.stat.throttled_usec'';
          some = window_delta vals ''cpu.pressure.some_total_usec'';
          full = window_delta vals ''cpu.pressure.full_total_usec'' in
      rbind (quota_use usage periods params) (\<lambda>quota_utilization.
      require (case (periods, throttled_periods) of (Some n, Some t) \<Rightarrow> \<not> f_lt n t | _ \<Rightarrow> True) ValueError
        ''nr_throttled exceeds nr_periods'' (
      rbind (micro usage) (\<lambda>u. rbind (throttled_share periods throttled_periods) (\<lambda>share.
      rbind (micro throttled_usec) (\<lambda>t. rbind (micro some) (\<lambda>s. rbind (micro full) (\<lambda>f.
      Inr [(''cpu_usage_seconds'', u), (''quota_utilization'', quota_utilization), (''throttled_period_ratio'', share),
        (''throttled_time_seconds'', t), (''psi_some_seconds'', s), (''psi_full_seconds'', f)]))))))))"

definition cgroup_summary :: "pydict list \<Rightarrow> (cell_summary \<times> (string \<times> string) list) res" where
  "cgroup_summary rows =
     rbind (rmap (\<lambda>row. ditem row ''level'') rows) (\<lambda>levels.
     case find (\<lambda>l. VStr l \<in> set levels) PREFERRED_LEVELS of
       None \<Rightarrow> Inr ([], [])
     | Some selected \<Rightarrow>
         rbind (rfold cgroup_row ([], []) (filter (\<lambda>row. dget row ''level'' = VStr selected) rows)) (\<lambda>(vals, params).
         rbind (summary_of vals params) (\<lambda>summary. Inr (summary, params))))"

section \<open>The loader\<close>

type_synonym row_key = "pyval \<times> pyval"

record campaign_cell =
  ac_block :: pyval
  ac_cell :: pyval
  ac_workload :: pyval
  ac_policy :: pyval
  ac_condition :: pyval
  ac_summary :: cell_summary
  ac_throughput :: "pyfloat option"
  ac_latency :: "pyfloat option"
  ac_metrics :: "(string \<times> pyfloat) list"
  ac_parameters :: "(string \<times> string) list"

record campaign_cells =
  cc_cells :: "campaign_cell list"
  cc_incomplete :: "(row_key \<times> pyval) list"

definition key_of :: "pydict \<Rightarrow> row_key res" where
  "key_of row = rbind (ditem row ''block_id'') (\<lambda>b. rbind (ditem row ''cell_id'') (\<lambda>c. Inr (b, c)))"

type_synonym block_state = "(row_key \<times> pydict) list \<times> (row_key \<times> pyval) list"

definition campaign_row :: "string \<Rightarrow> block_state \<Rightarrow> pydict \<Rightarrow> block_state res" where
  "campaign_row expected_phase st row = (case st of (finished, incomplete) \<Rightarrow>
     rbind (stripped row ''phase'') (\<lambda>phase.
     require (\<not> (phase = ''pilot'' \<and> expected_phase = ''confirmatory'')) ValueError ''confirmatory analysis refuses pilot rows'' (
     require (phase = expected_phase) ValueError
       (''blocks CSV has '' @ repr_str phase @ '' row in '' @ repr_str expected_phase @ '' analysis'') (
     rbind (key_of row) (\<lambda>key.
     require (key \<notin> fst ` set finished) ValueError
       (''duplicate scheduled cell block='' @ py_repr (fst key) @ '' cell='' @ py_repr (snd key)) (
     rbind (ditem row ''status'') (\<lambda>status.
     Inr (if status = VStr ''complete'' then (finished @ [(key, row)], incomplete)
          else (finished, incomplete @ [(key, status)])))))))))"

text \<open>
  \<open>sorted(complete.items())\<close>: the keys differ, so they decide. A short row holds \<open>None\<close>, which cannot
  be compared with a text; such a pair is reached exactly when both kinds occur in one component,
  for the second component among the keys with the same first.
\<close>

definition one_kind :: "pyval list \<Rightarrow> bool" where
  "one_kind vs \<longleftrightarrow> list_all is_str vs \<or> list_all (\<lambda>v. v = VNone) vs"

definition comparable :: "row_key list \<Rightarrow> bool" where
  "comparable keys \<longleftrightarrow> one_kind (map fst keys)
     \<and> list_all (\<lambda>b. one_kind (map snd (filter (\<lambda>k. fst k = b) keys))) (map fst keys)"

definition text_of :: "pyval \<Rightarrow> string" where
  "text_of v = (case v of VStr s \<Rightarrow> s | _ \<Rightarrow> [])"

definition sorted_items :: "(row_key \<times> pydict) list \<Rightarrow> (row_key \<times> pydict) list res" where
  "sorted_items items = require (comparable (map fst items)) TypeError ''not supported between instances of str and NoneType''
     (Inr (sort_key (\<lambda>i. (text_of (fst (fst i)), text_of (snd (fst i)))) items))"

definition first_metric :: "(string \<times> pyfloat) list \<Rightarrow> string list \<Rightarrow> pyfloat option" where
  "first_metric vals names = (case find (\<lambda>n. map_of vals n \<noteq> None) names of None \<Rightarrow> None | Some n \<Rightarrow> map_of vals n)"

definition cell_of :: "(row_key \<times> pydict) list \<Rightarrow> (row_key \<times> pydict) list \<Rightarrow> row_key \<times> pydict \<Rightarrow> campaign_cell res" where
  "cell_of cgroups metrics item = (case item of (key, row) \<Rightarrow>
     rbind (cgroup_summary (map snd (filter (\<lambda>r. fst r = key) cgroups))) (\<lambda>(summary, params).
     rbind (metric_values (map snd (filter (\<lambda>r. fst r = key) metrics))) (\<lambda>vals.
     rbind (ditem row ''workload'') (\<lambda>workload.
     rbind (ditem row ''policy'') (\<lambda>policy.
     rbind (ditem row ''condition'') (\<lambda>condition.
     Inr \<lparr> ac_block = fst key, ac_cell = snd key, ac_workload = workload, ac_policy = policy, ac_condition = condition,
       ac_summary = summary,
       ac_throughput = first_metric vals (case map_of THROUGHPUT_METRICS (text_of workload) of None \<Rightarrow> [] | Some ns \<Rightarrow> ns),
       ac_latency = first_metric vals [''latency_p99_ms'', ''p99_latency_ms''],
       ac_metrics = vals, ac_parameters = params \<rparr>))))))"

definition keyed :: "pydict list \<Rightarrow> (row_key \<times> pydict) list res" where
  "keyed rows = rmap (\<lambda>row. rbind (key_of row) (\<lambda>k. Inr (k, row))) rows"

definition campaign_of :: "string \<Rightarrow> pydict list \<Rightarrow> pydict list \<Rightarrow> pydict list \<Rightarrow> campaign_cells res" where
  "campaign_of expected_phase blocks cgroups metrics =
     rbind (rfold (campaign_row expected_phase) ([], []) blocks) (\<lambda>(finished, incomplete).
     rbind (keyed cgroups) (\<lambda>cgroup_by_cell.
     rbind (keyed metrics) (\<lambda>metric_by_cell.
     rbind (sorted_items finished) (\<lambda>items.
     rbind (rmap (cell_of cgroup_by_cell metric_by_cell) items) (\<lambda>cells.
     Inr \<lparr> cc_cells = sort_key (\<lambda>c. (py_str (ac_block c), py_str (ac_cell c))) cells, cc_incomplete = incomplete \<rparr>)))))"

definition load_campaign :: "path \<Rightarrow> fs \<Rightarrow> string \<Rightarrow> string \<Rightarrow> string \<Rightarrow> string \<Rightarrow> campaign_cells res" where
  "load_campaign cwd fs blocks_path cgroups_path metrics_path expected_phase =
     require (\<not> (expected_phase = ''confirmatory'' \<and> list_ex pilot_path [blocks_path, cgroups_path, metrics_path])) ValueError
       ''confirmatory analysis rejects rows from a pilot tree'' (
     rbind (read_csv cwd fs blocks_path BLOCK_COLUMNS) (\<lambda>blocks.
     rbind (read_csv cwd fs cgroups_path CGROUP_COLUMNS) (\<lambda>cgroups.
     rbind (read_csv cwd fs metrics_path METRIC_COLUMNS) (\<lambda>metrics.
     campaign_of expected_phase blocks cgroups metrics))))"


section \<open>Contrasts\<close>

text \<open>Sequencing of programs that may raise or not end.\<close>

definition obind :: "'a res option \<Rightarrow> ('a \<Rightarrow> 'b res option) \<Rightarrow> 'b res option" where
  "obind m f = (case m of None \<Rightarrow> None | Some (Inl e) \<Rightarrow> Some (Inl e) | Some (Inr x) \<Rightarrow> f x)"

fun omap :: "('a \<Rightarrow> 'b res option) \<Rightarrow> 'a list \<Rightarrow> 'b list res option" where
  "omap f [] = Some (Inr [])"
| "omap f (x # xs) = obind (f x) (\<lambda>y. obind (omap f xs) (\<lambda>ys. Some (Inr (y # ys))))"

definition outcome_of :: "campaign_cell \<Rightarrow> string \<Rightarrow> (string \<times> pyfloat option \<times> bool) res" where
  "outcome_of cell fam =
     (if fam = ''throttle_gap''
      then as_some (map_of (ac_summary cell) ''throttled_period_ratio'') KeyError ''throttled_period_ratio''
        (\<lambda>v. Inr (''throttled_period_ratio'', v, False))
      else if (ac_workload cell = VStr ''io-bound'' \<or> ac_workload cell = VStr ''hybrid'') \<and> ac_latency cell \<noteq> None
      then Inr (''latency_p99_ms'', ac_latency cell, True)
      else Inr (''throughput'', ac_throughput cell, False))"

definition p_value :: "libm \<Rightarrow> pyfloat list \<Rightarrow> pyfloat res" where
  "p_value m logs =
     (if length logs < 2 then Inr (Fin 1)
      else rbind (fmean logs) (\<lambda>mean. rbind (stdev logs) (\<lambda>s.
        rbind (float_sqrt_of_frac (int (length logs)) 1) (\<lambda>r. rbind (f_div s r) (\<lambda>standard_error.
        if f_eq standard_error (Fin 0) then Inr (if \<not> f_eq mean (Fin 0) then Fin 0 else Fin 1)
        else rbind (f_div mean standard_error) (\<lambda>t.
          rbind (student_t_cdf m (int (length logs) - 1) (f_abs t)) (\<lambda>c.
          let p = f_mul (Fin 2) (f_sub (Fin 1) c) in Inr (if f_lt p (Fin 1) then p else Fin 1))))))))"

record gathered =
  ga_control :: block_values
  ga_treatment :: block_values
  ga_metric :: string
  ga_lower :: bool

definition gather_cell :: "family \<Rightarrow> string \<Rightarrow> gathered \<Rightarrow> campaign_cell \<Rightarrow> gathered res" where
  "gather_cell fam workload st cell =
     (if ac_workload cell \<noteq> VStr workload \<or> ac_condition cell \<noteq> VStr (fam_condition fam) then Inr st
      else rbind (outcome_of cell (fam_name fam)) (\<lambda>(metric, v, lower).
        let block = py_str (ac_block cell); st1 = st\<lparr> ga_metric := metric, ga_lower := lower \<rparr>;
            st2 = (if ac_policy cell = VStr (fam_control fam)
              then st1\<lparr> ga_control := AList.update block v (ga_control st1) \<rparr> else st1) in
        Inr (if ac_policy cell = VStr (fam_treatment fam)
          then st2\<lparr> ga_treatment := AList.update block v (ga_treatment st2) \<rparr> else st2)))"

definition gather :: "family \<Rightarrow> string \<Rightarrow> campaign_cell list \<Rightarrow> gathered res" where
  "gather fam workload cells = rfold (gather_cell fam workload)
     \<lparr> ga_control = [], ga_treatment = [], ga_metric = ''throughput'', ga_lower = False \<rparr> cells"

definition drop_zeros :: "block_values \<Rightarrow> block_values" where
  "drop_zeros vs = map (\<lambda>(b, v). (b, case v of Some x \<Rightarrow> if f_lt (Fin 0) x then Some x else None | None \<Rightarrow> None)) vs"

record estimate =
  es_value :: pyfloat
  es_low :: pyfloat
  es_high :: pyfloat
  es_p_value :: pyfloat

record contrast =
  co_family :: family
  co_workload :: string
  co_metric :: string
  co_paired :: "string list"
  co_missing :: "string list"
  co_decision :: string
  co_estimate :: "estimate option"
  co_holm :: "(pyfloat \<times> bool) option"

definition pair_cells :: "libm \<Rightarrow> string \<Rightarrow> campaign_cell list \<Rightarrow> family \<Rightarrow> string \<Rightarrow> (gathered \<times> paired_logs) res" where
  "pair_cells m phase cells fam workload =
     rbind (gather fam workload cells) (\<lambda>g.
     let zeroed = (phase = ''pilot'' \<and> fam_name fam = ''throttle_gap'') in
     rbind (paired_log_ratios m (if zeroed then drop_zeros (ga_control g) else ga_control g)
       (if zeroed then drop_zeros (ga_treatment g) else ga_treatment g)) (\<lambda>paired. Inr (g, paired)))"

definition estimate_row :: "libm \<Rightarrow> string \<Rightarrow> family \<Rightarrow> string \<Rightarrow> gathered \<times> paired_logs \<Rightarrow> contrast res option" where
  "estimate_row m phase fam workload gp = (case gp of (g, paired) \<Rightarrow>
     let row = \<lparr> co_family = fam, co_workload = workload, co_metric = ga_metric g, co_paired = paired_blocks paired,
         co_missing = missing_blocks paired, co_decision = ''incomplete'', co_estimate = None, co_holm = None \<rparr> in
     if missing_blocks paired \<noteq> [] \<or> length (log_ratios paired) < MIN_BLOCKS then Some (Inr row)
     else let logs = map (\<lambda>x. if ga_lower g then f_neg x else x) (log_ratios paired) in
       obind (paired_t_interval m logs (to_float (95 / 100))) (\<lambda>interval.
       obind (Some (p_value m logs)) (\<lambda>p.
       Some (Inr (row\<lparr> co_decision := (if phase = ''pilot'' then ''pilot descriptive'' else ''inconclusive''),
         co_estimate := Some \<lparr> es_value = ri_estimate interval, es_low = ri_low interval, es_high = ri_high interval, es_p_value = p \<rparr> \<rparr>)))))"

definition contrast_of :: "libm \<Rightarrow> string \<Rightarrow> campaign_cell list \<Rightarrow> family \<Rightarrow> string \<Rightarrow> contrast res option" where
  "contrast_of m phase cells fam workload =
     obind (Some (pair_cells m phase cells fam workload)) (estimate_row m phase fam workload)"

definition workloads_of :: "campaign_cell list \<Rightarrow> string list" where
  "workloads_of cells = sort (remdups (map (\<lambda>c. py_str (ac_workload c)) cells))"

section \<open>Decisions\<close>

definition within_band :: "libm \<Rightarrow> pyfloat \<Rightarrow> estimate \<Rightarrow> bool res" where
  "within_band m band est =
     rbind (m_log m (es_low est)) (\<lambda>l.
     if \<not> f_le (f_neg band) l then Inr False
     else rbind (m_log m (es_high est)) (\<lambda>h. Inr (f_le h band)))"

definition decide :: "libm \<Rightarrow> pyfloat \<Rightarrow> contrast \<Rightarrow> estimate \<Rightarrow> holm_decision \<Rightarrow> contrast res" where
  "decide m margin row est correction =
     rbind (m_log m (f_add (Fin 1) margin)) (\<lambda>band.
     let row1 = row\<lparr> co_holm := Some (hd_threshold correction, hd_rejected correction) \<rparr> in
     if hd_rejected correction \<and> f_le (f_add (Fin 1) margin) (es_value est) then Inr (row1\<lparr> co_decision := ''improvement'' \<rparr>)
     else rbind (if hd_rejected correction then rbind (f_div (Fin 1) (f_add (Fin 1) margin)) (\<lambda>b. Inr (f_le (es_value est) b)) else Inr False) (\<lambda>regressed.
       if regressed then Inr (row1\<lparr> co_decision := ''regression'' \<rparr>)
       else rbind (within_band m band est) (\<lambda>inside.
         Inr (if inside then row1\<lparr> co_decision := ''equivalent'' \<rparr> else row1))))"

definition eligible :: "family \<Rightarrow> contrast \<Rightarrow> bool" where
  "eligible fam row \<longleftrightarrow> fam_name (co_family row) = fam_name fam \<and> co_decision row \<noteq> ''incomplete''"

definition row_p_value :: "contrast \<Rightarrow> pyfloat res" where
  "row_p_value row = as_some (co_estimate row) KeyError ''p_value'' (\<lambda>est. Inr (es_p_value est))"

text \<open>The rows in place: an eligible row takes the next correction, the others stay.\<close>

fun apply_corrections :: "libm \<Rightarrow> family \<Rightarrow> holm_decision list \<Rightarrow> contrast list \<Rightarrow> contrast list res" where
  "apply_corrections m fam ds [] = Inr []"
| "apply_corrections m fam ds (row # rows) =
     (if eligible fam row
      then (case ds of
          d # ds' \<Rightarrow> as_some (co_estimate row) KeyError ''estimate'' (\<lambda>est.
            rbind (decide m (fam_margin fam) row est d) (\<lambda>row1.
            rbind (apply_corrections m fam ds' rows) (\<lambda>rest. Inr (row1 # rest))))
        | [] \<Rightarrow> Inr (row # rows))
      else rbind (apply_corrections m fam ds rows) (\<lambda>rest. Inr (row # rest)))"

definition correct_family :: "libm \<Rightarrow> contrast list \<Rightarrow> family \<Rightarrow> contrast list res" where
  "correct_family m rows fam =
     rbind (rmap row_p_value (filter (eligible fam) rows)) (\<lambda>ps.
     rbind (holm_decisions ps (fam_size fam) (to_float (5 / 100))) (\<lambda>ds.
     apply_corrections m fam ds rows))"

record analysis =
  an_phase :: string
  an_cells :: "campaign_cell list"
  an_contrasts :: "contrast list"
  an_incomplete :: "(row_key \<times> pyval) list"

definition analyze :: "libm \<Rightarrow> campaign_cells \<Rightarrow> string \<Rightarrow> analysis res option" where
  "analyze m campaign phase =
     (if phase \<notin> {''pilot'', ''confirmatory''}
      then Some (raise ValueError (''unsupported analysis phase: '' @ repr_str phase))
      else let cells = cc_cells campaign in
        obind (omap (\<lambda>(fam, workload). contrast_of m phase cells fam workload)
          (concat (map (\<lambda>fam. map (\<lambda>w. (fam, w)) (workloads_of cells)) FAMILIES))) (\<lambda>contrasts.
        obind (Some (if phase = ''pilot'' then Inr contrasts else rfold (correct_family m) contrasts FAMILIES)) (\<lambda>decided.
        Some (Inr \<lparr> an_phase = phase, an_cells = cells, an_contrasts = decided, an_incomplete = cc_incomplete campaign \<rparr>))))"


section \<open>Outputs\<close>

definition number_val :: "pyfloat option \<Rightarrow> pyval" where
  "number_val v = (case v of None \<Rightarrow> VNone | Some x \<Rightarrow> VFloat x)"

definition parameters_val :: "campaign_cell \<Rightarrow> pyval" where
  "parameters_val c = VDict (map (\<lambda>(k, v). (k, VStr v)) (ac_parameters c))"

definition summary_cell_val :: "campaign_cell \<Rightarrow> pydict" where
  "summary_cell_val c = [(''block_id'', ac_block c), (''cell_id'', ac_cell c), (''workload'', ac_workload c), (''policy'', ac_policy c),
     (''condition'', ac_condition c)] @ map (\<lambda>(k, v). (k, number_val v)) (ac_summary c)
     @ [(''throughput'', number_val (ac_throughput c)), (''latency_p99_ms'', number_val (ac_latency c)),
        (''metrics'', VDict (map (\<lambda>(k, x). (k, VFloat x)) (ac_metrics c))), (''cgroup_parameters'', parameters_val c)]"

definition contrast_val :: "contrast \<Rightarrow> pyval" where
  "contrast_val r = (let fam = co_family r in VDict (
     [(''family'', VStr (fam_name fam)), (''workload'', VStr (co_workload r)), (''metric'', VStr (co_metric r)),
      (''control'', VStr (fam_control fam)), (''treatment'', VStr (fam_treatment fam)), (''condition'', VStr (fam_condition fam)),
      (''margin'', VFloat (fam_margin fam)), (''planned_family_size'', VInt (fam_size fam)),
      (''paired_blocks'', VList (map VStr (co_paired r))), (''missing_blocks'', VList (map VStr (co_missing r))),
      (''decision'', VStr (co_decision r))]
     @ (case co_estimate r of
          None \<Rightarrow> [(''estimate'', VNone), (''ci_low'', VNone), (''ci_high'', VNone)]
        | Some est \<Rightarrow> [(''estimate'', VFloat (es_value est)), (''ci_low'', VFloat (es_low est)), (''ci_high'', VFloat (es_high est)),
            (''p_value'', VFloat (es_p_value est)), (''oriented'', VBool True)])
     @ (case co_holm r of
          None \<Rightarrow> [] | Some (threshold, rejected) \<Rightarrow> [(''holm_threshold'', VFloat threshold), (''holm_rejected'', VBool rejected)])))"

definition incomplete_val :: "row_key \<times> pyval \<Rightarrow> pyval" where
  "incomplete_val i = VDict [(''block_id'', fst (fst i)), (''cell_id'', snd (fst i)), (''status'', snd i)]"

definition result_val :: "analysis \<Rightarrow> pyval list option \<Rightarrow> pyval" where
  "result_val a trace_rows = VDict (
     [(''protocol'', VStr PROTOCOL), (''phase'', VStr (an_phase a)), (''cells'', VList (map (\<lambda>c. VDict (summary_cell_val c)) (an_cells a))),
      (''contrasts'', VList (map contrast_val (an_contrasts a))), (''incomplete_cells'', VList (map incomplete_val (an_incomplete a)))]
     @ (case trace_rows of None \<Rightarrow> [] | Some rows \<Rightarrow> [(''trace_rows'', VList rows)]))"

definition SUMMARY_COLUMNS :: "string list" where
  "SUMMARY_COLUMNS = [''block_id'', ''cell_id'', ''workload'', ''policy'', ''condition'', ''cpu_usage_seconds'', ''quota_utilization'',
     ''throttled_period_ratio'', ''throttled_time_seconds'', ''psi_some_seconds'', ''psi_full_seconds'', ''throughput'',
     ''latency_p99_ms'', ''cgroup_parameters'']"

text \<open>A field of \<open>csv.writer\<close> with the default quoting, and a row of several fields.\<close>

definition csv_quoted :: "string \<Rightarrow> string" where
  "csv_quoted s = (if list_ex (\<lambda>c. c \<in> set [CHR '','', quot, cr, lf]) s
     then [quot] @ concat (map (\<lambda>c. if c = quot then [quot, quot] else [c]) s) @ [quot] else s)"

definition csv_text :: "pyval \<Rightarrow> string" where
  "csv_text v = csv_quoted (if v = VNone then [] else py_str v)"

definition csv_record :: "pyval list \<Rightarrow> string" where
  "csv_record vs = join '','' (map csv_text vs) @ nl"

definition summary_field :: "pydict \<Rightarrow> string \<Rightarrow> pyval res" where
  "summary_field cell key = rbind (ditem cell key) (\<lambda>v.
     Inr (if key = ''cgroup_parameters'' then VStr (dumps default_style (sort_keys v)) else v))"

text \<open>The lines written before a missing field raised, and the error.\<close>

fun summary_lines :: "campaign_cell list \<Rightarrow> string \<times> pyerr option" where
  "summary_lines [] = ([], None)"
| "summary_lines (c # cs) = (case rmap (summary_field (summary_cell_val c)) SUMMARY_COLUMNS of
     Inl e \<Rightarrow> ([], Some e)
   | Inr vs \<Rightarrow> (case summary_lines cs of (text, e) \<Rightarrow> (csv_record vs @ text, e)))"

definition markdown_lines :: "analysis \<Rightarrow> string list" where
  "markdown_lines a = (let is_pilot = (an_phase a = ''pilot'') in
     [''# CPU-limits '' @ an_phase a @ '' '' @ (if is_pilot then ''descriptive summary'' else ''summary''), [],
      ''Complete cells: '' @ show_nat (length (an_cells a)), ''Incomplete cells: '' @ show_nat (length (an_incomplete a)), [],
      ''## '' @ (if is_pilot then ''Pilot descriptive contrast availability'' else ''Contrasts''), [],
      ''| family | workload | metric | '' @ (if is_pilot then ''pilot label'' else ''decision'') @ '' | paired blocks |'',
      ''|---|---|---|---|---:|'']
     @ map (\<lambda>r. ''| '' @ fam_name (co_family r) @ '' | '' @ co_workload r @ '' | '' @ co_metric r @ '' | '' @ co_decision r @ '' | ''
          @ show_nat (length (co_paired r)) @ '' |'') (an_contrasts a))"

definition write_outputs :: "path \<Rightarrow> analysis \<Rightarrow> pyval list option \<Rightarrow> unit io" where
  "write_outputs output_dir a trace_rows = (case summary_lines (an_cells a) of (text, problem) \<Rightarrow>
     io_then (io_do (mkdir_p output_dir))
    (io_then (write_text (output_dir @ [''summary.csv'']) (csv_record (map VStr SUMMARY_COLUMNS) @ text))
    (io_then (io_lift (case problem of None \<Rightarrow> Inr () | Some e \<Rightarrow> Inl e))
    (io_then (write_text (output_dir @ [''summary.json'']) (dumps indent2_style (sort_keys (result_val a trace_rows)) @ nl))
       (write_text (output_dir @ [''summary.md'']) (join nl (markdown_lines a) @ nl))))))"

definition read_trace_rows :: "fs \<Rightarrow> path \<Rightarrow> pyval list res" where
  "read_trace_rows fs p =
     rbind (read_text fs p) (\<lambda>t. rbind (loads t) (\<lambda>v.
     as_dict v ValueError ''trace rows must contain a JSON object'' (\<lambda>payload.
     as_list (dget_or payload ''trace_rows'' (VList [])) ValueError ''trace rows must contain a trace_rows list'' Inr)))"

text \<open>\<open>main\<close> with its options parsed, returning the line it prints; \<open>analyze\<close> has a value (\<open>analyze_ends\<close>).\<close>

definition analyze_main ::
  "libm \<Rightarrow> path \<Rightarrow> string \<Rightarrow> string \<Rightarrow> string \<Rightarrow> string \<Rightarrow> string option \<Rightarrow> string \<Rightarrow> string io" where
  "analyze_main m cwd phase blocks cgroups metrics trace_rows output_dir =
     io_bind (io_read (\<lambda>fs. load_campaign cwd fs blocks cgroups metrics phase)) (\<lambda>campaign.
     io_bind (io_lift (case analyze m campaign phase of Some r \<Rightarrow> r | None \<Rightarrow> raise RuntimeError [])) (\<lambda>a.
     io_bind (case trace_rows of
         None \<Rightarrow> io_return None
       | Some p \<Rightarrow> io_bind (io_read (\<lambda>fs. read_trace_rows fs (path_join cwd p))) (\<lambda>rows. io_return (Some rows))) (\<lambda>rows.
     io_then (write_outputs (path_join cwd output_dir) a rows)
       (io_return (''wrote '' @ show_nat (length (an_cells a)) @ '' complete cell summaries'')))))"

section \<open>The analysis ends\<close>

lemma obind_simps [simp]:
  "obind (Some (Inr x)) f = f x" "obind (Some (Inl e)) f = Some (Inl e)"
  by (simp_all add: obind_def)

lemma obind_Inr: "obind r f = Some (Inr y) \<longleftrightarrow> (\<exists>x. r = Some (Inr x) \<and> f x = Some (Inr y))"
  by (simp add: obind_def split: option.splits sum.splits)

definition ends :: "'a option \<Rightarrow> bool" where
  "ends r \<longleftrightarrow> r \<noteq> None"

lemma ends_intros:
  "ends (Some x)" "ends r \<Longrightarrow> (\<And>x. ends (f x)) \<Longrightarrow> ends (obind r f)" "ends a \<Longrightarrow> ends b \<Longrightarrow> ends (if c then a else b)"
  "ends q \<Longrightarrow> ends (map_option h q)"
  by (auto simp: ends_def obind_def split: option.splits sum.splits)

lemma omap_ends: "(\<And>x. ends (f x)) \<Longrightarrow> ends (omap f xs)"
  by (induction xs) (simp_all add: ends_intros)

lemma omap_Inr: "omap f xs = Some (Inr ys) \<longleftrightarrow> list_all2 (\<lambda>x y. f x = Some (Inr y)) xs ys"
  by (induction xs arbitrary: ys) (auto simp: obind_Inr list_all2_Cons1)

lemma student_t_quantile_some: "ends (student_t_quantile m p df)"
proof -
  have "ends (quantile_upper m q df)" for q
    using quantile_upper_range [of m q df] by (auto simp: ends_def split: option.splits)
  then show ?thesis unfolding student_t_quantile_def by (intro ends_intros)
qed

lemma paired_t_interval_ends: "ends (paired_t_interval m logs confidence)"
  unfolding paired_t_interval_def
  by (auto split: sum.splits prod.splits intro!: ends_intros student_t_quantile_some)

lemma contrast_of_ends: "ends (contrast_of m phase cells fam workload)"
  unfolding contrast_of_def estimate_row_def Let_def
  by (auto split: prod.splits simp del: obind_simps intro!: ends_intros paired_t_interval_ends)

lemma analyze_ends: "ends (analyze m campaign phase)"
  unfolding analyze_def Let_def
  by (auto split: prod.splits simp del: obind_simps intro!: ends_intros omap_ends contrast_of_ends)

section \<open>Contrasts before the correction\<close>

definition usable :: "contrast \<Rightarrow> bool" where
  "usable r \<longleftrightarrow> co_missing r = [] \<and> MIN_BLOCKS \<le> length (co_paired r)"

text \<open>A contrast as \<open>contrast_of\<close> makes it.\<close>

definition raw_contrast :: "string \<Rightarrow> contrast \<Rightarrow> bool" where
  "raw_contrast phase r \<longleftrightarrow> co_holm r = None \<and> (co_estimate r \<noteq> None \<longleftrightarrow> usable r)
     \<and> co_decision r = (if usable r then if phase = ''pilot'' then ''pilot descriptive'' else ''inconclusive'' else ''incomplete'')"

lemma paired_lengths:
  assumes "paired_log_ratios m control treatment = Inr paired"
  shows "length (log_ratios paired) = length (paired_blocks paired)"
  using assms unfolding paired_log_ratios_def
  by (rule rfold_invariant [of _ _ _ _ "\<lambda>st. length (log_ratios st) = length (paired_blocks st)"])
    (auto simp: pair_block_def split: option.splits)

lemma estimate_row_raw:
  assumes "estimate_row m phase fam workload (g, paired) = Some (Inr r)" "length (log_ratios paired) = length (paired_blocks paired)"
  shows "raw_contrast phase r \<and> co_family r = fam \<and> co_workload r = workload"
proof (cases "missing_blocks paired \<noteq> [] \<or> length (log_ratios paired) < MIN_BLOCKS")
  case True
  then show ?thesis using assms by (auto simp: estimate_row_def raw_contrast_def usable_def)
next
  case False
  then show ?thesis using assms by (auto simp: estimate_row_def raw_contrast_def usable_def obind_Inr Let_def)
qed

lemma contrast_of_raw:
  assumes "contrast_of m phase cells fam workload = Some (Inr r)"
  shows "raw_contrast phase r \<and> co_family r = fam \<and> co_workload r = workload"
proof -
  obtain g paired where gp: "pair_cells m phase cells fam workload = Inr (g, paired)"
    and r: "estimate_row m phase fam workload (g, paired) = Some (Inr r)"
    using assms unfolding contrast_of_def obind_Inr by auto
  obtain a b where "paired_log_ratios m a b = Inr paired" using gp by (auto simp: pair_cells_def Let_def)
  then show ?thesis using estimate_row_raw [OF r] paired_lengths by blast
qed

section \<open>Decisions\<close>

lemma decide_keeps:
  assumes "decide m margin row est d = Inr row'"
  shows "co_family row' = co_family row" "co_estimate row' = co_estimate row" "co_workload row' = co_workload row"
    "co_missing row' = co_missing row" "co_paired row' = co_paired row"
    "co_holm row' = Some (hd_threshold d, hd_rejected d)"
    "co_decision row' \<in> {co_decision row, ''improvement'', ''regression'', ''equivalent''}"
  using assms by (auto simp: decide_def Let_def split: if_splits)


text \<open>
  What a decision says: significant after the correction and beyond the margin, or inside the
  equivalence band, or nothing.
\<close>

definition decision_sound :: "libm \<Rightarrow> contrast \<Rightarrow> bool" where
  "decision_sound m r = (case (co_estimate r, co_holm r) of
     (Some est, Some (threshold, rejected)) \<Rightarrow>
       (let up = f_add (Fin 1) (fam_margin (co_family r)) in
        co_decision r =
          (if rejected \<and> f_le up (es_value est) then ''improvement''
           else if rejected \<and> (case f_div (Fin 1) up of Inr b \<Rightarrow> f_le (es_value est) b | Inl _ \<Rightarrow> False) then ''regression''
           else if (case rbind (m_log m up) (\<lambda>band. within_band m band est) of Inr b \<Rightarrow> b | Inl _ \<Rightarrow> False) then ''equivalent''
           else ''inconclusive''))
   | _ \<Rightarrow> False)"

lemma decide_sound:
  assumes "decide m (fam_margin (co_family r)) r est d = Inr r'" "co_estimate r = Some est" "co_decision r = ''inconclusive''"
  shows "decision_sound m r'"
proof -
  note k = decide_keeps [OF assms(1)]
  define up where "up = f_add (Fin 1) (fam_margin (co_family r))"
  obtain band where band: "m_log m up = Inr band" using assms(1) by (auto simp: decide_def up_def)
  have e: "co_estimate r' = Some est" using k(2) assms(2) by simp
  have dec: "decide m (fam_margin (co_family r)) r est d =
      (let row1 = r\<lparr> co_holm := Some (hd_threshold d, hd_rejected d) \<rparr> in
       if hd_rejected d \<and> f_le up (es_value est) then Inr (row1\<lparr> co_decision := ''improvement'' \<rparr>)
       else rbind (if hd_rejected d then rbind (f_div (Fin 1) up) (\<lambda>b. Inr (f_le (es_value est) b)) else Inr False) (\<lambda>regressed.
         if regressed then Inr (row1\<lparr> co_decision := ''regression'' \<rparr>)
         else rbind (within_band m band est) (\<lambda>inside.
           Inr (if inside then row1\<lparr> co_decision := ''equivalent'' \<rparr> else row1))))"
    unfolding decide_def up_def [symmetric] band by simp
  have goal: "decision_sound m r' \<longleftrightarrow> co_decision r' =
      (if hd_rejected d \<and> f_le up (es_value est) then ''improvement''
       else if hd_rejected d \<and> (case f_div (Fin 1) up of Inr b \<Rightarrow> f_le (es_value est) b | Inl _ \<Rightarrow> False) then ''regression''
       else if (case within_band m band est of Inr b \<Rightarrow> b | Inl _ \<Rightarrow> False) then ''equivalent'' else ''inconclusive'')"
    by (simp add: decision_sound_def e k(1,6) up_def [symmetric] band)
  show ?thesis
  proof (cases "hd_rejected d \<and> f_le up (es_value est)")
    case True
    then show ?thesis using assms(1) unfolding dec goal by auto
  next
    case False
    obtain regressed where reg: "(if hd_rejected d then rbind (f_div (Fin 1) up) (\<lambda>b. Inr (f_le (es_value est) b)) else Inr False) = Inr regressed"
      and r': "(if regressed then Inr (r\<lparr> co_holm := Some (hd_threshold d, hd_rejected d), co_decision := ''regression'' \<rparr>)
         else rbind (within_band m band est) (\<lambda>inside.
           Inr (if inside then r\<lparr> co_holm := Some (hd_threshold d, hd_rejected d), co_decision := ''equivalent'' \<rparr>
             else r\<lparr> co_holm := Some (hd_threshold d, hd_rejected d) \<rparr>))) = Inr r'"
      using assms(1) unfolding dec if_not_P [OF False] Let_def rbind_Inr by auto
    have "regressed \<longleftrightarrow> hd_rejected d \<and> (case f_div (Fin 1) up of Inr b \<Rightarrow> f_le (es_value est) b | Inl _ \<Rightarrow> False)"
      using reg by (auto split: if_splits)
    then show ?thesis using r' False assms(3) unfolding goal by (cases regressed) auto
  qed
qed


section \<open>Corrections\<close>

text \<open>The rows of a family that take part in its correction.\<close>

definition of_family :: "family \<Rightarrow> contrast \<Rightarrow> bool" where
  "of_family fam r \<longleftrightarrow> fam_name (co_family r) = fam_name fam \<and> co_estimate r \<noteq> None"

definition estimated :: "contrast \<Rightarrow> bool" where
  "estimated r \<longleftrightarrow> (co_decision r \<noteq> ''incomplete'') = (co_estimate r \<noteq> None)"

lemma eligible_iff: "estimated r \<Longrightarrow> eligible fam r \<longleftrightarrow> of_family fam r"
  by (auto simp: eligible_def of_family_def estimated_def)

text \<open>A row before and after the corrections of some families.\<close>

definition corrected :: "libm \<Rightarrow> family list \<Rightarrow> contrast \<Rightarrow> contrast \<Rightarrow> bool" where
  "corrected m fams r r' \<longleftrightarrow>
     (if list_ex (\<lambda>fam. of_family fam r) fams
      then \<exists>est d. co_estimate r = Some est \<and> decide m (fam_margin (co_family r)) r est d = Inr r'
      else r' = r)"

lemma corrected_keeps:
  assumes "corrected m fams r r'"
  shows "co_family r' = co_family r" "co_estimate r' = co_estimate r" "co_workload r' = co_workload r"
    "co_missing r' = co_missing r" "co_paired r' = co_paired r" "estimated r \<Longrightarrow> estimated r'" "of_family fam r' = of_family fam r"
proof -
  have k: "co_family r' = co_family r \<and> co_estimate r' = co_estimate r \<and> co_workload r' = co_workload r
      \<and> co_missing r' = co_missing r \<and> co_paired r' = co_paired r \<and> (estimated r \<longrightarrow> estimated r')"
  proof (cases "list_ex (\<lambda>fam. of_family fam r) fams")
    case True
    then obtain est d where d: "co_estimate r = Some est" "decide m (fam_margin (co_family r)) r est d = Inr r'"
      using assms by (auto simp: corrected_def)
    show ?thesis using decide_keeps [OF d(2)] d(1) by (auto simp: estimated_def)
  qed (use assms in \<open>simp add: corrected_def\<close>)
  then show "co_family r' = co_family r" "co_estimate r' = co_estimate r" "co_workload r' = co_workload r"
    "co_missing r' = co_missing r" "co_paired r' = co_paired r" "estimated r \<Longrightarrow> estimated r'" by auto
  show "of_family fam r' = of_family fam r" using k by (simp add: of_family_def)
qed

definition holm_of :: "holm_decision \<Rightarrow> (pyfloat \<times> bool) option" where
  "holm_of d = Some (hd_threshold d, hd_rejected d)"

lemma apply_corrections_ok:
  assumes "apply_corrections m fam ds rows = Inr rows'" "length ds = length (filter (of_family fam) rows)"
    "list_all estimated rows" "\<And>r. r \<in> set rows \<Longrightarrow> of_family fam r \<Longrightarrow> co_family r = fam"
  shows "list_all2 (corrected m [fam]) rows rows' \<and> map co_holm (filter (of_family fam) rows') = map holm_of ds"
  using assms
proof (induction rows arbitrary: ds rows')
  case (Cons r rows)
  have el: "eligible fam r \<longleftrightarrow> of_family fam r" using Cons.prems(3) by (simp add: eligible_iff)
  show ?case
  proof (cases "of_family fam r")
    case True
    obtain d ds' where ds: "ds = d # ds'" using Cons.prems(2) True by (cases ds) auto
    obtain est r1 rest where e: "co_estimate r = Some est" "decide m (fam_margin fam) r est d = Inr r1"
        "apply_corrections m fam ds' rows = Inr rest" "rows' = r1 # rest"
      using Cons.prems(1) True el ds by auto
    have "co_family r = fam" using Cons.prems(4) True by simp
    then have c: "corrected m [fam] r r1" using e True by (auto simp: corrected_def)
    moreover have "of_family fam r1" using corrected_keeps(7) [OF c] True by simp
    moreover have "co_holm r1 = holm_of d" using decide_keeps(6) [OF e(2)] by (simp add: holm_of_def)
    moreover have "list_all2 (corrected m [fam]) rows rest \<and> map co_holm (filter (of_family fam) rest) = map holm_of ds'"
      using Cons.prems True ds by (intro Cons.IH [OF e(3)]) auto
    ultimately show ?thesis using ds e(4) by simp
  next
    case False
    obtain rest where e: "apply_corrections m fam ds rows = Inr rest" "rows' = r # rest"
      using Cons.prems(1) False el by auto
    have "list_all2 (corrected m [fam]) rows rest \<and> map co_holm (filter (of_family fam) rest) = map holm_of ds"
      using Cons.prems False by (intro Cons.IH [OF e(1)]) auto
    moreover have "corrected m [fam] r r" using False by (simp add: corrected_def)
    ultimately show ?thesis using False e(2) by simp
  qed
qed simp

lemma filter_list_all2:
  "list_all2 Q xs ys \<Longrightarrow> (\<And>x y. Q x y \<Longrightarrow> P x = P y) \<Longrightarrow> list_all2 Q (filter P xs) (filter P ys)"
  by (induction rule: list_all2_induct) auto

lemma list_all2_map_eq: "list_all2 Q xs ys \<Longrightarrow> (\<And>x y. Q x y \<Longrightarrow> f x = g y) \<Longrightarrow> map f xs = map g ys"
  by (induction rule: list_all2_induct) auto

lemma list_all2_same_on: "list_all2 Q xs ys \<Longrightarrow> (\<And>x y. x \<in> set xs \<Longrightarrow> Q x y \<Longrightarrow> y = x) \<Longrightarrow> ys = xs"
  by (induction rule: list_all2_induct) auto

definition p_of :: "contrast \<Rightarrow> pyfloat" where
  "p_of r = (case co_estimate r of Some est \<Rightarrow> es_p_value est | None \<Rightarrow> Fin 1)"

text \<open>The flags of the rows of a family are Holm's decisions on their p-values.\<close>

definition family_corrected :: "contrast list \<Rightarrow> family \<Rightarrow> bool" where
  "family_corrected rows fam = (case holm_decisions (map p_of (filter (of_family fam) rows)) (fam_size fam) (to_float (5 / 100)) of
     Inl e \<Rightarrow> False
   | Inr ds \<Rightarrow> map co_holm (filter (of_family fam) rows) = map holm_of ds)"

lemma holm_decisions_length: "holm_decisions ps n alpha = Inr ds \<Longrightarrow> length ds = length ps"
  by (auto simp: holm_decisions_def)

lemma correct_family_ok:
  assumes "correct_family m rows fam = Inr rows'" "list_all estimated rows"
    "\<And>r. r \<in> set rows \<Longrightarrow> of_family fam r \<Longrightarrow> co_family r = fam"
  shows "list_all2 (corrected m [fam]) rows rows'" "family_corrected rows' fam"
proof -
  have f: "filter (eligible fam) rows = filter (of_family fam) rows"
    using assms(2) by (intro filter_cong) (auto simp: list_all_iff eligible_iff)
  obtain ps ds where ps: "rmap row_p_value (filter (of_family fam) rows) = Inr ps"
    and ds: "holm_decisions ps (fam_size fam) (to_float (5 / 100)) = Inr ds" and ap: "apply_corrections m fam ds rows = Inr rows'"
    using assms(1) unfolding correct_family_def f rbind_Inr by blast
  have "ps = map p_of (filter (of_family fam) rows)"
    using ps [unfolded rmap_Inr] by (induction rule: list_all2_induct) (auto simp: row_p_value_def p_of_def)
  then have p: "holm_decisions (map p_of (filter (of_family fam) rows)) (fam_size fam) (to_float (5 / 100)) = Inr ds"
    using ds by simp
  have "length ds = length (filter (of_family fam) rows)" using holm_decisions_length [OF p] by simp
  note a = apply_corrections_ok [OF ap this assms(2,3)]
  then show l: "list_all2 (corrected m [fam]) rows rows'" by blast
  have "list_all2 (corrected m [fam]) (filter (of_family fam) rows) (filter (of_family fam) rows')"
    using l by (rule filter_list_all2) (simp add: corrected_keeps)
  then have "map p_of (filter (of_family fam) rows) = map p_of (filter (of_family fam) rows')"
    by (rule list_all2_map_eq) (simp add: p_of_def corrected_keeps)
  then show "family_corrected rows' fam" using p a by (simp add: family_corrected_def)
qed


lemma correct_families_ok:
  assumes "rfold (correct_family m) rows fams = Inr rows'" "list_all estimated rows" "distinct (map fam_name fams)"
    "\<And>r fam. r \<in> set rows \<Longrightarrow> fam \<in> set fams \<Longrightarrow> of_family fam r \<Longrightarrow> co_family r = fam"
  shows "list_all2 (corrected m fams) rows rows' \<and> list_all (family_corrected rows') fams"
  using assms
proof (induction fams arbitrary: rows)
  case Nil
  then show ?case by (simp add: corrected_def list_all2_same)
next
  case (Cons fam fams)
  obtain rows1 where one: "correct_family m rows fam = Inr rows1" and rest: "rfold (correct_family m) rows1 fams = Inr rows'"
    using Cons.prems(1) by auto
  note c = correct_family_ok [OF one Cons.prems(2)]
  have l: "list_all2 (corrected m [fam]) rows rows1" and fc: "family_corrected rows1 fam"
    using c Cons.prems(4) by auto
  have pre: "list_all estimated rows1" "\<And>r f. r \<in> set rows1 \<Longrightarrow> f \<in> set fams \<Longrightarrow> of_family f r \<Longrightarrow> co_family r = f"
  proof -
    have orig: "\<exists>r \<in> set rows. corrected m [fam] r r1" if "r1 \<in> set rows1" for r1
      using l that by (metis in_set_conv_nth list_all2_conv_all_nth)
    then show "list_all estimated rows1"
      using Cons.prems(2) corrected_keeps(6) by (fastforce simp: list_all_iff)
    show "co_family r = f" if r: "r \<in> set rows1" "f \<in> set fams" "of_family f r" for r f
    proof -
      obtain r0 where "r0 \<in> set rows" "corrected m [fam] r0 r" using orig [OF r(1)] by blast
      then show ?thesis using Cons.prems(4) [of r0 f] r(2,3) corrected_keeps(1,7) by simp
    qed
  qed
  have ih: "list_all2 (corrected m fams) rows1 rows' \<and> list_all (family_corrected rows') fams"
    using Cons.prems(3) pre by (intro Cons.IH [OF rest]) auto
  have other: "\<not> (of_family fam r \<and> list_ex (\<lambda>f. of_family f r) fams)" for r
    using Cons.prems(3) by (force simp: list_ex_iff of_family_def)
  have "corrected m (fam # fams) r r'" if 1: "corrected m [fam] r r1" and 2: "corrected m fams r1 r'" for r r1 r'
    using 1 2 other [of r] other [of r1] corrected_keeps(7) [OF 1]
    by (cases "of_family fam r") (auto simp: corrected_def)
  then have "list_all2 (corrected m (fam # fams)) rows rows'"
    using list_all2_trans [of "corrected m [fam]" "corrected m fams" "corrected m (fam # fams)" rows rows1 rows'] l ih by blast
  moreover have "family_corrected rows' fam"
  proof -
    have "list_all2 (corrected m fams) (filter (of_family fam) rows1) (filter (of_family fam) rows')"
      using ih by (intro filter_list_all2) (auto simp: corrected_keeps)
    then have "filter (of_family fam) rows' = filter (of_family fam) rows1"
      by (rule list_all2_same_on) (use other in \<open>auto simp: corrected_def\<close>)
    then show ?thesis using fc unfolding family_corrected_def by (simp only:)
  qed
  ultimately show ?case using ih by simp
qed


section \<open>Properties\<close>

lemma list_all2_right: "list_all2 Q xs ys \<Longrightarrow> (\<And>x y. Q x y \<Longrightarrow> x \<in> set xs \<Longrightarrow> P y) \<Longrightarrow> list_all P ys"
  by (induction rule: list_all2_induct) auto

lemma families_distinct: "distinct (map fam_name FAMILIES)"
  by (simp add: FAMILIES_def)

lemma family_named: "f \<in> set FAMILIES \<Longrightarrow> g \<in> set FAMILIES \<Longrightarrow> fam_name f = fam_name g \<Longrightarrow> f = g"
  using families_distinct by (metis distinct_map inj_on_def)

lemma raw_estimated: "raw_contrast phase r \<Longrightarrow> estimated r"
  by (auto simp: raw_contrast_def estimated_def)

definition planned_contrasts :: "campaign_cell list \<Rightarrow> (family \<times> string) list" where
  "planned_contrasts cells = concat (map (\<lambda>fam. map (\<lambda>w. (fam, w)) (workloads_of cells)) FAMILIES)"

lemma analyze_steps:
  assumes "analyze m campaign phase = Some (Inr a)"
  obtains contrasts where "list_all (raw_contrast phase) contrasts"
    "map (\<lambda>r. (co_family r, co_workload r)) contrasts = planned_contrasts (cc_cells campaign)"
    "(if phase = ''pilot'' then Inr contrasts else rfold (correct_family m) contrasts FAMILIES) = Inr (an_contrasts a)"
proof -
  have ph: "phase \<in> {''pilot'', ''confirmatory''}" using assms by (auto simp: analyze_def split: if_splits)
  obtain contrasts where c: "omap (\<lambda>(fam, workload). contrast_of m phase (cc_cells campaign) fam workload) (planned_contrasts (cc_cells campaign)) = Some (Inr contrasts)"
    and d: "(if phase = ''pilot'' then Inr contrasts else rfold (correct_family m) contrasts FAMILIES) = Inr (an_contrasts a)"
    using assms ph unfolding analyze_def planned_contrasts_def by (auto simp: Let_def obind_Inr)
  have c2: "list_all2 (\<lambda>x r. raw_contrast phase r \<and> x = (co_family r, co_workload r)) (planned_contrasts (cc_cells campaign)) contrasts"
    using c [unfolded omap_Inr] by (rule list_all2_mono) (auto dest: contrast_of_raw)
  have "list_all (raw_contrast phase) contrasts"
    using c2 by (induction rule: list_all2_induct) auto
  moreover have "map (\<lambda>r. (co_family r, co_workload r)) contrasts = planned_contrasts (cc_cells campaign)"
    using c2 by (induction rule: list_all2_induct) auto
  ultimately show ?thesis using d by (rule that)
qed


definition contrast_ok :: "libm \<Rightarrow> string \<Rightarrow> contrast \<Rightarrow> bool" where
  "contrast_ok m phase r = (if usable r
     then if phase = ''pilot'' then co_decision r = ''pilot descriptive'' \<and> co_holm r = None else decision_sound m r
     else co_decision r = ''incomplete'' \<and> co_estimate r = None \<and> co_holm r = None)"

lemma confirmatory_contrasts:
  assumes raw: "list_all (raw_contrast phase) contrasts" and fam: "\<And>r. r \<in> set contrasts \<Longrightarrow> co_family r \<in> set FAMILIES"
    and conf: "rfold (correct_family m) contrasts FAMILIES = Inr rows" and ph: "phase \<noteq> ''pilot''"
  shows "list_all (contrast_ok m phase) rows" "list_all (family_corrected rows) FAMILIES"
    "map (\<lambda>r. (co_family r, co_workload r)) contrasts = map (\<lambda>r. (co_family r, co_workload r)) rows"
proof -
  have est: "list_all estimated contrasts" using raw by (auto simp: list_all_iff raw_estimated)
  have c: "list_all2 (corrected m FAMILIES) contrasts rows \<and> list_all (family_corrected rows) FAMILIES"
    by (rule correct_families_ok [OF conf est families_distinct]) (use fam family_named in \<open>simp add: of_family_def\<close>)
  have "contrast_ok m phase r'" if cr: "corrected m FAMILIES r r'" and r: "r \<in> set contrasts" for r r'
  proof (cases "usable r")
    case True
    then have e: "co_estimate r \<noteq> None" "co_decision r = ''inconclusive''"
      using raw r ph by (auto simp: list_all_iff raw_contrast_def)
    then have "list_ex (\<lambda>fam. of_family fam r) FAMILIES" using fam [OF r] by (auto simp: list_ex_iff of_family_def)
    then obtain est d where "co_estimate r = Some est" "decide m (fam_margin (co_family r)) r est d = Inr r'"
      using cr by (auto simp: corrected_def)
    then have "decision_sound m r'" using decide_sound e(2) by blast
    then show ?thesis using True ph corrected_keeps(4,5) [OF cr] by (simp add: usable_def contrast_ok_def)
  next
    case False
    then have "co_estimate r = None" "co_decision r = ''incomplete''" "co_holm r = None"
      using raw r by (auto simp: list_all_iff raw_contrast_def)
    moreover from this have "r' = r" using cr by (auto simp: corrected_def list_ex_iff of_family_def)
    ultimately show ?thesis using False by (simp add: contrast_ok_def)
  qed
  then show "list_all (contrast_ok m phase) rows" using c by (intro list_all2_right [of _ contrasts]) blast+
  show "list_all (family_corrected rows) FAMILIES" using c by blast
  show "map (\<lambda>r. (co_family r, co_workload r)) contrasts = map (\<lambda>r. (co_family r, co_workload r)) rows"
    using c by (intro list_all2_map_eq [of "corrected m FAMILIES"]) (auto simp: corrected_keeps)
qed

text \<open>
  C27: the analysis always ends, and its decisions are what the plan says. When it returns, there is
  one contrast per planned family and workload, in the order of the plan. A contrast has an estimate
  exactly when no block is missing and at least three are paired, and is incomplete otherwise. A
  pilot analysis decides nothing. A confirmatory one calls a contrast an improvement or a regression
  only if its p-value is rejected and the estimate lies beyond the margin, equivalent only if the
  interval lies in the band, and the rejections of a family are those of Holm's procedure on the
  p-values of its contrasts with the planned family size.
\<close>

theorem analyze_decisions:
  "case analyze m campaign phase of None \<Rightarrow> False | Some (Inl e) \<Rightarrow> True | Some (Inr a) \<Rightarrow>
     map (\<lambda>r. (co_family r, co_workload r)) (an_contrasts a) = planned_contrasts (cc_cells campaign)
     \<and> list_all (contrast_ok m phase) (an_contrasts a)
     \<and> (if phase = ''pilot'' then True else list_all (family_corrected (an_contrasts a)) FAMILIES)"
proof -
  have "map (\<lambda>r. (co_family r, co_workload r)) (an_contrasts a) = planned_contrasts (cc_cells campaign)
      \<and> list_all (contrast_ok m phase) (an_contrasts a) \<and> (if phase = ''pilot'' then True else list_all (family_corrected (an_contrasts a)) FAMILIES)"
    if ret: "analyze m campaign phase = Some (Inr a)" for a
  proof -
    obtain contrasts where raw: "list_all (raw_contrast phase) contrasts"
      and plan: "map (\<lambda>r. (co_family r, co_workload r)) contrasts = planned_contrasts (cc_cells campaign)"
      and final: "(if phase = ''pilot'' then Inr contrasts else rfold (correct_family m) contrasts FAMILIES) = Inr (an_contrasts a)"
      by (rule analyze_steps [OF ret])
    have fam: "co_family r \<in> set FAMILIES" if "r \<in> set contrasts" for r
    proof -
      have "(co_family r, co_workload r) \<in> set (planned_contrasts (cc_cells campaign))"
        unfolding plan [symmetric] using that by auto
      then show ?thesis by (auto simp: planned_contrasts_def)
    qed
    show ?thesis
    proof (cases "phase = ''pilot''")
      case True
      have "list_all (contrast_ok m phase) contrasts"
        using raw True by (auto simp: list_all_iff raw_contrast_def contrast_ok_def)
      then show ?thesis using True final plan by simp
    next
      case False
      then have "rfold (correct_family m) contrasts FAMILIES = Inr (an_contrasts a)" using final by simp
      from confirmatory_contrasts [OF raw fam this False] show ?thesis using plan False by simp
    qed
  qed
  then show ?thesis using analyze_ends [of m campaign phase] by (fastforce simp: ends_def split: option.splits sum.splits)
qed

section \<open>What the loader keeps\<close>

definition row_key :: "pydict \<Rightarrow> row_key" where
  "row_key row = (dget row ''block_id'', dget row ''cell_id'')"

definition complete_row :: "pydict \<Rightarrow> bool" where
  "complete_row row \<longleftrightarrow> dget row ''status'' = VStr ''complete''"

lemma ditem_dget: "ditem d k = Inr v \<Longrightarrow> dget d k = v"
  by (auto simp: ditem_def dget_def split: option.splits)

lemma key_of_row: "key_of row = Inr k \<Longrightarrow> k = row_key row"
  by (auto simp: key_of_def row_key_def dest!: ditem_dget)

lemma campaign_row_ok:
  assumes "campaign_row phase (finished, incomplete) row = Inr st"
  shows "stripped row ''phase'' = Inr phase" "complete_row row \<Longrightarrow> row_key row \<notin> fst ` set finished"
    "st = (if complete_row row then (finished @ [(row_key row, row)], incomplete)
      else (finished, incomplete @ [(row_key row, dget row ''status'')]))"
proof -
  obtain key status where k: "stripped row ''phase'' = Inr phase" "key_of row = Inr key" "key \<notin> fst ` set finished"
      "ditem row ''status'' = Inr status"
      "st = (if status = VStr ''complete'' then (finished @ [(key, row)], incomplete) else (finished, incomplete @ [(key, status)]))"
    using assms by (auto simp: campaign_row_def)
  have e: "key = row_key row" "status = dget row ''status''" using key_of_row [OF k(2)] ditem_dget [OF k(4)] by auto
  show "stripped row ''phase'' = Inr phase" by (rule k(1))
  show "complete_row row \<Longrightarrow> row_key row \<notin> fst ` set finished" using k(3) e by simp
  show "st = (if complete_row row then (finished @ [(row_key row, row)], incomplete)
      else (finished, incomplete @ [(row_key row, dget row ''status'')]))"
    using k(5) e by (simp add: complete_row_def)
qed

lemma campaign_rows_ok:
  "rfold (campaign_row phase) ([], []) rows = Inr (finished, incomplete) \<Longrightarrow>
     list_all (\<lambda>r. stripped r ''phase'' = Inr phase) rows
     \<and> map fst finished = map row_key (filter complete_row rows) \<and> distinct (map fst finished)
     \<and> incomplete = map (\<lambda>r. (row_key r, dget r ''status'')) (filter (\<lambda>r. \<not> complete_row r) rows)"
proof (induction rows arbitrary: finished incomplete rule: rev_induct)
  case (snoc row rows)
  obtain f i where fi: "rfold (campaign_row phase) ([], []) rows = Inr (f, i)"
      "campaign_row phase (f, i) row = Inr (finished, incomplete)"
    using snoc.prems by (auto simp: rfold_append)
  note ih = snoc.IH [OF fi(1)] and ok = campaign_row_ok [OF fi(2)]
  show ?case
  proof (cases "complete_row row")
    case True
    then have "row_key row \<notin> set (map fst f)" using ok(2) by simp
    then show ?thesis using True ih ok(1,3) by auto
  next
    case False
    then show ?thesis using ih ok(1,3) by auto
  qed
qed simp

definition cell_key :: "campaign_cell \<Rightarrow> row_key" where
  "cell_key c = (ac_block c, ac_cell c)"

lemma cell_of_key: "cell_of cgroups metrics item = Inr c \<Longrightarrow> cell_key c = fst item"
  by (cases item) (auto simp: cell_of_def cell_key_def)

lemma campaign_of_ok:
  assumes "campaign_of phase blocks cgroups metrics = Inr c"
  shows "list_all (\<lambda>r. stripped r ''phase'' = Inr phase) blocks"
    "mset (map cell_key (cc_cells c)) = mset (map row_key (filter complete_row blocks))"
    "distinct (map cell_key (cc_cells c))"
    "cc_incomplete c = map (\<lambda>r. (row_key r, dget r ''status'')) (filter (\<lambda>r. \<not> complete_row r) blocks)"
    "sorted (map (\<lambda>x. (py_str (ac_block x), py_str (ac_cell x))) (cc_cells c))"
proof -
  obtain finished incomplete cg me items cells where f: "rfold (campaign_row phase) ([], []) blocks = Inr (finished, incomplete)"
    and items: "sorted_items finished = Inr items" and cells: "rmap (cell_of cg me) items = Inr cells"
    and c: "c = \<lparr> cc_cells = sort_key (\<lambda>c. (py_str (ac_block c), py_str (ac_cell c))) cells, cc_incomplete = incomplete \<rparr>"
    using assms unfolding campaign_of_def by auto
  note r = campaign_rows_ok [OF f]
  then show "list_all (\<lambda>r. stripped r ''phase'' = Inr phase) blocks"
    "cc_incomplete c = map (\<lambda>r. (row_key r, dget r ''status'')) (filter (\<lambda>r. \<not> complete_row r) blocks)"
    by (simp_all add: c)
  have "map cell_key cells = map fst items"
    using cells [unfolded rmap_Inr] by (induction rule: list_all2_induct) (auto dest: cell_of_key)
  then have "mset (map cell_key cells) = mset (map fst items)" by (rule arg_cong)
  then have "mset (map cell_key (cc_cells c)) = mset (map fst items)" by (simp add: c)
  also have "\<dots> = mset (map fst finished)" using items by (auto simp: sorted_items_def)
  finally have m: "mset (map cell_key (cc_cells c)) = mset (map fst finished)" .
  then show "mset (map cell_key (cc_cells c)) = mset (map row_key (filter complete_row blocks))" using r by simp
  show "distinct (map cell_key (cc_cells c))" using m r mset_eq_imp_distinct_iff by blast
  show "sorted (map (\<lambda>x. (py_str (ac_block x), py_str (ac_cell x))) (cc_cells c))" by (simp add: c)
qed

text \<open>
  C28: the loader accounts for every scheduled cell and never mixes phases. When it returns, every row
  of the blocks file has the expected phase, and for the confirmatory phase no given path has a
  component \<open>pilot\<close>; the complete rows are exactly the cells of the campaign, each key once and in
  order, and every other row is listed as incomplete with its status, in the order of the file.
\<close>

theorem load_campaign_accounts:
  "case load_campaign cwd fs blocks_path cgroups_path metrics_path phase of
     Inl e \<Rightarrow> True
   | Inr c \<Rightarrow>
       (if phase = ''confirmatory'' then \<not> list_ex pilot_path [blocks_path, cgroups_path, metrics_path] else True)
       \<and> (case read_csv cwd fs blocks_path BLOCK_COLUMNS of
            Inl e \<Rightarrow> False
          | Inr rows \<Rightarrow> list_all (\<lambda>r. stripped r ''phase'' = Inr phase) rows
              \<and> mset (map cell_key (cc_cells c)) = mset (map row_key (filter complete_row rows))
              \<and> distinct (map cell_key (cc_cells c))
              \<and> sorted (map (\<lambda>x. (py_str (ac_block x), py_str (ac_cell x))) (cc_cells c))
              \<and> cc_incomplete c = map (\<lambda>r. (row_key r, dget r ''status'')) (filter (\<lambda>r. \<not> complete_row r) rows))"
proof (cases "load_campaign cwd fs blocks_path cgroups_path metrics_path phase")
  case (Inr c)
  obtain blocks cgroups metrics where b: "read_csv cwd fs blocks_path BLOCK_COLUMNS = Inr blocks"
      "campaign_of phase blocks cgroups metrics = Inr c"
      "\<not> (phase = ''confirmatory'' \<and> list_ex pilot_path [blocks_path, cgroups_path, metrics_path])"
    using Inr unfolding load_campaign_def require_Inr rbind_Inr by blast
  show ?thesis using Inr b(1,3) campaign_of_ok [OF b(2)] by simp
qed simp

section \<open>Cells without cgroup rows\<close>

lemma rfold_each: "rfold f s xs = Inr s' \<Longrightarrow> x \<in> set xs \<Longrightarrow> \<exists>s1 s2. f s1 x = Inr s2"
  by (induction xs arbitrary: s) auto

lemma gather_throttled:
  assumes "gather fam w cells = Inr g" "fam_name fam = ''throttle_gap''" "c \<in> set cells"
    "ac_workload c = VStr w" "ac_condition c = VStr (fam_condition fam)"
  shows "ac_summary c \<noteq> []"
proof -
  obtain s1 s2 where "gather_cell fam w s1 c = Inr s2"
    using rfold_each [OF assms(1) [unfolded gather_def] assms(3)] by blast
  then show ?thesis using assms(2,4,5) by (auto simp: gather_cell_def outcome_of_def)
qed

text \<open>
  A complete cell without cgroup rows stops the analysis. The summary of such a cell is empty, and
  the analysis, which looks its throttled share up, returns only if no cell of the solo condition with
  a workload has an empty summary; it does not report the contrast as incomplete.
\<close>

theorem analyze_needs_cgroups:
  "cgroup_summary [] = Inr ([], [])
   \<and> (case analyze m campaign phase of
        Some (Inr a) \<Rightarrow> list_all (\<lambda>c. \<not> (ac_condition c = VStr ''solo'' \<and> is_str (ac_workload c) \<and> ac_summary c = [])) (cc_cells campaign)
      | _ \<Rightarrow> True)"
proof -
  have "\<not> (ac_condition c = VStr ''solo'' \<and> is_str (ac_workload c) \<and> ac_summary c = [])"
    if ret: "analyze m campaign phase = Some (Inr a)" and c: "c \<in> set (cc_cells campaign)" for a c
  proof
    assume bad: "ac_condition c = VStr ''solo'' \<and> is_str (ac_workload c) \<and> ac_summary c = []"
    then obtain w where w: "ac_workload c = VStr w" by (auto simp: is_str_conv)
    let ?fam = "last FAMILIES"
    have fam: "fam_name ?fam = ''throttle_gap''" "fam_condition ?fam = ''solo''" "?fam \<in> set FAMILIES" by (simp_all add: FAMILIES_def)
    have "w \<in> set (workloads_of (cc_cells campaign))"
      using c w by (force simp: workloads_of_def py_str_def)
    then have pl: "(?fam, w) \<in> set (planned_contrasts (cc_cells campaign))" using fam(3) by (auto simp: planned_contrasts_def)
    obtain rs where "omap (\<lambda>(fam, workload). contrast_of m phase (cc_cells campaign) fam workload) (planned_contrasts (cc_cells campaign)) = Some (Inr rs)"
      using ret unfolding analyze_def planned_contrasts_def by (auto simp: Let_def obind_Inr split: if_splits)
    then obtain r where "contrast_of m phase (cc_cells campaign) ?fam w = Some (Inr r)"
      using pl unfolding omap_Inr by (fastforce simp: list_all2_conv_all_nth in_set_conv_nth)
    then obtain g where "gather ?fam w (cc_cells campaign) = Inr g"
      unfolding contrast_of_def obind_Inr by (auto simp: pair_cells_def Let_def)
    then show False using gather_throttled [OF _ fam(1) c w] bad fam(2) by simp
  qed
  moreover have "cgroup_summary [] = Inr ([], [])" by (simp add: cgroup_summary_def PREFERRED_LEVELS_def)
  ultimately show ?thesis by (auto simp: list_all_iff split: option.splits sum.splits)
qed


section \<open>Mixed outcomes\<close>

definition mixed_cell :: "string \<Rightarrow> pyfloat option \<Rightarrow> campaign_cell" where
  "mixed_cell policy latency = \<lparr> ac_block = VStr ''b1'', ac_cell = VStr ''c1'', ac_workload = VStr ''io-bound'', ac_policy = VStr policy,
     ac_condition = VStr ''solo'', ac_summary = [(''throttled_period_ratio'', None)], ac_throughput = Some (Fin 900), ac_latency = latency,
     ac_metrics = [], ac_parameters = [] \<rparr>"

text \<open>A control without a latency is compared by its throughput with the latency of the treatment.\<close>

lemma gather_mixes_metrics:
  "gather (hd FAMILIES) ''io-bound'' [mixed_cell ''fit'' None, mixed_cell ''burstable-low'' (Some (Fin 7))]
     = Inr \<lparr> ga_control = [(''b1'', Some (Fin 900))], ga_treatment = [(''b1'', Some (Fin 7))],
         ga_metric = ''latency_p99_ms'', ga_lower = True \<rparr>"
  by (simp add: gather_def FAMILIES_def gather_cell_def outcome_of_def mixed_cell_def py_str_def)

text \<open>A campaign of one complete and one failed cell loads, with an empty summary for the first.\<close>

definition sample_campaign_row :: "string \<Rightarrow> string \<Rightarrow> pydict" where
  "sample_campaign_row cid status = [(''phase'', VStr ''confirmatory''), (''block_id'', VStr ''b1''), (''cell_id'', VStr cid),
     (''workload'', VStr ''hybrid''), (''policy'', VStr ''fit''), (''condition'', VStr ''solo''), (''status'', VStr status)]"

lemma sample_campaign_loads:
  "case campaign_of ''confirmatory'' [sample_campaign_row ''c2'' ''failed'', sample_campaign_row ''c1'' ''complete''] [] [] of
     Inl e \<Rightarrow> False
   | Inr c \<Rightarrow> map cell_key (cc_cells c) = [(VStr ''b1'', VStr ''c1'')] \<and> map ac_summary (cc_cells c) = [[]]
       \<and> cc_incomplete c = [((VStr ''b1'', VStr ''c2''), VStr ''failed'')]"
  by code_simp

end
