(* ===== verification/Py_Text.thy ===== *)
theory Py_Text
  imports Py_Json
begin

text \<open>
  Laws of the text operations the readers of counter files and quantities rest on: words and
  lines of a text that was put together from them, decimal integers read back, and what a
  replacement leaves of the pattern it replaces.
\<close>

section \<open>Words and lines\<close>

lemma digit_not_space: "is_digit c \<Longrightarrow> \<not> py_isspace c"
  by (auto simp: is_digit_def py_isspace_def)

lemma digit_not_break: "is_digit c \<Longrightarrow> \<not> is_linebreak c"
  by (auto simp: is_digit_def is_linebreak_def)

definition is_word :: "string \<Rightarrow> bool" where
  "is_word w \<longleftrightarrow> w \<noteq> [] \<and> list_all (\<lambda>c. \<not> py_isspace c) w"

lemma show_nat_word [simp]: "is_word (show_nat n)"
  using show_nat_digits [of n] digit_not_space by (auto simp: is_word_def list_all_iff)

lemma dropWhile_word: "is_word w \<Longrightarrow> dropWhile py_isspace (w @ r) = w @ r"
  by (cases w) (auto simp: is_word_def)

lemma strip_word [simp]: "is_word w \<Longrightarrow> strip w = w"
proof -
  assume w: "is_word w"
  then have r: "is_word (rev w)" by (simp add: is_word_def)
  show ?thesis unfolding strip_def
    using dropWhile_word [OF w, of "[]"] dropWhile_word [OF r, of "[]"] by simp
qed

lemma py_split_acc_word:
  "list_all (\<lambda>c. \<not> py_isspace c) w \<Longrightarrow> py_split_acc acc (w @ r) = py_split_acc (acc @ w) r"
  by (induction w arbitrary: acc) auto

lemma py_split_two:
  assumes "is_word a" "is_word b"
  shows "py_split (a @ '' '' @ b) = [a, b]"
proof -
  have "py_split (a @ '' '' @ b) = py_split_acc a ('' '' @ b)"
    using assms(1) py_split_acc_word [of a "[]" "'' '' @ b"] by (simp add: py_split_def is_word_def)
  also have "\<dots> = a # py_split_acc [] b"
    using assms(1) by (simp add: py_isspace_def is_word_def)
  also have "py_split_acc [] b = [b]"
    using assms(2) py_split_acc_word [of b "[]" "[]"] by (simp add: is_word_def)
  finally show ?thesis .
qed

lemma splitlines_acc_first:
  "list_all (\<lambda>c. \<not> is_linebreak c) l \<Longrightarrow>
     splitlines_acc acc (l @ CHR 0x0A # r) = (acc @ l) # splitlines_acc [] r"
  by (induction l arbitrary: acc) (auto simp: is_linebreak_def)

lemma splitlines_first:
  "list_all (\<lambda>c. \<not> is_linebreak c) l \<Longrightarrow> splitlines (l @ nl @ r) = l # splitlines r"
  using splitlines_acc_first [of l "[]" r] by (simp add: splitlines_def nl_def)

lemma splitlines_Nil [simp]: "splitlines [] = []"
  by (simp add: splitlines_def)

section \<open>Decimal integers\<close>

lemma int_body_digits: "list_all is_digit s \<Longrightarrow> s \<noteq> [] \<Longrightarrow> int_body s"
proof (induction s rule: int_body.induct)
  case (3 c d cs)
  then have "d \<noteq> CHR ''_''" by (auto simp: is_digit_def)
  then show ?case using 3 by simp
qed auto

lemma digit_sign: "is_digit c \<Longrightarrow> c \<noteq> CHR ''-'' \<and> c \<noteq> CHR ''+'' \<and> c \<noteq> CHR ''_''"
  by (auto simp: is_digit_def)

lemma hd_show_nat_sign: "hd (show_nat n) \<noteq> CHR ''-'' \<and> hd (show_nat n) \<noteq> CHR ''+''"
  using digit_sign [OF hd_show_nat] by blast

lemma filter_show_nat: "(\<And>c. is_digit c \<Longrightarrow> P c) \<Longrightarrow> filter P (show_nat n) = show_nat n"
  using show_nat_digits [of n] by (simp add: list_all_iff filter_id_conv)

lemma py_int_show_nat [simp]: "py_int (show_nat n) = Some (int n)"
  using hd_show_nat_sign [of n] int_body_digits [OF show_nat_digits show_nat_nonempty, of n]
    filter_show_nat [of "\<lambda>c. c \<noteq> CHR ''_''" n] digit_sign
  by (simp add: py_int_def Let_def)

lemma decimal_of_show_nat: "decimal_of (show_nat n) = Some (of_nat n)"
proof -
  have all: "list_all digit_or_underscore (show_nat n)"
    using show_nat_digits [of n] by (auto simp: list_all_iff digit_or_underscore_def)
  then have "takeWhile digit_or_underscore (show_nat n) = show_nat n"
    "dropWhile digit_or_underscore (show_nat n) = []"
    by (simp_all add: list_all_iff takeWhile_eq_all_conv)
  moreover have "part_val (show_nat n) = n"
    using filter_show_nat [of is_digit n] by (simp add: part_val_def)
  ultimately show ?thesis
    using int_body_digits [OF show_nat_digits show_nat_nonempty, of n]
    by (simp only: decimal_of_def Let_def) (simp add: exponent_of_def)
qed

lemma char_lower_digit: "is_digit c \<Longrightarrow> char_lower c = c"
  unfolding is_digit_def by (simp, elim disjE) (simp_all add: char_lower_def)

lemma py_lower_show_nat [simp]: "py_lower (show_nat n) = show_nat n"
  using show_nat_digits [of n] char_lower_digit by (simp add: py_lower_def list_all_iff map_idI)

lemma show_nat_not_name: "show_nat n \<noteq> ''inf''" "show_nat n \<noteq> ''infinity''" "show_nat n \<noteq> ''nan''"
proof -
  have h: "is_digit (hd (show_nat n))" by (rule hd_show_nat)
  show "show_nat n \<noteq> ''inf''" "show_nat n \<noteq> ''infinity''" "show_nat n \<noteq> ''nan''"
    using h by (auto simp: is_digit_def)
qed

lemma py_float_show_nat: "n < 2 ^ 53 \<Longrightarrow> py_float (show_nat n) = Some (Fin (of_nat n))"
proof -
  assume n: "n < 2 ^ 53"
  have "\<bar>int n\<bar> < 2 ^ 53" using n by (simp flip: of_nat_less_iff)
  then have "to_float (of_nat n) = Fin (of_nat n)"
    using float_of_int_small [of "int n"] by (simp add: float_of_int_def split: pyfloat.splits)
  then show ?thesis
    using show_nat_not_name hd_show_nat_sign [of n] decimal_of_show_nat [of n] by (simp add: py_float_def Let_def)
qed

section \<open>Replacement\<close>

text \<open>
  A replacement by a text that shares no character with the pattern leaves no occurrence: an
  occurrence in the result could not reach into the inserted text.
\<close>

lemma prefix_replace_all:
  assumes "new \<noteq> []" "set p \<inter> set new = {}"
  shows "prefix p (replace_all old new s) \<Longrightarrow> prefix p s"
  using assms
proof (induction s arbitrary: p rule: length_induct)
  case (1 s)
  show ?case
  proof (cases s)
    case Nil
    then show ?thesis using 1 by simp
  next
    case (Cons c cs)
    show ?thesis
    proof (cases "old \<noteq> [] \<and> prefix old (c # cs)")
      case True
      then have "prefix p (new @ replace_all old new (drop (length old) (c # cs)))"
        using 1 Cons by simp
      then have "p = []" using 1(3,4) by (cases p; cases new) auto
      then show ?thesis by simp
    next
      case False
      then have r: "replace_all old new s = c # replace_all old new cs" using Cons by auto
      show ?thesis
      proof (cases p)
        case (Cons q qs)
        then have "q = c" "prefix qs (replace_all old new cs)" using 1(2) r by auto
        moreover have "set qs \<inter> set new = {}" using 1(4) Cons by auto
        ultimately show ?thesis using 1(1,3) \<open>s = c # cs\<close> Cons by auto
      qed simp
    qed
  qed
qed

lemma str_in_append_foreign:
  assumes "str_in old (new @ r)" "set old \<inter> set new = {}" "old \<noteq> []"
  shows "str_in old r"
  using assms
proof (induction new)
  case (Cons c cs)
  then have "\<not> prefix old (c # cs @ r)" by (cases old) auto
  then show ?case using Cons by simp
qed simp

lemma str_in_drop: "str_in p (drop n s) \<Longrightarrow> str_in p s"
proof (induction s arbitrary: n)
  case (Cons c cs)
  then show ?case by (cases n) auto
qed simp

lemma str_in_replace_all:
  assumes "new \<noteq> []" "set p \<inter> set new = {}" "p \<noteq> []"
  shows "str_in p (replace_all old new s) \<Longrightarrow> str_in p s"
proof (induction s rule: length_induct)
  case (1 s)
  show ?case
  proof (cases s)
    case Nil
    then show ?thesis using 1 by simp
  next
    case (Cons c cs)
    show ?thesis
    proof (cases "old \<noteq> [] \<and> prefix old (c # cs)")
      case True
      then have l: "length (drop (length old) s) < length s" using Cons by (cases old) auto
      have "str_in p (new @ replace_all old new (drop (length old) s))" using 1(2) Cons True by simp
      then have "str_in p (replace_all old new (drop (length old) s))"
        using assms(2,3) by (rule str_in_append_foreign)
      then have "str_in p (drop (length old) s)" using 1(1) l by blast
      then show ?thesis by (rule str_in_drop)
    next
      case False
      then have r: "replace_all old new (c # cs) = c # replace_all old new cs" by auto
      have "prefix p (replace_all old new (c # cs)) \<Longrightarrow> prefix p (c # cs)"
        by (rule prefix_replace_all [OF assms(1,2)])
      moreover have "str_in p (replace_all old new cs) \<Longrightarrow> str_in p cs" using 1(1) Cons by simp
      ultimately show ?thesis using 1(2) unfolding Cons r by (simp only: str_in.simps) blast
    qed
  qed
qed

lemma replace_all_clears:
  assumes "old \<noteq> []" "new \<noteq> []" "set old \<inter> set new = {}"
  shows "\<not> str_in old (replace_all old new s)"
proof (induction s rule: length_induct)
  case (1 s)
  show ?case
  proof (cases s)
    case Nil
    then show ?thesis using assms by simp
  next
    case (Cons c cs)
    show ?thesis
    proof (cases "prefix old (c # cs)")
      case True
      have "length (drop (length old) (c # cs)) < length s" using assms(1) Cons by (cases old) auto
      then have "\<not> str_in old (replace_all old new (drop (length old) (c # cs)))" using 1 by blast
      then show ?thesis using True Cons assms str_in_append_foreign by auto
    next
      case False
      have n: "\<not> str_in old (replace_all old new cs)" using 1 Cons by simp
      have "\<not> prefix old (replace_all old new (c # cs))"
        using False prefix_replace_all [of new old old "c # cs"] assms(2,3) by blast
      then show ?thesis using n False Cons by simp
    qed
  qed
qed

end
