(* ===== verification/Cgroup_Probe.thy ===== *)
theory Cgroup_Probe
  imports Py_Json Py_Files Py_Text
begin

text \<open>
  The read-only cgroup probe of a pod (\<open>cpu-limits/experiments/cgroup_probe.py\<close>): the slice of a
  pod, the files of its levels with their parsers, the captured record, and the differences of two
  records. The time of a capture is an argument.
\<close>

section \<open>Slices\<close>

definition QOS_CLASSES :: "string list" where
  "QOS_CLASSES = [''guaranteed'', ''burstable'', ''besteffort'']"

definition CPU_STAT_KEYS :: "string list" where
  "CPU_STAT_KEYS = [''usage_usec'', ''nr_periods'', ''nr_throttled'', ''throttled_usec'']"

definition REQUIRED_FILES :: "string list" where
  "REQUIRED_FILES = [''cpu.weight'', ''cpu.max'', ''cpu.stat'', ''cpu.pressure'', ''memory.current'',
     ''memory.peak'', ''cgroup.type'', ''cgroup.controllers'']"

definition is_hex :: "char \<Rightarrow> bool" where
  "is_hex c \<longleftrightarrow> c \<in> set ''0123456789abcdefABCDEF''"

definition UID_RE :: "string \<Rightarrow> bool" where
  "UID_RE s = (case split_on (CHR ''-'') s of
     [a, b, c, d, e] \<Rightarrow> list_all is_hex (a @ b @ c @ d @ e)
       \<and> map length [a, b, c, d, e] = [8, 4, 4, 4, 12]
   | _ \<Rightarrow> False)"

definition normalize_pod_uid :: "string \<Rightarrow> string res" where
  "normalize_pod_uid pod_uid =
     require (UID_RE pod_uid) ValueError (''invalid pod UID: '' @ repr_str pod_uid) (
     Inr (map (\<lambda>c. if c = CHR ''-'' then CHR ''_'' else c) pod_uid))"

definition cgroup_root_dir :: "fs \<Rightarrow> path \<Rightarrow> path res" where
  "cgroup_root_dir fs cgroup_root =
     (if \<not> path_exists fs cgroup_root then path_error fs cgroup_root
      else require (is_dir fs cgroup_root) NotADirectoryError
        (''cgroup root is not a directory: '' @ path_text cgroup_root) (Inr cgroup_root))"

definition slice_of :: "path \<Rightarrow> string \<Rightarrow> string \<Rightarrow> path" where
  "slice_of base escaped_uid qos = base @ [''kubepods.slice'', ''kubepods-'' @ qos @ ''.slice'',
     ''kubepods-'' @ qos @ ''-pod'' @ escaped_uid @ ''.slice'']"

definition resolve_pod_slice :: "fs \<Rightarrow> path \<Rightarrow> string \<Rightarrow> path res" where
  "resolve_pod_slice fs cgroup_root pod_uid =
     rbind (cgroup_root_dir fs cgroup_root) (\<lambda>base.
     rbind (normalize_pod_uid pod_uid) (\<lambda>escaped_uid.
     case filter (is_dir fs) (map (slice_of base escaped_uid) QOS_CLASSES) of
       [] \<Rightarrow> raise FileNotFoundError (''Pod slice not found for UID '' @ pod_uid)
     | [p] \<Rightarrow> Inr p
     | matches \<Rightarrow> raise RuntimeError (''Pod UID '' @ pod_uid @ '' has multiple slices: ''
         @ join '', '' (map path_text matches))))"

section \<open>Parsers\<close>

definition rstrip_nl :: "string \<Rightarrow> string" where
  "rstrip_nl s = rev (dropWhile (\<lambda>c. c = CHR 0x0A) (rev s))"

definition read_required :: "fs \<Rightarrow> path \<Rightarrow> string res" where
  "read_required fs p =
     require (is_file fs p) FileNotFoundError (''missing required cgroup file: '' @ path_text p) (
     rbind (read_text fs p) (\<lambda>t. Inr (rstrip_nl t)))"

definition parse_integer :: "string \<Rightarrow> string \<Rightarrow> int res" where
  "parse_integer value source =
     as_some (py_int value) ValueError (''invalid integer in '' @ source @ '': '' @ repr_str value) Inr"

definition parse_cpu_max :: "string \<Rightarrow> (int option \<times> int) res" where
  "parse_cpu_max value = (case py_split value of
     [q, p] \<Rightarrow>
       rbind (if q = ''max'' then Inr None else rbind (parse_integer q ''cpu.max'') (\<lambda>i. Inr (Some i))) (\<lambda>quota.
       rbind (parse_integer p ''cpu.max'') (\<lambda>period.
       require (case quota of Some i \<Rightarrow> 0 \<le> i | None \<Rightarrow> True) ValueError
         (''cpu.max quota must not be negative: '' @ repr_str value) (
       require (0 < period) ValueError (''cpu.max period must be positive: '' @ repr_str value) (
       Inr (quota, period)))))
   | _ \<Rightarrow> raise ValueError (''invalid cpu.max value: '' @ repr_str value))"

definition key_value_line :: "string \<Rightarrow> (string \<times> int) list \<Rightarrow> string \<Rightarrow> (string \<times> int) list res" where
  "key_value_line source parsed line = (case py_split line of
     [key, raw_number] \<Rightarrow>
       require (key \<notin> set (map fst parsed)) ValueError (''duplicate '' @ source @ '' key: '' @ key) (
       rbind (parse_integer raw_number source) (\<lambda>i. Inr (parsed @ [(key, i)])))
   | _ \<Rightarrow> raise ValueError (''invalid '' @ source @ '' line: '' @ repr_str line))"

definition parse_key_values :: "string \<Rightarrow> string \<Rightarrow> (string \<times> int) list res" where
  "parse_key_values value source = rfold (key_value_line source) [] (splitlines value)"

definition probe_cpu_stat :: "string \<Rightarrow> (string \<times> int) list res" where
  "probe_cpu_stat value =
     rbind (parse_key_values value ''cpu.stat'') (\<lambda>parsed.
     let missing = filter (\<lambda>k. k \<notin> set (map fst parsed)) CPU_STAT_KEYS in
     require (missing = []) ValueError (''cpu.stat is missing required counters: '' @ join '', '' missing) (
     rmap (\<lambda>k. as_some (map_of parsed k) KeyError k (\<lambda>v. Inr (k, v))) CPU_STAT_KEYS))"

definition pressure_fields :: "string list \<Rightarrow> (string \<times> string) list" where
  "pressure_fields fs = foldl (\<lambda>d f. case split_once (CHR ''='') f of [k, v] \<Rightarrow> AList.update k v d | _ \<Rightarrow> d) [] fs"

definition pressure_line :: "(string \<times> int) list \<Rightarrow> string \<Rightarrow> (string \<times> int) list res" where
  "pressure_line totals line = (case py_split line of
     [] \<Rightarrow> Inr totals
   | category # rest \<Rightarrow>
       as_some (map_of (pressure_fields rest) ''total'') ValueError
         (''cpu.pressure line has no total: '' @ repr_str line) (\<lambda>total.
       require (category \<notin> set (map fst totals)) ValueError (''duplicate cpu.pressure category: '' @ category) (
       rbind (parse_integer total ''cpu.pressure'') (\<lambda>i. Inr (totals @ [(category, i)])))))"

definition parse_cpu_pressure :: "string \<Rightarrow> (string \<times> int) list res" where
  "parse_cpu_pressure value =
     rbind (rfold pressure_line [] (splitlines value)) (\<lambda>totals.
     let missing = filter (\<lambda>c. c \<notin> set (map fst totals)) [''some'', ''full''] in
     require (missing = []) ValueError (''cpu.pressure is missing categories: '' @ join '', '' missing) (
     as_some (map_of totals ''some'') KeyError ''some'' (\<lambda>s.
     as_some (map_of totals ''full'') KeyError ''full'' (\<lambda>f.
     Inr [(''some_total_usec'', s), (''full_total_usec'', f)]))))"

section \<open>Capture\<close>

definition scope_names :: "fs \<Rightarrow> path \<Rightarrow> string list" where
  "scope_names fs pod_slice =
     filter (\<lambda>n. is_dir fs (pod_slice @ [n]) \<and> suffix ''.scope'' n) (sort (child_names fs pod_slice))"

definition ints_val :: "(string \<times> int) list \<Rightarrow> pyval" where
  "ints_val d = VDict (map (\<lambda>(k, i). (k, VInt i)) d)"

definition probe_level :: "fs \<Rightarrow> path \<Rightarrow> string \<Rightarrow> string option \<Rightarrow> pydict res" where
  "probe_level fs p kind scope_type =
     rbind (rmap (\<lambda>name. rbind (read_required fs (p @ [name])) (\<lambda>t. Inr (name, t))) REQUIRED_FILES) (\<lambda>raw.
     let txt = (\<lambda>name. case map_of raw name of Some t \<Rightarrow> t | None \<Rightarrow> []) in
     rbind (parse_cpu_max (txt ''cpu.max'')) (\<lambda>(quota, period).
     rbind (parse_integer (txt ''cpu.weight'') ''cpu.weight'') (\<lambda>weight.
     rbind (probe_cpu_stat (txt ''cpu.stat'')) (\<lambda>stat.
     rbind (parse_cpu_pressure (txt ''cpu.pressure'')) (\<lambda>pressure.
     rbind (parse_integer (txt ''memory.current'') ''memory.current'') (\<lambda>current.
     rbind (parse_integer (txt ''memory.peak'') ''memory.peak'') (\<lambda>peak.
     Inr ([(''kind'', VStr kind), (''path'', VStr (path_text p)), (''cpu_weight'', VInt weight),
       (''cpu_max_quota_us'', case quota of None \<Rightarrow> VNone | Some i \<Rightarrow> VInt i), (''cpu_max_period_us'', VInt period),
       (''cpu_stat'', ints_val stat), (''cpu_pressure'', ints_val pressure),
       (''memory'', ints_val [(''current_bytes'', current), (''peak_bytes'', peak)]),
       (''cgroup_type'', VStr (txt ''cgroup.type'')), (''cgroup_controllers'', VStr (txt ''cgroup.controllers'')),
       (''raw'', VDict (map (\<lambda>(k, t). (k, VStr t)) raw))]
       @ (case scope_type of None \<Rightarrow> [] | Some t \<Rightarrow> [(''scope_type'', VStr t)])))))))))"

definition scope_levels :: "fs \<Rightarrow> path \<Rightarrow> string \<Rightarrow> pydict list res" where
  "scope_levels fs pod_slice name =
     (let scope = pod_slice @ [name];
          scope_type = (if prefix ''crio-'' name then ''crio'' else ''systemd'') in
      rbind (probe_level fs scope ''container_scope'' (Some scope_type)) (\<lambda>l.
      if is_dir fs (scope @ [''container''])
      then rbind (probe_level fs (scope @ [''container'']) ''container_leaf'' None) (\<lambda>c. Inr [l, c])
      else Inr [l]))"

record probe_ids =
  run_id :: string
  block_id :: int
  probe_cell :: string
  node_name :: string
  scheduler_name :: string
  scheduler_parameters :: "(string \<times> string) list"

definition capture_levels :: "fs \<Rightarrow> path \<Rightarrow> pydict list res" where
  "capture_levels fs pod_slice =
     rbind (probe_level fs (butlast pod_slice) ''qos_slice'' None) (\<lambda>q.
     rbind (probe_level fs pod_slice ''pod_slice'' None) (\<lambda>p.
     rbind (rmap (scope_levels fs pod_slice) (scope_names fs pod_slice)) (\<lambda>ls.
     Inr (q # p # concat ls))))"

definition capture :: "fs \<Rightarrow> path \<Rightarrow> string \<Rightarrow> string \<Rightarrow> probe_ids \<Rightarrow> pydict res" where
  "capture fs cgroup_root pod_uid timestamp ids =
     rbind (resolve_pod_slice fs cgroup_root pod_uid) (\<lambda>pod_slice.
     rbind (capture_levels fs pod_slice) (\<lambda>levels.
     Inr [(''protocol'', VStr ''cpu-limits-v1''), (''captured_at'', VStr timestamp), (''run_id'', VStr (run_id ids)),
       (''block_id'', VInt (block_id ids)), (''cell_id'', VStr (probe_cell ids)), (''node'', VStr (node_name ids)),
       (''pod_uid'', VStr pod_uid),
       (''scheduler'', VDict [(''name'', VStr (scheduler_name ids)),
         (''parameters'', VDict (map (\<lambda>(k, v). (k, VStr v)) (scheduler_parameters ids)))]),
       (''levels'', VList (map VDict levels))]))"

section \<open>Differences\<close>

definition as_level :: "pyval \<Rightarrow> pydict res" where
  "as_level v = as_dict v TypeError ''probe record has a non-object level'' Inr"

definition levels_of :: "pydict \<Rightarrow> pydict list res" where
  "levels_of rec = as_list (dget rec ''levels'') TypeError ''probe record has no levels list'' (rmap as_level)"

definition level_stat :: "pydict \<Rightarrow> pydict res" where
  "level_stat level = as_dict (dget level ''cpu_stat'') TypeError
     (''level has no cpu_stat mapping: '' @ py_repr (dget level ''path'')) Inr"

definition stat_counter_delta :: "string \<Rightarrow> pydict \<Rightarrow> pydict \<Rightarrow> string \<Rightarrow> (string \<times> int) res" where
  "stat_counter_delta p before after key =
     (let where_at = ''cgroup level '' @ p in
      as_some (map_of before key) ValueError (where_at @ '' is missing cpu.stat counter: '' @ key) (\<lambda>b.
      as_some (map_of after key) ValueError (where_at @ '' is missing cpu.stat counter: '' @ key) (\<lambda>a.
      as_some (as_int b) TypeError (where_at @ '' has a non-integer cpu.stat counter: '' @ key) (\<lambda>i.
      as_some (as_int a) TypeError (where_at @ '' has a non-integer cpu.stat counter: '' @ key) (\<lambda>j.
      require (i \<le> j) ValueError (where_at @ '' counter decreased: '' @ key) (Inr (key, j - i)))))))"

definition level_path :: "pydict \<Rightarrow> string" where
  "level_path level = py_str (dget level ''path'')"

definition by_path :: "pydict list \<Rightarrow> (string \<times> pydict) list" where
  "by_path levels = foldl (\<lambda>d l. AList.update (level_path l) l d) [] levels"

definition delta_step ::
  "(string \<times> pydict) list \<times> pydict list \<Rightarrow> pydict \<Rightarrow> ((string \<times> pydict) list \<times> pydict list) res" where
  "delta_step = (\<lambda>(before_by_path, deltas) after_level.
     let p = level_path after_level in
     as_some (map_of before_by_path p) ValueError (''after record has unknown cgroup level: '' @ p) (\<lambda>before_level.
     rbind (level_stat before_level) (\<lambda>before_stat.
     rbind (level_stat after_level) (\<lambda>after_stat.
     rbind (rmap (stat_counter_delta p before_stat after_stat) CPU_STAT_KEYS) (\<lambda>counters.
     Inr (AList.delete p before_by_path,
       deltas @ [[(''kind'', dget after_level ''kind''), (''path'', VStr p), (''cpu_stat'', ints_val counters)]])))))) "

definition cpu_stat_deltas :: "pydict \<Rightarrow> pydict \<Rightarrow> pydict list res" where
  "cpu_stat_deltas before after =
     rbind (levels_of before) (\<lambda>bs.
     rbind (levels_of after) (\<lambda>as.
     rbind (rfold delta_step (by_path bs, []) as) (\<lambda>(rest, deltas).
     require (rest = []) ValueError (''after record is missing cgroup levels: '' @ join '', '' (sort (map fst rest))) (
     Inr deltas))))"

definition probe_main :: "fs \<Rightarrow> path \<Rightarrow> string \<Rightarrow> string \<Rightarrow> probe_ids \<Rightarrow> path option \<Rightarrow> string res" where
  "probe_main fs cgroup_root pod_uid timestamp ids before_path =
     rbind (capture fs cgroup_root pod_uid timestamp ids) (\<lambda>rec.
     rbind (case before_path of
         None \<Rightarrow> Inr rec
       | Some p \<Rightarrow> rbind (read_text fs p) (\<lambda>t. rbind (loads t) (\<lambda>before.
           as_dict before ValueError ''prior probe JSON record must be an object'' (\<lambda>b.
           rbind (cpu_stat_deltas b rec) (\<lambda>ds. Inr (dset rec ''deltas'' (VList (map VDict ds)))))))) (\<lambda>rec.
     Inr (dumps default_style (sort_keys (VDict rec)))))"

section \<open>Laws of the differences\<close>

definition counter_of :: "pydict \<Rightarrow> string \<Rightarrow> int option" where
  "counter_of level key = (case dget level ''cpu_stat'' of
     VDict s \<Rightarrow> Option.bind (map_of s key) as_int | _ \<Rightarrow> None)"

text \<open>One delta against the level it is taken from.\<close>

definition delta_against :: "pydict \<Rightarrow> pydict \<Rightarrow> pydict \<Rightarrow> bool" where
  "delta_against b a d \<longleftrightarrow> dget d ''path'' = VStr (level_path a) \<and> level_path b = level_path a
     \<and> list_all (\<lambda>k. case (counter_of b k, counter_of a k) of
         (Some i, Some j) \<Rightarrow> i \<le> j \<and> counter_of d k = Some (j - i) | _ \<Rightarrow> False) CPU_STAT_KEYS"

lemma stat_counter_delta_Inr:
  "stat_counter_delta p before after key = Inr kv \<longleftrightarrow> (\<exists>b a i j. map_of before key = Some b \<and> map_of after key = Some a
     \<and> as_int b = Some i \<and> as_int a = Some j \<and> i \<le> j \<and> kv = (key, j - i))"
  by (auto simp: stat_counter_delta_def Let_def)

lemma level_stat_Inr: "level_stat l = Inr s \<longleftrightarrow> dget l ''cpu_stat'' = VDict s"
  by (auto simp: level_stat_def)

lemma map_of_rmap_keys:
  assumes "list_all2 (\<lambda>k kv. f k = Inr kv \<and> fst kv = k) ks kvs" "distinct ks" "k \<in> set ks"
  shows "\<exists>v. map_of kvs k = Some v \<and> f k = Inr (k, v)"
  using assms
proof (induction rule: list_all2_induct)
  case (Cons x xs y ys)
  then show ?case by (cases y) auto
qed simp

lemma CPU_STAT_KEYS_distinct: "distinct CPU_STAT_KEYS"
  by (simp add: CPU_STAT_KEYS_def)

lemma map_of_ints: "map_of (map (\<lambda>(k, i). (k, VInt i)) d) k = map_option VInt (map_of d k)"
  by (induction d) auto

lemma delta_step_Inr:
  assumes "delta_step (bm, acc) a = Inr st"
  obtains b d where "map_of bm (level_path a) = Some b" "st = (AList.delete (level_path a) bm, acc @ [d])"
    "level_path b = level_path a \<Longrightarrow> delta_against b a d"
proof -
  obtain b bs as kvs where b: "map_of bm (level_path a) = Some b" "dget b ''cpu_stat'' = VDict bs"
    "dget a ''cpu_stat'' = VDict as" and r: "rmap (stat_counter_delta (level_path a) bs as) CPU_STAT_KEYS = Inr kvs"
    and st: "st = (AList.delete (level_path a) bm,
      acc @ [[(''kind'', dget a ''kind''), (''path'', VStr (level_path a)), (''cpu_stat'', ints_val kvs)]])"
    using assms by (auto simp: delta_step_def Let_def level_stat_Inr)
  let ?d = "[(''kind'', dget a ''kind''), (''path'', VStr (level_path a)), (''cpu_stat'', ints_val kvs)]"
  have l: "list_all2 (\<lambda>k kv. stat_counter_delta (level_path a) bs as k = Inr kv \<and> fst kv = k) CPU_STAT_KEYS kvs"
    using r unfolding rmap_Inr by (rule list_all2_mono) (auto simp: stat_counter_delta_Inr)
  have c: "counter_of ?d k = map_of kvs k" for k
    by (cases "map_of kvs k") (simp_all add: counter_of_def dget_def ints_val_def map_of_ints as_int_def)
  have "case (counter_of b k, counter_of a k) of (Some i, Some j) \<Rightarrow> i \<le> j \<and> counter_of ?d k = Some (j - i) | _ \<Rightarrow> False"
    if "k \<in> set CPU_STAT_KEYS" for k
    using map_of_rmap_keys [OF l CPU_STAT_KEYS_distinct that] b
    unfolding c by (auto simp: stat_counter_delta_Inr counter_of_def)
  then have "level_path b = level_path a \<Longrightarrow> delta_against b a ?d"
    by (auto simp: delta_against_def list_all_iff dget_def [of "?d"])
  then show ?thesis using that b(1) st by blast
qed

lemma delta_fold:
  assumes "rfold delta_step (bm, acc) as = Inr (rest, ds)" "\<And>p b. map_of bm p = Some b \<Longrightarrow> level_path b = p"
  shows "\<exists>new. ds = acc @ new \<and> list_all2 (\<lambda>a d. \<exists>b. map_of bm (level_path a) = Some b \<and> delta_against b a d) as new
    \<and> distinct (map level_path as) \<and> fst ` set rest = fst ` set bm - level_path ` set as
    \<and> level_path ` set as \<subseteq> fst ` set bm"
  using assms
proof (induction as arbitrary: bm acc)
  case (Cons a as)
  let ?p = "level_path a"
  obtain st where st: "delta_step (bm, acc) a = Inr st" "rfold delta_step st as = Inr (rest, ds)" using Cons.prems(1) by auto
  obtain b d where b: "map_of bm ?p = Some b" "st = (AList.delete ?p bm, acc @ [d])"
    "level_path b = ?p \<Longrightarrow> delta_against b a d"
    using delta_step_Inr [OF st(1)] by blast
  have m: "map_of (AList.delete ?p bm) q = Some c \<Longrightarrow> q \<noteq> ?p \<and> map_of bm q = Some c" for q c
    by (auto simp: delete_conv' split: if_splits)
  then obtain new where n: "ds = (acc @ [d]) @ new"
    "list_all2 (\<lambda>a d. \<exists>b. map_of (AList.delete ?p bm) (level_path a) = Some b \<and> delta_against b a d) as new"
    "distinct (map level_path as)" "fst ` set rest = fst ` set (AList.delete ?p bm) - level_path ` set as"
    "level_path ` set as \<subseteq> fst ` set (AList.delete ?p bm)"
    using Cons.IH [of "AList.delete ?p bm" "acc @ [d]"] st(2) b(2) Cons.prems(2) by blast
  have k: "fst ` set (AList.delete ?p bm) = fst ` set bm - {?p}" by (force simp: AList.delete_eq)
  have "list_all2 (\<lambda>a d. \<exists>b. map_of bm (level_path a) = Some b \<and> delta_against b a d) as new"
    using n(2) by (rule list_all2_mono) (use m in blast)
  moreover have "?p \<in> fst ` set bm" using b(1) by (metis domI dom_map_of_conv_image_fst)
  ultimately show ?case using n k b Cons.prems(2) by (intro exI [of _ "d # new"]) auto
qed auto

lemma by_path_fold:
  "map_of (foldl (\<lambda>d l. AList.update (level_path l) l d) d0 ls) p
     = (case find (\<lambda>l. level_path l = p) (rev ls) of Some l \<Rightarrow> Some l | None \<Rightarrow> map_of d0 p)"
  by (induction ls rule: rev_induct) (auto simp: update_conv')

lemma by_path_Some: "map_of (by_path ls) p = Some b \<Longrightarrow> b \<in> set ls \<and> level_path b = p"
  unfolding by_path_def by_path_fold by (auto simp: find_Some_iff split: option.splits) (metis nth_mem set_rev length_rev)

lemma by_path_keys: "fst ` set (by_path ls) = level_path ` set ls"
proof -
  have "dom (map_of (by_path ls)) = level_path ` set ls"
    by (auto simp: by_path_def by_path_fold dom_def find_None_iff find_Some_iff image_iff split: option.splits)
  then show ?thesis by (simp add: dom_map_of_conv_image_fst)
qed

text \<open>
  C19: Differences are taken only between records with the same cgroup levels, each once: there is
  one for every level of the later record, in its order, and it holds for every counter the
  non-negative difference of the two snapshots of that level.
\<close>

theorem cpu_stat_deltas_sound:
  "case cpu_stat_deltas before after of
     Inr ds \<Rightarrow> (\<exists>bs as. levels_of before = Inr bs \<and> levels_of after = Inr as
       \<and> distinct (map level_path as) \<and> set (map level_path as) = set (map level_path bs)
       \<and> list_all2 (\<lambda>a d. \<exists>b. b \<in> set bs \<and> delta_against b a d) as ds)
   | Inl e \<Rightarrow> True"
proof (cases "cpu_stat_deltas before after")
  case (Inr ds)
  then obtain bs as where l: "levels_of before = Inr bs" "levels_of after = Inr as"
    and f: "rfold delta_step (by_path bs, []) as = Inr ([], ds)"
    by (auto simp: cpu_stat_deltas_def)
  have p: "map_of (by_path bs) p = Some b \<Longrightarrow> level_path b = p" for p b using by_path_Some by blast
  obtain new where n: "ds = [] @ new"
    "list_all2 (\<lambda>a d. \<exists>b. map_of (by_path bs) (level_path a) = Some b \<and> delta_against b a d) as new"
    "distinct (map level_path as)" "fst ` set ([] :: (string \<times> pydict) list) = fst ` set (by_path bs) - level_path ` set as"
    "level_path ` set as \<subseteq> fst ` set (by_path bs)"
    using delta_fold [OF f p] by blast
  have "list_all2 (\<lambda>a d. \<exists>b. b \<in> set bs \<and> delta_against b a d) as ds"
    using n(2) unfolding n(1) append_Nil by (rule list_all2_mono) (use by_path_Some in blast)
  moreover have "set (map level_path as) = set (map level_path bs)"
    using n(4,5) by (auto simp: by_path_keys)
  ultimately show ?thesis using Inr l n(3) by auto
qed simp

section \<open>Laws of the capture\<close>

definition good_level :: "pydict \<Rightarrow> bool" where
  "good_level l \<longleftrightarrow> (\<exists>stat. dget l ''cpu_stat'' = ints_val stat \<and> map fst stat = CPU_STAT_KEYS)"

definition zero_delta :: "pydict \<Rightarrow> pydict \<Rightarrow> bool" where
  "zero_delta l d \<longleftrightarrow> dget d ''path'' = VStr (level_path l) \<and> list_all (\<lambda>k. counter_of d k = Some 0) CPU_STAT_KEYS"

lemma delta_step_self:
  assumes "good_level l" "map_of bm (level_path l) = Some l"
  shows "\<exists>d. delta_step (bm, acc) l = Inr (AList.delete (level_path l) bm, acc @ [d]) \<and> zero_delta l d"
proof -
  obtain stat where s: "dget l ''cpu_stat'' = VDict (map (\<lambda>(k, i). (k, VInt i)) stat)" "map fst stat = CPU_STAT_KEYS"
    using assms(1) by (auto simp: good_level_def ints_val_def)
  have some: "\<exists>i. map_of stat k = Some i" if "k \<in> set CPU_STAT_KEYS" for k
    using that s(2) by (metis map_of_eq_None_iff not_Some_eq set_map)
  have c: "stat_counter_delta p (map (\<lambda>(k, i). (k, VInt i)) stat) (map (\<lambda>(k, i). (k, VInt i)) stat) k = Inr (k, 0)"
    if k: "k \<in> set CPU_STAT_KEYS" for k p
  proof -
    obtain i where "map_of stat k = Some i" using some [OF k] by blast
    then show ?thesis by (simp add: stat_counter_delta_def Let_def map_of_ints as_int_def)
  qed
  let ?kvs = "map (\<lambda>k. (k, 0)) CPU_STAT_KEYS"
  let ?d = "[(''kind'', dget l ''kind''), (''path'', VStr (level_path l)), (''cpu_stat'', ints_val ?kvs)]"
  have "delta_step (bm, acc) l = Inr (AList.delete (level_path l) bm, acc @ [?d])"
    using assms(2) s(1) rmap_total [of CPU_STAT_KEYS, OF c] by (simp add: delta_step_def Let_def level_stat_def)
  moreover have "zero_delta l ?d"
    by (auto simp: zero_delta_def list_all_iff counter_of_def dget_def ints_val_def map_of_ints as_int_def map_of_map_keys
        map_of_eq_Some_iff CPU_STAT_KEYS_def)
  ultimately show ?thesis by blast
qed

lemma delta_fold_self:
  assumes "list_all good_level ls" "distinct (map level_path ls)" "\<And>l. l \<in> set ls \<Longrightarrow> map_of bm (level_path l) = Some l"
  shows "\<exists>rest ds. rfold delta_step (bm, acc) ls = Inr (rest, acc @ ds) \<and> list_all2 zero_delta ls ds
    \<and> fst ` set rest = fst ` set bm - level_path ` set ls"
  using assms
proof (induction ls arbitrary: bm acc)
  case (Cons l ls)
  let ?bm = "AList.delete (level_path l) bm"
  obtain d where d: "delta_step (bm, acc) l = Inr (?bm, acc @ [d])" "zero_delta l d"
    using delta_step_self [of l bm acc] Cons.prems by auto
  have "map_of ?bm (level_path k) = Some k" if "k \<in> set ls" for k
  proof -
    have "level_path k \<noteq> level_path l" using Cons.prems(2) that by (metis distinct.simps(2) image_eqI list.simps(9) set_map)
    then show ?thesis using Cons.prems(3) that by (simp add: delete_conv')
  qed
  then obtain rest ds where r: "rfold delta_step (?bm, acc @ [d]) ls = Inr (rest, (acc @ [d]) @ ds)"
    "list_all2 zero_delta ls ds" "fst ` set rest = fst ` set ?bm - level_path ` set ls"
    using Cons.IH [of ?bm "acc @ [d]"] Cons.prems(1,2) by auto
  have "fst ` set ?bm = fst ` set bm - {level_path l}" by (force simp: AList.delete_eq)
  then show ?case using d r by (intro exI [of _ rest] exI [of _ "d # ds"]) auto
qed simp

lemma find_unique_path:
  "distinct (map level_path ls) \<Longrightarrow> l \<in> set ls \<Longrightarrow> map_of (by_path ls) (level_path l) = Some l"
proof -
  assume d: "distinct (map level_path ls)" and l: "l \<in> set ls"
  have "level_path l \<in> fst ` set (by_path ls)" using l by (auto simp: by_path_keys)
  then obtain k where k: "map_of (by_path ls) (level_path l) = Some k" by (meson map_of_eq_None_iff not_Some_eq)
  then have "k \<in> set ls" "level_path k = level_path l" using by_path_Some by blast+
  then show ?thesis using k d l by (metis distinct_map inj_onD)
qed

lemma deltas_self:
  assumes "levels_of rec = Inr ls" "list_all good_level ls" "distinct (map level_path ls)"
  shows "\<exists>ds. cpu_stat_deltas rec rec = Inr ds \<and> list_all2 zero_delta ls ds"
proof -
  obtain rest ds where r: "rfold delta_step (by_path ls, []) ls = Inr (rest, ds)" "list_all2 zero_delta ls ds"
    "fst ` set rest = fst ` set (by_path ls) - level_path ` set ls"
    using delta_fold_self [OF assms(2,3) find_unique_path [OF assms(3)], where acc = "[]"] by auto
  then have "rest = []" by (simp add: by_path_keys)
  then show ?thesis using r assms(1) by (simp add: cpu_stat_deltas_def)
qed

lemma probe_cpu_stat_keys: "probe_cpu_stat v = Inr stat \<Longrightarrow> map fst stat = CPU_STAT_KEYS"
proof -
  assume "probe_cpu_stat v = Inr stat"
  then obtain parsed where "list_all2 (\<lambda>k kv. as_some (map_of parsed k) KeyError k (\<lambda>v. Inr (k, v)) = Inr kv) CPU_STAT_KEYS stat"
    by (auto simp: probe_cpu_stat_def Let_def rmap_Inr)
  then show ?thesis by (induction rule: list_all2_induct) auto
qed

lemma probe_level_ok:
  assumes "probe_level fs p kind st = Inr l"
  shows "level_path l = path_text p" "good_level l"
proof -
  obtain stat v where "probe_cpu_stat v = Inr stat" "dget l ''path'' = VStr (path_text p)" "dget l ''cpu_stat'' = ints_val stat"
    using assms unfolding probe_level_def by (auto simp: Let_def dget_def)
  then show "level_path l = path_text p" "good_level l"
    using probe_cpu_stat_keys by (auto simp: level_path_def py_str_def good_level_def)
qed

text \<open>The texts of the captured paths differ, whatever the names of the scopes are.\<close>

lemma join_snoc: "xs \<noteq> [] \<Longrightarrow> join s (xs @ [y]) = join s xs @ s @ y"
  by (induction s xs rule: join.induct) simp_all

lemma path_text_snoc: "p \<noteq> [] \<Longrightarrow> path_text (p @ [n]) = path_text p @ ''/'' @ n"
  by (simp add: path_text_def join_snoc)

definition scope_paths :: "fs \<Rightarrow> path \<Rightarrow> string \<Rightarrow> string list" where
  "scope_paths fs pod n = (if is_dir fs (pod @ [n] @ [''container'']) then [path_text pod @ ''/'' @ n, path_text pod @ ''/'' @ n @ ''/container'']
     else [path_text pod @ ''/'' @ n])"

lemma scope_levels_ok:
  assumes "scope_levels fs pod n = Inr ls" "pod \<noteq> []"
  shows "map level_path ls = scope_paths fs pod n" "list_all good_level ls"
proof -
  have t: "path_text (pod @ [n]) = path_text pod @ ''/'' @ n"
    "path_text (pod @ [n, ''container'']) = path_text pod @ ''/'' @ n @ ''/container''"
    using path_text_snoc [OF assms(2), of n] path_text_snoc [of "pod @ [n]" "''container''"] by simp_all
  show "map level_path ls = scope_paths fs pod n" "list_all good_level ls"
    using assms(1) t probe_level_ok by (auto simp: scope_levels_def Let_def scope_paths_def split: if_splits)
qed

lemma scope_path_cases:
  "t \<in> set (scope_paths fs pod n) \<Longrightarrow> t = path_text pod @ ''/'' @ n \<or> t = path_text pod @ ''/'' @ n @ ''/container''"
  by (auto simp: scope_paths_def split: if_splits)

lemma scope_paths_distinct:
  assumes "distinct ns" "list_all (suffix ''.scope'') ns"
  shows "distinct (concat (map (scope_paths fs pod) ns))"
  using assms
proof (induction ns)
  case (Cons n ns)
  have "False" if t: "t \<in> set (scope_paths fs pod n)" "m \<in> set ns" "t \<in> set (scope_paths fs pod m)" for t m
  proof -
    have "n \<noteq> m" "suffix ''.scope'' n" "suffix ''.scope'' m" using Cons.prems t(2) by (auto simp: list_all_iff)
    then show False using scope_path_cases [OF t(1)] scope_path_cases [OF t(3)] by (auto simp: suffix_def)
  qed
  moreover have "distinct (scope_paths fs pod n)" by (simp add: scope_paths_def)
  ultimately show ?case using Cons by auto
qed simp

lemma capture_levels_ok:
  assumes "capture_levels fs pod = Inr ls" "2 \<le> length pod"
  shows "list_all good_level ls" "distinct (map level_path ls)"
proof -
  have pod: "pod \<noteq> []" "butlast pod \<noteq> []" using assms(2) by (auto simp flip: length_0_conv)
  obtain q p lss where l: "probe_level fs (butlast pod) ''qos_slice'' None = Inr q" "probe_level fs pod ''pod_slice'' None = Inr p"
    "list_all2 (\<lambda>n l. scope_levels fs pod n = Inr l) (scope_names fs pod) lss" "ls = q # p # concat lss"
    using assms(1) by (auto simp: capture_levels_def rmap_Inr)
  have s: "map level_path (concat lss) = concat (map (scope_paths fs pod) (scope_names fs pod)) \<and> list_all good_level (concat lss)"
    using l(3) scope_levels_ok [OF _ pod(1)] by (induction rule: list_all2_induct) simp_all
  show "list_all good_level ls" using s l(4) probe_level_ok(2) [OF l(1)] probe_level_ok(2) [OF l(2)] by simp
  have "distinct (scope_names fs pod)" "list_all (suffix ''.scope'') (scope_names fs pod)"
    by (auto simp: scope_names_def child_names_def list_all_iff)
  then have d: "distinct (map level_path (concat lss))" using s scope_paths_distinct by metis
  have q: "level_path q = path_text (butlast pod)" "level_path p = path_text pod"
    using probe_level_ok(1) [OF l(1)] probe_level_ok(1) [OF l(2)] by simp_all
  have pt: "path_text pod = path_text (butlast pod) @ ''/'' @ last pod"
    using path_text_snoc [OF pod(2), of "last pod"] pod(1) by simp
  have longer: "length (path_text pod) < length t" if "t \<in> set (map level_path (concat lss))" for t
    using that s scope_path_cases by (fastforce simp del: map_concat)
  have "path_text pod \<notin> set (map level_path (concat lss))" "path_text (butlast pod) \<notin> set (map level_path (concat lss))"
    using longer [of "path_text pod"] longer [of "path_text (butlast pod)"] pt by auto
  then show "distinct (map level_path ls)" using d q l(4) pt by simp
qed

text \<open>A resolved slice is the only one of the pod among the three classes.\<close>

lemma resolve_pod_slice_ok:
  assumes "resolve_pod_slice fs cgroup_root uid = Inr p"
  shows "\<exists>u. normalize_pod_uid uid = Inr u \<and> filter (is_dir fs) (map (slice_of cgroup_root u) QOS_CLASSES) = [p]"
proof -
  obtain base u where b: "cgroup_root_dir fs cgroup_root = Inr base" "normalize_pod_uid uid = Inr u"
    and c: "(case filter (is_dir fs) (map (slice_of base u) QOS_CLASSES) of
       [] \<Rightarrow> raise FileNotFoundError (''Pod slice not found for UID '' @ uid)
     | [p] \<Rightarrow> Inr p
     | matches \<Rightarrow> raise RuntimeError (''Pod UID '' @ uid @ '' has multiple slices: '' @ join '', '' (map path_text matches))) = Inr p"
    using assms unfolding resolve_pod_slice_def by auto
  have "base = cgroup_root" using b(1) by (auto simp: cgroup_root_dir_def path_error_def split: if_splits)
  moreover have "filter (is_dir fs) (map (slice_of base u) QOS_CLASSES) = [p]"
    using c by (cases "filter (is_dir fs) (map (slice_of base u) QOS_CLASSES)" rule: remdups_adj.cases) auto
  ultimately show ?thesis using b(2) by blast
qed

text \<open>
  A record that was captured agrees with itself: its levels have pairwise different paths and
  all counters, so that taking the differences of the record against itself succeeds and yields
  zero for every counter of every level.
\<close>

theorem capture_self_delta:
  "case capture fs cgroup_root pod_uid timestamp ids of
     Inr rec \<Rightarrow> (\<exists>ls ds. levels_of rec = Inr ls \<and> 2 \<le> length ls \<and> distinct (map level_path ls)
       \<and> cpu_stat_deltas rec rec = Inr ds \<and> list_all2 zero_delta ls ds)
   | Inl e \<Rightarrow> True"
proof (cases "capture fs cgroup_root pod_uid timestamp ids")
  case (Inr rec)
  then obtain pod ls where p: "resolve_pod_slice fs cgroup_root pod_uid = Inr pod" "capture_levels fs pod = Inr ls"
    and r: "dget rec ''levels'' = VList (map VDict ls)"
    by (auto simp: capture_def dget_def)
  obtain u where "filter (is_dir fs) (map (slice_of cgroup_root u) QOS_CLASSES) = [pod]"
    using resolve_pod_slice_ok [OF p(1)] by blast
  then have "pod \<in> set (map (slice_of cgroup_root u) QOS_CLASSES)" by (metis filter_is_subset list.set_intros(1) subsetD)
  then have "2 \<le> length pod" by (auto simp: slice_of_def)
  note c = capture_levels_ok [OF p(2) this]
  have l: "levels_of rec = Inr ls" by (simp add: levels_of_def r rmap_map as_level_def rmap_total [of ls Inr id])
  have "2 \<le> length ls" using p(2) by (auto simp: capture_levels_def)
  then show ?thesis using Inr deltas_self [OF l c] l c(2) by auto
qed simp

end
