(* ===== verification/Runtime_Gate.thy ===== *)
theory Runtime_Gate
  imports Py_Json Py_Files "HOL-Library.Word"
begin

text \<open>
  The fail-closed runtime gate of the CPU-limits experiment (\<open>cpu-limits/experiments/runtime_gate.py\<close>).
  The inspected host is a store together with the mode word of every path, of which the gate tests
  the file type and the permission bits.
\<close>

unbundle bit_operations_syntax

section \<open>Checks\<close>

record host =
  host_fs :: fs
  host_modes :: "path \<Rightarrow> 32 word"

definition CGROUP_CONTROLLERS :: path where "CGROUP_CONTROLLERS = [''sys'', ''fs'', ''cgroup'', ''cgroup.controllers'']"
definition KERNEL_RELEASE :: path where "KERNEL_RELEASE = [''proc'', ''sys'', ''kernel'', ''osrelease'']"
definition CGROUP_MODE :: path where "CGROUP_MODE = [''sys'', ''kernel'', ''debug'', ''sched'', ''cgroup_mode'']"
definition BASE_SLICE_NS :: path where "BASE_SLICE_NS = [''sys'', ''kernel'', ''debug'', ''sched'', ''base_slice_ns'']"
definition CPU_MAX :: path where "CPU_MAX = [''sys'', ''fs'', ''cgroup'', ''kubepods.slice'', ''cpu.max'']"
definition CPU_WEIGHT :: path where "CPU_WEIGHT = [''sys'', ''fs'', ''cgroup'', ''kubepods.slice'', ''cpu.weight'']"
definition FIXTURE :: path where "FIXTURE = [''fixtures'', ''input.mp4'']"

definition REQUIRED_COMMANDS :: "string list" where
  "REQUIRED_COMMANDS = [''bpftrace'', ''perf'', ''wrk2'']"

definition WRITABLE_DEBUG_PATHS :: "path list" where
  "WRITABLE_DEBUG_PATHS = [CGROUP_MODE, BASE_SLICE_NS]"

definition BASE_CHECKS :: "string list" where
  "BASE_CHECKS = [''cgroup_v2'', ''cpu_controller'', ''kernel_release'', ''cgroup_mode_readable'', ''base_slice_ns_readable'',
     ''command_bpftrace'', ''command_perf'', ''command_wrk2'', ''fixture_input_mp4'', ''cpu_max_readable'', ''cpu_weight_readable'']"

record gate_check =
  check_name :: string
  check_status :: string
  check_detail :: string

record gate_result =
  gate_status :: string
  gate_focused :: bool
  gate_root :: path
  gate_checks :: "gate_check list"

definition mk_check :: "string \<Rightarrow> string \<Rightarrow> string \<Rightarrow> gate_check" where
  "mk_check name status detail = \<lparr> check_name = name, check_status = status, check_detail = detail \<rparr>"

definition S_ISREG :: "32 word \<Rightarrow> bool" where
  "S_ISREG m \<longleftrightarrow> m AND 0xF000 = 0x8000"

definition stat_mode :: "host \<Rightarrow> path \<Rightarrow> 32 word res" where
  "stat_mode h p = (if path_exists (host_fs h) p then Inr (host_modes h p) else path_error (host_fs h) p)"

text \<open>\<open>mode & 0o444\<close>, \<open>mode & 0o222\<close> and \<open>mode & 0o111\<close> on a regular file.\<close>

definition regular_with :: "32 word \<Rightarrow> 32 word \<Rightarrow> bool" where
  "regular_with bits m \<longleftrightarrow> S_ISREG m \<and> m AND bits \<noteq> 0"

definition check_readable :: "host \<Rightarrow> path \<Rightarrow> string \<Rightarrow> path \<Rightarrow> bool \<Rightarrow> gate_check res" where
  "check_readable h base name p with_text =
     (case rbind (stat_mode h (base @ p)) (\<lambda>m.
        require (regular_with 0x124 m) OSError ''not a readable regular file'' (
        if with_text then rbind (read_text (host_fs h) (base @ p)) (\<lambda>_. Inr ()) else Inr ())) of
       Inr _ \<Rightarrow> Inr (mk_check name ''PASS'' (path_text p))
     | Inl e \<Rightarrow> if is_os_error (exn_of e) \<or> exn_of e = UnicodeDecodeError
         then Inr (mk_check name ''FAIL'' (path_text p @ '': '' @ msg_of e)) else Inl e)"

definition check_writable :: "host \<Rightarrow> path \<Rightarrow> string \<Rightarrow> path \<Rightarrow> gate_check res" where
  "check_writable h base name p =
     (case rbind (stat_mode h (base @ p)) (\<lambda>m.
        require (regular_with 0x92 m) OSError ''not a writable regular file'' (Inr ())) of
       Inr _ \<Rightarrow> Inr (mk_check name ''PASS'' (path_text p))
     | Inl e \<Rightarrow> if is_os_error (exn_of e)
         then Inr (mk_check name ''FAIL'' (path_text p @ '': '' @ msg_of e)) else Inl e)"

definition check_cgroup_v2 :: "host \<Rightarrow> path \<Rightarrow> gate_check res" where
  "check_cgroup_v2 h base = check_readable h base ''cgroup_v2'' CGROUP_CONTROLLERS True"

definition check_cpu_controller :: "host \<Rightarrow> path \<Rightarrow> gate_check res" where
  "check_cpu_controller h base =
     (case read_text (host_fs h) (base @ CGROUP_CONTROLLERS) of
       Inl e \<Rightarrow> if is_os_error (exn_of e)
         then Inr (mk_check ''cpu_controller'' ''FAIL'' (path_text CGROUP_CONTROLLERS @ '': '' @ msg_of e)) else Inl e
     | Inr controllers \<Rightarrow> Inr (if ''cpu'' \<notin> set (py_split controllers)
         then mk_check ''cpu_controller'' ''FAIL'' ''cpu controller is not enabled''
         else mk_check ''cpu_controller'' ''PASS'' ''cpu controller is enabled''))"

definition check_kernel_release :: "host \<Rightarrow> path \<Rightarrow> gate_check res" where
  "check_kernel_release h base =
     rbind (check_readable h base ''kernel_release'' KERNEL_RELEASE True) (\<lambda>check.
     if check_status check = ''FAIL'' then Inr check
     else rbind (read_text (host_fs h) (base @ KERNEL_RELEASE)) (\<lambda>t.
       let release = strip t in
       Inr (if release = [] then mk_check ''kernel_release'' ''FAIL'' ''kernel release is empty''
            else mk_check ''kernel_release'' ''PASS'' release)))"

definition command_dirs :: "path list" where
  "command_dirs = [[''usr'', ''bin''], [''usr'', ''local'', ''bin''], [''bin'']]"

definition is_command :: "host \<Rightarrow> path \<Rightarrow> path \<Rightarrow> bool" where
  "is_command h base p = (case stat_mode h (base @ p) of Inl _ \<Rightarrow> False | Inr m \<Rightarrow> regular_with 0x49 m)"

text \<open>Every failure of \<open>stat\<close> is an \<open>OSError\<close>, which the loop skips.\<close>

definition check_command :: "host \<Rightarrow> path \<Rightarrow> string \<Rightarrow> gate_check res" where
  "check_command h base command =
     Inr (case find (is_command h base) (map (\<lambda>d. d @ [command]) command_dirs) of
       Some p \<Rightarrow> mk_check (''command_'' @ command) ''PASS'' (path_text p)
     | None \<Rightarrow> mk_check (''command_'' @ command) ''FAIL'' (command @ '' is missing or is not executable''))"

section \<open>The gate\<close>

text \<open>The classes the defensive handler names; \<open>OverflowError\<close> and the like are subclasses.\<close>

definition defended :: "exn \<Rightarrow> bool" where
  "defended e \<longleftrightarrow> is_os_error e \<or> e \<in> {ArithmeticError, OverflowError, ZeroDivisionError, AttributeError, KeyError, IndexError,
     RuntimeError, TypeError, UnicodeDecodeError, ValueError, JSONDecodeError}"

definition run_check :: "gate_check res \<Rightarrow> gate_check res" where
  "run_check r = (case r of
     Inl e \<Rightarrow> if defended (exn_of e) then Inr (mk_check ''internal_gate_error'' ''FAIL'' (msg_of e)) else Inl e
   | Inr c \<Rightarrow> Inr (if check_status c \<notin> {''PASS'', ''FAIL''}
       then mk_check (check_name c) ''FAIL'' ''check returned an invalid status'' else c))"

definition gate_runs :: "host \<Rightarrow> path \<Rightarrow> bool \<Rightarrow> gate_check res list" where
  "gate_runs h base focused =
     [check_cgroup_v2 h base, check_cpu_controller h base, check_kernel_release h base,
      check_readable h base ''cgroup_mode_readable'' CGROUP_MODE True,
      check_readable h base ''base_slice_ns_readable'' BASE_SLICE_NS True]
     @ map (check_command h base) REQUIRED_COMMANDS
     @ [check_readable h base ''fixture_input_mp4'' FIXTURE False,
        check_readable h base ''cpu_max_readable'' CPU_MAX True,
        check_readable h base ''cpu_weight_readable'' CPU_WEIGHT True]
     @ (if focused then map (\<lambda>p. check_writable h base (path_name p @ ''_writable'') p) WRITABLE_DEBUG_PATHS else [])"

definition run_gate :: "host \<Rightarrow> path \<Rightarrow> bool \<Rightarrow> gate_result res" where
  "run_gate h base focused =
     rbind (rmap run_check (gate_runs h base focused)) (\<lambda>checks.
     Inr \<lparr> gate_status = (if list_all (\<lambda>c. check_status c = ''PASS'') checks then ''PASS'' else ''FAIL''),
       gate_focused = focused, gate_root = base, gate_checks = checks \<rparr>)"

definition check_val :: "gate_check \<Rightarrow> pyval" where
  "check_val c = VDict [(''name'', VStr (check_name c)), (''status'', VStr (check_status c)), (''detail'', VStr (check_detail c))]"

definition gate_val :: "gate_result \<Rightarrow> pyval" where
  "gate_val r = VDict [(''status'', VStr (gate_status r)), (''focused'', VBool (gate_focused r)),
     (''root'', VStr (path_text (gate_root r))), (''checks'', VList (map check_val (gate_checks r)))]"

text \<open>The record is written to the store of the command, which may be the inspected one.\<close>

definition write_gate :: "path \<Rightarrow> gate_result \<Rightarrow> unit io" where
  "write_gate out r =
     io_then (io_do (mkdir_p (butlast out)))
     (write_text out (dumps indent2_style (sort_keys (gate_val r)) @ nl))"

definition gate_main :: "host \<Rightarrow> path \<Rightarrow> bool \<Rightarrow> path \<Rightarrow> int io" where
  "gate_main h base focused out =
     io_bind (io_lift (run_gate h base focused)) (\<lambda>r.
     io_except
       (io_then (write_gate out r) (io_return (if gate_status r = ''PASS'' then 0 else 1)))
       (\<lambda>e. if is_os_error (exn_of e) then io_return 1 else io_lift (Inl e)))"

section \<open>Laws\<close>

definition readable_file :: "host \<Rightarrow> path \<Rightarrow> bool" where
  "readable_file h p \<longleftrightarrow> path_exists (host_fs h) p \<and> regular_with 0x124 (host_modes h p)"

definition text_at :: "host \<Rightarrow> path \<Rightarrow> string option" where
  "text_at h p = (case read_text (host_fs h) p of Inr t \<Rightarrow> Some t | Inl _ \<Rightarrow> None)"

lemma path_error_Inl: "\<exists>e. path_error fs p = Inl e \<and> is_os_error (exn_of e)"
  by (auto simp: path_error_def is_os_error_def)

lemma read_text_errors: "read_text fs p = Inl e \<Longrightarrow> is_os_error (exn_of e) \<or> exn_of e = UnicodeDecodeError"
  using errsD [OF store_errs(3), of fs p e] by (auto simp: read_text_def rbind_Inl as_some_def split: option.splits)

lemma os_error_OSError [simp]: "is_os_error OSError"
  by (simp add: is_os_error_def)

lemma stat_mode_cases:
  obtains (present) "path_exists (host_fs h) p" "stat_mode h p = Inr (host_modes h p)"
  | (absent) e where "\<not> path_exists (host_fs h) p" "stat_mode h p = Inl e" "is_os_error (exn_of e)"
  using path_error_Inl [of "host_fs h" p] by (cases "path_exists (host_fs h) p") (auto simp: stat_mode_def)

lemma check_readable_cases:
  "\<exists>c. check_readable h base name p with_text = Inr c \<and> check_name c = name
     \<and> check_status c = (if readable_file h (base @ p) \<and> (with_text \<longrightarrow> text_at h (base @ p) \<noteq> None) then ''PASS'' else ''FAIL'')"
proof (cases rule: stat_mode_cases [of h "base @ p"])
  case present
  show ?thesis
  proof (cases "regular_with 0x124 (host_modes h (base @ p)) \<and> with_text")
    case True
    then show ?thesis using present read_text_errors [of "host_fs h" "base @ p"]
      by (cases "read_text (host_fs h) (base @ p)") (auto simp: check_readable_def mk_check_def readable_file_def text_at_def)
  qed (use present in \<open>auto simp: check_readable_def mk_check_def readable_file_def require_def\<close>)
qed (simp add: check_readable_def mk_check_def readable_file_def)

lemma check_writable_cases:
  "\<exists>c. check_writable h base name p = Inr c \<and> check_name c = name
     \<and> check_status c = (if path_exists (host_fs h) (base @ p) \<and> regular_with 0x92 (host_modes h (base @ p)) then ''PASS'' else ''FAIL'')"
  by (cases rule: stat_mode_cases [of h "base @ p"]) (simp_all add: check_writable_def mk_check_def require_def)

text \<open>The two checks of a content fail on a file that does not decode.\<close>

definition has_cpu_controller :: "host \<Rightarrow> path \<Rightarrow> bool" where
  "has_cpu_controller h base = (case text_at h (base @ CGROUP_CONTROLLERS) of
     Some t \<Rightarrow> ''cpu'' \<in> set (py_split t) | None \<Rightarrow> False)"

definition has_release :: "host \<Rightarrow> path \<Rightarrow> bool" where
  "has_release h base = (readable_file h (base @ KERNEL_RELEASE) \<and> (case text_at h (base @ KERNEL_RELEASE) of
     Some t \<Rightarrow> strip t \<noteq> [] | None \<Rightarrow> False))"

definition status_of :: "bool \<Rightarrow> string" where
  "status_of b = (if b then ''PASS'' else ''FAIL'')"

lemma status_of_simps [simp]: "status_of b = ''PASS'' \<longleftrightarrow> b" "status_of b = ''FAIL'' \<longleftrightarrow> \<not> b"
  by (simp_all add: status_of_def)

lemma run_check_status: "r = Inr c \<Longrightarrow> check_status c = status_of b \<Longrightarrow> run_check r = Inr c"
  by (simp add: run_check_def status_of_def)

lemma check_cpu_controller_cases:
  "\<exists>c. run_check (check_cpu_controller h base) = Inr c \<and> check_status c = status_of (has_cpu_controller h base)"
proof (cases "read_text (host_fs h) (base @ CGROUP_CONTROLLERS)")
  case (Inl e)
  then show ?thesis using read_text_errors [OF Inl]
    by (auto simp: check_cpu_controller_def run_check_def has_cpu_controller_def text_at_def mk_check_def status_of_def defended_def)
qed (simp add: check_cpu_controller_def run_check_def has_cpu_controller_def text_at_def mk_check_def status_of_def)

lemma check_kernel_release_cases:
  "\<exists>c. run_check (check_kernel_release h base) = Inr c \<and> check_status c = status_of (has_release h base)"
proof -
  obtain c where c: "check_readable h base ''kernel_release'' KERNEL_RELEASE True = Inr c"
    "check_status c = status_of (readable_file h (base @ KERNEL_RELEASE) \<and> text_at h (base @ KERNEL_RELEASE) \<noteq> None)"
    using check_readable_cases [of h base "''kernel_release''" KERNEL_RELEASE True] by (auto simp: status_of_def)
  show ?thesis
  proof (cases "readable_file h (base @ KERNEL_RELEASE) \<and> text_at h (base @ KERNEL_RELEASE) \<noteq> None")
    case True
    then show ?thesis using c
      by (auto simp: check_kernel_release_def run_check_def has_release_def text_at_def mk_check_def status_of_def split: sum.splits)
  next
    case False
    then show ?thesis using c
      by (auto simp: check_kernel_release_def run_check_def has_release_def status_of_def split: option.splits)
  qed
qed

section \<open>The gate decides its conditions\<close>

definition readable_text :: "host \<Rightarrow> path \<Rightarrow> bool" where
  "readable_text h p \<longleftrightarrow> readable_file h p \<and> text_at h p \<noteq> None"

definition has_command :: "host \<Rightarrow> path \<Rightarrow> string \<Rightarrow> bool" where
  "has_command h base command = list_ex (is_command h base) (map (\<lambda>d. d @ [command]) command_dirs)"

definition gate_conditions :: "host \<Rightarrow> path \<Rightarrow> bool \<Rightarrow> bool list" where
  "gate_conditions h base focused =
     [readable_text h (base @ CGROUP_CONTROLLERS), has_cpu_controller h base, has_release h base,
      readable_text h (base @ CGROUP_MODE), readable_text h (base @ BASE_SLICE_NS)]
     @ map (has_command h base) REQUIRED_COMMANDS
     @ [readable_file h (base @ FIXTURE), readable_text h (base @ CPU_MAX), readable_text h (base @ CPU_WEIGHT)]
     @ (if focused then map (\<lambda>p. path_exists (host_fs h) (base @ p) \<and> regular_with 0x92 (host_modes h (base @ p))) WRITABLE_DEBUG_PATHS
        else [])"

definition decides :: "gate_check res \<Rightarrow> bool \<Rightarrow> bool" where
  "decides r b \<longleftrightarrow> (\<exists>c. run_check r = Inr c \<and> check_status c = status_of b)"

lemma decides_readable:
  "decides (check_readable h base name p True) (readable_text h (base @ p))"
  "decides (check_readable h base name p False) (readable_file h (base @ p))"
  "decides (check_writable h base name p) (path_exists (host_fs h) (base @ p) \<and> regular_with 0x92 (host_modes h (base @ p)))"
  using check_readable_cases [of h base name p True] check_readable_cases [of h base name p False]
    check_writable_cases [of h base name p]
  unfolding decides_def readable_text_def status_of_def [symmetric] by (auto intro: run_check_status)

lemma decides_command: "decides (check_command h base command) (has_command h base command)"
  by (auto simp: decides_def check_command_def has_command_def run_check_def mk_check_def status_of_def list_ex_iff find_None_iff find_Some_iff
      split: option.splits)

lemma gate_runs_decided: "list_all2 decides (gate_runs h base focused) (gate_conditions h base focused)"
proof -
  have "decides (check_cgroup_v2 h base) (readable_text h (base @ CGROUP_CONTROLLERS))"
    unfolding check_cgroup_v2_def by (rule decides_readable)
  moreover have "decides (check_cpu_controller h base) (has_cpu_controller h base)"
    "decides (check_kernel_release h base) (has_release h base)"
    unfolding decides_def by (rule check_cpu_controller_cases check_kernel_release_cases)+
  moreover have "list_all2 decides (map (check_command h base) cs) (map (has_command h base) cs)" for cs
    by (induction cs) (simp_all add: decides_command)
  moreover have "list_all2 decides (map (\<lambda>p. check_writable h base (path_name p @ ''_writable'') p) ps)
      (map (\<lambda>p. path_exists (host_fs h) (base @ p) \<and> regular_with 0x92 (host_modes h (base @ p))) ps)" for ps
    by (induction ps) (simp_all add: decides_readable)
  ultimately show ?thesis
    unfolding gate_runs_def gate_conditions_def by (auto intro!: list_all2_appendI simp: decides_readable)
qed

lemma rmap_decided:
  "list_all2 decides rs bs \<Longrightarrow> \<exists>cs. rmap run_check rs = Inr cs \<and> map check_status cs = map status_of bs"
proof (induction rule: list_all2_induct)
  case (Cons r rs b bs)
  then show ?case by (force simp: decides_def)
qed simp

lemma run_gate_decides:
  "\<exists>r. run_gate h base focused = Inr r \<and> map check_status (gate_checks r) = map status_of (gate_conditions h base focused)
     \<and> gate_status r = status_of (list_all id (gate_conditions h base focused))"
proof -
  let ?bs = "gate_conditions h base focused"
  obtain cs where c: "rmap run_check (gate_runs h base focused) = Inr cs" "map check_status cs = map status_of ?bs"
    using rmap_decided [OF gate_runs_decided] by blast
  have "list_all (\<lambda>c. check_status c = ''PASS'') cs = list_all (\<lambda>s. s = ''PASS'') (map check_status cs)"
    by (simp add: list_all_iff)
  also have "\<dots> = list_all id ?bs" unfolding c(2) by (simp add: list_all_iff)
  finally show ?thesis using c by (simp add: run_gate_def status_of_def)
qed

lemma write_gate_cases:
  "case write_gate out r fs of
     (Inr _, fs') \<Rightarrow> read_text fs' out = Inr (dumps indent2_style (sort_keys (gate_val r)) @ nl)
   | (Inl e, _) \<Rightarrow> is_os_error (exn_of e)"
  unfolding write_gate_def by (rule write_document_cases)

text \<open>
  C20: The gate is fail-closed. For every host the command ends with 0 or 1, one check is recorded
  for every condition and it passes exactly when the condition holds on the host; the command ends
  with 0 exactly when all conditions hold and the record of the checks was written to the output file.
\<close>

theorem gate_main_fail_closed:
  "case gate_main h base focused out fs of
     (Inr c, fs') \<Rightarrow> (\<exists>r. run_gate h base focused = Inr r
       \<and> map check_status (gate_checks r) = map status_of (gate_conditions h base focused)
       \<and> (if c = 0 then list_all id (gate_conditions h base focused)
             \<and> read_text fs' out = Inr (dumps indent2_style (sort_keys (gate_val r)) @ nl)
          else c = 1 \<and> (if list_all id (gate_conditions h base focused) then \<exists>e. fst (write_gate out r fs) = Inl e else True)))
   | (Inl e, fs') \<Rightarrow> False"
proof -
  obtain r where r: "run_gate h base focused = Inr r"
    "map check_status (gate_checks r) = map status_of (gate_conditions h base focused)"
    "gate_status r = status_of (list_all id (gate_conditions h base focused))"
    using run_gate_decides by blast
  show ?thesis
  proof (cases "write_gate out r fs")
    case (Pair w fs1)
    then show ?thesis using r write_gate_cases [of out r fs]
      by (cases w) (auto simp: gate_main_def io_bind_def io_lift_def io_except_def io_return_def)
  qed
qed

end
