(* ===== verification/Collector.thy ===== *)
theory Collector
  imports Py_Files Py_Text
begin

text \<open>
  The cgroup collector of the CPU-limits experiment (\<open>cpu-limits/observers/collector.py\<close>): the
  inventories of target cgroups, from a fixture and from the Kubernetes API, the cached inventory,
  the reading of a cgroup, the Prometheus text and the answers of the HTTP service. The answer of the
  API server, the environment and the clock are arguments. The order in which a directory is walked
  is the order of the store.
\<close>

section \<open>Targets\<close>

definition METRICS :: "(string \<times> string \<times> string) list" where
  "METRICS =
    [(''container_cpu_usage_seconds_total'', ''Cumulative CPU time used by the target cgroup.'', ''counter''),
     (''container_cpu_cfs_periods_total'', ''Cumulative CPU quota periods for the target cgroup.'', ''counter''),
     (''container_cpu_cfs_throttled_periods_total'', ''Cumulative throttled CPU quota periods for the target cgroup.'', ''counter''),
     (''container_cpu_cfs_throttled_seconds_total'', ''Cumulative CPU throttled time for the target cgroup.'', ''counter''),
     (''container_memory_working_set_bytes'', ''Memory current minus inactive file cache for the target cgroup.'', ''gauge''),
     (''container_pressure_cpu_waiting_seconds_total'', ''Cumulative CPU pressure waiting time for the target cgroup.'', ''counter''),
     (''k8labs_cgroup_cpu_weight'', ''Exact cgroup v2 cpu.weight value.'', ''gauge''),
     (''k8labs_cgroup_cpu_max_quota'', ''Exact numeric cgroup v2 cpu.max quota in microseconds.'', ''gauge''),
     (''k8labs_cgroup_cpu_max_period'', ''Exact cgroup v2 cpu.max period in microseconds.'', ''gauge''),
     (''k8labs_cgroup_cpu_usage_seconds_total'', ''Exact cgroup v2 cpu.stat usage time in seconds.'', ''counter'')]"

definition uid_char :: "char \<Rightarrow> bool" where
  "uid_char c \<longleftrightarrow> is_alpha c \<or> is_digit c"

definition UID_PATTERN :: "string \<Rightarrow> bool" where
  "UID_PATTERN s \<longleftrightarrow> s \<noteq> [] \<and> uid_char (hd s) \<and> length s \<le> 256
     \<and> list_all (\<lambda>c. uid_char c \<or> c \<in> set ''_.-'') (tl s)"

record cgroup_target =
  ct_uid :: string
  ct_namespace :: string
  ct_pod :: string
  ct_container :: string
  ct_qos :: string
  ct_level :: string
  ct_cell_id :: string
  ct_path :: string

definition target_labels :: "string \<Rightarrow> cgroup_target \<Rightarrow> (string \<times> string) list" where
  "target_labels node t =
     [(''node'', node), (''namespace'', ct_namespace t), (''pod'', ct_pod t), (''pod_uid'', ct_uid t),
      (''container'', ct_container t), (''qos'', ct_qos t), (''level'', ct_level t), (''cell_id'', ct_cell_id t)]"

record inventory_index =
  inv_targets :: "cgroup_target list"
  inv_by_uid :: "(string \<times> cgroup_target list) list"

definition index_target :: "(string \<times> cgroup_target list) list \<Rightarrow> cgroup_target \<Rightarrow> (string \<times> cgroup_target list) list" where
  "index_target d t = AList.update (ct_uid t)
     ((case map_of d (ct_uid t) of None \<Rightarrow> [] | Some ts \<Rightarrow> ts) @ [t]) d"

definition make_inventory :: "cgroup_target list \<Rightarrow> inventory_index" where
  "make_inventory targets = \<lparr> inv_targets = targets, inv_by_uid = foldl index_target [] targets \<rparr>"

definition targets_for_uid :: "inventory_index \<Rightarrow> string \<Rightarrow> cgroup_target list" where
  "targets_for_uid index uid = (case map_of (inv_by_uid index) uid of None \<Rightarrow> [] | Some ts \<Rightarrow> ts)"

section \<open>The fixture inventory\<close>

definition required_text :: "pydict \<Rightarrow> string \<Rightarrow> string res" where
  "required_text vals key = (case dget vals key of
     VStr s \<Rightarrow> if s = [] then raise ValueError (''inventory entry needs non-empty '' @ key) else Inr s
   | _ \<Rightarrow> raise ValueError (''inventory entry needs non-empty '' @ key))"

fun optional_text :: "pydict \<Rightarrow> string list \<Rightarrow> string" where
  "optional_text vals [] = []"
| "optional_text vals (key # keys) = (case dget vals key of VStr s \<Rightarrow> s | _ \<Rightarrow> optional_text vals keys)"

definition list_cgroup_item :: "string \<Rightarrow> pyval \<Rightarrow> (string \<times> pyval) res" where
  "list_cgroup_item uid entry =
     as_dict entry InventoryFormatError (''inventory pod '' @ uid @ '': cgroup must be a JSON object'') (\<lambda>d.
     case (dget d ''level'', dget d ''path'') of
       (VStr level, VStr p) \<Rightarrow> Inr (level, VStr p)
     | _ \<Rightarrow> raise InventoryFormatError (''inventory pod '' @ uid @ '': cgroup needs level and path''))"

definition cgroup_items :: "string \<Rightarrow> pyval \<Rightarrow> (string \<times> pyval) list res" where
  "cgroup_items uid cgroups = (case cgroups of
     VDict d \<Rightarrow> Inr d
   | VList xs \<Rightarrow> rmap (list_cgroup_item uid) xs
   | _ \<Rightarrow> raise InventoryFormatError (''inventory pod '' @ uid @ '': cgroups must be an object or list''))"

text \<open>One container of a pod; \<open>proto\<close> carries what the pod gives to its targets.\<close>

definition container_targets :: "cgroup_target \<Rightarrow> pyval \<Rightarrow> cgroup_target list res" where
  "container_targets proto container_data =
     as_dict container_data InventoryFormatError (''inventory pod '' @ ct_uid proto @ '': container must be a JSON object'') (\<lambda>d.
     rbind (cgroup_items (ct_uid proto) (dget d ''cgroups'')) (\<lambda>items.
     rmap (\<lambda>(level, p). as_str p InventoryFormatError (''inventory pod '' @ ct_uid proto @ '': invalid cgroup entry'') (\<lambda>s.
       Inr (proto\<lparr> ct_container := optional_text d [''name'', ''container''], ct_level := level, ct_path := s \<rparr>))) items))"

definition pod_targets :: "pyval \<Rightarrow> cgroup_target list res" where
  "pod_targets pod =
     as_dict pod InventoryFormatError ''inventory pod entries must be JSON objects'' (\<lambda>pod_data.
     rbind (required_text pod_data ''uid'') (\<lambda>uid.
     as_list (dget pod_data ''containers'') InventoryFormatError
       (''inventory pod '' @ uid @ '': containers must be a JSON list'') (\<lambda>containers.
     rbind (rmap (container_targets \<lparr> ct_uid = uid, ct_namespace = optional_text pod_data [''namespace''],
         ct_pod = optional_text pod_data [''pod'', ''name''], ct_container = [],
         ct_qos = optional_text pod_data [''qos'', ''qos_class''], ct_level = [],
         ct_cell_id = optional_text pod_data [''cell_id''], ct_path = [] \<rparr>) containers) (\<lambda>tss.
     Inr (concat tss)))))"

definition from_data :: "pydict \<Rightarrow> inventory_index res" where
  "from_data data =
     as_list (dget_or data ''pods'' (dget data ''items'')) InventoryFormatError ''inventory pods must be a JSON list'' (\<lambda>pods.
     rbind (rmap pod_targets pods) (\<lambda>tss. Inr (make_inventory (concat tss))))"

definition from_file :: "path \<Rightarrow> fs \<Rightarrow> inventory_index res" where
  "from_file p fs = rbind (read_text fs p) (\<lambda>t. rbind (loads t) (\<lambda>v.
     as_dict v InventoryFormatError ''inventory fixture must contain a JSON object'' from_data))"

section \<open>Discovery of a pod's cgroups\<close>

text \<open>\<open>[p for p in root.rglob("*") if p.is_dir()]\<close> and the directories directly below a path.\<close>

definition dirs_below :: "fs \<Rightarrow> path \<Rightarrow> path list" where
  "dirs_below fs d = filter (\<lambda>p. strict_prefix d p \<and> is_dir fs p) (remdups (map fst fs))"

definition safe_child_directories :: "fs \<Rightarrow> path \<Rightarrow> path list" where
  "safe_child_directories fs d = filter (is_dir fs) (map (\<lambda>n. d @ [n]) (child_names fs d))"

definition container_for_path :: "path \<Rightarrow> string list \<Rightarrow> string" where
  "container_for_path p containers =
     (case find (\<lambda>c. c \<noteq> [] \<and> str_in c (path_name p)) containers of Some c \<Rightarrow> c | None \<Rightarrow> [])"

definition target_for_path :: "cgroup_target \<Rightarrow> path \<Rightarrow> path \<Rightarrow> string \<Rightarrow> string \<Rightarrow> cgroup_target" where
  "target_for_path proto base p container level =
     proto\<lparr> ct_container := container, ct_level := level, ct_path := join ''/'' (drop (length base) p) \<rparr>"

definition qos_part :: "string \<Rightarrow> bool" where
  "qos_part part \<longleftrightarrow> prefix ''kubepods'' part \<and> suffix ''.slice'' part"

definition pod_path_targets :: "fs \<Rightarrow> path \<Rightarrow> cgroup_target \<Rightarrow> string list \<Rightarrow> path \<Rightarrow> cgroup_target list" where
  "pod_path_targets fs base proto containers pod_path =
     (let parts = drop (length base) pod_path; qos_index = length (takeWhile (\<lambda>c. \<not> qos_part c) parts) in
      (if qos_index < length parts
       then [target_for_path proto base (base @ take (qos_index + 1) parts) [] ''qos_slice''] else [])
      @ [target_for_path proto base pod_path [] ''pod_slice'']
      @ map (\<lambda>child. target_for_path proto base child (container_for_path child containers)
          (if suffix ''.scope'' (path_name child) then ''container_scope'' else ''container_leaf''))
          (safe_child_directories fs pod_path))"

definition uid_forms :: "string \<Rightarrow> string list" where
  "uid_forms uid = [uid, replace_all ''-'' ''_'' uid]"

definition unique_targets :: "cgroup_target list \<Rightarrow> cgroup_target list" where
  "unique_targets targets = map snd (foldl (\<lambda>d t. AList.update (ct_level t, ct_path t) t d) [] targets)"

definition discover_targets :: "fs \<Rightarrow> path \<Rightarrow> cgroup_target \<Rightarrow> string list \<Rightarrow> cgroup_target list" where
  "discover_targets fs base proto containers =
     unique_targets (concat (map (pod_path_targets fs base proto containers)
       (filter (\<lambda>p. list_ex (\<lambda>u. str_in u (path_name p)) (uid_forms (ct_uid proto))) (dirs_below fs base))))"

section \<open>The Kubernetes inventory\<close>

definition CELL_ID_KEYS :: "string list" where
  "CELL_ID_KEYS = [''cpu-limits.k8labs.io/cell-id'', ''k8labs.io/cell-id'', ''cell_id'']"

definition has_text :: "pydict \<Rightarrow> string list \<Rightarrow> bool" where
  "has_text vals keys = list_ex (\<lambda>k. is_str (dget vals k)) keys"

definition metadata_cell_id :: "pydict \<Rightarrow> pydict \<Rightarrow> string" where
  "metadata_cell_id labels annotations =
     (if has_text labels CELL_ID_KEYS then optional_text labels CELL_ID_KEYS else optional_text annotations CELL_ID_KEYS)"

definition dict_or_empty :: "pyval \<Rightarrow> pydict" where
  "dict_or_empty v = (case v of VDict d \<Rightarrow> d | _ \<Rightarrow> [])"

definition targets_from_kubernetes_pod :: "fs \<Rightarrow> path \<Rightarrow> pydict \<Rightarrow> cgroup_target list" where
  "targets_from_kubernetes_pod fs base pod_data =
     (case (dget pod_data ''metadata'', dget pod_data ''status'', dget pod_data ''spec'') of
        (VDict metadata, VDict status, VDict spec) \<Rightarrow>
          (case (dget metadata ''uid'', dget spec ''containers'') of
             (VStr uid, VList containers) \<Rightarrow>
               if \<not> UID_PATTERN uid then []
               else discover_targets fs base
                 \<lparr> ct_uid = uid, ct_namespace = optional_text metadata [''namespace''], ct_pod = optional_text metadata [''name''],
                   ct_container = [], ct_qos = optional_text status [''qosClass''], ct_level = [],
                   ct_cell_id = metadata_cell_id (dict_or_empty (dget metadata ''labels'')) (dict_or_empty (dget metadata ''annotations'')),
                   ct_path = [] \<rparr>
                 (concat (map (\<lambda>c. case c of VDict d \<Rightarrow> [optional_text d [''name'']] | _ \<Rightarrow> []) containers))
           | _ \<Rightarrow> [])
      | _ \<Rightarrow> [])"

record kube_api =
  ka_environ :: "string \<Rightarrow> string option"
  ka_fetch :: "string \<Rightarrow> string \<Rightarrow> string res"

definition environ_or :: "kube_api \<Rightarrow> string \<Rightarrow> string \<Rightarrow> string" where
  "environ_or api name dflt = (case ka_environ api name of Some v \<Rightarrow> v | None \<Rightarrow> dflt)"

definition isdecimal :: "string \<Rightarrow> bool" where
  "isdecimal s \<longleftrightarrow> s \<noteq> [] \<and> list_all is_digit s"

definition token_path :: path where
  "token_path = [''var'', ''run'', ''secrets'', ''kubernetes.io'', ''serviceaccount'', ''token'']"

definition from_service_account :: "kube_api \<Rightarrow> path \<Rightarrow> fs \<Rightarrow> inventory_index res" where
  "from_service_account api base fs =
     rbind (read_text fs token_path) (\<lambda>t. let token = strip t in
     require (token \<noteq> []) ValueError ''mounted Kubernetes service-account token is empty'' (
     let host_name = environ_or api ''KUBERNETES_SERVICE_HOST'' []; port = environ_or api ''KUBERNETES_SERVICE_PORT_HTTPS'' ''443'';
         namespace = environ_or api ''POD_NAMESPACE'' []; node = environ_or api ''NODE_NAME'' [] in
     require (host_name \<noteq> [] \<and> isdecimal port) ValueError ''Kubernetes service host or HTTPS port is invalid'' (
     require (namespace \<noteq> []) ValueError ''POD_NAMESPACE is required for the Pod inventory'' (
     let url = ''https://'' @ host_name @ '':'' @ port @ ''/api/v1/namespaces/'' @ namespace @ ''/pods''
           @ (if node \<noteq> [] then ''?fieldSelector=spec.nodeName%3D'' @ node else []) in
     rbind (ka_fetch api url token) (\<lambda>body.
     as_some (utf8_decode body) UnicodeDecodeError [] (\<lambda>doc.
     rbind (loads doc) (\<lambda>v.
     as_dict v InventoryFormatError ''Kubernetes API returned an invalid Pod inventory'' (\<lambda>payload.
     as_list (dget payload ''items'') InventoryFormatError ''Kubernetes API Pod inventory has no items list'' (\<lambda>items.
     Inr (make_inventory (concat (map (\<lambda>item. case item of
       VDict d \<Rightarrow> targets_from_kubernetes_pod fs base d | _ \<Rightarrow> []) items))))))))))))"

text \<open>The cached inventory: one that was loaded less than \<open>refresh_seconds\<close> ago is kept.\<close>

record refreshing =
  rf_seconds :: pyfloat
  rf_last :: pyfloat
  rf_inventory :: inventory_index

definition new_refreshing :: "pyfloat \<Rightarrow> refreshing" where
  "new_refreshing secs = \<lparr> rf_seconds = secs, rf_last = Fin 0, rf_inventory = make_inventory [] \<rparr>"

definition refresh :: "inventory_index res \<Rightarrow> pyfloat \<Rightarrow> refreshing \<Rightarrow> unit res \<times> refreshing" where
  "refresh loaded now r =
     (if f_lt (f_sub now (rf_last r)) (rf_seconds r) then (Inr (), r)
      else case loaded of Inl e \<Rightarrow> (Inl e, r) | Inr index \<Rightarrow> (Inr (), r\<lparr> rf_inventory := index, rf_last := now \<rparr>))"


section \<open>Reading a cgroup\<close>

text \<open>\<open>s.split(maxsplit=1)\<close>, \<open>s.partition("=")\<close>\<close>

definition split_max1 :: "string \<Rightarrow> string list" where
  "split_max1 s = (let t = dropWhile py_isspace s; w = takeWhile (\<lambda>c. \<not> py_isspace c) t;
       r = dropWhile py_isspace (dropWhile (\<lambda>c. \<not> py_isspace c) t) in
     if w = [] then [] else if r = [] then [w] else [w, r])"

text \<open>\<open>try: path.read_text() except OSError\<close>: the text, or nothing.\<close>

definition read_quiet :: "fs \<Rightarrow> path \<Rightarrow> string option res" where
  "read_quiet fs p = (case read_text fs p of
     Inr t \<Rightarrow> Inr (Some t)
   | Inl e \<Rightarrow> if is_os_error (exn_of e) then Inr None else Inl e)"

definition stat_pairs :: "string \<Rightarrow> (string \<times> string) list" where
  "stat_pairs text = foldl (\<lambda>d line. case split_max1 line of [k, v] \<Rightarrow> AList.update k v d | _ \<Rightarrow> d) [] (splitlines text)"

definition read_stat_file :: "fs \<Rightarrow> path \<Rightarrow> (string \<times> string) list res" where
  "read_stat_file fs p = rbind (read_quiet fs p) (\<lambda>t. Inr (case t of None \<Rightarrow> [] | Some text \<Rightarrow> stat_pairs text))"

definition nonnegative_int :: "string option \<Rightarrow> int option" where
  "nonnegative_int v = (case v of None \<Rightarrow> None
     | Some s \<Rightarrow> if isdecimal s then Some (int (digits_val s)) else None)"

definition read_integer :: "fs \<Rightarrow> path \<Rightarrow> int option res" where
  "read_integer fs p = rbind (read_quiet fs p) (\<lambda>t. Inr (nonnegative_int (map_option strip t)))"

definition read_cpu_max :: "fs \<Rightarrow> path \<Rightarrow> (int option \<times> int option) res" where
  "read_cpu_max fs p = rbind (read_quiet fs p) (\<lambda>t. Inr (case t of
     None \<Rightarrow> (None, None)
   | Some text \<Rightarrow> (case py_split text of
        [q, pd] \<Rightarrow> (if q = ''max'' then None else nonnegative_int (Some q), nonnegative_int (Some pd))
      | _ \<Rightarrow> (None, None))))"

definition total_field :: "string \<Rightarrow> bool" where
  "total_field field \<longleftrightarrow> prefix ''total='' field"

definition some_totals :: "string \<Rightarrow> string list" where
  "some_totals text = concat (map (\<lambda>line. case py_split line of
     w # rest \<Rightarrow> if w = ''some'' then filter total_field rest else [] | [] \<Rightarrow> []) (splitlines text))"

definition read_cpu_pressure :: "fs \<Rightarrow> path \<Rightarrow> int option res" where
  "read_cpu_pressure fs p = rbind (read_quiet fs p) (\<lambda>t. Inr (case t of None \<Rightarrow> None
     | Some text \<Rightarrow> (case some_totals text of [] \<Rightarrow> None | f # _ \<Rightarrow> nonnegative_int (Some (drop 6 f)))))"

definition usec_seconds :: "int \<Rightarrow> pyval res" where
  "usec_seconds i = rbind (int_truediv i 1000000) (\<lambda>x. Inr (VFloat x))"

text \<open>\<open>if value is not None: result[name] = f(value)\<close>\<close>

definition when_int :: "int option \<Rightarrow> (int \<Rightarrow> (string \<times> pyval) list res) \<Rightarrow> (string \<times> pyval) list res" where
  "when_int v f = (case v of None \<Rightarrow> Inr [] | Some i \<Rightarrow> f i)"

definition scaled_stats :: "(string \<times> string \<times> int) list" where
  "scaled_stats = [(''nr_periods'', ''container_cpu_cfs_periods_total'', 1),
     (''nr_throttled'', ''container_cpu_cfs_throttled_periods_total'', 1),
     (''throttled_usec'', ''container_cpu_cfs_throttled_seconds_total'', 1000000)]"

definition read_target_metrics :: "fs \<Rightarrow> path \<Rightarrow> (string \<times> pyval) list res" where
  "read_target_metrics fs p =
     rbind (read_stat_file fs (p @ [''cpu.stat''])) (\<lambda>cpu_stat.
     rbind (read_stat_file fs (p @ [''memory.stat''])) (\<lambda>memory_stat.
     rbind (when_int (nonnegative_int (map_of cpu_stat ''usage_usec'')) (\<lambda>usage_usec.
       rbind (usec_seconds usage_usec) (\<lambda>s.
       Inr [(''container_cpu_usage_seconds_total'', s), (''k8labs_cgroup_cpu_usage_seconds_total'', s)]))) (\<lambda>usage.
     rbind (rmap (\<lambda>(stat_name, metric_name, scale). when_int (nonnegative_int (map_of cpu_stat stat_name)) (\<lambda>v.
       rbind (int_truediv v scale) (\<lambda>x. Inr [(metric_name, VFloat x)]))) scaled_stats) (\<lambda>stats.
     rbind (read_integer fs (p @ [''cpu.weight''])) (\<lambda>weight.
     rbind (read_cpu_max fs (p @ [''cpu.max''])) (\<lambda>(quota, period).
     rbind (read_integer fs (p @ [''memory.current''])) (\<lambda>memory_current.
     rbind (read_cpu_pressure fs (p @ [''cpu.pressure''])) (\<lambda>pressure.
     rbind (when_int pressure (\<lambda>v. rbind (usec_seconds v) (\<lambda>s. Inr [(''container_pressure_cpu_waiting_seconds_total'', s)]))) (\<lambda>waiting.
     Inr (usage @ concat stats
       @ (case weight of None \<Rightarrow> [] | Some w \<Rightarrow> [(''k8labs_cgroup_cpu_weight'', VInt w)])
       @ (case quota of None \<Rightarrow> [] | Some q \<Rightarrow> [(''k8labs_cgroup_cpu_max_quota'', VInt q)])
       @ (case period of None \<Rightarrow> [] | Some q \<Rightarrow> [(''k8labs_cgroup_cpu_max_period'', VInt q)])
       @ (case memory_current of None \<Rightarrow> [] | Some m \<Rightarrow> [(''container_memory_working_set_bytes'',
            VInt (max 0 (m - (case nonnegative_int (map_of memory_stat ''inactive_file'') of None \<Rightarrow> 0 | Some i \<Rightarrow> i))))])
       @ waiting))))))))))"

section \<open>The text format\<close>

definition escape_label :: "string \<Rightarrow> string" where
  "escape_label v = replace_all [CHR 0x22] [CHR 0x5C, CHR 0x22]
     (replace_all nl [CHR 0x5C, CHR ''n''] (replace_all [CHR 0x5C] [CHR 0x5C, CHR 0x5C] v))"

definition render_label :: "string \<times> string \<Rightarrow> string" where
  "render_label kv = fst kv @ ''='' @ [CHR 0x22] @ escape_label (snd kv) @ [CHR 0x22]"

definition render_labels :: "(string \<times> string) list \<Rightarrow> string" where
  "render_labels labels = ''{'' @ join '','' (map render_label (sort_key fst labels)) @ ''}''"

text \<open>\<open>format(x, ".15g")\<close>\<close>

definition format_g15_pos :: "rat \<Rightarrow> string" where
  "format_g15_pos a =
     (let p = dec_exp a - 14; all = show_nat (nat (round_even (a / 10 powi p))); ds = strip_zeros all;
          decpt = int (length all) + p in
      if - 4 < decpt \<and> decpt \<le> 15
      then (if decpt \<le> 0 then ''0.'' @ replicate (nat (- decpt)) (CHR ''0'') @ ds
            else if decpt \<ge> int (length ds) then ds @ replicate (nat decpt - length ds) (CHR ''0'')
            else take (nat decpt) ds @ ''.'' @ drop (nat decpt) ds)
      else take 1 ds @ (if length ds > 1 then ''.'' @ drop 1 ds else []) @ ''e'' @
           (if decpt - 1 < 0 then ''-'' else ''+'') @ zero_pad 2 (show_nat (nat \<bar>decpt - 1\<bar>)))"

definition format_g15 :: "pyfloat \<Rightarrow> string" where
  "format_g15 x = (case x of PInf \<Rightarrow> ''inf'' | NInf \<Rightarrow> ''-inf'' | NaN \<Rightarrow> ''nan''
     | Fin a \<Rightarrow> if a = 0 then ''0'' else if a < 0 then CHR ''-'' # format_g15_pos (- a) else format_g15_pos a)"

definition render_value :: "pyval \<Rightarrow> string res" where
  "render_value v = (case v of
     VInt i \<Rightarrow> rbind (float_of_int i) (\<lambda>x. Inr (format_g15 x))
   | VFloat x \<Rightarrow> Inr (format_g15 x)
   | _ \<Rightarrow> raise ValueError ''Unknown format code'')"

definition sample_sort_key :: "(string \<times> string) list \<times> pyval \<Rightarrow> string list" where
  "sample_sort_key sample = map snd (sort_key fst (fst sample))"

section \<open>The collector\<close>

text \<open>The root is the resolved one.\<close>

record collector =
  col_root :: path
  col_inventory :: inventory_index
  col_node :: string

definition safe_cgroup_path :: "path \<Rightarrow> string \<Rightarrow> path option" where
  "safe_cgroup_path base relative_path =
     (let resolved = resolve_parts (path_join base relative_path) in
      if \<not> prefix base resolved \<or> resolved = base then None else Some resolved)"

definition cgroup_record :: "path \<Rightarrow> path \<Rightarrow> cgroup_target \<Rightarrow> pyval" where
  "cgroup_record base p t = VDict [(''path'', VStr (join ''/'' (drop (length base) p))), (''level'', VStr (ct_level t)),
     (''container'', VStr (ct_container t)), (''namespace'', VStr (ct_namespace t)), (''pod'', VStr (ct_pod t)),
     (''qos'', VStr (ct_qos t)), (''cell_id'', VStr (ct_cell_id t))]"

definition cgroups_for_uid :: "collector \<Rightarrow> string \<Rightarrow> pyval list" where
  "cgroups_for_uid col uid =
     (if \<not> UID_PATTERN uid then []
      else concat (map (\<lambda>t. case safe_cgroup_path (col_root col) (ct_path t) of
          None \<Rightarrow> [] | Some p \<Rightarrow> [cgroup_record (col_root col) p t]) (targets_for_uid (col_inventory col) uid)))"

definition collect_target :: "collector \<Rightarrow> fs \<Rightarrow> cgroup_target \<Rightarrow> ((string \<times> string) list \<times> (string \<times> pyval) list) list res" where
  "collect_target col fs t = (case safe_cgroup_path (col_root col) (ct_path t) of
     None \<Rightarrow> Inr []
   | Some p \<Rightarrow> rbind (read_target_metrics fs p) (\<lambda>ms. Inr [(target_labels (col_node col) t, ms)]))"

definition metric_samples ::
  "((string \<times> string) list \<times> (string \<times> pyval) list) list \<Rightarrow> string \<Rightarrow> ((string \<times> string) list \<times> pyval) list" where
  "metric_samples collected name = concat (map (\<lambda>(labels, ms). case map_of ms name of
     None \<Rightarrow> [] | Some v \<Rightarrow> [(labels, v)]) collected)"

definition render_family ::
  "((string \<times> string) list \<times> (string \<times> pyval) list) list \<Rightarrow> string \<times> string \<times> string \<Rightarrow> string list res" where
  "render_family collected family = (case family of (name, help_text, metric_type) \<Rightarrow>
     rbind (rmap (\<lambda>(labels, v). rbind (render_value v) (\<lambda>text. Inr (name @ render_labels labels @ '' '' @ text)))
       (sort_key sample_sort_key (metric_samples collected name))) (\<lambda>lines.
     Inr ([''# HELP '' @ name @ '' '' @ help_text, ''# TYPE '' @ name @ '' '' @ metric_type] @ lines)))"

definition render_metrics :: "collector \<Rightarrow> fs \<Rightarrow> string res" where
  "render_metrics col fs =
     rbind (rmap (collect_target col fs) (inv_targets (col_inventory col))) (\<lambda>collected.
     rbind (rmap (render_family (concat collected)) METRICS) (\<lambda>families.
     Inr (join nl (concat families) @ nl)))"

section \<open>The service\<close>

record response =
  status_code :: nat
  content_type :: string
  body :: string

text \<open>\<open>do_GET\<close> for the path of the request and the first \<open>uid\<close> of its query, empty when there is none.\<close>

definition do_GET :: "collector \<Rightarrow> string \<Rightarrow> string \<Rightarrow> fs \<Rightarrow> response res" where
  "do_GET col request_path uid fs =
     (if request_path \<in> {''/healthz'', ''/readyz''}
      then Inr \<lparr> status_code = 200, content_type = ''text/plain; charset=utf-8'', body = ''ok'' @ nl \<rparr>
      else if request_path = ''/metrics''
      then rbind (render_metrics col fs) (\<lambda>text.
        Inr \<lparr> status_code = 200, content_type = ''text/plain; version=0.0.4; charset=utf-8'', body = utf8_encode text \<rparr>)
      else if request_path = ''/cgroups''
      then Inr \<lparr> status_code = 200, content_type = ''application/json; charset=utf-8'',
          body = utf8_encode (dumps default_style (sort_keys (VDict [(''uid'', VStr uid), (''cgroups'', VList (cgroups_for_uid col uid))]))) \<rparr>
      else Inr \<lparr> status_code = 404, content_type = ''text/plain; charset=utf-8'', body = ''not found'' @ nl \<rparr>)"


section \<open>The index\<close>

lemma index_target_lookup:
  "map_of (foldl index_target [] ts) uid =
     (if \<exists>t \<in> set ts. ct_uid t = uid then Some (filter (\<lambda>t. ct_uid t = uid) ts) else None)"
  by (induction ts rule: rev_induct) (auto simp: index_target_def update_conv')

text \<open>The index gives for every UID its targets, in the order of the inventory.\<close>

lemma targets_for_uid_filter: "targets_for_uid (make_inventory ts) uid = filter (\<lambda>t. ct_uid t = uid) ts"
  by (auto simp: targets_for_uid_def make_inventory_def index_target_lookup filter_empty_conv)

section \<open>What is read\<close>

lemma safe_cgroup_path_below: "safe_cgroup_path base s = Some p \<Longrightarrow> strict_prefix base p"
  by (auto simp: safe_cgroup_path_def Let_def strict_prefix_def split: if_splits)

lemma path_error_os: "\<exists>e. (path_error fs p :: string res) = Inl e \<and> is_os_error (exn_of e)"
  by (simp add: path_error_def is_os_error_def)

lemma read_quiet_cong:
  assumes "lookup fs p = lookup fs' p"
  shows "read_quiet fs p = read_quiet fs' p"
proof -
  obtain e e' where "(path_error fs p :: string res) = Inl e" "is_os_error (exn_of e)"
      "(path_error fs' p :: string res) = Inl e'" "is_os_error (exn_of e')"
    using path_error_os by metis
  then show ?thesis using assms
    by (auto simp: read_quiet_def read_text_def read_bytes_def split: option.splits node.splits)
qed

definition READ_FILES :: "string list" where
  "READ_FILES = [''cpu.stat'', ''memory.stat'', ''cpu.weight'', ''cpu.max'', ''memory.current'', ''cpu.pressure'']"

lemma read_target_metrics_cong:
  assumes "\<And>f. f \<in> set READ_FILES \<Longrightarrow> lookup fs (p @ [f]) = lookup fs' (p @ [f])"
  shows "read_target_metrics fs p = read_target_metrics fs' p"
proof -
  have "read_quiet fs (p @ [f]) = read_quiet fs' (p @ [f])" if "f \<in> set READ_FILES" for f
    using assms [OF that] by (rule read_quiet_cong)
  then show ?thesis
    unfolding read_target_metrics_def read_stat_file_def read_integer_def read_cpu_max_def read_cpu_pressure_def
    by (simp add: READ_FILES_def)
qed

lemma rmap_cong: "(\<And>x. x \<in> set xs \<Longrightarrow> f x = g x) \<Longrightarrow> rmap f xs = rmap g xs"
  by (induction xs) auto

section \<open>Labels\<close>

lemma replace_all_char: "replace_all [c] r s = concat (map (\<lambda>x. if x = c then r else [x]) s)"
  by (induction s) auto

definition esc_label :: "char \<Rightarrow> string" where
  "esc_label c = (if c = CHR 0x5C then [CHR 0x5C, CHR 0x5C] else if c = CHR 0x0A then [CHR 0x5C, CHR ''n'']
     else if c = CHR 0x22 then [CHR 0x5C, CHR 0x22] else [c])"

lemma escape_label_chars: "escape_label v = concat (map esc_label v)"
  by (induction v) (auto simp: escape_label_def nl_def replace_all_char esc_label_def)

text \<open>A reader of the label part of the exposition format: the key up to \<open>=\<close>, the quoted value.\<close>

fun read_quoted :: "string \<Rightarrow> (string \<times> string) option" where
  "read_quoted [] = None"
| "read_quoted (c # r) =
     (if c = CHR 0x22 then Some ([], r)
      else if c = CHR 0x5C then (case r of
          [] \<Rightarrow> None
        | d # r' \<Rightarrow> map_option (\<lambda>(v, t). ((if d = CHR ''n'' then CHR 0x0A else d) # v, t)) (read_quoted r'))
      else map_option (\<lambda>(v, t). (c # v, t)) (read_quoted r))"

fun read_pairs :: "nat \<Rightarrow> string \<Rightarrow> ((string \<times> string) list \<times> string) option" where
  "read_pairs 0 s = None"
| "read_pairs (Suc n) s =
     (let k = takeWhile (\<lambda>c. c \<noteq> CHR ''='') s in
      case dropWhile (\<lambda>c. c \<noteq> CHR ''='') s of
        e # q # r \<Rightarrow> if q \<noteq> CHR 0x22 then None
          else (case read_quoted r of
              Some (v, t # u) \<Rightarrow> if t = CHR ''}'' then Some ([(k, v)], u)
                else if t = CHR '','' then map_option (\<lambda>(kvs, w). ((k, v) # kvs, w)) (read_pairs n u) else None
            | _ \<Rightarrow> None)
      | _ \<Rightarrow> None)"

definition read_labels :: "string \<Rightarrow> ((string \<times> string) list \<times> string) option" where
  "read_labels s = (case s of c # r \<Rightarrow> if c = CHR ''{'' then read_pairs (length r) r else None | [] \<Rightarrow> None)"

lemma read_quoted_escape: "read_quoted (escape_label v @ CHR 0x22 # r) = Some (v, r)"
  unfolding escape_label_chars by (induction v) (auto simp: esc_label_def)

lemma read_pairs_render:
  assumes "ls \<noteq> []" "list_all (\<lambda>kv. CHR ''='' \<notin> set (fst kv)) ls" "length ls \<le> n"
  shows "read_pairs n (join '','' (map render_label ls) @ CHR ''}'' # rest) = Some (ls, rest)"
  using assms
proof (induction ls arbitrary: n)
  case (Cons kv ls)
  obtain k v where kv: "kv = (k, v)" by fastforce
  obtain m where n: "n = Suc m" "length ls \<le> m" using Cons.prems(3) by (cases n) auto
  have "CHR ''='' \<notin> set k" using Cons.prems(2) kv by simp
  then have kt: "takeWhile (\<lambda>c. c \<noteq> CHR ''='') (k @ CHR ''='' # r) = k" "dropWhile (\<lambda>c. c \<noteq> CHR ''='') (k @ CHR ''='' # r) = CHR ''='' # r"
    for r by (induction k) auto
  show ?case
  proof (cases "ls = []")
    case True
    then show ?thesis using kt read_quoted_escape [of v "CHR ''}'' # rest"] by (simp add: n kv render_label_def Let_def)
  next
    case False
    then have ih: "read_pairs m (join '','' (map render_label ls) @ CHR ''}'' # rest) = Some (ls, rest)"
      using Cons n by simp
    have j: "join '','' (map render_label (kv # ls)) = k @ CHR ''='' # CHR 0x22 # escape_label v @ CHR 0x22 # CHR '','' # join '','' (map render_label ls)"
      using False by (cases ls) (auto simp: kv render_label_def)
    show ?thesis
      unfolding j n using kt ih read_quoted_escape [of v "CHR '','' # join '','' (map render_label ls) @ CHR ''}'' # rest"]
      by (simp add: kv Let_def)
  qed
qed simp


section \<open>A small host\<close>

definition sample_target :: cgroup_target where
  "sample_target = \<lparr> ct_uid = ''u1'', ct_namespace = ''n'', ct_pod = ''p'', ct_container = [], ct_qos = ''Burstable'',
     ct_level = ''pod_slice'', ct_cell_id = ''c'', ct_path = ''kubepods/podu1'' \<rparr>"

definition sample_collector :: collector where
  "sample_collector = \<lparr> col_root = [''sys''], col_inventory = make_inventory [sample_target], col_node = ''w'' \<rparr>"

definition sample_cgroups :: "string \<Rightarrow> fs" where
  "sample_cgroups secret = [([''sys''], Dir), ([''sys'', ''kubepods''], Dir), ([''sys'', ''kubepods'', ''podu1''], Dir),
     ([''sys'', ''kubepods'', ''podu1'', ''cpu.weight''], File ''7''), ([''sys'', ''cpu.stat''], File secret)]"

text \<open>What is listed for a UID: the registered targets of this UID below the root, and nothing else.\<close>

lemma cgroups_for_uid_exact:
  assumes "col_inventory col = make_inventory ts"
  shows "cgroups_for_uid col uid = (if UID_PATTERN uid
    then map (\<lambda>t. cgroup_record (col_root col) (the (safe_cgroup_path (col_root col) (ct_path t))) t)
      (filter (\<lambda>t. ct_uid t = uid \<and> safe_cgroup_path (col_root col) (ct_path t) \<noteq> None) ts) else [])"
proof -
  have "concat (map (\<lambda>t. case safe_cgroup_path (col_root col) (ct_path t) of
      None \<Rightarrow> [] | Some p \<Rightarrow> [cgroup_record (col_root col) p t]) (filter (\<lambda>t. ct_uid t = uid) ts))
    = map (\<lambda>t. cgroup_record (col_root col) (the (safe_cgroup_path (col_root col) (ct_path t))) t)
      (filter (\<lambda>t. ct_uid t = uid \<and> safe_cgroup_path (col_root col) (ct_path t) \<noteq> None) ts)"
    by (induction ts) (auto split: option.splits)
  then show ?thesis by (simp add: cgroups_for_uid_def assms targets_for_uid_filter)
qed

text \<open>
  The discovery tests whether a UID occurs in the name of a directory, so a UID that is part of
  another one is given the cgroups of the other pod.
\<close>

lemma discover_targets_other_pod:
  "map ct_path (discover_targets [([''sys''], Dir), ([''sys'', ''kubepods-podu12.slice''], Dir)] [''sys'']
     (sample_target\<lparr> ct_uid := ''u1'' \<rparr>) []) = [''kubepods-podu12.slice'', ''kubepods-podu12.slice'']"
  by code_simp

section \<open>Properties\<close>

text \<open>
  C29: the metrics leak nothing of the host. Two stores that agree on the six files of every registered
  cgroup that resolves to a path strictly below the cgroup root give the same metrics text, or the
  same error, whatever else differs; a registered path that leaves the root, by upward steps or by
  being absolute, contributes nothing.
\<close>

theorem render_metrics_registered_only:
  assumes "list_all (\<lambda>t. case safe_cgroup_path (col_root col) (ct_path t) of
      None \<Rightarrow> True
    | Some p \<Rightarrow> list_all (\<lambda>f. lookup fs (p @ [f]) = lookup fs' (p @ [f])) READ_FILES) (inv_targets (col_inventory col))"
  shows "render_metrics col fs = render_metrics col fs'
    \<and> list_all (\<lambda>t. case safe_cgroup_path (col_root col) (ct_path t) of None \<Rightarrow> collect_target col fs t = Inr []
        | Some p \<Rightarrow> strict_prefix (col_root col) p) (inv_targets (col_inventory col))"
proof -
  have "collect_target col fs t = collect_target col fs' t" if "t \<in> set (inv_targets (col_inventory col))" for t
  proof (cases "safe_cgroup_path (col_root col) (ct_path t)")
    case (Some p)
    then have "read_target_metrics fs p = read_target_metrics fs' p"
      using assms that by (intro read_target_metrics_cong) (auto simp: list_all_iff)
    then show ?thesis using Some by (simp add: collect_target_def)
  qed (simp add: collect_target_def)
  then have "rmap (collect_target col fs) (inv_targets (col_inventory col)) = rmap (collect_target col fs') (inv_targets (col_inventory col))"
    by (rule rmap_cong)
  then show ?thesis
    by (auto simp: render_metrics_def list_all_iff collect_target_def safe_cgroup_path_below split: option.splits)
qed

theorem render_metrics_registered_only_witness:
  "render_metrics sample_collector (sample_cgroups ''usage_usec 1'') = render_metrics sample_collector (sample_cgroups ''usage_usec 2'')
    \<and> lookup (sample_cgroups ''usage_usec 1'') [''sys'', ''cpu.stat''] \<noteq> lookup (sample_cgroups ''usage_usec 2'') [''sys'', ''cpu.stat'']
    \<and> safe_cgroup_path (col_root sample_collector) (ct_path sample_target) = Some [''sys'', ''kubepods'', ''podu1'']"
proof -
  have "list_all (\<lambda>t. case safe_cgroup_path (col_root sample_collector) (ct_path t) of
      None \<Rightarrow> True
    | Some p \<Rightarrow> list_all (\<lambda>f. lookup (sample_cgroups ''usage_usec 1'') (p @ [f]) = lookup (sample_cgroups ''usage_usec 2'') (p @ [f])) READ_FILES)
    (inv_targets (col_inventory sample_collector))"
    by code_simp
  from render_metrics_registered_only [OF this]
  have "render_metrics sample_collector (sample_cgroups ''usage_usec 1'') = render_metrics sample_collector (sample_cgroups ''usage_usec 2'')" ..
  moreover have "lookup (sample_cgroups ''usage_usec 1'') [''sys'', ''cpu.stat''] \<noteq> lookup (sample_cgroups ''usage_usec 2'') [''sys'', ''cpu.stat'']"
    "safe_cgroup_path (col_root sample_collector) (ct_path sample_target) = Some [''sys'', ''kubepods'', ''podu1'']"
    by code_simp+
  ultimately show ?thesis by simp
qed

text \<open>
  The label text of a sample is unambiguous. For every node name and every target, whatever
  quotes, backslashes and line breaks their texts hold, reading the rendered label set gives back
  exactly the eight labels in the order of their names, and stops behind the closing brace.
\<close>

theorem render_labels_read:
  "read_labels (render_labels (target_labels node t) @ rest) = Some (sort_key fst (target_labels node t), rest)"
proof -
  let ?ls = "sort_key fst (target_labels node t)"
  have "length ?ls \<le> length (join '','' (map render_label ?ls) @ CHR ''}'' # rest)"
  proof -
    have "length ls \<le> length (join '','' (map render_label ls))" for ls
      by (induction ls rule: induct_list012) (auto simp: render_label_def)
    then show ?thesis by (metis le_add1 le_trans length_append)
  qed
  moreover have "list_all (\<lambda>kv. CHR ''='' \<notin> set (fst kv)) ?ls" "?ls \<noteq> []"
    by (auto simp: list_all_iff target_labels_def dest: arg_cong [of _ _ length])
  ultimately have "read_pairs (length (join '','' (map render_label ?ls) @ CHR ''}'' # rest))
      (join '','' (map render_label ?ls) @ CHR ''}'' # rest) = Some (?ls, rest)"
    by (intro read_pairs_render)
  then show ?thesis by (simp add: read_labels_def render_labels_def del: read_pairs.simps)
qed

end
