(* ===== verification/Lock.thy ===== *)
theory Lock
  imports Py_Value
begin

text \<open>
  The dependency lock (\<open>scripts/lock.py\<close>): the checks \<open>load_lock\<close> makes on the parsed YAML
  document before any other tool may use it. \<open>yaml.safe_load\<close> is a parameter. Each regular
  expression of the module is a matcher of the same name; the URL splitter of the standard
  library is modelled up to the validation of bracketed address literals.
\<close>

section \<open>Matchers\<close>

definition sep_char :: "char \<Rightarrow> bool" where
  "sep_char c \<longleftrightarrow> c \<in> set ''/:@''"

text \<open>\<open>(?:latest|main|master)(?:$|[/:@])\<close> at the start of the rest, ignoring case.\<close>

definition mutable_word :: "string \<Rightarrow> bool" where
  "mutable_word s = list_ex (\<lambda>w. py_lower (take (length w) s) = w \<and>
      (let r = drop (length w) s in r = [] \<or> r = nl \<or> sep_char (hd r)))
    [''latest'', ''main'', ''master'']"

fun mutable_from :: "bool \<Rightarrow> string \<Rightarrow> bool" where
  "mutable_from at_boundary [] = False"
| "mutable_from at_boundary (c # cs) =
     ((if at_boundary then mutable_word (c # cs) else False) \<or> mutable_from (sep_char c) cs)"

definition MUTABLE_REFERENCE :: "string \<Rightarrow> bool" where
  "MUTABLE_REFERENCE s = mutable_from True s"

text \<open>\<open>@sha256:[0-9a-f]{64}$\<close>; \<open>$\<close> also matches before a final newline.\<close>

definition digest_suffix :: "string \<Rightarrow> bool" where
  "digest_suffix s = (72 \<le> length s \<and>
     (let t = drop (length s - 72) s in
      take 8 t = ''@sha256:'' \<and> list_all is_lower_hex (drop 8 t)))"

definition DIGEST_REFERENCE :: "string \<Rightarrow> bool" where
  "DIGEST_REFERENCE s = (digest_suffix s \<or> (s \<noteq> [] \<and> [last s] = nl \<and> digest_suffix (butlast s)))"

text \<open>\<open>^v1\.(\d+)\.(\d+)$\<close> under \<open>fullmatch\<close>: the two groups.\<close>

definition KUBERNETES_VERSION :: "string \<Rightarrow> (string \<times> string) option" where
  "KUBERNETES_VERSION s =
     (if \<not> prefix ''v1.'' s then None
      else let r = drop 3 s; g1 = takeWhile is_digit r; r2 = dropWhile is_digit r in
        if g1 = [] \<or> r2 = [] \<or> hd r2 \<noteq> CHR ''.'' then None
        else let g2 = tl r2 in
          if g2 \<noteq> [] \<and> list_all is_digit g2 then Some (g1, g2) else None)"

definition full_hex :: "nat \<Rightarrow> string \<Rightarrow> bool" where
  "full_hex n s \<longleftrightarrow> length s = n \<and> list_all is_lower_hex s"

text \<open>Scheme and network location of \<open>urllib.parse.urlparse\<close>.\<close>

definition scheme_char :: "char \<Rightarrow> bool" where
  "scheme_char c \<longleftrightarrow> is_alpha c \<or> is_digit c \<or> c \<in> set ''+-.''"

definition urlparse :: "string \<Rightarrow> (string \<times> string) res" where
  "urlparse url0 =
     (let url = filter (\<lambda>c. c \<notin> set [CHR 0x09, CHR 0x0A, CHR 0x0D])
            (dropWhile (\<lambda>c. code c \<le> 32) url0);
          hd_part = takeWhile (\<lambda>c. c \<noteq> CHR '':'') url;
          has_scheme = (CHR '':'' \<in> set url \<and> hd_part \<noteq> [] \<and> is_alpha (hd hd_part)
                        \<and> list_all scheme_char hd_part);
          scheme = (if has_scheme then py_lower hd_part else []);
          rest = (if has_scheme then drop (length hd_part + 1) url else url);
          netloc = (if prefix ''//'' rest
                    then takeWhile (\<lambda>c. c \<notin> set ''/?#'') (drop 2 rest) else [])
      in if (CHR ''['' \<in> set netloc) \<noteq> (CHR '']'' \<in> set netloc)
         then raise ValueError ''Invalid IPv6 URL''
         else Inr (scheme, netloc))"

section \<open>Mutable references\<close>

function (sequential)
  walk_mutable :: "pyval \<Rightarrow> string \<Rightarrow> unit res" and
  walk_items :: "pydict \<Rightarrow> string \<Rightarrow> unit res" and
  walk_elems :: "pyval list \<Rightarrow> nat \<Rightarrow> string \<Rightarrow> unit res"
where
  "walk_mutable (VStr s) loc =
     (if MUTABLE_REFERENCE s
      then raise ValueError (''mutable reference at '' @
             (if loc = [] then ''<root>'' else loc) @ '': '' @ s)
      else Inr ())"
| "walk_mutable (VDict d) loc = walk_items d loc"
| "walk_mutable (VList xs) loc = walk_elems xs 0 loc"
| "walk_mutable _ loc = Inr ()"
| "walk_items [] loc = Inr ()"
| "walk_items ((k, v) # d) loc =
     rbind (walk_mutable v (if loc = [] then k else loc @ ''.'' @ k)) (\<lambda>_. walk_items d loc)"
| "walk_elems [] i loc = Inr ()"
| "walk_elems (v # vs) i loc =
     rbind (walk_mutable v (loc @ ''['' @ show_nat i @ '']'')) (\<lambda>_. walk_elems vs (Suc i) loc)"
  by pat_completeness auto
termination
  by (relation "measure (\<lambda>s. case s of Inl (v, loc) \<Rightarrow> size v
      | Inr (Inl (d, loc)) \<Rightarrow> size_list (size_prod (\<lambda>_. 0) size) d
      | Inr (Inr (vs, i, loc)) \<Rightarrow> size_list size vs)") auto

section \<open>Artifacts\<close>

record artifact_state =
  seen_ids :: "string list"
  seen_paths :: "string list"
  artifact_result :: "(string \<times> pydict) list"

definition check_url :: "pyval \<Rightarrow> string \<Rightarrow> unit res" where
  "check_url url location =
     as_str url ValueError (location @ ''.url must use HTTPS'') (\<lambda>u.
     rbind (urlparse u) (\<lambda>(scheme, netloc).
     require (scheme = ''https'' \<and> netloc \<noteq> []) ValueError
       (location @ ''.url must use HTTPS'') (Inr ())))"

text \<open>The body of the inner loop of \<open>validate_artifacts\<close>.\<close>

definition validate_artifact ::
  "string \<Rightarrow> artifact_state \<Rightarrow> nat \<times> pyval \<Rightarrow> artifact_state res" where
  "validate_artifact group_name st ix = (case ix of (index, entry) \<Rightarrow>
     let location = ''lock.'' @ group_name @ ''['' @ show_nat index @ '']'' in
     as_dict entry TypeError (location @ '' must be a mapping'') (\<lambda>artifact.
     as_str (dget artifact ''id'') ValueError (location @ ''.id must be a non-empty string'') (\<lambda>artifact_id.
     require (strip artifact_id \<noteq> []) ValueError (location @ ''.id must be a non-empty string'') (
     require (artifact_id \<notin> set (seen_ids st)) ValueError (''duplicate artifact id: '' @ artifact_id) (
     as_str (dget artifact ''cache_path'') ValueError
       (location @ ''.cache_path must be a non-empty relative path'') (\<lambda>cache_path.
     require (strip cache_path \<noteq> []) ValueError
       (location @ ''.cache_path must be a non-empty relative path'') (
     require (\<not> is_absolute cache_path \<and> ''..'' \<notin> set (path_parts cache_path)) ValueError
       (location @ ''.cache_path must be a relative path and stay inside cache'') (
     require (cache_path \<notin> set (seen_paths st)) ValueError
       (''duplicate artifact cache path: '' @ cache_path) (
     as_str (dget artifact ''sha256'') ValueError
       (location @ ''.sha256 must be a lowercase hexadecimal SHA-256 digest'') (\<lambda>sha256.
     require (full_hex 64 sha256) ValueError
       (location @ ''.sha256 must be a lowercase hexadecimal SHA-256 digest'') (
     rbind (check_url (dget artifact ''url'') location) (\<lambda>_.
     rbind (rforeach (\<lambda>field.
       require (has_key artifact field \<longrightarrow> nonblank_str (dget artifact field)) ValueError
         (location @ ''.'' @ field @ '' must be a non-empty string'') (Inr ()))
       [''component'', ''version'']) (\<lambda>_.
     Inr \<lparr> seen_ids = artifact_id # seen_ids st,
           seen_paths = cache_path # seen_paths st,
           artifact_result = AList.update artifact_id artifact (artifact_result st) \<rparr>)))))))))))))"

definition validate_group :: "artifact_state \<Rightarrow> string \<times> pyval \<Rightarrow> artifact_state res" where
  "validate_group st g = (case g of (group_name, value) \<Rightarrow>
     as_list value TypeError (''lock.'' @ group_name @ '' must be a list'') (\<lambda>entries.
     rfold (validate_artifact group_name) st (enumerate 0 entries)))"

definition validate_artifacts :: "pydict \<Rightarrow> (string \<times> pydict) list res" where
  "validate_artifacts data =
     rbind (rfold validate_group \<lparr> seen_ids = [], seen_paths = [], artifact_result = [] \<rparr>
       [(''artifacts'', dget data ''artifacts''),
        (''guest_upgrade_artifacts'', dget_or data ''guest_upgrade_artifacts'' (VList []))])
     (\<lambda>st. Inr (artifact_result st))"

section \<open>The upgrade matrix\<close>

definition expected_components :: "(string \<times> string) list" where
  "expected_components =
     [(''kubelet_artifact'', ''kubelet''),
      (''control_plane_artifact'', ''kubernetes-control-plane''),
      (''cri_o_artifact'', ''cri-o'')]"

definition stage_version :: "string \<Rightarrow> pydict \<Rightarrow> string \<Rightarrow> (nat \<times> string) res" where
  "stage_version location stage field =
     (let message = location @ ''.'' @ field @ '' must be a v1.<minor>.<patch> version'' in
      as_str (dget stage field) ValueError message (\<lambda>v.
      as_some (KUBERNETES_VERSION v) ValueError message (\<lambda>(g1, g2).
      Inr (digits_val g1, v))))"

definition check_stage_artifact ::
  "(string \<times> pydict) list \<Rightarrow> string \<Rightarrow> pydict \<Rightarrow> string \<Rightarrow> string \<Rightarrow> string \<times> string \<Rightarrow> unit res" where
  "check_stage_artifact artifacts location stage kubernetes_version crio_version rc =
     (case rc of (reference_field, component) \<Rightarrow>
      let message = location @ ''.'' @ reference_field @ '' must reference a locked artifact'';
          expected_version = (if reference_field = ''cri_o_artifact'' then crio_version
                              else kubernetes_version) in
      as_str (dget stage reference_field) ValueError message (\<lambda>artifact_id.
      as_some (map_of artifacts artifact_id) ValueError message (\<lambda>artifact.
      require (dget artifact ''component'' = VStr component
               \<and> dget artifact ''version'' = VStr expected_version) ValueError
        (location @ ''.'' @ reference_field @ '' must reference '' @ component @ '' '' @
         expected_version) (Inr ()))))"

definition check_stage :: "(string \<times> pydict) list \<Rightarrow> nat \<times> pyval \<Rightarrow> nat res" where
  "check_stage artifacts ix = (case ix of (index, entry) \<Rightarrow>
     let location = ''lock.kubernetes_upgrade_matrix['' @ show_nat index @ '']'' in
     as_dict entry TypeError (location @ '' must be a mapping'') (\<lambda>stage.
     rbind (stage_version location stage ''kubernetes'') (\<lambda>(kubernetes_minor, kubernetes_version).
     rbind (stage_version location stage ''cri_o'') (\<lambda>(crio_minor, crio_version).
     require (kubernetes_minor = crio_minor) ValueError
       (location @ '' Kubernetes and CRI-O versions must use the same minor'') (
     rbind (rforeach
       (check_stage_artifact artifacts location stage kubernetes_version crio_version)
       expected_components) (\<lambda>_.
     Inr kubernetes_minor))))))"

text \<open>\<open>data[section][field]\<close> of a mapping.\<close>

definition dsub :: "pydict \<Rightarrow> string \<Rightarrow> string \<Rightarrow> pyval res" where
  "dsub data sect field = rbind (ditem data sect) (\<lambda>v.
     as_dict v TypeError ''object is not a mapping'' (\<lambda>d. ditem d field))"

definition validate_upgrade_matrix :: "pydict \<Rightarrow> (string \<times> pydict) list \<Rightarrow> unit res" where
  "validate_upgrade_matrix data artifacts =
     as_list (dget data ''kubernetes_upgrade_matrix'') ValueError
       ''lock.kubernetes_upgrade_matrix must be a non-empty list'' (\<lambda>matrix.
     require (matrix \<noteq> []) ValueError
       ''lock.kubernetes_upgrade_matrix must be a non-empty list'' (
     rbind (rmap (check_stage artifacts) (enumerate 0 matrix)) (\<lambda>stage_minors.
     rbind (dsub data ''kubernetes'' ''version'') (\<lambda>target.
     as_str target TypeError ''expected string or bytes-like object'' (\<lambda>target_version.
     as_some (KUBERNETES_VERSION target_version) ValueError
       ''kubernetes.version must be a v1.<minor>.<patch> version'' (\<lambda>(g1, g2).
     require (stage_minors = [hd stage_minors ..< digits_val g1 + 1]) ValueError
       ''lock.kubernetes_upgrade_matrix must include each Kubernetes minor exactly once'' (
     as_dict (last matrix) TypeError ''object is not a mapping'' (\<lambda>last_stage.
     rbind (ditem last_stage ''kubernetes'') (\<lambda>k.
     require (k = target) ValueError
       ''last upgrade matrix stage must match the locked target versions'' (
     rbind (ditem last_stage ''cri_o'') (\<lambda>c.
     rbind (dsub data ''kubernetes'' ''cri_o'') (\<lambda>target_crio.
     require (c = target_crio) ValueError
       ''last upgrade matrix stage must match the locked target versions'' (Inr ())))))))))))))"

section \<open>Loading\<close>

definition REQUIRED_PATHS :: "(string \<times> string) list" where
  "REQUIRED_PATHS =
     [(''fedora'', ''kernel''), (''kubernetes'', ''version''), (''kubernetes'', ''cri_o''),
      (''kubernetes'', ''crun''), (''cilium'', ''version''), (''cluster_api'', ''version''),
      (''kind'', ''version''), (''kind'', ''node_image''), (''packer'', ''version''),
      (''cloud_hypervisor'', ''version'')]"

definition check_required :: "pydict \<Rightarrow> string \<times> string \<Rightarrow> unit res" where
  "check_required data keys = (case keys of (k1, k2) \<Rightarrow>
     let missing = ''missing lock field: '' @ k1 @ ''.'' @ k2 in
     as_some (map_of data k1) ValueError missing (\<lambda>v1.
     as_dict v1 ValueError missing (\<lambda>d.
     as_some (map_of d k2) ValueError missing (\<lambda>v2.
     require (nonblank_str v2) ValueError
       (''lock field must be a non-empty string: '' @ k1 @ ''.'' @ k2) (Inr ())))))"

definition check_provider :: "pyval \<Rightarrow> unit res" where
  "check_provider v =
     require (v \<noteq> VNone) ValueError ''missing lock field: cluster_api_hypervisor'' (
     as_dict v TypeError ''cluster_api_hypervisor must be a mapping'' (\<lambda>provider.
     require (dget provider ''version'' = VStr ''v0.3.17'') ValueError
       ''cluster_api_hypervisor.version must be v0.3.17'' (
     as_str (dget provider ''commit'') ValueError
       ''cluster_api_hypervisor.commit must be a full immutable Git commit'' (\<lambda>commit.
     require (full_hex 40 commit) ValueError
       ''cluster_api_hypervisor.commit must be a full immutable Git commit'' (
     as_dict (dget provider ''source'') TypeError
       ''cluster_api_hypervisor.source must be a mapping'' (\<lambda>source.
     require (is_str (dget source ''url'') \<and> is_str (dget source ''sha256'')) TypeError
       ''cluster_api_hypervisor.source requires string url and sha256'' (
     as_dict (dget provider ''image'') TypeError
       ''cluster_api_hypervisor.image must be a mapping'' (\<lambda>img.
     as_str (dget img ''reference'') TypeError
       ''cluster_api_hypervisor.image.reference must be a string'' (\<lambda>r.
     require (DIGEST_REFERENCE r) ValueError
       ''cluster_api_hypervisor.image.reference must be pinned by a sha256 digest''
       (Inr ()))))))))))"

definition check_oci_entry :: "nat \<times> pyval \<Rightarrow> unit res" where
  "check_oci_entry ix = (case ix of (index, entry) \<Rightarrow>
     let location = ''lock.oci_images['' @ show_nat index @ '']'' in
     as_dict entry TypeError (location @ '' must be a mapping'') (\<lambda>e.
     as_str (dget e ''reference'') TypeError (location @ ''.reference must be a string'') (\<lambda>r.
     require (DIGEST_REFERENCE r) ValueError
       (location @ ''.reference must be pinned by a sha256 digest'') (
     require (dget e ''platform'' = VStr ''linux/amd64'') ValueError
       (location @ ''.platform must be linux/amd64'') (Inr ())))))"

definition LOCK_SCHEMA_VERSION :: int where
  "LOCK_SCHEMA_VERSION = 2"

text \<open>\<open>load_lock\<close> after the document was parsed, and \<open>load_lock\<close> on the text of the file.\<close>

definition check_lock :: "pyval \<Rightarrow> pydict res" where
  "check_lock doc =
     as_dict doc TypeError ''lock must contain a mapping'' (\<lambda>data.
     rbind (rforeach (check_required data) REQUIRED_PATHS) (\<lambda>_.
     rbind (walk_mutable doc []) (\<lambda>_.
     require (py_eq (dget data ''schema_version'') (VInt LOCK_SCHEMA_VERSION)) ValueError
       ''lock.schema_version 2 is required'' (
     rbind (dsub data ''kind'' ''node_image'') (\<lambda>node.
     as_str node TypeError ''expected string or bytes-like object'' (\<lambda>node_image.
     require (DIGEST_REFERENCE node_image) ValueError
       ''kind.node_image must be pinned by a sha256 digest'' (
     rbind (check_provider (dget data ''cluster_api_hypervisor'')) (\<lambda>_.
     as_list (dget data ''oci_images'') TypeError ''lock.oci_images must be a list'' (\<lambda>images.
     rbind (rforeach check_oci_entry (enumerate 0 images)) (\<lambda>_.
     rbind (validate_artifacts data) (\<lambda>artifacts.
     rbind (validate_upgrade_matrix data artifacts) (\<lambda>_.
     Inr data))))))))))))"

definition load_lock :: "(string \<Rightarrow> pyval res) \<Rightarrow> string \<Rightarrow> pydict res" where
  "load_lock safe_load document = rbind (safe_load document) check_lock"

section \<open>Laws\<close>

text \<open>Every string a document holds, at any depth.\<close>

fun strings_in :: "pyval \<Rightarrow> string set" where
  "strings_in (VStr s) = {s}"
| "strings_in (VList xs) = (\<Union>x \<in> set xs. strings_in x)"
| "strings_in (VDict d) = (\<Union>kv \<in> set d. strings_in (snd kv))"
| "strings_in _ = {}"

lemma walk_mutable_ok:
  "walk_mutable v loc = Inr u \<longleftrightarrow> (\<forall>s \<in> strings_in v. \<not> MUTABLE_REFERENCE s)"
  "walk_items d loc = Inr u \<longleftrightarrow> (\<forall>kv \<in> set d. \<forall>s \<in> strings_in (snd kv). \<not> MUTABLE_REFERENCE s)"
  "walk_elems vs i loc = Inr u \<longleftrightarrow> (\<forall>v \<in> set vs. \<forall>s \<in> strings_in v. \<not> MUTABLE_REFERENCE s)"
  by (induction v loc and d loc and vs i loc rule: walk_mutable_walk_items_walk_elems.induct)
    auto

text \<open>What an artifact entry of an accepted lock is.\<close>

definition artifact_ok :: "pydict \<Rightarrow> bool" where
  "artifact_ok a \<longleftrightarrow> (\<exists>i p h u netloc.
     dget a ''id'' = VStr i \<and> strip i \<noteq> []
     \<and> dget a ''cache_path'' = VStr p \<and> strip p \<noteq> [] \<and> \<not> is_absolute p \<and> ''..'' \<notin> set (path_parts p)
     \<and> dget a ''sha256'' = VStr h \<and> full_hex 64 h
     \<and> dget a ''url'' = VStr u \<and> urlparse u = Inr (''https'', netloc) \<and> netloc \<noteq> [])"

definition art_id :: "pyval \<Rightarrow> string" where
  "art_id v = (case v of VDict a \<Rightarrow> (case dget a ''id'' of VStr i \<Rightarrow> i | _ \<Rightarrow> []) | _ \<Rightarrow> [])"

definition art_path :: "pyval \<Rightarrow> string" where
  "art_path v = (case v of VDict a \<Rightarrow> (case dget a ''cache_path'' of VStr i \<Rightarrow> i | _ \<Rightarrow> []) | _ \<Rightarrow> [])"

lemma check_url_ok:
  "check_url url loc = Inr () \<longleftrightarrow>
     (\<exists>u netloc. url = VStr u \<and> urlparse u = Inr (''https'', netloc) \<and> netloc \<noteq> [])"
  by (auto simp: check_url_def split: prod.splits)

lemma validate_artifact_ok:
  assumes "validate_artifact g st (i, v) = Inr st'"
  shows "\<exists>a. v = VDict a \<and> artifact_ok a \<and> art_id v \<notin> set (seen_ids st)
    \<and> art_path v \<notin> set (seen_paths st)
    \<and> st' = \<lparr> seen_ids = art_id v # seen_ids st, seen_paths = art_path v # seen_paths st,
              artifact_result = AList.update (art_id v) a (artifact_result st) \<rparr>"
  using assms
  by (auto simp: validate_artifact_def Let_def check_url_ok artifact_ok_def art_id_def art_path_def)

text \<open>The loop invariant: what the state holds after the entries \<open>es\<close>.\<close>

definition artifacts_inv :: "pyval list \<Rightarrow> artifact_state \<Rightarrow> bool" where
  "artifacts_inv es st \<longleftrightarrow>
     (\<forall>v \<in> set es. \<exists>a. v = VDict a \<and> artifact_ok a)
     \<and> seen_ids st = rev (map art_id es) \<and> seen_paths st = rev (map art_path es)
     \<and> distinct (map art_id es) \<and> distinct (map art_path es)
     \<and> map_of (artifact_result st) = map_of (map (\<lambda>v. (art_id v, case v of VDict a \<Rightarrow> a | _ \<Rightarrow> [])) es)"

lemma map_of_snoc:
  "k \<notin> fst ` set xs \<Longrightarrow> map_of (xs @ [(k, v)]) = (map_of xs)(k \<mapsto> v)"
  by (auto simp: map_add_def fun_eq_iff map_of_eq_None_iff [symmetric] split: option.splits)

lemma artifacts_inv_step:
  assumes "artifacts_inv es st" "validate_artifact g st (i, v) = Inr st'"
  shows "artifacts_inv (es @ [v]) st'"
proof -
  obtain a where a: "v = VDict a" "artifact_ok a" "art_id v \<notin> set (seen_ids st)"
    "art_path v \<notin> set (seen_paths st)"
    "st' = \<lparr> seen_ids = art_id v # seen_ids st, seen_paths = art_path v # seen_paths st,
             artifact_result = AList.update (art_id v) a (artifact_result st) \<rparr>"
    using validate_artifact_ok [OF assms(2)] by blast
  have "art_id v \<notin> fst ` set (map (\<lambda>v. (art_id v, case v of VDict a \<Rightarrow> a | _ \<Rightarrow> [])) es)"
    using a assms(1) by (auto simp: artifacts_inv_def)
  then show ?thesis
    using a assms(1) by (auto simp: artifacts_inv_def update_conv' map_of_snoc simp del: map_of_append)
qed

lemma artifacts_inv_fold:
  assumes "rfold (validate_artifact g) st (enumerate n vs) = Inr st'" "artifacts_inv es st"
  shows "artifacts_inv (es @ vs) st'"
  using assms
proof (induction vs arbitrary: es st n)
  case (Cons v vs)
  from Cons.prems(1) obtain t where t: "validate_artifact g st (n, v) = Inr t"
    "rfold (validate_artifact g) t (enumerate (Suc n) vs) = Inr st'" by auto
  have "artifacts_inv (es @ [v]) t" using Cons.prems(2) t(1) by (rule artifacts_inv_step)
  then show ?case using Cons.IH [OF t(2), of "es @ [v]"] by simp
qed simp

text \<open>The entries of both artifact groups, in the order they are checked.\<close>

definition all_artifacts :: "pydict \<Rightarrow> pyval list" where
  "all_artifacts data =
     (case (dget data ''artifacts'', dget_or data ''guest_upgrade_artifacts'' (VList [])) of
        (VList xs, VList ys) \<Rightarrow> xs @ ys | _ \<Rightarrow> [])"

lemma validate_artifacts_inv:
  assumes "validate_artifacts data = Inr res"
  shows "\<exists>xs ys st. dget data ''artifacts'' = VList xs
    \<and> dget_or data ''guest_upgrade_artifacts'' (VList []) = VList ys
    \<and> all_artifacts data = xs @ ys \<and> artifact_result st = res \<and> artifacts_inv (xs @ ys) st"
proof -
  let ?st0 = "\<lparr> seen_ids = [], seen_paths = [], artifact_result = [] \<rparr> :: artifact_state"
  obtain xs ys t st where xy: "dget data ''artifacts'' = VList xs"
    "dget_or data ''guest_upgrade_artifacts'' (VList []) = VList ys"
    and st: "rfold (validate_artifact ''artifacts'') ?st0 (enumerate 0 xs) = Inr t"
    "rfold (validate_artifact ''guest_upgrade_artifacts'') t (enumerate 0 ys) = Inr st"
    "artifact_result st = res"
    using assms by (auto simp: validate_artifacts_def validate_group_def)
  have "artifacts_inv [] ?st0" by (simp add: artifacts_inv_def)
  then have "artifacts_inv xs t" using artifacts_inv_fold [OF st(1)] by fastforce
  then have "artifacts_inv (xs @ ys) st" using artifacts_inv_fold [OF st(2)] by blast
  then show ?thesis using xy st(3) by (auto simp: all_artifacts_def)
qed

lemma check_lock_ok:
  assumes "check_lock doc = Inr data"
  shows "doc = VDict data"
    and "\<forall>keys \<in> set REQUIRED_PATHS. check_required data keys = Inr ()"
    and "walk_mutable (VDict data) [] = Inr ()"
    and "\<exists>r. dsub data ''kind'' ''node_image'' = Inr (VStr r) \<and> DIGEST_REFERENCE r"
    and "check_provider (dget data ''cluster_api_hypervisor'') = Inr ()"
    and "\<exists>images. dget data ''oci_images'' = VList images
          \<and> (\<forall>ix \<in> set (enumerate 0 images). check_oci_entry ix = Inr ())"
    and "\<exists>arts. validate_artifacts data = Inr arts \<and> validate_upgrade_matrix data arts = Inr ()"
  using assms by (auto simp: check_lock_def)

lemma check_oci_entry_ok:
  assumes "check_oci_entry (i, v) = Inr ()"
  shows "\<exists>e r. v = VDict e \<and> dget e ''reference'' = VStr r \<and> DIGEST_REFERENCE r
    \<and> dget e ''platform'' = VStr ''linux/amd64''"
  using assms by (auto simp: check_oci_entry_def Let_def)

lemma check_provider_ok:
  assumes "check_provider v = Inr ()"
  shows "\<exists>p c img r. v = VDict p \<and> dget p ''version'' = VStr ''v0.3.17''
    \<and> dget p ''commit'' = VStr c \<and> full_hex 40 c
    \<and> dget p ''image'' = VDict img \<and> dget img ''reference'' = VStr r \<and> DIGEST_REFERENCE r"
  using assms by (auto simp: check_provider_def)

text \<open>What one accepted stage of the upgrade matrix says, given the artifacts by id.\<close>

definition stage_ok :: "(string \<times> pydict) list \<Rightarrow> pyval \<Rightarrow> nat \<Rightarrow> bool" where
  "stage_ok arts v minor \<longleftrightarrow> (\<exists>stage k g1 g2 c h1 h2.
     v = VDict stage \<and> dget stage ''kubernetes'' = VStr k \<and> KUBERNETES_VERSION k = Some (g1, g2)
     \<and> dget stage ''cri_o'' = VStr c \<and> KUBERNETES_VERSION c = Some (h1, h2)
     \<and> digits_val g1 = minor \<and> digits_val h1 = minor
     \<and> (\<forall>(field, component) \<in> set expected_components. \<exists>i a.
          dget stage field = VStr i \<and> map_of arts i = Some a
          \<and> dget a ''component'' = VStr component
          \<and> dget a ''version'' = VStr (if field = ''cri_o_artifact'' then c else k)))"

lemma stage_version_ok:
  "stage_version loc stage field = Inr (n, v) \<longleftrightarrow>
     (\<exists>g1 g2. dget stage field = VStr v \<and> KUBERNETES_VERSION v = Some (g1, g2) \<and> n = digits_val g1)"
  by (auto simp: stage_version_def Let_def)

lemma check_stage_artifact_ok:
  "check_stage_artifact arts loc stage k c (field, component) = Inr () \<longleftrightarrow>
     (\<exists>i a. dget stage field = VStr i \<and> map_of arts i = Some a
        \<and> dget a ''component'' = VStr component
        \<and> dget a ''version'' = VStr (if field = ''cri_o_artifact'' then c else k))"
  by (auto simp: check_stage_artifact_def Let_def)

lemma check_stage_ok:
  assumes "check_stage arts (i, v) = Inr n"
  shows "stage_ok arts v n"
proof -
  obtain stage where v: "v = VDict stage"
    using assms by (cases v) (auto simp: check_stage_def Let_def)
  let ?loc = "''lock.kubernetes_upgrade_matrix['' @ show_nat i @ '']''"
  obtain k c where kc: "stage_version ?loc stage ''kubernetes'' = Inr (n, k)"
    "stage_version ?loc stage ''cri_o'' = Inr (n, c)"
    "\<forall>rc \<in> set expected_components. check_stage_artifact arts ?loc stage k c rc = Inr ()"
    using assms by (auto simp: check_stage_def v Let_def)
  then show ?thesis
    unfolding stage_ok_def stage_version_ok v
    using check_stage_artifact_ok by fastforce
qed

lemma rmap_enumerate_ok:
  assumes "rmap f (enumerate n vs) = Inr ys" "\<And>i v y. f (i, v) = Inr y \<Longrightarrow> P v y"
  shows "list_all2 P vs ys"
  using assms by (induction vs arbitrary: n ys) auto

lemma validate_upgrade_matrix_ok:
  assumes "validate_upgrade_matrix data arts = Inr ()"
  shows "\<exists>stages minors target g1 g2. dget data ''kubernetes_upgrade_matrix'' = VList stages
    \<and> stages \<noteq> [] \<and> list_all2 (stage_ok arts) stages minors
    \<and> dsub data ''kubernetes'' ''version'' = Inr (VStr target)
    \<and> KUBERNETES_VERSION target = Some (g1, g2)
    \<and> minors = [hd minors ..< Suc (digits_val g1)]"
  using assms rmap_enumerate_ok [where f = "check_stage arts" and P = "stage_ok arts"] check_stage_ok
  by (fastforce simp: validate_upgrade_matrix_def)

section \<open>A lock that is accepted\<close>

definition hex64 :: string where
  "hex64 = replicate 64 (CHR ''0'')"

definition sample_artifact :: "string \<Rightarrow> string \<Rightarrow> pyval" where
  "sample_artifact i component = VDict
     [(''id'', VStr i), (''cache_path'', VStr (''artifacts/'' @ i)), (''sha256'', VStr hex64),
      (''url'', VStr (''https://example.org/'' @ i)), (''component'', VStr component),
      (''version'', VStr ''v1.37.0'')]"

definition sample_lock :: pyval where
  "sample_lock = VDict
     [(''schema_version'', VInt 2),
      (''fedora'', VDict [(''kernel'', VStr ''7.3.0'')]),
      (''kubernetes'', VDict [(''version'', VStr ''v1.37.0''), (''cri_o'', VStr ''v1.37.0''),
         (''crun'', VStr ''1.29.1'')]),
      (''cilium'', VDict [(''version'', VStr ''v1.20.2'')]),
      (''cluster_api'', VDict [(''version'', VStr ''v1.14.2'')]),
      (''kind'', VDict [(''version'', VStr ''v0.32.0''),
         (''node_image'', VStr (''kindest/node@sha256:'' @ hex64))]),
      (''packer'', VDict [(''version'', VStr ''1.15.0'')]),
      (''cloud_hypervisor'', VDict [(''version'', VStr ''v52.0'')]),
      (''cluster_api_hypervisor'', VDict
         [(''version'', VStr ''v0.3.17''), (''commit'', VStr (replicate 40 (CHR ''0''))),
          (''source'', VDict [(''url'', VStr ''https://example.org/s''), (''sha256'', VStr hex64)]),
          (''image'', VDict [(''reference'', VStr (''ghcr.io/p@sha256:'' @ hex64))])]),
      (''oci_images'', VList
         [VDict [(''id'', VStr ''kind-node''), (''cache_path'', VStr ''oci/kind-node''),
            (''reference'', VStr (''kindest/node:v1.37.0@sha256:'' @ hex64)),
            (''platform'', VStr ''linux/amd64'')]]),
      (''artifacts'', VList
         [sample_artifact ''kubelet'' ''kubelet'',
          sample_artifact ''cp'' ''kubernetes-control-plane'', sample_artifact ''crio'' ''cri-o'']),
      (''kubernetes_upgrade_matrix'', VList
         [VDict [(''kubernetes'', VStr ''v1.37.0''), (''cri_o'', VStr ''v1.37.0''),
            (''kubelet_artifact'', VStr ''kubelet''), (''control_plane_artifact'', VStr ''cp''),
            (''cri_o_artifact'', VStr ''crio'')]])]"

definition sample_lock_data :: pydict where
  "sample_lock_data = (case sample_lock of VDict d \<Rightarrow> d | _ \<Rightarrow> [])"

lemma sample_lock_is_ok: "is_ok (check_lock sample_lock)"
  by code_simp

lemma sample_lock_accepted: "load_lock (\<lambda>_. Inr sample_lock) document = Inr sample_lock_data"
proof -
  obtain d where d: "check_lock sample_lock = Inr d"
    using sample_lock_is_ok by (auto simp: is_ok_conv)
  then have l: "sample_lock = VDict d" by (rule check_lock_ok)
  have "sample_lock_data = d" unfolding sample_lock_data_def l by simp
  with d show ?thesis by (simp add: load_lock_def)
qed

section \<open>Properties\<close>

text \<open>
  C10: nothing in an accepted lock is a moving target. No string at any depth of the document
  names \<open>latest\<close>, \<open>main\<close> or \<open>master\<close> as a reference component, the kind node image, the
  provider image and every OCI image are pinned by a full SHA-256 digest, and the provider is
  pinned to one version and one full Git commit.
\<close>

theorem load_lock_immutable:
  assumes "load_lock safe_load document = Inr data"
  shows "(\<forall>s \<in> strings_in (VDict data). \<not> MUTABLE_REFERENCE s)
    \<and> (\<exists>r. dsub data ''kind'' ''node_image'' = Inr (VStr r) \<and> DIGEST_REFERENCE r)
    \<and> (\<exists>p c img r. dget data ''cluster_api_hypervisor'' = VDict p
         \<and> dget p ''version'' = VStr ''v0.3.17'' \<and> dget p ''commit'' = VStr c \<and> full_hex 40 c
         \<and> dget p ''image'' = VDict img \<and> dget img ''reference'' = VStr r \<and> DIGEST_REFERENCE r)
    \<and> (\<exists>images. dget data ''oci_images'' = VList images \<and> (\<forall>v \<in> set images. \<exists>e r.
         v = VDict e \<and> dget e ''reference'' = VStr r \<and> DIGEST_REFERENCE r
         \<and> dget e ''platform'' = VStr ''linux/amd64''))"
proof -
  obtain doc where "check_lock doc = Inr data" using assms by (auto simp: load_lock_def)
  note ok = check_lock_ok [OF this]
  obtain images where im: "dget data ''oci_images'' = VList images"
    "\<forall>ix \<in> set (enumerate 0 images). check_oci_entry ix = Inr ()" using ok(6) by blast
  have "\<exists>e r. v = VDict e \<and> dget e ''reference'' = VStr r \<and> DIGEST_REFERENCE r
      \<and> dget e ''platform'' = VStr ''linux/amd64''" if "v \<in> set images" for v
    using in_set_enumerate [OF that] im(2) check_oci_entry_ok by blast
  then show ?thesis
    using ok(3,4) im(1) check_provider_ok [OF ok(5)] by (simp only: walk_mutable_ok) blast
qed

theorem load_lock_immutable_witness:
  "\<not> MUTABLE_REFERENCE ''v1.37.0''
    \<and> (\<exists>r. dsub sample_lock_data ''kind'' ''node_image'' = Inr (VStr r) \<and> DIGEST_REFERENCE r)"
proof -
  have "''v1.37.0'' \<in> strings_in (VDict sample_lock_data)"
    by (simp add: sample_lock_def sample_lock_data_def)
  then show ?thesis using load_lock_immutable [OF sample_lock_accepted] by blast
qed

text \<open>
  C11: the artifacts of an accepted lock, both groups together, have pairwise distinct ids and
  pairwise distinct cache paths; each is a mapping with a non-blank id, a relative cache path
  that never leaves the cache, a full lower-case SHA-256 digest and an HTTPS URL with a host.
\<close>

theorem load_lock_artifacts:
  assumes "load_lock safe_load document = Inr data"
  shows "distinct (map art_id (all_artifacts data)) \<and> distinct (map art_path (all_artifacts data))
    \<and> (\<forall>v \<in> set (all_artifacts data). \<exists>a. v = VDict a \<and> artifact_ok a)"
proof -
  obtain doc where "check_lock doc = Inr data" using assms by (auto simp: load_lock_def)
  then obtain arts where "validate_artifacts data = Inr arts" using check_lock_ok(7) by blast
  from validate_artifacts_inv [OF this] show ?thesis by (auto simp: artifacts_inv_def)
qed

theorem load_lock_artifacts_witness:
  "distinct (map art_id (all_artifacts sample_lock_data))
    \<and> distinct (map art_path (all_artifacts sample_lock_data))
    \<and> list_all (\<lambda>v. \<exists>a. v = VDict a \<and> artifact_ok a) (all_artifacts sample_lock_data)"
  using load_lock_artifacts [OF sample_lock_accepted] unfolding list_all_iff by blast

text \<open>
  The upgrade matrix of an accepted lock is a complete ladder. Its stages run through every
  Kubernetes minor from the first stage's up to the locked target's, once each and in order;
  at every stage Kubernetes and CRI-O have that minor, and the three artifact references
  resolve to locked artifacts of the right component and exactly the stage's version.
\<close>

theorem load_lock_upgrade_ladder:
  assumes "load_lock safe_load document = Inr data"
  shows "\<exists>arts stages minors target g1 g2.
    validate_artifacts data = Inr arts
    \<and> dget data ''kubernetes_upgrade_matrix'' = VList stages \<and> stages \<noteq> []
    \<and> list_all2 (stage_ok arts) stages minors
    \<and> dsub data ''kubernetes'' ''version'' = Inr (VStr target)
    \<and> KUBERNETES_VERSION target = Some (g1, g2)
    \<and> minors = [hd minors ..< Suc (digits_val g1)]"
proof -
  obtain doc where "check_lock doc = Inr data" using assms by (auto simp: load_lock_def)
  then obtain arts where a: "validate_artifacts data = Inr arts"
    and m: "validate_upgrade_matrix data arts = Inr ()" using check_lock_ok(7) by blast
  from validate_upgrade_matrix_ok [OF m] show ?thesis
    using a by (elim exE conjE) (intro exI conjI)
qed

theorem load_lock_upgrade_ladder_witness:
  "\<exists>arts stages minors. validate_artifacts sample_lock_data = Inr arts
    \<and> dget sample_lock_data ''kubernetes_upgrade_matrix'' = VList stages
    \<and> list_all2 (stage_ok arts) stages minors"
  using load_lock_upgrade_ladder [OF sample_lock_accepted]
  by (elim exE conjE) (intro exI conjI)

end
