(* ===== verification/Cache.thy ===== *)
theory Cache
  imports Lock Py_Files
begin

text \<open>
  The lock-keyed artifact cache (\<open>scripts/cache.py\<close>): the inventories a lock determines, the
  validation of a cache directory and of the OCI layouts in it, and the operations that
  populate, publish and prune it. The network, external commands and the random part of
  temporary names are the fields of the record \<open>services\<close>.
\<close>

section \<open>Services\<close>

datatype proc_result = Exited nat string string | CommandNotFound

text \<open>
  \<open>fetch url\<close> is the connection error, or the chunks read from the response and the error that
  ended the reading, if any. \<open>run_cmd\<close> may change the store. \<open>temp_suffix\<close> is the random part
  of a name \<open>tempfile.mkdtemp\<close> picks in a directory.
\<close>

record services =
  fetch :: "string \<Rightarrow> pyerr + (string list \<times> pyerr option)"
  run_cmd :: "string list \<Rightarrow> fs \<Rightarrow> proc_result \<times> fs"
  temp_suffix :: "fs \<Rightarrow> path \<Rightarrow> string"

section \<open>Identity of a cache\<close>

definition canonical_json :: "pydict \<Rightarrow> string" where
  "canonical_json data = dumps compact_style (sort_keys (VDict data)) @ nl"

definition lock_digest :: "pydict \<Rightarrow> string" where
  "lock_digest lock = sha256_hex (canonical_json lock)"

definition cache_dir :: "pydict \<Rightarrow> path \<Rightarrow> path" where
  "cache_dir lock cache_root = cache_root @ [''locks'', lock_digest lock]"

definition is_sha256 :: "string \<Rightarrow> bool" where
  "is_sha256 s \<longleftrightarrow> length s = 64 \<and> list_all is_lower_hex (py_lower s)"

definition safe_cache_path :: "pyval \<Rightarrow> string \<Rightarrow> string res" where
  "safe_cache_path value location =
     as_str value ValueError (location @ '' must be a non-empty relative path'') (\<lambda>s.
     require (s \<noteq> []) ValueError (location @ '' must be a non-empty relative path'') (
     require (\<not> is_absolute s \<and> ''..'' \<notin> set (path_parts s)) ValueError
       (location @ '' must stay inside the cache'') (Inr s)))"

section \<open>Inventories\<close>

record artifact_item =
  item_id :: string
  item_path :: string
  item_sha :: string
  item_url :: string

record image_item =
  img_id :: string
  img_path :: string
  img_reference :: string
  img_manifest :: string
  img_platform :: string

definition artifact_entry :: "string \<Rightarrow> nat \<times> pyval \<Rightarrow> artifact_item res" where
  "artifact_entry grp ix = (case ix of (index, entry) \<Rightarrow>
     let location = ''lock.'' @ grp @ ''['' @ show_nat index @ '']'' in
     as_dict entry TypeError (location @ '' must be a mapping'') (\<lambda>artifact.
     rbind (safe_cache_path (dget artifact ''cache_path'') (location @ ''.cache_path'')) (\<lambda>relative_path.
     as_str (dget artifact ''id'') ValueError (location @ ''.id must be a non-empty string'') (\<lambda>artifact_id.
     require (artifact_id \<noteq> []) ValueError (location @ ''.id must be a non-empty string'') (
     as_str (dget artifact ''sha256'') ValueError
       (location @ ''.sha256 must be a hexadecimal SHA-256 digest'') (\<lambda>digest.
     require (is_sha256 digest) ValueError
       (location @ ''.sha256 must be a hexadecimal SHA-256 digest'') (
     as_str (dget artifact ''url'') ValueError (location @ ''.url must use HTTPS'') (\<lambda>url.
     rbind (urlparse url) (\<lambda>(scheme, netloc).
     require (scheme = ''https'') ValueError (location @ ''.url must use HTTPS'') (
     Inr \<lparr> item_id = artifact_id, item_path = relative_path,
           item_sha = py_lower digest, item_url = url \<rparr>))))))))))"

definition artifact_inventory :: "pydict \<Rightarrow> string \<Rightarrow> artifact_item list res" where
  "artifact_inventory lock grp =
     as_list (dget_or lock grp (VList [])) TypeError (''lock.'' @ grp @ '' must be a list'') (\<lambda>artifacts.
     rmap (artifact_entry grp) (enumerate 0 artifacts))"

definition inventory :: "pydict \<Rightarrow> artifact_item list res" where
  "inventory lock = artifact_inventory lock ''artifacts''"

definition guest_upgrade_inventory :: "pydict \<Rightarrow> artifact_item list res" where
  "guest_upgrade_inventory lock = artifact_inventory lock ''guest_upgrade_artifacts''"

text \<open>The dictionary comprehension \<open>by_id\<close> and the selection of the stage artifacts.\<close>

definition by_id :: "pyval list \<Rightarrow> (string \<times> pyval) list" where
  "by_id entries = foldl (\<lambda>d v. case v of
       VDict a \<Rightarrow> (case dget a ''id'' of VStr i \<Rightarrow> AList.update i v d | _ \<Rightarrow> d)
     | _ \<Rightarrow> d) [] entries"

definition select_stage ::
  "(string \<times> pyval) list \<Rightarrow> (string \<times> pyval) list \<Rightarrow> nat \<times> pyval \<Rightarrow> (string \<times> pyval) list res" where
  "select_stage ids selected ix = (case ix of (index, entry) \<Rightarrow>
     let location = ''lock.kubernetes_upgrade_matrix['' @ show_nat index @ '']'' in
     as_dict entry TypeError (location @ '' must be a mapping'') (\<lambda>stage.
     rfold (\<lambda>selected field.
       let message = location @ ''.'' @ field @ '' must reference a locked artifact'' in
       as_str (dget stage field) ValueError message (\<lambda>artifact_id.
       as_some (map_of ids artifact_id) ValueError message (\<lambda>artifact.
       Inr (if artifact_id \<in> fst ` set selected then selected
            else selected @ [(artifact_id, artifact)]))))
       selected [''kubelet_artifact'', ''control_plane_artifact'', ''cri_o_artifact'']))"

definition kubernetes_upgrade_inventory :: "pydict \<Rightarrow> artifact_item list res" where
  "kubernetes_upgrade_inventory lock =
     rbind (inventory lock) (\<lambda>_.
     rbind (guest_upgrade_inventory lock) (\<lambda>_.
     as_list (dget_or lock ''artifacts'' (VList [])) TypeError
       ''lock artifact groups must be lists'' (\<lambda>normal_artifacts.
     as_list (dget_or lock ''guest_upgrade_artifacts'' (VList [])) TypeError
       ''lock artifact groups must be lists'' (\<lambda>guest_artifacts.
     as_list (dget lock ''kubernetes_upgrade_matrix'') ValueError
       ''lock.kubernetes_upgrade_matrix must be a non-empty list'' (\<lambda>matrix.
     require (matrix \<noteq> []) ValueError
       ''lock.kubernetes_upgrade_matrix must be a non-empty list'' (
     rbind (rfold (select_stage (by_id (normal_artifacts @ guest_artifacts))) []
       (enumerate 0 matrix)) (\<lambda>selected.
     artifact_inventory [(''matrix_artifacts'', VList (map snd selected))]
       ''matrix_artifacts'')))))))"

text \<open>\<open>repository\<close> of an image reference without its tag.\<close>

definition strip_tag :: "string \<Rightarrow> string" where
  "strip_tag repository = (case rpartition ''/'' repository of (repository_path, separator, name) \<Rightarrow>
     let base = (case last_split '':'' name of Some (a, b) \<Rightarrow> a | None \<Rightarrow> name) in
     if separator \<noteq> [] then repository_path @ ''/'' @ base else base)"

definition image_entry :: "nat \<times> pyval \<Rightarrow> image_item res" where
  "image_entry ix = (case ix of (index, entry) \<Rightarrow>
     let location = ''lock.oci_images['' @ show_nat index @ '']'' in
     as_dict entry TypeError (location @ '' must be a mapping'') (\<lambda>img.
     rbind (safe_cache_path (dget img ''cache_path'') (location @ ''.cache_path'')) (\<lambda>relative_path.
     as_str (dget img ''id'') ValueError (location @ ''.id must be a non-empty string'') (\<lambda>image_id.
     require (image_id \<noteq> []) ValueError (location @ ''.id must be a non-empty string'') (
     as_str (dget img ''reference'') ValueError
       (location @ ''.reference must be pinned by a sha256 digest'') (\<lambda>reference.
     require (str_in ''@sha256:'' reference) ValueError
       (location @ ''.reference must be pinned by a sha256 digest'') (
     case rpartition ''@sha256:'' reference of (repository, separator, digest) \<Rightarrow>
     require (repository \<noteq> [] \<and> separator \<noteq> [] \<and> is_sha256 digest) ValueError
       (location @ ''.reference must end with a full sha256 digest'') (
     as_str (dget img ''platform'') ValueError (location @ ''.platform must be OS/architecture'') (\<lambda>platform.
     require (length (filter (\<lambda>c. c = CHR ''/'') platform) = 1) ValueError
       (location @ ''.platform must be OS/architecture'') (
     Inr \<lparr> img_id = image_id, img_path = relative_path,
           img_reference = strip_tag repository @ ''@sha256:'' @ py_lower digest,
           img_manifest = ''sha256:'' @ py_lower digest, img_platform = platform \<rparr>))))))))))"

definition oci_inventory :: "pydict \<Rightarrow> image_item list res" where
  "oci_inventory lock =
     as_list (dget_or lock ''oci_images'' (VList [])) TypeError ''lock.oci_images must be a list'' (\<lambda>images.
     rmap image_entry (enumerate 0 images))"

text \<open>Inventory items as the dictionaries the metadata files hold.\<close>

definition item_val :: "artifact_item \<Rightarrow> pyval" where
  "item_val i = VDict [(''id'', VStr (item_id i)), (''cache_path'', VStr (item_path i)),
     (''sha256'', VStr (item_sha i)), (''url'', VStr (item_url i))]"

definition image_val :: "image_item \<Rightarrow> pyval" where
  "image_val i = VDict [(''id'', VStr (img_id i)), (''cache_path'', VStr (img_path i)),
     (''reference'', VStr (img_reference i)), (''manifest_digest'', VStr (img_manifest i)),
     (''platform'', VStr (img_platform i))]"

section \<open>Validation\<close>

definition sha256_file :: "fs \<Rightarrow> path \<Rightarrow> string res" where
  "sha256_file fs p = rbind (read_bytes fs p) (\<lambda>b. Inr (sha256_hex b))"

text \<open>The parsed document (\<open>None\<close> when it cannot be read) and the problem reported, if any.\<close>

definition read_json :: "fs \<Rightarrow> path \<Rightarrow> string \<Rightarrow> (pyval \<times> string list) res" where
  "read_json fs p description = (case rbind (read_text fs p) loads of
     Inr v \<Rightarrow> Inr (v, [])
   | Inl e \<Rightarrow> if exn_of e = JSONDecodeError \<or> is_os_error (exn_of e)
       then Inr (VNone, [''invalid '' @ description @ '': '' @ msg_of e]) else Inl e)"

definition validate_blob :: "fs \<Rightarrow> path \<Rightarrow> pyval \<Rightarrow> string \<Rightarrow> (path option \<times> string list) res" where
  "validate_blob fs cache_root digest description =
     (let bad = Inr (None, [''invalid OCI digest for '' @ description @ '': '' @ py_repr digest]) in
      case digest of
        VStr d \<Rightarrow>
          if \<not> prefix ''sha256:'' d \<or> \<not> is_sha256 (drop 7 d) then bad
          else let blob = cache_root @ [''blobs'', ''sha256'', drop 7 d] in
            if \<not> is_file fs blob
            then Inr (None, [''missing OCI blob for '' @ description @ '': '' @ d])
            else rbind (sha256_file fs blob) (\<lambda>h.
              if h \<noteq> drop 7 d
              then Inr (None, [''checksum mismatch for OCI blob '' @ description @ '': '' @ d])
              else Inr (Some blob, []))
      | _ \<Rightarrow> bad)"

definition validate_layer :: "fs \<Rightarrow> path \<Rightarrow> string \<Rightarrow> nat \<times> pyval \<Rightarrow> string list res" where
  "validate_layer fs directory ident ix = (case ix of (layer_index, layer) \<Rightarrow>
     (case layer of
        VDict l \<Rightarrow> rbind (validate_blob fs directory (dget l ''digest'')
          (''layer '' @ show_nat layer_index @ '' for '' @ ident)) (\<lambda>(_, ps). Inr ps)
      | _ \<Rightarrow> Inr [''invalid OCI layer descriptor '' @ show_nat layer_index @ '' for '' @ ident]))"

text \<open>\<open>validate_oci_layout\<close> from the configuration descriptor on.\<close>

definition validate_config :: "fs \<Rightarrow> image_item \<Rightarrow> path \<Rightarrow> pydict \<Rightarrow> string list res" where
  "validate_config fs item directory manifest =
     (case dget manifest ''config'' of
        VDict config \<Rightarrow>
          rbind (validate_blob fs directory (dget config ''digest'') (''config '' @ img_id item)) (\<lambda>(config_path, p1).
          rbind (iter_val (dget_or manifest ''layers'' (VList []))) (\<lambda>layers.
          rbind (rmap (validate_layer fs directory (img_id item)) (enumerate 0 layers)) (\<lambda>p2.
          let problems = p1 @ concat p2 in
          case config_path of
            None \<Rightarrow> Inr problems
          | Some cp \<Rightarrow>
              rbind (read_json fs cp (''OCI config for '' @ img_id item)) (\<lambda>(config_data, p3).
              case config_data of
                VDict cd \<Rightarrow>
                  (let got = py_str (dget cd ''os'') @ ''/'' @ py_str (dget cd ''architecture'') in
                   Inr (problems @ p3 @ (if got \<noteq> img_platform item
                     then [''OCI platform mismatch for '' @ img_id item @ '': got '' @ got @
                           '', want '' @ img_platform item] else [])))
              | _ \<Rightarrow> Inr (problems @ p3)))))
      | _ \<Rightarrow> Inr [''OCI manifest for '' @ img_id item @ '' has no config descriptor''])"

definition validate_index :: "fs \<Rightarrow> image_item \<Rightarrow> path \<Rightarrow> pydict \<Rightarrow> string list res" where
  "validate_index fs item directory index =
     (case dget index ''manifests'' of
        VList [VDict descriptor] \<Rightarrow>
          (let digest = dget descriptor ''digest'';
               p1 = (if digest \<noteq> VStr (img_manifest item)
                     then [''OCI manifest digest mismatch for '' @ img_id item @ '': got '' @
                           py_repr digest @ '', want '' @ img_manifest item] else []) in
           rbind (validate_blob fs directory digest (''manifest '' @ img_id item)) (\<lambda>(manifest_path, p2).
           case manifest_path of
             None \<Rightarrow> Inr (p1 @ p2)
           | Some mp \<Rightarrow>
               rbind (read_json fs mp (''OCI manifest for '' @ img_id item)) (\<lambda>(manifest, p3).
               case manifest of
                 VDict m \<Rightarrow> rbind (validate_config fs item directory m) (\<lambda>p4. Inr (p1 @ p2 @ p3 @ p4))
               | _ \<Rightarrow> Inr (p1 @ p2 @ p3))))
      | _ \<Rightarrow> Inr [''OCI index for '' @ img_id item @ '' must contain exactly one manifest''])"

definition layout_marker :: pyval where
  "layout_marker = VDict [(''imageLayoutVersion'', VStr ''1.0.0'')]"

definition validate_oci_layout :: "image_item \<Rightarrow> path \<Rightarrow> fs \<Rightarrow> string list res" where
  "validate_oci_layout item directory fs =
     rbind (read_json fs (directory @ [''oci-layout'']) (''OCI layout marker for '' @ img_id item)) (\<lambda>(layout, p1).
     let p2 = (if \<not> py_eq layout layout_marker
               then [''invalid OCI layout marker for '' @ img_id item] else []) in
     rbind (read_json fs (directory @ [''index.json'']) (''OCI index for '' @ img_id item)) (\<lambda>(index, p3).
     case index of
       VDict idx \<Rightarrow> rbind (validate_index fs item directory idx) (\<lambda>p4. Inr (p1 @ p2 @ p3 @ p4))
     | _ \<Rightarrow> Inr (p1 @ p2 @ p3)))"

definition metadata_names :: "string list" where
  "metadata_names = [''lock.json'', ''checksums.txt'', ''artifacts.json'', ''oci-images.json'', ''complete.json'']"

definition artifact_problem :: "string \<Rightarrow> fs \<Rightarrow> path \<Rightarrow> artifact_item \<Rightarrow> string list res" where
  "artifact_problem what fs directory item =
     (let artifact = path_join directory (item_path item) in
      if \<not> is_file fs artifact
      then Inr [''missing '' @ what @ '': '' @ item_id item @ '' ('' @ item_path item @ '')'']
      else rbind (sha256_file fs artifact) (\<lambda>h. Inr (if h \<noteq> item_sha item
        then [''checksum mismatch: '' @ item_id item @ '' ('' @ item_path item @ '')''] else [])))"

definition checksum_line :: "artifact_item \<Rightarrow> string" where
  "checksum_line item = item_sha item @ ''  '' @ item_path item"

definition completion_record :: "pydict \<Rightarrow> nat \<Rightarrow> nat \<Rightarrow> pyval" where
  "completion_record lock artifacts images = VDict
     [(''schema_version'', VInt 1), (''lock_sha256'', VStr (lock_digest lock)),
      (''artifact_count'', VInt (int artifacts)), (''oci_image_count'', VInt (int images))]"

definition complete_ok :: "pydict \<Rightarrow> nat \<Rightarrow> nat \<Rightarrow> pyval \<Rightarrow> bool" where
  "complete_ok lock artifacts images v = (case v of
     VDict c \<Rightarrow> dget c ''lock_sha256'' = VStr (lock_digest lock)
       \<and> py_eq (dget c ''artifact_count'') (VInt (int artifacts))
       \<and> py_eq (dget c ''oci_image_count'') (VInt (int images))
   | _ \<Rightarrow> False)"

text \<open>\<open>validate_cache\<close> once all metadata files are there.\<close>

definition validate_contents :: "pydict \<Rightarrow> path \<Rightarrow> fs \<Rightarrow> string list res" where
  "validate_contents lock directory fs =
     rbind (read_json fs (directory @ [''lock.json'']) ''lock.json'') (\<lambda>(v1, p1).
     let q1 = (if py_eq v1 (VDict lock) then [] else [''lock.json does not match the active lock'']) in
     rbind (inventory lock) (\<lambda>expected_artifacts.
     rbind (read_json fs (directory @ [''artifacts.json'']) ''artifacts.json'') (\<lambda>(v2, p2).
     let q2 = (if py_eq v2 (VList (map item_val expected_artifacts)) then []
               else [''artifacts.json does not match the active lock inventory'']) in
     rbind (oci_inventory lock) (\<lambda>expected_images.
     rbind (read_json fs (directory @ [''oci-images.json'']) ''oci-images.json'') (\<lambda>(v3, p3).
     let q3 = (if py_eq v3 (VList (map image_val expected_images)) then []
               else [''oci-images.json does not match the active lock inventory'']) in
     rbind (read_text fs (directory @ [''checksums.txt''])) (\<lambda>sums_text.
     let q4 = (if splitlines sums_text = map checksum_line expected_artifacts then []
               else [''checksums.txt does not match the active lock inventory'']) in
     rbind (rmap (artifact_problem ''artifact'' fs directory) expected_artifacts) (\<lambda>p5.
     rbind (rmap (\<lambda>item. validate_oci_layout item (path_join directory (img_path item)) fs)
       expected_images) (\<lambda>p6.
     rbind (read_json fs (directory @ [''complete.json'']) ''complete.json'') (\<lambda>(v7, p7).
     let q7 = (if complete_ok lock (length expected_artifacts) (length expected_images) v7 then []
               else [''complete.json does not describe the active lock'']) in
     Inr (p1 @ q1 @ p2 @ q2 @ p3 @ q3 @ q4 @ concat p5 @ concat p6 @ p7 @ q7))))))))))"

definition validate_cache :: "pydict \<Rightarrow> path \<Rightarrow> fs \<Rightarrow> string list res" where
  "validate_cache lock cache_root fs =
     (let directory = cache_dir lock cache_root in
      if \<not> is_dir fs directory then Inr [''cache directory is missing: /'' @ join ''/'' directory]
      else let missing = filter (\<lambda>name. \<not> is_file fs (directory @ [name])) metadata_names in
        if missing \<noteq> [] then Inr (map (\<lambda>name. ''missing cache metadata: '' @ name) missing)
        else validate_contents lock directory fs)"

definition validate_guest_upgrade_cache :: "pydict \<Rightarrow> path \<Rightarrow> fs \<Rightarrow> string list res" where
  "validate_guest_upgrade_cache lock cache_root fs =
     rbind (guest_upgrade_inventory lock) (\<lambda>items.
     rbind (rmap (artifact_problem ''guest upgrade artifact'' fs (cache_dir lock cache_root)) items) (\<lambda>ps.
     Inr (concat ps)))"

definition validate_kubernetes_upgrade_cache :: "pydict \<Rightarrow> path \<Rightarrow> fs \<Rightarrow> string list res" where
  "validate_kubernetes_upgrade_cache lock cache_root fs =
     rbind (kubernetes_upgrade_inventory lock) (\<lambda>items.
     rbind (rmap (artifact_problem ''Kubernetes upgrade artifact'' fs (cache_dir lock cache_root)) items) (\<lambda>ps.
     Inr (concat ps)))"

section \<open>Publication\<close>

definition tmp_name :: "string \<Rightarrow> string" where
  "tmp_name name = ''.'' @ name @ ''.tmp''"

text \<open>Write to the temporary name beside \<open>p\<close>, then rename.\<close>

definition write_replace :: "path \<Rightarrow> string \<Rightarrow> unit io" where
  "write_replace p content =
     io_then (io_do (write_bytes (with_name p (tmp_name (path_name p))) content))
       (io_do (os_replace (with_name p (tmp_name (path_name p))) p))"

definition write_json :: "path \<Rightarrow> pyval \<Rightarrow> unit io" where
  "write_json p data = write_replace p (utf8_encode (dumps indent2_style data @ nl))"

definition write_metadata :: "pydict \<Rightarrow> path \<Rightarrow> path io" where
  "write_metadata lock cache_root =
     (let directory = cache_dir lock cache_root in
      io_then (io_do (mkdir_p directory))
     (io_bind (io_lift (inventory lock)) (\<lambda>artifacts.
      io_bind (io_lift (oci_inventory lock)) (\<lambda>images.
      io_then (write_replace (directory @ [''lock.json'']) (canonical_json lock))
     (io_then (write_json (directory @ [''artifacts.json'']) (VList (map item_val artifacts)))
     (io_then (write_json (directory @ [''oci-images.json'']) (VList (map image_val images)))
     (io_then (write_replace (directory @ [''checksums.txt''])
        (utf8_encode (concat (map (\<lambda>item. checksum_line item @ nl) artifacts))))
     (io_then (write_json (directory @ [''complete.json''])
        (completion_record lock (length artifacts) (length images)))
     (io_return directory)))))))))"

section \<open>Population\<close>

definition has_sha :: "fs \<Rightarrow> path \<Rightarrow> string \<Rightarrow> bool" where
  "has_sha fs p h = (case lookup fs p of Some (File c) \<Rightarrow> sha256_hex c = h | _ \<Rightarrow> False)"

definition download :: "services \<Rightarrow> artifact_item \<Rightarrow> path \<Rightarrow> unit io" where
  "download srv item directory =
     (let destination = path_join directory (item_path item);
          temporary = with_name destination (tmp_name (path_name destination)) in
      io_bind (io_get (\<lambda>fs. has_sha fs destination (item_sha item))) (\<lambda>present.
      if present then io_return ()
      else io_then (io_do (mkdir_p (butlast destination)))
        (io_bind (io_except
          (case fetch srv (item_url item) of
             Inl e \<Rightarrow> io_lift (Inl e)
           | Inr (chunks, failure) \<Rightarrow>
               io_then (io_do (write_bytes temporary (concat chunks)))
                 (case failure of None \<Rightarrow> io_return (concat chunks) | Some e \<Rightarrow> io_lift (Inl e)))
          (\<lambda>e. if is_os_error (exn_of e)
               then io_then (io_do (unlink temporary))
                 (io_raise RuntimeError (''failed to download '' @ item_id item @ '': '' @ msg_of e))
               else io_lift (Inl e)))
        (\<lambda>content.
          if sha256_hex content \<noteq> item_sha item
          then io_then (io_do (unlink temporary))
            (io_raise RuntimeError (''checksum mismatch while downloading '' @ item_id item))
          else io_do (os_replace temporary destination)))))"

definition run :: "services \<Rightarrow> string list \<Rightarrow> unit io" where
  "run srv command fs = (case run_cmd srv command fs of
     (CommandNotFound, fs') \<Rightarrow> (raise RuntimeError (''required command not found: '' @ hd command), fs')
   | (Exited status out err, fs') \<Rightarrow>
       if status = 0 then (Inr (), fs')
       else (raise RuntimeError (''command failed ('' @ join '' '' command @ ''): '' @
         (if strip err \<noteq> [] then strip err else if strip out \<noteq> [] then strip out
          else ''Command '' @ py_repr (VList (map VStr command)) @
               '' returned non-zero exit status '' @ show_nat status @ ''.'')), fs'))"

text \<open>\<open>os.mkdir\<close> of a name that must be new, as \<open>tempfile.mkdtemp\<close> makes it.\<close>

definition mkdir_new :: "path \<Rightarrow> fs \<Rightarrow> fs res" where
  "mkdir_new p fs =
     (if path_exists fs p then raise FileExistsError (join ''/'' p)
      else if \<not> is_dir fs (butlast p) then path_error fs p
      else Inr (AList.update p Dir fs))"

definition rmtree_ignore :: "path \<Rightarrow> fs \<Rightarrow> fs res" where
  "rmtree_ignore p fs = (case rmtree p fs of Inr fs' \<Rightarrow> Inr fs' | Inl _ \<Rightarrow> Inr fs)"

definition layout_command :: "image_item \<Rightarrow> path \<Rightarrow> string list" where
  "layout_command item stage =
     [''skopeo'', ''copy'', ''--override-os'', hd (split_once (CHR ''/'') (img_platform item)),
      ''--override-arch'', last (split_once (CHR ''/'') (img_platform item)),
      ''docker://'' @ img_reference item,
      ''oci:/'' @ join ''/'' stage @ '':'' @ img_id item]"

text \<open>The \<open>try\<close> statement of \<open>populate_oci_image\<close>, on the new temporary directory.\<close>

definition install_layout :: "services \<Rightarrow> image_item \<Rightarrow> path \<Rightarrow> path \<Rightarrow> unit io" where
  "install_layout srv item destination temporary =
     (let stage = temporary @ [''layout''] in
      io_finally
        (io_then (run srv (layout_command item stage))
        (io_bind (io_read (validate_oci_layout item stage)) (\<lambda>problems.
         if problems \<noteq> [] then io_raise RuntimeError (join ''; '' problems)
         else io_bind (io_get (\<lambda>fs. path_exists fs destination)) (\<lambda>there.
           io_then (if there then io_do (rmtree destination) else io_return ())
          (io_then (io_do (mkdir_p (butlast destination)))
          (io_do (os_replace stage destination)))))))
        (io_do (rmtree_ignore temporary)))"

definition staging_name :: "services \<Rightarrow> image_item \<Rightarrow> path \<Rightarrow> fs \<Rightarrow> path" where
  "staging_name srv item stage_parent fs =
     path_join stage_parent (img_id item @ ''-'' @ temp_suffix srv fs stage_parent)"

definition populate_oci_image :: "services \<Rightarrow> image_item \<Rightarrow> path \<Rightarrow> unit io" where
  "populate_oci_image srv item directory =
     (let destination = path_join directory (img_path item);
          stage_parent = directory @ [''.staging''] in
      io_bind (io_read (\<lambda>fs. if is_dir fs destination
          then rbind (validate_oci_layout item destination fs) (\<lambda>ps. Inr (ps = []))
          else Inr False)) (\<lambda>valid.
      if valid then io_return ()
      else io_then (io_do (mkdir_p stage_parent))
     (io_bind (io_get (staging_name srv item stage_parent)) (\<lambda>temporary.
      io_then (io_do (mkdir_new temporary))
        (install_layout srv item destination temporary)))))"

definition populate :: "services \<Rightarrow> pydict \<Rightarrow> path \<Rightarrow> path io" where
  "populate srv lock cache_root =
     (let directory = cache_dir lock cache_root in
      io_then (io_do (mkdir_p directory))
     (io_then (io_do (unlink (directory @ [''complete.json''])))
     (io_bind (io_lift (inventory lock)) (\<lambda>items.
      io_then (io_foreach (\<lambda>item. download srv item directory) items)
     (io_bind (io_lift (oci_inventory lock)) (\<lambda>images.
      io_then (io_foreach (\<lambda>item. populate_oci_image srv item directory) images)
     (write_metadata lock cache_root)))))))"

definition populate_guest_upgrade_artifacts :: "services \<Rightarrow> pydict \<Rightarrow> path \<Rightarrow> path io" where
  "populate_guest_upgrade_artifacts srv lock cache_root =
     io_bind (io_lift (guest_upgrade_inventory lock)) (\<lambda>items.
     io_then (io_foreach (\<lambda>item. download srv item (cache_dir lock cache_root)) items)
     (io_return (cache_dir lock cache_root)))"

definition populate_kubernetes_upgrade_artifacts :: "services \<Rightarrow> pydict \<Rightarrow> path \<Rightarrow> path io" where
  "populate_kubernetes_upgrade_artifacts srv lock cache_root =
     io_bind (io_lift (kubernetes_upgrade_inventory lock)) (\<lambda>items.
     io_then (io_foreach (\<lambda>item. download srv item (cache_dir lock cache_root)) items)
     (io_return (cache_dir lock cache_root)))"

section \<open>Pruning\<close>

definition prune :: "pydict \<Rightarrow> path \<Rightarrow> path list io" where
  "prune lock cache_root =
     (let locks = cache_root @ [''locks''] in
      io_bind (io_get (\<lambda>fs. if is_dir fs locks
          then filter (\<lambda>c. is_dir fs c \<and> path_name c \<noteq> lock_digest lock)
            (map (\<lambda>n. locks @ [n]) (child_names fs locks))
          else [])) (\<lambda>stale.
      io_then (io_foreach (\<lambda>c. io_do (rmtree c)) stale) (io_return stale)))"

section \<open>What an accepted OCI layout is\<close>

definition json_doc :: "string \<Rightarrow> pyval option" where
  "json_doc content = (case utf8_decode content of None \<Rightarrow> None
     | Some t \<Rightarrow> (case loads t of Inr v \<Rightarrow> Some v | Inl _ \<Rightarrow> None))"

text \<open>\<open>blob_in T d c\<close>: the tree holds content \<open>c\<close> under digest \<open>d\<close>, and \<open>c\<close> has that digest.\<close>

definition blob_in :: "(path \<Rightarrow> node option) \<Rightarrow> string \<Rightarrow> string \<Rightarrow> bool" where
  "blob_in T d c \<longleftrightarrow> prefix ''sha256:'' d \<and> is_sha256 (drop 7 d)
     \<and> T [''blobs'', ''sha256'', drop 7 d] = Some (File c) \<and> sha256_hex c = drop 7 d"

definition config_spec :: "image_item \<Rightarrow> (path \<Rightarrow> node option) \<Rightarrow> pydict \<Rightarrow> bool" where
  "config_spec item T m \<longleftrightarrow> (\<exists>cfg dg cb v layers.
     dget m ''config'' = VDict cfg \<and> dget cfg ''digest'' = VStr dg \<and> blob_in T dg cb
     \<and> iter_val (dget_or m ''layers'' (VList [])) = Inr layers
     \<and> (\<forall>l \<in> set layers. \<exists>ld lg c. l = VDict ld \<and> dget ld ''digest'' = VStr lg \<and> blob_in T lg c)
     \<and> json_doc cb = Some v
     \<and> (\<forall>cd. v = VDict cd \<longrightarrow>
          py_str (dget cd ''os'') @ ''/'' @ py_str (dget cd ''architecture'') = img_platform item))"

definition index_spec :: "image_item \<Rightarrow> (path \<Rightarrow> node option) \<Rightarrow> pydict \<Rightarrow> bool" where
  "index_spec item T idx \<longleftrightarrow> (\<exists>desc mb v. dget idx ''manifests'' = VList [VDict desc]
     \<and> dget desc ''digest'' = VStr (img_manifest item) \<and> blob_in T (img_manifest item) mb
     \<and> json_doc mb = Some v \<and> (\<forall>m. v = VDict m \<longrightarrow> config_spec item T m))"

definition layout_spec :: "image_item \<Rightarrow> (path \<Rightarrow> node option) \<Rightarrow> bool" where
  "layout_spec item T \<longleftrightarrow>
     (\<exists>c v. T [''oci-layout''] = Some (File c) \<and> json_doc c = Some v \<and> py_eq v layout_marker)
     \<and> (\<exists>c v. T [''index.json''] = Some (File c) \<and> json_doc c = Some v
          \<and> (\<forall>idx. v = VDict idx \<longrightarrow> index_spec item T idx))"

lemma read_json_ok:
  "read_json fs p d = Inr (v, []) \<longleftrightarrow>
     (\<exists>c. lookup fs p = Some (File c) \<and> json_doc c = Some v)"
proof (cases "\<exists>c. lookup fs p = Some (File c)")
  case True
  then obtain c where c: "lookup fs p = Some (File c)" by blast
  show ?thesis
  proof (cases "utf8_decode c")
    case None
    then show ?thesis using c
      by (simp add: read_json_def read_text_def read_bytes_def json_doc_def is_os_error_def)
  next
    case (Some t)
    then show ?thesis using c
      by (cases "loads t") (auto simp: read_json_def read_text_def read_bytes_def json_doc_def)
  qed
next
  case False
  then have "\<exists>e. read_bytes fs p = Inl e"
    by (auto simp: read_bytes_def path_error_def split: option.splits node.splits)
  then show ?thesis using False by (auto simp: read_json_def read_text_def split: if_splits)
qed

lemma is_file_read: "is_file fs p \<Longrightarrow> \<exists>c. lookup fs p = Some (File c) \<and> read_bytes fs p = Inr c"
  by (auto simp: is_file_iff read_bytes_def)

lemma validate_blob_ok:
  "validate_blob fs dir dg desc = Inr (x, []) \<longleftrightarrow>
     (\<exists>d c. dg = VStr d \<and> blob_in (\<lambda>q. lookup fs (dir @ q)) d c
        \<and> x = Some (dir @ [''blobs'', ''sha256'', drop 7 d]))"
proof (cases dg)
  case (VStr d)
  let ?b = "dir @ [''blobs'', ''sha256'', drop 7 d]"
  show ?thesis
  proof (cases "is_file fs ?b")
    case True
    then obtain c where "lookup fs ?b = Some (File c)" "read_bytes fs ?b = Inr c"
      using is_file_read by blast
    then show ?thesis using VStr True
      by (auto simp: validate_blob_def blob_in_def Let_def sha256_file_def)
  next
    case False
    then show ?thesis using VStr by (auto simp: validate_blob_def blob_in_def Let_def is_file_iff)
  qed
qed (auto simp: validate_blob_def)

lemma validate_layer_ok:
  "validate_layer fs dir i (n, l) = Inr [] \<longleftrightarrow>
     (\<exists>ld lg c. l = VDict ld \<and> dget ld ''digest'' = VStr lg \<and> blob_in (\<lambda>q. lookup fs (dir @ q)) lg c)"
proof (cases l)
  case (VDict ld)
  then show ?thesis
    using validate_blob_ok [of fs dir "dget ld ''digest''"]
    by (auto simp: validate_layer_def split: prod.splits)
qed (auto simp: validate_layer_def)

lemma rmap_concat_nil:
  "(\<exists>ps. rmap f xs = Inr ps \<and> concat ps = []) \<longleftrightarrow> (\<forall>x \<in> set xs. f x = Inr [])"
proof (induction xs)
  case (Cons x xs)
  then show ?case by fastforce
qed simp

lemma enumerate_all:
  "(\<forall>ix \<in> set (enumerate n xs). P (snd ix)) \<longleftrightarrow> (\<forall>x \<in> set xs. P x)"
  by (induction xs arbitrary: n) auto

lemma layers_ok:
  "(\<exists>ps. rmap (validate_layer fs dir i) (enumerate 0 layers) = Inr ps \<and> concat ps = []) \<longleftrightarrow>
     (\<forall>l \<in> set layers. \<exists>ld lg c. l = VDict ld \<and> dget ld ''digest'' = VStr lg
        \<and> blob_in (\<lambda>q. lookup fs (dir @ q)) lg c)"
proof -
  have "validate_layer fs dir i ix = Inr [] \<longleftrightarrow> (\<exists>ld lg c. snd ix = VDict ld
      \<and> dget ld ''digest'' = VStr lg \<and> blob_in (\<lambda>q. lookup fs (dir @ q)) lg c)" for ix
    by (cases ix) (simp add: validate_layer_ok)
  then show ?thesis
    using enumerate_all [of 0 layers "\<lambda>l. \<exists>ld lg c. l = VDict ld \<and> dget ld ''digest'' = VStr lg
      \<and> blob_in (\<lambda>q. lookup fs (dir @ q)) lg c"] unfolding rmap_concat_nil by simp
qed

lemma validate_config_ok:
  "validate_config fs item dir m = Inr [] \<longleftrightarrow> config_spec item (\<lambda>q. lookup fs (dir @ q)) m"
proof (cases "\<exists>cfg cp. dget m ''config'' = VDict cfg
    \<and> validate_blob fs dir (dget cfg ''digest'') (''config '' @ img_id item) = Inr (Some cp, [])
    \<and> is_ok (iter_val (dget_or m ''layers'' (VList [])))")
  case True
  then obtain cfg cp layers where cfg: "dget m ''config'' = VDict cfg"
    "validate_blob fs dir (dget cfg ''digest'') (''config '' @ img_id item) = Inr (Some cp, [])"
    "iter_val (dget_or m ''layers'' (VList [])) = Inr layers"
    by (auto simp: is_ok_conv)
  from cfg(2) obtain dg cb where dg: "dget cfg ''digest'' = VStr dg"
    "blob_in (\<lambda>q. lookup fs (dir @ q)) dg cb" "cp = dir @ [''blobs'', ''sha256'', drop 7 dg]"
    by (auto simp: validate_blob_ok)
  have cb: "lookup fs cp = Some (File cb)" using dg by (simp add: blob_in_def)
  show ?thesis
  proof (cases "\<exists>v. json_doc cb = Some v")
    case True
    then obtain v where v: "json_doc cb = Some v" by blast
    then have r: "read_json fs cp (''OCI config for '' @ img_id item) = Inr (v, [])"
      using cb by (simp add: read_json_ok)
    have "validate_config fs item dir m = Inr [] \<longleftrightarrow>
        (\<exists>ps. rmap (validate_layer fs dir (img_id item)) (enumerate 0 layers) = Inr ps \<and> concat ps = [])
        \<and> (\<forall>cd. v = VDict cd \<longrightarrow>
             py_str (dget cd ''os'') @ ''/'' @ py_str (dget cd ''architecture'') = img_platform item)"
      using cfg r by (cases v) (auto simp: validate_config_def Let_def)
    also have "\<dots> \<longleftrightarrow> config_spec item (\<lambda>q. lookup fs (dir @ q)) m"
      unfolding layers_ok using cfg dg v cb by (auto simp: config_spec_def blob_in_def)
    finally show ?thesis .
  next
    case False
    then have "read_json fs cp (''OCI config for '' @ img_id item) \<noteq> Inr (v, [])" for v
      using cb by (simp add: read_json_ok)
    then have "validate_config fs item dir m \<noteq> Inr []"
      using cfg by (auto simp: validate_config_def Let_def split: pyval.splits)
    moreover have "\<not> config_spec item (\<lambda>q. lookup fs (dir @ q)) m"
      using False cfg dg cb by (auto simp: config_spec_def blob_in_def)
    ultimately show ?thesis by blast
  qed
next
  case False
  have "validate_config fs item dir m \<noteq> Inr []"
    using False validate_blob_ok
    by (auto simp: validate_config_def Let_def is_ok_conv split: pyval.splits option.splits)
  moreover have "\<not> config_spec item (\<lambda>q. lookup fs (dir @ q)) m"
    using False by (fastforce simp: config_spec_def validate_blob_ok)
  ultimately show ?thesis by blast
qed

lemma validate_index_ok:
  "validate_index fs item dir idx = Inr [] \<longleftrightarrow> index_spec item (\<lambda>q. lookup fs (dir @ q)) idx"
proof (cases "\<exists>desc. dget idx ''manifests'' = VList [VDict desc]
    \<and> dget desc ''digest'' = VStr (img_manifest item)
    \<and> (\<exists>mp. validate_blob fs dir (VStr (img_manifest item)) (''manifest '' @ img_id item) = Inr (Some mp, []))")
  case True
  then obtain desc mp mb where d: "dget idx ''manifests'' = VList [VDict desc]"
    "dget desc ''digest'' = VStr (img_manifest item)"
    "validate_blob fs dir (VStr (img_manifest item)) (''manifest '' @ img_id item) = Inr (Some mp, [])"
    "blob_in (\<lambda>q. lookup fs (dir @ q)) (img_manifest item) mb"
    "mp = dir @ [''blobs'', ''sha256'', drop 7 (img_manifest item)]"
    by (auto simp: validate_blob_ok)
  have mb: "lookup fs mp = Some (File mb)" using d by (simp add: blob_in_def)
  show ?thesis
  proof (cases "\<exists>v. json_doc mb = Some v")
    case True
    then obtain v where v: "json_doc mb = Some v" by blast
    then have r: "read_json fs mp (''OCI manifest for '' @ img_id item) = Inr (v, [])"
      using mb by (simp add: read_json_ok)
    have "validate_index fs item dir idx = Inr [] \<longleftrightarrow>
        (\<forall>m. v = VDict m \<longrightarrow> config_spec item (\<lambda>q. lookup fs (dir @ q)) m)"
      using d r by (cases v) (auto simp: validate_index_def Let_def validate_config_ok)
    also have "\<dots> \<longleftrightarrow> index_spec item (\<lambda>q. lookup fs (dir @ q)) idx"
      using d v mb by (auto simp: index_spec_def blob_in_def)
    finally show ?thesis .
  next
    case False
    then have "read_json fs mp (''OCI manifest for '' @ img_id item) \<noteq> Inr (v, [])" for v
      using mb by (simp add: read_json_ok)
    then have "validate_index fs item dir idx \<noteq> Inr []"
      using d by (auto simp: validate_index_def Let_def split: pyval.splits)
    moreover have "\<not> index_spec item (\<lambda>q. lookup fs (dir @ q)) idx"
      using False d mb by (auto simp: index_spec_def blob_in_def)
    ultimately show ?thesis by blast
  qed
next
  case False
  have "validate_index fs item dir idx \<noteq> Inr []"
    using False validate_blob_ok
    by (auto simp: validate_index_def Let_def split: pyval.splits list.splits option.splits if_splits)
  moreover have "\<not> index_spec item (\<lambda>q. lookup fs (dir @ q)) idx"
    using False by (fastforce simp: index_spec_def validate_blob_ok)
  ultimately show ?thesis by blast
qed

lemma validate_oci_layout_ok:
  "validate_oci_layout item dir fs = Inr [] \<longleftrightarrow> layout_spec item (\<lambda>q. lookup fs (dir @ q))"
proof -
  have idx: "(case v of VDict idx \<Rightarrow> rbind (validate_index fs item dir idx) (\<lambda>p4. Inr (ps @ p4))
      | _ \<Rightarrow> Inr ps) = Inr [] \<longleftrightarrow> ps = [] \<and> (\<forall>idx. v = VDict idx \<longrightarrow>
        index_spec item (\<lambda>q. lookup fs (dir @ q)) idx)" for v ps
    by (cases v) (auto simp: validate_index_ok)
  have "validate_oci_layout item dir fs = Inr [] \<longleftrightarrow>
      (\<exists>v1. read_json fs (dir @ [''oci-layout'']) (''OCI layout marker for '' @ img_id item) = Inr (v1, [])
         \<and> py_eq v1 layout_marker)
      \<and> (\<exists>v2. read_json fs (dir @ [''index.json'']) (''OCI index for '' @ img_id item) = Inr (v2, [])
         \<and> (\<forall>idx. v2 = VDict idx \<longrightarrow> index_spec item (\<lambda>q. lookup fs (dir @ q)) idx))"
    unfolding validate_oci_layout_def Let_def append_assoc [symmetric]
    by (auto simp: idx split: if_splits)
  then show ?thesis unfolding layout_spec_def read_json_ok by blast
qed


end
