(* ===== verification/Host_Agent.thy ===== *)
theory Host_Agent
  imports Cache
begin

text \<open>
  The installer of the host agent (\<open>scripts/host_agent.py\<close>): the key material it creates, the
  staging of images and firmware with their manifest, the verification of what was staged, the
  unit file and the commands. External commands, the environment, the discovered address
  (\<open>agent_address\<close>, which inspects a container network) and the YAML reader are the fields of
  \<open>agent_env\<close>. Modes and owners are not part of the store, so \<open>chmod\<close> leaves it unchanged.
\<close>

section \<open>Environment\<close>

text \<open>
  \<open>ag_command\<close> runs an external command, which may change the store; \<open>ag_expand\<close> is
  \<open>Path.expanduser\<close>, which consults the user database; \<open>ag_owns\<close> says whether the user owns a
  path that was there before.
\<close>

record agent_env =
  ag_cwd :: path
  ag_home :: path
  ag_uid :: nat
  ag_environ :: "string \<Rightarrow> string option"
  ag_expand :: "string \<Rightarrow> string"
  ag_command :: "string list \<Rightarrow> fs \<Rightarrow> proc_result \<times> fs"
  ag_which :: "string \<Rightarrow> string option"
  ag_owns :: "path \<Rightarrow> bool"
  ag_address :: "string io"
  ag_safe_load :: "string \<Rightarrow> pyval res"

definition IMAGE_ID :: string where "IMAGE_ID = ''cluster-api-hypervisor''"
definition SERVICE_NAME :: string where "SERVICE_NAME = ''k8labs-hypervisor-agent''"
definition LISTEN_PORT :: nat where "LISTEN_PORT = 9444"
definition MANAGER_IDENTITY :: string where "MANAGER_IDENTITY = ''spiffe://k8labs/provider/manager''"
definition SERVER_NAME :: string where "SERVER_NAME = ''hypervisor-agent''"
definition API_SOCKET_ROOT :: path where "API_SOCKET_ROOT = [''tmp'', ''ch-capi'']"

definition agent_exec :: "agent_env \<Rightarrow> string list \<Rightarrow> string io" where
  "agent_exec env command fs = (case ag_command env command fs of
     (CommandNotFound, fs') \<Rightarrow> (raise FileNotFoundError (hd command), fs')
   | (Exited status out err, fs') \<Rightarrow>
       (if status = 0 then Inr out else raise CalledProcessError (hd command), fs'))"

definition agent_run :: "agent_env \<Rightarrow> string list \<Rightarrow> unit io" where
  "agent_run env command = io_bind (agent_exec env command) (\<lambda>_. io_return ())"

definition run_output :: "agent_env \<Rightarrow> string list \<Rightarrow> string io" where
  "run_output env command = io_bind (agent_exec env command) (\<lambda>out. io_return (strip out))"

section \<open>Paths\<close>

text \<open>\<open>Path(s).resolve()\<close>\<close>

definition resolve :: "agent_env \<Rightarrow> string \<Rightarrow> path" where
  "resolve env s = resolve_parts (path_join (ag_cwd env) s)"

text \<open>\<open>Path(s).is_file()\<close> by the kernel's walk: an upward step needs a directory to leave.\<close>

fun walks :: "fs \<Rightarrow> path \<Rightarrow> string list \<Rightarrow> bool" where
  "walks fs p [] \<longleftrightarrow> True"
| "walks fs p (c # cs) \<longleftrightarrow> (c = ''..'' \<longrightarrow> is_dir fs p) \<and> walks fs (step_part p c) cs"

definition text_is_file :: "agent_env \<Rightarrow> fs \<Rightarrow> string \<Rightarrow> bool" where
  "text_is_file env fs s \<longleftrightarrow> walks fs [] (path_join (ag_cwd env) s) \<and> is_file fs (resolve env s)"

text \<open>\<open>path.suffix\<close> and \<open>path.with_suffix(suffix)\<close>.\<close>

definition path_suffix :: "path \<Rightarrow> string" where
  "path_suffix p = (case last_split ''.'' (path_name p) of
     Some (stem, ext) \<Rightarrow> if stem \<noteq> [] \<and> ext \<noteq> [] then ''.'' @ ext else []
   | None \<Rightarrow> [])"

definition with_suffix :: "path \<Rightarrow> string \<Rightarrow> path" where
  "with_suffix p sfx =
     with_name p (take (length (path_name p) - length (path_suffix p)) (path_name p) @ sfx)"

text \<open>\<open>path.unlink()\<close>, which raises when nothing is there.\<close>

definition unlink_present :: "path \<Rightarrow> fs \<Rightarrow> fs res" where
  "unlink_present p fs = (if path_exists fs p then unlink p fs else path_error fs p)"

definition config_root :: "agent_env \<Rightarrow> string \<Rightarrow> path res" where
  "config_root env argument =
     (let base = resolve env (ag_expand env argument) in
      require (base \<noteq> butlast base) ValueError
        ''HostAgent configuration directory must not be the filesystem root'' (Inr base))"

definition require_regular :: "path \<Rightarrow> string \<Rightarrow> unit io" where
  "require_regular p description = io_read (\<lambda>fs. require (is_file fs p) SystemExit
     (''ERROR: '' @ description @ '' is not a regular file: '' @ path_text p) (Inr ()))"

definition require_regular_text :: "agent_env \<Rightarrow> string \<Rightarrow> string \<Rightarrow> unit io" where
  "require_regular_text env p description = io_read (\<lambda>fs. require (text_is_file env fs p) SystemExit
     (''ERROR: '' @ description @ '' is not a regular file: '' @ p) (Inr ()))"

definition ensure_api_socket_root :: "agent_env \<Rightarrow> unit io" where
  "ensure_api_socket_root env =
     io_bind (io_get (\<lambda>fs. path_exists fs API_SOCKET_ROOT)) (\<lambda>present.
     io_then (if present then io_return () else io_do (mkdir_new API_SOCKET_ROOT))
     (io_read (\<lambda>fs. require (is_dir fs API_SOCKET_ROOT \<and> (present \<longrightarrow> ag_owns env API_SOCKET_ROOT)) SystemExit
       (''ERROR: HostAgent API socket root is not an owned directory: '' @ path_text API_SOCKET_ROOT) (Inr ()))))"

definition locked_image :: "pydict \<Rightarrow> string res" where
  "locked_image lock =
     rbind (ditem lock ''oci_images'') (\<lambda>v. rbind (iter_val v) (\<lambda>images.
     rbind (rfold (\<lambda>found image. case found of Some _ \<Rightarrow> Inr found | None \<Rightarrow>
         as_dict image TypeError ''string indices must be integers'' (\<lambda>d.
         rbind (ditem d ''id'') (\<lambda>i. if i = VStr IMAGE_ID
           then rbind (ditem d ''reference'') (\<lambda>r. Inr (Some (py_str r))) else Inr None)))
       None images) (\<lambda>found.
     as_some found SystemExit (''ERROR: lock has no OCI image named '' @ IMAGE_ID) Inr)))"

section \<open>Certificates and keys\<close>

definition ensure_pair :: "path \<Rightarrow> path \<Rightarrow> string \<Rightarrow> bool io" where
  "ensure_pair key certificate description = io_read (\<lambda>fs.
     require (is_file fs key = is_file fs certificate) SystemExit
       (''ERROR: incomplete HostAgent '' @ description @ '' certificate state; remove both files and reinstall'')
       (Inr (is_file fs key)))"

definition certificate_has_san :: "agent_env \<Rightarrow> path \<Rightarrow> string \<Rightarrow> bool io" where
  "certificate_has_san env certificate san =
     io_bind (run_output env [''openssl'', ''x509'', ''-in'', path_text certificate, ''-noout'', ''-ext'', ''subjectAltName''])
       (\<lambda>out. io_return (str_in san out))"

text \<open>The key, the request signed by the authority, and the removal of the intermediate files.\<close>

definition signed_certificate :: "agent_env \<Rightarrow> path \<Rightarrow> path \<Rightarrow> path \<Rightarrow> path \<Rightarrow> string \<Rightarrow> string \<Rightarrow> unit io" where
  "signed_certificate env ca_key ca_cert key cert subject extension_text =
     (let csr = with_suffix key ''.csr''; extension = with_suffix key ''.ext'' in
      io_then (write_text extension extension_text)
     (io_then (agent_run env [''openssl'', ''genrsa'', ''-out'', path_text key, ''2048''])
     (io_then (agent_run env [''openssl'', ''req'', ''-new'', ''-key'', path_text key, ''-subj'', subject, ''-out'', path_text csr])
     (io_then (agent_run env [''openssl'', ''x509'', ''-req'', ''-in'', path_text csr, ''-CA'', path_text ca_cert,
        ''-CAkey'', path_text ca_key, ''-CAcreateserial'', ''-out'', path_text cert,
        ''-days'', ''365'', ''-sha256'', ''-extfile'', path_text extension])
     (io_then (io_do (unlink_present csr)) (io_do (unlink_present extension)))))))"

definition create_server_certificate :: "agent_env \<Rightarrow> path \<Rightarrow> path \<Rightarrow> path \<Rightarrow> path \<Rightarrow> string \<Rightarrow> unit io" where
  "create_server_certificate env ca_key ca_cert server_key server_cert address =
     signed_certificate env ca_key ca_cert server_key server_cert (''/CN='' @ SERVER_NAME)
       (''subjectAltName=DNS:'' @ SERVER_NAME @ '',IP:'' @ address @ nl @ ''extendedKeyUsage=serverAuth'' @ nl)"

definition create_manager_certificate :: "agent_env \<Rightarrow> path \<Rightarrow> path \<Rightarrow> path \<Rightarrow> path \<Rightarrow> unit io" where
  "create_manager_certificate env ca_key ca_cert manager_key manager_cert =
     signed_certificate env ca_key ca_cert manager_key manager_cert ''/CN=k8labs-provider-manager''
       (''subjectAltName=URI:'' @ MANAGER_IDENTITY @ nl @ ''extendedKeyUsage=clientAuth'' @ nl)"

definition create_authority :: "agent_env \<Rightarrow> path \<Rightarrow> path \<Rightarrow> unit io" where
  "create_authority env ca_key ca_cert =
     io_then (agent_run env [''openssl'', ''genrsa'', ''-out'', path_text ca_key, ''4096''])
       (agent_run env [''openssl'', ''req'', ''-x509'', ''-new'', ''-nodes'', ''-key'', path_text ca_key,
          ''-sha256'', ''-days'', ''365'', ''-subj'', ''/CN=k8labs-host-agent-ca'', ''-out'', path_text ca_cert])"

text \<open>An existing pair is kept when its certificate names what it must; otherwise it is made anew.\<close>

definition renew_pair :: "agent_env \<Rightarrow> path \<Rightarrow> path \<Rightarrow> bool \<Rightarrow> string \<Rightarrow> unit io \<Rightarrow> unit io" where
  "renew_pair env key cert pair_exists san create =
     io_bind (if pair_exists then certificate_has_san env cert san else io_return False) (\<lambda>good.
     if good then io_return ()
     else io_then (if pair_exists then io_then (io_do (unlink_present key)) (io_do (unlink_present cert))
            else io_return ()) create)"

text \<open>\<open>private_path\<close> raises when the key is not there; the mode itself is not modelled.\<close>

definition private_path :: "path \<Rightarrow> unit io" where
  "private_path p = io_read (\<lambda>fs. if path_exists fs p then Inr () else path_error fs p)"

definition ensure_certificates :: "agent_env \<Rightarrow> path \<Rightarrow> string \<Rightarrow> unit io" where
  "ensure_certificates env base address =
     (let tls = base @ [''tls'']; ca_key = tls @ [''ca.key'']; ca_cert = tls @ [''ca.crt''];
          server_key = tls @ [''server.key'']; server_cert = tls @ [''server.crt''];
          manager_key = tls @ [''manager.key'']; manager_cert = tls @ [''manager.crt''] in
      io_then (io_do (mkdir_p tls))
     (io_bind (ensure_pair ca_key ca_cert ''CA'') (\<lambda>ca_exists.
      io_bind (ensure_pair server_key server_cert ''server'') (\<lambda>server_exists.
      io_bind (ensure_pair manager_key manager_cert ''manager'') (\<lambda>manager_exists.
      io_then (if ca_exists then io_return () else create_authority env ca_key ca_cert)
     (io_then (renew_pair env server_key server_cert server_exists (''IP Address:'' @ address)
        (create_server_certificate env ca_key ca_cert server_key server_cert address))
     (io_then (renew_pair env manager_key manager_cert manager_exists MANAGER_IDENTITY
        (create_manager_certificate env ca_key ca_cert manager_key manager_cert))
     (io_foreach private_path [ca_key, server_key, manager_key]))))))))"

definition ensure_ssh_key :: "agent_env \<Rightarrow> path \<Rightarrow> path io" where
  "ensure_ssh_key env base =
     (let directory = base @ [''ssh'']; private_key = directory @ [''id_ed25519'']; public_key = directory @ [''id_ed25519.pub''] in
      io_then (io_do (mkdir_p directory))
     (io_bind (io_read (\<lambda>fs. require (is_file fs private_key = is_file fs public_key) SystemExit
        ''ERROR: incomplete HostAgent SSH key state; remove both files and reinstall'' (Inr (is_file fs private_key)))) (\<lambda>present.
      io_then (if present then io_return ()
        else agent_run env [''ssh-keygen'', ''-q'', ''-t'', ''ed25519'', ''-N'', [], ''-C'', ''k8labs-host-agent'', ''-f'', path_text private_key])
     (io_then (private_path private_key) (io_return public_key)))))"

section \<open>Staging\<close>

definition image_reference :: "string \<Rightarrow> string" where
  "image_reference name = ''/host-state/images/'' @ name"

definition build_dir :: "agent_env \<Rightarrow> path" where
  "build_dir env = ag_cwd env @ [''build'']"

definition discover_source_images :: "agent_env \<Rightarrow> fs \<Rightarrow> path list" where
  "discover_source_images env fs =
     (if \<not> is_dir fs (build_dir env) then []
      else map (\<lambda>n. build_dir env @ [n]) (filter (\<lambda>n. n \<noteq> ''fedora-cloud-base.qcow2'')
        (sort (filter (suffix ''.qcow2'') (child_names fs (build_dir env))))))"

text \<open>\<open>shutil.copyfile\<close> to a temporary name beside the target, then the rename.\<close>

definition stage_temp :: "path \<Rightarrow> path" where
  "stage_temp target = with_suffix target (path_suffix target @ ''.tmp'')"

definition stage_file :: "path \<times> path \<Rightarrow> unit io" where
  "stage_file st = (case st of (source, target) \<Rightarrow>
     io_bind (io_read (\<lambda>fs. read_bytes fs source)) (\<lambda>content.
     io_then (io_do (write_bytes (stage_temp target) content))
       (io_do (os_replace (stage_temp target) target))))"

definition staged_entry :: "path \<Rightarrow> string \<Rightarrow> pyval" where
  "staged_entry target digest = VDict [(''path'', VStr (path_text target)), (''sha256'', VStr digest)]"

text \<open>The manifest of the staged targets, hashed where they are now.\<close>

definition staged_manifest :: "(path \<times> path) list \<Rightarrow> path \<Rightarrow> fs \<Rightarrow> pyval res" where
  "staged_manifest images firmware fs =
     rbind (rmap (\<lambda>(source, target). rbind (sha256_file fs target) (\<lambda>h.
       Inr (image_reference (path_name source), staged_entry target h))) images) (\<lambda>entries.
     rbind (sha256_file fs firmware) (\<lambda>h.
     Inr (VDict [(''images'', VDict entries), (''firmware'', staged_entry firmware h)])))"

record staged_paths =
  sp_state :: path
  sp_images :: path
  sp_firmware :: path
  sp_vms :: path
  sp_manifest :: path

definition write_manifest :: "path \<Rightarrow> pyval \<Rightarrow> unit io" where
  "write_manifest manifest_path manifest =
     io_then (write_text (with_suffix manifest_path ''.tmp'') (dumps default_style (sort_keys manifest) @ nl))
       (io_do (os_replace (with_suffix manifest_path ''.tmp'') manifest_path))"

text \<open>The sources have pairwise different names, so the dictionary of targets is a list of pairs.\<close>

definition stage_targets :: "path \<Rightarrow> path list \<Rightarrow> (path \<times> path) list" where
  "stage_targets images sources = map (\<lambda>s. (s, images @ [path_name s])) sources"

definition stage_artifacts :: "agent_env \<Rightarrow> path \<Rightarrow> staged_paths io" where
  "stage_artifacts env base =
     (let source_firmware = build_dir env @ [''CLOUDHV.fd'']; state = base @ [''state''];
          images = state @ [''images'']; firmware = state @ [''firmware'']; vms = state @ [''vms''];
          manifest_path = state @ [''manifest.json''] in
      io_bind (io_get (discover_source_images env)) (\<lambda>source_images.
      io_then (io_lift (require (source_images \<noteq> []) SystemExit ''ERROR: no baked QCOW2 images found under build/'' (Inr ())))
     (io_then (require_regular source_firmware ''firmware'')
     (io_then (io_foreach (\<lambda>s. require_regular s ''baked base image'') source_images)
     (io_then (io_foreach (\<lambda>d. io_do (mkdir_p d)) [images, firmware, vms])
     (io_then (io_foreach stage_file
        (stage_targets images source_images @ [(source_firmware, firmware @ [path_name source_firmware])]))
     (io_bind (io_read (staged_manifest (stage_targets images source_images) (firmware @ [path_name source_firmware]))) (\<lambda>manifest.
      io_then (write_manifest manifest_path manifest)
     (io_return \<lparr> sp_state = state, sp_images = images, sp_firmware = firmware, sp_vms = vms,
        sp_manifest = manifest_path \<rparr>)))))))))"

definition staged_problems :: "agent_env \<Rightarrow> fs \<Rightarrow> string \<times> pyval \<Rightarrow> string list res" where
  "staged_problems env fs kv = (case kv of (key, entry) \<Rightarrow> (case entry of
     VDict value \<Rightarrow>
       (let p = dget value ''path''; expected = dget value ''sha256'' in
        case p of
          VStr s \<Rightarrow>
            if \<not> text_is_file env fs s then Inr [''missing staged image for '' @ key @ '': '' @ s]
            else (case expected of
                VStr e \<Rightarrow> rbind (sha256_file fs (resolve env s)) (\<lambda>h. Inr (if h \<noteq> e
                  then [''staged image hash mismatch for '' @ key @ '': '' @ s] else []))
              | _ \<Rightarrow> Inr [''staged image hash mismatch for '' @ key @ '': '' @ s])
        | _ \<Rightarrow> Inr [''missing staged image for '' @ key @ '': '' @ py_str p])
   | _ \<Rightarrow> Inr [''invalid staged image entry: '' @ key]))"

definition verify_staged_artifacts :: "agent_env \<Rightarrow> path \<Rightarrow> fs \<Rightarrow> string list res" where
  "verify_staged_artifacts env base fs =
     (let manifest_path = base @ [''state'', ''manifest.json''] in
      if \<not> is_file fs manifest_path then Inr [''missing staged artifact manifest: '' @ path_text manifest_path]
      else (case rbind (read_text fs manifest_path) loads of
          Inl e \<Rightarrow> if exn_of e = JSONDecodeError \<or> is_os_error (exn_of e)
            then Inr [''invalid staged artifact manifest: '' @ msg_of e] else Inl e
        | Inr v \<Rightarrow>
            as_dict v AttributeError ''object has no attribute get'' (\<lambda>manifest.
            case dget manifest ''images'' of
              VDict images \<Rightarrow> rbind (rmap (staged_problems env fs) images) (\<lambda>ps. Inr (concat ps))
            | _ \<Rightarrow> Inr [''staged artifact manifest has no images mapping''])))"


section \<open>The unit file\<close>

definition xdg_config :: "agent_env \<Rightarrow> path" where
  "xdg_config env = (case ag_environ env ''XDG_CONFIG_HOME'' of
     Some s \<Rightarrow> path_join (ag_cwd env) s | None \<Rightarrow> ag_home env @ [''.config''])"

definition runtime_dir :: "agent_env \<Rightarrow> path" where
  "runtime_dir env = (case ag_environ env ''XDG_RUNTIME_DIR'' of
     Some s \<Rightarrow> path_join (ag_cwd env) s | None \<Rightarrow> [''run'', ''user'', show_nat (ag_uid env)])"

definition volume :: "string \<Rightarrow> string \<Rightarrow> string \<Rightarrow> string" where
  "volume outside inside mode = ''Volume='' @ outside @ '':'' @ inside @ '':'' @ mode @ nl"

definition quadlet_text ::
  "agent_env \<Rightarrow> path \<Rightarrow> string \<Rightarrow> string \<Rightarrow> staged_paths \<Rightarrow> string \<Rightarrow> string" where
  "quadlet_text env base image_ref address paths cloud_hypervisor =
     (let tls = base @ [''tls'']; dbus = path_text (runtime_dir env @ [''bus'']); k8netd = path_text (runtime_dir env @ [''k8snet'']);
          units = path_text (xdg_config env @ [''systemd'', ''user'']); state = path_text (sp_state paths);
          images = path_text (sp_images paths); firmware = path_text (sp_firmware paths);
          vms = path_text (sp_vms paths); manifest = path_text (sp_manifest paths); socket = path_text API_SOCKET_ROOT in
      ''[Unit]'' @ nl @ ''Description=k8labs Hypervisor HostAgent'' @ nl
      @ ''After=network-online.target'' @ nl @ ''Wants=network-online.target'' @ nl @ nl
      @ ''[Container]'' @ nl @ ''Image='' @ image_ref @ nl @ ''Pull=never'' @ nl @ ''Network=kind'' @ nl
      @ ''IP='' @ address @ nl @ ''Entrypoint=/usr/local/bin/hypervisor-agent'' @ nl @ ''User=0'' @ nl
      @ volume (path_text (tls @ [''server.crt''])) ''/tls/server/tls.crt'' ''ro''
      @ volume (path_text (tls @ [''server.key''])) ''/tls/server/tls.key'' ''ro''
      @ volume (path_text (tls @ [''ca.crt''])) ''/tls/ca/ca.crt'' ''ro''
      @ volume state ''/state'' ''rw'' @ volume images ''/state/images'' ''ro''
      @ volume firmware ''/state/firmware'' ''ro'' @ volume manifest ''/state/manifest.json'' ''ro''
      @ volume ''/dev/kvm'' ''/dev/kvm'' ''rw'' @ volume dbus dbus ''rw'' @ volume k8netd k8netd ''rw''
      @ volume socket socket ''rw'' @ volume state state ''ro'' @ volume vms vms ''rw'' @ volume units units ''rw''
      @ ''ReadOnly=true'' @ nl @ ''NoNewPrivileges=true'' @ nl @ ''DropCapability=all'' @ nl @ ''SecurityLabelDisable=false'' @ nl
      @ ''Exec=--listen=0.0.0.0:'' @ show_nat LISTEN_PORT @ '' --node-id=k8labs-host ''
      @ ''--tls-cert-dir=/tls/server --client-ca=/tls/ca/ca.crt '' @ ''--inventory=/state/inventory.db ''
      @ ''--user-dbus-address=unix:path='' @ dbus @ '' --kvm=/dev/kvm ''
      @ ''--k8netd-socket='' @ path_text (runtime_dir env @ [''k8snet'', ''control.sock'']) @ '' ''
      @ ''--artifact-root='' @ vms @ '' '' @ ''--base-image-root='' @ images @ '' ''
      @ ''--firmware-root='' @ firmware @ '' '' @ ''--artifact-manifest='' @ manifest @ '' ''
      @ ''--unit-dir='' @ units @ '' '' @ ''--cloud-hypervisor='' @ cloud_hypervisor @ nl @ nl
      @ ''[Service]'' @ nl @ ''Restart=always'' @ nl @ ''RestartSec=3'' @ nl @ nl
      @ ''[Install]'' @ nl @ ''WantedBy=default.target'' @ nl)"

definition write_quadlet :: "agent_env \<Rightarrow> path \<Rightarrow> string \<Rightarrow> string \<Rightarrow> staged_paths \<Rightarrow> path io" where
  "write_quadlet env base image_ref address paths =
     (let unit_dir = xdg_config env @ [''containers'', ''systemd'']; unit_file = unit_dir @ [SERVICE_NAME @ ''.container''];
          dbus = runtime_dir env @ [''bus'']; k8netd = runtime_dir env @ [''k8snet''] in
      io_then (io_do (mkdir_p unit_dir))
     (io_then (io_read (\<lambda>fs. require (path_exists fs dbus) SystemExit
        (''ERROR: required user D-Bus socket is unavailable: '' @ path_text dbus) (
        require (is_dir fs k8netd) SystemExit
        (''ERROR: required k8netd directory is unavailable: '' @ path_text k8netd) (Inr ()))))
     (io_bind (io_lift (as_some (ag_which env ''cloud-hypervisor'') SystemExit
        ''ERROR: cloud-hypervisor is required by the HostAgent'' Inr)) (\<lambda>cloud_hypervisor.
      io_then (write_text unit_file (quadlet_text env base image_ref address paths cloud_hypervisor))
        (io_return unit_file)))))"

section \<open>Commands\<close>

definition settings_val :: "string \<Rightarrow> path \<Rightarrow> path \<Rightarrow> path \<Rightarrow> pyval" where
  "settings_val address unit_file tls ssh_public_key = VDict
     [(''agent_address'', VStr address), (''server_name'', VStr SERVER_NAME), (''manager_identity'', VStr MANAGER_IDENTITY),
      (''unit'', VStr (path_text unit_file)), (''tls_dir'', VStr (path_text tls)), (''ssh_public_key'', VStr (path_text ssh_public_key))]"

text \<open>\<open>install\<close>, returning the line it prints.\<close>

definition agent_install :: "agent_env \<Rightarrow> string \<Rightarrow> string \<Rightarrow> string \<Rightarrow> string io" where
  "agent_install env lock_file cache_root config_dir =
     io_bind (io_read (\<lambda>fs. rbind (read_text fs (resolve env lock_file)) (load_lock (ag_safe_load env)))) (\<lambda>lock.
     io_bind (io_read (validate_cache lock (resolve env (ag_expand env cache_root)))) (\<lambda>problems.
     io_then (io_lift (require (problems = []) SystemExit
       (''ERROR: verified management cache required: '' @ join ''; '' problems) (Inr ())))
    (io_bind (io_lift (config_root env config_dir)) (\<lambda>base.
     io_then (io_read (\<lambda>fs. require (path_exists fs [''dev'', ''kvm'']) SystemExit
       ''ERROR: /dev/kvm is required by the HostAgent'' (Inr ())))
    (io_bind (ag_address env) (\<lambda>address.
     io_then (ensure_certificates env base address)
    (io_bind (ensure_ssh_key env base) (\<lambda>ssh_public_key.
     io_bind (io_lift (locked_image lock)) (\<lambda>image_ref.
     io_bind (stage_artifacts env base) (\<lambda>paths.
     io_then (ensure_api_socket_root env)
    (io_bind (write_quadlet env base image_ref address paths) (\<lambda>unit_file.
     io_then (write_text (base @ [''settings.json''])
       (dumps default_style (sort_keys (settings_val address unit_file (base @ [''tls'']) ssh_public_key)) @ nl))
    (io_return (''rendered HostAgent service: '' @ path_text unit_file))))))))))))))"

definition agent_settings :: "path \<Rightarrow> (string \<times> string) list io" where
  "agent_settings base =
     io_then (require_regular (base @ [''settings.json'']) ''HostAgent settings'')
    (io_read (\<lambda>fs. rbind (read_text fs (base @ [''settings.json''])) (\<lambda>t. rbind (loads t) (\<lambda>v.
     as_dict v SystemExit ''ERROR: invalid HostAgent settings'' (\<lambda>loaded.
     Inr (map (\<lambda>(k, x). (k, py_str x)) loaded))))))"

definition setting :: "(string \<times> string) list \<Rightarrow> string \<Rightarrow> string res" where
  "setting configured k = as_some (map_of configured k) KeyError k Inr"

definition agent_start :: "agent_env \<Rightarrow> string \<Rightarrow> unit io" where
  "agent_start env config_dir =
     io_bind (io_lift (config_root env config_dir)) (\<lambda>base.
     io_bind (agent_settings base) (\<lambda>configured.
     io_bind (io_lift (setting configured ''unit'')) (\<lambda>unit_file.
     io_then (require_regular_text env unit_file ''HostAgent Quadlet'')
    (io_then (agent_run env [''systemctl'', ''--user'', ''daemon-reload''])
       (agent_run env [''systemctl'', ''--user'', ''reload-or-restart'', SERVICE_NAME @ ''.service''])))))"

definition agent_check :: "agent_env \<Rightarrow> string \<Rightarrow> string io" where
  "agent_check env config_dir =
     io_bind (io_lift (config_root env config_dir)) (\<lambda>base.
     io_bind (agent_settings base) (\<lambda>configured.
     io_then (io_foreach (\<lambda>p. require_regular p ''HostAgent input'')
       [base @ [''tls'', ''ca.crt''], base @ [''tls'', ''server.crt''], base @ [''tls'', ''server.key''],
        base @ [''state'', ''manifest.json'']])
    (io_then (agent_run env [''systemctl'', ''--user'', ''is-active'', ''--quiet'', SERVICE_NAME @ ''.service''])
    (io_bind (io_lift (setting configured ''agent_address'')) (\<lambda>address.
     io_return (''HostAgent is active at '' @ address @ '':'' @ show_nat LISTEN_PORT))))))"

datatype agent_mode = Install | Start | Check

definition agent_main :: "agent_env \<Rightarrow> agent_mode \<Rightarrow> string \<Rightarrow> string \<Rightarrow> string \<Rightarrow> string list io" where
  "agent_main env command config_dir lock_file cache_root = (case command of
     Install \<Rightarrow> if lock_file = [] \<or> cache_root = []
       then io_raise SystemExit ''ERROR: install requires --lock and --cache-root''
       else io_bind (agent_install env lock_file cache_root config_dir) (\<lambda>line. io_return [line])
   | Start \<Rightarrow> io_then (agent_start env config_dir) (io_return [])
   | Check \<Rightarrow> io_bind (agent_check env config_dir) (\<lambda>line. io_return [line]))"


section \<open>Paths and their texts\<close>

text \<open>A name a directory entry can have.\<close>

definition plain :: "string \<Rightarrow> bool" where
  "plain c \<longleftrightarrow> c \<noteq> [] \<and> c \<noteq> ''.'' \<and> c \<noteq> ''..'' \<and> CHR ''/'' \<notin> set c"

lemma split_on_part: "x \<notin> set c \<Longrightarrow> split_on x (c @ x # r) = c # split_on x r"
  by (induction c) auto

lemma split_on_last: "x \<notin> set c \<Longrightarrow> split_on x c = [c]"
  by (induction c) auto

lemma split_on_join:
  "p \<noteq> [] \<Longrightarrow> list_all (\<lambda>c. CHR ''/'' \<notin> set c) p \<Longrightarrow> split_on (CHR ''/'') (join ''/'' p) = p"
  by (induction "''/''" p rule: join.induct) (auto simp: split_on_part split_on_last)

lemma path_parts_text:
  assumes "list_all plain p"
  shows "path_parts (path_text p) = p"
proof (cases "p = []")
  case False
  have "split_on (CHR ''/'') (join ''/'' p) = p"
    using False assms by (intro split_on_join) (auto simp: plain_def list_all_iff)
  then show ?thesis using assms by (auto simp: path_parts_def path_text_def plain_def list_all_iff filter_id_conv)
qed (simp add: path_parts_def path_text_def)

lemma foldl_step_plain: "list_all plain p \<Longrightarrow> foldl step_part q p = q @ p"
  by (induction p arbitrary: q) (auto simp: step_part_def plain_def)

lemma walks_plain: "list_all plain p \<Longrightarrow> walks fs q p"
  by (induction p arbitrary: q) (auto simp: plain_def)

lemma absolute_text [simp]: "is_absolute (path_text p)"
  by (simp add: is_absolute_def path_text_def)

lemma resolve_text: "list_all plain p \<Longrightarrow> resolve env (path_text p) = p"
  by (simp add: resolve_def resolve_parts_def path_join_def path_parts_text foldl_step_plain)

lemma text_is_file_plain: "list_all plain p \<Longrightarrow> text_is_file env fs (path_text p) = is_file fs p"
  by (simp add: text_is_file_def resolve_text path_join_def path_parts_text walks_plain)

lemma last_split_parts: "last_split sep s = Some (a, b) \<Longrightarrow> s = a @ sep @ b"
proof (induction s arbitrary: a b)
  case (Cons c s)
  then show ?case by (auto simp: prefix_def split: option.splits if_splits)
qed simp

lemma stage_temp_eq: "stage_temp (d @ [n]) = d @ [n @ ''.tmp'']"
proof -
  have "take (length n - length (path_suffix (d @ [n]))) n @ path_suffix (d @ [n]) = n"
    by (auto simp: path_suffix_def path_name_def split: option.splits dest: last_split_parts)
  then show ?thesis
    unfolding stage_temp_def with_suffix_def by (simp add: with_name_def path_name_def)
qed

lemma manifest_temp: "with_suffix (d @ [''manifest.json'']) ''.tmp'' = d @ [''manifest.tmp'']"
proof -
  have "last_split ''.'' ''manifest.json'' = Some (''manifest'', ''json'')" by code_simp
  then show ?thesis by (simp add: with_suffix_def path_suffix_def with_name_def path_name_def)
qed


section \<open>Staging\<close>

lemma stage_file_ok:
  assumes "stage_file (s, t) fs = (Inr (), fs')" "stage_temp t \<noteq> t"
  obtains c where "lookup fs s = Some (File c)" "\<not> is_dir fs (stage_temp t)"
    "\<And>q. lookup fs' q = (if q = t then Some (File c) else if q = stage_temp t then None else lookup fs q)"
proof -
  obtain c fs1 where c: "read_bytes fs s = Inr c" and w: "write_bytes (stage_temp t) c fs = Inr fs1"
    and r: "os_replace (stage_temp t) t fs1 = Inr fs'"
    using assms(1) by (auto simp: stage_file_def)
  have "lookup fs s = Some (File c)"
    using c by (auto simp: read_bytes_def path_error_def split: option.splits node.splits if_splits)
  moreover have "\<not> is_dir fs (stage_temp t)" using write_bytes_ok(3) [OF w] .
  moreover have "lookup fs' q = (if q = t then Some (File c) else if q = stage_temp t then None else lookup fs q)" for q
    using replace_file_ok(1) [OF r, of c q] write_bytes_ok(1) [OF w] by simp
  ultimately show ?thesis by (rule that)
qed

text \<open>
  Pairs of a source and a target that do not disturb each other: no temporary name is a source or a
  target, and a target that is a source, or another's target, has the same source.
\<close>

definition staging :: "(path \<times> path) set \<Rightarrow> bool" where
  "staging ps \<longleftrightarrow> (\<forall>(s, t) \<in> ps. \<forall>(s', t') \<in> ps.
     stage_temp t' \<noteq> s \<and> stage_temp t' \<noteq> t \<and> (s = t' \<longrightarrow> s' = s) \<and> (t = t' \<longrightarrow> s = s'))"

lemma stage_loop:
  assumes loop: "io_foreach stage_file ps fs = (Inr (), fs')" and ok: "staging (set ps)"
    and st: "(s, t) \<in> set ps"
  shows "is_file fs s \<and> lookup fs' t = lookup fs s"
proof -
  let ?I = "\<lambda>st. \<forall>(s, t) \<in> set ps. lookup st s = lookup fs s"
  let ?Q = "\<lambda>p st. is_file fs (fst p) \<and> lookup st (snd p) = lookup fs (fst p)"
  have step: "(\<forall>(s, t) \<in> set ps. lookup v' s = lookup v s) \<and> is_file v (fst x) \<and> lookup v' (snd x) = lookup v (fst x)
      \<and> (\<forall>(s, t) \<in> set ps. lookup v' t = lookup v t \<or> s = fst x \<and> t = snd x)"
    if x: "x \<in> set ps" and f: "stage_file x v = (Inr (), v')" for x v v'
  proof -
    obtain a b where ab: "x = (a, b)" by fastforce
    have "stage_temp b \<noteq> b" using ok x ab by (auto simp: staging_def)
    then obtain c where c: "lookup v a = Some (File c)"
      and l: "\<And>q. lookup v' q = (if q = b then Some (File c) else if q = stage_temp b then None else lookup v q)"
      using stage_file_ok [of a b v v'] f ab by blast
    have "lookup v' s = lookup v s" "lookup v' t = lookup v t \<or> s = a \<and> t = b" if "(s, t) \<in> set ps" for s t
    proof -
      have "stage_temp b \<noteq> s" "stage_temp b \<noteq> t" "s = b \<Longrightarrow> a = s" "t = b \<Longrightarrow> s = a"
        using ok that x ab unfolding staging_def by blast+
      then show "lookup v' s = lookup v s" "lookup v' t = lookup v t \<or> s = a \<and> t = b"
        using c l by auto
    qed
    moreover have "lookup v' b = lookup v a" using c l by simp
    ultimately show ?thesis using c ab by (auto simp: is_file_iff)
  qed
  have "?I fs' \<and> (\<forall>p \<in> set ps. ?Q p fs')"
  proof (rule io_foreach_post [OF loop])
    show "?I fs" by simp
    show "?Q x v' \<and> ?I v'" if "x \<in> set ps" "?I v" "stage_file x v = (Inr (), v')" for x v v'
    proof -
      have "lookup v (fst x) = lookup fs (fst x)" using that(1,2) by fastforce
      then show ?thesis using step [OF that(1,3)] that(2) by (fastforce simp: is_file_iff)
    qed
    show "?Q x v'" if "x \<in> set ps" "y \<in> set ps" "?I v" "?Q x v" "stage_file y v = (Inr (), v')" for x y v v'
    proof -
      have "lookup v' (snd x) = lookup v (snd x) \<or> fst x = fst y \<and> snd x = snd y"
        "lookup v' (snd y) = lookup v (fst y)"
        using step [OF that(2,5)] that(1) by (auto split: prod.splits)
      moreover have "lookup v (fst y) = lookup fs (fst y)" using that(2,3) by fastforce
      ultimately show ?thesis using that(4) by metis
    qed
  qed
  then show ?thesis using st by fastforce
qed


lemma staging_same_names:
  assumes "\<And>s t. (s, t) \<in> ps \<Longrightarrow> \<exists>d n. s = b @ [n] \<and> t = d @ [n] \<and> n \<noteq> [] \<and> last n \<noteq> CHR ''p''"
  shows "staging ps"
  unfolding staging_def
proof (clarify, intro conjI impI)
  fix s t s' t' assume a: "(s, t) \<in> ps" "(s', t') \<in> ps"
  obtain d n where n: "s = b @ [n]" "t = d @ [n]" "last n \<noteq> CHR ''p''" using assms [OF a(1)] by blast
  obtain d' n' where n': "s' = b @ [n']" "t' = d' @ [n']" using assms [OF a(2)] by blast
  have "n \<noteq> n' @ ''.tmp''" using n(3) by auto
  then show "stage_temp t' \<noteq> s" "stage_temp t' \<noteq> t" using n n' by (auto simp: stage_temp_eq)
  show "s' = s" if "s = t'" using that n n' by simp
  show "s = s'" if "t = t'" using that n n' by simp
qed

lemma discovered_name:
  assumes "s \<in> set (discover_source_images env fs)"
  shows "\<exists>n. s = build_dir env @ [n] \<and> n \<noteq> [] \<and> last n = CHR ''2'' \<and> n \<in> set (child_names fs (build_dir env))"
  using assms by (auto simp: discover_source_images_def suffix_def split: if_splits)

lemma discovered_distinct: "distinct (map path_name (discover_source_images env fs))"
proof -
  have "distinct (child_names fs (build_dir env))" by (simp add: child_names_def)
  then show ?thesis by (simp add: discover_source_images_def path_name_def comp_def)
qed

text \<open>The targets of the images and the firmware below a state directory.\<close>

definition image_targets :: "agent_env \<Rightarrow> path \<Rightarrow> fs \<Rightarrow> (path \<times> path) list" where
  "image_targets env base fs = stage_targets (base @ [''state'', ''images'']) (discover_source_images env fs)"

definition firmware_pair :: "agent_env \<Rightarrow> path \<Rightarrow> path \<times> path" where
  "firmware_pair env base = (build_dir env @ [''CLOUDHV.fd''], base @ [''state'', ''firmware'', ''CLOUDHV.fd''])"

lemma image_targets_name:
  "(s, t) \<in> set (image_targets env base fs) \<Longrightarrow>
     \<exists>n. s = build_dir env @ [n] \<and> t = base @ [''state'', ''images'', n] \<and> n \<noteq> [] \<and> last n = CHR ''2''
       \<and> n \<in> set (child_names fs (build_dir env))"
  unfolding image_targets_def stage_targets_def
  using discovered_name [of s env fs] by (auto simp: path_name_def)

lemma staging_targets: "staging (set (image_targets env base fs @ [firmware_pair env base]))"
proof (rule staging_same_names)
  fix s t assume "(s, t) \<in> set (image_targets env base fs @ [firmware_pair env base])"
  then consider "(s, t) \<in> set (image_targets env base fs)" | "(s, t) = firmware_pair env base"
    unfolding set_append Un_iff by auto
  then show "\<exists>d n. s = build_dir env @ [n] \<and> t = d @ [n] \<and> n \<noteq> [] \<and> last n \<noteq> CHR ''p''"
  proof cases
    case 1
    obtain n where n: "s = build_dir env @ [n]" "t = base @ [''state'', ''images'', n]" "n \<noteq> []" "last n = CHR ''2''"
      using image_targets_name [OF 1] by blast
    show ?thesis
      by (rule exI [of _ "base @ [''state'', ''images'']"], rule exI [of _ n]) (simp add: n)
  next
    case 2
    show ?thesis
      by (rule exI [of _ "base @ [''state'', ''firmware'']"], rule exI [of _ "''CLOUDHV.fd''"])
        (use 2 in \<open>simp add: firmware_pair_def\<close>)
  qed
qed

lemma require_regular_ok: "require_regular p d fs = (Inr u, fs') \<longleftrightarrow> is_file fs p \<and> fs' = fs"
  by (auto simp: require_regular_def)

lemma require_regulars_ok:
  "io_foreach (\<lambda>p. require_regular p d) ps fs = (Inr u, fs') \<longleftrightarrow> (\<forall>p \<in> set ps. is_file fs p) \<and> fs' = fs"
  by (induction ps) (auto simp: require_regular_ok)

lemma mkdirs_keep_files:
  assumes "io_foreach (\<lambda>d. io_do (mkdir_p d)) ds fs = (Inr (), fs')" "is_file fs q"
  shows "lookup fs' q = lookup fs q"
  using assms
proof (induction ds arbitrary: fs)
  case (Cons d ds)
  then obtain fs1 where m: "mkdir_p d fs = Inr fs1" and r: "io_foreach (\<lambda>d. io_do (mkdir_p d)) ds fs1 = (Inr (), fs')"
    by auto
  have "lookup fs1 q = lookup fs q"
    using mkdir_p_ok [OF m, of q] Cons.prems(2) by (auto simp: is_file_iff)
  then show ?case using Cons.IH [OF r] Cons.prems(2) by (simp add: is_file_iff)
qed simp

lemma stage_artifacts_steps:
  assumes "stage_artifacts env base fs = (Inr paths, fs')"
  obtains fs1 fs2 manifest where
    "\<And>s t. (s, t) \<in> set (image_targets env base fs @ [firmware_pair env base]) \<Longrightarrow> lookup fs1 s = lookup fs s"
    "io_foreach stage_file (image_targets env base fs @ [firmware_pair env base]) fs1 = (Inr (), fs2)"
    "staged_manifest (image_targets env base fs) (snd (firmware_pair env base)) fs2 = Inr manifest"
    "write_manifest ((base @ [''state'']) @ [''manifest.json'']) manifest fs2 = (Inr (), fs')"
proof -
  let ?ds = "[base @ [''state'', ''images''], base @ [''state'', ''firmware''], base @ [''state'', ''vms'']]"
  obtain fs1 fs2 manifest where fw: "is_file fs (build_dir env @ [''CLOUDHV.fd''])"
    and im: "\<forall>s \<in> set (discover_source_images env fs). is_file fs s"
    and m: "io_foreach (\<lambda>d. io_do (mkdir_p d)) ?ds fs = (Inr (), fs1)"
    and l: "io_foreach stage_file (image_targets env base fs @ [firmware_pair env base]) fs1 = (Inr (), fs2)"
      "staged_manifest (image_targets env base fs) (snd (firmware_pair env base)) fs2 = Inr manifest"
      "write_manifest ((base @ [''state'']) @ [''manifest.json'']) manifest fs2 = (Inr (), fs')"
    using assms unfolding stage_artifacts_def image_targets_def firmware_pair_def
    by (auto simp: Let_def require_regular_ok require_regulars_ok path_name_def simp del: io_foreach.simps)
  have "lookup fs1 s = lookup fs s" if "(s, t) \<in> set (image_targets env base fs @ [firmware_pair env base])" for s t
    using that mkdirs_keep_files [OF m] fw im by (auto simp: image_targets_def stage_targets_def firmware_pair_def)
  then show ?thesis using l by (rule that)
qed


lemma write_manifest_ok:
  assumes "write_manifest (d @ [''manifest.json'']) m fs = (Inr (), fs')"
  shows "lookup fs' (d @ [''manifest.json'']) = Some (File (utf8_encode (dumps default_style (sort_keys m) @ nl)))"
    and "q \<noteq> d @ [''manifest.json''] \<Longrightarrow> q \<noteq> d @ [''manifest.tmp''] \<Longrightarrow> lookup fs' q = lookup fs q"
proof -
  let ?c = "utf8_encode (dumps default_style (sort_keys m) @ nl)"
  obtain fs1 where w: "write_bytes (d @ [''manifest.tmp'']) ?c fs = Inr fs1"
    and r: "os_replace (d @ [''manifest.tmp'']) (d @ [''manifest.json'']) fs1 = Inr fs'"
    using assms by (auto simp: write_manifest_def manifest_temp write_text_def)
  note l = replace_file_ok(1) [OF r, of ?c] write_bytes_ok(1) [OF w]
  show "lookup fs' (d @ [''manifest.json'']) = Some (File ?c)" using l by simp
  show "q \<noteq> d @ [''manifest.json''] \<Longrightarrow> q \<noteq> d @ [''manifest.tmp''] \<Longrightarrow> lookup fs' q = lookup fs q"
    using l by simp
qed

lemma sha256_file_Inr: "sha256_file fs p = Inr h \<longleftrightarrow> (\<exists>c. lookup fs p = Some (File c) \<and> h = sha256_hex c)"
  by (auto simp: sha256_file_def read_bytes_def path_error_def split: option.splits node.splits)

lemma staged_manifest_ok:
  assumes "staged_manifest ts fw fs = Inr m"
  obtains entries h where "m = VDict [(''images'', VDict entries), (''firmware'', staged_entry fw h)]"
    "map fst entries = map (\<lambda>(s, t). image_reference (path_name s)) ts"
    "\<And>k v. (k, v) \<in> set entries \<Longrightarrow> \<exists>s t c. (s, t) \<in> set ts \<and> lookup fs t = Some (File c) \<and> v = staged_entry t (sha256_hex c)"
proof -
  let ?f = "\<lambda>(s, t). rbind (sha256_file fs t) (\<lambda>h. Inr (image_reference (path_name s), staged_entry t h))"
  obtain entries h where e: "rmap ?f ts = Inr entries"
    and m: "m = VDict [(''images'', VDict entries), (''firmware'', staged_entry fw h)]"
    using assms by (auto simp: staged_manifest_def)
  have el: "?f x = Inr y \<Longrightarrow> fst y = image_reference (path_name (fst x))
      \<and> (\<exists>c. lookup fs (snd x) = Some (File c) \<and> snd y = staged_entry (snd x) (sha256_hex c))" for x y
    by (auto simp: sha256_file_Inr split: prod.splits)
  have "map fst entries = map (\<lambda>(s, t). image_reference (path_name s)) ts"
    using e [unfolded rmap_Inr]
    by (induction rule: list_all2_induct) (use el in \<open>auto split: prod.splits\<close>)
  moreover have "\<exists>s t c. (s, t) \<in> set ts \<and> lookup fs t = Some (File c) \<and> v = staged_entry t (sha256_hex c)"
    if kv: "(k, v) \<in> set entries" for k v
  proof -
    obtain x where x: "x \<in> set ts" "?f x = Inr (k, v)" using rmap_elem [OF e kv] by blast
    show ?thesis
      by (rule exI [of _ "fst x"], rule exI [of _ "snd x"]) (use el [OF x(2)] x(1) in auto)
  qed
  ultimately show ?thesis using m that by blast
qed

lemma staged_entry_sorted [simp]: "sort_keys (staged_entry t h) = staged_entry t h"
  by (simp add: staged_entry_def)

text \<open>The manifest as it is read back: the same images, in the order of their keys.\<close>

lemma staged_manifest_read:
  assumes "m = VDict [(''images'', VDict entries), (''firmware'', staged_entry fw h)]"
    "distinct (map fst entries)" "\<And>k v. (k, v) \<in> set entries \<Longrightarrow> \<exists>t g. v = staged_entry t g"
  obtains d images where "loads (dumps default_style (sort_keys m) @ nl) = Inr (VDict d)"
    "dget d ''images'' = VDict images" "set images = set entries"
proof -
  have en: "wf_val (staged_entry t g)" for t g by (simp add: staged_entry_def)
  then have "list_all (\<lambda>kv. wf_val (snd kv)) entries" using assms(3) by (fastforce simp: list_all_iff)
  then have wf: "wf_val m" using assms(2) en unfolding assms(1) by simp
  have l: "loads (dumps default_style (sort_keys m) @ nl) = Inr (sort_keys m)"
    by (rule loads_dumps) (use wf_val_sort_keys [OF wf] in \<open>simp_all add: nl_def json_ws_def\<close>)
  let ?es = "map (\<lambda>kv. (fst kv, sort_keys (snd kv))) entries"
  let ?d = "[(''images'', VDict (sort_key fst ?es)), (''firmware'', staged_entry fw h)]"
  have s: "sort_keys m = VDict (sort_key fst ?d)" unfolding assms(1) by simp
  have "dget (sort_key fst ?d) ''images'' = dget ?d ''images''"
    unfolding dget_def by (subst map_of_sort_key) simp_all
  then have "dget (sort_key fst ?d) ''images'' = VDict (sort_key fst ?es)" by (simp add: dget_def)
  moreover have "set (sort_key fst ?es) = set entries"
  proof -
    have "(fst kv, sort_keys (snd kv)) = kv" if "kv \<in> set entries" for kv
      using assms(3) [of "fst kv" "snd kv"] that by (cases kv) auto
    then have "?es = entries" by (intro map_idI) auto
    then show ?thesis by simp
  qed
  moreover have "loads (dumps default_style (sort_keys m) @ nl) = Inr (VDict (sort_key fst ?d))"
    by (rule trans [OF l]) (simp only: s)
  ultimately show ?thesis by (intro that)
qed

lemma staged_problems_none:
  assumes "list_all plain t" "lookup fs t = Some (File c)"
  shows "staged_problems env fs (k, staged_entry t (sha256_hex c)) = Inr []"
  using assms text_is_file_plain [of t env fs]
  by (simp add: staged_problems_def staged_entry_def dget_def is_file_iff resolve_text sha256_file_def read_bytes_def)

lemma rmap_const: "(\<And>x. x \<in> set xs \<Longrightarrow> f x = Inr y) \<Longrightarrow> rmap f xs = Inr (map (\<lambda>_. y) xs)"
  by (induction xs) auto


lemma staged_verify:
  assumes "list_all plain base" "list_all plain (child_names fs (build_dir env))"
    and ok: "stage_artifacts env base fs = (Inr paths, fs')"
  shows "verify_staged_artifacts env base fs' = Inr []"
    and "(s, t) \<in> set (image_targets env base fs @ [firmware_pair env base]) \<Longrightarrow> is_file fs' t \<and> lookup fs' t = lookup fs s"
proof -
  let ?mp = "(base @ [''state'']) @ [''manifest.json'']"
  obtain fs1 fs2 m where
    src: "\<And>s t. (s, t) \<in> set (image_targets env base fs @ [firmware_pair env base]) \<Longrightarrow> lookup fs1 s = lookup fs s"
    and loop: "io_foreach stage_file (image_targets env base fs @ [firmware_pair env base]) fs1 = (Inr (), fs2)"
    and m: "staged_manifest (image_targets env base fs) (snd (firmware_pair env base)) fs2 = Inr m"
    and w: "write_manifest ?mp m fs2 = (Inr (), fs')"
    using stage_artifacts_steps [OF ok] by metis
  note w = write_manifest_ok [OF w]
  have name: "\<exists>n. t = base @ [''state'', ''images'', n] \<and> n \<in> set (child_names fs (build_dir env))"
    if "(s, t) \<in> set (image_targets env base fs)" for s t
    using image_targets_name [OF that] by blast
  have keep: "lookup fs' t = lookup fs2 t" if "(s, t) \<in> set (image_targets env base fs @ [firmware_pair env base])" for s t
    using that name [of s t] by (intro w(2)) (auto simp: firmware_pair_def)
  show "is_file fs' t \<and> lookup fs' t = lookup fs s"
    if st: "(s, t) \<in> set (image_targets env base fs @ [firmware_pair env base])"
    using stage_loop [OF loop staging_targets st] src [OF st] keep [OF st] by (simp add: is_file_iff)
  obtain entries h where e: "m = VDict [(''images'', VDict entries), (''firmware'', staged_entry (snd (firmware_pair env base)) h)]"
      "map fst entries = map (\<lambda>(s, t). image_reference (path_name s)) (image_targets env base fs)"
      "\<And>k v. (k, v) \<in> set entries \<Longrightarrow> \<exists>s t c. (s, t) \<in> set (image_targets env base fs) \<and> lookup fs2 t = Some (File c)
         \<and> v = staged_entry t (sha256_hex c)"
    using staged_manifest_ok [OF m] by metis
  have "map fst entries = map image_reference (map path_name (discover_source_images env fs))"
    using e(2) by (simp add: image_targets_def stage_targets_def comp_def)
  then have d: "distinct (map fst entries)"
    using discovered_distinct [of env fs] by (simp add: distinct_map inj_on_def image_reference_def)
  obtain doc images where r: "loads (dumps default_style (sort_keys m) @ nl) = Inr (VDict doc)"
      "dget doc ''images'' = VDict images" "set images = set entries"
    using staged_manifest_read [OF e(1) d] e(3) by metis
  have "staged_problems env fs' kv = Inr []" if kv: "kv \<in> set images" for kv
  proof -
    obtain s t c where st: "(s, t) \<in> set (image_targets env base fs)" "lookup fs2 t = Some (File c)"
        "snd kv = staged_entry t (sha256_hex c)"
      using e(3) [of "fst kv" "snd kv"] kv r(3) by auto
    obtain n where n: "t = base @ [''state'', ''images'', n]" "n \<in> set (child_names fs (build_dir env))"
      using name [OF st(1)] by blast
    have "plain n" using assms(2) n(2) by (simp add: list_all_iff)
    moreover have "plain ''state''" "plain ''images''" by (simp_all add: plain_def)
    ultimately have "list_all plain t" using assms(1) by (simp add: n(1))
    moreover have "lookup fs' t = Some (File c)" using keep [of s t] st(1,2) by simp
    ultimately show ?thesis
      using staged_problems_none [of t fs' c env "fst kv"] st(3) [symmetric] by simp
  qed
  from rmap_const [OF this] have "rmap (staged_problems env fs') images = Inr (map (\<lambda>_. []) images)" .
  then show "verify_staged_artifacts env base fs' = Inr []"
    using r(1,2) w(1) by (simp add: verify_staged_artifacts_def is_file_iff read_text_def read_bytes_def)
qed

section \<open>Key material\<close>

text \<open>
  A pair of which one half is missing ends the installation before any command is run, and no file
  of the store has changed.
\<close>

lemma incomplete_pair_stops:
  assumes "p \<in> set [''ca'', ''server'', ''manager'']"
    "is_file fs (base @ [''tls'', p @ ''.key'']) \<noteq> is_file fs (base @ [''tls'', p @ ''.crt''])"
  shows "\<exists>e fs'. ensure_certificates env base address fs = (Inl e, fs')
    \<and> (exn_of e = SystemExit \<or> is_os_error (exn_of e)) \<and> (\<forall>q. is_file fs' q = is_file fs q) \<and> (\<forall>q. is_file fs q \<longrightarrow> lookup fs' q = lookup fs q)"
proof (cases "mkdir_p (base @ [''tls'']) fs")
  case (Inl e)
  then have "ensure_certificates env base address fs = (Inl e, fs)"
    unfolding ensure_certificates_def Let_def by (simp add: io_bind_def io_do_def)
  then show ?thesis using errsD [OF store_errs(2) Inl] by simp
next
  case (Inr fs1)
  note m = mkdir_p_ok [OF Inr]
  have f: "is_file fs1 q = is_file fs q" for q using m [of q] by (auto simp: is_file_def split: option.splits)
  have k: "is_file fs q \<longrightarrow> lookup fs1 q = lookup fs q" for q using m [of q] by (auto simp: is_file_iff)
  have "\<exists>msg. ensure_certificates env base address fs = (raise SystemExit msg, fs1)"
    using assms Inr f unfolding ensure_certificates_def Let_def ensure_pair_def
    by (auto simp: io_bind_def io_do_def io_read_def require_def)
  then show ?thesis using f k by auto
qed

section \<open>A small host\<close>

definition sample_agent :: agent_env where
  "sample_agent = \<lparr> ag_cwd = [''w''], ag_home = [''home''], ag_uid = 1000, ag_environ = (\<lambda>_. None), ag_expand = (\<lambda>s. s),
     ag_command = (\<lambda>_ fs. (Exited 0 [] [], fs)), ag_which = (\<lambda>_. None), ag_owns = (\<lambda>_. True),
     ag_address = io_return ''10.0.0.2'', ag_safe_load = (\<lambda>_. Inr VNone) \<rparr>"

definition sample_build :: fs where
  "sample_build = [([''w''], Dir), ([''w'', ''build''], Dir), ([''w'', ''build'', ''a.qcow2''], File ''image''),
     ([''w'', ''build'', ''CLOUDHV.fd''], File ''firmware'')]"

definition sample_dirs :: fs where
  "sample_dirs = (case io_foreach (\<lambda>d. io_do (mkdir_p d)) [[''r'', ''state'', ''images''], [''r'', ''state'', ''firmware''], [''r'', ''state'', ''vms'']]
     sample_build of (_, fs) \<Rightarrow> fs)"

definition sample_staged :: fs where
  "sample_staged = (case io_foreach stage_file
     [([''w'', ''build'', ''a.qcow2''], [''r'', ''state'', ''images'', ''a.qcow2'']),
      ([''w'', ''build'', ''CLOUDHV.fd''], [''r'', ''state'', ''firmware'', ''CLOUDHV.fd''])] sample_dirs of (_, fs) \<Rightarrow> fs)"

lemma sample_steps:
  "discover_source_images sample_agent sample_build = [[''w'', ''build'', ''a.qcow2'']]"
  "list_all (is_file sample_build) [[''w'', ''build'', ''a.qcow2''], [''w'', ''build'', ''CLOUDHV.fd'']]"
  "io_foreach (\<lambda>d. io_do (mkdir_p d)) [[''r'', ''state'', ''images''], [''r'', ''state'', ''firmware''], [''r'', ''state'', ''vms'']]
     sample_build = (Inr (), sample_dirs)"
  "io_foreach stage_file
     [([''w'', ''build'', ''a.qcow2''], [''r'', ''state'', ''images'', ''a.qcow2'']),
      ([''w'', ''build'', ''CLOUDHV.fd''], [''r'', ''state'', ''firmware'', ''CLOUDHV.fd''])] sample_dirs = (Inr (), sample_staged)"
  "read_bytes sample_staged [''r'', ''state'', ''images'', ''a.qcow2''] = Inr ''image''"
  "read_bytes sample_staged [''r'', ''state'', ''firmware'', ''CLOUDHV.fd''] = Inr ''firmware''"
  "is_dir sample_staged [''r'', ''state'']" "lookup sample_staged [''r'', ''state'', ''manifest.tmp''] = None"
  "lookup sample_staged [''r'', ''state'', ''manifest.json''] = None"
  by code_simp+

lemma write_manifest_returns:
  assumes "is_dir fs d" "lookup fs (d @ [''manifest.tmp'']) = None" "lookup fs (d @ [''manifest.json'']) = None"
  shows "\<exists>fs'. write_manifest (d @ [''manifest.json'']) m fs = (Inr (), fs')"
proof -
  let ?c = "utf8_encode (dumps default_style (sort_keys m) @ nl)"
  have w: "write_bytes (d @ [''manifest.tmp'']) ?c fs = Inr (AList.update (d @ [''manifest.tmp'']) (File ?c) fs)"
    using assms by (simp add: write_bytes_def is_dir_def)
  have "\<exists>fs'. os_replace (d @ [''manifest.tmp'']) (d @ [''manifest.json'']) (AList.update (d @ [''manifest.tmp'']) (File ?c) fs) = Inr fs'"
    using assms by (simp add: os_replace_def lookup_update is_dir_def is_file_def)
  then show ?thesis unfolding write_manifest_def manifest_temp write_text_def using w by simp
qed

lemma sample_stage_returns: "\<exists>paths fs'. stage_artifacts sample_agent [''r''] sample_build = (Inr paths, fs')"
proof -
  obtain m where m: "staged_manifest [([''w'', ''build'', ''a.qcow2''], [''r'', ''state'', ''images'', ''a.qcow2''])]
      [''r'', ''state'', ''firmware'', ''CLOUDHV.fd''] sample_staged = Inr m"
    by (simp add: staged_manifest_def sha256_file_def sample_steps(5,6))
  obtain fs' where "write_manifest ([''r'', ''state''] @ [''manifest.json'']) m sample_staged = (Inr (), fs')"
    using write_manifest_returns [of sample_staged "[''r'', ''state'']"] sample_steps(7,8,9) by auto
  moreover have "build_dir sample_agent = [''w'', ''build'']" by (simp add: build_dir_def sample_agent_def)
  ultimately show ?thesis
    using sample_steps(1,2,3,4) m unfolding stage_artifacts_def Let_def
    by (simp add: require_regular_ok require_regulars_ok path_name_def stage_targets_def del: io_foreach.simps)
qed

section \<open>Properties\<close>

text \<open>
  C30: what \<open>stage_artifacts\<close> stages is what \<open>verify_staged_artifacts\<close> accepts. For a configuration
  root and a build directory with ordinary entry names, when staging returns, every baked image that
  was found and the firmware lie under the state directory with exactly the content they had in the
  build directory before, also when the state directory lies inside the build directory or the
  other way round, and the verification of the written manifest reports no problem.
\<close>

theorem stage_artifacts_verified:
  assumes "list_all plain base" "list_all plain (child_names fs (build_dir env))"
  shows "case stage_artifacts env base fs of
     (Inr paths, fs') \<Rightarrow>
       verify_staged_artifacts env base fs' = Inr []
       \<and> discover_source_images env fs \<noteq> []
       \<and> list_all (\<lambda>s. is_file fs s \<and> lookup fs' (base @ [''state'', ''images'', path_name s]) = lookup fs s)
           (discover_source_images env fs)
       \<and> is_file fs (build_dir env @ [''CLOUDHV.fd''])
       \<and> lookup fs' (base @ [''state'', ''firmware'', ''CLOUDHV.fd'']) = lookup fs (build_dir env @ [''CLOUDHV.fd''])
   | (Inl e, fs') \<Rightarrow> True"
proof -
  have "verify_staged_artifacts env base fs' = Inr []
       \<and> discover_source_images env fs \<noteq> []
       \<and> list_all (\<lambda>s. is_file fs s \<and> lookup fs' (base @ [''state'', ''images'', path_name s]) = lookup fs s)
           (discover_source_images env fs)
       \<and> is_file fs (build_dir env @ [''CLOUDHV.fd''])
       \<and> lookup fs' (base @ [''state'', ''firmware'', ''CLOUDHV.fd'']) = lookup fs (build_dir env @ [''CLOUDHV.fd''])"
    if ok: "stage_artifacts env base fs = (Inr paths, fs')" for paths fs'
  proof -
    note v = staged_verify [OF assms ok]
    have "is_file fs s \<and> lookup fs' (base @ [''state'', ''images'', path_name s]) = lookup fs s"
      if s: "s \<in> set (discover_source_images env fs)" for s
    proof -
      have "(s, base @ [''state'', ''images'', path_name s]) \<in> set (image_targets env base fs @ [firmware_pair env base])"
        using s by (auto simp: image_targets_def stage_targets_def)
      from v(2) [OF this] show ?thesis by (auto simp: is_file_def)
    qed
    then have "list_all (\<lambda>s. is_file fs s \<and> lookup fs' (base @ [''state'', ''images'', path_name s]) = lookup fs s)
        (discover_source_images env fs)"
      by (simp add: list_all_iff)
    moreover have "discover_source_images env fs \<noteq> []" using ok by (auto simp: stage_artifacts_def Let_def)
    ultimately show ?thesis
      using v(1) v(2) [of "fst (firmware_pair env base)" "snd (firmware_pair env base)"]
      by (auto simp: firmware_pair_def is_file_def)
  qed
  then show ?thesis by (auto split: sum.splits prod.splits)
qed


theorem stage_artifacts_verified_witness:
  "\<exists>paths fs'. stage_artifacts sample_agent [''r''] sample_build = (Inr paths, fs')
     \<and> verify_staged_artifacts sample_agent [''r''] fs' = Inr []
     \<and> lookup fs' [''r'', ''state'', ''images'', ''a.qcow2''] = Some (File ''image'')"
proof -
  have h: "list_all plain [''r'']" "list_all plain (child_names sample_build (build_dir sample_agent))" by code_simp+
  have f: "lookup sample_build [''w'', ''build'', ''a.qcow2''] = Some (File ''image'')" by code_simp
  obtain paths fs' where ok: "stage_artifacts sample_agent [''r''] sample_build = (Inr paths, fs')"
    using sample_stage_returns by blast
  show ?thesis
    using stage_artifacts_verified [OF h] ok f by (simp add: sample_steps(1) path_name_def)
qed

end
