(* ===== verification/Cache_Populate.thy ===== *)
theory Cache_Populate
  imports Cache
begin

text \<open>
  Correctness of the population of the cache: what each operation of \<open>Cache\<close> touches, what it
  establishes, and the end-to-end results: a population that returns leaves a cache the
  validator accepts, and one that raises leaves no completion record.
\<close>

section \<open>Inventory entries\<close>

lemma rmap_member:
  assumes "rmap f xs = Inr ys" "y \<in> set ys"
  shows "\<exists>x \<in> set xs. f x = Inr y"
  using assms by (induction xs arbitrary: ys) auto

lemma inventory_item:
  assumes "inventory lock = Inr items" "i \<in> set items"
  shows "\<not> is_absolute (item_path i)" "full_hex 64 (item_sha i)"
proof -
  obtain ix where "artifact_entry ''artifacts'' ix = Inr i"
    using assms by (auto simp: inventory_def artifact_inventory_def dest: rmap_member)
  then show "\<not> is_absolute (item_path i)" "full_hex 64 (item_sha i)"
    by (cases ix; auto simp: artifact_entry_def Let_def safe_cache_path_def is_sha256_def
        full_hex_def py_lower_def)+
qed

lemma inventory_image:
  assumes "oci_inventory lock = Inr images" "i \<in> set images"
  shows "\<not> is_absolute (img_path i)" "img_id i \<noteq> []"
proof -
  obtain ix where "image_entry ix = Inr i"
    using assms by (auto simp: oci_inventory_def dest: rmap_member)
  then show "\<not> is_absolute (img_path i)" "img_id i \<noteq> []"
    by (cases ix; clarsimp simp: image_entry_def Let_def safe_cache_path_def case_prod_unfold)+
qed

section \<open>Writing a file through a temporary name\<close>

abbreviation tmp_of :: "path \<Rightarrow> path" where
  "tmp_of p \<equiv> with_name p (tmp_name (path_name p))"

lemma tmp_of_append: "a \<noteq> [] \<Longrightarrow> tmp_of (d @ a) = d @ tmp_of a"
  by (simp add: with_name_def path_name_def butlast_append)

lemma touches_write_replace: "touches {p, tmp_of p} (write_replace p c)"
  unfolding write_replace_def
  by (intro touches_bind touches_write touches_replace) (auto intro: coveredI)

lemma write_replace_post:
  assumes "write_replace p c fs = (Inr (), fs')"
  shows "lookup fs' p = Some (File c)" "p \<noteq> [] \<Longrightarrow> is_dir fs' (butlast p)"
proof -
  obtain fs1 where w: "write_bytes (tmp_of p) c fs = Inr fs1" "os_replace (tmp_of p) p fs1 = Inr fs'"
    using assms by (auto simp: write_replace_def)
  have t: "lookup fs1 (tmp_of p) = Some (File c)" using write_bytes_ok(1) [OF w(1)] by simp
  note r = replace_file_ok [OF w(2) t]
  show "lookup fs' p = Some (File c)" using r(1) by simp
  assume "p \<noteq> []"
  have "is_dir fs (butlast p)" using write_bytes_ok(4) [OF w(1)] by (simp add: with_name_def)
  moreover have "butlast p \<noteq> tmp_of p" by (simp add: with_name_def)
  moreover have "butlast p \<noteq> p" using \<open>p \<noteq> []\<close> by (metis append_butlast_last_id not_Cons_self2 self_append_conv)
  ultimately show "is_dir fs' (butlast p)"
    using r(1) [of "butlast p"] write_bytes_ok(1) [OF w(1), of "butlast p"] by (simp add: is_dir_def)
qed

section \<open>Downloads\<close>

lemma touches_download:
  "touches {path_join d (item_path i), tmp_of (path_join d (item_path i))} (download srv i d)"
proof -
  let ?p = "path_join d (item_path i)"
  have 1: "touches {?p, tmp_of ?p} (case fetch srv (item_url i) of
      Inl e \<Rightarrow> io_lift (Inl e)
    | Inr (chunks, failure) \<Rightarrow> io_then (io_do (write_bytes (tmp_of ?p) (concat chunks)))
        (case failure of None \<Rightarrow> io_return (concat chunks) | Some e \<Rightarrow> io_lift (Inl e)))"
    by (auto split: sum.split prod.split option.split intro!: touches_write coveredI)
  have 2: "touches {?p, tmp_of ?p} (io_do (mkdir_p (butlast ?p)))"
    by (rule touches_mkdir [of ?p]) (auto intro: prefixeq_butlast)
  have 3: "touches {?p, tmp_of ?p} (io_do (unlink (tmp_of ?p)))"
    by (rule touches_unlink) (auto intro: coveredI)
  have 4: "touches {?p, tmp_of ?p} (io_do (os_replace (tmp_of ?p) ?p))"
    by (rule touches_replace) (auto intro: coveredI)
  show ?thesis unfolding download_def Let_def by (intro touches_intros 1 2 3 4)
qed

lemma download_post:
  assumes "download srv i d fs = (Inr (), fs')"
  shows "has_sha fs' (path_join d (item_path i)) (item_sha i)"
proof (cases "has_sha fs (path_join d (item_path i)) (item_sha i)")
  case True
  then show ?thesis using assms by (simp add: download_def Let_def)
next
  case False
  let ?p = "path_join d (item_path i)"
  let ?B = "case fetch srv (item_url i) of
      Inl e \<Rightarrow> io_lift (Inl e)
    | Inr (chunks, failure) \<Rightarrow> io_then (io_do (write_bytes (tmp_of ?p) (concat chunks)))
        (case failure of None \<Rightarrow> io_return (concat chunks) | Some e \<Rightarrow> io_lift (Inl e))"
  let ?H = "\<lambda>e. if is_os_error (exn_of e)
     then io_then (io_do (unlink (tmp_of ?p)))
       (io_raise RuntimeError (''failed to download '' @ item_id i @ '': '' @ msg_of e))
     else io_lift (Inl e)"
  obtain fs1 content fs2 where e: "io_except ?B ?H fs1 = (Inr content, fs2)"
    and k: "(if sha256_hex content \<noteq> item_sha i
       then io_then (io_do (unlink (tmp_of ?p)))
         (io_raise RuntimeError (''checksum mismatch while downloading '' @ item_id i))
       else io_do (os_replace (tmp_of ?p) ?p)) fs2 = (Inr (), fs')"
    using assms False by (simp add: download_def Let_def) blast
  have "?H e s \<noteq> (Inr content, fs2)" for e s by (simp split: if_split)
  then have "?B fs1 = (Inr content, fs2)" using e unfolding io_except_Inr by blast
  then have "lookup fs2 (tmp_of ?p) = Some (File content)"
    using write_bytes_ok(1) by (auto split: sum.splits prod.splits option.splits)
  moreover have s: "sha256_hex content = item_sha i" "os_replace (tmp_of ?p) ?p fs2 = Inr fs'"
    using k by (auto split: if_splits)
  ultimately show ?thesis using replace_file_ok(1) [OF s(2), of content ?p] by (simp add: has_sha_def)
qed

section \<open>Images\<close>

text \<open>
  What is assumed of \<open>skopeo copy\<close>: it writes nowhere but in its destination directory, and
  leaves a tree in which every node has a directory above it.
\<close>

definition confined_copy :: "services \<Rightarrow> bool" where
  "confined_copy srv \<longleftrightarrow> (\<forall>item stage fs. 
     (\<forall>q. parallel stage q \<longrightarrow>
        lookup (snd (run_cmd srv (layout_command item stage) fs)) q = lookup fs q)
     \<and> (wf_fs fs \<longrightarrow> wf_fs (snd (run_cmd srv (layout_command item stage) fs))))"

lemma run_snd: "snd (run srv cmd fs) = snd (run_cmd srv cmd fs)"
  by (auto simp: run_def split: prod.split proc_result.split)

lemma touches_run:
  assumes "confined_copy srv" "covered R stage"
  shows "touches R (run srv (layout_command item stage))"
  unfolding touches_def run_snd
proof (intro allI impI)
  fix fs q assume q: "\<forall>t \<in> R. parallel t q"
  obtain t where t: "t \<in> R" "prefix t stage" using assms(2) by (auto simp: covered_def)
  then obtain r where "stage = t @ r" by (auto simp: prefix_def)
  then have "parallel stage q" using q t(1) parallel_below parallel_sym by metis
  then show "lookup (snd (run_cmd srv (layout_command item stage) fs)) q = lookup fs q"
    using assms(1) by (simp add: confined_copy_def)
qed

lemma path_parts_simple:
  assumes "CHR ''/'' \<notin> set s" "s \<noteq> []" "s \<noteq> ''.''"
  shows "path_parts s = [s]"
proof -
  have "split_on (CHR ''/'') s = [s]" using assms(1) by (induction s) auto
  then show ?thesis using assms(2,3) by (simp add: path_parts_def)
qed

lemma path_join_rel: "\<not> is_absolute s \<Longrightarrow> path_join d s = d @ path_parts s"
  by (simp add: path_join_def)

lemma mkdir_new_ok:
  assumes "mkdir_new p fs = Inr fs'"
  shows "lookup fs' q = (if q = p then Some Dir else lookup fs q)" "is_dir fs (butlast p)" "p \<noteq> []"
proof -
  show p: "p \<noteq> []" "is_dir fs (butlast p)"
    using assms by (auto simp: mkdir_new_def path_exists_def path_error_def split: if_splits)
  show "lookup fs' q = (if q = p then Some Dir else lookup fs q)"
    using assms p(1) by (auto simp: mkdir_new_def path_error_def lookup_update split: if_splits)
qed

lemma touches_mkdir_new: "covered R p \<Longrightarrow> touches R (io_do (mkdir_new p))"
  by (rule touches_do) (use not_covered mkdir_new_ok(1) in auto)

lemma touches_rmtree_ignore:
  assumes "covered R p"
  shows "touches R (io_do (rmtree_ignore p))"
proof (rule touches_do)
  fix fs fs' q assume r: "rmtree_ignore p fs = Inr fs'" and q: "\<forall>t \<in> R. parallel t q"
  show "lookup fs' q = lookup fs q"
    using r rmtree_lookup not_covered [OF q assms]
    by (auto simp: rmtree_ignore_def split: sum.splits)
qed

definition plain_suffixes :: "services \<Rightarrow> bool" where
  "plain_suffixes srv \<longleftrightarrow> (\<forall>fs p. CHR ''/'' \<notin> set (temp_suffix srv fs p))"

text \<open>The staging directory of one image is a name directly below \<open>.staging\<close>.\<close>

lemma staging_name_below:
  assumes "plain_suffixes srv" "CHR ''/'' \<notin> set (img_id i)"
  shows "\<exists>n. staging_name srv i p fs = p @ [n]"
proof -
  let ?n = "img_id i @ ''-'' @ temp_suffix srv fs p"
  have "?n \<noteq> ''.''" by (cases "img_id i") auto
  then have "path_parts ?n = [?n]"
    using assms by (intro path_parts_simple) (auto simp: plain_suffixes_def)
  moreover have "\<not> is_absolute ?n"
    using assms(2) by (cases "img_id i") (auto simp: is_absolute_def)
  ultimately show ?thesis by (auto simp: staging_name_def path_join_def)
qed

lemma touches_install:
  assumes "confined_copy srv" "covered R tmp" "dest \<in> R"
  shows "touches R (install_layout srv i dest tmp)"
proof -
  have c: "covered R (tmp @ [''layout''])" using assms(2) by (auto simp: covered_def)
  have d: "covered R dest" using assms(3) by (auto intro: coveredI)
  have mk: "touches R (io_do (mkdir_p (butlast dest)))"
    using assms(3) by (rule touches_mkdir) (auto intro: prefixeq_butlast)
  show ?thesis
    unfolding install_layout_def Let_def
    using c d assms(2)
    by (intro touches_intros touches_run [OF assms(1)] touches_rmtree mk touches_replace
        touches_rmtree_ignore)
qed

lemma touches_populate_image:
  assumes "confined_copy srv" "plain_suffixes srv" "CHR ''/'' \<notin> set (img_id i)"
  shows "touches {path_join d (img_path i), d @ [''.staging'']} (populate_oci_image srv i d)"
proof -
  let ?R = "{path_join d (img_path i), d @ [''.staging'']}" and ?sp = "d @ [''.staging'']"
  have mk: "touches ?R (io_do (mkdir_p ?sp))" by (rule touches_mkdir [of ?sp]) auto
  have tail: "touches ?R (io_then (io_do (mkdir_new (?sp @ [n])))
      (install_layout srv i (path_join d (img_path i)) (?sp @ [n])))" for n
    by (intro touches_bind touches_mkdir_new touches_install assms)
      (auto intro: coveredI [of ?sp])
  have get: "touches ?R (io_bind (io_get (staging_name srv i ?sp)) k)"
    if "\<And>n. touches ?R (k (?sp @ [n]))" for k :: "path \<Rightarrow> unit io"
    unfolding touches_def
  proof (intro allI impI)
    fix fs q assume q: "\<forall>t \<in> ?R. parallel t q"
    obtain n where "staging_name srv i ?sp fs = ?sp @ [n]"
      using staging_name_below [OF assms(2,3)] by blast
    then show "lookup (snd (io_bind (io_get (staging_name srv i ?sp)) k fs)) q = lookup fs q"
      using that q by (auto simp: touches_def)
  qed
  show ?thesis
    unfolding populate_oci_image_def Let_def
    by (intro touches_intros mk get tail)
qed

lemma mkdir_new_wf: "wf_fs fs \<Longrightarrow> mkdir_new p fs = Inr fs' \<Longrightarrow> wf_fs fs'"
proof -
  assume wf: "wf_fs fs" and m: "mkdir_new p fs = Inr fs'"
  note l = mkdir_new_ok [OF m]
  show "wf_fs fs'"
    unfolding wf_fs_def is_dir_def using wf_fsD [OF wf] l(2,3) by (auto simp: l(1) is_dir_def)
qed

lemma validated_stage_is_dir:
  assumes "wf_fs fs" "layout_spec i (\<lambda>q. lookup fs (stage @ q))"
  shows "lookup fs stage = Some Dir"
proof -
  have "lookup fs (stage @ [''oci-layout'']) \<noteq> None" using assms(2) by (auto simp: layout_spec_def)
  then show ?thesis using wf_fsD [OF assms(1), of "stage @ [''oci-layout'']"] by (simp add: is_dir_def)
qed

text \<open>The move of a validated stage to its destination, and the clean-up.\<close>

lemma move_stage:
  assumes m: "mkdir_p (butlast dest) fs4 = Inr fs5" "os_replace stage dest fs5 = Inr fs6"
    and par: "parallel dest tmp" and stage: "stage = tmp @ [''layout'']"
    and dir: "lookup fs4 stage = Some Dir"
    and r: "rmtree_ignore tmp fs6 = Inr fs'"
  shows "lookup fs' (dest @ q) = lookup fs4 (stage @ q)"
proof -
  have ps: "parallel dest (tmp @ r)" for r using par by (rule parallel_below)
  have keep: "lookup fs5 (stage @ r) = lookup fs4 (stage @ r)" for r
  proof -
    have "\<not> prefix (stage @ r) (butlast dest)"
      using ps [of "[''layout''] @ r"] prefix_butlastI [of "stage @ r" dest] stage
      by (auto simp: parallel_def)
    then show ?thesis using mkdir_p_ok(1) [OF m(1), of "stage @ r"] by simp
  qed
  have "lookup fs5 stage = Some Dir" using keep [of "[]"] dir by simp
  moreover have "dest \<noteq> stage" "stage \<noteq> []" using ps [of "[''layout'']"] stage by (auto simp: parallel_def)
  ultimately have "lookup fs6 (dest @ q) = lookup fs5 (stage @ q)"
    using replace_dir_ok(1) [OF m(2), of "dest @ q"] by simp
  moreover have "\<not> prefix tmp (dest @ q)"
    using parallel_below [OF parallel_sym [OF par], of q] by (simp add: parallel_def)
  then have "lookup fs' (dest @ q) = lookup fs6 (dest @ q)"
    using r rmtree_lookup by (auto simp: rmtree_ignore_def split: sum.splits)
  ultimately show ?thesis using keep by simp
qed

lemma install_post:
  assumes p: "install_layout srv i dest tmp fs = (Inr (), fs')" and wf: "wf_fs fs"
    and srv: "confined_copy srv" and par: "parallel dest tmp"
  shows "layout_spec i (\<lambda>q. lookup fs' (dest @ q))"
proof -
  let ?stage = "tmp @ [''layout'']"
  obtain fs3 fs4 fs5 fs6 where
    run: "run srv (layout_command i ?stage) fs = (Inr (), fs3)"
    and val: "validate_oci_layout i ?stage fs3 = Inr []"
    and rm: "rmtree dest fs3 = Inr fs4 \<or> fs4 = fs3"
    and mv: "mkdir_p (butlast dest) fs4 = Inr fs5" "os_replace ?stage dest fs5 = Inr fs6"
      "rmtree_ignore tmp fs6 = Inr fs'"
    using p by (auto simp: install_layout_def Let_def split: if_splits)
  have "wf_fs fs3" using wf srv run run_snd [of srv _ fs] by (metis confined_copy_def snd_conv)
  moreover have spec: "layout_spec i (\<lambda>q. lookup fs3 (?stage @ q))"
    using val by (simp only: validate_oci_layout_ok)
  ultimately have dir: "lookup fs3 ?stage = Some Dir" by (rule validated_stage_is_dir)
  have "\<not> prefix dest (?stage @ q)" for q
    using parallel_below [OF par, of "[''layout''] @ q"] by (simp add: parallel_def)
  then have same: "lookup fs4 (?stage @ q) = lookup fs3 (?stage @ q)" for q
    using rm rmtree_lookup by auto
  have "lookup fs' (dest @ q) = lookup fs4 (?stage @ q)" for q
    using mv(1,2) par refl _ mv(3) by (rule move_stage) (use same [of "[]"] dir in simp)
  then show ?thesis using spec by (simp only: same)
qed

lemma populate_image_post:
  assumes p: "populate_oci_image srv i d fs = (Inr (), fs')" and wf: "wf_fs fs"
    and srv: "confined_copy srv" "plain_suffixes srv" "CHR ''/'' \<notin> set (img_id i)"
    and par: "parallel (path_join d (img_path i)) (d @ [''.staging''])"
  shows "layout_spec i (\<lambda>q. lookup fs' (path_join d (img_path i) @ q))"
proof (cases "is_dir fs (path_join d (img_path i))
    \<and> validate_oci_layout i (path_join d (img_path i)) fs = Inr []")
  case True
  then have "fs' = fs" using p by (auto simp: populate_oci_image_def Let_def)
  then show ?thesis using True by (simp add: validate_oci_layout_ok)
next
  case False
  let ?dest = "path_join d (img_path i)" and ?sp = "d @ [''.staging'']"
  obtain fs1 fs2 where s: "mkdir_p ?sp fs = Inr fs1"
    "mkdir_new (staging_name srv i ?sp fs1) fs1 = Inr fs2"
    "install_layout srv i ?dest (staging_name srv i ?sp fs1) fs2 = (Inr (), fs')"
    using p False by (auto simp: populate_oci_image_def Let_def split: if_splits)
  obtain n where n: "staging_name srv i ?sp fs1 = ?sp @ [n]"
    using staging_name_below [OF srv(2,3)] by blast
  have "wf_fs fs2" using wf mkdir_op.op_wf s(1) mkdir_new_wf s(2) by blast
  moreover have "parallel ?dest (?sp @ [n])" using par by (rule parallel_below)
  ultimately show ?thesis using s(3) srv(1) unfolding n by (intro install_post)
qed

lemma rmtree_keeps_wf: "p \<noteq> [] \<Longrightarrow> io_keeps wf_fs (io_do (rmtree p))"
  using rmtree_wf by (intro io_keeps_do) blast

lemma rmtree_ignore_keeps_wf: "p \<noteq> [] \<Longrightarrow> io_keeps wf_fs (io_do (rmtree_ignore p))"
  using rmtree_wf by (intro io_keeps_do) (auto simp: rmtree_ignore_def split: sum.splits)

lemma replace_keeps_wf: "p \<noteq> [] \<Longrightarrow> io_keeps wf_fs (io_do (os_replace p q))"
  using replace_wf by (intro io_keeps_do) blast

lemma populate_image_wf:
  assumes "confined_copy srv" "d \<noteq> []" "\<not> is_absolute (img_path i)" "plain_suffixes srv"
    "CHR ''/'' \<notin> set (img_id i)"
  shows "io_keeps wf_fs (populate_oci_image srv i d)"
proof -
  let ?dest = "path_join d (img_path i)" and ?sp = "d @ [''.staging'']"
  have dest: "?dest \<noteq> []" using assms(2,3) by (simp add: path_join_def)
  have run: "io_keeps wf_fs (run srv (layout_command i st))" for st
    using assms(1) by (simp add: io_keeps_def run_snd confined_copy_def)
  have inst: "io_keeps wf_fs (install_layout srv i ?dest (?sp @ [n]))" for n
    unfolding install_layout_def Let_def
    by (intro io_keeps_finally io_keeps_bind io_keeps_intros run rmtree_keeps_wf
        rmtree_ignore_keeps_wf replace_keeps_wf mkdir_op.keeps_wf dest io_keeps_if) auto
  have tail: "io_keeps wf_fs (io_then (io_do (mkdir_new (?sp @ [n]))) (install_layout srv i ?dest (?sp @ [n])))"
    for n using mkdir_new_wf inst by (intro io_keeps_bind io_keeps_do)
  have "\<forall>s. \<exists>n. staging_name srv i ?sp s = ?sp @ [n]"
    using staging_name_below [OF assms(4,5)] by blast
  then obtain n where n: "\<And>s. staging_name srv i ?sp s = ?sp @ [n s]" by (auto dest!: choice)
  have staged: "io_keeps wf_fs (io_bind (io_get (staging_name srv i ?sp)) (\<lambda>t.
      io_then (io_do (mkdir_new t)) (install_layout srv i ?dest t)))"
    using tail unfolding io_keeps_def by (simp add: n)
  show ?thesis
    unfolding populate_oci_image_def Let_def
    by (rule io_keeps_bind [OF io_keeps_intros(5)], rule io_keeps_if [OF io_keeps_intros(1)],
        rule io_keeps_bind [OF mkdir_op.keeps_wf staged])
qed

section \<open>Metadata\<close>

lemma parallel_singletons: "parallel (d @ [a]) (d @ [b]) \<longleftrightarrow> a \<noteq> b"
  by (auto simp: parallel_def)

lemma tmp_of_child: "tmp_of (d @ [n]) = d @ [tmp_name n]"
  by (simp add: with_name_def path_name_def)

text \<open>A later metadata file does not disturb an earlier one.\<close>

lemma write_replace_other:
  assumes "write_replace (d @ [n]) c fs = (Inr (), fs')" "m \<noteq> n" "m \<noteq> tmp_name n"
  shows "lookup fs' (d @ [m]) = lookup fs (d @ [m])"
  by (rule touchesD [OF touches_write_replace assms(1)])
    (use assms(2,3) in \<open>auto simp: tmp_of_child parallel_singletons\<close>)

lemma write_metadata_post:
  assumes "write_metadata lock r fs = (Inr dd, fs')" "inventory lock = Inr items"
    "oci_inventory lock = Inr images"
  shows "lookup fs' (cache_dir lock r @ [''lock.json'']) = Some (File (canonical_json lock))"
    and "lookup fs' (cache_dir lock r @ [''artifacts.json'']) =
      Some (File (utf8_encode (dumps indent2_style (VList (map item_val items)) @ nl)))"
    and "lookup fs' (cache_dir lock r @ [''oci-images.json'']) =
      Some (File (utf8_encode (dumps indent2_style (VList (map image_val images)) @ nl)))"
    and "lookup fs' (cache_dir lock r @ [''checksums.txt'']) =
      Some (File (utf8_encode (concat (map (\<lambda>item. checksum_line item @ nl) items))))"
    and "lookup fs' (cache_dir lock r @ [''complete.json'']) =
      Some (File (utf8_encode (dumps indent2_style
        (completion_record lock (length items) (length images)) @ nl)))"
    and "is_dir fs' (cache_dir lock r)" "dd = cache_dir lock r"
proof -
  let ?d = "cache_dir lock r"
  obtain f1 f2 f3 f4 f5 where
    w: "write_replace (?d @ [''lock.json'']) (canonical_json lock) f1 = (Inr (), f2)"
      "write_json (?d @ [''artifacts.json'']) (VList (map item_val items)) f2 = (Inr (), f3)"
      "write_json (?d @ [''oci-images.json'']) (VList (map image_val images)) f3 = (Inr (), f4)"
      "write_replace (?d @ [''checksums.txt''])
        (utf8_encode (concat (map (\<lambda>item. checksum_line item @ nl) items))) f4 = (Inr (), f5)"
      "write_json (?d @ [''complete.json''])
        (completion_record lock (length items) (length images)) f5 = (Inr (), fs')"
    and dd: "dd = ?d"
    using assms by (auto simp: write_metadata_def Let_def)
  note w = w [unfolded write_json_def]
  note post = write_replace_post(1) [OF w(1)] write_replace_post(1) [OF w(2)]
    write_replace_post(1) [OF w(3)] write_replace_post(1) [OF w(4)] write_replace_post(1) [OF w(5)]
  note keep = write_replace_other [OF w(2)] write_replace_other [OF w(3)]
    write_replace_other [OF w(4)] write_replace_other [OF w(5)]
  show "lookup fs' (?d @ [''lock.json'']) = Some (File (canonical_json lock))"
    using post(1) keep by (simp add: tmp_name_def)
  show "lookup fs' (?d @ [''artifacts.json'']) =
      Some (File (utf8_encode (dumps indent2_style (VList (map item_val items)) @ nl)))"
    using post(2) keep by (simp add: tmp_name_def)
  show "lookup fs' (?d @ [''oci-images.json'']) =
      Some (File (utf8_encode (dumps indent2_style (VList (map image_val images)) @ nl)))"
    using post(3) keep by (simp add: tmp_name_def)
  show "lookup fs' (?d @ [''checksums.txt'']) =
      Some (File (utf8_encode (concat (map (\<lambda>item. checksum_line item @ nl) items))))"
    using post(4) keep by (simp add: tmp_name_def)
  show "lookup fs' (?d @ [''complete.json'']) = Some (File (utf8_encode (dumps indent2_style
        (completion_record lock (length items) (length images)) @ nl)))"
    using post(5) .
  show "is_dir fs' ?d" using write_replace_post(2) [OF w(5)] by simp
  show "dd = ?d" by (rule dd)
qed

definition metadata_paths :: "path \<Rightarrow> path set" where
  "metadata_paths d = (\<lambda>n. d @ [n]) ` set metadata_names \<union> (\<lambda>n. d @ [tmp_name n]) ` set metadata_names"

lemma touches_metadata: "touches (metadata_paths (cache_dir lock r)) (write_metadata lock r)"
proof -
  let ?d = "cache_dir lock r" and ?R = "metadata_paths (cache_dir lock r)"
  have w: "touches ?R (write_replace (?d @ [n]) c)" if "n \<in> set metadata_names" for n c
    by (rule touches_mono [OF touches_write_replace])
      (use that in \<open>auto simp: metadata_paths_def tmp_of_child\<close>)
  have m: "touches ?R (io_do (mkdir_p ?d))"
    by (rule touches_mkdir [of "?d @ [''lock.json'']"]) (auto simp: metadata_paths_def metadata_names_def)
  show ?thesis
    unfolding write_metadata_def write_json_def Let_def
    by (intro touches_intros m w) (simp_all add: metadata_names_def)
qed

section \<open>The metadata reads back\<close>

lemma json_doc_indent: "wf_val v \<Longrightarrow> json_doc (utf8_encode (dumps indent2_style v @ nl)) = Some v"
  using loads_dumps [of indent2_style v nl] by (simp add: json_doc_def nl_def json_ws_def)

lemma json_doc_canonical:
  assumes "wf_val (VDict lock)"
  shows "json_doc (canonical_json lock) = Some (sort_keys (VDict lock))"
proof -
  have wf: "wf_val (sort_keys (VDict lock))" using assms by (rule wf_val_sort_keys)
  then have "ascii (canonical_json lock)"
    using ascii_dumps(1) [OF wf] by (simp add: canonical_json_def nl_def)
  then have "utf8_decode (canonical_json lock) = Some (canonical_json lock)" using utf8_ascii by blast
  moreover have "loads (canonical_json lock) = Inr (sort_keys (VDict lock))"
    using loads_dumps [of compact_style "sort_keys (VDict lock)" nl] wf
    by (simp add: canonical_json_def nl_def json_ws_def del: sort_keys.simps)
  ultimately show ?thesis by (simp add: json_doc_def del: sort_keys.simps)
qed

lemma wf_records:
  "wf_val (VList (map item_val items))" "wf_val (VList (map image_val images))"
  "wf_val (completion_record lock n m)"
  by (simp_all add: list_all_iff item_val_def image_val_def completion_record_def)

lemma complete_ok_record: "complete_ok lock n m (completion_record lock n m)"
  by (simp add: complete_ok_def completion_record_def dget_def f_eq_def)

lemma splitlines_acc_line:
  "list_all (\<lambda>c. \<not> is_linebreak c) l \<Longrightarrow> splitlines_acc acc (l @ nl @ r) = (acc @ l) # splitlines_acc [] r"
  by (induction l arbitrary: acc) (auto simp: nl_def is_linebreak_def)

lemma splitlines_lines:
  assumes "\<And>i. i \<in> set items \<Longrightarrow> list_all (\<lambda>c. \<not> is_linebreak c) (f i)"
  shows "splitlines (concat (map (\<lambda>i. f i @ nl) items)) = map f items"
  using assms unfolding splitlines_def
proof (induction items)
  case (Cons a items)
  then show ?case using splitlines_acc_line [of "f a" "[]"] by simp
qed simp

lemma hex_no_linebreak: "is_lower_hex c \<Longrightarrow> \<not> is_linebreak c"
  unfolding is_lower_hex_def by (simp, elim disjE) (simp_all add: is_linebreak_def)

section \<open>Locks whose cache entries do not overlap\<close>

text \<open>
  The paths below the cache directory that the operations own: artifacts with their temporary
  names, images, the metadata files with their temporary names and the staging directory.
\<close>

definition owned_paths :: "artifact_item list \<Rightarrow> image_item list \<Rightarrow> path list" where
  "owned_paths items images =
     map (\<lambda>i. path_parts (item_path i)) items @ map (\<lambda>i. tmp_of (path_parts (item_path i))) items
     @ map (\<lambda>i. path_parts (img_path i)) images
     @ map (\<lambda>n. [n]) metadata_names @ map (\<lambda>n. [tmp_name n]) metadata_names @ [[''.staging'']]"

definition tidy_lock :: "pydict \<Rightarrow> artifact_item list \<Rightarrow> image_item list \<Rightarrow> bool" where
  "tidy_lock lock items images \<longleftrightarrow> wf_val (VDict lock)
     \<and> inventory lock = Inr items \<and> oci_inventory lock = Inr images
     \<and> sorted_wrt parallel (owned_paths items images)
     \<and> list_all (\<lambda>i. list_all (\<lambda>c. \<not> is_linebreak c) (item_path i)) items
     \<and> list_all (\<lambda>i. CHR ''/'' \<notin> set (img_id i)) images"

lemma tidy_parallel:
  assumes "tidy_lock lock items images"
  shows "i \<in> set items \<Longrightarrow> m \<in> metadata_paths d \<Longrightarrow> parallel m (d @ path_parts (item_path i))"
    and "j \<in> set images \<Longrightarrow> m \<in> metadata_paths d \<Longrightarrow> parallel m (d @ path_parts (img_path j))"
    and "i \<in> set items \<Longrightarrow> j \<in> set images \<Longrightarrow>
      parallel (d @ path_parts (img_path j)) (d @ path_parts (item_path i))"
    and "i \<in> set items \<Longrightarrow> parallel (d @ [''.staging'']) (d @ path_parts (item_path i))"
    and "j \<in> set images \<Longrightarrow> parallel (d @ path_parts (img_path j)) (d @ [''.staging''])"
    and "i \<in> set items \<Longrightarrow> i' \<in> set items \<Longrightarrow> parallel (tmp_of (path_parts (item_path i'))) (path_parts (item_path i))"
    and "i \<in> set items \<Longrightarrow> m \<in> metadata_paths d \<Longrightarrow> parallel m (d @ tmp_of (path_parts (item_path i)))"
proof -
  have s: "sorted_wrt parallel (owned_paths items images)" using assms by (simp add: tidy_lock_def)
  show "i \<in> set items \<Longrightarrow> m \<in> metadata_paths d \<Longrightarrow> parallel m (d @ path_parts (item_path i))"
    and "j \<in> set images \<Longrightarrow> m \<in> metadata_paths d \<Longrightarrow> parallel m (d @ path_parts (img_path j))"
    and "i \<in> set items \<Longrightarrow> j \<in> set images \<Longrightarrow>
      parallel (d @ path_parts (img_path j)) (d @ path_parts (item_path i))"
    and "i \<in> set items \<Longrightarrow> parallel (d @ [''.staging'']) (d @ path_parts (item_path i))"
    and "j \<in> set images \<Longrightarrow> parallel (d @ path_parts (img_path j)) (d @ [''.staging''])"
    and "i \<in> set items \<Longrightarrow> i' \<in> set items \<Longrightarrow> parallel (tmp_of (path_parts (item_path i'))) (path_parts (item_path i))"
    and "i \<in> set items \<Longrightarrow> m \<in> metadata_paths d \<Longrightarrow> parallel m (d @ tmp_of (path_parts (item_path i)))"
    using s unfolding owned_paths_def metadata_paths_def sorted_wrt_append
    by (auto intro: parallel_sym)
qed

lemma tidy_distinct:
  assumes "tidy_lock lock items images"
  shows "i \<in> set items \<Longrightarrow> i' \<in> set items \<Longrightarrow> i \<noteq> i' \<Longrightarrow>
      parallel (path_parts (item_path i')) (path_parts (item_path i))"
    and "j \<in> set images \<Longrightarrow> j' \<in> set images \<Longrightarrow> j \<noteq> j' \<Longrightarrow>
      parallel (path_parts (img_path j')) (path_parts (img_path j))"
  using assms pairwise_parallel [of "\<lambda>i. path_parts (item_path i)" items i' i]
    pairwise_parallel [of "\<lambda>i. path_parts (img_path i)" images j' j]
  by (auto simp: tidy_lock_def owned_paths_def sorted_wrt_append)

lemma tidy_nonempty: "tidy_lock lock items images \<Longrightarrow> i \<in> set items \<Longrightarrow> path_parts (item_path i) \<noteq> []"
  using tidy_parallel(4) [of lock items images i "[]"] by (auto simp: parallel_def)

lemma download_wf:
  assumes "path_join d (item_path i) \<noteq> []"
  shows "io_keeps wf_fs (download srv i d)"
proof -
  let ?p = "path_join d (item_path i)"
  have 1: "io_keeps wf_fs (case fetch srv (item_url i) of
      Inl e \<Rightarrow> io_lift (Inl e)
    | Inr (chunks, failure) \<Rightarrow> io_then (io_do (write_bytes (tmp_of ?p) (concat chunks)))
        (case failure of None \<Rightarrow> io_return (concat chunks) | Some e \<Rightarrow> io_lift (Inl e)))"
    by (auto split: sum.split prod.split option.split
        intro!: io_keeps_bind io_keeps_intros write_op.keeps_wf)
  have "tmp_of ?p \<noteq> []" by (simp add: with_name_def)
  then show ?thesis
    unfolding download_def Let_def
    by (intro io_keeps_bind io_keeps_except io_keeps_if io_keeps_intros 1 mkdir_op.keeps_wf
        unlink_op.keeps_wf replace_keeps_wf)
qed

section \<open>A population that returns\<close>

lemma artifact_problem_nil:
  assumes "has_sha fs (path_join d (item_path i)) (item_sha i)"
  shows "artifact_problem what fs d i = Inr []"
proof -
  obtain c where "lookup fs (path_join d (item_path i)) = Some (File c)" "sha256_hex c = item_sha i"
    using assms by (auto simp: has_sha_def split: option.splits node.splits)
  then show ?thesis
    by (simp add: artifact_problem_def is_file_iff sha256_file_def read_bytes_def Let_def)
qed

lemma validate_contents_nil:
  assumes tidy: "tidy_lock lock items images"
    and meta: "lookup fs (d @ [''lock.json'']) = Some (File (canonical_json lock))"
      "lookup fs (d @ [''artifacts.json'']) =
         Some (File (utf8_encode (dumps indent2_style (VList (map item_val items)) @ nl)))"
      "lookup fs (d @ [''oci-images.json'']) =
         Some (File (utf8_encode (dumps indent2_style (VList (map image_val images)) @ nl)))"
      "lookup fs (d @ [''checksums.txt'']) =
         Some (File (utf8_encode (concat (map (\<lambda>item. checksum_line item @ nl) items))))"
      "lookup fs (d @ [''complete.json'']) = Some (File (utf8_encode (dumps indent2_style
         (completion_record lock (length items) (length images)) @ nl)))"
    and arts: "\<forall>i \<in> set items. has_sha fs (path_join d (item_path i)) (item_sha i)"
    and imgs: "\<forall>j \<in> set images. layout_spec j (\<lambda>q. lookup fs (path_join d (img_path j) @ q))"
  shows "validate_contents lock d fs = Inr []"
proof -
  have inv: "inventory lock = Inr items" "oci_inventory lock = Inr images" "wf_val (VDict lock)"
    using tidy by (simp_all add: tidy_lock_def)
  have r1: "read_json fs (d @ [''lock.json'']) ''lock.json'' = Inr (sort_keys (VDict lock), [])"
    using meta(1) json_doc_canonical [OF inv(3)] by (simp only: read_json_ok) blast
  have r2: "read_json fs (d @ [''artifacts.json'']) ''artifacts.json'' = Inr (VList (map item_val items), [])"
    using meta(2) json_doc_indent [OF wf_records(1)] by (simp only: read_json_ok) blast
  have r3: "read_json fs (d @ [''oci-images.json'']) ''oci-images.json'' = Inr (VList (map image_val images), [])"
    using meta(3) json_doc_indent [OF wf_records(2)] by (simp only: read_json_ok) blast
  have r7: "read_json fs (d @ [''complete.json'']) ''complete.json'' =
      Inr (completion_record lock (length items) (length images), [])"
    using meta(5) json_doc_indent [OF wf_records(3)] by (simp only: read_json_ok) blast
  have "list_all (\<lambda>c. \<not> is_linebreak c) (checksum_line i)" if "i \<in> set items" for i
    using that tidy inventory_item(2) [OF inv(1) that] hex_no_linebreak
    by (auto simp: checksum_line_def tidy_lock_def list_all_iff full_hex_def is_linebreak_def)
  then have sums: "splitlines (concat (map (\<lambda>i. checksum_line i @ nl) items)) = map checksum_line items"
    by (rule splitlines_lines)
  have r4: "read_text fs (d @ [''checksums.txt'']) = Inr (concat (map (\<lambda>i. checksum_line i @ nl) items))"
    using meta(4) by (simp add: read_text_def read_bytes_def)
  obtain p5 where p5: "rmap (artifact_problem ''artifact'' fs d) items = Inr p5" "concat p5 = []"
    using rmap_concat_nil [of "artifact_problem ''artifact'' fs d" items] arts artifact_problem_nil by blast
  obtain p6 where p6: "rmap (\<lambda>j. validate_oci_layout j (path_join d (img_path j)) fs) images = Inr p6"
    "concat p6 = []"
    using rmap_concat_nil [of "\<lambda>j. validate_oci_layout j (path_join d (img_path j)) fs" images]
      imgs validate_oci_layout_ok by blast
  have eqs: "py_eq (sort_keys (VDict lock)) (VDict lock)"
    "py_eq (VList (map item_val items)) (VList (map item_val items))"
    "py_eq (VList (map image_val images)) (VList (map image_val images))"
    using py_eq_sort_keys [OF inv(3)] py_eq_refl wf_records by blast+
  show ?thesis
    unfolding validate_contents_def r1 r2 r3 r4 r7 inv p5(1) p6(1) rbind_simps prod.case Let_def
    by (simp only: eqs sums complete_ok_record p5(2) p6(2) simp_thms if_True append_Nil append_Nil2)
qed

lemma populate_stages:
  assumes p: "populate srv lock r fs = (Inr dd, fs')" and wf: "wf_fs fs"
    and tidy: "tidy_lock lock items images"
  obtains f2 f3 f4 where "wf_fs f2"
    "io_foreach (\<lambda>i. download srv i (cache_dir lock r)) items f2 = (Inr (), f3)"
    "io_foreach (\<lambda>i. populate_oci_image srv i (cache_dir lock r)) images f3 = (Inr (), f4)"
    "write_metadata lock r f4 = (Inr dd, fs')"
proof -
  have inv: "inventory lock = Inr items" "oci_inventory lock = Inr images"
    using tidy by (simp_all add: tidy_lock_def)
  obtain f1 f2 f3 f4 where "mkdir_p (cache_dir lock r) fs = Inr f1"
    "unlink (cache_dir lock r @ [''complete.json'']) f1 = Inr f2"
    and l: "io_foreach (\<lambda>i. download srv i (cache_dir lock r)) items f2 = (Inr (), f3)"
    "io_foreach (\<lambda>i. populate_oci_image srv i (cache_dir lock r)) images f3 = (Inr (), f4)"
    "write_metadata lock r f4 = (Inr dd, fs')"
    using p inv by (auto simp: populate_def Let_def)
  then have "wf_fs f2" using mkdir_op.op_wf unlink_op.op_wf wf by blast
  then show ?thesis using that l by blast
qed

lemma keepsD: "io_keeps P m \<Longrightarrow> P fs \<Longrightarrow> m fs = (x, fs') \<Longrightarrow> P fs'"
  by (auto simp: io_keeps_def)

abbreviation art_at :: "path \<Rightarrow> artifact_item \<Rightarrow> fs \<Rightarrow> bool" where
  "art_at d i s \<equiv> has_sha s (path_join d (item_path i)) (item_sha i)"

abbreviation img_at :: "path \<Rightarrow> image_item \<Rightarrow> fs \<Rightarrow> bool" where
  "img_at d j s \<equiv> layout_spec j (\<lambda>q. lookup s (path_join d (img_path j) @ q))"

lemma art_at_same:
  "art_at d i s \<Longrightarrow> lookup s' (path_join d (item_path i)) = lookup s (path_join d (item_path i))
    \<Longrightarrow> art_at d i s'"
  by (simp add: has_sha_def)

lemma tidy_paths:
  assumes "tidy_lock lock items images"
  shows "i \<in> set items \<Longrightarrow> path_join d (item_path i) = d @ path_parts (item_path i)"
    and "j \<in> set images \<Longrightarrow> path_join d (img_path j) = d @ path_parts (img_path j)"
    and "j \<in> set images \<Longrightarrow> CHR ''/'' \<notin> set (img_id j)"
    and "j \<in> set images \<Longrightarrow> \<not> is_absolute (img_path j)"
  using assms inventory_item(1) [of lock items i] inventory_image(1) [of lock images j]
  by (auto simp: tidy_lock_def list_all_iff path_join_rel)

lemma downloads_establish:
  assumes tidy: "tidy_lock lock items images" and wf: "wf_fs f2" and d: "d \<noteq> []"
    and run: "io_foreach (\<lambda>i. download srv i d) items f2 = (Inr (), f3)"
  shows "wf_fs f3 \<and> (\<forall>i \<in> set items. art_at d i f3)"
proof (rule io_foreach_post [where I = wf_fs and Q = "art_at d", OF run])
  fix i s s' assume i: "i \<in> set items" and "wf_fs s" and m: "download srv i d s = (Inr (), s')"
  then show "art_at d i s' \<and> wf_fs s'"
    using download_post [OF m] keepsD [OF download_wf _ m] tidy_paths(1) [OF tidy i] d by auto
next
  fix i i' s s' assume i: "i \<in> set items" "i' \<in> set items" "i \<noteq> i'" and A: "art_at d i s"
    and m: "download srv i' d s = (Inr (), s')"
  have "lookup s' (path_join d (item_path i)) = lookup s (path_join d (item_path i))"
    by (rule touchesD [OF touches_download m])
      (use i tidy_distinct(1) [OF tidy] tidy_parallel(6) [OF tidy] tidy_nonempty [OF tidy] in
        \<open>auto simp: tidy_paths(1) [OF tidy] tmp_of_append\<close>)
  with A show "art_at d i s'" by (rule art_at_same)
qed (rule wf)

lemma images_establish:
  assumes tidy: "tidy_lock lock items images" and d: "d \<noteq> []"
    and srv: "confined_copy srv" "plain_suffixes srv"
    and pre: "wf_fs f3 \<and> (\<forall>i \<in> set items. art_at d i f3)"
    and run: "io_foreach (\<lambda>i. populate_oci_image srv i d) images f3 = (Inr (), f4)"
  shows "(wf_fs f4 \<and> (\<forall>i \<in> set items. art_at d i f4)) \<and> (\<forall>j \<in> set images. img_at d j f4)"
proof (rule io_foreach_post
    [where I = "\<lambda>s. wf_fs s \<and> (\<forall>i \<in> set items. art_at d i s)" and Q = "img_at d", OF run])
  fix j s s' assume j: "j \<in> set images" and I: "wf_fs s \<and> (\<forall>i \<in> set items. art_at d i s)"
    and m: "populate_oci_image srv j d s = (Inr (), s')"
  note p = tidy_paths [OF tidy]
  have "img_at d j s'"
    using m I srv j p tidy_parallel(5) [OF tidy j] by (intro populate_image_post) auto
  moreover have "wf_fs s'"
    using keepsD [OF populate_image_wf _ m] I srv d p j by blast
  moreover have "art_at d i s'" if i: "i \<in> set items" for i
  proof -
    have "lookup s' (path_join d (item_path i)) = lookup s (path_join d (item_path i))"
      by (rule touchesD [OF touches_populate_image [OF srv p(3) [OF j]] m])
        (use i j tidy_parallel(3,4) [OF tidy] in \<open>auto simp: p(1,2)\<close>)
    then show ?thesis using I i art_at_same by blast
  qed
  ultimately show "img_at d j s' \<and> (wf_fs s' \<and> (\<forall>i \<in> set items. art_at d i s'))" by blast
next
  fix j j' s s' assume j: "j \<in> set images" "j' \<in> set images" "j \<noteq> j'" and L: "img_at d j s"
    and m: "populate_oci_image srv j' d s = (Inr (), s')"
  have "lookup s' (path_join d (img_path j) @ q) = lookup s (path_join d (img_path j) @ q)" for q
    by (rule touches_subtree [OF touches_populate_image [OF srv tidy_paths(3) [OF tidy j(2)]] m])
      (use j tidy_distinct(2) [OF tidy] tidy_parallel(5) [OF tidy] in
        \<open>auto simp: tidy_paths(2) [OF tidy] intro: parallel_sym\<close>)
  then show "img_at d j s'" using L by simp
qed (rule pre)

lemma metadata_keeps:
  assumes tidy: "tidy_lock lock items images" and w: "write_metadata lock r f4 = (x, fs')"
    and pre: "\<forall>i \<in> set items. art_at (cache_dir lock r) i f4" "\<forall>j \<in> set images. img_at (cache_dir lock r) j f4"
  shows "\<forall>i \<in> set items. art_at (cache_dir lock r) i fs'" "\<forall>j \<in> set images. img_at (cache_dir lock r) j fs'"
proof -
  let ?d = "cache_dir lock r"
  have "lookup fs' (path_join ?d (item_path i)) = lookup f4 (path_join ?d (item_path i))"
    if "i \<in> set items" for i
    by (rule touchesD [OF touches_metadata w])
      (use that tidy_parallel(1) [OF tidy] in \<open>auto simp: tidy_paths(1) [OF tidy]\<close>)
  then show "\<forall>i \<in> set items. art_at ?d i fs'" using pre(1) art_at_same by blast
  have "lookup fs' (path_join ?d (img_path j) @ q) = lookup f4 (path_join ?d (img_path j) @ q)"
    if "j \<in> set images" for j q
    by (rule touches_subtree [OF touches_metadata w])
      (use that tidy_parallel(2) [OF tidy] in \<open>auto simp: tidy_paths(2) [OF tidy]\<close>)
  then show "\<forall>j \<in> set images. img_at ?d j fs'" using pre(2) by simp
qed

lemma populate_validates_aux:
  assumes "populate srv lock r fs = (Inr directory, fs')" "wf_fs fs"
    and tidy: "tidy_lock lock items images" and srv: "confined_copy srv" "plain_suffixes srv"
  shows "directory = cache_dir lock r \<and> validate_cache lock r fs' = Inr []"
proof -
  let ?d = "cache_dir lock r"
  obtain f2 f3 f4 where f: "wf_fs f2"
    "io_foreach (\<lambda>i. download srv i ?d) items f2 = (Inr (), f3)"
    "io_foreach (\<lambda>i. populate_oci_image srv i ?d) images f3 = (Inr (), f4)"
    "write_metadata lock r f4 = (Inr directory, fs')"
    using populate_stages assms(1-3) by blast
  have d: "?d \<noteq> []" by (simp add: cache_dir_def)
  have f4: "\<forall>i \<in> set items. art_at ?d i f4" "\<forall>j \<in> set images. img_at ?d j f4"
    using images_establish [OF tidy d srv downloads_establish [OF tidy f(1) d f(2)] f(3)] by blast+
  have inv: "inventory lock = Inr items" "oci_inventory lock = Inr images"
    using tidy by (simp_all add: tidy_lock_def)
  note post = write_metadata_post [OF f(4) inv]
  have "validate_contents lock ?d fs' = Inr []"
    by (rule validate_contents_nil [OF tidy post(1-5) metadata_keeps [OF tidy f(4) f4]])
  moreover have "filter (\<lambda>name. \<not> is_file fs' (?d @ [name])) metadata_names = []"
    using post(1-5) by (simp add: metadata_names_def is_file_iff)
  ultimately show ?thesis using post(6,7) by (simp add: validate_cache_def Let_def)
qed

section \<open>A population that raises\<close>

text \<open>A state predicate kept whenever a program raises.\<close>

definition fail_keeps :: "(fs \<Rightarrow> bool) \<Rightarrow> 'a io \<Rightarrow> bool" where
  "fail_keeps P m \<longleftrightarrow> (\<forall>fs e fs'. P fs \<longrightarrow> m fs = (Inl e, fs') \<longrightarrow> P fs')"

lemma fail_keeps_of_keeps: "io_keeps P m \<Longrightarrow> fail_keeps P m"
  by (auto simp: fail_keeps_def dest: keepsD)

lemma fail_keeps_bind:
  "io_keeps P m \<Longrightarrow> (\<And>x. fail_keeps P (k x)) \<Longrightarrow> fail_keeps P (io_bind m k)"
  unfolding fail_keeps_def io_bind_def
  by (auto split: prod.splits sum.splits) (metis io_keeps_def snd_conv)+

lemma fail_keeps_return: "fail_keeps P m \<Longrightarrow> fail_keeps P (io_bind m (\<lambda>_. io_return x))"
  unfolding fail_keeps_def io_bind_def io_return_def by (auto split: prod.splits sum.splits)

lemma touches_keeps:
  "touches R m \<Longrightarrow> (\<And>t. t \<in> R \<Longrightarrow> parallel t p) \<Longrightarrow> io_keeps (\<lambda>s. lookup s p = v) m"
  by (auto simp: io_keeps_def touches_def)

lemma write_replace_fails: "p \<noteq> tmp_of p \<Longrightarrow> fail_keeps (\<lambda>s. lookup s p = None) (write_replace p c)"
  unfolding fail_keeps_def write_replace_def io_bind_def io_do_def
  by (auto split: prod.splits sum.splits simp: write_bytes_ok(1))

abbreviation absent :: "path \<Rightarrow> fs \<Rightarrow> bool" where
  "absent p s \<equiv> lookup s p = None"

lemma metadata_fails:
  "fail_keeps (absent (cache_dir lock r @ [''complete.json''])) (write_metadata lock r)"
proof -
  let ?d = "cache_dir lock r" and ?P = "absent (cache_dir lock r @ [''complete.json''])"
  have w: "io_keeps ?P (write_replace (?d @ [n]) c)"
    if "n \<noteq> ''complete.json''" "tmp_name n \<noteq> ''complete.json''" for n c
    by (rule touches_keeps [OF touches_write_replace]) (use that in \<open>auto simp: tmp_of_child parallel_singletons\<close>)
  have m: "io_keeps ?P (io_do (mkdir_p ?d))"
    by (rule io_keeps_do) (auto simp: mkdir_p_ok(1))
  have last: "fail_keeps ?P (write_replace (?d @ [''complete.json'']) c)" for c
    by (rule write_replace_fails) (simp add: tmp_name_def with_name_def)
  show ?thesis
    unfolding write_metadata_def write_json_def Let_def
    by (intro fail_keeps_return [OF last] fail_keeps_bind m io_keeps_intros w) (simp_all add: tmp_name_def)
qed

lemma mkdir_p_existing:
  assumes "wf_fs fs" "is_dir fs p"
  shows "mkdir_p p fs = Inr fs"
proof -
  have dirs: "lookup fs q = Some Dir" if "prefix q p" for q
    using wf_prefix_dir [OF assms(1), of p q] assms(2) that
    by (cases "q = p") (auto simp: is_dir_def strict_prefix_def)
  have "rfold (\<lambda>fs q. case lookup fs q of Some Dir \<Rightarrow> Inr fs
      | Some (File _) \<Rightarrow> raise (if q = p then FileExistsError else NotADirectoryError) m
      | None \<Rightarrow> Inr (AList.update q Dir fs)) fs qs = Inr fs" if "\<forall>q \<in> set qs. prefix q p" for qs m
    using that by (induction qs) (auto simp: dirs)
  then show ?thesis unfolding mkdir_p_def by simp
qed

lemma tidy_complete:
  assumes "tidy_lock lock items images"
  shows "i \<in> set items \<Longrightarrow> parallel (d @ path_parts (item_path i)) (d @ [''complete.json''])"
    and "i \<in> set items \<Longrightarrow> parallel (d @ tmp_of (path_parts (item_path i))) (d @ [''complete.json''])"
    and "j \<in> set images \<Longrightarrow> parallel (d @ path_parts (img_path j)) (d @ [''complete.json''])"
    and "parallel (d @ [''.staging'']) (d @ [''complete.json''])"
proof -
  have c: "d @ [''complete.json''] \<in> metadata_paths d"
    by (simp add: metadata_paths_def metadata_names_def)
  show "i \<in> set items \<Longrightarrow> parallel (d @ path_parts (item_path i)) (d @ [''complete.json''])"
    and "i \<in> set items \<Longrightarrow> parallel (d @ tmp_of (path_parts (item_path i))) (d @ [''complete.json''])"
    and "j \<in> set images \<Longrightarrow> parallel (d @ path_parts (img_path j)) (d @ [''complete.json''])"
    using tidy_parallel(1,2,7) [OF assms _ c] parallel_sym by blast+
  show "parallel (d @ [''.staging'']) (d @ [''complete.json''])" by (simp add: parallel_def)
qed

lemma populate_tail_fails:
  assumes tidy: "tidy_lock lock items images" and srv: "confined_copy srv" "plain_suffixes srv"
  shows "fail_keeps (absent (cache_dir lock r @ [''complete.json'']))
    (io_bind (io_lift (inventory lock)) (\<lambda>items.
     io_then (io_foreach (\<lambda>item. download srv item (cache_dir lock r)) items)
    (io_bind (io_lift (oci_inventory lock)) (\<lambda>images.
     io_then (io_foreach (\<lambda>item. populate_oci_image srv item (cache_dir lock r)) images)
    (write_metadata lock r)))))"
proof -
  let ?d = "cache_dir lock r" and ?P = "absent (cache_dir lock r @ [''complete.json''])"
  have inv: "inventory lock = Inr items" "oci_inventory lock = Inr images"
    using tidy by (simp_all add: tidy_lock_def)
  have lift: "io_bind (io_lift (Inr x)) k = k x" for x :: 'x and k :: "'x \<Rightarrow> path io"
    by (simp add: io_bind_def io_lift_def fun_eq_iff)
  have "io_keeps ?P (download srv i ?d)" if "i \<in> set items" for i
    by (rule touches_keeps [OF touches_download])
      (use that tidy_complete(1,2) [OF tidy] tidy_nonempty [OF tidy that] in
        \<open>auto simp: tidy_paths(1) [OF tidy that] tmp_of_append\<close>)
  then have dl: "io_keeps ?P (io_foreach (\<lambda>i. download srv i ?d) items)" by (rule io_keeps_foreach)
  have "io_keeps ?P (populate_oci_image srv j ?d)" if "j \<in> set images" for j
    by (rule touches_keeps [OF touches_populate_image [OF srv tidy_paths(3) [OF tidy that]]])
      (use that tidy_complete(3,4) [OF tidy] in \<open>auto simp: tidy_paths(2) [OF tidy that]\<close>)
  then have im: "io_keeps ?P (io_foreach (\<lambda>j. populate_oci_image srv j ?d) images)"
    by (rule io_keeps_foreach)
  show ?thesis unfolding inv lift by (intro fail_keeps_bind dl im metadata_fails)
qed

lemma populate_failure_aux:
  assumes p: "populate srv lock r fs = (Inl e, fs')" and wf: "wf_fs fs"
    and tidy: "tidy_lock lock items images" and srv: "confined_copy srv" "plain_suffixes srv"
  shows "\<not> is_file fs' (cache_dir lock r @ [''complete.json''])"
proof -
  let ?d = "cache_dir lock r" and ?c = "cache_dir lock r @ [''complete.json'']"
  show ?thesis
  proof (cases "mkdir_p ?d fs")
    case (Inl e1)
    then have "fs' = fs" using p by (simp add: populate_def Let_def io_bind_def io_do_def)
    moreover have "\<not> is_file fs ?c"
    proof
      assume "is_file fs ?c"
      then have "is_dir fs ?d" using wf_fsD [OF wf, of ?c] by (auto simp: is_file_iff)
      then show False using mkdir_p_existing [OF wf] Inl by simp
    qed
    ultimately show ?thesis by simp
  next
    case (Inr f1)
    show ?thesis
    proof (cases "unlink ?c f1")
      case (Inl e1)
      then have "fs' = f1" using p Inr by (simp add: populate_def Let_def io_bind_def io_do_def)
      moreover have "\<not> is_file f1 ?c" using Inl by (auto simp: unlink_def is_file_iff)
      ultimately show ?thesis by simp
    next
      case f2: (Inr f2)
      have "lookup f2 ?c = None" using unlink_ok(1) [OF f2] by simp
      then have "lookup fs' ?c = None"
        using p Inr f2 populate_tail_fails [OF tidy srv, of r]
        by (auto simp: populate_def Let_def io_bind_def [of "io_do _"] io_do_def fail_keeps_def)
      then show ?thesis by (simp add: is_file_iff)
    qed
  qed
qed

section \<open>Pruning\<close>

lemma foreach_rmtree:
  assumes "io_foreach (\<lambda>c. io_do (rmtree c)) cs fs = (Inr (), fs')" "[] \<notin> set cs"
  shows "lookup fs' q = (if \<exists>c \<in> set cs. prefix c q then None else lookup fs q)"
  using assms
proof (induction cs arbitrary: fs)
  case (Cons c cs)
  then obtain f1 where f1: "rmtree c fs = Inr f1" "io_foreach (\<lambda>c. io_do (rmtree c)) cs f1 = (Inr (), fs')"
    by auto
  have "c \<noteq> []" using Cons.prems(2) by auto
  then show ?case using Cons.IH [OF f1(2)] Cons.prems(2) rmtree_ok [OF f1(1), of q] by auto
qed simp

lemma child_names_mem: "lookup fs (p @ [n]) \<noteq> None \<Longrightarrow> n \<in> set (child_names fs p)"
proof -
  assume "lookup fs (p @ [n]) \<noteq> None"
  then obtain v where "(p @ [n], v) \<in> set fs" by (auto simp: lookup_def dest: map_of_SomeD)
  then show ?thesis by (force simp: child_names_def image_iff)
qed

section \<open>A lock and services for which the assumptions hold\<close>

definition small_item :: artifact_item where
  "small_item = \<lparr> item_id = ''a'', item_path = ''bin/a'', item_sha = sha256_hex ''x'',
     item_url = ''https://h/a'' \<rparr>"

definition small_lock :: pydict where
  "small_lock = [(''artifacts'', VList [item_val small_item])]"

definition small_services :: "bool \<Rightarrow> services" where
  "small_services up = \<lparr> fetch = (\<lambda>url. if up then Inr ([''x''], None) else Inl (Raise OSError ''unreachable'')),
     run_cmd = (\<lambda>cmd fs. (CommandNotFound, fs)), temp_suffix = (\<lambda>fs p. ''s'') \<rparr>"

lemma small_services_ok: "confined_copy (small_services up)" "plain_suffixes (small_services up)"
  by (simp_all add: confined_copy_def plain_suffixes_def small_services_def)

lemma char_lower_hex: "is_lower_hex c \<Longrightarrow> char_lower c = c"
  unfolding is_lower_hex_def by (simp, elim disjE) (simp_all add: char_lower_def)

lemma py_lower_sha [simp]: "py_lower (sha256_hex s) = sha256_hex s"
  using sha256_hex_digest(2) [of s] char_lower_hex
  by (auto simp: py_lower_def list_all_iff intro: map_idI)

lemma is_sha256_digest [simp]: "is_sha256 (sha256_hex s)"
  by (simp add: is_sha256_def sha256_hex_digest)

lemma small_path: "path_parts ''bin/a'' = [''bin'', ''a'']" "\<not> is_absolute ''bin/a''"
  by code_simp+

lemma small_inventory: "inventory small_lock = Inr [small_item]" "oci_inventory small_lock = Inr []"
proof -
  have "urlparse ''https://h/a'' = Inr (''https'', ''h'')" by code_simp
  then show "inventory small_lock = Inr [small_item]"
    by (simp add: inventory_def artifact_inventory_def small_lock_def dget_or_def artifact_entry_def
        item_val_def small_item_def dget_def safe_cache_path_def small_path)
  show "oci_inventory small_lock = Inr []"
    by (simp add: oci_inventory_def small_lock_def dget_or_def)
qed

lemma small_tidy: "tidy_lock small_lock [small_item] []"
proof -
  have "path_parts (item_path small_item) = [''bin'', ''a'']"
    by (simp add: small_item_def small_path)
  then have "sorted_wrt parallel (owned_paths [small_item] [])"
    by (simp add: owned_paths_def metadata_names_def with_name_def path_name_def tmp_name_def parallel_def)
  moreover have "wf_val (VDict small_lock)" by (simp add: small_lock_def item_val_def)
  ultimately show ?thesis
    using small_inventory
    by (simp add: tidy_lock_def small_item_def is_linebreak_def)
qed

abbreviation small_dir :: path where
  "small_dir \<equiv> cache_dir small_lock [''c'']"

definition small_start :: fs where
  "small_start = [([''c''], Dir), ([''c'', ''locks''], Dir), (small_dir, Dir),
     (small_dir @ [''complete.json''], File ''old'')]"

lemma small_dir_path: "small_dir = [''c'', ''locks'', lock_digest small_lock]"
  by (simp add: cache_dir_def)

lemma small_start_wf: "wf_fs small_start"
  unfolding wf_fs_def
proof (intro allI impI)
  fix p assume "p \<noteq> []" "lookup small_start p \<noteq> None"
  then show "is_dir small_start (butlast p)"
    by (auto simp: small_start_def lookup_def is_dir_def small_dir_path split: if_splits)
qed

lemmas small_eval = populate_def download_def io_bind_def io_do_def io_lift_def io_get_def io_except_def
  io_return_def io_raise_def mkdir_p_def unlink_def lookup_def is_dir_def is_file_def path_join_def
  small_services_def small_item_def small_start_def has_sha_def path_error_def

lemma small_populate_fails:
  "\<exists>e fs'. populate (small_services False) small_lock [''c''] small_start = (Inl e, fs')"
  by (simp add: small_inventory small_eval small_dir_path small_path with_name_def path_name_def
      is_os_error_def tmp_name_def Let_def)

lemma small_populate_returns:
  "\<exists>d fs'. populate (small_services True) small_lock [''c''] small_start = (Inr d, fs')"
  by (simp add: small_inventory small_eval small_dir_path small_path with_name_def path_name_def
      is_os_error_def tmp_name_def Let_def write_metadata_def write_json_def write_replace_def
      write_bytes_def os_replace_def)

section \<open>Properties\<close>





text \<open>
  C13: pruning removes every cache directory but the active one and nothing else: afterwards
  the active cache is as before at every path, nothing outside \<open>locks\<close> has changed, every
  directory reported as removed is gone with its content, and no other directory is left
  beside the active cache.
\<close>

theorem prune_keeps_active:
  assumes "prune lock r fs = (Inr removed, fs')" "wf_fs fs"
  shows "lookup fs' (cache_dir lock r @ q) = lookup fs (cache_dir lock r @ q)
    \<and> (\<not> prefix (r @ [''locks'']) p \<longrightarrow> lookup fs' p = lookup fs p)
    \<and> (c \<in> set removed \<longrightarrow> lookup fs' (c @ p) = None)
    \<and> (is_dir fs' (r @ [''locks'', n]) \<longrightarrow> n = lock_digest lock)"
proof -
  let ?l = "r @ [''locks'']"
  define stale where "stale = (if is_dir fs ?l
      then filter (\<lambda>c. is_dir fs c \<and> path_name c \<noteq> lock_digest lock)
        (map (\<lambda>n. ?l @ [n]) (child_names fs ?l)) else [])"
  have run: "io_foreach (\<lambda>c. io_do (rmtree c)) stale fs = (Inr (), fs')" and rem: "removed = stale"
    using assms(1) by (auto simp: prune_def Let_def stale_def)
  have st: "\<exists>m. c = ?l @ [m] \<and> m \<noteq> lock_digest lock" if "c \<in> set stale" for c
    using that by (auto simp: stale_def path_name_def split: if_splits)
  have "[] \<notin> set stale" using st by fastforce
  note after = foreach_rmtree [OF run this]
  have "\<not> prefix c (cache_dir lock r @ q)" if "c \<in> set stale" for c
    using st [OF that] by (auto simp: cache_dir_def)
  then have 1: "lookup fs' (cache_dir lock r @ q) = lookup fs (cache_dir lock r @ q)"
    using after by simp
  have 2: "lookup fs' p = lookup fs p" if "\<not> prefix ?l p"
    using after [of p] st that append_prefixD [of ?l] by fastforce
  have 3: "lookup fs' (c @ p) = None" if "c \<in> set removed" using after that rem by auto
  have 4: "n = lock_digest lock" if d: "is_dir fs' (r @ [''locks'', n])"
  proof (rule ccontr)
    assume n: "n \<noteq> lock_digest lock"
    have there: "is_dir fs (?l @ [n])" using d after [of "?l @ [n]"] by (auto simp: is_dir_def split: if_splits)
    then have "is_dir fs ?l" using wf_fsD [OF assms(2), of "?l @ [n]"]
      by (simp add: is_dir_def butlast_append)
    moreover have "n \<in> set (child_names fs ?l)" using child_names_mem there by (simp add: is_dir_def)
    ultimately have "?l @ [n] \<in> set stale" using there n by (auto simp: stale_def path_name_def)
    then have "lookup fs' (?l @ [n]) = None" using after [of "?l @ [n]"] by auto
    then show False using d by (simp add: is_dir_def)
  qed
  show ?thesis using 1 2 3 4 by blast
qed

theorem prune_keeps_active_witness:
  "\<exists>fs'. prune small_lock [''c''] (([''c'', ''locks'', ''stale''], Dir) # small_start)
      = (Inr [[''c'', ''locks'', ''stale'']], fs') \<and> lookup fs' [''c'', ''locks'', ''stale''] = None"
proof -
  let ?fs = "([''c'', ''locks'', ''stale''], Dir) # small_start"
  have len: "length (lock_digest small_lock) = 64" by (simp add: lock_digest_def sha256_hex_digest)
  have ne: "''stale'' \<noteq> lock_digest small_lock"
  proof
    assume "''stale'' = lock_digest small_lock"
    from arg_cong [OF this, of length] show False using len by simp
  qed
  have "wf_fs ?fs"
    unfolding wf_fs_def
  proof (intro allI impI)
    fix p assume "p \<noteq> []" "lookup ?fs p \<noteq> None"
    then show "is_dir ?fs (butlast p)"
      using ne by (auto simp: small_start_def lookup_def is_dir_def small_dir_path split: if_splits)
  qed
  moreover obtain fs' where "prune small_lock [''c''] ?fs = (Inr [[''c'', ''locks'', ''stale'']], fs')"
    using ne by (auto simp: prune_def small_eval small_dir_path child_names_def path_name_def rmtree_def Let_def)
  ultimately show ?thesis
    using prune_keeps_active [of small_lock "[''c'']" ?fs "[[''c'', ''locks'', ''stale'']]" fs' _ "[]"
        "[''c'', ''locks'', ''stale'']"] by auto
qed

text \<open>
  The validator of OCI layouts does not require an image. A directory with the layout
  marker and an \<open>index.json\<close> that is a JSON list, and with no blob at all, passes for every
  image of every lock: \<open>validate_oci_layout\<close> returns at the type test of the index without
  recording a problem.
\<close>

theorem validate_oci_layout_accepts_list_index:
  "validate_oci_layout item [''l'']
     [([''l''], Dir), ([''l'', ''oci-layout''], File (dumps compact_style layout_marker)),
      ([''l'', ''index.json''], File ''[]'')] = Inr []"
proof -
  have wf: "wf_val layout_marker" by (simp add: layout_marker_def)
  have "json_doc (dumps compact_style layout_marker) = Some layout_marker"
    using loads_dumps [of compact_style layout_marker "[]"] wf utf8_ascii [OF ascii_dumps(1) [OF wf]]
    by (simp add: json_doc_def)
  moreover have "json_doc ''[]'' = Some (VList [])" by code_simp
  ultimately show ?thesis
    unfolding validate_oci_layout_ok layout_spec_def
    using py_eq_refl [OF wf] by (simp add: lookup_def)
qed

section \<open>The lock and the cache agree\<close>

lemma artifact_entry_total:
  assumes "artifact_ok a"
  shows "\<exists>i. artifact_entry g (n, VDict a) = Inr i \<and> item_id i = art_id (VDict a)
    \<and> item_path i = art_path (VDict a)"
proof -
  obtain i p h u netloc where a: "dget a ''id'' = VStr i" "strip i \<noteq> []"
    "dget a ''cache_path'' = VStr p" "strip p \<noteq> []" "\<not> is_absolute p" "''..'' \<notin> set (path_parts p)"
    "dget a ''sha256'' = VStr h" "full_hex 64 h" "dget a ''url'' = VStr u"
    "urlparse u = Inr (''https'', netloc)"
    using assms by (auto simp: artifact_ok_def)
  have "i \<noteq> []" "p \<noteq> []" using a(2,4) by (auto simp: strip_def)
  moreover have "is_sha256 h"
    using a(8) char_lower_hex by (auto simp: is_sha256_def full_hex_def py_lower_def list_all_iff)
  ultimately show ?thesis
    using a by (simp add: artifact_entry_def Let_def safe_cache_path_def art_id_def art_path_def)
qed

lemma rmap_enumerate_total:
  assumes "\<And>n v. v \<in> set vs \<Longrightarrow> \<exists>y. f (n, v) = Inr y \<and> P v y"
  shows "\<exists>ys. rmap f (enumerate n vs) = Inr ys \<and> list_all2 P vs ys"
  using assms
proof (induction vs arbitrary: n)
  case (Cons v vs)
  obtain y where "f (n, v) = Inr y" "P v y" using Cons.prems [of v n] by auto
  moreover obtain ys where "rmap f (enumerate (Suc n) vs) = Inr ys" "list_all2 P vs ys"
    using Cons.IH [of "Suc n"] Cons.prems by (meson list.set_intros(2))
  ultimately show ?case by simp
qed simp

text \<open>
  C12: the cache never rejects the artifacts of a lock that was accepted: both inventories are
  computed without an exception and list, in order, the ids and the cache paths of the lock's
  artifacts, so population and validation of an accepted lock never fail on its artifacts.
\<close>

theorem load_lock_inventory_total:
  assumes "load_lock safe_load document = Inr data"
  shows "\<exists>items guest. inventory data = Inr items \<and> guest_upgrade_inventory data = Inr guest
    \<and> map item_id (items @ guest) = map art_id (all_artifacts data)
    \<and> map item_path (items @ guest) = map art_path (all_artifacts data)"
proof -
  obtain doc where "check_lock doc = Inr data" using assms by (auto simp: load_lock_def)
  then obtain arts where "validate_artifacts data = Inr arts" using check_lock_ok(7) by blast
  then obtain xs ys st where xy: "dget data ''artifacts'' = VList xs"
    "dget_or data ''guest_upgrade_artifacts'' (VList []) = VList ys" "all_artifacts data = xs @ ys"
    and inv: "artifacts_inv (xs @ ys) st"
    using validate_artifacts_inv by blast
  have ok: "\<forall>v \<in> set (xs @ ys). \<exists>a. v = VDict a \<and> artifact_ok a"
    using inv unfolding artifacts_inv_def by (elim conjE)
  let ?P = "\<lambda>v i. item_id i = art_id v \<and> item_path i = art_path v"
  have total: "\<exists>is. rmap (artifact_entry g) (enumerate 0 vs) = Inr is \<and> list_all2 ?P vs is"
    if sub: "set vs \<subseteq> set (xs @ ys)" for g vs
  proof (rule rmap_enumerate_total)
    fix n v assume "v \<in> set vs"
    then obtain a where "v = VDict a" and a: "artifact_ok a" using ok sub by blast
    then show "\<exists>i. artifact_entry g (n, v) = Inr i \<and> ?P v i"
      using artifact_entry_total [OF a, of g n] by (simp only:)
  qed
  have "dget_or data ''artifacts'' (VList []) = VList xs"
    using xy(1) by (auto simp: dget_def dget_or_def split: option.splits)
  then obtain items guest where i: "inventory data = Inr items" "list_all2 ?P xs items"
    and g: "guest_upgrade_inventory data = Inr guest" "list_all2 ?P ys guest"
    using total [of xs "''artifacts''"] total [of ys "''guest_upgrade_artifacts''"] xy(2)
    unfolding inventory_def guest_upgrade_inventory_def artifact_inventory_def
    by (simp only: as_simps set_append Un_upper1 Un_upper2) blast
  have maps: "list_all2 ?P vs its \<Longrightarrow> map item_id its = map art_id vs \<and> map item_path its = map art_path vs"
    for vs its by (induction rule: list_all2_induct) auto
  show ?thesis using i(1) g(1) xy(3) maps [OF i(2)] maps [OF g(2)] by simp
qed

theorem load_lock_inventory_total_witness:
  "\<exists>items guest. inventory sample_lock_data = Inr items \<and> guest_upgrade_inventory sample_lock_data = Inr guest
    \<and> map item_id (items @ guest) = map art_id (all_artifacts sample_lock_data)"
  using load_lock_inventory_total [OF sample_lock_accepted] by blast

end
