(* ===== verification/Bundle.thy ===== *)
theory Bundle
  imports Py_Json
begin

text \<open>
  The CPU-limit model bundle (\<open>phase8/model/bundle.py\<close>): a JSON document with a content hash,
  built by \<open>build_bundle\<close> and accepted or refused by \<open>validate_bundle\<close>. The documents are
  untyped values; \<open>copy.deepcopy\<close> is the identity on values, and every check of the validator
  is a definition in the order of the source.
\<close>

section \<open>The content hash\<close>

definition REQUIRED_FIELDS :: "string list" where
  "REQUIRED_FIELDS =
     [''schema_version'', ''model_id'', ''model_hash'', ''created_at'', ''provenance'',
      ''workload'', ''telemetry'', ''factors'', ''slo'', ''policy_defaults'', ''response'',
      ''exclusions'']"

definition bundle_canonical_json :: "pydict \<Rightarrow> string" where
  "bundle_canonical_json document = dumps compact_style (sort_keys (VDict document))"

definition hash_input :: "pydict \<Rightarrow> pydict" where
  "hash_input document = AList.delete ''model_hash'' document"

definition expected_hash :: "pydict \<Rightarrow> string" where
  "expected_hash document =
     ''sha256:'' @ sha256_hex (bundle_canonical_json (hash_input document))"

definition verify_model_hash :: "pydict \<Rightarrow> bool" where
  "verify_model_hash document \<longleftrightarrow> dget document ''model_hash'' = VStr (expected_hash document)"

section \<open>Validation\<close>

definition require_mapping :: "pydict \<Rightarrow> string \<Rightarrow> pydict res" where
  "require_mapping document field =
     as_dict (dget document field) BundleError (field @ '' must be an object'') Inr"

definition reject_unknown :: "pydict \<Rightarrow> string list \<Rightarrow> string \<Rightarrow> unit res" where
  "reject_unknown mapping allowed field =
     (let unknown = sort (remdups (filter (\<lambda>k. k \<notin> set allowed) (map fst mapping))) in
      require (unknown = []) BundleError
        (field @ '' contains unsupported fields: '' @ join '', '' unknown) (Inr ()))"

definition finite_number :: "pyval \<Rightarrow> string \<Rightarrow> unit res" where
  "finite_number value field = (case value of
     VInt i \<Rightarrow> rbind (float_of_int i) (\<lambda>_. Inr ())
   | VFloat x \<Rightarrow> require (isfinite x) BundleError (field @ '' must be finite'') (Inr ())
   | _ \<Rightarrow> raise BundleError (field @ '' must be a number''))"

definition check_header :: "pydict \<Rightarrow> unit res" where
  "check_header document =
     (let missing = filter (\<lambda>field. \<not> has_key document field) REQUIRED_FIELDS in
      require (missing = []) BundleError (''missing required fields: '' @ join '', '' missing) (
      rbind (reject_unknown document REQUIRED_FIELDS ''bundle'') (\<lambda>_.
      require (dget document ''schema_version'' = VStr ''cpu-limit-model/v1'') BundleError
        ''unsupported schema_version'' (
      require (nonempty_str (dget document ''model_id'')
               \<and> length (case dget document ''model_id'' of VStr s \<Rightarrow> s | _ \<Rightarrow> []) \<le> 128) BundleError
        ''model_id must be a non-empty string of at most 128 characters'' (
      require (verify_model_hash document) BundleError
        ''model_hash does not match canonical bundle content'' (Inr ()))))))"

definition check_baseline :: "pydict \<Rightarrow> unit res" where
  "check_baseline provenance =
     (if \<not> has_key provenance ''cluster_baseline'' then Inr () else
      rbind (require_mapping provenance ''cluster_baseline'') (\<lambda>baseline.
      rbind (reject_unknown baseline [''kubernetes_version'', ''container_runtime'']
        ''provenance.cluster_baseline'') (\<lambda>_.
      rforeach (\<lambda>field. require (is_str (dget baseline field)) BundleError
        (''provenance.cluster_baseline.'' @ field @ '' is required'') (Inr ()))
        [''kubernetes_version'', ''container_runtime''])))"

definition trials_of :: "pydict \<Rightarrow> string \<Rightarrow> int" where
  "trials_of provenance field = (case dget provenance field of VInt i \<Rightarrow> i | _ \<Rightarrow> 0)"

definition check_provenance :: "pydict \<Rightarrow> unit res" where
  "check_provenance document =
     rbind (require_mapping document ''provenance'') (\<lambda>provenance.
     rbind (reject_unknown provenance
       [''generator'', ''campaign_id'', ''protocol_version'', ''git_revision'', ''trials_total'',
        ''trials_usable'', ''cluster_baseline''] ''provenance'') (\<lambda>_.
     rbind (rforeach (\<lambda>field. require (nonempty_str (dget provenance field)) BundleError
       (''provenance.'' @ field @ '' is required'') (Inr ()))
       [''generator'', ''campaign_id'', ''protocol_version'']) (\<lambda>_.
     rbind (rforeach (\<lambda>field. require (nonneg_int (dget provenance field)) BundleError
       (''provenance.'' @ field @ '' must be a non-negative integer'') (Inr ()))
       [''trials_total'', ''trials_usable'']) (\<lambda>_.
     require (trials_of provenance ''trials_usable'' \<le> trials_of provenance ''trials_total'')
       BundleError ''provenance.trials_usable cannot exceed trials_total'' (
     check_baseline provenance)))))"

text \<open>One turn of the loop over the containers, with the names seen so far.\<close>

definition check_container :: "string list \<Rightarrow> pyval \<Rightarrow> string list res" where
  "check_container names v =
     as_dict v BundleError ''workload.containers entries must be objects'' (\<lambda>container.
     rbind (reject_unknown container [''name'', ''role''] ''workload.containers'') (\<lambda>_.
     require (nonempty_str (dget container ''name'')) BundleError
       ''workload.containers.name is required'' (
     rbind (str_in_set (dget container ''role'') [''app'', ''sidecar'']) (\<lambda>known.
     require known BundleError ''workload.containers.role is invalid'' (
     as_str (dget container ''name'') BundleError ''workload.containers.name is required'' (\<lambda>name.
     require (name \<notin> set names) BundleError ''workload container names must be unique'' (
     Inr (name # names))))))))"

definition check_workload :: "pydict \<Rightarrow> unit res" where
  "check_workload document =
     rbind (require_mapping document ''workload'') (\<lambda>workload.
     rbind (reject_unknown workload [''profile'', ''contract_version'', ''containers''] ''workload'') (\<lambda>_.
     rbind (rforeach (\<lambda>field. require (has_key workload field) BundleError
       (''workload.'' @ field @ '' is required'') (Inr ()))
       [''profile'', ''contract_version'', ''containers'']) (\<lambda>_.
     require (dget workload ''contract_version'' = VStr ''db-cache-mixed/v1'') BundleError
       ''unsupported workload.contract_version'' (
     as_list (dget workload ''containers'') BundleError
       ''workload.containers must be non-empty'' (\<lambda>containers.
     require (containers \<noteq> []) BundleError ''workload.containers must be non-empty'' (
     rbind (rfold check_container [] containers) (\<lambda>_. Inr ())))))))"

definition check_signal :: "pyval \<Rightarrow> unit res" where
  "check_signal signal = require
     (case signal of VStr s \<Rightarrow>
        hd (split_once (CHR ''.'') s) \<in> set [''request'', ''dependency'', ''resource'', ''hpa'']
      | _ \<Rightarrow> False) BundleError
     ''telemetry.required_signals contains an invalid signal'' (Inr ())"

definition check_telemetry :: "pydict \<Rightarrow> unit res" where
  "check_telemetry document =
     rbind (require_mapping document ''telemetry'') (\<lambda>telemetry.
     rbind (reject_unknown telemetry [''contract_version'', ''required_signals''] ''telemetry'') (\<lambda>_.
     require (dget telemetry ''contract_version'' = VStr ''cpu-limit-telemetry/v1'') BundleError
       ''unsupported telemetry.contract_version'' (
     as_list (dget telemetry ''required_signals'') BundleError
       ''telemetry.required_signals must be non-empty'' (\<lambda>signals.
     require (signals \<noteq> []) BundleError ''telemetry.required_signals must be non-empty'' (
     rforeach check_signal signals)))))"

definition range_factors :: "string list" where
  "range_factors = [''cpu_limit_millicores'', ''replicas'', ''request_rate_per_second'',
     ''cpu_request_millicores'', ''node_capacity_millicores'']"

definition check_range :: "pydict \<Rightarrow> string \<Rightarrow> unit res" where
  "check_range factors field =
     rbind (require_mapping factors field) (\<lambda>factor_range.
     rbind (reject_unknown factor_range [''min'', ''max''] (''factors.'' @ field)) (\<lambda>_.
     rbind (finite_number (dget factor_range ''min'') (''factors.'' @ field @ ''.min'')) (\<lambda>_.
     rbind (finite_number (dget factor_range ''max'') (''factors.'' @ field @ ''.max'')) (\<lambda>_.
     require (\<not> num_lt (dget factor_range ''max'') (dget factor_range ''min'')) BundleError
       (''factors.'' @ field @ '' min exceeds max'') (Inr ())))))"

definition check_levels :: "pydict \<Rightarrow> string \<Rightarrow> unit res" where
  "check_levels factors field = require
     (case dget factors field of VList levels \<Rightarrow> levels \<noteq> [] \<and> list_all nonempty_str levels
      | _ \<Rightarrow> False) BundleError
     (''factors.'' @ field @ '' must contain non-empty levels'') (Inr ())"

definition check_factors :: "pydict \<Rightarrow> unit res" where
  "check_factors document =
     rbind (require_mapping document ''factors'') (\<lambda>factors.
     rbind (reject_unknown factors
       [''cpu_limit_millicores'', ''replicas'', ''request_rate_per_second'', ''mix'', ''contention'',
        ''cpu_request_millicores'', ''node_capacity_millicores'', ''postgres_capacity'',
        ''redis_capacity''] ''factors'') (\<lambda>_.
     rbind (rforeach (check_range factors) range_factors) (\<lambda>_.
     rforeach (check_levels factors) [''mix'', ''contention''])))"

definition slo_fields :: "string list" where
  "slo_fields = [''max_p99_latency_ms'', ''min_throughput_rps'', ''max_error_ratio'',
     ''min_availability_ratio'']"

definition check_slo :: "pydict \<Rightarrow> unit res" where
  "check_slo document =
     rbind (require_mapping document ''slo'') (\<lambda>slo.
     rbind (reject_unknown slo slo_fields ''slo'') (\<lambda>_.
     rbind (rforeach (\<lambda>field. finite_number (dget slo field) (''slo.'' @ field)) slo_fields) (\<lambda>_.
     require (\<not> (num_le (dget slo ''max_p99_latency_ms'') (VInt 0)
                \<or> num_lt (dget slo ''min_throughput_rps'') (VInt 0)
                \<or> \<not> in_unit (dget slo ''max_error_ratio'')
                \<or> \<not> in_unit (dget slo ''min_availability_ratio''))) BundleError
       ''slo values are outside allowed ranges'' (Inr ()))))"

text \<open>\<open>0.5 < float(confidence) <= 0.999\<close>, the literals as the nearest binary64 numbers.\<close>

definition confidence_ok :: "pyval \<Rightarrow> bool res" where
  "confidence_ok v =
     rbind (case v of VInt i \<Rightarrow> float_of_int i | VFloat x \<Rightarrow> Inr x
            | _ \<Rightarrow> raise TypeError ''float() argument must be a number'') (\<lambda>x.
     Inr (f_lt (Fin (1 / 2)) x \<and> f_le x (to_float (999 / 1000))))"

definition check_policy :: "pydict \<Rightarrow> unit res" where
  "check_policy document =
     rbind (require_mapping document ''policy_defaults'') (\<lambda>policy.
     rbind (reject_unknown policy
       [''confidence_level'', ''latency_margin_ratio'', ''headroom_ratio'', ''min_replicas'',
        ''max_replicas''] ''policy_defaults'') (\<lambda>_.
     rbind (finite_number (dget policy ''confidence_level'') ''policy_defaults.confidence_level'') (\<lambda>_.
     rbind (confidence_ok (dget policy ''confidence_level'')) (\<lambda>above.
     require above BundleError ''policy_defaults.confidence_level must be above 0.5'' (
     rbind (rforeach (\<lambda>field.
       rbind (finite_number (dget policy field) (''policy_defaults.'' @ field)) (\<lambda>_.
       require (in_unit (dget policy field)) BundleError
         (''policy_defaults.'' @ field @ '' is outside [0, 1]'') (Inr ())))
       [''latency_margin_ratio'', ''headroom_ratio'']) (\<lambda>_.
     require (list_all (\<lambda>field. int_at_least 1 (dget policy field)) [''min_replicas'', ''max_replicas'']
              \<and> \<not> num_lt (dget policy ''max_replicas'') (dget policy ''min_replicas'')) BundleError
       ''policy replica bounds are invalid'' (Inr ())))))))"

definition row_fields :: "string list" where
  "row_fields =
     [''conditions'', ''cpu_limit_millicores'', ''cpu_request_millicores'', ''replicas'',
      ''request_rate_per_second'', ''contention'', ''p50_latency_ms'', ''p99_latency_ms'',
      ''p99_upper_ms'', ''throughput_rps'', ''error_ratio'', ''availability_ratio'',
      ''cpu_usage_millicores'', ''throttle_ratio'', ''throttled_ms_per_second'',
      ''dependency_bound'', ''samples'', ''valid'', ''invalid_reason'']"

definition measured_fields :: "string list" where
  "measured_fields =
     [''cpu_limit_millicores'', ''cpu_request_millicores'', ''replicas'',
      ''request_rate_per_second'', ''p99_latency_ms'', ''p99_upper_ms'', ''throughput_rps'',
      ''error_ratio'', ''availability_ratio'']"

definition check_conditions :: "string \<Rightarrow> pyval \<Rightarrow> unit res" where
  "check_conditions location v =
     as_dict v BundleError (location @ ''.conditions must be an object'') (\<lambda>conditions.
     rbind (reject_unknown conditions
       [''mix'', ''postgres_capacity'', ''redis_capacity'', ''node_capacity_millicores'']
       (location @ ''.conditions'')) (\<lambda>_.
     rbind (rforeach (\<lambda>field. require (nonempty_str (dget conditions field)) BundleError
       (location @ ''.conditions.'' @ field @ '' is required'') (Inr ()))
       [''mix'', ''postgres_capacity'', ''redis_capacity'']) (\<lambda>_.
     require (int_at_least 1 (dget conditions ''node_capacity_millicores'')) BundleError
       (location @ ''.conditions.node_capacity_millicores is invalid'') (Inr ()))))"

definition check_measured :: "string \<Rightarrow> pydict \<Rightarrow> unit res" where
  "check_measured location row =
     rbind (rforeach (\<lambda>field.
       require (has_key row field) BundleError (location @ ''.'' @ field @ '' is required'') (
       finite_number (dget row field) (location @ ''.'' @ field))) measured_fields) (\<lambda>_.
     rbind (rforeach (\<lambda>field. require (int_at_least 1 (dget row field)) BundleError
       (location @ ''.'' @ field @ '' must be a positive integer'') (Inr ()))
       [''cpu_limit_millicores'', ''cpu_request_millicores'', ''replicas'']) (\<lambda>_.
     rforeach (\<lambda>field. require (in_unit (dget row field)) BundleError
       (location @ ''.'' @ field @ '' is outside [0, 1]'') (Inr ()))
       [''error_ratio'', ''availability_ratio'']))"

definition check_row :: "nat \<times> pyval \<Rightarrow> unit res" where
  "check_row ix = (case ix of (index, v) \<Rightarrow>
     let location = ''response['' @ show_nat index @ '']'' in
     as_dict v BundleError (location @ '' must be an object'') (\<lambda>row.
     rbind (reject_unknown row row_fields location) (\<lambda>_.
     rbind (rforeach (\<lambda>field. require (has_key row field) BundleError
       (location @ ''.'' @ field @ '' is required'') (Inr ()))
       [''conditions'', ''samples'', ''valid'']) (\<lambda>_.
     require (int_at_least 1 (dget row ''samples'')) BundleError
       (location @ ''.samples must be positive'') (
     require (case dget row ''valid'' of VBool _ \<Rightarrow> True | _ \<Rightarrow> False) BundleError
       (location @ ''.valid must be boolean'') (
     rbind (str_in_set (dget_or row ''dependency_bound'' (VStr ''no''))
       [''no'', ''postgres'', ''redis'', ''load_generator'', ''unknown'']) (\<lambda>known.
     require known BundleError (location @ ''.dependency_bound is invalid'') (
     rbind (check_conditions location (dget row ''conditions'')) (\<lambda>_.
     check_measured location row)))))))))"

definition check_response :: "pydict \<Rightarrow> unit res" where
  "check_response document =
     as_list (dget document ''response'') BundleError ''response must be non-empty'' (\<lambda>rows.
     require (rows \<noteq> []) BundleError ''response must be non-empty'' (
     rforeach check_row (enumerate 0 rows)))"

definition validate_bundle :: "pydict \<Rightarrow> unit res" where
  "validate_bundle document =
     rforeach (\<lambda>check. check document)
       [check_header, check_provenance, check_workload, check_telemetry, check_factors,
        check_slo, check_policy, check_response]"

section \<open>Building and writing\<close>

record bundle_parts =
  part_model_id :: string
  part_created_at :: string
  part_provenance :: pydict
  part_workload :: pydict
  part_telemetry :: pydict
  part_factors :: pydict
  part_slo :: pydict
  part_policy_defaults :: pydict
  part_response :: "pydict list"
  part_exclusions :: "pydict list"

definition bundle_document :: "bundle_parts \<Rightarrow> pydict" where
  "bundle_document b =
     [(''schema_version'', VStr ''cpu-limit-model/v1''), (''model_id'', VStr (part_model_id b)),
      (''model_hash'', VStr []), (''created_at'', VStr (part_created_at b)),
      (''provenance'', VDict (part_provenance b)), (''workload'', VDict (part_workload b)),
      (''telemetry'', VDict (part_telemetry b)), (''factors'', VDict (part_factors b)),
      (''slo'', VDict (part_slo b)), (''policy_defaults'', VDict (part_policy_defaults b)),
      (''response'', VList (map VDict (part_response b))),
      (''exclusions'', VList (map VDict (part_exclusions b)))]"

definition build_bundle :: "bundle_parts \<Rightarrow> pydict res" where
  "build_bundle b =
     (let document = dset (bundle_document b) ''model_hash''
            (VStr (expected_hash (bundle_document b))) in
      rbind (validate_bundle document) (\<lambda>_. Inr document))"

definition dump_bundle :: "pydict \<Rightarrow> string res" where
  "dump_bundle document =
     rbind (validate_bundle document) (\<lambda>_.
     Inr (dumps indent2_style (sort_keys (VDict document)) @ nl))"

section \<open>Numbers\<close>

lemma finite_number_ok [simp]:
  "finite_number v f = Inr u \<longleftrightarrow> (\<exists>i. v = VInt i \<and> is_ok (float_of_int i)) \<or> (\<exists>a. v = VFloat (Fin a))"
  by (cases v) (auto simp: finite_number_def is_ok_conv isfinite_conv)

lemma finite_number_num: "finite_number v f = Inr u \<Longrightarrow> \<exists>a. num_of v = Some (Fin a)"
  by auto

section \<open>What an accepted bundle is\<close>

definition range_ok :: "pydict \<Rightarrow> string \<Rightarrow> bool" where
  "range_ok factors field \<longleftrightarrow> (\<exists>r lo hi. dget factors field = VDict r
     \<and> num_of (dget r ''min'') = Some (Fin lo) \<and> num_of (dget r ''max'') = Some (Fin hi) \<and> lo \<le> hi)"

lemma check_range_ok:
  assumes "check_range factors field = Inr u"
  shows "range_ok factors field"
proof -
  obtain r where r: "dget factors field = VDict r"
    and lo: "finite_number (dget r ''min'') (''factors.'' @ field @ ''.min'') = Inr ()"
    and hi: "finite_number (dget r ''max'') (''factors.'' @ field @ ''.max'') = Inr ()"
    and le: "\<not> num_lt (dget r ''max'') (dget r ''min'')"
    using assms by (auto simp: check_range_def require_mapping_def simp del: finite_number_ok)
  obtain a b where "num_of (dget r ''min'') = Some (Fin a)" "num_of (dget r ''max'') = Some (Fin b)"
    using finite_number_num [OF lo] finite_number_num [OF hi] by blast
  then show ?thesis using r le by (auto simp: range_ok_def num_lt_def)
qed

definition container_name :: "pyval \<Rightarrow> string" where
  "container_name v = (case v of VDict c \<Rightarrow> (case dget c ''name'' of VStr s \<Rightarrow> s | _ \<Rightarrow> []) | _ \<Rightarrow> [])"

definition container_ok :: "pyval \<Rightarrow> bool" where
  "container_ok v \<longleftrightarrow> (\<exists>c r. v = VDict c \<and> container_name v \<noteq> [] \<and> dget c ''role'' = VStr r
     \<and> r \<in> {''app'', ''sidecar''})"

lemma check_container_ok:
  assumes "check_container names v = Inr names'"
  shows "container_ok v \<and> container_name v \<notin> set names \<and> names' = container_name v # names"
  using assms
  by (auto simp: check_container_def container_ok_def container_name_def nonempty_str_def)

lemma check_containers_ok:
  "rfold check_container names vs = Inr names' \<Longrightarrow> distinct names \<Longrightarrow>
     distinct (map container_name vs) \<and> set names \<inter> container_name ` set vs = {}
     \<and> list_all container_ok vs"
proof (induction vs arbitrary: names)
  case (Cons v vs)
  then obtain n where n: "check_container names v = Inr n" "rfold check_container n vs = Inr names'"
    by auto
  note v = check_container_ok [OF n(1)]
  have "distinct n" using v Cons.prems(2) by simp
  from Cons.IH [OF n(2) this] show ?case using v by auto
qed simp

definition row_ok :: "pyval \<Rightarrow> bool" where
  "row_ok v \<longleftrightarrow> (\<exists>row e a. v = VDict row
     \<and> int_at_least 1 (dget row ''samples'') \<and> int_at_least 1 (dget row ''cpu_limit_millicores'')
     \<and> int_at_least 1 (dget row ''cpu_request_millicores'') \<and> int_at_least 1 (dget row ''replicas'')
     \<and> num_of (dget row ''error_ratio'') = Some (Fin e) \<and> 0 \<le> e \<and> e \<le> 1
     \<and> num_of (dget row ''availability_ratio'') = Some (Fin a) \<and> 0 \<le> a \<and> a \<le> 1)"

lemma check_measured_ok:
  assumes "check_measured location row = Inr u"
  shows "int_at_least 1 (dget row ''cpu_limit_millicores'')
    \<and> int_at_least 1 (dget row ''cpu_request_millicores'') \<and> int_at_least 1 (dget row ''replicas'')
    \<and> (\<exists>e. num_of (dget row ''error_ratio'') = Some (Fin e) \<and> 0 \<le> e \<and> e \<le> 1)
    \<and> (\<exists>a. num_of (dget row ''availability_ratio'') = Some (Fin a) \<and> 0 \<le> a \<and> a \<le> 1)"
proof -
  have num: "\<exists>a. num_of (dget row f) = Some (Fin a)" if "f \<in> set measured_fields" for f
    using assms that unfolding check_measured_def
    by (auto simp del: finite_number_ok dest!: bspec [OF _ that] finite_number_num)
  have "in_unit (dget row ''error_ratio'')" "in_unit (dget row ''availability_ratio'')"
    "int_at_least 1 (dget row ''cpu_limit_millicores'')"
    "int_at_least 1 (dget row ''cpu_request_millicores'')" "int_at_least 1 (dget row ''replicas'')"
    using assms unfolding check_measured_def by simp_all
  moreover obtain e a where "num_of (dget row ''error_ratio'') = Some (Fin e)"
    "num_of (dget row ''availability_ratio'') = Some (Fin a)"
    using num [of "''error_ratio''"] num [of "''availability_ratio''"]
    by (auto simp: measured_fields_def)
  ultimately show ?thesis by (simp add: in_unit_num)
qed

lemma check_row_ok:
  assumes "check_row (i, v) = Inr u"
  shows "row_ok v"
proof -
  obtain row location where "v = VDict row" "int_at_least 1 (dget row ''samples'')"
    "check_measured location row = Inr ()"
    using assms by (auto simp: check_row_def Let_def)
  then show ?thesis using check_measured_ok [of location row "()"] by (auto simp: row_ok_def)
qed

lemma validate_bundle_parts:
  assumes "validate_bundle d = Inr u"
  shows "check_header d = Inr ()" "check_provenance d = Inr ()" "check_workload d = Inr ()"
    "check_telemetry d = Inr ()" "check_factors d = Inr ()" "check_slo d = Inr ()"
    "check_policy d = Inr ()" "check_response d = Inr ()"
  using assms by (simp_all add: validate_bundle_def)

lemma check_provenance_ok:
  assumes "check_provenance d = Inr u"
  shows "\<exists>p t n. dget d ''provenance'' = VDict p \<and> dget p ''trials_total'' = VInt t
    \<and> dget p ''trials_usable'' = VInt n \<and> 0 \<le> n \<and> n \<le> t"
  using assms
  by (auto simp: check_provenance_def require_mapping_def trials_of_def nonneg_int_iff)

lemma check_workload_ok:
  assumes "check_workload d = Inr u"
  shows "\<exists>w cs. dget d ''workload'' = VDict w \<and> dget w ''containers'' = VList cs \<and> cs \<noteq> []
    \<and> distinct (map container_name cs) \<and> list_all container_ok cs"
proof -
  obtain w cs names where w: "dget d ''workload'' = VDict w" "dget w ''containers'' = VList cs" "cs \<noteq> []"
    "rfold check_container [] cs = Inr names"
    using assms by (auto simp: check_workload_def require_mapping_def)
  from check_containers_ok [OF w(4)] show ?thesis using w by simp
qed

lemma check_factors_ok:
  assumes "check_factors d = Inr u"
  shows "\<exists>f. dget d ''factors'' = VDict f \<and> list_all (range_ok f) range_factors"
proof -
  obtain f where f: "dget d ''factors'' = VDict f"
    "\<forall>x \<in> set range_factors. check_range f x = Inr ()"
    using assms by (auto simp: check_factors_def require_mapping_def)
  have "list_all (range_ok f) range_factors"
    unfolding list_all_iff by (intro ballI check_range_ok) (rule bspec [OF f(2)])
  then show ?thesis using f(1) by blast
qed

lemma check_response_ok:
  assumes "check_response d = Inr u"
  shows "\<exists>rows. dget d ''response'' = VList rows \<and> rows \<noteq> [] \<and> list_all row_ok rows"
proof -
  obtain rows where r: "dget d ''response'' = VList rows" "rows \<noteq> []"
    "\<forall>ix \<in> set (enumerate 0 rows). check_row ix = Inr ()"
    using assms by (auto simp: check_response_def)
  have "row_ok v" if v: "v \<in> set rows" for v
  proof -
    obtain i where "(i, v) \<in> set (enumerate 0 rows)" using in_set_enumerate [OF v] by blast
    then show ?thesis using r(3) check_row_ok by blast
  qed
  then show ?thesis using r by (simp add: list_all_iff)
qed

section \<open>The seal\<close>

definition seal :: "pydict \<Rightarrow> pydict" where
  "seal d = dset d ''model_hash'' (VStr (expected_hash d))"

lemma hash_input_set_hash [simp]: "hash_input (dset d ''model_hash'' v) = hash_input d"
  by (simp add: hash_input_def dset_def delete_update_same)

lemma expected_hash_set_hash [simp]: "expected_hash (dset d ''model_hash'' v) = expected_hash d"
  by (simp add: expected_hash_def)

lemma hash_input_set_other: "k \<noteq> ''model_hash'' \<Longrightarrow> hash_input (dset d k v) = dset (hash_input d) k v"
  by (simp add: hash_input_def dset_def delete_update)

lemma dget_dset [simp]: "dget (dset d k v) k' = (if k' = k then v else dget d k')"
  by (simp add: dget_def)

lemma expected_hash_seal_set:
  "k \<noteq> ''model_hash'' \<Longrightarrow> expected_hash (dset (seal d) k v)
     = ''sha256:'' @ sha256_hex (bundle_canonical_json (dset (hash_input d) k v))"
  by (simp add: seal_def expected_hash_def hash_input_set_other)

text \<open>The checks but the header's look at the document only through \<open>dget\<close>.\<close>

lemma checks_cong:
  assumes "\<And>k. k \<noteq> ''model_hash'' \<Longrightarrow> dget d k = dget d' k"
  shows "check_provenance d = check_provenance d'" "check_workload d = check_workload d'"
    "check_telemetry d = check_telemetry d'" "check_factors d = check_factors d'"
    "check_slo d = check_slo d'" "check_policy d = check_policy d'"
    "check_response d = check_response d'"
  unfolding check_provenance_def check_workload_def check_telemetry_def check_factors_def
    check_slo_def check_policy_def check_response_def require_mapping_def
  by (simp_all add: assms)

section \<open>A sample\<close>

definition sample_range :: "int \<Rightarrow> int \<Rightarrow> pyval" where
  "sample_range lo hi = VDict [(''min'', VInt lo), (''max'', VInt hi)]"

definition sample_row :: pydict where
  "sample_row =
     [(''conditions'', VDict [(''mix'', VStr ''read''), (''postgres_capacity'', VStr ''small''),
        (''redis_capacity'', VStr ''small''), (''node_capacity_millicores'', VInt 4000)]),
      (''cpu_limit_millicores'', VInt 500), (''cpu_request_millicores'', VInt 100),
      (''replicas'', VInt 1), (''request_rate_per_second'', VInt 50), (''p99_latency_ms'', VInt 20),
      (''p99_upper_ms'', VInt 25), (''throughput_rps'', VInt 50), (''error_ratio'', VInt 0),
      (''availability_ratio'', VInt 1), (''samples'', VInt 3), (''valid'', VBool True)]"

definition sample_parts :: bundle_parts where
  "sample_parts =
     \<lparr> part_model_id = ''m1'', part_created_at = ''2025-01-01'',
       part_provenance = [(''generator'', VStr ''g''), (''campaign_id'', VStr ''c''),
         (''protocol_version'', VStr ''p''), (''trials_total'', VInt 4), (''trials_usable'', VInt 3)],
       part_workload = [(''profile'', VStr ''db''), (''contract_version'', VStr ''db-cache-mixed/v1''),
         (''containers'', VList [VDict [(''name'', VStr ''web''), (''role'', VStr ''app'')],
            VDict [(''name'', VStr ''proxy''), (''role'', VStr ''sidecar'')]])],
       part_telemetry = [(''contract_version'', VStr ''cpu-limit-telemetry/v1''),
         (''required_signals'', VList [VStr ''request.latency''])],
       part_factors = [(''cpu_limit_millicores'', sample_range 100 2000), (''replicas'', sample_range 1 4),
         (''request_rate_per_second'', sample_range 10 100), (''mix'', VList [VStr ''read'']),
         (''contention'', VList [VStr ''none'']), (''cpu_request_millicores'', sample_range 100 100),
         (''node_capacity_millicores'', sample_range 4000 4000)],
       part_slo = [(''max_p99_latency_ms'', VInt 200), (''min_throughput_rps'', VInt 10),
         (''max_error_ratio'', VInt 0), (''min_availability_ratio'', VInt 1)],
       part_policy_defaults = [(''confidence_level'', VFloat (Fin (3 / 4))),
         (''latency_margin_ratio'', VInt 0), (''headroom_ratio'', VInt 0),
         (''min_replicas'', VInt 1), (''max_replicas'', VInt 4)],
       part_response = [sample_row], part_exclusions = [] \<rparr>"

lemma build_bundle_seal:
  "build_bundle b = rbind (validate_bundle (seal (bundle_document b))) (\<lambda>_. Inr (seal (bundle_document b)))"
  by (simp add: build_bundle_def seal_def Let_def)

lemma check_header_seal:
  assumes "part_model_id b \<noteq> []" "length (part_model_id b) \<le> 128"
  shows "check_header (seal (bundle_document b)) = Inr ()"
proof -
  have keys: "map fst (seal (bundle_document b)) = REQUIRED_FIELDS"
    by (simp add: seal_def dset_def bundle_document_def REQUIRED_FIELDS_def)
  have "verify_model_hash (seal (bundle_document b))"
    by (simp add: verify_model_hash_def seal_def)
  moreover have "dget (seal (bundle_document b)) ''schema_version'' = VStr ''cpu-limit-model/v1''"
    "dget (seal (bundle_document b)) ''model_id'' = VStr (part_model_id b)"
    by (simp_all add: seal_def bundle_document_def dget_def)
  ultimately show ?thesis
    using assms keys
    by (simp add: check_header_def reject_unknown_def has_key_def nonempty_str_def filter_False)
qed

lemmas check_defs = check_provenance_def check_workload_def check_telemetry_def check_factors_def
  check_slo_def check_policy_def check_response_def check_baseline_def check_container_def
  check_signal_def check_range_def check_levels_def check_row_def check_conditions_def
  check_measured_def confidence_ok_def require_mapping_def reject_unknown_def

lemmas sample_defs = bundle_document_def sample_parts_def sample_row_def sample_range_def
  range_factors_def slo_fields_def row_fields_def measured_fields_def

lemma sample_confidence: "f_le (Fin (3 / 4)) (to_float (999 / 1000))"
proof -
  have "fl (3 / 4) = (3 / 4 :: rat)" by code_simp
  moreover have "fl (3 / 4) \<le> fl (999 / 1000)" by (rule fl_mono) simp
  moreover have "to_float (999 / 1000) = Fin (fl (999 / 1000))" by (rule to_float_unit) simp_all
  ultimately show ?thesis by simp
qed

lemma sample_checks:
  "check_provenance (bundle_document sample_parts) = Inr ()"
  "check_workload (bundle_document sample_parts) = Inr ()"
  "check_telemetry (bundle_document sample_parts) = Inr ()"
  "check_factors (bundle_document sample_parts) = Inr ()"
  "check_slo (bundle_document sample_parts) = Inr ()"
  "check_policy (bundle_document sample_parts) = Inr ()"
  "check_response (bundle_document sample_parts) = Inr ()"
  by (simp_all add: check_defs sample_defs dget_def dget_or_def has_key_def nonempty_str_def
      nonneg_int_def trials_of_def int_at_least_def as_int_def in_unit_def num_le_def num_lt_def
      float_of_int_small is_str_def split_once_def sample_confidence
      str_in_set_def finite_number_def del: finite_number_ok)

lemma sample_builds: "validate_bundle (seal (bundle_document sample_parts)) = Inr ()"
proof -
  have "dget (seal d) k = dget d k" if "k \<noteq> ''model_hash''" for d k
    using that by (simp add: seal_def)
  note c = checks_cong [OF this]
  have "check_header (seal (bundle_document sample_parts)) = Inr ()"
    by (rule check_header_seal) (simp_all add: sample_parts_def)
  then show ?thesis using sample_checks by (simp add: validate_bundle_def c)
qed

section \<open>Exceptions\<close>

text \<open>All values inside a value, and the two reasons for an exception other than the module's.\<close>

fun subvals :: "pyval \<Rightarrow> pyval set" where
  "subvals (VList xs) = insert (VList xs) (\<Union>x \<in> set xs. subvals x)"
| "subvals (VDict d) = insert (VDict d) (\<Union>kv \<in> set d. subvals (snd kv))"
| "subvals v = {v}"

definition huge_int_in :: "pyval \<Rightarrow> bool" where
  "huge_int_in v \<longleftrightarrow> (\<exists>i. VInt i \<in> subvals v \<and> \<not> is_ok (float_of_int i))"

definition unhashable_choice_in :: "pyval \<Rightarrow> bool" where
  "unhashable_choice_in v \<longleftrightarrow> (\<exists>c k. VDict c \<in> subvals v \<and> k \<in> {''role'', ''dependency_bound''}
     \<and> (is_list (dget c k) \<or> is_dict (dget c k)))"

definition bundle_failure :: "pydict \<Rightarrow> pyerr \<Rightarrow> bool" where
  "bundle_failure d e \<longleftrightarrow> exn_of e = BundleError
     \<or> (exn_of e = OverflowError \<and> huge_int_in (VDict d))
     \<or> (exn_of e = TypeError \<and> unhashable_choice_in (VDict d))"

lemma bundle_failure_BundleError [simp]: "bundle_failure d (Raise BundleError m)"
  by (simp add: bundle_failure_def)

lemma subvals_refl [simp]: "v \<in> subvals v"
  by (cases v) auto

lemma subvals_trans: "u \<in> subvals v \<Longrightarrow> t \<in> subvals u \<Longrightarrow> t \<in> subvals v"
  by (induction v) fastforce+

lemma subvals_item: "VDict c \<in> subvals v \<Longrightarrow> dget c k \<noteq> VNone \<Longrightarrow> dget c k \<in> subvals v"
proof (erule subvals_trans)
  assume "dget c k \<noteq> VNone"
  then obtain x where "(k, x) \<in> set c" "dget c k = x"
    by (auto simp: dget_def split: option.splits dest: map_of_SomeD)
  then show "dget c k \<in> subvals (VDict c)" by (force intro: subvals_refl)
qed

lemma subvals_elem: "VList xs \<in> subvals v \<Longrightarrow> x \<in> set xs \<Longrightarrow> x \<in> subvals v"
  by (erule subvals_trans) (auto intro: subvals_refl)

lemma errs_float_of_int: "errs (\<lambda>e. exn_of e = OverflowError) (float_of_int i)"
  by (auto simp: float_of_int_def split: pyfloat.splits)

lemma errs_finite_number:
  assumes "VDict c \<in> subvals (VDict d)"
  shows "errs (bundle_failure d) (finite_number (dget c k) f)"
proof (cases "dget c k")
  case (VInt i)
  then have "VInt i \<in> subvals (VDict d)" using subvals_item [OF assms, of k] by simp
  then show ?thesis using VInt errs_float_of_int [of i]
    by (cases "float_of_int i") (auto simp: finite_number_def bundle_failure_def huge_int_in_def
        simp del: subvals.simps)
qed (auto simp: finite_number_def require_def)

lemma errs_str_in_set:
  assumes "VDict c \<in> subvals (VDict d)" "k \<in> {''role'', ''dependency_bound''}" "v = dget c k \<or> is_str v"
  shows "errs (bundle_failure d) (str_in_set v names)"
proof (cases v)
  case (VList xs)
  then have "dget c k = VList xs" using assms(3) by (auto simp: is_str_def)
  then have "is_list (dget c k)" by (simp add: is_list_def)
  then have "unhashable_choice_in (VDict d)"
    unfolding unhashable_choice_in_def using assms(1,2) by blast
  then show ?thesis using VList by (simp add: str_in_set_def bundle_failure_def)
next
  case (VDict xs)
  then have "dget c k = VDict xs" using assms(3) by (auto simp: is_str_def)
  then have "is_dict (dget c k)" by (simp add: is_dict_def)
  then have "unhashable_choice_in (VDict d)"
    unfolding unhashable_choice_in_def using assms(1,2) by blast
  then show ?thesis using VDict by (simp add: str_in_set_def bundle_failure_def)
qed (simp_all add: str_in_set_def)

lemma errs_reject_unknown: "errs (bundle_failure d) (reject_unknown m allowed f)"
  by (simp add: reject_unknown_def Let_def require_def)

lemma errs_require_mapping: "errs (bundle_failure d) (require_mapping m f)"
  unfolding require_mapping_def by (rule errs_as) simp_all

lemma require_mapping_sub:
  assumes "require_mapping m f = Inr c" "VDict m \<in> subvals v"
  shows "VDict c \<in> subvals v"
proof -
  have "dget m f = VDict c" using assms(1) by (simp add: require_mapping_def)
  then show ?thesis using subvals_item [OF assms(2), of f] by simp
qed

lemmas bundle_errs = errs_intros errs_as errs_reject_unknown errs_require_mapping

lemma errs_header: "errs (bundle_failure d) (check_header d)"
  unfolding check_header_def Let_def by (intro bundle_errs) simp_all

lemma errs_provenance: "errs (bundle_failure d) (check_provenance d)"
proof -
  have "errs (bundle_failure d) (check_baseline p)" for p
    unfolding check_baseline_def by (simp, intro impI bundle_errs) simp_all
  then show ?thesis unfolding check_provenance_def by (intro bundle_errs) simp_all
qed

lemma errs_container:
  "v \<in> subvals (VDict d) \<Longrightarrow> errs (bundle_failure d) (check_container names v)"
  unfolding check_container_def
  by (intro bundle_errs) (auto intro: errs_str_in_set simp del: subvals.simps)

lemma containers_sub:
  assumes "require_mapping d f = Inr w" "dget w k = VList xs" "x \<in> set xs"
  shows "x \<in> subvals (VDict d)"
proof -
  have "VDict w \<in> subvals (VDict d)" using assms(1) subvals_refl by (rule require_mapping_sub)
  from subvals_item [OF this, of k]
  have "VList xs \<in> subvals (VDict d)" using assms(2) by (simp del: subvals.simps)
  then show ?thesis using assms(3) by (rule subvals_elem)
qed

lemma errs_workload: "errs (bundle_failure d) (check_workload d)"
  unfolding check_workload_def
  by (intro bundle_errs errs_container) (simp_all add: containers_sub del: subvals.simps)

lemma errs_telemetry: "errs (bundle_failure d) (check_telemetry d)"
proof -
  have "errs (bundle_failure d) (check_signal s)" for s
    unfolding check_signal_def by (intro bundle_errs) simp_all
  then show ?thesis unfolding check_telemetry_def by (intro bundle_errs) simp_all
qed

lemma errs_factors: "errs (bundle_failure d) (check_factors d)"
proof -
  have r: "errs (bundle_failure d) (check_range f x)" if f: "VDict f \<in> subvals (VDict d)" for f x
    unfolding check_range_def
    by (intro bundle_errs errs_finite_number require_mapping_sub [OF _ f]) simp_all
  have l: "errs (bundle_failure d) (check_levels f x)" for f x
    unfolding check_levels_def by (intro bundle_errs) simp_all
  show ?thesis unfolding check_factors_def
    by (intro bundle_errs l r require_mapping_sub [OF _ subvals_refl])
qed

lemma errs_slo: "errs (bundle_failure d) (check_slo d)"
  unfolding check_slo_def
  by (intro bundle_errs errs_finite_number require_mapping_sub [OF _ subvals_refl]) simp_all

lemma errs_confidence:
  assumes "finite_number v f = Inr u"
  shows "errs P (confidence_ok v)"
  using assms by (auto simp: confidence_ok_def is_ok_conv)

lemma errs_policy: "errs (bundle_failure d) (check_policy d)"
  unfolding check_policy_def
  by (intro bundle_errs errs_confidence errs_finite_number require_mapping_sub [OF _ subvals_refl])
    (assumption | simp)+

lemma errs_row:
  assumes "v \<in> subvals (VDict d)"
  shows "errs (bundle_failure d) (check_row (i, v))"
proof -
  have c: "errs (bundle_failure d) (check_conditions l x)" for l x
    unfolding check_conditions_def by (intro bundle_errs) simp_all
  have m: "errs (bundle_failure d) (check_measured l row)" if "VDict row \<in> subvals (VDict d)" for l row
    using that unfolding check_measured_def by (intro bundle_errs errs_finite_number) simp_all
  have s: "errs (bundle_failure d) (str_in_set (dget_or row ''dependency_bound'' (VStr ''no'')) ns)"
    if "VDict row \<in> subvals (VDict d)" for row ns
    using that by (rule errs_str_in_set [where k = "''dependency_bound''"])
      (auto simp: dget_or_def dget_def is_str_def split: option.splits)
  show ?thesis
    unfolding check_row_def Let_def prod.case
    by (intro bundle_errs c m s) (use assms in \<open>simp_all del: subvals.simps\<close>)
qed

lemma errs_response: "errs (bundle_failure d) (check_response d)"
proof -
  have "errs (bundle_failure d) (rforeach check_row (enumerate 0 rows))"
    if "dget d ''response'' = VList rows" for rows
  proof (rule errs_rforeach)
    fix ix assume "ix \<in> set (enumerate 0 rows)"
    then obtain i v where ix: "ix = (i, v)" "v \<in> set rows"
      by (metis enumerate_eq_zip set_zip_rightD surj_pair)
    have "VList rows \<in> subvals (VDict d)"
      using subvals_item [of d "VDict d" "''response''"] that by simp
    then show "errs (bundle_failure d) (check_row ix)"
      using ix by (auto intro: errs_row subvals_elem simp del: subvals.simps)
  qed
  then show ?thesis unfolding check_response_def by (intro errs_as errs_require) simp_all
qed

lemma errs_validate: "errs (bundle_failure d) (validate_bundle d)"
  unfolding validate_bundle_def
  by (rule errs_rforeach)
    (auto simp: errs_header errs_provenance errs_workload errs_telemetry errs_factors errs_slo
      errs_policy errs_response)

section \<open>Properties\<close>

text \<open>
  C14: a bundle that validates is safe to consume. Its hash is the hash of its content; no more
  trials are usable than were run; the containers are named apart and have a known role;
  every factor range is a pair of finite numbers in order; and every response row has positive
  limits, requests and replicas and ratios between 0 and 1.
\<close>

theorem validate_bundle_sound:
  assumes "validate_bundle d = Inr ()"
  shows "verify_model_hash d
    \<and> (\<exists>p t n. dget d ''provenance'' = VDict p \<and> dget p ''trials_total'' = VInt t
         \<and> dget p ''trials_usable'' = VInt n \<and> 0 \<le> n \<and> n \<le> t)
    \<and> (\<exists>w cs. dget d ''workload'' = VDict w \<and> dget w ''containers'' = VList cs \<and> cs \<noteq> []
         \<and> distinct (map container_name cs) \<and> list_all container_ok cs)
    \<and> (\<exists>f. dget d ''factors'' = VDict f \<and> list_all (range_ok f) range_factors)
    \<and> (\<exists>rows. dget d ''response'' = VList rows \<and> rows \<noteq> [] \<and> list_all row_ok rows)"
proof -
  note parts = validate_bundle_parts [OF assms]
  have "verify_model_hash d" using parts(1) by (auto simp: check_header_def Let_def)
  then show ?thesis
    using check_provenance_ok [OF parts(2)] check_workload_ok [OF parts(3)]
      check_factors_ok [OF parts(5)] check_response_ok [OF parts(8)]
    by (intro conjI)
qed

theorem validate_bundle_sound_witness:
  "\<exists>rows. dget (seal (bundle_document sample_parts)) ''response'' = VList rows \<and> rows \<noteq> []
    \<and> list_all row_ok rows"
  using validate_bundle_sound [OF sample_builds] by (elim conjE)

text \<open>
  A bundle that is refused is refused with the module's own exception, but for two inputs
  the validator does not foresee: an integer too large for a float where a number is expected
  raises \<open>OverflowError\<close>, and a list or an object as a container's role or a row's dependency
  bound raises \<open>TypeError\<close>.
\<close>

theorem validate_bundle_errors:
  assumes "validate_bundle d = Inl e"
  shows "exn_of e = BundleError
    \<or> (exn_of e = OverflowError \<and> huge_int_in (VDict d))
    \<or> (exn_of e = TypeError \<and> unhashable_choice_in (VDict d))"
  using errsD [OF errs_validate assms] by (simp only: bundle_failure_def)

theorem validate_bundle_errors_witness:
  "\<exists>e. validate_bundle [] = Inl e \<and> exn_of e = BundleError"
proof -
  obtain e where e: "validate_bundle [] = Inl e"
    by (simp add: validate_bundle_def check_header_def has_key_def REQUIRED_FIELDS_def)
  have "\<not> huge_int_in (VDict [])" "\<not> unhashable_choice_in (VDict [])"
    by (simp_all add: huge_int_in_def unhashable_choice_in_def dget_def is_list_def is_dict_def)
  then show ?thesis using validate_bundle_errors [OF e] e by blast
qed



end
