(* ===== verification/Delta_Scenarios.thy ===== *)
theory Delta_Scenarios
  imports Py_Json
begin

text \<open>
  The predeclared scenario matrix of the scheduler delta study
  (\<open>sched-core-delta/experiments/scenarios.py\<close>): the scenario and metric tables, literally, and
  the operations on them. \<open>validate\<close>, which the module runs when it is imported, has the tables
  as arguments here, so that what it guarantees is stated for every table it accepts.
\<close>

section \<open>Scenarios\<close>

definition wakeup_scenario :: pydict where
  "wakeup_scenario =
     [(''description'', VStr (''Two full-time CPU hogs at weight 400 plus a 1 ms timer probe at weight '' @
         ''100. Measures the wakeup delay distribution of the probe while both '' @
         ''vCPUs are busy.'')),
      (''groups'', VList [VDict [(''name'', VStr ''load''),
           (''weight'', VInt 400),
           (''workloads'', VList [VDict [(''kind'', VStr ''cpu''), (''threads'', VInt 2)]])],
         VDict [(''name'', VStr ''probe''),
           (''weight'', VInt 100),
           (''workloads'', VList [VDict [(''kind'', VStr ''wakeup''), (''interval_us'', VInt 1000)]])]])]"

definition slice_scenario :: pydict where
  "slice_scenario =
     [(''description'', VStr (''Two full-time CPU hogs at weight 400 plus a 100-weight task that burns '' @
         ''500 us every 5 ms. Measures how often the short burst is delayed or '' @
         ''misses its next period.'')),
      (''groups'', VList [VDict [(''name'', VStr ''load''),
           (''weight'', VInt 400),
           (''workloads'', VList [VDict [(''kind'', VStr ''cpu''), (''threads'', VInt 2)]])],
         VDict [(''name'', VStr ''burst''),
           (''weight'', VInt 100),
           (''workloads'', VList [VDict [(''kind'', VStr ''periodic''),
                (''threads'', VInt 1),
                (''period_us'', VInt 5000),
                (''burn_us'', VInt 500)]])]])]"

definition fairness_scenario :: pydict where
  "fairness_scenario =
     [(''description'', VStr (''Two CPU hogs at weight 400 plus four equal-weight periodic tasks at '' @
         ''weight 100. Measures tail wakeup delay and the dispersion of per-thread '' @
         ''completion counts.'')),
      (''groups'', VList [VDict [(''name'', VStr ''load''),
           (''weight'', VInt 400),
           (''workloads'', VList [VDict [(''kind'', VStr ''cpu''), (''threads'', VInt 2)]])],
         VDict [(''name'', VStr ''fair''),
           (''weight'', VInt 100),
           (''workloads'', VList [VDict [(''kind'', VStr ''periodic''),
                (''threads'', VInt 4),
                (''period_us'', VInt 2000),
                (''burn_us'', VInt 200)]])]])]"

definition quota_scenario :: pydict where
  "quota_scenario =
     [(''description'', VStr (''A 100-weight group capped at 0.5 CPU with two hogs and a 1 ms timer '' @
         ''probe, next to an uncapped 100-weight group with two hogs. The null '' @
         ''control: the net series preserves CFS bandwidth enforcement, so '' @
         ''delivered CPU and throttle ratios must not move.'')),
      (''groups'', VList [VDict [(''name'', VStr ''limited''),
           (''weight'', VInt 100),
           (''cpu_max'', VStr ''50000 100000''),
           (''workloads'', VList [VDict [(''kind'', VStr ''cpu''), (''threads'', VInt 2)],
              VDict [(''kind'', VStr ''wakeup''), (''interval_us'', VInt 1000)]])],
         VDict [(''name'', VStr ''open''),
           (''weight'', VInt 100),
           (''workloads'', VList [VDict [(''kind'', VStr ''cpu''), (''threads'', VInt 2)]])]])]"

definition churn_scenario :: pydict where
  "churn_scenario =
     [(''description'', VStr (''Two CPU hogs at weight 400 plus short-lived tasks created at 200 per '' @
         ''second at weight 100. Measures task completion latency and scheduler '' @
         ''context-switch overhead.'')),
      (''groups'', VList [VDict [(''name'', VStr ''load''),
           (''weight'', VInt 400),
           (''workloads'', VList [VDict [(''kind'', VStr ''cpu''), (''threads'', VInt 2)]])],
         VDict [(''name'', VStr ''churn''),
           (''weight'', VInt 100),
           (''workloads'', VList [VDict [(''kind'', VStr ''churn''), (''rate'', VInt 200), (''work_us'', VInt 20)]])]])]"

definition steal_scenario :: pydict where
  "steal_scenario =
     [(''description'', VStr (''An interacting producer/consumer pair hard-pinned one thread per vCPU '' @
         ''plus two unpinned independent burners, while the host steals CPU time. '' @
         ''Run with the steal governor off and on. The governor contracts the '' @
         ''preferred mask and can move only the unpinned burners; the pinned '' @
         ''responder keeps its non-preferred vCPU. This tests the '' @
         ''affinity-preserving branch of the preferred-CPU contract, not pair '' @
         ''consolidation.'')),
      (''requires_host_steal'', VBool True),
      (''groups'', VList [VDict [(''name'', VStr ''pair''),
           (''weight'', VInt 400),
           (''workloads'', VList [VDict [(''kind'', VStr ''pingpong''), (''burn_us'', VInt 20)]])],
         VDict [(''name'', VStr ''burn''),
           (''weight'', VInt 100),
           (''workloads'', VList [VDict [(''kind'', VStr ''cpu''), (''threads'', VInt 2)]])]])]"

definition DELTA_SCENARIOS :: "(string \<times> pydict) list" where
  "DELTA_SCENARIOS = [(''wakeup'', wakeup_scenario),
     (''slice'', slice_scenario),
     (''fairness'', fairness_scenario),
     (''quota'', quota_scenario),
     (''churn'', churn_scenario),
     (''steal'', steal_scenario)]"

section \<open>Metrics\<close>

definition latency_metrics :: "pydict list" where
  "latency_metrics = [
     [(''scenario'', VStr ''wakeup''),
      (''group'', VStr ''probe''),
      (''metric'', VStr ''p999_us''),
      (''direction'', VStr ''lower''),
      (''expected'', VStr ''improve''),
      (''feature'', VStr ''EEVDF slice protection and timer restart''),
      (''rationale'', VStr (''The series bounds how long the current entity may keep the CPU when a '' @
         ''shorter-slice entity becomes runnable. The 99.9th wakeup delay is the '' @
         ''predeclared tail metric.''))],
     [(''scenario'', VStr ''wakeup''),
      (''group'', VStr ''probe''),
      (''metric'', VStr ''p99_us''),
      (''direction'', VStr ''lower''),
      (''expected'', VStr ''improve''),
      (''feature'', VStr ''EEVDF slice protection and timer restart''),
      (''rationale'', VStr ''The same wakeup mechanism, at the 99th percentile.'')],
     [(''scenario'', VStr ''wakeup''),
      (''group'', VStr ''load''),
      (''metric'', VStr ''iterations_per_s''),
      (''direction'', VStr ''higher''),
      (''expected'', VStr ''equivalent''),
      (''feature'', VStr ''EEVDF throughput''),
      (''rationale'', VStr (''A latency improvement must not be bought with a throughput loss. The '' @
         ''null band is the same 5% used by the sibling series.''))],
     [(''scenario'', VStr ''slice''),
      (''group'', VStr ''burst''),
      (''metric'', VStr ''p99_us''),
      (''direction'', VStr ''lower''),
      (''expected'', VStr ''improve''),
      (''feature'', VStr ''EEVDF slice protection''),
      (''rationale'', VStr (''A short burst is the entity that the protection changes target; its '' @
         ''99th start delay should fall if the bound is effective.''))],
     [(''scenario'', VStr ''fairness''),
      (''group'', VStr ''fair''),
      (''metric'', VStr ''p99_us''),
      (''direction'', VStr ''lower''),
      (''expected'', VStr ''improve''),
      (''feature'', VStr ''EEVDF candidate selection''),
      (''rationale'', VStr (''Keeping the best equal-slice candidate on wakeup should not increase '' @
         ''the tail; this checks the fix does not regress it.''))],
     [(''scenario'', VStr ''fairness''),
      (''group'', VStr ''fair''),
      (''metric'', VStr ''thread_cv''),
      (''direction'', VStr ''lower''),
      (''expected'', VStr ''improve''),
      (''feature'', VStr ''EEVDF candidate selection''),
      (''rationale'', VStr (''Four equal-weight threads should complete a similar number of periods. '' @
         ''The coefficient of variation measures that fairness.''))]]"

definition control_metrics :: "pydict list" where
  "control_metrics = [
     [(''scenario'', VStr ''quota''),
      (''group'', VStr ''limited''),
      (''metric'', VStr ''delivered_cpu_pct''),
      (''direction'', VStr ''equivalent''),
      (''expected'', VStr ''equivalent''),
      (''feature'', VStr ''CFS bandwidth (commits 21 and 63)''),
      (''rationale'', VStr (''The custom kernel restores the queueing branch inside the same series. '' @
         ''It must not change the quota contract or grant extra CPU.''))],
     [(''scenario'', VStr ''quota''),
      (''group'', VStr ''limited''),
      (''metric'', VStr ''throttled_period_pct''),
      (''direction'', VStr ''equivalent''),
      (''expected'', VStr ''equivalent''),
      (''feature'', VStr ''CFS bandwidth (commits 21 and 63)''),
      (''rationale'', VStr (''The limited group exhausts its 0.5 CPU cap in both kernels. A different '' @
         ''throttle ratio would mean the series changed CFS bandwidth enforcement.''))],
     [(''scenario'', VStr ''quota''),
      (''group'', VStr ''limited''),
      (''metric'', VStr ''p99_us''),
      (''direction'', VStr ''lower''),
      (''expected'', VStr ''equivalent''),
      (''feature'', VStr ''CFS bandwidth tail''),
      (''rationale'', VStr (''The timer probe inside the capped group is a descriptive check. The '' @
         ''series is not expected to remove quota-induced delay.''))],
     [(''scenario'', VStr ''churn''),
      (''group'', VStr ''churn''),
      (''metric'', VStr ''p99_us''),
      (''direction'', VStr ''lower''),
      (''expected'', VStr ''improve''),
      (''feature'', VStr ''scheduler constant overhead''),
      (''rationale'', VStr (''The augmented-rbtree and static-key changes reduce fixed work per '' @
         ''enqueue. Short-lived task completion is the closest userspace proxy for '' @
         ''that cost.''))],
     [(''scenario'', VStr ''churn''),
      (''group'', VStr ''churn''),
      (''metric'', VStr ''tasks_per_s''),
      (''direction'', VStr ''higher''),
      (''expected'', VStr ''equivalent''),
      (''feature'', VStr ''scheduler constant overhead''),
      (''rationale'', VStr (''The series does not change the algorithmic complexity, so the '' @
         ''completion rate is a null control for a large throughput gain.''))]]"

definition steal_metrics :: "pydict list" where
  "steal_metrics = [
     [(''scenario'', VStr ''steal''),
      (''group'', VStr ''pair''),
      (''metric'', VStr ''p99_us''),
      (''direction'', VStr ''lower''),
      (''expected'', VStr ''improve''),
      (''feature'', VStr ''steal governor''),
      (''contrast'', VStr ''governor''),
      (''rationale'', VStr (''Moving the unpinned burners onto the preferred CPU can free the pinned '' @
         (''responder'' @ [CHR 0x27] @ ''s vCPU. The pair itself cannot migrate, so this is not a '') @
         ''pair-consolidation effect.''))],
     [(''scenario'', VStr ''steal''),
      (''group'', VStr ''pair''),
      (''metric'', VStr ''round_trips_per_s''),
      (''direction'', VStr ''higher''),
      (''expected'', VStr ''improve''),
      (''feature'', VStr ''steal governor''),
      (''contrast'', VStr ''governor''),
      (''rationale'', VStr (''The pair'' @ [CHR 0x27] @ ''s completed round trips are the throughput view.''))],
     [(''scenario'', VStr ''steal''),
      (''group'', VStr ''burn''),
      (''metric'', VStr ''iterations_per_s''),
      (''direction'', VStr ''higher''),
      (''expected'', VStr ''regress''),
      (''feature'', VStr ''steal governor trade-off''),
      (''contrast'', VStr ''governor''),
      (''rationale'', VStr (''The unpinned independent burners lose useful parallelism when the '' @
         ''governor consolidates them onto the preferred CPU. A measured '' @
         ''regression is the expected trade-off, not a defect in the series.''))]]"

definition PRIMARY_METRICS :: "pydict list" where
  "PRIMARY_METRICS = latency_metrics @ control_metrics @ steal_metrics"

definition DESCRIPTIVE_METRICS :: "pydict list" where
  "DESCRIPTIVE_METRICS = [
     [(''scenario'', VStr ''wakeup''),
      (''group'', VStr ''probe''),
      (''metric'', VStr ''max_us''),
      (''direction'', VStr ''lower''),
      (''feature'', VStr ''EEVDF tail''),
      (''rationale'', VStr ''A single worst-case sample is reported but never decided.'')],
     [(''scenario'', VStr ''slice''),
      (''group'', VStr ''burst''),
      (''metric'', VStr ''missed_periods''),
      (''direction'', VStr ''lower''),
      (''feature'', VStr ''EEVDF slice protection''),
      (''rationale'', VStr (''A missed period is a stronger failure than a late start, but the count '' @
         ''is often zero on a short window, so it is reported without a ratio '' @
         ''verdict.''))],
     [(''scenario'', VStr ''slice''),
      (''group'', VStr ''burst''),
      (''metric'', VStr ''missed_period_rate_pct''),
      (''direction'', VStr ''lower''),
      (''feature'', VStr ''EEVDF slice protection''),
      (''rationale'', VStr ''The rate normalises for the number of periods.'')],
     [(''scenario'', VStr ''quota''),
      (''group'', VStr ''open''),
      (''metric'', VStr ''iterations_per_s''),
      (''direction'', VStr ''higher''),
      (''feature'', VStr ''quota neighbour''),
      (''rationale'', VStr ''The uncapped neighbour shows the cost of the capped group.'')],
     [(''scenario'', VStr ''steal''),
      (''group'', VStr ''pair''),
      (''metric'', VStr ''p999_us''),
      (''direction'', VStr ''lower''),
      (''feature'', VStr ''steal governor''),
      (''rationale'', VStr ''The 99.9th percentile is descriptive on a small block count.'')]]"

section \<open>Operations\<close>

definition DEFAULT_CPUS :: int where
  "DEFAULT_CPUS = 2"

definition PARENT_WEIGHT :: int where
  "PARENT_WEIGHT = 10000"

definition ARMS :: "string list" where
  "ARMS = [''stock'', ''custom'']"

definition STEAL_ARMS :: "string list" where
  "STEAL_ARMS = [''custom-nogov'', ''custom-gov'']"

definition CONTRASTS :: "(string \<times> string \<times> string) list" where
  "CONTRASTS = [(''kernel'', ''stock'', ''custom''), (''governor'', ''custom-nogov'', ''custom-gov'')]"

definition DEFAULT_SCENARIOS :: "string list" where
  "DEFAULT_SCENARIOS = [''wakeup'', ''slice'', ''fairness'', ''quota'', ''churn'']"

record group_spec =
  group_name :: string
  group_weight :: int
  group_cpu_max :: string
  group_workloads :: "pydict list"

definition normalise_group :: "pyval \<Rightarrow> group_spec res" where
  "normalise_group v =
     as_dict v TypeError ''group must be a mapping'' (\<lambda>g.
     rbind (ditem g ''name'') (\<lambda>name.
     rbind (rbind (ditem g ''weight'') int_of_val) (\<lambda>weight.
     rbind (rbind (ditem g ''workloads'') iter_val) (\<lambda>ws.
     rbind (rmap (\<lambda>w. as_dict w TypeError ''workload must be a mapping'' Inr) ws) (\<lambda>workloads.
     Inr \<lparr> group_name = py_str name, group_weight = weight,
           group_cpu_max = py_str (dget_or g ''cpu_max'' (VStr [])),
           group_workloads = workloads \<rparr>)))))"

definition scenario_groups :: "(string \<times> pydict) list \<Rightarrow> string \<Rightarrow> group_spec list res" where
  "scenario_groups scenarios scenario =
     as_some (map_of scenarios scenario) KeyError scenario (\<lambda>spec.
     rbind (rbind (ditem spec ''groups'') iter_val) (\<lambda>groups.
     rmap normalise_group groups))"

definition primary_metrics :: "pydict list \<Rightarrow> string option \<Rightarrow> pydict list res" where
  "primary_metrics metrics scenario = (case scenario of
     None \<Rightarrow> Inr metrics
   | Some s \<Rightarrow> rbind (rmap (\<lambda>m. rbind (ditem m ''scenario'') (\<lambda>x. Inr (m, x = VStr s))) metrics) (\<lambda>ps.
       Inr (map fst (filter snd ps))))"

definition contrast_name :: "string \<Rightarrow> string" where
  "contrast_name scenario = (if scenario = ''steal'' then ''governor'' else ''kernel'')"

definition contrast_for :: "string \<Rightarrow> (string \<times> string) option" where
  "contrast_for scenario =
     (if scenario = ''steal'' then map_of CONTRASTS ''governor'' else map_of CONTRASTS ''kernel'')"

definition expected_for :: "pydict \<Rightarrow> string" where
  "expected_for metric = py_str (dget_or metric ''expected'' (VStr ''descriptive''))"

definition direction_for :: "pydict \<Rightarrow> string" where
  "direction_for metric = py_str (dget_or metric ''direction'' (VStr ''higher''))"

definition check_group :: "string \<Rightarrow> group_spec \<Rightarrow> unit res" where
  "check_group scenario g =
     (let location = scenario @ ''/'' @ group_name g in
      require (0 < group_weight g \<and> group_weight g \<le> 10000) ValueError
        (location @ '': invalid cpu.weight'') (
      require (group_workloads g \<noteq> []) ValueError (location @ '': no workloads'') (Inr ())))"

definition check_scenario :: "(string \<times> pydict) list \<Rightarrow> string \<times> pydict \<Rightarrow> unit res" where
  "check_scenario scenarios item = (case item of (scenario, spec) \<Rightarrow>
     rbind (scenario_groups scenarios scenario) (\<lambda>groups.
     require (groups \<noteq> []) ValueError (scenario @ '': no groups'') (
     require (distinct (map group_name groups)) ValueError (scenario @ '': duplicate group names'') (
     rbind (rforeach (check_group scenario) groups) (\<lambda>_.
     require (\<not> (truthy (dget spec ''requires_host_steal'') \<and> scenario \<noteq> ''steal'')) ValueError
       (scenario @ '': host-steal marker is only valid for steal'') (Inr ()))))))"

definition check_metric :: "(string \<times> pydict) list \<Rightarrow> pydict \<Rightarrow> unit res" where
  "check_metric scenarios metric =
     rbind (ditem metric ''scenario'') (\<lambda>s.
     let scenario = py_str s in
     require (scenario \<in> set (map fst scenarios)) ValueError
       (''primary metric references unknown scenario '' @ scenario) (
     rbind (scenario_groups scenarios scenario) (\<lambda>groups.
     rbind (ditem metric ''group'') (\<lambda>g.
     require (py_str g \<in> set (map group_name groups) \<or> g = VStr ''system'') ValueError
       (''primary metric references unknown group '' @ scenario @ ''/'' @ py_str g) (
     rbind (ditem metric ''direction'') (\<lambda>d.
     rbind (str_in_set d [''lower'', ''higher'', ''equivalent'']) (\<lambda>known.
     require known ValueError (scenario @ '': invalid direction '' @ py_str d) (
     require (expected_for metric \<in> {''improve'', ''equivalent'', ''regress'', ''descriptive''}) ValueError
       (scenario @ '': invalid expectation '' @ py_str (dget metric ''expected'')) (
     let contrast = py_str (dget_or metric ''contrast'' (VStr (contrast_name scenario))) in
     require (contrast \<in> set (map fst CONTRASTS)) ValueError
       (scenario @ '': unknown contrast '' @ contrast) (Inr ()))))))))))"

definition validate :: "string list \<Rightarrow> (string \<times> pydict) list \<Rightarrow> pydict list \<Rightarrow> unit res" where
  "validate defaults scenarios metrics =
     require (list_all (\<lambda>s. s \<in> set (map fst scenarios)) defaults) ValueError
       ''DEFAULT_SCENARIOS references an unknown scenario'' (
     rbind (rforeach (check_scenario scenarios) scenarios) (\<lambda>_.
     rbind (rforeach (check_metric scenarios) metrics) (\<lambda>_.
     rbind (primary_metrics metrics (Some ''quota'')) (\<lambda>quota.
     require (list_ex (\<lambda>m. expected_for m = ''equivalent'') quota) ValueError
       ''quota must keep at least one equivalence metric'' (Inr ())))))"

section \<open>Properties\<close>

lemma module_tables_valid: "validate DEFAULT_SCENARIOS DELTA_SCENARIOS PRIMARY_METRICS = Inr ()"
  by code_simp

text \<open>What a metric of an accepted matrix resolves to.\<close>

definition metric_resolved :: "(string \<times> pydict) list \<Rightarrow> pydict \<Rightarrow> bool" where
  "metric_resolved scenarios metric \<longleftrightarrow> (\<exists>s groups g.
     map_of metric ''scenario'' = Some s \<and> scenario_groups scenarios (py_str s) = Inr groups
     \<and> map_of metric ''group'' = Some g
     \<and> (g = VStr ''system'' \<or> py_str g \<in> set (map group_name groups))
     \<and> distinct (map group_name groups)
     \<and> list_all (\<lambda>x. 0 < group_weight x \<and> group_weight x \<le> 10000 \<and> group_workloads x \<noteq> []) groups)"

lemma ditem_Inr [simp]: "ditem d k = Inr v \<longleftrightarrow> map_of d k = Some v"
  by (simp add: ditem_def split: option.splits)

lemma check_scenario_ok:
  assumes "check_scenario scenarios (s, spec) = Inr u"
  shows "\<exists>groups. scenario_groups scenarios s = Inr groups \<and> distinct (map group_name groups)
    \<and> list_all (\<lambda>x. 0 < group_weight x \<and> group_weight x \<le> 10000 \<and> group_workloads x \<noteq> []) groups"
  using assms by (auto simp: check_scenario_def check_group_def Let_def list_all_iff)

lemma check_metric_ok:
  assumes "check_metric scenarios metric = Inr u"
    and sc: "rforeach (check_scenario scenarios) scenarios = Inr ()"
  shows "metric_resolved scenarios metric"
proof -
  obtain s groups g where m: "map_of metric ''scenario'' = Some s"
    "py_str s \<in> set (map fst scenarios)" "scenario_groups scenarios (py_str s) = Inr groups"
    "map_of metric ''group'' = Some g" "py_str g \<in> set (map group_name groups) \<or> g = VStr ''system''"
    using assms(1) by (auto simp: check_metric_def Let_def)
  obtain spec where "(py_str s, spec) \<in> set scenarios" using m(2) by auto
  then have "check_scenario scenarios (py_str s, spec) = Inr ()" using sc by simp
  from check_scenario_ok [OF this] show ?thesis
    unfolding metric_resolved_def using m by auto
qed

text \<open>
  An accepted matrix is closed. Every default scenario exists, every predeclared metric
  names an existing scenario and one of its groups (or the system), the groups of that scenario
  are named apart with admissible weights and a workload each, and at least one metric of the
  null control demands equivalence. The matrix of the module is accepted.
\<close>

theorem validate_sound:
  assumes "validate defaults scenarios metrics = Inr ()"
  shows "list_all (\<lambda>s. s \<in> set (map fst scenarios)) defaults
    \<and> list_all (metric_resolved scenarios) metrics
    \<and> list_ex (\<lambda>m. map_of m ''scenario'' = Some (VStr ''quota'') \<and> expected_for m = ''equivalent'') metrics"
proof -
  have d: "list_all (\<lambda>s. s \<in> set (map fst scenarios)) defaults"
    and sc: "rforeach (check_scenario scenarios) scenarios = Inr ()"
    and ms: "rforeach (check_metric scenarios) metrics = Inr ()"
    using assms by (simp_all add: validate_def)
  obtain quota where q: "primary_metrics metrics (Some ''quota'') = Inr quota"
    "list_ex (\<lambda>m. expected_for m = ''equivalent'') quota"
    using assms by (auto simp: validate_def)
  have r: "metric_resolved scenarios m" if "m \<in> set metrics" for m
    using that ms sc by (intro check_metric_ok [of scenarios m "()"]) simp_all
  obtain ps where ps: "rmap (\<lambda>m. rbind (ditem m ''scenario'') (\<lambda>x. Inr (m, x = VStr ''quota''))) metrics
      = Inr ps" "quota = map fst (filter snd ps)"
    using q(1) by (auto simp: primary_metrics_def)
  have "m \<in> set metrics \<and> map_of m ''scenario'' = Some (VStr ''quota'')" if "m \<in> set quota" for m
  proof -
    have "(m, True) \<in> set ps" using ps(2) that by auto
    from rmap_elem [OF ps(1) this] show ?thesis by auto
  qed
  then have "list_ex (\<lambda>m. map_of m ''scenario'' = Some (VStr ''quota'')
      \<and> expected_for m = ''equivalent'') metrics"
    using q(2) by (auto simp: list_ex_iff)
  then show ?thesis using d r by (simp add: list_all_iff)
qed

theorem validate_sound_witness:
  "list_all (metric_resolved DELTA_SCENARIOS) PRIMARY_METRICS"
  using validate_sound [OF module_tables_valid] by blast

end
