(* ===== verification/Sched_Stats.thy ===== *)
theory Sched_Stats
  imports Paired_Stats
begin

text \<open>
  The numerical core of the scheduler study (\<open>linux-sched/analysis/sched_analysis.py\<close>): the normal and
  the Student-t quantile, the number of paired blocks a test needs, the t statistics of a contrast, its
  bootstrap bounds and the Holm step-down over a predeclared family. The factorial campaign of the same
  study builds on it. The parameter \<open>libm\<close> of the C library is extended by \<open>pow\<close>.
\<close>

section \<open>The standard library\<close>

record cmath = libm +
  m_pow :: "pyfloat \<Rightarrow> pyfloat \<Rightarrow> pyfloat res"

text \<open>\<open>math.sqrt\<close>, which is correctly rounded.\<close>

definition f_sqrt :: "pyfloat \<Rightarrow> pyfloat res" where
  "f_sqrt x = (case x of
     Fin a \<Rightarrow> require (0 \<le> a) ValueError ''math domain error'' (case quotient_of a of (n, d) \<Rightarrow> float_sqrt_of_frac n d)
   | NInf \<Rightarrow> raise ValueError ''math domain error''
   | _ \<Rightarrow> Inr x)"

text \<open>\<open>min(a, b)\<close>: the first of two equal values.\<close>

definition py_min :: "pyfloat \<Rightarrow> pyfloat \<Rightarrow> pyfloat" where
  "py_min a b = (if f_lt b a then b else a)"

text \<open>A decimal literal and a polynomial in Horner form, the highest coefficient first.\<close>

definition lit :: "int \<Rightarrow> nat \<Rightarrow> pyfloat" where
  "lit n k = to_float (of_int n / 10 ^ k)"

definition horner :: "pyfloat list \<Rightarrow> pyfloat \<Rightarrow> pyfloat" where
  "horner cs x = (case cs of [] \<Rightarrow> Fin 0 | c # rest \<Rightarrow> foldl (\<lambda>acc d. f_add (f_mul acc x) d) c rest)"

text \<open>\<open>statistics.NormalDist().inv_cdf\<close>: the rational approximation AS241, mean 0 and deviation 1.\<close>

definition inv_central_num :: "pyfloat list" where
  "inv_central_num = [lit 25090809287301226727 16, lit 33430575583588128105 15, lit 67265770927008700853 15, lit 45921953931549871457 15,
     lit 13731693765509461125 15, lit 19715909503065514427 16, lit 13314166789178437745 17, lit 3387132872796366608 18]"

definition inv_central_den :: "pyfloat list" where
  "inv_central_den = [lit 5226495278852854561 15, lit 28729085735721942674 15, lit 3930789580009271061 14, lit 21213794301586595867 15,
     lit 53941960214247511077 16, lit 6871870074920579083 16, lit 42313330701600911252 18, lit 1 0]"

definition inv_near_num :: "pyfloat list" where
  "inv_near_num = [lit 77454501427834140764 23, lit 227238449892691845833 22, lit 24178072517745061177 20, lit 127045825245236838258 20,
     lit 364784832476320460504 20, lit 57694972214606914055 19, lit 46303378461565452959 19, lit 142343711074968357734 20]"

definition inv_near_den :: "pyfloat list" where
  "inv_near_den = [lit 105075007164441684324 29, lit 5475938084995344946 22, lit 151986665636164571966 22, lit 14810397642748007459 20,
     lit 68976733498510000455 20, lit 16763848301838038494 19, lit 205319162663775882187 20, lit 1 0]"

definition inv_far_tail_num :: "pyfloat list" where
  "inv_far_tail_num = [lit 201033439929228813265 27, lit 271155556874348757815 25, lit 12426609473880784386 22, lit 26532189526576123093 21,
     lit 29656057182850489123 20, lit 17848265399172913358 19, lit 54637849111641143699 19, lit 66579046435011037772 19]"

definition inv_far_tail_den :: "pyfloat list" where
  "inv_far_tail_den = [lit 204426310338993978564 35, lit 14215117583164458887 26, lit 18463183175100546818 24, lit 7868691311456132591 22,
     lit 148753612908506148525 22, lit 13692988092273580531 20, lit 59983220655588793769 20, lit 1 0]"

definition inv_cdf :: "'z cmath_scheme \<Rightarrow> pyfloat \<Rightarrow> pyfloat res" where
  "inv_cdf m p =
     require (\<not> f_le p (Fin 0) \<and> \<not> f_le (Fin 1) p) StatisticsError ''p must be in the range 0.0 < p < 1.0'' (
     let q = f_sub p (Fin (1 / 2)) in
     if f_le (f_abs q) (lit 425 3)
     then let r = f_sub (lit 180625 6) (f_mul q q) in
       rbind (f_div (f_mul (horner inv_central_num r) q) (horner inv_central_den r)) (\<lambda>x.
       Inr (f_add (Fin 0) (f_mul x (Fin 1))))
     else
       rbind (m_log m (if f_le q (Fin 0) then p else f_sub (Fin 1) p)) (\<lambda>l.
       rbind (f_sqrt (f_neg l)) (\<lambda>r.
       rbind (if f_le r (Fin 5)
         then let s = f_sub r (lit 16 1) in f_div (horner inv_near_num s) (horner inv_near_den s)
         else let s = f_sub r (Fin 5) in f_div (horner inv_far_tail_num s) (horner inv_far_tail_den s)) (\<lambda>x.
       Inr (f_add (Fin 0) (f_mul (if f_lt q (Fin 0) then f_neg x else x) (Fin 1)))))))"

section \<open>Quantiles\<close>

definition acklam_a :: "pyfloat list" where
  "acklam_a = [lit (- 3969683028665376) 14, lit 2209460984245205 13, lit (- 2759285104469687) 13,
     lit 138357751867269 12, lit (- 3066479806614716) 14, lit 2506628277459239 15]"

definition acklam_b :: "pyfloat list" where
  "acklam_b = [lit (- 5447609879822406) 14, lit 1615858368580409 13, lit (- 1556989798598866) 13,
     lit 6680131188771972 14, lit (- 1328068155288572) 14]"

definition acklam_c :: "pyfloat list" where
  "acklam_c = [lit (- 7784894002430293) 18, lit (- 3223964580411365) 16, lit (- 2400758277161838) 15,
     lit (- 2549732539343734) 15, lit 4374664141464968 15, lit 2938163982698783 15]"

definition acklam_d :: "pyfloat list" where
  "acklam_d = [lit 7784695709041462 18, lit 3224671290700398 16, lit 2445134137142996 15,
     lit 3754408661907416 15]"

definition normal_ppf :: "'z cmath_scheme \<Rightarrow> pyfloat \<Rightarrow> pyfloat res" where
  "normal_ppf m p =
     require (f_lt (Fin 0) p \<and> f_lt p (Fin 1)) ValueError ''p must be in (0, 1)'' (
     let low = lit 2425 5; high = f_sub (Fin 1) (lit 2425 5) in
     if f_lt p low then
       rbind (m_log m p) (\<lambda>l. rbind (f_sqrt (f_mul (Fin (- 2)) l)) (\<lambda>q.
       f_div (horner acklam_c q) (horner (acklam_d @ [Fin 1]) q)))
     else if f_lt high p then
       rbind (m_log m (f_sub (Fin 1) p)) (\<lambda>l. rbind (f_sqrt (f_mul (Fin (- 2)) l)) (\<lambda>q.
       f_div (f_neg (horner acklam_c q)) (horner (acklam_d @ [Fin 1]) q)))
     else let q = f_sub p (Fin (1 / 2)); r = f_mul q q in
       f_div (f_mul (horner acklam_a r) q) (horner (acklam_b @ [Fin 1]) r))"

text \<open>The Cornish-Fisher expansion around the normal quantile.\<close>

definition cornish_fisher :: "pyfloat \<Rightarrow> pyfloat \<Rightarrow> pyfloat res" where
  "cornish_fisher z d =
     (let z2 = f_mul z z; z3 = f_mul z2 z; z5 = f_mul z3 z2; z7 = f_mul z5 z2 in
      rbind (f_div (f_add z3 z) (f_mul (Fin 4) d)) (\<lambda>first.
      rbind (f_div (f_add (f_add (f_mul (Fin 5) z5) (f_mul (Fin 16) z3)) (f_mul (Fin 3) z))
        (f_mul (f_mul (Fin 96) d) d)) (\<lambda>second.
      rbind (f_div (f_sub (f_add (f_add (f_mul (Fin 3) z7) (f_mul (Fin 19) z5)) (f_mul (Fin 17) z3)) (f_mul (Fin 15) z))
        (f_mul (f_mul (f_mul (Fin 384) d) d) d)) (\<lambda>third.
      Inr (f_add (f_add (f_add z first) second) third)))))"

definition t_ppf :: "'z cmath_scheme \<Rightarrow> pyfloat \<Rightarrow> int \<Rightarrow> pyfloat res" where
  "t_ppf m probability degrees_of_freedom =
     require (f_lt (Fin 0) probability \<and> f_lt probability (Fin 1)) ValueError ''probability must be in (0, 1)'' (
     require (2 \<le> degrees_of_freedom) ValueError ''Cornish-Fisher t approximation requires df >= 2'' (
     rbind (inv_cdf m probability) (\<lambda>z.
     rbind (float_of_int degrees_of_freedom) (\<lambda>d. cornish_fisher z d))))"

section \<open>Required blocks\<close>

definition MIN_BLOCKS_FOR_VERDICT :: nat where "MIN_BLOCKS_FOR_VERDICT = 3"
definition MAX_N :: int where "MAX_N = 100000"

definition n_required ::
  "(pyfloat \<Rightarrow> pyfloat \<Rightarrow> pyfloat res) \<Rightarrow> (pyfloat \<Rightarrow> int \<Rightarrow> pyfloat res) \<Rightarrow> pyfloat \<Rightarrow> pyfloat \<Rightarrow> pyfloat \<Rightarrow> pyfloat \<Rightarrow> int \<Rightarrow> pyfloat res" where
  "n_required pow ppf sd delta alpha target_power n =
     rbind (f_div alpha (Fin 2)) (\<lambda>half.
     rbind (ppf (f_sub (Fin 1) half) (n - 1)) (\<lambda>t_alpha.
     rbind (ppf target_power (n - 1)) (\<lambda>t_beta.
     rbind (f_div (f_mul (f_add t_alpha t_beta) sd) delta) (\<lambda>q. pow q (Fin 2)))))"

text \<open>The loop \<open>while n <= max_n\<close>; the count of a size is a parameter.\<close>

function required_loop :: "(int \<Rightarrow> pyfloat res) \<Rightarrow> int \<Rightarrow> int \<Rightarrow> int res" where
  "required_loop needed max_n n =
     (if n \<le> max_n
      then rbind (needed n) (\<lambda>k. if f_le k (Fin (of_int n)) then Inr n else required_loop needed max_n (n + 1))
      else raise ValueError (''required paired blocks exceed '' @ show_int max_n @ ''; the effect is too small for ''
        @ ''this variance to be resolved, so the count is not silently capped''))"
  by pat_completeness auto
termination by (relation "measure (\<lambda>(needed, max_n, n). nat (max_n + 1 - n))") auto

declare required_loop.simps [simp del]

definition required_n_paired ::
  "'z cmath_scheme \<Rightarrow> pyfloat \<Rightarrow> pyfloat \<Rightarrow> pyfloat \<Rightarrow> pyfloat \<Rightarrow> int \<Rightarrow> int res" where
  "required_n_paired m sd_log_ratio practical_effect alpha target_power max_n =
     (if f_le sd_log_ratio (Fin 0) then Inr (int MIN_BLOCKS_FOR_VERDICT)
      else rbind (m_log m (f_add (Fin 1) practical_effect)) (\<lambda>delta.
        required_loop (n_required (m_pow m) (t_ppf m) sd_log_ratio delta alpha target_power) max_n (int MIN_BLOCKS_FOR_VERDICT)))"

section \<open>The step-down\<close>

text \<open>
  The loop over the ordered hypotheses: it stops at the first that is not rejected. \<open>passes position
  index\<close> compares one statistic with the critical value of its position.
\<close>

fun step_down :: "(nat \<Rightarrow> nat \<Rightarrow> bool res) \<Rightarrow> nat \<Rightarrow> nat list \<Rightarrow> bool list \<Rightarrow> bool list res" where
  "step_down passes position [] rejected = Inr rejected"
| "step_down passes position (index # rest) rejected =
     rbind (passes position index) (\<lambda>ok.
     if ok then step_down passes (Suc position) rest (rejected[index := True]) else Inr rejected)"

definition score_passes ::
  "(pyfloat \<Rightarrow> int \<Rightarrow> pyfloat res) \<Rightarrow> pyfloat list \<Rightarrow> int list \<Rightarrow> pyfloat \<Rightarrow> int \<Rightarrow> int \<Rightarrow> nat \<Rightarrow> nat \<Rightarrow> bool res" where
  "score_passes ppf scores dfs alpha sided family position index =
     rbind (float_of_int (sided * (family - int position + 1))) (\<lambda>k.
     rbind (f_div alpha k) (\<lambda>adjusted.
     rbind (ppf (f_sub (Fin 1) adjusted) (dfs ! index)) (\<lambda>critical.
     Inr (f_le critical (scores ! index)))))"

text \<open>\<open>sorted(range(len(scores)), key=lambda i: scores[i], reverse=True)\<close>: equal scores keep their order.\<close>

definition score_order :: "pyfloat list \<Rightarrow> nat list" where
  "score_order scores = sort_by (\<lambda>i. f_neg (scores ! i)) [0 ..< length scores]"

definition sched_holm_step_down ::
  "'z cmath_scheme \<Rightarrow> pyfloat list \<Rightarrow> int list \<Rightarrow> pyfloat \<Rightarrow> int \<Rightarrow> int option \<Rightarrow> bool list res" where
  "sched_holm_step_down m scores dfs alpha sided family_size =
     (let family = (case family_size of Some s \<Rightarrow> s | None \<Rightarrow> int (length scores)) in
      step_down (score_passes (t_ppf m) scores dfs alpha sided family) 1 (score_order scores) (replicate (length scores) False))"

section \<open>The statistics of a contrast\<close>

record contrast_stat =
  cs_workload :: string
  cs_metric :: string
  cs_scheduler :: string
  cs_n :: nat
  cs_df :: int
  cs_mean :: pyfloat
  cs_sd :: pyfloat
  cs_se :: pyfloat
  cs_t_two :: pyfloat
  cs_t_lower :: pyfloat
  cs_t_upper :: pyfloat
  cs_effect :: pyfloat
  cs_descriptive :: bool
  cs_incomplete :: bool

definition t_statistic :: "pyfloat \<Rightarrow> pyfloat \<Rightarrow> pyfloat res" where
  "t_statistic se numerator =
     (if f_lt (Fin 0) se then f_div numerator se
      else Inr (if f_lt (Fin 0) numerator then PInf else if f_lt numerator (Fin 0) then NInf else Fin 0))"

definition oriented_log_ratio :: "'z cmath_scheme \<Rightarrow> pyfloat \<Rightarrow> pyfloat \<Rightarrow> bool \<Rightarrow> pyfloat res" where
  "oriented_log_ratio m control arm lower_is_better =
     require (\<not> f_le control (Fin 0) \<and> \<not> f_le arm (Fin 0)) ValueError ''metric values must be strictly positive'' (
     rbind (f_div arm control) (\<lambda>ratio.
     rbind (m_log m ratio) (\<lambda>l. Inr (if lower_is_better then f_neg l else l))))"

text \<open>The sorted means of the resamples and the value at a share of them.\<close>

definition bootstrap_means ::
  "(int \<Rightarrow> 'g) \<Rightarrow> ('g \<Rightarrow> nat \<Rightarrow> nat \<times> 'g) \<Rightarrow> pyfloat list \<Rightarrow> int \<Rightarrow> int \<Rightarrow> pyfloat list res" where
  "bootstrap_means random randrange logs resamples seed =
     rbind (resample_means randrange logs (nat resamples) (random seed)) (\<lambda>means. Inr (sort_by id means))"

definition bootstrap_at :: "'z cmath_scheme \<Rightarrow> pyfloat list \<Rightarrow> pyfloat \<Rightarrow> pyfloat res" where
  "bootstrap_at m means share =
     rbind (float_of_int (int (length means) - 1)) (\<lambda>n.
     rbind (int_of_float (f_mul share n)) (\<lambda>i.
     rbind (list_at means i) (m_exp m)))"

definition bootstrap_bounds :: "'z cmath_scheme \<Rightarrow> pyfloat list \<Rightarrow> (pyfloat \<times> pyfloat) res" where
  "bootstrap_bounds m means =
     rbind (bootstrap_at m means (lit 25 3)) (\<lambda>low.
     rbind (bootstrap_at m means (lit 975 3)) (\<lambda>high. Inr (low, high)))"

text \<open>A polynomial of degree one or more keeps NaN.\<close>

lemma horner_NaN: "horner (a # b # cs) NaN = NaN"
proof -
  have "foldl (\<lambda>acc d. f_add (f_mul acc NaN) d) NaN ds = NaN" for ds
    by (induction ds) (simp_all add: f_mul_def)
  then show ?thesis by (simp add: horner_def f_mul_def split: pyfloat.splits)
qed

section \<open>Exact values\<close>

text \<open>A quotient by a power of two of an integer below \<open>2 ^ 53\<close> is representable.\<close>

lemma fl_dyadic:
  assumes "\<bar>i\<bar> < 2 ^ 53" "k \<le> 1074"
  shows "fl (of_int i / 2 ^ k) = of_int i / 2 ^ k"
proof (cases "i = 0")
  case False
  let ?x = "of_int i / 2 ^ k :: rat"
  have pos: "0 < \<bar>?x\<bar>" using False by simp
  have int: "\<bar>of_int i :: rat\<bar> < 2 ^ 53" using assms(1) by (metis of_int_abs of_int_less_iff of_int_numeral of_int_power)
  have "(2 :: rat) powi ilog2 \<bar>?x\<bar> \<le> \<bar>?x\<bar>" using pos by (rule ilog2_bounds)
  also have "\<bar>?x\<bar> = \<bar>of_int i\<bar> / 2 ^ k" by (simp add: abs_divide)
  also have "\<dots> < 2 ^ 53 / 2 ^ k" using int by (rule divide_strict_right_mono) simp
  also have "\<dots> = (2 :: rat) powi (53 - int k)" by (simp add: power_int_diff)
  finally have less: "(2 :: rat) powi ilog2 \<bar>?x\<bar> < 2 powi (53 - int k)" .
  have "ilog2 \<bar>?x\<bar> < 53 - int k"
  proof (rule ccontr)
    assume "\<not> ilog2 \<bar>?x\<bar> < 53 - int k"
    then have "(2 :: rat) powi (53 - int k) \<le> 2 powi ilog2 \<bar>?x\<bar>" by (intro power_int_increasing) auto
    with less show False by linarith
  qed
  then have e: "ulp_exp ?x \<le> - int k" using assms(2) by (simp add: ulp_exp_def)
  have "(2 :: rat) powi (- int k) = of_int (2 ^ nat (- int k - ulp_exp ?x)) * 2 powi ulp_exp ?x"
    using powi_quotient_int [OF e] by (simp add: field_simps)
  moreover have "?x = of_int i * 2 powi (- int k)" by (simp add: power_int_minus field_simps)
  ultimately have "?x = of_int (i * 2 ^ nat (- int k - ulp_exp ?x)) * 2 powi ulp_exp ?x" by simp
  then show ?thesis by (rule fl_exact)
qed simp

lemma to_float_dyadic:
  assumes "\<bar>i\<bar> < 2 ^ 53" "k \<le> 1074"
  shows "to_float (of_int i / 2 ^ k) = Fin (of_int i / 2 ^ k)"
proof -
  have "\<bar>of_int i :: rat\<bar> < 2 ^ 53" using assms(1) by (metis of_int_abs of_int_less_iff of_int_numeral of_int_power)
  moreover have "\<bar>of_int i / 2 ^ k :: rat\<bar> \<le> \<bar>of_int i\<bar> / 1"
    unfolding abs_divide by (intro divide_left_mono) (simp_all add: one_le_power)
  moreover have "(2 :: rat) ^ 53 \<le> max_float" unfolding max_float_def by simp
  ultimately have "of_int i / 2 ^ k \<le> max_float \<and> - max_float \<le> of_int i / 2 ^ k" by linarith
  then show ?thesis using fl_dyadic [OF assms] by (simp add: to_float_def Let_def)
qed

section \<open>The loop returns the least adequate size\<close>

text \<open>
  What the sizing loop relies on: a count that a size needs. It returns the first size that covers its
  own count, raises what a count raises, and otherwise reports that the guard was reached.
\<close>

lemma required_loop_least:
  assumes "required_loop needed max_n n = Inr k"
  shows "n \<le> k \<and> k \<le> max_n \<and> (\<exists>c. needed k = Inr c \<and> f_le c (Fin (of_int k)))
    \<and> list_all (\<lambda>j. \<exists>c. needed j = Inr c \<and> \<not> f_le c (Fin (of_int j))) [n..k - 1]"
  using assms
proof (induction needed max_n n rule: required_loop.induct)
  case (1 needed max_n n)
  then obtain c where le: "n \<le> max_n" and c: "needed n = Inr c"
    by (auto simp: required_loop.simps [of needed max_n n] split: if_splits)
  show ?case
  proof (cases "f_le c (Fin (of_int n))")
    case True
    then have "k = n" using 1(2) le c by (simp add: required_loop.simps [of needed max_n n])
    then show ?thesis using True c le by simp
  next
    case False
    then have r: "required_loop needed max_n (n + 1) = Inr k"
      using 1(2) le c by (simp add: required_loop.simps [of needed max_n n])
    have IH: "n + 1 \<le> k \<and> k \<le> max_n \<and> (\<exists>c. needed k = Inr c \<and> f_le c (Fin (of_int k)))
      \<and> list_all (\<lambda>j. \<exists>c. needed j = Inr c \<and> \<not> f_le c (Fin (of_int j))) [n + 1..k - 1]"
      by (rule 1(1) [OF le False r])
    then show ?thesis using False c by (simp add: upto_rec1 [of n "k - 1"])
  qed
qed

definition size_covers :: "(int \<Rightarrow> pyfloat res) \<Rightarrow> int \<Rightarrow> bool" where
  "size_covers needed n = (case needed n of Inr c \<Rightarrow> f_le c (Fin (of_int n)) | Inl _ \<Rightarrow> False)"

definition guard_reached :: "int \<Rightarrow> pyerr" where
  "guard_reached max_n = Raise ValueError (''required paired blocks exceed '' @ show_int max_n @ ''; the effect is too small for ''
     @ ''this variance to be resolved, so the count is not silently capped'')"

lemma required_loop_search:
  assumes "list_all (\<lambda>j. is_ok (needed j)) [n..max_n]"
  shows "required_loop needed max_n n = (case find (size_covers needed) [n..max_n] of Some k \<Rightarrow> Inr k | None \<Rightarrow> Inl (guard_reached max_n))"
  using assms
proof (induction needed max_n n rule: required_loop.induct)
  case (1 needed max_n n)
  show ?case
  proof (cases "n \<le> max_n")
    case True
    then have split: "[n..max_n] = n # [n + 1..max_n]" by (rule upto_rec1)
    then obtain c where c: "needed n = Inr c" using 1(2) by (auto simp: is_ok_def split: sum.splits)
    show ?thesis
    proof (cases "f_le c (Fin (of_int n))")
      case no: False
      then show ?thesis using 1(1) [OF True no] 1(2) c True
        by (simp add: required_loop.simps [of needed max_n n] split size_covers_def)
    qed (use c True in \<open>simp add: required_loop.simps [of needed max_n n] split size_covers_def\<close>)
  qed (simp add: required_loop.simps [of needed max_n n] guard_reached_def)
qed

section \<open>The step-down rejects a prefix\<close>

definition rank_of :: "nat list \<Rightarrow> nat \<Rightarrow> nat" where
  "rank_of order i = length (takeWhile (\<lambda>j. j \<noteq> i) order)"

lemma rank_of_nth: "i \<in> set order \<Longrightarrow> rank_of order i < length order \<and> order ! rank_of order i = i"
  by (induction order) (auto simp: rank_of_def)

lemma rank_of_Cons: "rank_of (x # order) i = (if x = i then 0 else Suc (rank_of order i))"
  by (simp add: rank_of_def)

lemma rank_of_at: "distinct order \<Longrightarrow> k < length order \<Longrightarrow> rank_of order (order ! k) = k"
  using rank_of_nth [of "order ! k" order] nth_eq_iff_index_eq [of order] by auto

text \<open>A hypothesis is rejected exactly when it and every one ranked before it pass at their position.\<close>

lemma step_down_iff:
  assumes "step_down passes position order rejected = Inr result" "distinct order"
    "list_all (\<lambda>j. j < length rejected) order"
  shows "length result = length rejected
    \<and> (\<forall>i < length rejected. result ! i \<longleftrightarrow> rejected ! i
        \<or> i \<in> set order \<and> list_all (\<lambda>k. passes (position + k) (order ! k) = Inr True) [0 ..< Suc (rank_of order i)])"
  using assms
proof (induction passes position order rejected rule: step_down.induct)
  case (2 passes position index rest rejected)
  then obtain ok where ok: "passes position index = Inr ok" by auto
  have shift: "list_all (\<lambda>k. passes (position + k) ((index # rest) ! k) = Inr True) [0 ..< Suc (Suc r)]
      \<longleftrightarrow> ok \<and> list_all (\<lambda>k. passes (Suc position + k) (rest ! k) = Inr True) [0 ..< Suc r]" for r
    using All_less_Suc2 [of "Suc r" "\<lambda>k. passes (position + k) ((index # rest) ! k) = Inr True"]
    by (simp add: ok list_all_iff Ball_def del: upt_Suc)
  show ?case
  proof (cases ok)
    case False
    then have "result = rejected" using 2(2) ok by simp
    then show ?thesis using False shift [of "rank_of rest i" for i]
      by (auto simp: rank_of_Cons ok list_all_iff simp del: upt_Suc)
  next
    case True
    have r: "step_down passes (Suc position) rest (rejected[index := True]) = Inr result" using 2(2) ok True by simp
    have IH: "length result = length (rejected[index := True])
      \<and> (\<forall>i < length (rejected[index := True]). result ! i \<longleftrightarrow> rejected[index := True] ! i
          \<or> i \<in> set rest \<and> list_all (\<lambda>k. passes (Suc position + k) (rest ! k) = Inr True) [0 ..< Suc (rank_of rest i)])"
      using 2(3,4) by (intro 2(1) [OF True r]) (simp_all add: list_all_iff)
    show ?thesis
    proof (intro conjI allI impI)
      fix i assume i: "i < length rejected"
      show "result ! i \<longleftrightarrow> rejected ! i \<or> i \<in> set (index # rest)
          \<and> list_all (\<lambda>k. passes (position + k) ((index # rest) ! k) = Inr True) [0 ..< Suc (rank_of (index # rest) i)]"
      proof (cases "i = index")
        case same: True
        then show ?thesis using IH i ok True by (simp add: rank_of_Cons)
      next
        case other: False
        then show ?thesis using IH i True shift [of "rank_of rest i"] by (simp add: rank_of_Cons del: upt_Suc)
      qed
    qed (use IH in simp)
  qed
qed simp

lemma score_order_distinct: "distinct (score_order scores)"
proof -
  have "mset (score_order scores) = mset [0 ..< length scores]" by (simp add: score_order_def)
  then show ?thesis by (metis distinct_upt mset_eq_imp_distinct_iff)
qed

lemma score_order_set [simp]: "set (score_order scores) = {0 ..< length scores}"
  by (simp add: score_order_def)

lemma score_order_length [simp]: "length (score_order scores) = length scores"
  by (simp add: score_order_def)

text \<open>The textbook reading: a statistic survives when no better ranked one misses its critical value.\<close>

definition survives ::
  "(pyfloat \<Rightarrow> int \<Rightarrow> pyfloat res) \<Rightarrow> pyfloat list \<Rightarrow> int list \<Rightarrow> pyfloat \<Rightarrow> int \<Rightarrow> int \<Rightarrow> nat \<Rightarrow> bool" where
  "survives ppf scores dfs alpha sided family i \<longleftrightarrow>
     list_all (\<lambda>k. score_passes ppf scores dfs alpha sided family (Suc k) (score_order scores ! k) = Inr True)
       [0 ..< Suc (rank_of (score_order scores) i)]"

lemma step_down_survives:
  assumes "step_down (score_passes ppf scores dfs alpha sided family) 1 (score_order scores)
    (replicate (length scores) False) = Inr rejected"
  shows "rejected = map (survives ppf scores dfs alpha sided family) [0 ..< length scores]"
proof (rule nth_equalityI)
  note iff = step_down_iff [OF assms score_order_distinct]
  have all: "list_all (\<lambda>j. j < length (replicate (length scores) False)) (score_order scores)"
    by (simp add: list_all_iff)
  show "length rejected = length (map (survives ppf scores dfs alpha sided family) [0 ..< length scores])"
    using iff [OF all] by simp
  fix i assume "i < length rejected"
  then have i: "i < length scores" using iff [OF all] by simp
  then show "rejected ! i = map (survives ppf scores dfs alpha sided family) [0 ..< length scores] ! i"
    using iff [OF all] by (simp add: survives_def del: upt_Suc)
qed

text \<open>A larger statistic is ranked before a smaller one, so it survives with it.\<close>

lemma score_order_ranks:
  assumes "list_all (\<lambda>x. x \<noteq> NaN) scores" "i < length scores" "j < length scores" "f_lt (scores ! i) (scores ! j)"
  shows "rank_of (score_order scores) j < rank_of (score_order scores) i"
proof (rule ccontr)
  let ?o = "score_order scores"
  have neg: "f_neg x \<noteq> NaN \<longleftrightarrow> x \<noteq> NaN" for x by (cases x) auto
  have "list_all (\<lambda>k. f_neg (scores ! k) \<noteq> NaN) [0 ..< length scores]"
    using assms(1) by (simp add: neg list_all_length)
  then have sorted: "sorted_wrt (\<lambda>a b. \<not> f_lt (f_neg (scores ! b)) (f_neg (scores ! a))) ?o"
    unfolding score_order_def by (rule sort_by_sorted)
  have ri: "rank_of ?o i < length ?o \<and> ?o ! rank_of ?o i = i" and rj: "rank_of ?o j < length ?o \<and> ?o ! rank_of ?o j = j"
    using assms(2,3) by (simp_all only: rank_of_nth score_order_set atLeastLessThan_iff le0 simp_thms)
  assume "\<not> rank_of ?o j < rank_of ?o i"
  moreover have "i \<noteq> j" using assms(4) lt_not_lt by blast
  ultimately have "rank_of ?o i < rank_of ?o j" using ri rj by (metis nat_neq_iff)
  then have "\<not> f_lt (f_neg (scores ! j)) (f_neg (scores ! i))"
    using sorted_wrt_nth_less [OF sorted, of "rank_of ?o i" "rank_of ?o j"] ri rj by simp
  then show False using assms(4) by (cases "scores ! i"; cases "scores ! j") auto
qed

lemma survives_mono:
  assumes "list_all (\<lambda>x. x \<noteq> NaN) scores" "i < length scores" "j < length scores" "f_lt (scores ! i) (scores ! j)"
    "survives ppf scores dfs alpha sided family i"
  shows "survives ppf scores dfs alpha sided family j"
  using score_order_ranks [OF assms(1-4)] assms(5) by (auto simp: survives_def list_all_iff)

end
