(* ===== verification/Delta_Analysis.thy ===== *)
theory Delta_Analysis
  imports Delta_Scenarios Sched_Stats Py_Files "HOL-Library.Product_Lexorder"
begin

text \<open>
  The analysis of the scheduler delta study (\<open>sched-core-delta/analysis/analyze.py\<close>): the readers of a
  campaign directory, the medians over repetitions, one paired estimate per predeclared metric, its
  decision and status, the summary of features and the three reports. \<open>sum()\<close> adds from the left, as
  in the oldest Python the project allows. A set of strings is a list without repetitions: the order
  in which the sources walk one is never seen in a result.
\<close>

section \<open>Constants and results\<close>

definition BAND :: pyfloat where "BAND = lit 5 2"
definition VERDICT_BLOCKS :: nat where "VERDICT_BLOCKS = 3"
definition DEFAULT_RESAMPLES :: int where "DEFAULT_RESAMPLES = 10000"
definition DEFAULT_SEED :: int where "DEFAULT_SEED = 20261024"

definition SYSTEM_METRICS :: "(string \<times> string) list" where
  "SYSTEM_METRICS = [
     (''steal_pct_total'', ''steal time, % of total CPU time''),
     (''steal_pct_busy'', ''steal time, % of busy CPU time''),
     (''preferred_min'', ''preferred CPUs, minimum''),
     (''preferred_changes'', ''preferred-mask changes''),
     (''ctxt_per_s'', ''context switches/s''),
     (''pingpong_non_preferred_migrations'', ''non-preferred migrations'')]"

record delta_pair =
  pb_block :: string
  pb_control :: pyfloat
  pb_treatment :: pyfloat

record delta_result =
  dr_scenario :: string
  dr_group :: string
  dr_metric :: string
  dr_feature :: string
  dr_expected :: string
  dr_direction :: string
  dr_control :: string
  dr_treatment :: string
  dr_blocks :: nat
  dr_control_median :: pyfloat
  dr_treatment_median :: pyfloat
  dr_ratio :: pyfloat
  dr_oriented_ratio :: pyfloat
  dr_ci_low :: pyfloat
  dr_ci_high :: pyfloat
  dr_decision :: string
  dr_status :: string
  dr_rationale :: string
  dr_per_block :: "delta_pair list"

section \<open>Readers\<close>

definition read_object :: "fs \<Rightarrow> path \<Rightarrow> pydict res" where
  "read_object fs p = (case rbind (read_text fs p) loads of
     Inl e \<Rightarrow> if is_os_error (exn_of e) \<or> exn_of e = JSONDecodeError then Inr [] else Inl e
   | Inr v \<Rightarrow> Inr (case v of VDict d \<Rightarrow> d | _ \<Rightarrow> []))"

text \<open>A line that is blank, is no JSON text or holds no object is passed over.\<close>

definition line_row :: "string \<Rightarrow> pydict option" where
  "line_row line = (let s = strip line in
     if s = [] then None else case loads s of Inr (VDict d) \<Rightarrow> Some d | _ \<Rightarrow> None)"

definition read_jsonl :: "fs \<Rightarrow> path \<Rightarrow> pydict list res" where
  "read_jsonl fs p = (case read_text fs p of
     Inl e \<Rightarrow> if is_os_error (exn_of e) then Inr [] else Inl e
   | Inr text \<Rightarrow> Inr (List.map_filter line_row (splitlines text)))"

definition metric_names :: "string list res" where
  "metric_names =
     rbind (rmap (\<lambda>item. rbind (ditem item ''metric'') (\<lambda>v. Inr (py_str v))) (PRIMARY_METRICS @ DESCRIPTIVE_METRICS)) (\<lambda>names.
     Inr (remdups (names @ map fst SYSTEM_METRICS)))"

record delta_data =
  dd_groups :: "pydict list"
  dd_system :: "pydict list"
  dd_profiles :: "string list"

text \<open>\<open>sorted(run_dir.glob("block-*/*/run.json"))\<close>.\<close>

definition run_files :: "path \<Rightarrow> fs \<Rightarrow> path list" where
  "run_files run_dir fs = sort (remdups (filter (\<lambda>p. prefix run_dir p \<and> length p = length run_dir + 3
     \<and> prefix ''block-'' (p ! length run_dir) \<and> last p = ''run.json'') (map fst fs)))"

definition set_default :: "pydict \<Rightarrow> string \<Rightarrow> pyval \<Rightarrow> pydict" where
  "set_default d k v = (if has_key d k then d else d @ [(k, v)])"

definition is_system_row :: "pydict \<Rightarrow> bool" where
  "is_system_row row \<longleftrightarrow> dget row ''kind'' = VStr ''system'' \<or> dget row ''group'' = VStr ''system''"

definition load_run :: "fs \<Rightarrow> delta_data \<Rightarrow> path \<Rightarrow> delta_data res" where
  "load_run fs acc p =
     rbind (read_object fs p) (\<lambda>run.
     let profile = py_str (dget_or run ''profile'' (VStr []));
         arm = py_str (dget_or run ''arm'' (VStr (path_name (butlast p))));
         block = py_str (dget_or run ''block'' (VStr (removeprefix ''block-'' (path_name (butlast (butlast p)))))) in
     rbind (read_jsonl fs (with_name p ''matrix.jsonl'')) (\<lambda>rows.
     let filled = map (\<lambda>row. set_default (set_default row ''arm'' (VStr arm)) ''block'' (VStr block)) rows in
     Inr \<lparr> dd_groups = dd_groups acc @ filter (\<lambda>row. \<not> is_system_row row) filled,
           dd_system = dd_system acc @ filter is_system_row filled,
           dd_profiles = (if profile = [] then dd_profiles acc else List.insert profile (dd_profiles acc)) \<rparr>))"

definition load_delta :: "path \<Rightarrow> fs \<Rightarrow> delta_data res" where
  "load_delta run_dir fs =
     rfold (load_run fs) \<lparr> dd_groups = [], dd_system = [], dd_profiles = [] \<rparr> (run_files run_dir fs)"

section \<open>Medians over repetitions\<close>

text \<open>A value counts when it is a finite number; booleans are none. \<open>float()\<close> of a huge integer raises.\<close>

definition sample_value :: "pyval \<Rightarrow> pyfloat option res" where
  "sample_value v = (case v of
     VInt i \<Rightarrow> rbind (float_of_int i) (\<lambda>x. Inr (Some x))
   | VFloat x \<Rightarrow> Inr (if isfinite x then Some x else None)
   | _ \<Rightarrow> Inr None)"

type_synonym cell_key = "string \<times> string \<times> string \<times> string \<times> string"

definition row_text :: "pydict \<Rightarrow> string \<Rightarrow> string" where
  "row_text row k = py_str (dget_or row k (VStr []))"

definition row_cell :: "pydict \<Rightarrow> string \<Rightarrow> cell_key" where
  "row_cell row name = (row_text row ''block'', row_text row ''arm'', row_text row ''scenario'', row_text row ''group'', name)"

definition collect_cell :: "pydict \<Rightarrow> (cell_key \<times> pyfloat list) list \<Rightarrow> string \<Rightarrow> (cell_key \<times> pyfloat list) list res" where
  "collect_cell row collected name =
     rbind (sample_value (dget row name)) (\<lambda>v.
     Inr (case v of None \<Rightarrow> collected | Some x \<Rightarrow> add_sample collected (row_cell row name) x))"

definition collect_row :: "string list \<Rightarrow> (cell_key \<times> pyfloat list) list \<Rightarrow> pydict \<Rightarrow> (cell_key \<times> pyfloat list) list res" where
  "collect_row names collected row = rfold (collect_cell row) collected names"

definition aggregate :: "pydict list \<Rightarrow> string list \<Rightarrow> (cell_key \<times> pyfloat) list res" where
  "aggregate rows names =
     rbind (rfold (collect_row names) [] rows) (\<lambda>collected.
     rmap (\<lambda>(key, vs). rbind (median vs) (\<lambda>m. Inr (key, m))) (filter (\<lambda>(key, vs). vs \<noteq> []) collected))"

section \<open>Estimates\<close>

fun resample_totals :: "('g \<Rightarrow> nat \<Rightarrow> nat \<times> 'g) \<Rightarrow> pyfloat list \<Rightarrow> nat \<Rightarrow> 'g \<Rightarrow> pyfloat list res" where
  "resample_totals randrange logs 0 g = Inr []"
| "resample_totals randrange logs (Suc k) g =
     (case draw_blocks randrange logs (length logs) g of (xs, g1) \<Rightarrow>
      rbind (f_div (foldl f_add (Fin 0) xs) (Fin (of_nat (length logs)))) (\<lambda>v.
      rbind (resample_totals randrange logs k g1) (\<lambda>vs. Inr (v # vs))))"

definition mean_at :: "pyfloat list \<Rightarrow> pyfloat \<Rightarrow> pyfloat res" where
  "mean_at means share =
     rbind (float_of_int (int (length means) - 1)) (\<lambda>n.
     rbind (int_of_float (f_mul share n)) (\<lambda>i. list_at means i))"

definition bootstrap_ci ::
  "'z cmath_scheme \<Rightarrow> (int \<Rightarrow> 'g) \<Rightarrow> ('g \<Rightarrow> nat \<Rightarrow> nat \<times> 'g) \<Rightarrow> pyfloat list \<Rightarrow> int \<Rightarrow> int \<Rightarrow> pyfloat \<Rightarrow> (pyfloat \<times> pyfloat) res" where
  "bootstrap_ci m random randrange logs resamples seed alpha =
     (if logs = [] then Inr (NaN, NaN)
      else rbind (resample_totals randrange logs (nat resamples) (random seed)) (\<lambda>ms.
        let means = sort_by id ms in
        rbind (f_div alpha (Fin 2)) (\<lambda>tail.
        rbind (mean_at means tail) (\<lambda>low.
        rbind (mean_at means (f_sub (Fin 1) tail)) (\<lambda>high.
        rbind (m_exp m low) (\<lambda>ci_low.
        rbind (m_exp m high) (\<lambda>ci_high. Inr (ci_low, ci_high))))))))"

definition classify :: "string \<Rightarrow> string \<Rightarrow> pyfloat \<Rightarrow> pyfloat \<Rightarrow> pyfloat \<Rightarrow> nat \<Rightarrow> string" where
  "classify direction expected point ci_low ci_high blocks =
     (if expected = ''descriptive'' then ''descriptive''
      else if blocks < VERDICT_BLOCKS then ''inconclusive''
      else if direction = ''equivalent'' then
        (if f_le (f_sub (Fin 1) BAND) ci_low \<and> f_le ci_high (f_add (Fin 1) BAND) then ''equivalent''
         else if f_lt (f_add (Fin 1) BAND) ci_low \<or> f_lt ci_high (f_sub (Fin 1) BAND) then ''different''
         else ''inconclusive'')
      else if f_lt (Fin 1) ci_low \<and> f_lt (f_add (Fin 1) BAND) point then ''improved''
      else if f_lt ci_high (Fin 1) \<and> f_lt point (f_sub (Fin 1) BAND) then ''regressed''
      else if f_le (f_sub (Fin 1) BAND) ci_low \<and> f_le ci_high (f_add (Fin 1) BAND) then ''equivalent''
      else ''inconclusive'')"

definition status_for :: "string \<Rightarrow> string \<Rightarrow> nat \<Rightarrow> string" where
  "status_for expected decision blocks =
     (if expected = ''descriptive'' then ''descriptive''
      else if blocks < VERDICT_BLOCKS \<or> decision = ''inconclusive'' \<or> decision = ''missing'' then ''INCONCLUSIVE''
      else if expected = ''improve'' then (if decision = ''improved'' then ''PASS'' else ''FAIL'')
      else if expected = ''equivalent'' then (if decision = ''equivalent'' then ''PASS'' else ''FAIL'')
      else if expected = ''regress'' then (if decision = ''regressed'' then ''PASS'' else ''FAIL'')
      else ''INCONCLUSIVE'')"

text \<open>The values of both arms in one block; a decided metric needs two positive ones.\<close>

definition block_pair ::
  "(cell_key \<times> pyfloat) list \<Rightarrow> string \<Rightarrow> string \<Rightarrow> string \<Rightarrow> string \<Rightarrow> string \<Rightarrow> string \<Rightarrow> string \<Rightarrow> delta_pair option" where
  "block_pair aggregated control treatment scenario grp metric expected block =
     (case (map_of aggregated (block, control, scenario, grp, metric), map_of aggregated (block, treatment, scenario, grp, metric)) of
        (Some c, Some t) \<Rightarrow>
          if expected \<noteq> ''descriptive'' \<and> (f_le c (Fin 0) \<or> f_le t (Fin 0)) then None
          else Some \<lparr> pb_block = block, pb_control = c, pb_treatment = t \<rparr>
      | _ \<Rightarrow> None)"

record pair_estimate =
  pe_ratio :: pyfloat
  pe_low :: pyfloat
  pe_high :: pyfloat
  pe_oriented_ratio :: pyfloat
  pe_oriented_low :: pyfloat
  pe_oriented_high :: pyfloat

definition nan_estimate :: pair_estimate where
  "nan_estimate = \<lparr> pe_ratio = NaN, pe_low = NaN, pe_high = NaN, pe_oriented_ratio = NaN, pe_oriented_low = NaN,
     pe_oriented_high = NaN \<rparr>"

definition pair_log :: "'z cmath_scheme \<Rightarrow> delta_pair \<Rightarrow> pyfloat res" where
  "pair_log m p = rbind (f_div (pb_treatment p) (pb_control p)) (m_log m)"

definition loggable :: "delta_pair list \<Rightarrow> bool" where
  "loggable pairs \<longleftrightarrow> list_all (\<lambda>p. f_lt (Fin 0) (pb_control p) \<and> f_lt (Fin 0) (pb_treatment p)) pairs"

definition estimate_pairs ::
  "'z cmath_scheme \<Rightarrow> (int \<Rightarrow> 'g) \<Rightarrow> ('g \<Rightarrow> nat \<Rightarrow> nat \<times> 'g) \<Rightarrow> int \<Rightarrow> int \<Rightarrow> string \<Rightarrow> delta_pair list \<Rightarrow> pair_estimate res" where
  "estimate_pairs m random randrange resamples seed direction pairs =
     (if \<not> loggable pairs then Inr nan_estimate
      else rbind (rmap (pair_log m) pairs) (\<lambda>logs.
        rbind (f_div (py_sum logs) (Fin (of_nat (length logs)))) (\<lambda>mean.
        rbind (m_exp m mean) (\<lambda>ratio.
        rbind (bootstrap_ci m random randrange logs resamples seed (lit 5 2)) (\<lambda>(low, high).
        if direction = ''lower''
        then rbind (f_div (Fin 1) ratio) (\<lambda>oriented.
          rbind (f_div (Fin 1) high) (\<lambda>oriented_low.
          rbind (f_div (Fin 1) low) (\<lambda>oriented_high.
          Inr \<lparr> pe_ratio = ratio, pe_low = low, pe_high = high, pe_oriented_ratio = oriented, pe_oriented_low = oriented_low,
            pe_oriented_high = oriented_high \<rparr>)))
        else Inr \<lparr> pe_ratio = ratio, pe_low = low, pe_high = high, pe_oriented_ratio = ratio, pe_oriented_low = low,
            pe_oriented_high = high \<rparr>)))))"


text \<open>The fields of a metric: its cell, its contrast and what the plan says of it.\<close>

record metric_spec =
  ms_scenario :: string
  ms_group :: string
  ms_metric :: string
  ms_control :: string
  ms_treatment :: string
  ms_direction :: string
  ms_expected :: string
  ms_feature :: string
  ms_rationale :: string

definition read_spec :: "pydict \<Rightarrow> metric_spec res" where
  "read_spec spec =
     rbind (text_item spec ''scenario'') (\<lambda>scenario.
     rbind (text_item spec ''group'') (\<lambda>grp.
     rbind (text_item spec ''metric'') (\<lambda>metric.
     let named = dget spec ''contrast'';
         contrast = (if truthy named then py_str named else contrast_name scenario) in
     as_some (map_of CONTRASTS contrast) ValueError (''unknown contrast: '' @ contrast) (\<lambda>(control, treatment).
     Inr \<lparr> ms_scenario = scenario, ms_group = grp, ms_metric = metric, ms_control = control, ms_treatment = treatment,
       ms_direction = py_str (dget_or spec ''direction'' (VStr ''higher'')),
       ms_expected = py_str (dget_or spec ''expected'' (VStr ''descriptive'')),
       ms_feature = row_text spec ''feature'', ms_rationale = row_text spec ''rationale'' \<rparr>))))"

definition spec_pairs :: "metric_spec \<Rightarrow> (cell_key \<times> pyfloat) list \<Rightarrow> string list \<Rightarrow> delta_pair list" where
  "spec_pairs sp aggregated blocks =
     List.map_filter (block_pair aggregated (ms_control sp) (ms_treatment sp) (ms_scenario sp) (ms_group sp) (ms_metric sp)
       (ms_expected sp)) blocks"

definition spec_result ::
  "metric_spec \<Rightarrow> delta_pair list \<Rightarrow> pyfloat \<Rightarrow> pyfloat \<Rightarrow> pair_estimate \<Rightarrow> string \<Rightarrow> delta_result" where
  "spec_result sp pairs control_median treatment_median e decision =
     \<lparr> dr_scenario = ms_scenario sp, dr_group = ms_group sp, dr_metric = ms_metric sp, dr_feature = ms_feature sp,
       dr_expected = ms_expected sp, dr_direction = ms_direction sp, dr_control = ms_control sp, dr_treatment = ms_treatment sp,
       dr_blocks = length pairs, dr_control_median = control_median, dr_treatment_median = treatment_median,
       dr_ratio = pe_ratio e, dr_oriented_ratio = pe_oriented_ratio e, dr_ci_low = pe_low e, dr_ci_high = pe_high e,
       dr_decision = decision, dr_status = status_for (ms_expected sp) decision (length pairs),
       dr_rationale = ms_rationale sp, dr_per_block = pairs \<rparr>"

definition analyse_metric ::
  "'z cmath_scheme \<Rightarrow> (int \<Rightarrow> 'g) \<Rightarrow> ('g \<Rightarrow> nat \<Rightarrow> nat \<times> 'g) \<Rightarrow> pydict \<Rightarrow> (cell_key \<times> pyfloat) list \<Rightarrow> string list \<Rightarrow> int \<Rightarrow> int
    \<Rightarrow> delta_result res" where
  "analyse_metric m random randrange spec aggregated blocks resamples seed =
     rbind (read_spec spec) (\<lambda>sp.
     let pairs = spec_pairs sp aggregated blocks in
     if pairs = [] then Inr (spec_result sp [] NaN NaN nan_estimate ''missing'')
     else rbind (estimate_pairs m random randrange resamples seed (ms_direction sp) pairs) (\<lambda>e.
       let decision = classify (ms_direction sp) (ms_expected sp) (pe_oriented_ratio e) (pe_oriented_low e) (pe_oriented_high e)
             (length pairs) in
       rbind (median (map pb_control pairs)) (\<lambda>control_median.
       rbind (median (map pb_treatment pairs)) (\<lambda>treatment_median.
       Inr (spec_result sp pairs control_median treatment_median e decision)))))"

section \<open>From rows to results\<close>

text \<open>The block identifiers of the group rows, or of the system rows when those have none.\<close>

definition row_blocks :: "pydict list \<Rightarrow> string list" where
  "row_blocks rows = sort (remdups (map (\<lambda>row. row_text row ''block'') (filter (\<lambda>row. truthy (dget row ''block'')) rows)))"

definition study_blocks :: "'z delta_data_scheme \<Rightarrow> string list" where
  "study_blocks data = (if row_blocks (dd_groups data) \<noteq> [] then row_blocks (dd_groups data) else row_blocks (dd_system data))"

definition is_pilot :: "'z delta_data_scheme \<Rightarrow> bool" where
  "is_pilot data \<longleftrightarrow> ''pilot'' \<in> set (dd_profiles data)"

definition withhold :: "delta_result \<Rightarrow> delta_result" where
  "withhold r = (if dr_expected r \<noteq> ''descriptive'' then r\<lparr> dr_decision := ''inconclusive'', dr_status := ''INCONCLUSIVE'' \<rparr> else r)"

definition available_specs :: "pydict list \<Rightarrow> pydict list res" where
  "available_specs rows =
     (let available = map (\<lambda>row. row_text row ''scenario'') rows in
      rbind (rmap (\<lambda>spec. rbind (text_item spec ''scenario'') (\<lambda>s. Inr (spec, s \<in> set available)))
        (PRIMARY_METRICS @ DESCRIPTIVE_METRICS)) (\<lambda>ps.
      Inr (map fst (filter snd ps))))"

definition delta_results ::
  "'z cmath_scheme \<Rightarrow> (int \<Rightarrow> 'g) \<Rightarrow> ('g \<Rightarrow> nat \<Rightarrow> nat \<times> 'g) \<Rightarrow> int \<Rightarrow> int \<Rightarrow> delta_data \<Rightarrow> delta_result list res" where
  "delta_results m random randrange resamples seed data =
     rbind metric_names (\<lambda>names.
     rbind (aggregate (dd_groups data) names) (\<lambda>aggregated.
     require (study_blocks data \<noteq> []) SystemExit ''no block identifiers in the data'' (
     rbind (available_specs (dd_groups data)) (\<lambda>specs.
     rmap (\<lambda>spec. analyse_metric m random randrange spec aggregated (study_blocks data) resamples seed) specs))))"

section \<open>Summaries\<close>

record feature_entry =
  fe_feature :: string
  fe_metrics :: "string list"
  fe_verdict :: string
  fe_statuses :: "(string \<times> string) list"

definition add_feature :: "(string \<times> delta_result list) list \<Rightarrow> delta_result \<Rightarrow> (string \<times> delta_result list) list" where
  "add_feature features r = (if dr_expected r = ''descriptive'' then features else add_sample features (dr_feature r) r)"

definition feature_verdict :: "delta_result list \<Rightarrow> string" where
  "feature_verdict items = (let statuses = map dr_status items in
     if ''FAIL'' \<in> set statuses then ''not observed''
     else if ''INCONCLUSIVE'' \<in> set statuses then ''inconclusive'' else ''observed'')"

definition cell_name :: "delta_result \<Rightarrow> string" where
  "cell_name r = dr_scenario r @ ''/'' @ dr_group r @ ''/'' @ dr_metric r"

definition feature_of_items :: "string \<times> delta_result list \<Rightarrow> feature_entry" where
  "feature_of_items = (\<lambda>(feature, items).
     \<lparr> fe_feature = feature, fe_metrics = map cell_name items, fe_verdict = feature_verdict items,
       fe_statuses = foldl (\<lambda>d r. AList.update (dr_metric r) (dr_status r) d) [] items \<rparr>)"

definition feature_summary :: "delta_result list \<Rightarrow> feature_entry list" where
  "feature_summary results = map feature_of_items (sort_key fst (foldl add_feature [] results))"

record system_entry =
  se_arm :: string
  se_scenario :: string
  se_values :: "(string \<times> pyfloat) list"

type_synonym system_samples = "((string \<times> string) \<times> (string \<times> pyfloat list) list) list"

definition put_system :: "system_samples \<Rightarrow> string \<times> string \<Rightarrow> string \<Rightarrow> pyfloat \<Rightarrow> system_samples" where
  "put_system acc key name x =
     AList.update key (add_sample (case map_of acc key of Some d \<Rightarrow> d | None \<Rightarrow> []) name x) acc"

definition system_cell :: "pydict \<Rightarrow> system_samples \<Rightarrow> string \<Rightarrow> system_samples res" where
  "system_cell row acc name =
     (if prefix ''preferred'' name \<and> \<not> truthy (dget row ''preferred_first'') then Inr acc
      else rbind (sample_value (dget row name)) (\<lambda>v.
        Inr (case v of None \<Rightarrow> acc | Some x \<Rightarrow> put_system acc (row_text row ''arm'', row_text row ''scenario'') name x)))"

definition system_row :: "string list \<Rightarrow> system_samples \<Rightarrow> pydict \<Rightarrow> system_samples res" where
  "system_row blocks acc row =
     (if row_text row ''block'' \<notin> set blocks then Inr acc else rfold (system_cell row) acc (map fst SYSTEM_METRICS))"

definition system_median :: "(string \<times> pyfloat list) list \<Rightarrow> string \<Rightarrow> (string \<times> pyfloat) res" where
  "system_median d name =
     (case map_of d name of
        None \<Rightarrow> Inr (name, NaN)
      | Some samples \<Rightarrow> if samples = [] then Inr (name, NaN) else rbind (median samples) (\<lambda>x. Inr (name, x)))"

definition system_table :: "pydict list \<Rightarrow> string list \<Rightarrow> system_entry list res" where
  "system_table rows blocks =
     rbind (rfold (system_row blocks) [] rows) (\<lambda>acc.
     rmap (\<lambda>((arm, scenario), d). rbind (rmap (system_median d) (map fst SYSTEM_METRICS)) (\<lambda>vs.
       Inr \<lparr> se_arm = arm, se_scenario = scenario, se_values = vs \<rparr>)) (sort_key fst acc))"

section \<open>Reports\<close>

definition format_value :: "pyfloat \<Rightarrow> nat \<Rightarrow> string" where
  "format_value x digits = (if isfinite x then fmt_fixed digits x else ''-'')"

definition format_ratio :: "pyfloat \<Rightarrow> string" where
  "format_ratio x = (if isfinite x then fmt_fixed 3 x @ ''x'' else ''-'')"

definition band_percent :: string where
  "band_percent = (case int_of_float (f_mul BAND (Fin 100)) of Inr i \<Rightarrow> show_int i | Inl _ \<Rightarrow> [])"

definition warning_lines :: "string list \<Rightarrow> string list" where
  "warning_lines warnings =
     (if warnings = [] then [] else [''## Warnings'', []] @ map (\<lambda>w. ''- '' @ w) warnings @ [[]])"

definition result_line :: "delta_result \<Rightarrow> string" where
  "result_line r = ''| '' @ dr_scenario r @ '' | '' @ dr_metric r @ '' | '' @ format_value (dr_control_median r) 2 @ '' | ''
     @ format_value (dr_treatment_median r) 2 @ '' | '' @ format_ratio (dr_ratio r) @ '' | [''
     @ format_ratio (dr_ci_low r) @ '', '' @ format_ratio (dr_ci_high r) @ ''] | '' @ dr_expected r @ '' | ''
     @ dr_decision r @ '' | '' @ dr_status r @ '' |''"

definition primary_lines :: "delta_result list \<Rightarrow> string list" where
  "primary_lines results =
     [''## Primary results'', [],
      ''| scenario | metric | control | treatment | ratio | 95% CI | '' @ ''expected | decision | status |'',
      ''|---|---|---:|---:|---:|---:|---|---|---|'']
     @ map result_line (filter (\<lambda>r. dr_expected r \<noteq> ''descriptive'') results) @ [[]]"

definition feature_lines :: "delta_result list \<Rightarrow> string list" where
  "feature_lines results =
     [''## Feature summary'', [], ''| feature | metrics | verdict |'', ''|---|---|---|'']
     @ map (\<lambda>f. ''| '' @ fe_feature f @ '' | '' @ join '', '' (fe_metrics f) @ '' | '' @ fe_verdict f @ '' |'') (feature_summary results)
     @ [[]]"

definition quoted :: "string \<Rightarrow> string" where
  "quoted s = [CHR 0x60] @ s @ [CHR 0x60]"

definition detail_lines :: "delta_result \<Rightarrow> string list" where
  "detail_lines r =
     (''- '' @ quoted (dr_group r @ ''/'' @ dr_metric r) @ '': '' @ dr_control r @ '' vs '' @ dr_treatment r @ '' = ''
      @ format_ratio (dr_ratio r) @ '' ['' @ format_ratio (dr_ci_low r) @ '', '' @ format_ratio (dr_ci_high r) @ ''], ''
      @ dr_decision r @ '' ('' @ dr_status r @ '').'')
     # (if dr_per_block r = [] then []
        else [''  Per block (control/treatment): ''
          @ join '', '' (map (\<lambda>p. pb_block p @ '': '' @ format_value (pb_control p) 2 @ ''/'' @ format_value (pb_treatment p) 2)
              (dr_per_block r)) @ ''.''])"

definition scenario_lines :: "delta_result list \<Rightarrow> string list" where
  "scenario_lines results =
     [''## Per-scenario detail'', []]
     @ concat (map (\<lambda>(scenario, items). [''### '' @ scenario, []] @ concat (map detail_lines items) @ [[]])
         (foldl (\<lambda>d r. add_sample d (dr_scenario r) r) [] results))"

definition system_lines :: "system_entry list \<Rightarrow> string list" where
  "system_lines rows =
     (if rows = [] then []
      else [''## System observations'', [],
        ''| arm | scenario | '' @ join '' | '' (map (\<lambda>(name, _). replace_all ''_'' '' '' name) SYSTEM_METRICS) @ '' |'',
        ''|'' @ concat (replicate (2 + length SYSTEM_METRICS) ''---|'')]
        @ map (\<lambda>e. ''| '' @ se_arm e @ '' | '' @ se_scenario e @ '' | ''
            @ join '' | '' (map (\<lambda>(name, x). format_value x 2) (se_values e)) @ '' |'') rows
        @ [[]])"

definition metadata_lines :: "(string \<times> string) list \<Rightarrow> string list" where
  "metadata_lines metadata =
     [''## Metadata'', []] @ map (\<lambda>(key, v). ''- '' @ key @ '': '' @ quoted v) (filter (\<lambda>(key, v). v \<noteq> []) metadata) @ [[]]"

definition markdown ::
  "string \<Rightarrow> string \<Rightarrow> string \<Rightarrow> string list \<Rightarrow> delta_result list \<Rightarrow> system_entry list \<Rightarrow> string list \<Rightarrow> (string \<times> string) list \<Rightarrow> string" where
  "markdown title contrast run_id blocks results system warnings metadata = join nl (
     [''# '' @ title, [], ''- Run: '' @ quoted run_id, ''- Contrast: '' @ contrast,
      ''- Paired blocks: '' @ show_nat (length blocks),
      ''- Decision band: +/-'' @ band_percent @ '' %; minimum blocks for a verdict: '' @ show_nat VERDICT_BLOCKS,
      ''- Estimator: geometric mean paired ratio with a 95 % block-bootstrap interval.'', []]
     @ warning_lines warnings @ primary_lines results @ feature_lines results @ scenario_lines results
     @ system_lines system @ metadata_lines metadata)"


section \<open>Warnings\<close>

definition few_blocks_warning :: "string list \<Rightarrow> string list" where
  "few_blocks_warning blocks =
     (if length blocks < VERDICT_BLOCKS
      then [''Pilot only: '' @ show_nat (length blocks) @ '' block(s) is below the '' @ show_nat VERDICT_BLOCKS
        @ ''-block floor; no confirmatory verdict is claimed.'']
      else [])"

definition arm_nodes :: "pydict list \<Rightarrow> string \<Rightarrow> string list" where
  "arm_nodes rows arm = map (\<lambda>row. row_text row ''node'') (filter (\<lambda>row. dget row ''arm'' = VStr arm) rows)"

definition cross_node_warning :: "pydict list \<Rightarrow> string list" where
  "cross_node_warning rows =
     (let arms = map (\<lambda>row. row_text row ''arm'') rows; stock = arm_nodes rows ''stock''; custom = arm_nodes rows ''custom'' in
      if ''stock'' \<in> set arms \<and> ''custom'' \<in> set arms \<and> stock \<noteq> [] \<and> custom \<noteq> [] \<and> set stock \<noteq> set custom
      then [''Cross-node campaign: the stock and custom arms ran on ''
        @ ''different VMs. Kernel is confounded with VM identity and host ''
        @ ''placement; the same-node switch described in README.md is the '' @ ''confirmatory design.'']
      else [])"

text \<open>\<open>max\<close> of a list that is not empty: the first of the largest.\<close>

definition largest :: "pyfloat list \<Rightarrow> pyfloat" where
  "largest xs = foldl (\<lambda>m x. if f_lt m x then x else m) (hd xs) (tl xs)"

definition steal_warning :: "pydict list \<Rightarrow> string list res" where
  "steal_warning system_rows =
     (let steal = filter (\<lambda>row. dget row ''scenario'' = VStr ''steal'') system_rows in
      if steal = [] then Inr []
      else rbind (rmap (\<lambda>row. float_of_val (dget_or row ''preferred_changes'' (VInt 0))) steal) (\<lambda>changes.
        Inr (if f_le (largest changes) (Fin 0)
          then [''The steal scenario did not observe a preferred-mask transition; the ''
            @ ''governor was not exercised, so its mechanism rows are not evidence.'']
          else [])))"

definition pilot_warning :: "'z delta_data_scheme \<Rightarrow> string list" where
  "pilot_warning data =
     (if is_pilot data
      then [''Pilot profile: the run is labelled pilot (shorter repetitions); its ''
        @ ''numbers are reported for planning, but no verdict is claimed.'']
      else [])"

definition delta_warnings :: "delta_data \<Rightarrow> string list res" where
  "delta_warnings data =
     rbind (steal_warning (dd_system data)) (\<lambda>steal.
     Inr (few_blocks_warning (study_blocks data) @ cross_node_warning (dd_groups data) @ steal @ pilot_warning data))"

text \<open>The results as they are reported: a pilot run claims no verdict.\<close>

definition claimed :: "'z delta_data_scheme \<Rightarrow> delta_result list \<Rightarrow> delta_result list" where
  "claimed data results = (if is_pilot data then map withhold results else results)"

definition delta_study ::
  "'z cmath_scheme \<Rightarrow> (int \<Rightarrow> 'g) \<Rightarrow> ('g \<Rightarrow> nat \<Rightarrow> nat \<times> 'g) \<Rightarrow> int \<Rightarrow> int \<Rightarrow> delta_data \<Rightarrow> (delta_result list \<times> string list) res" where
  "delta_study m random randrange resamples seed data =
     rbind (delta_results m random randrange resamples seed data) (\<lambda>results.
     rbind (delta_warnings data) (\<lambda>warnings.
     Inr (claimed data results, warnings)))"

section \<open>The program\<close>

definition sorted_texts :: "pydict list \<Rightarrow> string \<Rightarrow> string" where
  "sorted_texts rows k = join '', '' (sort (remdups (map (\<lambda>row. row_text row k) rows)))"

definition delta_metadata :: "pydict \<Rightarrow> pydict list \<Rightarrow> (string \<times> string) list" where
  "delta_metadata campaign rows =
     [(''kernels'', sorted_texts rows ''kernel''), (''nodes'', sorted_texts rows ''node''),
      (''campaign'', if campaign = [] then [] else dumps default_style (sort_keys (VDict campaign)))]"

definition pair_items :: "delta_pair \<Rightarrow> pyval" where
  "pair_items p = VDict [(''block'', VStr (pb_block p)), (''control'', VFloat (pb_control p)), (''treatment'', VFloat (pb_treatment p))]"

definition result_items :: "delta_result \<Rightarrow> pyval" where
  "result_items r = VDict [
     (''scenario'', VStr (dr_scenario r)), (''group'', VStr (dr_group r)), (''metric'', VStr (dr_metric r)),
     (''feature'', VStr (dr_feature r)), (''expected'', VStr (dr_expected r)), (''direction'', VStr (dr_direction r)),
     (''control'', VStr (dr_control r)), (''treatment'', VStr (dr_treatment r)), (''blocks'', VInt (int (dr_blocks r))),
     (''control_median'', VFloat (dr_control_median r)), (''treatment_median'', VFloat (dr_treatment_median r)),
     (''ratio'', VFloat (dr_ratio r)), (''oriented_ratio'', VFloat (dr_oriented_ratio r)),
     (''ci_low'', VFloat (dr_ci_low r)), (''ci_high'', VFloat (dr_ci_high r)),
     (''decision'', VStr (dr_decision r)), (''status'', VStr (dr_status r)), (''rationale'', VStr (dr_rationale r)),
     (''per_block'', VList (map pair_items (dr_per_block r)))]"

definition delta_summary_json ::
  "string \<Rightarrow> string list \<Rightarrow> delta_result list \<Rightarrow> string list \<Rightarrow> (string \<times> string) list \<Rightarrow> string" where
  "delta_summary_json run_id blocks results warnings metadata =
     dumps indent2_style (sort_keys (VDict [
       (''run_id'', VStr run_id), (''blocks'', VList (map VStr blocks)), (''results'', VList (map result_items results)),
       (''warnings'', VList (map VStr warnings)), (''metadata'', VDict (map (\<lambda>(k, v). (k, VStr v)) metadata))])) @ nl"

definition CSV_HEADER :: string where
  "CSV_HEADER = ''scenario,group,metric,feature,expected,direction,control,treatment,blocks,''
     @ ''control_median,treatment_median,ratio,oriented_ratio,ci_low,ci_high,'' @ ''decision,status''"

definition csv_line :: "delta_result \<Rightarrow> string" where
  "csv_line r = join '','' [dr_scenario r, dr_group r, dr_metric r, replace_all '','' '' '' (dr_feature r), dr_expected r,
     dr_direction r, dr_control r, dr_treatment r, show_nat (dr_blocks r), format_value (dr_control_median r) 4,
     format_value (dr_treatment_median r) 4, format_value (dr_ratio r) 6, format_value (dr_oriented_ratio r) 6,
     format_value (dr_ci_low r) 6, format_value (dr_ci_high r) 6, dr_decision r, dr_status r]"

definition delta_csv :: "delta_result list \<Rightarrow> string" where
  "delta_csv results = join nl (CSV_HEADER # map csv_line results) @ nl"

definition report_heading :: "pydict list \<Rightarrow> string \<times> string" where
  "report_heading rows =
     (if list_all (\<lambda>row. row_text row ''arm'' \<in> set [''custom-nogov'', ''custom-gov'']) rows
      then (''Steal governor contrast on the custom kernel'', ''custom-gov (treatment) versus custom-nogov (control)'')
      else (''Stock 7.3 versus custom kernel: scheduler delta'', ''custom (treatment) versus stock (control)''))"

text \<open>The output directory is made before anything is read, and each report is written once it is made.\<close>

definition delta_main ::
  "'z cmath_scheme \<Rightarrow> (int \<Rightarrow> 'g) \<Rightarrow> ('g \<Rightarrow> nat \<Rightarrow> nat \<times> 'g) \<Rightarrow> path \<Rightarrow> string \<Rightarrow> string \<Rightarrow> int \<Rightarrow> int \<Rightarrow> (int \<times> string list) io" where
  "delta_main m random randrange cwd run_arg output_arg resamples seed =
     (let run_dir = resolve_parts (path_join cwd run_arg);
          output_dir = (if output_arg = [] then run_dir @ [''analysis''] else resolve_parts (path_join cwd output_arg)) in
      io_bind (io_get (\<lambda>fs. is_dir fs run_dir)) (\<lambda>there.
      if \<not> there then io_raise SystemExit (''run directory not found: '' @ path_text run_dir)
      else io_then (io_do (mkdir_p output_dir)) (
      io_bind (io_read (\<lambda>fs. read_object fs (run_dir @ [''campaign.json'']))) (\<lambda>campaign.
      let run_id = py_str (dget_or campaign ''run_id'' (VStr (path_name run_dir))) in
      io_bind (io_read (load_delta run_dir)) (\<lambda>data.
      if dd_groups data = [] then io_raise SystemExit (''no matrix rows under '' @ path_text run_dir)
      else io_bind (io_lift (delta_study m random randrange resamples seed data)) (\<lambda>(results, warnings).
      let blocks = study_blocks data; metadata = delta_metadata campaign (dd_groups data) in
      io_then (write_text (output_dir @ [''summary.json'']) (delta_summary_json run_id blocks results warnings metadata)) (
      io_then (write_text (output_dir @ [''summary.csv'']) (delta_csv results)) (
      io_bind (io_lift (system_table (dd_system data) blocks)) (\<lambda>system.
      case report_heading (dd_groups data) of (title, contrast) \<Rightarrow>
      io_then (write_text (output_dir @ [''summary.md'']) (markdown title contrast run_id blocks results system warnings metadata))
        (io_return (0, [''  Summary: '' @ path_text (output_dir @ [''summary.md''])])))))))))))"


section \<open>Pairs\<close>

lemma map_filter_names:
  assumes "\<And>x y. f x = Some y \<Longrightarrow> g y = x"
  shows "map g (List.map_filter f xs) = filter (\<lambda>x. f x \<noteq> None) xs"
  using assms by (induction xs) (auto simp: List.map_filter_simps split: option.splits)

lemma map_filter_elem: "y \<in> set (List.map_filter f xs) \<Longrightarrow> \<exists>x \<in> set xs. f x = Some y"
  by (auto simp: List.map_filter_def)

lemma block_pair_Some:
  assumes "block_pair aggregated c t s g k e block = Some p"
  shows "pb_block p = block" "map_of aggregated (block, c, s, g, k) = Some (pb_control p)"
    "map_of aggregated (block, t, s, g, k) = Some (pb_treatment p)"
  using assms by (auto simp: block_pair_def split: option.splits if_splits)

lemma spec_pairs_names:
  "map pb_block (spec_pairs sp aggregated blocks) = filter (\<lambda>b. block_pair aggregated (ms_control sp) (ms_treatment sp)
     (ms_scenario sp) (ms_group sp) (ms_metric sp) (ms_expected sp) b \<noteq> None) blocks"
  unfolding spec_pairs_def by (rule map_filter_names) (rule block_pair_Some)

lemma spec_pairs_blocks:
  assumes "distinct blocks"
  shows "distinct (map pb_block (spec_pairs sp aggregated blocks))"
    and "set (map pb_block (spec_pairs sp aggregated blocks)) \<subseteq> set blocks"
  unfolding spec_pairs_names using assms by (rule distinct_filter) (rule filter_is_subset)

text \<open>What a pair of a metric holds: the medians of both arms in its block.\<close>

definition pair_measured :: "metric_spec \<Rightarrow> (cell_key \<times> pyfloat) list \<Rightarrow> delta_pair \<Rightarrow> bool" where
  "pair_measured sp aggregated p \<longleftrightarrow>
     map_of aggregated (pb_block p, ms_control sp, ms_scenario sp, ms_group sp, ms_metric sp) = Some (pb_control p)
     \<and> map_of aggregated (pb_block p, ms_treatment sp, ms_scenario sp, ms_group sp, ms_metric sp) = Some (pb_treatment p)"

lemma spec_pairs_measured:
  assumes "p \<in> set (spec_pairs sp aggregated blocks)"
  shows "pair_measured sp aggregated p"
proof -
  obtain b where b: "block_pair aggregated (ms_control sp) (ms_treatment sp) (ms_scenario sp) (ms_group sp) (ms_metric sp)
      (ms_expected sp) b = Some p"
    using map_filter_elem [OF assms [unfolded spec_pairs_def]] by blast
  show ?thesis using block_pair_Some [OF b] by (simp add: pair_measured_def)
qed

section \<open>Decisions\<close>

lemma classify_NaN:
  "expected \<noteq> ''descriptive'' \<Longrightarrow> classify direction expected NaN NaN NaN n = ''inconclusive''"
  by (simp add: classify_def) (cases "f_sub (Fin 1) BAND"; cases "f_add (Fin 1) BAND"; simp)

text \<open>A status that is a verdict: what the plan expects was tested, on enough blocks.\<close>

lemma status_verdict:
  assumes "status_for expected decision n \<in> {''PASS'', ''FAIL''}"
  shows "expected \<noteq> ''descriptive''" "VERDICT_BLOCKS \<le> n" "decision \<noteq> ''inconclusive''" "decision \<noteq> ''missing''"
  using assms by (auto simp: status_for_def split: if_splits)

lemma status_pass:
  assumes "status_for expected decision n = ''PASS''"
  shows "expected = ''improve'' \<and> decision = ''improved'' \<or> expected = ''equivalent'' \<and> decision = ''equivalent''
    \<or> expected = ''regress'' \<and> decision = ''regressed''"
  using assms by (auto simp: status_for_def split: if_splits)

lemma classify_cases:
  "classify direction expected point low high n = ''improved'' \<Longrightarrow>
     direction \<noteq> ''equivalent'' \<and> f_lt (Fin 1) low \<and> f_lt (f_add (Fin 1) BAND) point"
  "classify direction expected point low high n = ''regressed'' \<Longrightarrow>
     direction \<noteq> ''equivalent'' \<and> f_lt high (Fin 1) \<and> f_lt point (f_sub (Fin 1) BAND)"
  "classify direction expected point low high n = ''equivalent'' \<Longrightarrow>
     f_le (f_sub (Fin 1) BAND) low \<and> f_le high (f_add (Fin 1) BAND)"
  by (auto simp: classify_def split: if_splits)

lemma estimate_not_lower:
  assumes "estimate_pairs m random randrange resamples seed direction pairs = Inr e" "direction \<noteq> ''lower''"
  shows "pe_oriented_low e = pe_low e" "pe_oriented_high e = pe_high e"
  using assms by (auto simp: estimate_pairs_def nan_estimate_def split: if_splits)

text \<open>What a passed result shows, by what the plan expects of it.\<close>

definition pass_shown :: "delta_result \<Rightarrow> bool" where
  "pass_shown r \<longleftrightarrow>
     (dr_expected r = ''improve'' \<and> f_lt (f_add (Fin 1) BAND) (dr_oriented_ratio r))
     \<or> (dr_expected r = ''regress'' \<and> f_lt (dr_oriented_ratio r) (f_sub (Fin 1) BAND))
     \<or> (dr_expected r = ''equivalent'' \<and> (dr_direction r \<noteq> ''lower'' \<longrightarrow>
         f_le (f_sub (Fin 1) BAND) (dr_ci_low r) \<and> f_le (dr_ci_high r) (f_add (Fin 1) BAND)))"

definition verdict_earned :: "metric_spec \<Rightarrow> (cell_key \<times> pyfloat) list \<Rightarrow> string list \<Rightarrow> delta_result \<Rightarrow> bool" where
  "verdict_earned sp aggregated blocks r \<longleftrightarrow>
     VERDICT_BLOCKS \<le> length (dr_per_block r) \<and> dr_blocks r = length (dr_per_block r)
     \<and> distinct (map pb_block (dr_per_block r)) \<and> set (map pb_block (dr_per_block r)) \<subseteq> set blocks
     \<and> list_all (pair_measured sp aggregated) (dr_per_block r) \<and> loggable (dr_per_block r)
     \<and> (dr_status r = ''PASS'' \<longrightarrow> pass_shown r)"

lemma spec_result_fields [simp]:
  "dr_scenario (spec_result sp ps c t e d) = ms_scenario sp" "dr_group (spec_result sp ps c t e d) = ms_group sp"
  "dr_metric (spec_result sp ps c t e d) = ms_metric sp" "dr_feature (spec_result sp ps c t e d) = ms_feature sp"
  "dr_expected (spec_result sp ps c t e d) = ms_expected sp" "dr_direction (spec_result sp ps c t e d) = ms_direction sp"
  "dr_blocks (spec_result sp ps c t e d) = length ps" "dr_per_block (spec_result sp ps c t e d) = ps"
  "dr_oriented_ratio (spec_result sp ps c t e d) = pe_oriented_ratio e" "dr_ci_low (spec_result sp ps c t e d) = pe_low e"
  "dr_ci_high (spec_result sp ps c t e d) = pe_high e" "dr_decision (spec_result sp ps c t e d) = d"
  "dr_status (spec_result sp ps c t e d) = status_for (ms_expected sp) d (length ps)"
  by (simp_all add: spec_result_def)

lemma analyse_metric_earned:
  assumes "analyse_metric m random randrange spec aggregated blocks resamples seed = Inr r" "read_spec spec = Inr sp"
    and "distinct blocks" "dr_status r \<in> {''PASS'', ''FAIL''}"
  shows "verdict_earned sp aggregated blocks r"
proof (cases "spec_pairs sp aggregated blocks = []")
  case True
  then have "r = spec_result sp [] NaN NaN nan_estimate ''missing''" using assms(1,2) by (simp add: analyse_metric_def)
  then have "''missing'' \<noteq> ''missing''" using assms(4) status_verdict(4) by (metis spec_result_fields(13))
  then show ?thesis by simp
next
  case False
  let ?ps = "spec_pairs sp aggregated blocks"
  obtain e c t where e: "estimate_pairs m random randrange resamples seed (ms_direction sp) ?ps = Inr e"
    and r: "r = spec_result sp ?ps c t e (classify (ms_direction sp) (ms_expected sp) (pe_oriented_ratio e) (pe_oriented_low e)
      (pe_oriented_high e) (length ?ps))"
    using assms(1,2) False by (auto simp: analyse_metric_def Let_def)
  have st: "status_for (ms_expected sp) (dr_decision r) (length ?ps) \<in> {''PASS'', ''FAIL''}" using assms(4) r by simp
  note v = status_verdict [OF st]
  have log: "loggable ?ps"
  proof (rule ccontr)
    assume "\<not> loggable ?ps"
    then have "e = nan_estimate" using e by (simp add: estimate_pairs_def)
    then have "dr_decision r = ''inconclusive''" using r classify_NaN [OF v(1)] by (simp add: nan_estimate_def)
    then show False using v(3) by simp
  qed
  have "pass_shown r" if pass: "dr_status r = ''PASS''"
  proof -
    have d: "dr_decision r = classify (ms_direction sp) (ms_expected sp) (pe_oriented_ratio e) (pe_oriented_low e)
      (pe_oriented_high e) (length ?ps)" "dr_expected r = ms_expected sp" "dr_direction r = ms_direction sp" using r by simp_all
    have "status_for (ms_expected sp) (dr_decision r) (length ?ps) = ''PASS''" using pass r by simp
    from status_pass [OF this] show ?thesis
      using classify_cases [of "ms_direction sp" "ms_expected sp" "pe_oriented_ratio e" "pe_oriented_low e" "pe_oriented_high e" "length ?ps"]
        estimate_not_lower [OF e] d r by (auto simp: pass_shown_def)
  qed
  moreover have "list_all (pair_measured sp aggregated) ?ps" using spec_pairs_measured by (auto simp: list_all_iff)
  moreover have "dr_per_block r = ?ps" "dr_blocks r = length ?ps" using r by simp_all
  ultimately show ?thesis
    using v(2) log spec_pairs_blocks [OF assms(3), of sp aggregated] unfolding verdict_earned_def by simp
qed

lemma analyse_metric_fields:
  assumes "analyse_metric m random randrange spec aggregated blocks resamples seed = Inr r"
  obtains sp where "read_spec spec = Inr sp" "dr_scenario r = ms_scenario sp" "dr_group r = ms_group sp"
    "dr_metric r = ms_metric sp" "dr_feature r = ms_feature sp" "dr_expected r = ms_expected sp"
    "dr_status r = status_for (dr_expected r) (dr_decision r) (dr_blocks r)"
  using assms by (auto simp: analyse_metric_def Let_def split: if_splits)

lemma study_blocks_distinct: "distinct (study_blocks data)"
  by (simp add: study_blocks_def row_blocks_def)


lemma analyse_metric_spec:
  "analyse_metric m random randrange spec aggregated blocks resamples seed = Inr r \<Longrightarrow> \<exists>sp. read_spec spec = Inr sp"
  by (auto simp: analyse_metric_def)

section \<open>Verdicts are earned\<close>

text \<open>
  The results of a study: each comes from one metric of the plan; when its status is a verdict the run
  is no pilot and the metric earned it.
\<close>

lemma claimed_status:
  assumes "r \<in> set (claimed data results)" "dr_status r \<in> {''PASS'', ''FAIL''}"
    and desc: "\<And>q. q \<in> set results \<Longrightarrow> dr_status q = status_for (dr_expected q) (dr_decision q) (dr_blocks q)"
  shows "\<not> is_pilot data" "r \<in> set results"
proof -
  have "dr_status (withhold q) \<notin> {''PASS'', ''FAIL''}" if "q \<in> set results" for q
    using desc [OF that] by (auto simp: withhold_def status_for_def)
  then show "\<not> is_pilot data" using assms(1,2) by (auto simp: claimed_def split: if_splits)
  then show "r \<in> set results" using assms(1) by (simp add: claimed_def)
qed

lemma delta_results_elem:
  assumes "delta_results m random randrange resamples seed data = Inr results" "q \<in> set results"
  obtains spec aggregated names where "metric_names = Inr names" "aggregate (dd_groups data) names = Inr aggregated"
    "spec \<in> set (PRIMARY_METRICS @ DESCRIPTIVE_METRICS)"
    "analyse_metric m random randrange spec aggregated (study_blocks data) resamples seed = Inr q"
proof -
  obtain names aggregated specs where n: "metric_names = Inr names" and a: "aggregate (dd_groups data) names = Inr aggregated"
    and s: "available_specs (dd_groups data) = Inr specs"
    and r: "rmap (\<lambda>spec. analyse_metric m random randrange spec aggregated (study_blocks data) resamples seed) specs = Inr results"
    using assms(1) unfolding delta_results_def by auto
  obtain spec where spec: "spec \<in> set specs" "analyse_metric m random randrange spec aggregated (study_blocks data) resamples seed = Inr q"
    using rmap_elem [OF r assms(2)] by blast
  have "spec \<in> set (PRIMARY_METRICS @ DESCRIPTIVE_METRICS)"
    using s spec(1) unfolding available_specs_def Let_def by (auto dest!: rmap_elem)
  then show thesis using that n a spec(2) by blast
qed

lemma delta_results_status:
  assumes "delta_results m random randrange resamples seed data = Inr results" "q \<in> set results"
  shows "dr_status q = status_for (dr_expected q) (dr_decision q) (dr_blocks q)"
  by (rule delta_results_elem [OF assms]) (erule analyse_metric_fields)

lemma study_verdict:
  assumes "delta_study m random randrange resamples seed data = Inr (results, warnings)"
    and "r \<in> set results" "dr_status r \<in> {''PASS'', ''FAIL''}"
  shows "\<not> is_pilot data \<and> (\<exists>names aggregated spec sp. metric_names = Inr names \<and> aggregate (dd_groups data) names = Inr aggregated
    \<and> spec \<in> set (PRIMARY_METRICS @ DESCRIPTIVE_METRICS) \<and> read_spec spec = Inr sp
    \<and> verdict_earned sp aggregated (study_blocks data) r)"
proof -
  obtain raw where raw: "delta_results m random randrange resamples seed data = Inr raw" and claim: "results = claimed data raw"
    using assms(1) unfolding delta_study_def by auto
  have status: "\<And>q. q \<in> set raw \<Longrightarrow> dr_status q = status_for (dr_expected q) (dr_decision q) (dr_blocks q)"
    using delta_results_status [OF raw] by blast
  have r: "r \<in> set (claimed data raw)" using assms(2) claim by simp
  note c = claimed_status [OF r assms(3) status]
  obtain spec aggregated names where s: "metric_names = Inr names" "aggregate (dd_groups data) names = Inr aggregated"
    "spec \<in> set (PRIMARY_METRICS @ DESCRIPTIVE_METRICS)"
    "analyse_metric m random randrange spec aggregated (study_blocks data) resamples seed = Inr r"
    by (rule delta_results_elem [OF raw c(2)])
  obtain sp where sp: "read_spec spec = Inr sp" using analyse_metric_spec [OF s(4)] by blast
  have "verdict_earned sp aggregated (study_blocks data) r"
    by (rule analyse_metric_earned [OF s(4) sp study_blocks_distinct assms(3)])
  then show ?thesis using c(1) s(1-3) sp by blast
qed


section \<open>Features\<close>

lemma add_feature_items:
  "map_of (foldl add_feature acc rs) f =
     (let new = filter (\<lambda>r. dr_expected r \<noteq> ''descriptive'' \<and> dr_feature r = f) rs in
      if new = [] then map_of acc f else Some ((case map_of acc f of Some vs \<Rightarrow> vs | None \<Rightarrow> []) @ new))"
  by (induction rs arbitrary: acc) (auto simp: add_feature_def add_sample_def update_conv' Let_def split: option.splits)

lemma add_feature_keys: "distinct (map fst acc) \<Longrightarrow> distinct (map fst (foldl add_feature acc rs))"
  by (induction rs arbitrary: acc) (auto simp: add_feature_def add_sample_def distinct_update)

lemma feature_summary_entry:
  assumes "f \<in> set (feature_summary rs)"
  shows "fe_verdict f = feature_verdict (filter (\<lambda>r. dr_expected r \<noteq> ''descriptive'' \<and> dr_feature r = fe_feature f) rs)
    \<and> (\<exists>r \<in> set rs. dr_expected r \<noteq> ''descriptive'' \<and> dr_feature r = fe_feature f)"
proof -
  obtain name items where f: "f = feature_of_items (name, items)" "(name, items) \<in> set (foldl add_feature [] rs)"
    using assms by (auto simp: feature_summary_def)
  then have "map_of (foldl add_feature [] rs) name = Some items" using add_feature_keys [of "[]" rs] by simp
  then have i: "items = filter (\<lambda>r. dr_expected r \<noteq> ''descriptive'' \<and> dr_feature r = name) rs" "items \<noteq> []"
    using add_feature_items [of "[]" rs name] by (auto simp: Let_def split: if_splits)
  obtain r where r: "r \<in> set items" using i(2) by (meson list.set_sel(1))
  then have "r \<in> set rs" "dr_expected r \<noteq> ''descriptive''" "dr_feature r = name" using i(1) by auto
  then show ?thesis using f(1) i(1) by (auto simp: feature_of_items_def)
qed


lemma status_decided:
  "expected \<noteq> ''descriptive'' \<Longrightarrow> status_for expected decision n \<in> {''PASS'', ''FAIL'', ''INCONCLUSIVE''}"
  by (simp add: status_for_def)

lemma delta_study_status:
  assumes "delta_study m random randrange resamples seed data = Inr (results, warnings)" "r \<in> set results"
    "dr_expected r \<noteq> ''descriptive''"
  shows "dr_status r \<in> {''PASS'', ''FAIL'', ''INCONCLUSIVE''}"
proof -
  obtain raw where raw: "delta_results m random randrange resamples seed data = Inr raw" and claim: "results = claimed data raw"
    using assms(1) unfolding delta_study_def by auto
  have "dr_status q \<in> {''PASS'', ''FAIL'', ''INCONCLUSIVE''}" if "q \<in> set raw" "dr_expected q \<noteq> ''descriptive''" for q
    using delta_results_status [OF raw that(1)] status_decided [OF that(2)] by metis
  then show ?thesis using assms(2,3) claim by (auto simp: claimed_def withhold_def split: if_splits)
qed

text \<open>
  C37: a feature is reported as observed only when it is: the run is no pilot, the feature has a decided
  metric among the results, and every decided metric of the feature passed, on at least three paired blocks.
\<close>

theorem delta_feature_observed:
  assumes "delta_study m random randrange resamples seed data = Inr (results, warnings)"
    and "f \<in> set (feature_summary results)" "fe_verdict f = ''observed''"
  shows "\<not> is_pilot data \<and> (\<exists>r \<in> set results. dr_expected r \<noteq> ''descriptive'' \<and> dr_feature r = fe_feature f)
    \<and> list_all (\<lambda>r. dr_expected r \<noteq> ''descriptive'' \<and> dr_feature r = fe_feature f \<longrightarrow>
        dr_status r = ''PASS'' \<and> VERDICT_BLOCKS \<le> length (dr_per_block r)) results"
proof -
  note entry = feature_summary_entry [OF assms(2)]
  have pass: "dr_status r = ''PASS''"
    if "r \<in> set results" "dr_expected r \<noteq> ''descriptive''" "dr_feature r = fe_feature f" for r
  proof -
    have "r \<in> set (filter (\<lambda>r. dr_expected r \<noteq> ''descriptive'' \<and> dr_feature r = fe_feature f) results)" using that by simp
    then have "dr_status r \<noteq> ''FAIL''" "dr_status r \<noteq> ''INCONCLUSIVE''"
      using entry assms(3) by (force simp: feature_verdict_def Let_def split: if_splits)+
    then show ?thesis using delta_study_status [OF assms(1) that(1,2)] by simp
  qed
  have earned: "\<not> is_pilot data \<and> VERDICT_BLOCKS \<le> length (dr_per_block r)"
    if "r \<in> set results" "dr_expected r \<noteq> ''descriptive''" "dr_feature r = fe_feature f" for r
    using study_verdict [OF assms(1) that(1)] pass [OF that] unfolding verdict_earned_def by simp blast
  show ?thesis using entry pass earned unfolding list_all_iff by blast
qed

section \<open>A campaign of three blocks\<close>

definition sample_row :: "string \<Rightarrow> string \<Rightarrow> pydict" where
  "sample_row block arm = [(''block'', VStr block), (''arm'', VStr arm), (''scenario'', VStr ''wakeup''), (''group'', VStr ''load''),
     (''iterations_per_s'', VFloat (Fin 2))]"

definition sample_delta :: delta_data where
  "sample_delta = \<lparr> dd_groups = concat (map (\<lambda>b. map (sample_row b) ARMS) [''1'', ''2'', ''3'']), dd_system = [],
     dd_profiles = [''full''] \<rparr>"

definition sample_pairs :: "delta_pair list" where
  "sample_pairs = map (\<lambda>b. \<lparr> pb_block = b, pb_control = Fin 2, pb_treatment = Fin 2 \<rparr>) [''1'', ''2'', ''3'']"

definition sample_cells :: "(cell_key \<times> pyfloat) list" where
  "sample_cells = map (\<lambda>(b, a). ((b, a, ''wakeup'', ''load'', ''iterations_per_s''), Fin 2))
     [(''1'', ''stock''), (''1'', ''custom''), (''2'', ''stock''), (''2'', ''custom''), (''3'', ''stock''), (''3'', ''custom'')]"

text \<open>A library whose logarithm is 0 and whose exponential is 1.\<close>

definition unit_math :: cmath where
  "unit_math = \<lparr> m_exp = (\<lambda>_. Inr (Fin 1)), m_log = (\<lambda>_. Inr (Fin 0)), m_log1p = (\<lambda>_. Inr (Fin 0)), m_lgamma = (\<lambda>_. Inr (Fin 0)),
     m_pow = (\<lambda>_ _. Inr (Fin 1)) \<rparr>"

lemma BAND_value:
  obtains b where "BAND = Fin b" "0 \<le> b" "b \<le> 1" "f_le (Fin 1) (f_add (Fin 1) BAND)" "f_le (f_sub (Fin 1) BAND) (Fin 1)"
proof -
  let ?b = "fl (5 / 100)"
  have b: "BAND = Fin ?b" by (simp add: BAND_def lit_def to_float_unit)
  have u: "0 \<le> ?b \<and> ?b \<le> 1" by (rule ieee.rnd_unit_interval) simp_all
  have "fl 1 \<le> fl (1 + ?b)" "fl (1 + ?b) \<le> fl 2" using u by (intro fl_mono; simp)+
  then have le: "1 \<le> fl (1 + ?b)" "fl (1 + ?b) \<le> 2" using fl_of_int [of 2] by simp_all
  moreover have "(2 :: rat) \<le> max_float" unfolding max_float_def by simp
  ultimately have "to_float (1 + ?b) = Fin (fl (1 + ?b))" by (simp add: to_float_def Let_def)
  then have up: "f_le (Fin 1) (f_add (Fin 1) BAND)" unfolding b f_add.simps using le(1) by simp
  have "f_sub (Fin 1) BAND = Fin (fl (1 - ?b))" unfolding f_sub_def b using u by (simp add: to_float_unit)
  moreover have "fl (1 - ?b) \<le> fl 1" using u by (intro fl_mono) simp
  ultimately have "f_le (f_sub (Fin 1) BAND) (Fin 1)" by simp
  then show thesis using b u up by (intro that [of ?b]) simp_all
qed

lemma mean_at_single: "share = Fin s \<Longrightarrow> mean_at [x] share = Inr x"
  using to_float_small [of 0] float_of_int_small [of 0]
  by (simp add: mean_at_def f_mul_def int_of_float_def list_at_def)

lemma unit_bootstrap:
  assumes "logs \<noteq> []"
  shows "bootstrap_ci unit_math (\<lambda>_. ()) (\<lambda>g _. (0, g)) logs 1 0 (lit 5 2) = Inr (Fin 1, Fin 1)"
proof -
  obtain b where b: "lit 5 2 = Fin b" "0 \<le> b" "b \<le> 1" using BAND_value unfolding BAND_def by metis
  have tail: "f_div (Fin b) (Fin 2) = Inr (Fin (fl (b / 2)))" using b by (simp add: f_div_def to_float_unit)
  have half: "0 \<le> fl (b / 2) \<and> fl (b / 2) \<le> 1" using b by (intro ieee.rnd_unit_interval) simp_all
  then have upper: "f_sub (Fin 1) (Fin (fl (b / 2))) = Fin (fl (1 - fl (b / 2)))" by (simp add: f_sub_def to_float_unit)
  obtain v where "resample_totals (\<lambda>g _. (0, g)) logs (nat 1) () = Inr [v]"
  proof -
    obtain xs where d: "draw_blocks (\<lambda>g _. (0, g)) logs (length logs) () = (xs, ())"
      by (cases "draw_blocks (\<lambda>g _. (0, g)) logs (length logs) ()") simp
    have "Fin (of_nat (length logs)) \<noteq> Fin 0" using assms by simp
    then obtain v where "f_div (foldl f_add (Fin 0) xs) (Fin (of_nat (length logs))) = Inr v" using f_div_total by blast
    then show thesis using that [of v] d by simp
  qed
  then show ?thesis using assms tail upper mean_at_single b(1)
    by (simp add: bootstrap_ci_def sort_by_def unit_math_def)
qed

definition unit_estimate :: pair_estimate where
  "unit_estimate = \<lparr> pe_ratio = Fin 1, pe_low = Fin 1, pe_high = Fin 1, pe_oriented_ratio = Fin 1, pe_oriented_low = Fin 1,
     pe_oriented_high = Fin 1 \<rparr>"

lemma sample_estimate:
  "estimate_pairs unit_math (\<lambda>_. ()) (\<lambda>g _. (0, g)) 1 0 ''higher'' sample_pairs = Inr unit_estimate"
proof -
  have one: "to_float 1 = Fin 1" "to_float 0 = Fin 0" using to_float_small [of 1] to_float_small [of 0] by simp_all
  have logs: "rmap (pair_log unit_math) sample_pairs = Inr [Fin 0, Fin 0, Fin 0]"
    by (simp add: sample_pairs_def pair_log_def f_div_def one unit_math_def)
  have "loggable sample_pairs" by (simp add: loggable_def sample_pairs_def)
  moreover have "f_div (py_sum [Fin 0, Fin 0, Fin 0]) (Fin (of_nat (length [Fin 0, Fin 0, Fin 0]))) = Inr (Fin 0)"
    by (simp add: py_sum_def one f_div_def)
  moreover have "bootstrap_ci unit_math (\<lambda>_. ()) (\<lambda>g _. (0, g)) [Fin 0, Fin 0, Fin 0] 1 0 (lit 5 2) = Inr (Fin 1, Fin 1)"
    by (rule unit_bootstrap) simp
  moreover have "m_exp unit_math x = Inr (Fin 1)" for x by (simp add: unit_math_def)
  ultimately show ?thesis unfolding estimate_pairs_def unit_estimate_def using logs by simp
qed

definition throughput_spec :: metric_spec where
  "throughput_spec = \<lparr> ms_scenario = ''wakeup'', ms_group = ''load'', ms_metric = ''iterations_per_s'', ms_control = ''stock'',
     ms_treatment = ''custom'', ms_direction = ''higher'', ms_expected = ''equivalent'', ms_feature = ''EEVDF throughput'',
     ms_rationale = row_text (latency_metrics ! 2) ''rationale'' \<rparr>"

definition sample_result :: delta_result where
  "sample_result = spec_result throughput_spec sample_pairs (Fin 2) (Fin 2) unit_estimate ''equivalent''"

definition unmeasured :: "pydict \<Rightarrow> delta_result" where
  "unmeasured spec = (case read_spec spec of Inr sp \<Rightarrow> spec_result sp [] NaN NaN nan_estimate ''missing'' | Inl _ \<Rightarrow> sample_result)"

definition sample_results :: "delta_result list" where
  "sample_results = [unmeasured (latency_metrics ! 0), unmeasured (latency_metrics ! 1), sample_result, unmeasured (DESCRIPTIVE_METRICS ! 0)]"

lemma sample_aggregate: "rbind metric_names (aggregate (dd_groups sample_delta)) = Inr sample_cells"
  by code_simp

lemma sample_specs:
  "available_specs (dd_groups sample_delta) = Inr [latency_metrics ! 0, latency_metrics ! 1, latency_metrics ! 2, DESCRIPTIVE_METRICS ! 0]"
  by code_simp

lemma sample_unmeasured:
  assumes "spec \<in> {latency_metrics ! 0, latency_metrics ! 1, DESCRIPTIVE_METRICS ! 0}"
  shows "analyse_metric m random randrange spec sample_cells [''1'', ''2'', ''3''] resamples seed = Inr (unmeasured spec)"
proof -
  have "list_all (\<lambda>spec. case read_spec spec of Inr sp \<Rightarrow> spec_pairs sp sample_cells [''1'', ''2'', ''3''] = [] | Inl _ \<Rightarrow> False)
    [latency_metrics ! 0, latency_metrics ! 1, DESCRIPTIVE_METRICS ! 0]" by code_simp
  then obtain sp where "read_spec spec = Inr sp" "spec_pairs sp sample_cells [''1'', ''2'', ''3''] = []"
    using assms by (auto split: sum.splits)
  then show ?thesis by (simp add: analyse_metric_def unmeasured_def)
qed

lemma sample_measured:
  "analyse_metric unit_math (\<lambda>_. ()) (\<lambda>g _. (0, g)) (latency_metrics ! 2) sample_cells [''1'', ''2'', ''3''] 1 0 = Inr sample_result"
proof -
  have "read_spec (latency_metrics ! 2) = Inr throughput_spec" by code_simp
  moreover have "spec_pairs throughput_spec sample_cells [''1'', ''2'', ''3''] = sample_pairs" by code_simp
  moreover have "median (map pb_control sample_pairs) = Inr (Fin 2)" "median (map pb_treatment sample_pairs) = Inr (Fin 2)"
    by (simp_all add: median_def sample_pairs_def sort_by_def)
  moreover have "classify ''higher'' ''equivalent'' (Fin 1) (Fin 1) (Fin 1) (length sample_pairs) = ''equivalent''"
    by (rule BAND_value) (simp add: classify_def sample_pairs_def VERDICT_BLOCKS_def)
  moreover have "sample_pairs \<noteq> []" by (simp add: sample_pairs_def)
  ultimately show ?thesis
    using sample_estimate by (simp add: analyse_metric_def throughput_spec_def sample_result_def unit_estimate_def)
qed

lemma sample_study: "delta_study unit_math (\<lambda>_. ()) (\<lambda>g _. (0, g)) 1 0 sample_delta = Inr (sample_results, [])"
proof -
  have blocks: "study_blocks sample_delta = [''1'', ''2'', ''3'']" by code_simp
  have warn: "delta_warnings sample_delta = Inr []" by code_simp
  have pilot: "\<not> is_pilot sample_delta" by code_simp
  obtain names where names: "metric_names = Inr names" "aggregate (dd_groups sample_delta) names = Inr sample_cells"
    using sample_aggregate by auto
  have "delta_results unit_math (\<lambda>_. ()) (\<lambda>g _. (0, g)) 1 0 sample_delta = Inr sample_results"
    unfolding delta_results_def blocks names rbind_simps sample_specs
    using sample_measured by (simp add: sample_results_def sample_unmeasured)
  then show ?thesis using warn pilot unfolding delta_study_def claimed_def by simp
qed


theorem delta_feature_observed_witness:
  "\<exists>f \<in> set (feature_summary sample_results). fe_feature f = ''EEVDF throughput'' \<and> fe_verdict f = ''observed''
     \<and> \<not> is_pilot sample_delta \<and> (\<exists>r \<in> set sample_results. dr_expected r \<noteq> ''descriptive'' \<and> dr_feature r = fe_feature f)
     \<and> list_all (\<lambda>r. dr_expected r \<noteq> ''descriptive'' \<and> dr_feature r = fe_feature f \<longrightarrow>
        dr_status r = ''PASS'' \<and> VERDICT_BLOCKS \<le> length (dr_per_block r)) sample_results"
proof -
  have "list_ex (\<lambda>f. fe_feature f = ''EEVDF throughput'' \<and> fe_verdict f = ''observed'') (feature_summary sample_results)"
    by code_simp
  then obtain f where f: "f \<in> set (feature_summary sample_results)" "fe_feature f = ''EEVDF throughput''" "fe_verdict f = ''observed''"
    unfolding list_ex_iff by blast
  from delta_feature_observed [OF sample_study f(1,3)] show ?thesis using f by blast
qed

section \<open>What the reports leave unsaid\<close>

text \<open>
  Three blocks of one arm are three paired blocks to the report and raise no warning, although nothing
  is paired.
\<close>

lemma one_arm_counts_as_paired:
  "let data = \<lparr> dd_groups = map (\<lambda>b. sample_row b ''stock'') [''1'', ''2'', ''3''], dd_system = [], dd_profiles = [] \<rparr> in
     length (study_blocks data) = 3 \<and> delta_warnings data = Inr []
     \<and> (case rbind metric_names (aggregate (dd_groups data)) of
          Inr cells \<Rightarrow> spec_pairs throughput_spec cells (study_blocks data) = [] | Inl _ \<Rightarrow> False)"
  by code_simp

text \<open>A block in which the treatment reached the best value of a lower-is-better metric, zero, is left out.\<close>

lemma perfect_block_dropped:
  assumes "map_of cells (block, c, s, g, k) = Some v" "map_of cells (block, t, s, g, k) = Some (Fin 0)"
  shows "block_pair cells c t s g k ''improve'' block = None"
  using assms by (simp add: block_pair_def)

end
