(* ===== verification/Sched_Analysis.thy ===== *)
theory Sched_Analysis
  imports Sched_Stats Analyze
begin

text \<open>
  The paired analysis of the scheduler study (\<open>linux-sched/analysis/sched_analysis.py\<close>): the reader of
  the block file, the grouping of observations, one contrast per non-control scheduler, the corrected
  decisions and the two summary files. Dictionaries are association lists in insertion order.
\<close>

section \<open>The frozen plan\<close>

definition CONTROL_SCHEDULER :: string where "CONTROL_SCHEDULER = ''eevdf''"
definition PRACTICAL_EFFECT :: pyfloat where "PRACTICAL_EFFECT = lit 5 2"
definition DEFAULT_POWER :: pyfloat where "DEFAULT_POWER = lit 80 2"
definition DEFAULT_ALPHA :: pyfloat where "DEFAULT_ALPHA = lit 5 2"
definition BOOTSTRAP_RESAMPLES :: int where "BOOTSTRAP_RESAMPLES = 10000"
definition BOOTSTRAP_SEED :: int where "BOOTSTRAP_SEED = 20261015"
definition PRIMARY_CONTRASTS :: int where "PRIMARY_CONTRASTS = 10"

definition PRACTICAL_EFFECT_BY_METRIC :: "(string \<times> pyfloat) list" where
  "PRACTICAL_EFFECT_BY_METRIC = [(''latency_p99_ms'', lit 20 2)]"

definition DESCRIPTIVE_WORKLOADS :: "string list" where
  "DESCRIPTIVE_WORKLOADS = [''mixed-http-ffmpeg'']"

definition practical_effect :: "string \<Rightarrow> pyfloat" where
  "practical_effect metric = (case map_of PRACTICAL_EFFECT_BY_METRIC metric of Some e \<Rightarrow> e | None \<Rightarrow> PRACTICAL_EFFECT)"

definition is_descriptive :: "string \<Rightarrow> bool" where
  "is_descriptive workload \<longleftrightarrow> workload \<in> set DESCRIPTIVE_WORKLOADS"

definition LOWER_IS_BETTER :: "string list" where
  "LOWER_IS_BETTER = [''latency_p99_ms'', ''latency_p50_ms'', ''submit_to_scheduled_p99_ms'', ''runqlat_p99_us'', ''runqlen_p99'']"

section \<open>Observations\<close>

record sched_obs =
  ob_block :: string
  ob_workload :: string
  ob_metric :: string
  ob_scheduler :: string
  ob_value :: pyfloat
  ob_direction :: "string option"

record sched_verdict =
  ve_workload :: string
  ve_metric :: string
  ve_scheduler :: string
  ve_blocks :: nat
  ve_ratio :: pyfloat
  ve_ci_low :: pyfloat
  ve_ci_high :: pyfloat
  ve_bootstrap_low :: pyfloat
  ve_bootstrap_high :: pyfloat
  ve_decision :: string
  ve_effect :: pyfloat
  ve_descriptive :: bool

definition REQUIRED_COLUMNS :: "string list" where
  "REQUIRED_COLUMNS = [''block_id'', ''scheduler'', ''workload'', ''metric'', ''value'']"

text \<open>\<open>(row.get(k) or "").strip() or None\<close>.\<close>

definition stripped_or_none :: "pydict \<Rightarrow> string \<Rightarrow> string option" where
  "stripped_or_none row k = (let s = strip (text_of (dget row k)) in if s = [] then None else Some s)"

text \<open>\<open>float(v)\<close> of a field.\<close>

definition float_field :: "pydict \<Rightarrow> string \<Rightarrow> pyfloat res" where
  "float_field row k = rbind (ditem row k) (\<lambda>v.
     as_str v TypeError ''float() argument must be a string or a real number'' (\<lambda>s.
     as_some (py_float s) ValueError (''could not convert string to float: '' @ repr_str s) Inr))"

definition valid_direction :: "string option \<Rightarrow> bool" where
  "valid_direction d \<longleftrightarrow> d = None \<or> d = Some ''lower-is-better'' \<or> d = Some ''higher-is-better''"

definition obs_of_row :: "string \<Rightarrow> pydict \<Rightarrow> sched_obs res" where
  "obs_of_row p row = (let direction = stripped_or_none row ''direction'' in
     require (valid_direction direction) ValueError
       (p @ '': invalid direction: '' @ (case direction of None \<Rightarrow> ''None'' | Some d \<Rightarrow> repr_str d)) (
     rbind (stripped row ''block_id'') (\<lambda>block.
     rbind (stripped row ''workload'') (\<lambda>workload.
     rbind (stripped row ''metric'') (\<lambda>metric.
     rbind (stripped row ''scheduler'') (\<lambda>scheduler.
     rbind (float_field row ''value'') (\<lambda>value.
     Inr \<lparr> ob_block = block, ob_workload = workload, ob_metric = metric, ob_scheduler = scheduler, ob_value = value,
       ob_direction = direction \<rparr>)))))))"

text \<open>\<open>str(Path(s))\<close>.\<close>

definition show_path :: "string \<Rightarrow> string" where
  "show_path s = (let lead = (if prefix ''//'' s \<and> \<not> prefix ''///'' s then ''//'' else if is_absolute s then ''/'' else []);
     text = lead @ join ''/'' (path_parts s) in if text = [] then ''.'' else text)"

text \<open>The rows of a block file, once its columns are checked.\<close>

definition block_rows :: "path \<Rightarrow> fs \<Rightarrow> string \<Rightarrow> pydict list res" where
  "block_rows cwd fs p =
     rbind (read_text fs (path_join cwd p)) (\<lambda>text. case dict_reader text of (names, rows) \<Rightarrow>
     let missing = missing_columns REQUIRED_COLUMNS names in
     require (missing = []) ValueError
       (show_path p @ '': missing required column(s): '' @ py_repr (VList (map VStr missing))) (Inr rows))"

definition read_blocks :: "path \<Rightarrow> fs \<Rightarrow> string \<Rightarrow> sched_obs list res" where
  "read_blocks cwd fs p = rbind (block_rows cwd fs p) (rmap (obs_of_row (show_path p)))"

definition is_lower_better :: "string \<Rightarrow> string option \<Rightarrow> bool" where
  "is_lower_better metric direction =
     (if direction = Some ''lower-is-better'' then True
      else if direction = Some ''higher-is-better'' then False
      else metric \<in> set LOWER_IS_BETTER)"

text \<open>The uncorrected reading of one interval on the log scale.\<close>

definition decision_rule :: "'z cmath_scheme \<Rightarrow> pyfloat \<Rightarrow> pyfloat \<Rightarrow> pyfloat \<Rightarrow> pyfloat \<Rightarrow> string res" where
  "decision_rule m ci_low_log ci_high_log point_log effect =
     rbind (m_log m (f_add (Fin 1) effect)) (\<lambda>band.
     Inr (if f_lt (Fin 0) ci_low_log \<and> f_le band point_log then ''improvement''
       else if f_lt ci_high_log (Fin 0) \<and> f_le point_log (f_neg band) then ''regression''
       else if f_le (f_neg band) ci_low_log \<and> f_le ci_high_log band then ''equivalent''
       else ''inconclusive''))"

section \<open>Decisions\<close>

definition initial_decision :: "'z contrast_stat_scheme \<Rightarrow> string" where
  "initial_decision c = (if cs_incomplete c then ''incomplete'' else if cs_descriptive c then ''descriptive'' else ''inconclusive'')"

definition tested :: "'z contrast_stat_scheme list \<Rightarrow> nat list" where
  "tested cs = filter (\<lambda>i. \<not> cs_descriptive (cs ! i) \<and> \<not> cs_incomplete (cs ! i)) [0 ..< length cs]"

definition tost_statistic :: "'z contrast_stat_scheme \<Rightarrow> pyfloat" where
  "tost_statistic c = py_min (cs_t_lower c) (f_neg (cs_t_upper c))"

definition contrast_decision :: "'y cmath_scheme \<Rightarrow> 'z contrast_stat_scheme \<Rightarrow> bool \<Rightarrow> bool \<Rightarrow> string res" where
  "contrast_decision m c rejects_no_effect rejects_tost =
     rbind (m_log m (f_add (Fin 1) (cs_effect c))) (\<lambda>band.
     Inr (if rejects_no_effect \<and> f_le band (cs_mean c) then ''improvement''
       else if rejects_no_effect \<and> f_le (cs_mean c) (f_neg band) then ''regression''
       else if rejects_tost then ''equivalent''
       else ''inconclusive''))"

text \<open>The decision of every tested contrast is written at its index.\<close>

definition write_decision ::
  "'y cmath_scheme \<Rightarrow> 'z contrast_stat_scheme list \<Rightarrow> bool list \<Rightarrow> bool list \<Rightarrow> string list \<Rightarrow> nat \<times> nat \<Rightarrow> string list res" where
  "write_decision m cs rejects_no_effect rejects_tost decisions = (\<lambda>(position, index).
     rbind (contrast_decision m (cs ! index) (rejects_no_effect ! position) (rejects_tost ! position)) (\<lambda>d.
     Inr (decisions[index := d])))"

definition sched_holm_decisions :: "'y cmath_scheme \<Rightarrow> contrast_stat list \<Rightarrow> pyfloat \<Rightarrow> string list res" where
  "sched_holm_decisions m comparisons alpha =
     (if comparisons = [] then Inr []
      else let decisions = map initial_decision comparisons; ts = tested comparisons in
        if ts = [] then Inr decisions
        else let dfs = map (\<lambda>i. cs_df (comparisons ! i)) ts;
                 abs_t = map (\<lambda>i. f_abs (cs_t_two (comparisons ! i))) ts;
                 tost = map (\<lambda>i. tost_statistic (comparisons ! i)) ts in
          rbind (sched_holm_step_down m abs_t dfs alpha 2 (Some PRIMARY_CONTRASTS)) (\<lambda>rejects_no_effect.
          rbind (sched_holm_step_down m tost dfs alpha 1 (Some PRIMARY_CONTRASTS)) (\<lambda>rejects_tost.
          rfold (write_decision m comparisons rejects_no_effect rejects_tost) decisions (enumerate 0 ts))))"

section \<open>Grouping\<close>

text \<open>\<open>d.setdefault(k, {})\<close> of a dictionary of dictionaries.\<close>

definition sub_dict :: "('k \<times> ('i \<times> 'v) list) list \<Rightarrow> 'k \<Rightarrow> ('i \<times> 'v) list" where
  "sub_dict d k = (case map_of d k of Some v \<Rightarrow> v | None \<Rightarrow> [])"

type_synonym comparison_key = "string \<times> string \<times> string option"
type_synonym arm_values = "(string \<times> pyfloat) list"
type_synonym grouped_obs = "(comparison_key \<times> (string \<times> arm_values) list) list"

definition comparison_of :: "'z sched_obs_scheme \<Rightarrow> comparison_key" where
  "comparison_of obs = (ob_workload obs, ob_metric obs, ob_direction obs)"

definition put_obs :: "grouped_obs \<Rightarrow> sched_obs \<Rightarrow> grouped_obs" where
  "put_obs grouped obs = (let key = comparison_of obs; arms = sub_dict grouped key; vals = sub_dict arms (ob_scheduler obs) in
     AList.update key (AList.update (ob_scheduler obs) (AList.update (ob_block obs) (ob_value obs) vals) arms) grouped)"

definition group_obs :: "grouped_obs \<Rightarrow> sched_obs \<Rightarrow> grouped_obs res" where
  "group_obs grouped obs =
     require (map_of (sub_dict (sub_dict grouped (comparison_of obs)) (ob_scheduler obs)) (ob_block obs) = None) ValueError
       (''duplicate observation for block='' @ repr_str (ob_block obs) @ '' scheduler='' @ repr_str (ob_scheduler obs)
        @ '' metric='' @ repr_str (ob_metric obs))
       (Inr (put_obs grouped obs))"

definition sorted_groups :: "(comparison_key \<times> 'v) list \<Rightarrow> (comparison_key \<times> 'v) list" where
  "sorted_groups grouped = sort_key (\<lambda>((workload, metric, _), _). (workload, metric)) grouped"

text \<open>\<open>sorted(d.items())\<close>: the keys of a dictionary differ, so they decide.\<close>

definition by_name :: "(string \<times> 'v) list \<Rightarrow> (string \<times> 'v) list" where
  "by_name d = sort_key fst d"

definition shared_blocks :: "(string \<times> 'v) list \<Rightarrow> (string \<times> 'w) list \<Rightarrow> string list" where
  "shared_blocks control arm = sort (remdups (filter (\<lambda>b. b \<in> fst ` set arm) (map fst control)))"

definition block_value :: "arm_values \<Rightarrow> string \<Rightarrow> pyfloat res" where
  "block_value vals block = as_some (map_of vals block) KeyError (repr_str block) Inr"

definition block_log :: "'y cmath_scheme \<Rightarrow> bool \<Rightarrow> arm_values \<Rightarrow> arm_values \<Rightarrow> string \<Rightarrow> pyfloat res" where
  "block_log m lower_is_better control arm block =
     rbind (block_value control block) (\<lambda>c. rbind (block_value arm block) (\<lambda>a. oriented_log_ratio m c a lower_is_better))"

section \<open>The analysis\<close>

type_synonym block_counts = "((pyval \<times> pyval) \<times> int) list"

definition wanted_blocks :: "block_counts \<Rightarrow> string \<Rightarrow> string \<Rightarrow> int option" where
  "wanted_blocks required workload metric = map_of required (VStr workload, VStr metric)"

record sched_run =
  sr_verdicts :: "sched_verdict list"
  sr_skipped :: "pyval list"
  sr_stats :: "contrast_stat list"
  sr_boot :: "(pyfloat \<times> pyfloat) list"

definition short_reason :: string where
  "short_reason = ''fewer than '' @ show_nat MIN_BLOCKS_FOR_VERDICT @ '' paired blocks''"

definition skip_arm :: "string \<Rightarrow> string \<Rightarrow> string \<Rightarrow> nat \<Rightarrow> pyval" where
  "skip_arm workload metric scheduler n = VDict [(''workload'', VStr workload), (''metric'', VStr metric),
     (''scheduler'', VStr scheduler), (''reason'', VStr short_reason), (''shared_blocks'', VInt (int n))]"

definition skip_group :: "string \<Rightarrow> string \<Rightarrow> pyval" where
  "skip_group workload metric = VDict [(''workload'', VStr workload), (''metric'', VStr metric), (''reason'', VStr ''no control arm'')]"

definition incomplete_verdict :: "'y cmath_scheme \<Rightarrow> string \<Rightarrow> string \<Rightarrow> string \<Rightarrow> pyfloat list \<Rightarrow> sched_verdict res" where
  "incomplete_verdict m workload metric scheduler logs =
     rbind (fmean logs) (\<lambda>mean. rbind (m_exp m mean) (\<lambda>ratio.
     Inr \<lparr> ve_workload = workload, ve_metric = metric, ve_scheduler = scheduler, ve_blocks = length logs, ve_ratio = ratio,
       ve_ci_low = NaN, ve_ci_high = NaN, ve_bootstrap_low = NaN, ve_bootstrap_high = NaN, ve_decision = ''incomplete'',
       ve_effect = practical_effect metric, ve_descriptive = is_descriptive workload \<rparr>))"

definition contrast_of_logs ::
  "'y cmath_scheme \<Rightarrow> (int \<Rightarrow> 'g) \<Rightarrow> ('g \<Rightarrow> nat \<Rightarrow> nat \<times> 'g) \<Rightarrow> int \<Rightarrow> int \<Rightarrow> string \<Rightarrow> string \<Rightarrow> string \<Rightarrow> pyfloat list
    \<Rightarrow> (contrast_stat \<times> (pyfloat \<times> pyfloat)) res" where
  "contrast_of_logs m random randrange resamples seed workload metric scheduler logs =
     (let n = length logs; effect = practical_effect metric in
      rbind (fmean logs) (\<lambda>mean.
      rbind (stdev logs) (\<lambda>sd.
      rbind (f_sqrt (Fin (of_nat n))) (\<lambda>r.
      rbind (f_div sd r) (\<lambda>se.
      rbind (m_log m (f_sub (Fin 1) effect)) (\<lambda>band_low.
      rbind (m_log m (f_add (Fin 1) effect)) (\<lambda>band_high.
      rbind (bootstrap_means random randrange logs resamples seed) (\<lambda>means.
      rbind (t_statistic se mean) (\<lambda>t_two.
      rbind (t_statistic se (f_sub mean band_low)) (\<lambda>t_lower.
      rbind (t_statistic se (f_sub mean band_high)) (\<lambda>t_upper.
      rbind (bootstrap_bounds m means) (\<lambda>boot.
      Inr (\<lparr> cs_workload = workload, cs_metric = metric, cs_scheduler = scheduler, cs_n = n, cs_df = int n - 1,
        cs_mean = mean, cs_sd = sd, cs_se = se, cs_t_two = t_two, cs_t_lower = t_lower, cs_t_upper = t_upper,
        cs_effect = effect, cs_descriptive = is_descriptive workload, cs_incomplete = False \<rparr>, boot)))))))))))))"

definition analyse_arm ::
  "'y cmath_scheme \<Rightarrow> (int \<Rightarrow> 'g) \<Rightarrow> ('g \<Rightarrow> nat \<Rightarrow> nat \<times> 'g) \<Rightarrow> block_counts \<Rightarrow> int \<Rightarrow> int \<Rightarrow> comparison_key \<Rightarrow> arm_values
    \<Rightarrow> sched_run \<Rightarrow> string \<times> arm_values \<Rightarrow> sched_run res" where
  "analyse_arm m random randrange required resamples seed key control run = (\<lambda>(scheduler, vals). case key of (workload, metric, direction) \<Rightarrow>
     if scheduler = CONTROL_SCHEDULER then Inr run
     else let shared = shared_blocks control vals in
       if length shared < MIN_BLOCKS_FOR_VERDICT
       then Inr (run\<lparr> sr_skipped := sr_skipped run @ [skip_arm workload metric scheduler (length shared)] \<rparr>)
       else rbind (rmap (block_log m (is_lower_better metric direction) control vals) shared) (\<lambda>logs.
         if (case wanted_blocks required workload metric of None \<Rightarrow> False | Some wanted \<Rightarrow> int (length logs) < wanted)
         then rbind (incomplete_verdict m workload metric scheduler logs) (\<lambda>v.
           Inr (run\<lparr> sr_verdicts := sr_verdicts run @ [v] \<rparr>))
         else rbind (contrast_of_logs m random randrange resamples seed workload metric scheduler logs) (\<lambda>(stat, boot).
           Inr (run\<lparr> sr_stats := sr_stats run @ [stat], sr_boot := sr_boot run @ [boot] \<rparr>))))"

definition analyse_group ::
  "'y cmath_scheme \<Rightarrow> (int \<Rightarrow> 'g) \<Rightarrow> ('g \<Rightarrow> nat \<Rightarrow> nat \<times> 'g) \<Rightarrow> block_counts \<Rightarrow> int \<Rightarrow> int
    \<Rightarrow> sched_run \<Rightarrow> comparison_key \<times> (string \<times> arm_values) list \<Rightarrow> sched_run res" where
  "analyse_group m random randrange required resamples seed run = (\<lambda>(key, arms). case key of (workload, metric, direction) \<Rightarrow>
     let control = sub_dict arms CONTROL_SCHEDULER in
     if control = [] then Inr (run\<lparr> sr_skipped := sr_skipped run @ [skip_group workload metric] \<rparr>)
     else rfold (analyse_arm m random randrange required resamples seed key control) run (by_name arms))"

definition corrected_verdict ::
  "'y cmath_scheme \<Rightarrow> pyfloat \<Rightarrow> contrast_stat \<times> (pyfloat \<times> pyfloat) \<times> string \<Rightarrow> sched_verdict res" where
  "corrected_verdict m alpha = (\<lambda>(c, (boot_low, boot_high), decision).
     rbind (f_div alpha (Fin 2)) (\<lambda>h.
     rbind (t_ppf m (f_sub (Fin 1) h) (cs_df c)) (\<lambda>t.
     let half = f_mul t (cs_se c) in
     rbind (m_exp m (cs_mean c)) (\<lambda>ratio.
     rbind (m_exp m (f_sub (cs_mean c) half)) (\<lambda>low.
     rbind (m_exp m (f_add (cs_mean c) half)) (\<lambda>high.
     Inr \<lparr> ve_workload = cs_workload c, ve_metric = cs_metric c, ve_scheduler = cs_scheduler c, ve_blocks = cs_n c,
       ve_ratio = ratio, ve_ci_low = low, ve_ci_high = high, ve_bootstrap_low = boot_low, ve_bootstrap_high = boot_high,
       ve_decision = decision, ve_effect = cs_effect c, ve_descriptive = cs_descriptive c \<rparr>))))))"

record sched_result =
  re_verdicts :: "sched_verdict list"
  re_skipped :: "pyval list"

definition empty_run :: sched_run where
  "empty_run = \<lparr> sr_verdicts = [], sr_skipped = [], sr_stats = [], sr_boot = [] \<rparr>"

definition analyse ::
  "'y cmath_scheme \<Rightarrow> (int \<Rightarrow> 'g) \<Rightarrow> ('g \<Rightarrow> nat \<Rightarrow> nat \<times> 'g) \<Rightarrow> sched_obs list \<Rightarrow> block_counts \<Rightarrow> pyfloat \<Rightarrow> int \<Rightarrow> int
    \<Rightarrow> sched_result res" where
  "analyse m random randrange observations required alpha resamples seed =
     rbind (rfold group_obs [] observations) (\<lambda>grouped.
     rbind (rfold (analyse_group m random randrange required resamples seed) empty_run (sorted_groups grouped)) (\<lambda>run.
     rbind (sched_holm_decisions m (sr_stats run) alpha) (\<lambda>decisions.
     rbind (rmap (corrected_verdict m alpha) (zip (sr_stats run) (zip (sr_boot run) decisions))) (\<lambda>vs.
     Inr \<lparr> re_verdicts = sr_verdicts run @ vs, re_skipped = sr_skipped run \<rparr>))))"

section \<open>Outputs\<close>

definition VERDICT_COLUMNS :: "string list" where
  "VERDICT_COLUMNS = [''workload'', ''metric'', ''scheduler'', ''blocks'', ''geometric_mean_ratio'', ''ci_low'', ''ci_high'',
     ''bootstrap_low'', ''bootstrap_high'', ''decision'', ''effect'', ''descriptive'']"

definition verdict_fields :: "'z sched_verdict_scheme \<Rightarrow> pyval list" where
  "verdict_fields v = [VStr (ve_workload v), VStr (ve_metric v), VStr (ve_scheduler v), VInt (int (ve_blocks v)),
     VStr (fmt_fixed 6 (ve_ratio v)), VStr (fmt_fixed 6 (ve_ci_low v)), VStr (fmt_fixed 6 (ve_ci_high v)),
     VStr (fmt_fixed 6 (ve_bootstrap_low v)), VStr (fmt_fixed 6 (ve_bootstrap_high v)), VStr (ve_decision v),
     VStr (fmt_fixed 2 (ve_effect v)), VStr (if ve_descriptive v then ''yes'' else ''no'')]"

definition summary_csv :: "sched_result \<Rightarrow> string" where
  "summary_csv result = csv_record (map VStr VERDICT_COLUMNS) @ concat (map (\<lambda>v. csv_record (verdict_fields v)) (re_verdicts result))"

definition verdict_items :: "'z sched_verdict_scheme \<Rightarrow> pydict" where
  "verdict_items v = [(''workload'', VStr (ve_workload v)), (''metric'', VStr (ve_metric v)), (''scheduler'', VStr (ve_scheduler v)),
     (''blocks'', VInt (int (ve_blocks v))), (''geometric_mean_ratio'', VFloat (py_round 6 (ve_ratio v))),
     (''ci_low'', VFloat (py_round 6 (ve_ci_low v))), (''ci_high'', VFloat (py_round 6 (ve_ci_high v))),
     (''bootstrap_low'', VFloat (py_round 6 (ve_bootstrap_low v))), (''bootstrap_high'', VFloat (py_round 6 (ve_bootstrap_high v))),
     (''decision'', VStr (ve_decision v)), (''effect'', VFloat (ve_effect v)), (''descriptive'', VBool (ve_descriptive v))]"

definition summary_payload :: "sched_result \<Rightarrow> pyval" where
  "summary_payload result = VDict [
     (''schema_version'', VInt 2),
     (''control_scheduler'', VStr CONTROL_SCHEDULER),
     (''practical_effect'', VFloat PRACTICAL_EFFECT),
     (''practical_effect_by_metric'', VDict (map (\<lambda>(k, e). (k, VFloat e)) PRACTICAL_EFFECT_BY_METRIC)),
     (''descriptive_workloads'', VList (map VStr DESCRIPTIVE_WORKLOADS)),
     (''min_blocks_for_verdict'', VInt (int MIN_BLOCKS_FOR_VERDICT)),
     (''primary_contrasts'', VInt PRIMARY_CONTRASTS),
     (''multiplicity'', VStr ''holm step-down over the predeclared family''),
     (''lower_is_better_fallback'', VList (map VStr (sort LOWER_IS_BETTER))),
     (''bootstrap_resamples'', VInt BOOTSTRAP_RESAMPLES),
     (''bootstrap_seed'', VInt BOOTSTRAP_SEED),
     (''verdicts'', VList (map (\<lambda>v. VDict (verdict_items v)) (re_verdicts result))),
     (''skipped'', VList (re_skipped result))]"

definition summary_json :: "sched_result \<Rightarrow> string" where
  "summary_json result = dumps indent2_style (summary_payload result) @ nl"

section \<open>The program\<close>

text \<open>
  The frozen counts. A key of the dictionary is a pair of JSON values: lists and objects are not
  hashable, and equal keys keep the first spelling.
\<close>

fun set_count :: "block_counts \<Rightarrow> pyval \<times> pyval \<Rightarrow> int \<Rightarrow> block_counts" where
  "set_count [] k n = [(k, n)]"
| "set_count ((k', n') # rest) k n =
     (if py_eq (fst k') (fst k) \<and> py_eq (snd k') (snd k) then (k', n) # rest else (k', n') # set_count rest k n)"

definition frozen_entry :: "block_counts \<Rightarrow> pyval \<Rightarrow> block_counts res" where
  "frozen_entry required v =
     as_dict v AttributeError ''object has no attribute get'' (\<lambda>entry.
     let frozen = dget entry ''confirmatory_blocks'' in
     if \<not> truthy frozen then Inr required
     else rbind (int_of_val frozen) (\<lambda>n.
       rbind (ditem entry ''scenario'') (\<lambda>scenario.
       rbind (ditem entry ''metric'') (\<lambda>metric.
       require (hashable scenario \<and> hashable metric) TypeError ''unhashable type''
         (Inr (set_count required (scenario, metric) n))))))"

definition counts_of_record :: "pyval \<Rightarrow> block_counts res" where
  "counts_of_record v =
     as_dict v AttributeError ''object has no attribute get'' (\<lambda>record.
     rbind (iter_val (dget_or record ''scenarios'' (VList []))) (rfold frozen_entry []))"

definition frozen_counts :: "fs \<Rightarrow> path \<Rightarrow> block_counts res" where
  "frozen_counts fs p = rbind (read_text fs p) (\<lambda>text. rbind (loads text) counts_of_record)"

text \<open>The record that is read: the option, or the file beside the confirmatory blocks when it exists.\<close>

definition sample_size_record :: "path \<Rightarrow> string \<Rightarrow> string option \<Rightarrow> fs \<Rightarrow> (path \<times> string) option" where
  "sample_size_record cwd blocks sample_size fs =
     (case sample_size of
        Some s \<Rightarrow> if is_file fs (path_join cwd s) then Some (path_join cwd s, show_path s) else None
      | None \<Rightarrow> let beside = butlast (butlast (resolve_parts (path_join cwd blocks))) @ [''sample-size.json''] in
          if is_file fs beside then Some (beside, path_text beside) else None)"

record script_output =
  ro_code :: int
  ro_stdout :: "string list"
  ro_stderr :: "string list"

definition write_summaries :: "path \<Rightarrow> string \<Rightarrow> string \<Rightarrow> unit io" where
  "write_summaries out csv json =
     io_then (io_do (mkdir_p out))
    (io_then (write_text (out @ [''summary.csv'']) csv)
       (write_text (out @ [''summary.json'']) json))"

definition sched_main ::
  "'y cmath_scheme \<Rightarrow> (int \<Rightarrow> 'g) \<Rightarrow> ('g \<Rightarrow> nat \<Rightarrow> nat \<times> 'g) \<Rightarrow> path \<Rightarrow> string \<Rightarrow> string \<Rightarrow> string option \<Rightarrow> script_output io" where
  "sched_main m random randrange cwd blocks output_dir sample_size =
     io_bind (io_read (\<lambda>fs. read_blocks cwd fs blocks)) (\<lambda>observations.
     io_bind (io_get (sample_size_record cwd blocks sample_size)) (\<lambda>record.
     io_bind (case record of None \<Rightarrow> io_return []
       | Some (p, _) \<Rightarrow> io_read (\<lambda>fs. frozen_counts fs p)) (\<lambda>required.
     io_bind (io_lift (analyse m random randrange observations required DEFAULT_ALPHA BOOTSTRAP_RESAMPLES BOOTSTRAP_SEED)) (\<lambda>result.
     io_then (write_summaries (path_join cwd output_dir) (summary_csv result) (summary_json result)) (
     let frozen = (case record of None \<Rightarrow> []
           | Some (_, name) \<Rightarrow> [''frozen counts: '' @ name @ '' ('' @ show_nat (length required) @ '' scenario(s))'']);
         skips = map (\<lambda>s. ''skipped: '' @ py_repr s) (re_skipped result) in
     io_return (if re_verdicts result = []
       then \<lparr> ro_code = 1, ro_stdout = frozen,
         ro_stderr = skips @ [''ERROR: no comparable paired blocks produced a verdict (see skipped entries above)''] \<rparr>
       else \<lparr> ro_code = 0,
         ro_stdout = frozen @ [''wrote '' @ show_nat (length (re_verdicts result)) @ '' verdicts to '' @ show_path output_dir],
         ro_stderr = skips \<rparr>))))))"

section \<open>Decisions follow the textbook rule\<close>

text \<open>A loop that writes at every index of a list what it computes for its position.\<close>

definition write_at :: "(nat \<Rightarrow> nat \<Rightarrow> 'a res) \<Rightarrow> 'a list \<Rightarrow> nat \<times> nat \<Rightarrow> 'a list res" where
  "write_at g xs = (\<lambda>(position, index). rbind (g position index) (\<lambda>v. Inr (xs[index := v])))"

lemma write_at_pair: "write_at g xs (p, i) = rbind (g p i) (\<lambda>v. Inr (xs[i := v]))"
  by (simp add: write_at_def)

lemma rfold_write_at:
  assumes "rfold (write_at g) xs (enumerate n ts) = Inr out" "distinct ts" "list_all (\<lambda>i. i < length xs) ts"
  shows "length out = length xs
    \<and> (\<forall>i < length xs. if i \<in> set ts then g (n + rank_of ts i) i = Inr (out ! i) else out ! i = xs ! i)"
  using assms
proof (induction ts arbitrary: n xs)
  case (Cons t ts)
  then obtain v where v: "g n t = Inr v" and rest: "rfold (write_at g) (xs[t := v]) (enumerate (Suc n) ts) = Inr out"
    by (auto simp: write_at_pair)
  have IH: "length out = length (xs[t := v])
      \<and> (\<forall>i < length (xs[t := v]). if i \<in> set ts then g (Suc n + rank_of ts i) i = Inr (out ! i) else out ! i = xs[t := v] ! i)"
    using Cons.prems by (intro Cons.IH [OF rest]) simp_all
  then show ?case using Cons.prems(2,3) v by (auto simp: rank_of_Cons nth_list_update split: if_splits)
qed simp

lemma write_decision_at:
  "write_decision m cs r1 r2 = write_at (\<lambda>p i. contrast_decision m (cs ! i) (r1 ! p) (r2 ! p))"
  by (simp add: write_decision_def write_at_def fun_eq_iff)

lemma tested_set: "i \<in> set (tested cs) \<longleftrightarrow> i < length cs \<and> \<not> cs_descriptive (cs ! i) \<and> \<not> cs_incomplete (cs ! i)"
  by (auto simp: tested_def)

lemma tested_distinct: "distinct (tested cs)"
  by (simp add: tested_def)

lemma written_decisions:
  assumes "rfold (write_decision m cs r1 r2) (map initial_decision cs) (enumerate 0 (tested cs)) = Inr ds"
    and ref: "\<And>i. i < length cs \<Longrightarrow> ref i = (if i \<in> set (tested cs)
      then contrast_decision m (cs ! i) (r1 ! rank_of (tested cs) i) (r2 ! rank_of (tested cs) i)
      else Inr (initial_decision (cs ! i)))"
  shows "map Inr ds = map ref [0 ..< length cs]"
proof (rule nth_equalityI)
  have all: "list_all (\<lambda>i. i < length (map initial_decision cs)) (tested cs)" by (simp add: list_all_iff tested_set)
  note spec = rfold_write_at [OF assms(1) [unfolded write_decision_at] tested_distinct all]
  show "length (map Inr ds) = length (map ref [0 ..< length cs])" using spec by simp
  fix i assume "i < length (map Inr ds)"
  then have i: "i < length cs" "i < length ds" using spec by simp_all
  then have "if i \<in> set (tested cs)
      then contrast_decision m (cs ! i) (r1 ! rank_of (tested cs) i) (r2 ! rank_of (tested cs) i) = Inr (ds ! i)
      else ds ! i = map initial_decision cs ! i"
    using spec by (simp split: if_splits)
  then show "map Inr ds ! i = map ref [0 ..< length cs] ! i" using i ref [OF i(1)] by (simp split: if_splits)
qed

definition reference_decision :: "'y cmath_scheme \<Rightarrow> pyfloat \<Rightarrow> contrast_stat list \<Rightarrow> nat \<Rightarrow> string res" where
  "reference_decision m alpha cs i =
     (let ts = tested cs; position = rank_of ts i; dfs = map (\<lambda>i. cs_df (cs ! i)) ts in
      if i \<in> set ts
      then contrast_decision m (cs ! i)
        (survives (t_ppf m) (map (\<lambda>i. f_abs (cs_t_two (cs ! i))) ts) dfs alpha 2 PRIMARY_CONTRASTS position)
        (survives (t_ppf m) (map (\<lambda>i. tost_statistic (cs ! i)) ts) dfs alpha 1 PRIMARY_CONTRASTS position)
      else Inr (initial_decision (cs ! i)))"

lemma sched_step_down_survives:
  assumes "sched_holm_step_down m scores dfs alpha sided (Some family) = Inr rejected"
  shows "rejected = map (survives (t_ppf m) scores dfs alpha sided family) [0 ..< length scores]"
  using assms by (intro step_down_survives) (simp add: sched_holm_step_down_def Let_def)

lemma sched_decisions_match:
  assumes "sched_holm_decisions m cs alpha = Inr ds"
  shows "map Inr ds = map (reference_decision m alpha cs) [0 ..< length cs]"
proof (cases "tested cs = []")
  case True
  then have "ds = map initial_decision cs" using assms by (simp add: sched_holm_decisions_def Let_def split: if_splits)
  then show ?thesis using True by (intro nth_equalityI) (simp_all add: reference_decision_def Let_def)
next
  case False
  let ?ts = "tested cs" let ?dfs = "map (\<lambda>i. cs_df (cs ! i)) ?ts"
  let ?t = "map (\<lambda>i. f_abs (cs_t_two (cs ! i))) ?ts" let ?e = "map (\<lambda>i. tost_statistic (cs ! i)) ?ts"
  have "cs \<noteq> []" using False by (auto simp: tested_def)
  then obtain r1 r2 where r1: "sched_holm_step_down m ?t ?dfs alpha 2 (Some PRIMARY_CONTRASTS) = Inr r1"
    and r2: "sched_holm_step_down m ?e ?dfs alpha 1 (Some PRIMARY_CONTRASTS) = Inr r2"
    and w: "rfold (write_decision m cs r1 r2) (map initial_decision cs) (enumerate 0 ?ts) = Inr ds"
    using assms False by (auto simp: sched_holm_decisions_def Let_def)
  have rank: "i \<in> set ?ts \<Longrightarrow> rank_of ?ts i < length ?ts" for i using rank_of_nth by blast
  show ?thesis
    by (rule written_decisions [OF w])
      (auto simp: reference_decision_def Let_def sched_step_down_survives [OF r1] sched_step_down_survives [OF r2] rank)
qed


text \<open>A library whose functions return NaN, for which quantiles far from the middle need no arithmetic.\<close>

definition nan_math :: cmath where
  "nan_math = \<lparr> m_exp = (\<lambda>_. Inr NaN), m_log = (\<lambda>_. Inr NaN), m_log1p = (\<lambda>_. Inr NaN), m_lgamma = (\<lambda>_. Inr NaN),
     m_pow = (\<lambda>_ _. Inr NaN) \<rparr>"

lemma nan_t_ppf:
  assumes "f_sub p (Fin (1 / 2)) = Fin q" "55 / 128 < q" "p = Fin r" "0 < r" "r < 1"
  shows "t_ppf nan_math p 2 = Inr NaN" "t_ppf nan_math p 3 = Inr NaN"
proof -
  have "fl (425 / 1000) \<le> 55 / 128" using fl_mono [of "425 / 1000" "55 / 128"] fl_dyadic [of 55 7] by simp
  then have lit: "\<exists>b. lit 425 3 = Fin b \<and> b < q" using assms(2) by (simp add: lit_def to_float_unit)
  then have z: "inv_cdf nan_math p = Inr NaN" using assms(1-5)
    by (auto simp: inv_cdf_def nan_math_def f_abs_def f_sqrt_def f_sub_def f_mul_def f_div_def inv_far_tail_num_def
      inv_far_tail_den_def horner_NaN)
  have d: "float_of_int 2 = Inr (Fin 2)" "float_of_int 3 = Inr (Fin 3)"
    using float_of_int_small [of 2] float_of_int_small [of 3] by simp_all
  have "cornish_fisher NaN (Fin 2) = Inr NaN"
    using to_float_small [of 8] to_float_small [of 192] to_float_small [of 384] to_float_small [of 768]
      to_float_small [of 1536] to_float_small [of 3072]
    by (simp add: cornish_fisher_def f_mul_def f_div_def f_sub_def)
  then show "t_ppf nan_math p 2 = Inr NaN" using assms z d by (simp add: t_ppf_def)
  have "cornish_fisher NaN (Fin 3) = Inr NaN"
    using to_float_small [of 12] to_float_small [of 288] to_float_small [of 864] to_float_small [of 1152]
      to_float_small [of 3456] to_float_small [of 10368]
    by (simp add: cornish_fisher_def f_mul_def f_div_def f_sub_def)
  then show "t_ppf nan_math p 3 = Inr NaN" using assms z d by (simp add: t_ppf_def)
qed

definition sample_contrast :: "bool \<Rightarrow> contrast_stat" where
  "sample_contrast descriptive = \<lparr> cs_workload = ''w'', cs_metric = ''throughput'', cs_scheduler = ''scx'', cs_n = 3, cs_df = 2,
     cs_mean = Fin 1, cs_sd = Fin 1, cs_se = Fin 1, cs_t_two = Fin 3, cs_t_lower = Fin 4, cs_t_upper = Fin 2,
     cs_effect = Fin 1, cs_descriptive = descriptive, cs_incomplete = False \<rparr>"

lemma nan_passes:
  assumes "0 < sided * n" "sided * n < 1000" "a / of_int (sided * n) = 1 / 16 \<or> a / of_int (sided * n) = 1 / 32"
  shows "score_passes (t_ppf nan_math) [x] [2] (Fin a) sided n 1 0 = Inr False"
proof -
  have d: "to_float (1 / 16) = Fin (1 / 16)" "to_float (1 / 32) = Fin (1 / 32)" "to_float (15 / 16) = Fin (15 / 16)"
    "to_float (31 / 32) = Fin (31 / 32)" "to_float (7 / 16) = Fin (7 / 16)" "to_float (15 / 32) = Fin (15 / 32)"
    using to_float_dyadic [of 1 4] to_float_dyadic [of 1 5] to_float_dyadic [of 15 4] to_float_dyadic [of 31 5]
      to_float_dyadic [of 7 4] to_float_dyadic [of 15 5] by simp_all
  have t: "t_ppf nan_math (Fin (15 / 16)) 2 = Inr NaN" "t_ppf nan_math (Fin (31 / 32)) 2 = Inr NaN"
    using d nan_t_ppf(1) [of "Fin (15 / 16)" "7 / 16" "15 / 16"] nan_t_ppf(1) [of "Fin (31 / 32)" "15 / 32" "31 / 32"]
    by (simp_all add: f_sub_def)
  have k: "float_of_int (sided * n) = Inr (Fin (of_int (sided * n)))" using assms(1,2) by (intro float_of_int_small) simp
  have "f_div (Fin a) (Fin (of_int (sided * n))) = Inr (to_float (a / of_int (sided * n)))"
    unfolding f_div_def prod.case pyfloat.case using assms(1) by auto
  then have "f_div (Fin a) (Fin (of_int (sided * n))) = Inr (Fin (1 / 16)) \<or> f_div (Fin a) (Fin (of_int (sided * n))) = Inr (Fin (1 / 32))"
    using assms(3) d(1,2) by metis
  then show ?thesis using d t k by (elim disjE) (simp_all add: score_passes_def f_sub_def)
qed


section \<open>Grouping keeps every observation\<close>

text \<open>
  The contract of the nested dictionaries both analyses group their observations in: an observation is
  found under its key, the other keys keep their value, and a second observation with a key is an error.
\<close>

locale observation_store =
  fixes add :: "'s \<Rightarrow> 'r \<Rightarrow> 's res"
    and val :: "'s \<Rightarrow> 'k \<Rightarrow> pyfloat option"
    and key :: "'r \<Rightarrow> 'k"
    and measured :: "'r \<Rightarrow> pyfloat"
    and start :: 's
  assumes val_start: "val start k = None"
    and add_new: "val s (key r) = None \<Longrightarrow>
      \<exists>s'. add s r = Inr s' \<and> (\<forall>k. val s' k = (if k = key r then Some (measured r) else val s k))"
    and add_again: "val s (key r) \<noteq> None \<Longrightarrow> \<exists>e. add s r = Inl (Raise ValueError e)"
begin

lemma fold_distinct:
  assumes "distinct (map key rs)" "list_all (\<lambda>r. val s (key r) = None) rs"
  shows "\<exists>s'. rfold add s rs = Inr s'
    \<and> (\<forall>k. val s' k = (case map_of (map (\<lambda>r. (key r, measured r)) rs) k of Some v \<Rightarrow> Some v | None \<Rightarrow> val s k))"
  using assms
proof (induction rs arbitrary: s)
  case (Cons r rs)
  obtain s1 where s1: "add s r = Inr s1" "\<And>k. val s1 k = (if k = key r then Some (measured r) else val s k)"
    using add_new [of s r] Cons.prems(2) by auto
  have "list_all (\<lambda>q. val s1 (key q) = None) rs"
    using Cons.prems by (auto simp: s1(2) list_all_iff image_iff)
  then obtain s' where "rfold add s1 rs = Inr s'"
    "\<And>k. val s' k = (case map_of (map (\<lambda>r. (key r, measured r)) rs) k of Some v \<Rightarrow> Some v | None \<Rightarrow> val s1 k)"
    using Cons.IH [of s1] Cons.prems(1) by auto
  moreover have "map_of (map (\<lambda>r. (key r, measured r)) rs) (key r) = None"
    using Cons.prems(1) by (auto simp: map_of_eq_None_iff image_iff)
  ultimately show ?case using s1 by (auto split: option.splits)
qed simp

lemma fold_duplicate:
  assumes "\<not> (distinct (map key rs) \<and> list_all (\<lambda>r. val s (key r) = None) rs)"
  shows "\<exists>e. rfold add s rs = Inl (Raise ValueError e)"
  using assms
proof (induction rs arbitrary: s)
  case (Cons r rs)
  show ?case
  proof (cases "val s (key r) = None")
    case True
    then obtain s1 where s1: "add s r = Inr s1" "\<And>k. val s1 k = (if k = key r then Some (measured r) else val s k)"
      using add_new [of s r] by auto
    have "\<not> (distinct (map key rs) \<and> list_all (\<lambda>q. val s1 (key q) = None) rs)"
      using Cons.prems True by (auto simp: s1(2) list_all_iff image_iff split: if_splits)
    then show ?thesis using Cons.IH [of s1] s1(1) by simp
  next
    case False
    then obtain e where "add s r = Inl (Raise ValueError e)" using add_again by blast
    then show ?thesis by simp
  qed
qed simp

lemma store_spec:
  "if distinct (map key rs)
   then (\<exists>s. rfold add start rs = Inr s \<and> (\<forall>k. val s k = map_of (map (\<lambda>r. (key r, measured r)) rs) k))
   else (\<exists>e. rfold add start rs = Inl (Raise ValueError e))"
proof (cases "distinct (map key rs)")
  case True
  then obtain s where s: "rfold add start rs = Inr s"
    "\<And>k. val s k = (case map_of (map (\<lambda>r. (key r, measured r)) rs) k of Some v \<Rightarrow> Some v | None \<Rightarrow> val start k)"
    using fold_distinct [of rs start] by (auto simp: val_start list_all_iff)
  have "val s k = map_of (map (\<lambda>r. (key r, measured r)) rs) k" for k
    unfolding s(2) by (simp add: val_start split: option.split)
  then show ?thesis using True s(1) by simp
next
  case False
  then show ?thesis using fold_duplicate [of rs start] by simp
qed

lemma stored_val:
  assumes "rfold add start rs = Inr s" "r \<in> set rs"
  shows "val s (key r) = Some (measured r)"
proof -
  have d: "distinct (map key rs)" using store_spec [of rs] assms(1) by (auto split: if_splits)
  then have v: "val s (key r) = map_of (map (\<lambda>r. (key r, measured r)) rs) (key r)"
    using store_spec [of rs] assms(1) by auto
  have "map_of (map (\<lambda>r. (key r, measured r)) rs) (key r) = Some (measured r)"
    using d assms(2) by (intro map_of_is_SomeI) (auto simp: comp_def)
  then show ?thesis using v by simp
qed

lemma stored_from:
  assumes "rfold add start rs = Inr s" "val s k = Some v"
  shows "\<exists>r \<in> set rs. key r = k \<and> measured r = v"
proof -
  have "distinct (map key rs)" using store_spec [of rs] assms(1) by (auto split: if_splits)
  then have "map_of (map (\<lambda>r. (key r, measured r)) rs) k = Some v"
    using store_spec [of rs] assms by auto
  then have "(k, v) \<in> set (map (\<lambda>r. (key r, measured r)) rs)" by (rule map_of_SomeD)
  then show ?thesis by auto
qed

end

lemma sub_dict_update: "sub_dict (AList.update k v d) k' = (if k' = k then v else sub_dict d k')"
  by (simp add: sub_dict_def update_conv' split: option.splits)

type_synonym obs_id = "comparison_key \<times> string \<times> string"

definition obs_key :: "'z sched_obs_scheme \<Rightarrow> obs_id" where
  "obs_key obs = (comparison_of obs, ob_scheduler obs, ob_block obs)"

definition grouped_value :: "grouped_obs \<Rightarrow> obs_id \<Rightarrow> pyfloat option" where
  "grouped_value grouped = (\<lambda>(c, s, b). map_of (sub_dict (sub_dict grouped c) s) b)"

lemma put_obs_value:
  "grouped_value (put_obs grouped obs) k = (if k = obs_key obs then Some (ob_value obs) else grouped_value grouped k)"
  by (cases k) (auto simp: grouped_value_def put_obs_def obs_key_def Let_def sub_dict_update update_conv')

interpretation grouped: observation_store group_obs grouped_value obs_key ob_value "[]"
proof
  show "grouped_value [] k = None" for k by (simp add: grouped_value_def sub_dict_def split: prod.splits)
next
  fix s and r :: sched_obs
  have iff: "grouped_value s (obs_key r) = map_of (sub_dict (sub_dict s (comparison_of r)) (ob_scheduler r)) (ob_block r)"
    by (simp add: grouped_value_def obs_key_def)
  show "\<exists>s'. group_obs s r = Inr s' \<and> (\<forall>k. grouped_value s' k = (if k = obs_key r then Some (ob_value r) else grouped_value s k))"
    if "grouped_value s (obs_key r) = None"
    using that by (simp add: group_obs_def iff put_obs_value require_def)
  show "\<exists>e. group_obs s r = Inl (Raise ValueError e)" if "grouped_value s (obs_key r) \<noteq> None"
    using that by (auto simp: group_obs_def iff require_def)
qed

section \<open>Nothing fails silently\<close>

text \<open>What every step of a fold establishes and later steps keep holds of every element at the end.\<close>

lemma rfold_collects:
  assumes step: "\<And>s x s'. f s x = Inr s' \<Longrightarrow> R s s' \<and> Q s' x"
    and refl: "\<And>s. R s s" and trans: "\<And>a b c. R a b \<Longrightarrow> R b c \<Longrightarrow> R a c"
    and keep: "\<And>s s' x. Q s x \<Longrightarrow> R s s' \<Longrightarrow> Q s' x"
    and run: "rfold f s xs = Inr s'"
  shows "R s s' \<and> list_all (Q s') xs"
  using run
proof (induction xs arbitrary: s)
  case (Cons x xs)
  then obtain s1 where s1: "f s x = Inr s1" "rfold f s1 xs = Inr s'" by auto
  then show ?case using Cons.IH [OF s1(2)] step [OF s1(1)] trans keep by auto
qed (simp add: refl)

definition arm_of_verdict :: "'z sched_verdict_scheme \<Rightarrow> string \<times> string \<times> string" where
  "arm_of_verdict v = (ve_workload v, ve_metric v, ve_scheduler v)"

definition arm_of_stat :: "'z contrast_stat_scheme \<Rightarrow> string \<times> string \<times> string" where
  "arm_of_stat c = (cs_workload c, cs_metric c, cs_scheduler c)"

text \<open>A later state extends an earlier one; statistics and bootstrap bounds stay paired.\<close>

definition run_extends :: "sched_run \<Rightarrow> sched_run \<Rightarrow> bool" where
  "run_extends a b \<longleftrightarrow> set (sr_verdicts a) \<subseteq> set (sr_verdicts b) \<and> set (sr_skipped a) \<subseteq> set (sr_skipped b)
     \<and> set (sr_stats a) \<subseteq> set (sr_stats b)
     \<and> (length (sr_stats a) = length (sr_boot a) \<longrightarrow> length (sr_stats b) = length (sr_boot b))
     \<and> (list_all (\<lambda>v. MIN_BLOCKS_FOR_VERDICT \<le> ve_blocks v) (sr_verdicts a) \<longrightarrow> list_all (\<lambda>v. MIN_BLOCKS_FOR_VERDICT \<le> ve_blocks v) (sr_verdicts b))
     \<and> (list_all (\<lambda>c. MIN_BLOCKS_FOR_VERDICT \<le> cs_n c) (sr_stats a) \<longrightarrow> list_all (\<lambda>c. MIN_BLOCKS_FOR_VERDICT \<le> cs_n c) (sr_stats b))"

lemma run_extends_refl: "run_extends a a"
  by (simp add: run_extends_def)

lemma run_extends_trans: "run_extends a b \<Longrightarrow> run_extends b c \<Longrightarrow> run_extends a c"
  unfolding run_extends_def by blast

definition short_arm :: "pyval list \<Rightarrow> string \<times> string \<times> string \<Rightarrow> bool" where
  "short_arm skipped = (\<lambda>(w, m, s). list_ex (\<lambda>n. skip_arm w m s n \<in> set skipped) [0 ..< MIN_BLOCKS_FOR_VERDICT])"

definition run_reports :: "sched_run \<Rightarrow> string \<times> string \<times> string \<Rightarrow> bool" where
  "run_reports run arm \<longleftrightarrow> arm \<in> set (map arm_of_verdict (sr_verdicts run)) \<or> arm \<in> set (map arm_of_stat (sr_stats run))
     \<or> short_arm (sr_skipped run) arm"

lemma run_reports_keep: "run_reports a arm \<Longrightarrow> run_extends a b \<Longrightarrow> run_reports b arm"
  unfolding run_reports_def run_extends_def short_arm_def by (fastforce simp: list_ex_iff)

lemma contrast_of_logs_arm:
  assumes "contrast_of_logs m random randrange resamples seed w mt s logs = Inr (c, boot)"
  shows "arm_of_stat c = (w, mt, s)" "cs_n c = length logs"
  using assms unfolding contrast_of_logs_def Let_def by (auto simp: arm_of_stat_def)

lemma analyse_arm_reports:
  assumes "analyse_arm m random randrange required resamples seed (w, mt, d) control run (s, vals) = Inr run'"
  shows "run_extends run run' \<and> (s = CONTROL_SCHEDULER \<or> run_reports run' (w, mt, s))"
proof -
  let ?shared = "shared_blocks control vals"
  note unfold = assms [unfolded analyse_arm_def prod.case Let_def]
  have logs: "\<exists>logs. rmap (block_log m (is_lower_better mt d) control vals) ?shared = Inr logs"
    if "s \<noteq> CONTROL_SCHEDULER" "\<not> length ?shared < MIN_BLOCKS_FOR_VERDICT"
    using unfold that by (cases "rmap (block_log m (is_lower_better mt d) control vals) ?shared") simp_all
  consider "s = CONTROL_SCHEDULER" | "s \<noteq> CONTROL_SCHEDULER" "length ?shared < MIN_BLOCKS_FOR_VERDICT"
    | logs where "s \<noteq> CONTROL_SCHEDULER" "MIN_BLOCKS_FOR_VERDICT \<le> length logs"
      "rmap (block_log m (is_lower_better mt d) control vals) ?shared = Inr logs"
    using logs rmap_length by (metis not_less)
  then show ?thesis
  proof cases
    case 1
    then show ?thesis using unfold by (simp add: run_extends_refl)
  next
    case 2
    then have r: "run' = run\<lparr> sr_skipped := sr_skipped run @ [skip_arm w mt s (length ?shared)] \<rparr>" using unfold by simp
    show ?thesis using 2 unfolding r by (auto simp: run_extends_def run_reports_def short_arm_def list_ex_iff)
  next
    case 3
    have len: "\<not> length ?shared < MIN_BLOCKS_FOR_VERDICT" using rmap_length [OF 3(3)] 3(2) by simp
    from 3 len unfold consider v where "incomplete_verdict m w mt s logs = Inr v" "run' = run\<lparr> sr_verdicts := sr_verdicts run @ [v] \<rparr>"
      | c boot where "contrast_of_logs m random randrange resamples seed w mt s logs = Inr (c, boot)"
        "run' = run\<lparr> sr_stats := sr_stats run @ [c], sr_boot := sr_boot run @ [boot] \<rparr>"
      by (auto split: if_splits)
    then show ?thesis
    proof cases
      case 1
      then have "arm_of_verdict v = (w, mt, s) \<and> ve_blocks v = length logs"
        by (auto simp: incomplete_verdict_def arm_of_verdict_def)
      then show ?thesis using 1(2) 3(2) by (auto simp: run_extends_def run_reports_def)
    next
      case 2
      then show ?thesis using contrast_of_logs_arm [OF 2(1)] 3(2) by (auto simp: run_extends_def run_reports_def)
    qed
  qed
qed

definition group_reported :: "sched_run \<Rightarrow> comparison_key \<times> (string \<times> arm_values) list \<Rightarrow> bool" where
  "group_reported run = (\<lambda>((w, mt, d), arms).
     if sub_dict arms CONTROL_SCHEDULER = [] then skip_group w mt \<in> set (sr_skipped run)
     else list_all (\<lambda>(s, vals). s = CONTROL_SCHEDULER \<or> run_reports run (w, mt, s)) arms)"

lemma by_name_set [simp]: "set (by_name d) = set d"
  by (simp add: by_name_def)

lemma sorted_groups_set [simp]: "set (sorted_groups g) = set g"
  by (simp add: sorted_groups_def)

lemma analyse_group_reports:
  assumes "analyse_group m random randrange required resamples seed run ((w, mt, d), arms) = Inr run'"
  shows "run_extends run run' \<and> group_reported run' ((w, mt, d), arms)"
proof (cases "sub_dict arms CONTROL_SCHEDULER = []")
  case True
  then have "run' = run\<lparr> sr_skipped := sr_skipped run @ [skip_group w mt] \<rparr>" using assms by (simp add: analyse_group_def Let_def)
  then show ?thesis using True by (auto simp: run_extends_def group_reported_def)
next
  case False
  let ?f = "analyse_arm m random randrange required resamples seed (w, mt, d) (sub_dict arms CONTROL_SCHEDULER)"
  have r: "rfold ?f run (by_name arms) = Inr run'" using assms False by (simp add: analyse_group_def Let_def)
  have "run_extends run run' \<and> list_all ((\<lambda>q (s, vals). s = CONTROL_SCHEDULER \<or> run_reports q (w, mt, s)) run') (by_name arms)"
  proof (rule rfold_collects [OF _ run_extends_refl run_extends_trans _ r])
    show "run_extends a b \<and> (case x of (s, vals) \<Rightarrow> s = CONTROL_SCHEDULER \<or> run_reports b (w, mt, s))"
      if "?f a x = Inr b" for a x b
      using that by (cases x) (simp add: analyse_arm_reports)
    show "case x of (s, vals) \<Rightarrow> s = CONTROL_SCHEDULER \<or> run_reports b (w, mt, s)"
      if "case x of (s, vals) \<Rightarrow> s = CONTROL_SCHEDULER \<or> run_reports a (w, mt, s)" "run_extends a b" for a b x
      using that run_reports_keep by (cases x) auto
  qed
  then show ?thesis using False by (simp add: group_reported_def list_all_iff)
qed

lemma group_reported_keep:
  assumes "group_reported a g" "run_extends a b"
  shows "group_reported b g"
proof -
  obtain w mt d arms where g: "g = ((w, mt, d), arms)" by (cases g) auto
  have "set (sr_skipped a) \<subseteq> set (sr_skipped b)" using assms(2) by (simp add: run_extends_def)
  moreover have "list_all (\<lambda>(s, vals). s = CONTROL_SCHEDULER \<or> run_reports b (w, mt, s)) arms"
    if "list_all (\<lambda>(s, vals). s = CONTROL_SCHEDULER \<or> run_reports a (w, mt, s)) arms"
    using that by (rule list.pred_mono_strong) (auto intro: run_reports_keep [OF _ assms(2)])
  ultimately show ?thesis using assms(1) by (auto simp: g group_reported_def split: if_splits)
qed

lemma corrected_verdict_arm:
  assumes "corrected_verdict m alpha (c, boot, decision) = Inr v"
  shows "arm_of_verdict v = arm_of_stat c" "ve_blocks v = cs_n c" "ve_decision v = decision" "ve_descriptive v = cs_descriptive c"
  using assms by (auto simp: corrected_verdict_def arm_of_verdict_def arm_of_stat_def Let_def split: prod.splits)

lemma corrected_verdicts:
  assumes "rmap (corrected_verdict m alpha) (zip stats (zip boots ds)) = Inr vs"
    "length boots = length stats" "length ds = length stats"
  shows "list_all2 (\<lambda>c v. arm_of_verdict v = arm_of_stat c \<and> ve_blocks v = cs_n c) stats vs"
proof -
  have len: "length vs = length stats" using rmap_length [OF assms(1)] assms(2,3) by simp
  show ?thesis
  proof (rule list_all2_all_nthI)
    show "length stats = length vs" using len by simp
    fix i assume i: "i < length stats"
    then have "corrected_verdict m alpha (stats ! i, boots ! i, ds ! i) = Inr (vs ! i)"
      using assms list_all2_nthD [OF iffD1 [OF rmap_Inr assms(1)], of i] by simp
    then show "arm_of_verdict (vs ! i) = arm_of_stat (stats ! i) \<and> ve_blocks (vs ! i) = cs_n (stats ! i)"
      by (simp add: corrected_verdict_arm)
  qed
qed

lemma decisions_length: "sched_holm_decisions m cs alpha = Inr ds \<Longrightarrow> length ds = length cs"
  using arg_cong [OF sched_decisions_match, of m cs alpha ds length] by simp

text \<open>The state after the first pass, with everything the groups are owed.\<close>

lemma analyse_passes:
  assumes "analyse m random randrange observations required alpha resamples seed = Inr result"
  obtains grouped run where "rfold group_obs [] observations = Inr grouped" "list_all (group_reported run) grouped"
    "re_skipped result = sr_skipped run"
    "set (map arm_of_verdict (re_verdicts result)) = set (map arm_of_verdict (sr_verdicts run)) \<union> set (map arm_of_stat (sr_stats run))"
    "list_all (\<lambda>v. MIN_BLOCKS_FOR_VERDICT \<le> ve_blocks v) (re_verdicts result)"
proof -
  obtain grouped run ds vs where g: "rfold group_obs [] observations = Inr grouped"
    and r: "rfold (analyse_group m random randrange required resamples seed) empty_run (sorted_groups grouped) = Inr run"
    and d: "sched_holm_decisions m (sr_stats run) alpha = Inr ds"
    and v: "rmap (corrected_verdict m alpha) (zip (sr_stats run) (zip (sr_boot run) ds)) = Inr vs"
    and res: "result = \<lparr> re_verdicts = sr_verdicts run @ vs, re_skipped = sr_skipped run \<rparr>"
    using assms by (auto simp: analyse_def)
  have ext: "run_extends empty_run run \<and> list_all (group_reported run) (sorted_groups grouped)"
    by (rule rfold_collects [OF _ run_extends_refl run_extends_trans group_reported_keep r])
      (auto dest: analyse_group_reports)
  have vs: "list_all2 (\<lambda>c v. arm_of_verdict v = arm_of_stat c \<and> ve_blocks v = cs_n c) (sr_stats run) vs"
    using corrected_verdicts [OF v] decisions_length [OF d] ext by (simp add: run_extends_def empty_run_def)
  have arms: "map arm_of_verdict vs = map arm_of_stat (sr_stats run)" and blocks: "map ve_blocks vs = map cs_n (sr_stats run)"
    using vs by (induction rule: list_all2_induct) auto
  have "list_all (\<lambda>n. MIN_BLOCKS_FOR_VERDICT \<le> n) (map ve_blocks vs)"
    unfolding blocks using ext by (simp add: list.pred_map comp_def run_extends_def empty_run_def)
  then have "list_all (\<lambda>v. MIN_BLOCKS_FOR_VERDICT \<le> ve_blocks v) vs" by (simp add: list.pred_map comp_def)
  then have "list_all (\<lambda>v. MIN_BLOCKS_FOR_VERDICT \<le> ve_blocks v) (re_verdicts result)"
    using ext by (simp add: res run_extends_def empty_run_def)
  moreover have "set (map arm_of_verdict (re_verdicts result)) = set (map arm_of_verdict (sr_verdicts run)) \<union> set (map arm_of_stat (sr_stats run))"
    unfolding arms [symmetric] by (simp add: res image_Un)
  moreover have "list_all (group_reported run) grouped" "re_skipped result = sr_skipped run" using ext by (simp_all add: list_all_iff res)
  ultimately show ?thesis using g that by blast
qed

definition arm_of_obs :: "'z sched_obs_scheme \<Rightarrow> string \<times> string \<times> string" where
  "arm_of_obs obs = (ob_workload obs, ob_metric obs, ob_scheduler obs)"

definition has_control :: "sched_obs list \<Rightarrow> sched_obs \<Rightarrow> bool" where
  "has_control observations obs \<longleftrightarrow>
     list_ex (\<lambda>c. comparison_of c = comparison_of obs \<and> ob_scheduler c = CONTROL_SCHEDULER) observations"

lemma grouped_value_Some:
  assumes "grouped_value grouped (c, s, b) = Some v"
  shows "map_of grouped c = Some (sub_dict grouped c) \<and> map_of (sub_dict grouped c) s = Some (sub_dict (sub_dict grouped c) s)"
  using assms by (auto simp: grouped_value_def sub_dict_def split: option.splits)

lemma control_grouped:
  assumes "rfold group_obs [] observations = Inr grouped"
  shows "sub_dict (sub_dict grouped (comparison_of obs)) CONTROL_SCHEDULER \<noteq> [] \<longleftrightarrow> has_control observations obs"
proof
  let ?c = "sub_dict (sub_dict grouped (comparison_of obs)) CONTROL_SCHEDULER"
  assume "?c \<noteq> []"
  then obtain b v rest where "?c = (b, v) # rest" by (cases ?c) auto
  then have "grouped_value grouped (comparison_of obs, CONTROL_SCHEDULER, b) = Some v" by (simp add: grouped_value_def)
  then show "has_control observations obs"
    using grouped.stored_from [OF assms, of "(comparison_of obs, CONTROL_SCHEDULER, b)" v]
    by (auto simp: has_control_def list_ex_iff obs_key_def)
next
  assume "has_control observations obs"
  then obtain c where c: "c \<in> set observations" "comparison_of c = comparison_of obs" "ob_scheduler c = CONTROL_SCHEDULER"
    by (auto simp: has_control_def list_ex_iff)
  then show "sub_dict (sub_dict grouped (comparison_of obs)) CONTROL_SCHEDULER \<noteq> []"
    using grouped.stored_val [OF assms c(1)] by (auto simp: grouped_value_def obs_key_def)
qed

text \<open>
  C22: an analysis that returns leaves no measured arm unreported: for every observation of a scheduler
  other than the control, either its comparison has a control arm, and the arm has a verdict or a skip
  entry saying it shares fewer than three blocks with the control, or the whole comparison is recorded
  as having no control arm; and every verdict rests on at least three paired blocks.
\<close>

theorem analyse_accounts_for_arms:
  assumes "analyse m random randrange observations required alpha resamples seed = Inr result"
    "obs \<in> set observations" "ob_scheduler obs \<noteq> CONTROL_SCHEDULER"
  shows "(if has_control observations obs
      then arm_of_obs obs \<in> set (map arm_of_verdict (re_verdicts result)) \<or> short_arm (re_skipped result) (arm_of_obs obs)
      else skip_group (ob_workload obs) (ob_metric obs) \<in> set (re_skipped result))
    \<and> list_all (\<lambda>v. MIN_BLOCKS_FOR_VERDICT \<le> ve_blocks v) (re_verdicts result)"
proof -
  obtain grouped run where g: "rfold group_obs [] observations = Inr grouped" and reported: "list_all (group_reported run) grouped"
    and skipped: "re_skipped result = sr_skipped run"
    and arms: "set (map arm_of_verdict (re_verdicts result)) = set (map arm_of_verdict (sr_verdicts run)) \<union> set (map arm_of_stat (sr_stats run))"
    and blocks: "list_all (\<lambda>v. MIN_BLOCKS_FOR_VERDICT \<le> ve_blocks v) (re_verdicts result)"
    by (rule analyse_passes [OF assms(1)])
  let ?arms = "sub_dict grouped (comparison_of obs)"
  have stored: "grouped_value grouped (comparison_of obs, ob_scheduler obs, ob_block obs) = Some (ob_value obs)"
    using grouped.stored_val [OF g assms(2)] by (simp add: obs_key_def)
  then have mem: "(comparison_of obs, ?arms) \<in> set grouped" "(ob_scheduler obs, sub_dict ?arms (ob_scheduler obs)) \<in> set ?arms"
    using grouped_value_Some [OF stored] by (simp_all add: map_of_SomeD)
  have "group_reported run ((ob_workload obs, ob_metric obs, ob_direction obs), ?arms)"
    using reported mem(1) by (simp add: list_all_iff comparison_of_def)
  then have "if sub_dict ?arms CONTROL_SCHEDULER = [] then skip_group (ob_workload obs) (ob_metric obs) \<in> set (sr_skipped run)
      else run_reports run (arm_of_obs obs)"
    using mem(2) assms(3) by (auto simp: list_all_iff group_reported_def arm_of_obs_def)
  then show ?thesis using control_grouped [OF g, of obs] blocks skipped arms
    by (auto simp: run_reports_def split: if_splits)
qed

definition sample_obs :: "sched_obs list" where
  "sample_obs =
    [\<lparr> ob_block = ''b1'', ob_workload = ''http'', ob_metric = ''rps'', ob_scheduler = ''scx_lavd'', ob_value = Fin 3, ob_direction = None \<rparr>,
     \<lparr> ob_block = ''b1'', ob_workload = ''http'', ob_metric = ''rps'', ob_scheduler = ''eevdf'', ob_value = Fin 2, ob_direction = None \<rparr>,
     \<lparr> ob_block = ''b1'', ob_workload = ''build'', ob_metric = ''rps'', ob_scheduler = ''scx_lavd'', ob_value = Fin 1, ob_direction = None \<rparr>]"

definition sample_groups :: grouped_obs where
  "sample_groups = [((''http'', ''rps'', None), [(''scx_lavd'', [(''b1'', Fin 3)]), (''eevdf'', [(''b1'', Fin 2)])]),
     ((''build'', ''rps'', None), [(''scx_lavd'', [(''b1'', Fin 1)])])]"

lemma sample_grouped: "rfold group_obs [] sample_obs = Inr sample_groups"
  by code_simp

lemma sample_sorted: "sorted_groups sample_groups = rev sample_groups"
  by code_simp

lemma sample_run:
  "rfold (analyse_group nan_math (\<lambda>_. ()) (\<lambda>g n. (0, g)) [] 10 7) empty_run (sorted_groups sample_groups)
   = Inr (empty_run\<lparr> sr_skipped := [skip_group ''build'' ''rps'', skip_arm ''http'' ''rps'' ''scx_lavd'' 1] \<rparr>)"
  unfolding sample_sorted
  by (simp add: sample_groups_def analyse_group_def analyse_arm_def sub_dict_def CONTROL_SCHEDULER_def by_name_def
    shared_blocks_def MIN_BLOCKS_FOR_VERDICT_def empty_run_def)

theorem analyse_accounts_for_arms_witness:
  "short_arm [skip_group ''build'' ''rps'', skip_arm ''http'' ''rps'' ''scx_lavd'' 1] (''http'', ''rps'', ''scx_lavd'')
   \<and> analyse nan_math (\<lambda>_. ()) (\<lambda>g n. (0, g)) sample_obs [] (Fin 1) 10 7
     = Inr \<lparr> re_verdicts = [], re_skipped = [skip_group ''build'' ''rps'', skip_arm ''http'' ''rps'' ''scx_lavd'' 1] \<rparr>"
proof -
  have w: "analyse nan_math (\<lambda>_. ()) (\<lambda>g n. (0, g)) sample_obs [] (Fin 1) 10 7
     = Inr \<lparr> re_verdicts = [], re_skipped = [skip_group ''build'' ''rps'', skip_arm ''http'' ''rps'' ''scx_lavd'' 1] \<rparr>"
    unfolding analyse_def sample_grouped rbind_simps sample_run by (simp add: empty_run_def sched_holm_decisions_def)
  have "hd sample_obs \<in> set sample_obs" "ob_scheduler (hd sample_obs) \<noteq> CONTROL_SCHEDULER" "has_control sample_obs (hd sample_obs)"
    "arm_of_obs (hd sample_obs) = (''http'', ''rps'', ''scx_lavd'')"
    by code_simp+
  then show ?thesis using analyse_accounts_for_arms [OF w, of "hd sample_obs"] w by simp
qed

text \<open>A library for which every logarithm is zero, and three blocks in which every value is one.\<close>

definition flat_math :: cmath where
  "flat_math = nan_math\<lparr> m_log := (\<lambda>_. Inr (Fin 0)) \<rparr>"

lemma flat_log: "oriented_log_ratio flat_math (Fin 1) (Fin 1) b = Inr (Fin 0)"
  using to_float_small [of 1] by (simp add: oriented_log_ratio_def f_div_def flat_math_def nan_math_def)

lemma flat_shared:
  "shared_blocks (map (\<lambda>b. (b, Fin 1)) [''b1'', ''b2'', ''b3'']) (map (\<lambda>b. (b, Fin 1)) [''b1'', ''b2'', ''b3'']) = [''b1'', ''b2'', ''b3'']"
  by code_simp

lemma flat_named: "by_name [(''eevdf'', x), (''scx_lavd'', y)] = [(''eevdf'', x), (''scx_lavd'', y)]"
  by (simp add: by_name_def)

end
