(* ===== verification/Factorial_Analysis.thy ===== *)
theory Factorial_Analysis
  imports Sched_Analysis
begin

text \<open>
  The factorial analysis of the CPU-quota campaign (\<open>linux-sched/analysis/factorial_analysis.py\<close>), which
  crosses schedulers with two quota policies. Records extend those of the scheduler study. Whether the
  import of the scheduler study's module succeeded is a field of the environment; when it did, the two
  quantile functions delegate to that module.
\<close>

section \<open>The frozen plan\<close>

definition PERFORMANCE_EFFECT :: pyfloat where "PERFORMANCE_EFFECT = lit 5 2"
definition THROTTLE_EFFECT :: pyfloat where "THROTTLE_EFFECT = lit 10 2"

definition FACT_EFFECT_BY_METRIC :: "(string \<times> pyfloat) list" where
  "FACT_EFFECT_BY_METRIC = [(''throttled_period_ratio'', THROTTLE_EFFECT), (''throttled_usec'', THROTTLE_EFFECT),
     (''throttled_time_ms'', THROTTLE_EFFECT), (''throttled_time_us'', THROTTLE_EFFECT), (''throttled_time'', THROTTLE_EFFECT)]"

definition FACT_POWER :: pyfloat where "FACT_POWER = lit 90 2"
definition FACT_ALPHA :: pyfloat where "FACT_ALPHA = lit 5 2"
definition QUOTA_POLICIES :: "string list" where "QUOTA_POLICIES = [''unlimited'', ''limited'']"
definition QUOTA_CAPABLE_SCHEDULERS :: "string list" where "QUOTA_CAPABLE_SCHEDULERS = [''scx_lavd'', ''scx_mavd'']"
definition FAMILY_SCHEDULER_UNLIMITED :: string where "FAMILY_SCHEDULER_UNLIMITED = ''scheduler_unlimited''"
definition FAMILY_QUOTA_INTERACTION :: string where "FAMILY_QUOTA_INTERACTION = ''quota_interaction''"
definition FAMILY_THROTTLING :: string where "FAMILY_THROTTLING = ''throttling''"

definition FAMILY_SIZES :: "(string \<times> int) list" where
  "FAMILY_SIZES = [(FAMILY_SCHEDULER_UNLIMITED, 25), (FAMILY_QUOTA_INTERACTION, 10), (FAMILY_THROTTLING, 20)]"

definition FACT_PRIMARY_CONTRASTS :: int where
  "FACT_PRIMARY_CONTRASTS = sum_list (map snd FAMILY_SIZES)"

definition honours_quota :: "string \<Rightarrow> bool" where
  "honours_quota scheduler = (let name = py_lower (strip scheduler) in
     if name \<in> set QUOTA_CAPABLE_SCHEDULERS then True
     else name \<in> set (map (removeprefix ''scx_'') QUOTA_CAPABLE_SCHEDULERS))"

definition FACT_DESCRIPTIVE_WORKLOADS :: "string list" where "FACT_DESCRIPTIVE_WORKLOADS = []"

definition FACT_LOWER_IS_BETTER :: "string list" where
  "FACT_LOWER_IS_BETTER = [''latency_p99_ms'', ''latency_p50_ms'', ''submit_to_scheduled_p99_ms'', ''runqlat_p99_us'', ''runqlen_p99'',
     ''throttled_period_ratio'', ''throttled_usec'', ''throttled_time_ms'', ''throttled_time_us'']"

definition is_throttle_metric :: "string \<Rightarrow> bool" where
  "is_throttle_metric metric = str_in ''throttl'' (py_lower metric)"

definition fact_practical_effect :: "string \<Rightarrow> pyfloat" where
  "fact_practical_effect metric = (case map_of FACT_EFFECT_BY_METRIC metric of
     Some e \<Rightarrow> e
   | None \<Rightarrow> if is_throttle_metric metric then THROTTLE_EFFECT else PERFORMANCE_EFFECT)"

definition fact_is_descriptive :: "string \<Rightarrow> bool" where
  "fact_is_descriptive workload \<longleftrightarrow> workload \<in> set FACT_DESCRIPTIVE_WORKLOADS"

section \<open>Data\<close>

record fact_obs = sched_obs +
  ob_policy :: "string option"

record fact_verdict = sched_verdict +
  ve_contrast :: string
  ve_policy :: "string option"
  ve_family :: string

record fact_stat = contrast_stat +
  cs_contrast :: string
  cs_policy :: "string option"
  cs_family :: string

record fact_env = cmath +
  sched_imported :: bool

section \<open>Quantiles\<close>

text \<open>The copy of Acklam's approximation kept for a failed import; its two tails are not divided.\<close>

definition fallback_normal_ppf :: "fact_env \<Rightarrow> pyfloat \<Rightarrow> pyfloat res" where
  "fallback_normal_ppf m p =
     require (f_lt (Fin 0) p \<and> f_lt p (Fin 1)) ValueError ''p must be in (0, 1)'' (
     let low = lit 2425 5; high = f_sub (Fin 1) (lit 2425 5) in
     if f_lt p low then
       rbind (m_log m p) (\<lambda>l. rbind (f_sqrt (f_mul (Fin (- 2)) l)) (\<lambda>q. Inr (horner acklam_c q)))
     else if f_lt high p then
       rbind (m_log m (f_sub (Fin 1) p)) (\<lambda>l. rbind (f_sqrt (f_mul (Fin (- 2)) l)) (\<lambda>q. Inr (f_neg (horner acklam_c q))))
     else let q = f_sub p (Fin (1 / 2)); r = f_mul q q in
       f_div (f_mul (horner acklam_a r) q) (horner (acklam_b @ [Fin 1]) r))"

definition fact_normal_ppf :: "fact_env \<Rightarrow> pyfloat \<Rightarrow> pyfloat res" where
  "fact_normal_ppf m p = (if sched_imported m then normal_ppf m p else fallback_normal_ppf m p)"

definition fallback_t_ppf :: "fact_env \<Rightarrow> pyfloat \<Rightarrow> int \<Rightarrow> pyfloat res" where
  "fallback_t_ppf m probability degrees_of_freedom =
     require (f_lt (Fin 0) probability \<and> f_lt probability (Fin 1)) ValueError ''probability must be in (0, 1)'' (
     require (2 \<le> degrees_of_freedom) ValueError ''Cornish-Fisher t approximation requires df >= 2'' (
     rbind (inv_cdf m probability) (\<lambda>z.
     rbind (float_of_int degrees_of_freedom) (\<lambda>d. cornish_fisher z d))))"

text \<open>The imported function first; whatever it raises, the copy is tried.\<close>

definition fact_t_ppf :: "fact_env \<Rightarrow> pyfloat \<Rightarrow> int \<Rightarrow> pyfloat res" where
  "fact_t_ppf m probability degrees_of_freedom =
     (case (if sched_imported m then t_ppf m probability degrees_of_freedom else raise RuntimeError []) of
        Inr t \<Rightarrow> Inr t
      | Inl _ \<Rightarrow> fallback_t_ppf m probability degrees_of_freedom)"

definition fact_required_n_paired :: "fact_env \<Rightarrow> pyfloat \<Rightarrow> pyfloat \<Rightarrow> pyfloat \<Rightarrow> pyfloat \<Rightarrow> int \<Rightarrow> int res" where
  "fact_required_n_paired m sd_log_ratio effect alpha target_power max_n =
     (if f_le sd_log_ratio (Fin 0) then Inr (int MIN_BLOCKS_FOR_VERDICT)
      else rbind (m_log m (f_add (Fin 1) effect)) (\<lambda>delta.
        required_loop (n_required (m_pow m) (fact_t_ppf m) sd_log_ratio delta alpha target_power) max_n (int MIN_BLOCKS_FOR_VERDICT)))"

section \<open>Reading\<close>

definition fact_obs_of_row :: "string \<Rightarrow> pydict \<Rightarrow> fact_obs res" where
  "fact_obs_of_row p row = (let direction = stripped_or_none row ''direction''; policy = stripped_or_none row ''policy'' in
     require (valid_direction direction) ValueError
       (p @ '': invalid direction: '' @ (case direction of None \<Rightarrow> ''None'' | Some d \<Rightarrow> repr_str d)) (
     rbind (stripped row ''block_id'') (\<lambda>block.
     rbind (stripped row ''workload'') (\<lambda>workload.
     rbind (stripped row ''metric'') (\<lambda>metric.
     rbind (stripped row ''scheduler'') (\<lambda>scheduler.
     rbind (float_field row ''value'') (\<lambda>value.
     Inr \<lparr> ob_block = block, ob_workload = workload, ob_metric = metric, ob_scheduler = scheduler, ob_value = value,
       ob_direction = direction, ob_policy = policy \<rparr>)))))))"

definition fact_read_blocks :: "path \<Rightarrow> fs \<Rightarrow> string \<Rightarrow> fact_obs list res" where
  "fact_read_blocks cwd fs p = rbind (block_rows cwd fs p) (rmap (fact_obs_of_row (show_path p)))"

definition fact_is_lower_better :: "string \<Rightarrow> string option \<Rightarrow> bool" where
  "fact_is_lower_better metric direction =
     (if direction = Some ''lower-is-better'' then True
      else if direction = Some ''higher-is-better'' then False
      else metric \<in> set FACT_LOWER_IS_BETTER)"

section \<open>Decisions\<close>

definition fact_holm_step_down ::
  "fact_env \<Rightarrow> pyfloat list \<Rightarrow> int list \<Rightarrow> pyfloat \<Rightarrow> int \<Rightarrow> int option \<Rightarrow> bool list res" where
  "fact_holm_step_down m scores dfs alpha sided family_size =
     (let family = (case family_size of Some s \<Rightarrow> s | None \<Rightarrow> int (length scores)) in
      if family = 0 then Inr []
      else step_down (score_passes (fact_t_ppf m) scores dfs alpha sided family) 1 (score_order scores)
        (replicate (length scores) False))"

text \<open>\<open>families.setdefault(family, []).append(position)\<close>.\<close>

definition add_position :: "(string \<times> nat list) list \<Rightarrow> string \<times> nat \<Rightarrow> (string \<times> nat list) list" where
  "add_position families = (\<lambda>(family, position).
     AList.update family ((case map_of families family of Some ps \<Rightarrow> ps | None \<Rightarrow> []) @ [position]) families)"

definition families_of :: "fact_stat list \<Rightarrow> nat list \<Rightarrow> (string \<times> nat list) list" where
  "families_of cs ts = foldl add_position [] (map (\<lambda>(position, index). (cs_family (cs ! index), position)) (enumerate 0 ts))"

definition family_size_of :: "string \<Rightarrow> nat list \<Rightarrow> int" where
  "family_size_of family positions = (case map_of FAMILY_SIZES family of Some n \<Rightarrow> n | None \<Rightarrow> int (length positions))"

text \<open>\<open>for k, position in enumerate(positions): xs[position] = ys[k]\<close>.\<close>

definition write_flag :: "bool list \<Rightarrow> bool list \<Rightarrow> nat \<times> nat \<Rightarrow> bool list res" where
  "write_flag ys xs = (\<lambda>(k, position). rbind (list_at ys (int k)) (\<lambda>y. Inr (xs[position := y])))"

definition holm_family ::
  "fact_env \<Rightarrow> fact_stat list \<Rightarrow> nat list \<Rightarrow> pyfloat \<Rightarrow> bool list \<times> bool list \<Rightarrow> string \<times> nat list \<Rightarrow> (bool list \<times> bool list) res" where
  "holm_family m cs ts alpha rejects entry = (case (rejects, entry) of ((no_effect_all, tost_all), (family, positions)) \<Rightarrow>
     let dfs = map (\<lambda>p. cs_df (cs ! (ts ! p))) positions;
         abs_t = map (\<lambda>p. f_abs (cs_t_two (cs ! (ts ! p)))) positions;
         tost = map (\<lambda>p. tost_statistic (cs ! (ts ! p))) positions;
         planned = family_size_of family positions in
     rbind (fact_holm_step_down m abs_t dfs alpha 2 (Some planned)) (\<lambda>no_effect.
     rbind (fact_holm_step_down m tost dfs alpha 1 (Some planned)) (\<lambda>equivalent.
     rbind (rfold (write_flag no_effect) no_effect_all (enumerate 0 positions)) (\<lambda>r1.
     rbind (rfold (write_flag equivalent) tost_all (enumerate 0 positions)) (\<lambda>r2. Inr (r1, r2))))))"

definition fact_holm_decisions :: "fact_env \<Rightarrow> fact_stat list \<Rightarrow> pyfloat \<Rightarrow> string list res" where
  "fact_holm_decisions m comparisons alpha =
     (if comparisons = [] then Inr []
      else let decisions = map initial_decision comparisons; ts = tested comparisons in
        if ts = [] then Inr decisions
        else rbind (rfold (holm_family m comparisons ts alpha) (replicate (length ts) False, replicate (length ts) False)
            (families_of comparisons ts)) (\<lambda>(rejects_no_effect, rejects_tost).
          rfold (write_decision m comparisons rejects_no_effect rejects_tost) decisions (enumerate 0 ts)))"

section \<open>Grouping\<close>

type_synonym policy_values = "(string option \<times> arm_values) list"
type_synonym fact_grouped = "(comparison_key \<times> (string \<times> policy_values) list) list"

definition fact_put_obs :: "fact_grouped \<Rightarrow> fact_obs \<Rightarrow> fact_grouped" where
  "fact_put_obs grouped obs =
     (let key = comparison_of obs; arms = sub_dict grouped key; policies = sub_dict arms (ob_scheduler obs);
          vals = sub_dict policies (ob_policy obs) in
      AList.update key (AList.update (ob_scheduler obs) (AList.update (ob_policy obs)
        (AList.update (ob_block obs) (ob_value obs) vals) policies) arms) grouped)"

definition show_policy :: "string option \<Rightarrow> string" where
  "show_policy policy = (case policy of None \<Rightarrow> ''None'' | Some p \<Rightarrow> repr_str p)"

definition group_observation :: "fact_grouped \<Rightarrow> fact_obs \<Rightarrow> fact_grouped res" where
  "group_observation grouped obs =
     require (map_of (sub_dict (sub_dict (sub_dict grouped (comparison_of obs)) (ob_scheduler obs)) (ob_policy obs)) (ob_block obs) = None)
       ValueError
       (''duplicate observation for block='' @ repr_str (ob_block obs) @ '' scheduler='' @ repr_str (ob_scheduler obs)
        @ '' metric='' @ repr_str (ob_metric obs) @ '' policy='' @ show_policy (ob_policy obs))
       (Inr (fact_put_obs grouped obs))"

definition group_observations :: "fact_obs list \<Rightarrow> fact_grouped res" where
  "group_observations observations = rfold group_observation [] observations"

definition policies_present :: "(string \<times> policy_values) list \<Rightarrow> string option list" where
  "policies_present arms = remdups (concat (map (\<lambda>(_, by_policy). map fst by_policy) arms))"

text \<open>The key \<open>(x is None, x)\<close>: names in their order, \<open>None\<close> last.\<close>

definition policy_rank :: "string option \<Rightarrow> bool \<times> string" where
  "policy_rank p = (case p of None \<Rightarrow> (True, []) | Some s \<Rightarrow> (False, s))"

definition has_policies :: "(string option \<times> 'v) list \<Rightarrow> bool" where
  "has_policies by_policy \<longleftrightarrow> list_all (\<lambda>p. Some p \<in> fst ` set by_policy) QUOTA_POLICIES"

definition interaction_blocks :: "policy_values \<Rightarrow> policy_values \<Rightarrow> string list" where
  "interaction_blocks control arm =
     (if \<not> has_policies control \<or> \<not> has_policies arm then []
      else let in_arm = (\<lambda>d p b. b \<in> fst ` set (sub_dict d (Some p))) in
        sort (remdups (filter (\<lambda>b. in_arm control ''limited'' b \<and> in_arm arm ''unlimited'' b \<and> in_arm arm ''limited'' b)
          (map fst (sub_dict control (Some ''unlimited''))))))"

section \<open>The analysis\<close>

record fact_run =
  fr_verdicts :: "fact_verdict list"
  fr_skipped :: "pyval list"
  fr_stats :: "fact_stat list"
  fr_boot :: "(pyfloat \<times> pyfloat) list"

text \<open>What names a contrast: workload, metric, scheduler, kind, policy and family.\<close>

record contrast_id =
  ci_workload :: string
  ci_metric :: string
  ci_scheduler :: string
  ci_contrast :: string
  ci_policy :: "string option"
  ci_family :: string

definition fact_incomplete :: "fact_env \<Rightarrow> contrast_id \<Rightarrow> pyfloat list \<Rightarrow> fact_verdict res" where
  "fact_incomplete m c logs =
     rbind (fmean logs) (\<lambda>mean. rbind (m_exp m mean) (\<lambda>ratio.
     Inr \<lparr> ve_workload = ci_workload c, ve_metric = ci_metric c, ve_scheduler = ci_scheduler c, ve_blocks = length logs,
       ve_ratio = ratio, ve_ci_low = NaN, ve_ci_high = NaN, ve_bootstrap_low = NaN, ve_bootstrap_high = NaN,
       ve_decision = ''incomplete'', ve_effect = fact_practical_effect (ci_metric c),
       ve_descriptive = fact_is_descriptive (ci_workload c), ve_contrast = ci_contrast c, ve_policy = ci_policy c,
       ve_family = ci_family c \<rparr>))"

definition fact_contrast_of_logs ::
  "fact_env \<Rightarrow> (int \<Rightarrow> 'g) \<Rightarrow> ('g \<Rightarrow> nat \<Rightarrow> nat \<times> 'g) \<Rightarrow> int \<Rightarrow> int \<Rightarrow> contrast_id \<Rightarrow> pyfloat list
    \<Rightarrow> (fact_stat \<times> (pyfloat \<times> pyfloat)) res" where
  "fact_contrast_of_logs m random randrange resamples seed c logs =
     (let n = length logs; effect = fact_practical_effect (ci_metric c) in
      rbind (fmean logs) (\<lambda>mean.
      rbind (if 2 \<le> n then stdev logs else Inr (Fin 0)) (\<lambda>sd.
      rbind (if n \<noteq> 0 then rbind (f_sqrt (Fin (of_nat n))) (f_div sd) else Inr (Fin 0)) (\<lambda>se.
      rbind (m_log m (f_sub (Fin 1) effect)) (\<lambda>band_low.
      rbind (m_log m (f_add (Fin 1) effect)) (\<lambda>band_high.
      rbind (bootstrap_means random randrange logs resamples seed) (\<lambda>means.
      rbind (t_statistic se mean) (\<lambda>t_two.
      rbind (t_statistic se (f_sub mean band_low)) (\<lambda>t_lower.
      rbind (t_statistic se (f_sub mean band_high)) (\<lambda>t_upper.
      rbind (bootstrap_bounds m means) (\<lambda>boot.
      Inr (\<lparr> cs_workload = ci_workload c, cs_metric = ci_metric c, cs_scheduler = ci_scheduler c, cs_n = n, cs_df = int n - 1,
        cs_mean = mean, cs_sd = sd, cs_se = se, cs_t_two = t_two, cs_t_lower = t_lower, cs_t_upper = t_upper, cs_effect = effect,
        cs_descriptive = fact_is_descriptive (ci_workload c), cs_incomplete = False, cs_contrast = ci_contrast c,
        cs_policy = ci_policy c, cs_family = ci_family c \<rparr>, boot))))))))))))"

definition append_contrast ::
  "fact_env \<Rightarrow> (int \<Rightarrow> 'g) \<Rightarrow> ('g \<Rightarrow> nat \<Rightarrow> nat \<times> 'g) \<Rightarrow> block_counts \<Rightarrow> int \<Rightarrow> int \<Rightarrow> contrast_id \<Rightarrow> fact_run \<Rightarrow> pyfloat list
    \<Rightarrow> fact_run res" where
  "append_contrast m random randrange required resamples seed c run logs =
     (if (case wanted_blocks required (ci_workload c) (ci_metric c) of None \<Rightarrow> False | Some wanted \<Rightarrow> int (length logs) < wanted)
      then rbind (fact_incomplete m c logs) (\<lambda>v. Inr (run\<lparr> fr_verdicts := fr_verdicts run @ [v] \<rparr>))
      else rbind (fact_contrast_of_logs m random randrange resamples seed c logs) (\<lambda>(stat, boot).
        Inr (run\<lparr> fr_stats := fr_stats run @ [stat], fr_boot := fr_boot run @ [boot] \<rparr>)))"

text \<open>
  A contrast on given blocks: fewer than three are skipped, otherwise their log ratios are computed and
  the contrast is appended. The four places that build a contrast share this shape.
\<close>

definition try_contrast ::
  "fact_env \<Rightarrow> (int \<Rightarrow> 'g) \<Rightarrow> ('g \<Rightarrow> nat \<Rightarrow> nat \<times> 'g) \<Rightarrow> block_counts \<Rightarrow> int \<Rightarrow> int \<Rightarrow> contrast_id \<Rightarrow> string list
    \<Rightarrow> (string \<Rightarrow> pyfloat res) \<Rightarrow> fact_run \<Rightarrow> fact_run res" where
  "try_contrast m random randrange required resamples seed c blocks log_of run =
     (if length blocks < MIN_BLOCKS_FOR_VERDICT
      then Inr (run\<lparr> fr_skipped := fr_skipped run @ [skip_arm (ci_workload c) (ci_metric c) (ci_scheduler c) (length blocks)] \<rparr>)
      else rbind (rmap log_of blocks) (append_contrast m random randrange required resamples seed c run))"

definition skip_quota :: "string \<Rightarrow> string \<Rightarrow> string \<Rightarrow> pyval" where
  "skip_quota workload metric scheduler = VDict [(''workload'', VStr workload), (''metric'', VStr metric),
     (''scheduler'', VStr scheduler), (''reason'', VStr ''scheduler cannot honour cpu.max'')]"

definition target_policy_of :: "string option list \<Rightarrow> string option" where
  "target_policy_of policies =
     (if Some ''limited'' \<in> set policies then Some ''limited''
      else case sort_key policy_rank policies of [] \<Rightarrow> None | p # _ \<Rightarrow> p)"

definition throttle_arm ::
  "fact_env \<Rightarrow> (int \<Rightarrow> 'g) \<Rightarrow> ('g \<Rightarrow> nat \<Rightarrow> nat \<times> 'g) \<Rightarrow> block_counts \<Rightarrow> int \<Rightarrow> int \<Rightarrow> comparison_key \<Rightarrow> string option list
    \<Rightarrow> policy_values \<Rightarrow> string \<times> policy_values \<Rightarrow> fact_run \<Rightarrow> fact_run res" where
  "throttle_arm m random randrange required resamples seed key policies control arm run =
     (case (key, arm) of ((workload, metric, direction), (scheduler, by_policy)) \<Rightarrow>
      if \<not> honours_quota scheduler
      then Inr (run\<lparr> fr_skipped := fr_skipped run @ [skip_quota workload metric scheduler] \<rparr>)
      else let target = target_policy_of policies; ctrl_vals = sub_dict control target; arm_vals = sub_dict by_policy target in
        try_contrast m random randrange required resamples seed
          \<lparr> ci_workload = workload, ci_metric = metric, ci_scheduler = scheduler, ci_contrast = ''throttling'', ci_policy = target,
            ci_family = FAMILY_THROTTLING \<rparr>
          (shared_blocks ctrl_vals arm_vals) (block_log m (fact_is_lower_better metric direction) ctrl_vals arm_vals) run)"

text \<open>The scheduler contrast under one policy.\<close>

definition performance_arm ::
  "fact_env \<Rightarrow> (int \<Rightarrow> 'g) \<Rightarrow> ('g \<Rightarrow> nat \<Rightarrow> nat \<times> 'g) \<Rightarrow> block_counts \<Rightarrow> int \<Rightarrow> int \<Rightarrow> comparison_key \<Rightarrow> string \<Rightarrow> policy_values
    \<Rightarrow> fact_run \<Rightarrow> string option \<times> arm_values \<Rightarrow> fact_run res" where
  "performance_arm m random randrange required resamples seed key scheduler control run = (\<lambda>(policy, arm_vals).
     case key of (workload, metric, direction) \<Rightarrow> let ctrl_vals = sub_dict control policy in
     try_contrast m random randrange required resamples seed
       \<lparr> ci_workload = workload, ci_metric = metric, ci_scheduler = scheduler, ci_contrast = ''performance'', ci_policy = policy,
         ci_family = FAMILY_SCHEDULER_UNLIMITED \<rparr>
       (shared_blocks ctrl_vals arm_vals) (block_log m (fact_is_lower_better metric direction) ctrl_vals arm_vals) run)"

definition interaction_log :: "fact_env \<Rightarrow> bool \<Rightarrow> policy_values \<Rightarrow> policy_values \<Rightarrow> string \<Rightarrow> pyfloat res" where
  "interaction_log m lower control arm block =
     rbind (block_log m lower (sub_dict control (Some ''unlimited'')) (sub_dict arm (Some ''unlimited'')) block) (\<lambda>r_unlim.
     rbind (block_log m lower (sub_dict control (Some ''limited'')) (sub_dict arm (Some ''limited'')) block) (\<lambda>r_lim.
     Inr (f_sub r_lim r_unlim)))"

definition interaction_arm ::
  "fact_env \<Rightarrow> (int \<Rightarrow> 'g) \<Rightarrow> ('g \<Rightarrow> nat \<Rightarrow> nat \<times> 'g) \<Rightarrow> block_counts \<Rightarrow> int \<Rightarrow> int \<Rightarrow> comparison_key \<Rightarrow> string option list
    \<Rightarrow> policy_values \<Rightarrow> string \<times> policy_values \<Rightarrow> fact_run \<Rightarrow> fact_run res" where
  "interaction_arm m random randrange required resamples seed key policies control arm run =
     (case (key, arm) of ((workload, metric, direction), (scheduler, by_policy)) \<Rightarrow>
      if honours_quota scheduler \<and> 2 \<le> length policies \<and> list_all (\<lambda>p. Some p \<in> set policies) QUOTA_POLICIES
        \<and> has_policies control \<and> has_policies by_policy
      then try_contrast m random randrange required resamples seed
          \<lparr> ci_workload = workload, ci_metric = metric, ci_scheduler = scheduler, ci_contrast = ''performance_interaction'',
            ci_policy = None, ci_family = FAMILY_QUOTA_INTERACTION \<rparr>
          (interaction_blocks control by_policy) (interaction_log m (fact_is_lower_better metric direction) control by_policy) run
      else Inr run)"

definition fact_arm ::
  "fact_env \<Rightarrow> (int \<Rightarrow> 'g) \<Rightarrow> ('g \<Rightarrow> nat \<Rightarrow> nat \<times> 'g) \<Rightarrow> block_counts \<Rightarrow> int \<Rightarrow> int \<Rightarrow> comparison_key \<Rightarrow> string option list
    \<Rightarrow> policy_values \<Rightarrow> fact_run \<Rightarrow> string \<times> policy_values \<Rightarrow> fact_run res" where
  "fact_arm m random randrange required resamples seed key policies control run arm =
     (case arm of (scheduler, by_policy) \<Rightarrow>
      let contrast = performance_arm m random randrange required resamples seed key scheduler control in
      if scheduler = CONTROL_SCHEDULER then Inr run
      else if is_throttle_metric (fst (snd key))
      then throttle_arm m random randrange required resamples seed key policies control arm run
      else rbind
        (if Some ''unlimited'' \<in> set policies \<and> sub_dict control (Some ''unlimited'') \<noteq> [] \<and> sub_dict by_policy (Some ''unlimited'') \<noteq> []
         then contrast run (Some ''unlimited'', sub_dict by_policy (Some ''unlimited''))
         else if length policies \<le> 1
         then rfold contrast run (sort_key (\<lambda>(policy, _). policy_rank policy) by_policy)
         else Inr run)
        (interaction_arm m random randrange required resamples seed key policies control arm))"

definition fact_group ::
  "fact_env \<Rightarrow> (int \<Rightarrow> 'g) \<Rightarrow> ('g \<Rightarrow> nat \<Rightarrow> nat \<times> 'g) \<Rightarrow> block_counts \<Rightarrow> int \<Rightarrow> int \<Rightarrow> fact_run
    \<Rightarrow> comparison_key \<times> (string \<times> policy_values) list \<Rightarrow> fact_run res" where
  "fact_group m random randrange required resamples seed run = (\<lambda>(key, arms). case key of (workload, metric, direction) \<Rightarrow>
     let control = sub_dict arms CONTROL_SCHEDULER in
     if control = [] then Inr (run\<lparr> fr_skipped := fr_skipped run @ [skip_group workload metric] \<rparr>)
     else rfold (fact_arm m random randrange required resamples seed key (policies_present arms) control) run (by_name arms))"

definition fact_verdict_of ::
  "fact_env \<Rightarrow> pyfloat \<Rightarrow> fact_stat \<times> (pyfloat \<times> pyfloat) \<times> string \<Rightarrow> fact_verdict res" where
  "fact_verdict_of m alpha = (\<lambda>(c, (boot_low, boot_high), decision).
     rbind (f_div alpha (Fin 2)) (\<lambda>h.
     rbind (fact_t_ppf m (f_sub (Fin 1) h) (cs_df c)) (\<lambda>t.
     let half = f_mul t (cs_se c) in
     rbind (m_exp m (cs_mean c)) (\<lambda>ratio.
     rbind (m_exp m (f_sub (cs_mean c) half)) (\<lambda>low.
     rbind (m_exp m (f_add (cs_mean c) half)) (\<lambda>high.
     Inr \<lparr> ve_workload = cs_workload c, ve_metric = cs_metric c, ve_scheduler = cs_scheduler c, ve_blocks = cs_n c,
       ve_ratio = ratio, ve_ci_low = low, ve_ci_high = high, ve_bootstrap_low = boot_low, ve_bootstrap_high = boot_high,
       ve_decision = decision, ve_effect = cs_effect c, ve_descriptive = cs_descriptive c, ve_contrast = cs_contrast c,
       ve_policy = cs_policy c, ve_family = cs_family c \<rparr>))))))"

record fact_result =
  fre_verdicts :: "fact_verdict list"
  fre_skipped :: "pyval list"

definition empty_fact_run :: fact_run where
  "empty_fact_run = \<lparr> fr_verdicts = [], fr_skipped = [], fr_stats = [], fr_boot = [] \<rparr>"

definition fact_analyse ::
  "fact_env \<Rightarrow> (int \<Rightarrow> 'g) \<Rightarrow> ('g \<Rightarrow> nat \<Rightarrow> nat \<times> 'g) \<Rightarrow> fact_obs list \<Rightarrow> block_counts \<Rightarrow> pyfloat \<Rightarrow> int \<Rightarrow> int
    \<Rightarrow> fact_result res" where
  "fact_analyse m random randrange observations required alpha resamples seed =
     rbind (group_observations observations) (\<lambda>grouped.
     rbind (rfold (fact_group m random randrange required resamples seed) empty_fact_run (sorted_groups grouped)) (\<lambda>run.
     rbind (fact_holm_decisions m (fr_stats run) alpha) (\<lambda>decisions.
     rbind (rmap (fact_verdict_of m alpha) (zip (fr_stats run) (zip (fr_boot run) decisions))) (\<lambda>vs.
     Inr \<lparr> fre_verdicts = fr_verdicts run @ vs, fre_skipped = fr_skipped run \<rparr>))))"

section \<open>Outputs\<close>

definition policy_name_val :: "string option \<Rightarrow> pyval" where
  "policy_name_val p = (case p of None \<Rightarrow> VNone | Some s \<Rightarrow> VStr s)"

definition FACT_COLUMNS :: "string list" where
  "FACT_COLUMNS = [''workload'', ''metric'', ''scheduler'', ''blocks'', ''geometric_mean_ratio'', ''ci_low'', ''ci_high'',
     ''bootstrap_low'', ''bootstrap_high'', ''decision'', ''effect'', ''descriptive'', ''contrast'', ''policy'', ''family'']"

definition fact_fields :: "fact_verdict \<Rightarrow> pyval list" where
  "fact_fields v = verdict_fields v @ [VStr (ve_contrast v), VStr (case ve_policy v of None \<Rightarrow> [] | Some p \<Rightarrow> p), VStr (ve_family v)]"

definition fact_summary_csv :: "fact_result \<Rightarrow> string" where
  "fact_summary_csv result = csv_record (map VStr FACT_COLUMNS) @ concat (map (\<lambda>v. csv_record (fact_fields v)) (fre_verdicts result))"

definition fact_payload :: "fact_result \<Rightarrow> pyval" where
  "fact_payload result = VDict [
     (''schema_version'', VInt 2),
     (''control_scheduler'', VStr CONTROL_SCHEDULER),
     (''performance_effect'', VFloat PERFORMANCE_EFFECT),
     (''throttle_effect'', VFloat THROTTLE_EFFECT),
     (''practical_effect'', VFloat PERFORMANCE_EFFECT),
     (''descriptive_workloads'', VList (map VStr FACT_DESCRIPTIVE_WORKLOADS)),
     (''min_blocks_for_verdict'', VInt (int MIN_BLOCKS_FOR_VERDICT)),
     (''primary_contrasts'', VInt FACT_PRIMARY_CONTRASTS),
     (''families'', VDict (map (\<lambda>(k, n). (k, VInt n)) FAMILY_SIZES)),
     (''quota_capable_schedulers'', VList (map VStr QUOTA_CAPABLE_SCHEDULERS)),
     (''policies'', VList (map VStr QUOTA_POLICIES)),
     (''multiplicity'', VStr ''holm step-down within each pre-registered family''),
     (''bootstrap_resamples'', VInt BOOTSTRAP_RESAMPLES),
     (''bootstrap_seed'', VInt BOOTSTRAP_SEED),
     (''power'', VFloat FACT_POWER),
     (''alpha'', VFloat FACT_ALPHA),
     (''verdicts'', VList (map (\<lambda>v. VDict (verdict_items v @ [(''contrast'', VStr (ve_contrast v)), (''policy'', policy_name_val (ve_policy v)),
        (''family'', VStr (ve_family v))])) (fre_verdicts result))),
     (''skipped'', VList (fre_skipped result))]"

definition fact_summary_json :: "fact_result \<Rightarrow> string" where
  "fact_summary_json result = dumps indent2_style (fact_payload result) @ nl"

definition fact_main ::
  "fact_env \<Rightarrow> (int \<Rightarrow> 'g) \<Rightarrow> ('g \<Rightarrow> nat \<Rightarrow> nat \<times> 'g) \<Rightarrow> path \<Rightarrow> string \<Rightarrow> string \<Rightarrow> string option \<Rightarrow> script_output io" where
  "fact_main m random randrange cwd blocks output_dir sample_size =
     io_bind (io_read (\<lambda>fs. fact_read_blocks cwd fs blocks)) (\<lambda>observations.
     io_bind (io_get (sample_size_record cwd blocks sample_size)) (\<lambda>record.
     io_bind (case record of None \<Rightarrow> io_return []
       | Some (p, _) \<Rightarrow> io_read (\<lambda>fs. frozen_counts fs p)) (\<lambda>required.
     io_bind (io_lift (fact_analyse m random randrange observations required FACT_ALPHA BOOTSTRAP_RESAMPLES BOOTSTRAP_SEED)) (\<lambda>result.
     io_then (write_summaries (path_join cwd output_dir) (fact_summary_csv result) (fact_summary_json result)) (
     let skips = map (\<lambda>s. ''skipped: '' @ py_repr s) (fre_skipped result) in
     io_return (if fre_verdicts result = []
       then \<lparr> ro_code = 1, ro_stdout = [], ro_stderr = skips @ [''ERROR: no comparable paired blocks produced a verdict''] \<rparr>
       else \<lparr> ro_code = 0,
         ro_stdout = [''wrote '' @ show_nat (length (fre_verdicts result)) @ '' verdicts to '' @ show_path output_dir],
         ro_stderr = skips \<rparr>))))))"

section \<open>Quantiles agree with the scheduler study\<close>

lemma fact_t_ppf_eq: "fact_t_ppf m = t_ppf m"
proof (intro ext)
  fix p df
  have "fallback_t_ppf m p df = t_ppf m p df" by (simp only: t_ppf_def fallback_t_ppf_def)
  then show "fact_t_ppf m p df = t_ppf m p df" by (cases "t_ppf m p df") (simp_all add: fact_t_ppf_def)
qed

section \<open>Families\<close>

definition positions_in :: "(string \<times> nat list) list \<Rightarrow> string \<Rightarrow> nat list" where
  "positions_in families f = (case map_of families f of Some ps \<Rightarrow> ps | None \<Rightarrow> [])"

lemma positions_in_fold:
  "positions_in (foldl add_position families xs) f = positions_in families f @ map snd (filter (\<lambda>x. fst x = f) xs)"
  by (induction xs arbitrary: families) (auto simp: add_position_def positions_in_def update_conv' split: prod.splits option.splits)

lemma add_positions_distinct: "distinct (map fst families) \<Longrightarrow> distinct (map fst (foldl add_position families xs))"
  by (induction xs arbitrary: families) (simp_all add: add_position_def distinct_update split: prod.splits)

lemma add_positions_nonempty:
  "list_all (\<lambda>(f, ps). ps \<noteq> []) families \<Longrightarrow> list_all (\<lambda>(f, ps). ps \<noteq> []) (foldl add_position families xs)"
proof (induction xs arbitrary: families)
  case (Cons x xs)
  have "list_all (\<lambda>(f, ps). ps \<noteq> []) (AList.update k v F)" if "v \<noteq> []" "list_all (\<lambda>(f, ps). ps \<noteq> []) F" for k v and F :: "(string \<times> nat list) list"
    using that by (induction F) auto
  then show ?case using Cons by (auto simp: add_position_def split: prod.splits)
qed simp

definition family_positions :: "fact_stat list \<Rightarrow> nat list \<Rightarrow> string \<Rightarrow> nat list" where
  "family_positions cs ts f = filter (\<lambda>p. cs_family (cs ! (ts ! p)) = f) [0 ..< length ts]"

lemma families_of_positions: "positions_in (families_of cs ts) f = family_positions cs ts f"
proof -
  have "map (\<lambda>(position, index). (cs_family (cs ! index), position)) (enumerate 0 ts) = map (\<lambda>p. (cs_family (cs ! (ts ! p)), p)) [0 ..< length ts]"
    by (intro nth_equalityI) (simp_all add: nth_enumerate_eq)
  then show ?thesis
    by (simp add: families_of_def positions_in_fold) (simp add: positions_in_def family_positions_def filter_map comp_def)
qed

lemma families_of_spec:
  "distinct (map fst (families_of cs ts))"
  "(f, ps) \<in> set (families_of cs ts) \<Longrightarrow> ps = family_positions cs ts f \<and> ps \<noteq> []"
  "p < length ts \<Longrightarrow> cs_family (cs ! (ts ! p)) \<in> fst ` set (families_of cs ts)"
proof -
  show d: "distinct (map fst (families_of cs ts))" by (simp add: families_of_def add_positions_distinct)
  show "ps = family_positions cs ts f \<and> ps \<noteq> []" if "(f, ps) \<in> set (families_of cs ts)"
    using that d families_of_positions [of cs ts f] add_positions_nonempty [of "[]"]
    by (auto simp: positions_in_def families_of_def list_all_iff)
  show "cs_family (cs ! (ts ! p)) \<in> fst ` set (families_of cs ts)" if "p < length ts"
  proof (rule ccontr)
    assume "cs_family (cs ! (ts ! p)) \<notin> fst ` set (families_of cs ts)"
    then have "positions_in (families_of cs ts) (cs_family (cs ! (ts ! p))) = []"
      by (simp add: positions_in_def iffD2 [OF map_of_eq_None_iff])
    then show False using that by (auto simp: families_of_positions family_positions_def filter_empty_conv)
  qed
qed

lemma family_size_nonzero: "ps \<noteq> [] \<Longrightarrow> family_size_of f ps \<noteq> 0"
  by (auto simp: family_size_of_def FAMILY_SIZES_def split: option.splits if_splits)

lemma fact_step_down_survives:
  assumes "fact_holm_step_down m scores dfs alpha sided (Some planned) = Inr rejected" "planned \<noteq> 0"
  shows "rejected = map (survives (fact_t_ppf m) scores dfs alpha sided planned) [0 ..< length scores]"
  using assms by (intro step_down_survives) (simp add: fact_holm_step_down_def Let_def)

lemma write_flag_at: "write_flag ys = write_at (\<lambda>k _. list_at ys (int k))"
  by (simp add: write_flag_def write_at_def fun_eq_iff)

lemma write_flags:
  assumes "rfold (write_flag (map g [0 ..< length ps])) xs (enumerate 0 ps) = Inr out" "distinct ps" "list_all (\<lambda>i. i < length xs) ps"
  shows "length out = length xs \<and> (\<forall>i < length xs. out ! i = (if i \<in> set ps then g (rank_of ps i) else xs ! i))"
proof -
  note spec = rfold_write_at [OF assms(1) [unfolded write_flag_at] assms(2,3)]
  have "out ! i = g (rank_of ps i)" if "i < length xs" "i \<in> set ps" for i
  proof -
    have "list_at (map g [0 ..< length ps]) (int (rank_of ps i)) = Inr (out ! i)" using spec that by auto
    then show ?thesis using rank_of_nth [OF that(2)] by (simp add: list_at_def Let_def)
  qed
  then show ?thesis using spec by (simp split: if_splits)
qed

text \<open>Whether a position survives within the positions of its family.\<close>

definition family_survives ::
  "fact_env \<Rightarrow> fact_stat list \<Rightarrow> nat list \<Rightarrow> pyfloat \<Rightarrow> (fact_stat \<Rightarrow> pyfloat) \<Rightarrow> int \<Rightarrow> string \<Rightarrow> nat \<Rightarrow> bool" where
  "family_survives m cs ts alpha score sided f p = (let ps = family_positions cs ts f in
     survives (fact_t_ppf m) (map (\<lambda>p. score (cs ! (ts ! p))) ps) (map (\<lambda>p. cs_df (cs ! (ts ! p))) ps) alpha sided
       (family_size_of f ps) (rank_of ps p))"

abbreviation abs_t_of :: "fact_stat \<Rightarrow> pyfloat" where
  "abs_t_of c \<equiv> f_abs (cs_t_two c)"

lemma holm_family_spec:
  assumes "holm_family m cs ts alpha (a1, a2) (f, family_positions cs ts f) = Inr (b1, b2)" "family_positions cs ts f \<noteq> []"
    "length a1 = length ts" "length a2 = length ts"
  shows "length b1 = length ts \<and> length b2 = length ts \<and> (\<forall>p < length ts.
    b1 ! p = (if cs_family (cs ! (ts ! p)) = f then family_survives m cs ts alpha abs_t_of 2 f p else a1 ! p)
    \<and> b2 ! p = (if cs_family (cs ! (ts ! p)) = f then family_survives m cs ts alpha tost_statistic 1 f p else a2 ! p))"
proof -
  let ?ps = "family_positions cs ts f" let ?dfs = "map (\<lambda>p. cs_df (cs ! (ts ! p))) ?ps"
  let ?t = "map (\<lambda>p. abs_t_of (cs ! (ts ! p))) ?ps" let ?e = "map (\<lambda>p. tost_statistic (cs ! (ts ! p))) ?ps"
  let ?n = "family_size_of f ?ps"
  obtain r1 r2 where r1: "fact_holm_step_down m ?t ?dfs alpha 2 (Some ?n) = Inr r1"
    and r2: "fact_holm_step_down m ?e ?dfs alpha 1 (Some ?n) = Inr r2"
    and w1: "rfold (write_flag r1) a1 (enumerate 0 ?ps) = Inr b1" and w2: "rfold (write_flag r2) a2 (enumerate 0 ?ps) = Inr b2"
    using assms(1) by (auto simp: holm_family_def Let_def)
  have n: "?n \<noteq> 0" using assms(2) by (rule family_size_nonzero)
  have d: "distinct ?ps" and mem: "p \<in> set ?ps \<longleftrightarrow> p < length ts \<and> cs_family (cs ! (ts ! p)) = f" for p
    by (auto simp: family_positions_def)
  have e1: "r1 = map (survives (fact_t_ppf m) ?t ?dfs alpha 2 ?n) [0 ..< length ?ps]"
    and e2: "r2 = map (survives (fact_t_ppf m) ?e ?dfs alpha 1 ?n) [0 ..< length ?ps]"
    using fact_step_down_survives [OF r1 n] fact_step_down_survives [OF r2 n] by simp_all
  have below: "list_all (\<lambda>i. i < length a1) ?ps" "list_all (\<lambda>i. i < length a2) ?ps"
    using assms(3,4) mem by (auto simp: list_all_iff)
  show ?thesis
    using write_flags [OF w1 [unfolded e1] d below(1)] write_flags [OF w2 [unfolded e2] d below(2)] assms(3,4)
    by (simp add: family_survives_def Let_def mem)
qed

lemma holm_families_spec:
  assumes "rfold (holm_family m cs ts alpha) (a1, a2) fams = Inr (b1, b2)" "length a1 = length ts" "length a2 = length ts"
    "list_all (\<lambda>(f, ps). ps = family_positions cs ts f \<and> ps \<noteq> []) fams" "distinct (map fst fams)"
  shows "length b1 = length ts \<and> length b2 = length ts \<and> (\<forall>p < length ts. let f = cs_family (cs ! (ts ! p)) in
    b1 ! p = (if f \<in> fst ` set fams then family_survives m cs ts alpha abs_t_of 2 f p else a1 ! p)
    \<and> b2 ! p = (if f \<in> fst ` set fams then family_survives m cs ts alpha tost_statistic 1 f p else a2 ! p))"
  using assms
proof (induction fams arbitrary: a1 a2)
  case (Cons fp fams)
  obtain f ps where fp: "fp = (f, ps)" by (cases fp)
  have ps: "ps = family_positions cs ts f" "ps \<noteq> []" using Cons.prems(4) fp by auto
  obtain c1 c2 where c: "holm_family m cs ts alpha (a1, a2) (f, family_positions cs ts f) = Inr (c1, c2)"
    and rest: "rfold (holm_family m cs ts alpha) (c1, c2) fams = Inr (b1, b2)"
    using Cons.prems(1) fp ps(1) by auto
  note first = holm_family_spec [OF c ps(2) [unfolded ps(1)] Cons.prems(2,3)]
  have IH: "length b1 = length ts \<and> length b2 = length ts \<and> (\<forall>p < length ts. let f = cs_family (cs ! (ts ! p)) in
    b1 ! p = (if f \<in> fst ` set fams then family_survives m cs ts alpha abs_t_of 2 f p else c1 ! p)
    \<and> b2 ! p = (if f \<in> fst ` set fams then family_survives m cs ts alpha tost_statistic 1 f p else c2 ! p))"
    using Cons.prems(4,5) first by (intro Cons.IH [OF rest]) simp_all
  have "f \<notin> fst ` set fams" using Cons.prems(5) fp by simp
  then show ?case using IH first fp by (auto simp: Let_def)
qed (simp add: Let_def)

text \<open>The textbook rule within one family, over the indices of its tested contrasts.\<close>

definition family_members :: "fact_stat list \<Rightarrow> string \<Rightarrow> nat list" where
  "family_members cs f = filter (\<lambda>j. cs_family (cs ! j) = f) (tested cs)"

definition member_survives :: "fact_env \<Rightarrow> fact_stat list \<Rightarrow> pyfloat \<Rightarrow> (fact_stat \<Rightarrow> pyfloat) \<Rightarrow> int \<Rightarrow> nat \<Rightarrow> bool" where
  "member_survives m cs alpha score sided i = (let f = cs_family (cs ! i); js = family_members cs f in
     survives (t_ppf m) (map (\<lambda>j. score (cs ! j)) js) (map (\<lambda>j. cs_df (cs ! j)) js) alpha sided
       (family_size_of f js) (rank_of js i))"

definition fact_reference :: "fact_env \<Rightarrow> pyfloat \<Rightarrow> fact_stat list \<Rightarrow> nat \<Rightarrow> string res" where
  "fact_reference m alpha cs i =
     (if i \<in> set (tested cs)
      then contrast_decision m (cs ! i) (member_survives m cs alpha abs_t_of 2 i) (member_survives m cs alpha tost_statistic 1 i)
      else Inr (initial_decision (cs ! i)))"

lemma rank_of_map:
  assumes "distinct ts" "list_all (\<lambda>p. p < length ts) ps" "q < length ts"
  shows "rank_of (map ((!) ts) ps) (ts ! q) = rank_of ps q"
  using assms by (induction ps) (auto simp: rank_of_def nth_eq_iff_index_eq)

lemma family_members_positions: "family_members cs f = map ((!) (tested cs)) (family_positions cs (tested cs) f)"
proof -
  have "family_members cs f = filter (\<lambda>j. cs_family (cs ! j) = f) (map ((!) (tested cs)) [0 ..< length (tested cs)])"
    by (simp add: family_members_def map_nth)
  then show ?thesis by (simp add: filter_map comp_def family_positions_def)
qed

lemma family_survives_member:
  assumes "p < length (tested cs)" "cs_family (cs ! (tested cs ! p)) = f"
  shows "family_survives m cs (tested cs) alpha score sided f p = member_survives m cs alpha score sided (tested cs ! p)"
proof -
  let ?ps = "family_positions cs (tested cs) f"
  have "rank_of (family_members cs f) (tested cs ! p) = rank_of ?ps p"
    unfolding family_members_positions
    by (rule rank_of_map [OF tested_distinct]) (use assms(1) in \<open>auto simp: list_all_iff family_positions_def\<close>)
  moreover have "family_size_of f (family_members cs f) = family_size_of f ?ps"
    unfolding family_size_of_def family_members_positions length_map by (rule refl)
  ultimately show ?thesis using assms(2)
    by (simp add: family_survives_def member_survives_def Let_def fact_t_ppf_eq) (simp add: family_members_positions comp_def)
qed

text \<open>
  Whenever the decisions of the factorial campaign are computed, each is the decision of the textbook
  Holm rule inside the contrast's own pre-registered family: a tested contrast is rejected exactly when
  it and every better ranked tested contrast of its family reach the critical value of their rank at the
  planned size of that family, whatever contrasts other families hold and whether or not the quantile
  function of the scheduler study could be imported.
\<close>

theorem fact_decisions_reference:
  assumes "fact_holm_decisions m cs alpha = Inr ds"
  shows "map Inr ds = map (fact_reference m alpha cs) [0 ..< length cs]"
proof (cases "tested cs = []")
  case True
  then have "ds = map initial_decision cs" using assms by (simp add: fact_holm_decisions_def Let_def split: if_splits)
  then show ?thesis using True by (intro nth_equalityI) (simp_all add: fact_reference_def)
next
  case False
  let ?ts = "tested cs"
  have "cs \<noteq> []" using False by (auto simp: tested_def)
  then obtain r1 r2 where f: "rfold (holm_family m cs ?ts alpha) (replicate (length ?ts) False, replicate (length ?ts) False)
      (families_of cs ?ts) = Inr (r1, r2)"
    and w: "rfold (write_decision m cs r1 r2) (map initial_decision cs) (enumerate 0 ?ts) = Inr ds"
    using assms False by (auto simp: fact_holm_decisions_def Let_def)
  have fams: "list_all (\<lambda>(f, ps). ps = family_positions cs ?ts f \<and> ps \<noteq> []) (families_of cs ?ts)"
    using families_of_spec(2) by (fastforce simp: list_all_iff)
  note flags = holm_families_spec [OF f _ _ fams families_of_spec(1), simplified]
  have "r1 ! rank_of ?ts i = member_survives m cs alpha abs_t_of 2 i \<and> r2 ! rank_of ?ts i = member_survives m cs alpha tost_statistic 1 i"
    if "i \<in> set ?ts" for i
  proof -
    have p: "rank_of ?ts i < length ?ts" "?ts ! rank_of ?ts i = i" using rank_of_nth [OF that] by simp_all
    show ?thesis using flags families_of_spec(3) [OF p(1), of cs] p family_survives_member [OF p(1)] by (simp add: Let_def)
  qed
  then show ?thesis by (intro written_decisions [OF w]) (simp add: fact_reference_def)
qed

definition nan_env :: fact_env where
  "nan_env = cmath.extend nan_math \<lparr> sched_imported = True \<rparr>"

lemma nan_env_logs: "m_log nan_env = m_log nan_math"
  by (simp add: nan_env_def cmath.extend_def nan_math_def)

lemma nan_env_t_ppf: "t_ppf nan_env = t_ppf nan_math"
  by (intro ext) (unfold t_ppf_def inv_cdf_def nan_env_logs, rule refl)

definition sample_stat :: "bool \<Rightarrow> fact_stat" where
  "sample_stat descriptive = \<lparr> cs_workload = ''http'', cs_metric = ''rps'', cs_scheduler = ''scx_lavd'', cs_n = 3, cs_df = 2,
     cs_mean = Fin 1, cs_sd = Fin 1, cs_se = Fin 1, cs_t_two = Fin 3, cs_t_lower = Fin 4, cs_t_upper = Fin 2, cs_effect = Fin 1,
     cs_descriptive = descriptive, cs_incomplete = False, cs_contrast = ''performance'', cs_policy = Some ''unlimited'',
     cs_family = FAMILY_SCHEDULER_UNLIMITED \<rparr>"

theorem fact_decisions_reference_witness:
  "fact_holm_decisions nan_env [sample_stat True, sample_stat False] (Fin (25 / 16)) = Inr [''descriptive'', ''inconclusive'']
   \<and> map Inr [''descriptive'', ''inconclusive'']
     = map (fact_reference nan_env (Fin (25 / 16)) [sample_stat True, sample_stat False])
         [0 ..< length [sample_stat True, sample_stat False]]"
proof -
  have w: "fact_holm_decisions nan_env [sample_stat True, sample_stat False] (Fin (25 / 16)) = Inr [''descriptive'', ''inconclusive'']"
    using nan_passes [of 1 25] nan_passes [of 2 25]
    by (simp add: fact_holm_decisions_def tested_def sample_stat_def initial_decision_def families_of_def add_position_def
      holm_family_def family_size_of_def FAMILY_SIZES_def fact_holm_step_down_def fact_t_ppf_eq nan_env_t_ppf score_order_def sort_by_def
      write_flag_at write_decision_at write_at_pair list_at_def contrast_decision_def nan_env_logs) (simp add: nan_math_def)
  show ?thesis using w fact_decisions_reference [OF w] by blast
qed

section \<open>Grouping keeps every observation\<close>

type_synonym fact_id = "comparison_key \<times> string \<times> string option \<times> string"

definition fact_key :: "fact_obs \<Rightarrow> fact_id" where
  "fact_key obs = (comparison_of obs, ob_scheduler obs, ob_policy obs, ob_block obs)"

definition fact_value :: "fact_grouped \<Rightarrow> fact_id \<Rightarrow> pyfloat option" where
  "fact_value grouped = (\<lambda>(c, s, p, b). map_of (sub_dict (sub_dict (sub_dict grouped c) s) p) b)"

lemma fact_put_value:
  "fact_value (fact_put_obs grouped obs) k = (if k = fact_key obs then Some (ob_value obs) else fact_value grouped k)"
  by (cases k) (auto simp: fact_value_def fact_put_obs_def fact_key_def Let_def sub_dict_update update_conv')

interpretation factorial: observation_store group_observation fact_value fact_key ob_value "[]"
proof
  show "fact_value [] k = None" for k by (simp add: fact_value_def sub_dict_def split: prod.splits)
next
  fix s and r :: fact_obs
  have iff: "fact_value s (fact_key r) = map_of (sub_dict (sub_dict (sub_dict s (comparison_of r)) (ob_scheduler r)) (ob_policy r)) (ob_block r)"
    by (simp add: fact_value_def fact_key_def)
  show "\<exists>s'. group_observation s r = Inr s' \<and> (\<forall>k. fact_value s' k = (if k = fact_key r then Some (ob_value r) else fact_value s k))"
    if "fact_value s (fact_key r) = None"
    using that by (simp add: group_observation_def iff fact_put_value)
  show "\<exists>e. group_observation s r = Inl (Raise ValueError e)" if "fact_value s (fact_key r) \<noteq> None"
    using that by (auto simp: group_observation_def iff require_def)
qed

text \<open>
  The grouping of the factorial campaign succeeds exactly when no two observations agree in workload,
  metric, direction, scheduler, policy and block; it then holds under every such key the value that was
  observed for it and nothing else, and otherwise it raises a value error instead of keeping one of two
  measurements.
\<close>

theorem group_observations_exact:
  "if distinct (map fact_key observations)
   then (\<exists>grouped. group_observations observations = Inr grouped
     \<and> (\<forall>k. fact_value grouped k = map_of (map (\<lambda>obs. (fact_key obs, ob_value obs)) observations) k))
   else (\<exists>e. group_observations observations = Inl (Raise ValueError e))"
  unfolding group_observations_def by (rule factorial.store_spec)

section \<open>Only quota-capable schedulers enter the quota families\<close>

definition placed :: "string \<Rightarrow> string \<Rightarrow> string \<Rightarrow> string \<Rightarrow> bool" where
  "placed metric scheduler contrast family \<longleftrightarrow> scheduler \<noteq> CONTROL_SCHEDULER
     \<and> family = (if is_throttle_metric metric then FAMILY_THROTTLING
         else if contrast = ''performance_interaction'' then FAMILY_QUOTA_INTERACTION else FAMILY_SCHEDULER_UNLIMITED)
     \<and> (family = FAMILY_SCHEDULER_UNLIMITED \<or> honours_quota scheduler)"

definition verdict_placed :: "fact_verdict \<Rightarrow> bool" where
  "verdict_placed v \<longleftrightarrow> placed (ve_metric v) (ve_scheduler v) (ve_contrast v) (ve_family v) \<and> MIN_BLOCKS_FOR_VERDICT \<le> ve_blocks v"

definition stat_placed :: "fact_stat \<Rightarrow> bool" where
  "stat_placed c \<longleftrightarrow> placed (cs_metric c) (cs_scheduler c) (cs_contrast c) (cs_family c) \<and> MIN_BLOCKS_FOR_VERDICT \<le> cs_n c"

definition run_placed :: "fact_run \<Rightarrow> bool" where
  "run_placed run \<longleftrightarrow> list_all verdict_placed (fr_verdicts run) \<and> list_all stat_placed (fr_stats run)"

lemma append_contrast_placed:
  assumes "append_contrast m random randrange required resamples seed c run logs = Inr run'" "run_placed run"
    "placed (ci_metric c) (ci_scheduler c) (ci_contrast c) (ci_family c)" "MIN_BLOCKS_FOR_VERDICT \<le> length logs"
  shows "run_placed run'"
proof (cases "case wanted_blocks required (ci_workload c) (ci_metric c) of None \<Rightarrow> False | Some wanted \<Rightarrow> int (length logs) < wanted")
  case True
  then obtain v where v: "fact_incomplete m c logs = Inr v" "run' = run\<lparr> fr_verdicts := fr_verdicts run @ [v] \<rparr>"
    using assms(1) by (auto simp: append_contrast_def)
  have "verdict_placed v" using v(1) assms(3,4) by (auto simp: fact_incomplete_def verdict_placed_def)
  then show ?thesis using v(2) assms(2) by (simp add: run_placed_def)
next
  case False
  then obtain st boot where c: "fact_contrast_of_logs m random randrange resamples seed c logs = Inr (st, boot)"
    "run' = run\<lparr> fr_stats := fr_stats run @ [st], fr_boot := fr_boot run @ [boot] \<rparr>"
    using assms(1) by (auto simp: append_contrast_def)
  have "stat_placed st" using c(1) assms(3,4) unfolding fact_contrast_of_logs_def Let_def by (auto simp: stat_placed_def)
  then show ?thesis using c(2) assms(2) by (simp add: run_placed_def)
qed

lemma try_contrast_placed:
  assumes "try_contrast m random randrange required resamples seed c blocks log_of run = Inr run'" "run_placed run"
    "placed (ci_metric c) (ci_scheduler c) (ci_contrast c) (ci_family c)"
  shows "run_placed run'"
proof (cases "length blocks < MIN_BLOCKS_FOR_VERDICT")
  case True
  then show ?thesis using assms(1,2) by (auto simp: try_contrast_def run_placed_def)
next
  case False
  then obtain logs where logs: "rmap log_of blocks = Inr logs"
    and run: "append_contrast m random randrange required resamples seed c run logs = Inr run'"
    using assms(1) by (auto simp: try_contrast_def)
  show ?thesis using False rmap_length [OF logs] by (intro append_contrast_placed [OF run assms(2,3)]) simp
qed

lemma performance_arm_placed:
  assumes "performance_arm m random randrange required resamples seed key scheduler control run pv = Inr run'" "run_placed run"
    "scheduler \<noteq> CONTROL_SCHEDULER" "\<not> is_throttle_metric (fst (snd key))"
  shows "run_placed run'"
  using assms unfolding performance_arm_def Let_def
  by (cases key; cases pv) (auto elim!: try_contrast_placed simp: placed_def)

lemma interaction_arm_placed:
  assumes "interaction_arm m random randrange required resamples seed key policies control (s, bp) run = Inr run'" "run_placed run"
    "s \<noteq> CONTROL_SCHEDULER" "\<not> is_throttle_metric (fst (snd key))"
  shows "run_placed run'"
  using assms unfolding interaction_arm_def
  by (cases key) (auto elim!: try_contrast_placed simp: placed_def split: if_splits)

lemma throttle_arm_placed:
  assumes "throttle_arm m random randrange required resamples seed key policies control (s, bp) run = Inr run'" "run_placed run"
    "s \<noteq> CONTROL_SCHEDULER" "is_throttle_metric (fst (snd key))"
  shows "run_placed run'"
proof (cases "honours_quota s")
  case True
  then show ?thesis using assms unfolding throttle_arm_def Let_def
    by (cases key) (auto elim!: try_contrast_placed simp: placed_def)
next
  case False
  then show ?thesis using assms(1,2) by (cases key) (auto simp: throttle_arm_def run_placed_def)
qed

lemma fact_arm_placed:
  assumes "fact_arm m random randrange required resamples seed key policies control run arm = Inr run'" "run_placed run"
  shows "run_placed run'"
proof -
  obtain s bp where arm: "arm = (s, bp)" by (cases arm)
  let ?perf = "performance_arm m random randrange required resamples seed key s control"
  let ?first = "if Some ''unlimited'' \<in> set policies \<and> sub_dict control (Some ''unlimited'') \<noteq> [] \<and> sub_dict bp (Some ''unlimited'') \<noteq> []
    then ?perf run (Some ''unlimited'', sub_dict bp (Some ''unlimited''))
    else if length policies \<le> 1 then rfold ?perf run (sort_key (\<lambda>(policy, _). policy_rank policy) bp) else Inr run"
  consider "s = CONTROL_SCHEDULER" | "s \<noteq> CONTROL_SCHEDULER" "is_throttle_metric (fst (snd key))"
    | "s \<noteq> CONTROL_SCHEDULER" "\<not> is_throttle_metric (fst (snd key))" by blast
  then show ?thesis
  proof cases
    case 1
    then show ?thesis using assms by (simp add: fact_arm_def arm Let_def)
  next
    case 2
    then have "throttle_arm m random randrange required resamples seed key policies control (s, bp) run = Inr run'"
      using assms(1) by (simp add: fact_arm_def arm Let_def)
    then show ?thesis by (rule throttle_arm_placed [OF _ assms(2) 2])
  next
    case 3
    then obtain run1 where first: "?first = Inr run1"
      and inter: "interaction_arm m random randrange required resamples seed key policies control (s, bp) run1 = Inr run'"
      using assms(1) by (auto simp: fact_arm_def arm Let_def)
    have "run_placed run1"
    proof (cases "Some ''unlimited'' \<in> set policies \<and> sub_dict control (Some ''unlimited'') \<noteq> [] \<and> sub_dict bp (Some ''unlimited'') \<noteq> []")
      case True
      then show ?thesis using first performance_arm_placed [OF _ assms(2) 3] by simp
    next
      case False
      then have "rfold ?perf run (sort_key (\<lambda>(policy, _). policy_rank policy) bp) = Inr run1 \<or> run1 = run"
        using first by (auto split: if_splits)
      then show ?thesis using assms(2) rfold_invariant [of ?perf run _ run1 run_placed] performance_arm_placed [OF _ _ 3] by blast
    qed
    then show ?thesis by (rule interaction_arm_placed [OF inter _ 3])
  qed
qed

lemma fact_group_placed:
  assumes "fact_group m random randrange required resamples seed run entry = Inr run'" "run_placed run"
  shows "run_placed run'"
proof -
  obtain w mt d arms where entry: "entry = ((w, mt, d), arms)" by (cases entry) auto
  let ?arm = "fact_arm m random randrange required resamples seed (w, mt, d) (policies_present arms) (sub_dict arms CONTROL_SCHEDULER)"
  show ?thesis
  proof (cases "sub_dict arms CONTROL_SCHEDULER = []")
    case True
    then show ?thesis using assms by (auto simp: fact_group_def entry run_placed_def)
  next
    case False
    then have "rfold ?arm run (by_name arms) = Inr run'" using assms(1) by (simp add: fact_group_def entry)
    then show ?thesis using assms(2) by (rule rfold_invariant) (rule fact_arm_placed)
  qed
qed

lemma fact_verdict_of_placed:
  assumes "fact_verdict_of m alpha (c, boot, d) = Inr v" "stat_placed c"
  shows "verdict_placed v"
  using assms by (auto simp: fact_verdict_of_def verdict_placed_def stat_placed_def Let_def split: prod.splits)

text \<open>
  C25: every verdict of the factorial analysis, incomplete ones included, compares a scheduler other than
  the control on at least three paired blocks and stands in the family its kind prescribes: throttling
  metrics in the throttling family, interactions in the quota family, the rest in the unlimited family;
  and a scheduler that cannot enforce \<open>cpu.max\<close> has no verdict in the two quota families.
\<close>

theorem fact_verdicts_placed:
  assumes "fact_analyse m random randrange observations required alpha resamples seed = Inr result"
  shows "list_all verdict_placed (fre_verdicts result)"
proof -
  obtain grouped run ds vs where
    r: "rfold (fact_group m random randrange required resamples seed) empty_fact_run (sorted_groups grouped) = Inr run"
    and v: "rmap (fact_verdict_of m alpha) (zip (fr_stats run) (zip (fr_boot run) ds)) = Inr vs"
    and res: "fre_verdicts result = fr_verdicts run @ vs"
    using assms by (auto simp: fact_analyse_def)
  have "run_placed empty_fact_run" by (simp add: run_placed_def empty_fact_run_def)
  with r have placed: "run_placed run" by (rule rfold_invariant) (rule fact_group_placed)
  have "verdict_placed x" if x: "x \<in> set vs" for x
  proof -
    obtain c boot d where "(c, boot, d) \<in> set (zip (fr_stats run) (zip (fr_boot run) ds))" "fact_verdict_of m alpha (c, boot, d) = Inr x"
      using rmap_elem [OF v x] by auto
    then show ?thesis using placed by (auto simp: run_placed_def list_all_iff dest!: set_zip_leftD intro: fact_verdict_of_placed)
  qed
  then show ?thesis using placed by (auto simp: res run_placed_def list_all_iff)
qed

definition flat_env :: fact_env where
  "flat_env = cmath.extend flat_math \<lparr> sched_imported = False \<rparr>"

definition quota_obs :: "string \<Rightarrow> string \<Rightarrow> string \<Rightarrow> fact_obs" where
  "quota_obs block scheduler policy = \<lparr> ob_block = block, ob_workload = ''http'', ob_metric = ''rps'', ob_scheduler = scheduler,
     ob_value = Fin 1, ob_direction = None, ob_policy = Some policy \<rparr>"

definition flat_run :: "fact_obs list" where
  "flat_run = concat (map (\<lambda>b. [quota_obs b ''eevdf'' ''unlimited'', quota_obs b ''scx_lavd'' ''unlimited'']) [''b1'', ''b2'', ''b3''])"

definition flat_verdict :: fact_verdict where
  "flat_verdict = \<lparr> ve_workload = ''http'', ve_metric = ''rps'', ve_scheduler = ''scx_lavd'', ve_blocks = 3, ve_ratio = NaN,
     ve_ci_low = NaN, ve_ci_high = NaN, ve_bootstrap_low = NaN, ve_bootstrap_high = NaN, ve_decision = ''incomplete'',
     ve_effect = fact_practical_effect ''rps'', ve_descriptive = False, ve_contrast = ''performance'', ve_policy = Some ''unlimited'',
     ve_family = FAMILY_SCHEDULER_UNLIMITED \<rparr>"

abbreviation ones :: arm_values where
  "ones \<equiv> map (\<lambda>b. (b, Fin 1)) [''b1'', ''b2'', ''b3'']"

definition flat_arms :: "(string \<times> policy_values) list" where
  "flat_arms = [(''eevdf'', [(Some ''unlimited'', ones)]), (''scx_lavd'', [(Some ''unlimited'', ones)])]"

lemma flat_run_grouped: "group_observations flat_run = Inr [((''http'', ''rps'', None), flat_arms)]"
  by code_simp

lemma flat_contrast_incomplete:
  "performance_arm flat_env random randrange [((VStr ''http'', VStr ''rps''), 5)] 10 7 (''http'', ''rps'', None) ''scx_lavd''
     [(Some ''unlimited'', ones)] empty_fact_run (Some ''unlimited'', ones) = Inr (empty_fact_run\<lparr> fr_verdicts := [flat_verdict] \<rparr>)"
proof -
  have logs: "oriented_log_ratio flat_env (Fin 1) (Fin 1) b = Inr (Fin 0)" for b
    using flat_log [of b] by (simp add: oriented_log_ratio_def flat_env_def cmath.extend_def flat_math_def nan_math_def)
  have "to_float 0 = Fin 0" using to_float_small [of 0] by simp
  then have mean: "fmean [Fin 0, Fin 0, Fin 0] = Inr (Fin 0)"
    using float_of_int_small [of 3] by (simp add: fmean_def fsum_def f_div_def)
  have e: "m_exp flat_env x = Inr NaN" for x by (simp add: flat_env_def cmath.extend_def flat_math_def nan_math_def)
  have sub: "sub_dict [(Some ''unlimited'', ones)] (Some ''unlimited'') = ones" by (simp add: sub_dict_def)
  show ?thesis
    unfolding performance_arm_def prod.case Let_def try_contrast_def sub flat_shared
    by (simp add: MIN_BLOCKS_FOR_VERDICT_def block_log_def block_value_def as_some_def logs append_contrast_def wanted_blocks_def
      fact_incomplete_def mean e flat_verdict_def empty_fact_run_def fact_is_descriptive_def FACT_DESCRIPTIVE_WORKLOADS_def)
qed

lemma flat_policies:
  "policies_present flat_arms = [Some ''unlimited'']" "by_name flat_arms = flat_arms" "is_throttle_metric ''rps'' = False"
  "sub_dict flat_arms CONTROL_SCHEDULER = [(Some ''unlimited'', ones)]"
  by code_simp+

lemma flat_group:
  "fact_group flat_env random randrange [((VStr ''http'', VStr ''rps''), 5)] 10 7 empty_fact_run ((''http'', ''rps'', None), flat_arms)
   = Inr (empty_fact_run\<lparr> fr_verdicts := [flat_verdict] \<rparr>)"
proof -
  have sub: "sub_dict [(Some ''unlimited'', ones)] (Some ''unlimited'') = ones" by (simp add: sub_dict_def)
  show ?thesis
    unfolding fact_group_def prod.case Let_def flat_policies
    by (simp add: flat_arms_def fact_arm_def CONTROL_SCHEDULER_def flat_policies(3) sub [simplified] flat_contrast_incomplete [simplified]
      interaction_arm_def QUOTA_POLICIES_def)
qed

theorem fact_verdicts_placed_witness:
  "fact_analyse flat_env (\<lambda>_. ()) (\<lambda>g n. (0, g)) flat_run [((VStr ''http'', VStr ''rps''), 5)] (Fin 1) 10 7
     = Inr \<lparr> fre_verdicts = [flat_verdict], fre_skipped = [] \<rparr> \<and> list_all verdict_placed [flat_verdict]"
proof -
  have w: "fact_analyse flat_env (\<lambda>_. ()) (\<lambda>g n. (0, g)) flat_run [((VStr ''http'', VStr ''rps''), 5)] (Fin 1) 10 7
     = Inr \<lparr> fre_verdicts = [flat_verdict], fre_skipped = [] \<rparr>"
    unfolding fact_analyse_def flat_run_grouped rbind_simps
    by (simp add: sorted_groups_def flat_group fact_holm_decisions_def) (simp add: empty_fact_run_def)
  show ?thesis using w fact_verdicts_placed [OF w] by simp
qed

text \<open>
  The analysis can leave an arm out without a word: measured under the limited policy only, in a
  comparison that has both policies, a scheduler that cannot honour a quota has neither a verdict nor a
  skip entry.
\<close>

definition silent_run :: "fact_obs list" where
  "silent_run = concat (map (\<lambda>b. [quota_obs b ''eevdf'' ''unlimited'', quota_obs b ''eevdf'' ''limited'', quota_obs b ''scx_rusty'' ''limited''])
     [''b1'', ''b2'', ''b3''])"

definition silent_arms :: "(string \<times> policy_values) list" where
  "silent_arms = [(''eevdf'', [(Some ''unlimited'', ones), (Some ''limited'', ones)]), (''scx_rusty'', [(Some ''limited'', ones)])]"

lemma silent_grouped: "group_observations silent_run = Inr [((''http'', ''rps'', None), silent_arms)]"
  by code_simp

lemma silent_policies:
  "policies_present silent_arms = [Some ''unlimited'', Some ''limited'']" "by_name silent_arms = silent_arms"
  "sub_dict silent_arms CONTROL_SCHEDULER = [(Some ''unlimited'', ones), (Some ''limited'', ones)]" "honours_quota ''scx_rusty'' = False"
  by code_simp+

lemma arm_lost_silently:
  "fact_analyse m (\<lambda>_. ()) (\<lambda>g n. (0, g)) silent_run [] alpha resamples seed = Inr \<lparr> fre_verdicts = [], fre_skipped = [] \<rparr>"
proof -
  have g: "fact_group m random randrange [] resamples seed empty_fact_run ((''http'', ''rps'', None), silent_arms) = Inr empty_fact_run"
    for random :: "int \<Rightarrow> unit" and randrange
    unfolding fact_group_def prod.case Let_def silent_policies
    by (simp add: silent_arms_def fact_arm_def CONTROL_SCHEDULER_def flat_policies(3) sub_dict_def) (simp add: interaction_arm_def silent_policies(4))
  show ?thesis
    unfolding fact_analyse_def silent_grouped rbind_simps
    by (simp add: sorted_groups_def g fact_holm_decisions_def) (simp add: empty_fact_run_def fact_holm_decisions_def)
qed

end
