(* ===== verification/Sched_Sample_Size.thy ===== *)
theory Sched_Sample_Size
  imports Sched_Analysis
begin

text \<open>
  The freeze of the confirmatory block counts of the scheduler study
  (\<open>linux-sched/analysis/sample_size.py\<close>): the variance bound of a pilot, the required count of every
  contrast, the floor, the balancing and the record the analysis reads back.
\<close>

section \<open>Variance bounds and rounding\<close>

definition SCHED_BALANCE :: int where "SCHED_BALANCE = 3"
definition MIN_PILOT_PAIRED_BLOCKS :: nat where "MIN_PILOT_PAIRED_BLOCKS = 3"
definition CONFIRMATORY_FLOOR_BLOCKS :: int where "CONFIRMATORY_FLOOR_BLOCKS = 5"

definition chi2_lower :: "(pyfloat \<Rightarrow> pyfloat res) \<Rightarrow> (pyfloat \<Rightarrow> pyfloat \<Rightarrow> pyfloat res) \<Rightarrow> pyfloat \<Rightarrow> int \<Rightarrow> pyfloat res" where
  "chi2_lower ppf pow p df =
     rbind (ppf p) (\<lambda>z.
     rbind (float_of_int df) (\<lambda>d.
     rbind (f_div (Fin 2) (f_mul (Fin 9) d)) (\<lambda>share.
     rbind (f_sqrt share) (\<lambda>r.
     rbind (pow (f_add (f_sub (Fin 1) share) (f_mul z r)) (Fin 3)) (\<lambda>cube.
     Inr (f_mul d cube))))))"

definition sd_upper_bound ::
  "(pyfloat \<Rightarrow> pyfloat res) \<Rightarrow> (pyfloat \<Rightarrow> pyfloat \<Rightarrow> pyfloat res) \<Rightarrow> pyfloat \<Rightarrow> nat \<Rightarrow> pyfloat \<Rightarrow> pyfloat res" where
  "sd_upper_bound ppf pow sd n p =
     (if n < 2 \<or> f_le sd (Fin 0) then Inr sd
      else let df = int n - 1 in
        rbind (chi2_lower ppf pow p df) (\<lambda>c.
        rbind (float_of_int df) (\<lambda>d.
        rbind (f_div d c) (\<lambda>q. rbind (f_sqrt q) (\<lambda>r. Inr (f_mul sd r))))))"

text \<open>The multiple is a positive constant of the caller.\<close>

definition round_up_to_multiple :: "int \<Rightarrow> int \<Rightarrow> int" where
  "round_up_to_multiple value multiple = ((value + multiple - 1) div multiple) * multiple"

lemma round_up_to_multiple_bounds:
  assumes "0 < multiple"
  shows "multiple dvd round_up_to_multiple value multiple" "value \<le> round_up_to_multiple value multiple"
    "round_up_to_multiple value multiple < value + multiple"
proof -
  have "(value + multiple - 1) div multiple * multiple + (value + multiple - 1) mod multiple = value + multiple - 1"
    by (rule div_mult_mod_eq)
  moreover have "0 \<le> (value + multiple - 1) mod multiple" "(value + multiple - 1) mod multiple < multiple"
    using assms by simp_all
  ultimately show "value \<le> round_up_to_multiple value multiple" "round_up_to_multiple value multiple < value + multiple"
    unfolding round_up_to_multiple_def by linarith+
qed (simp add: round_up_to_multiple_def)

section \<open>The plan\<close>

record size_contrast =
  sc_scheduler :: string
  sc_paired :: nat
  sc_effect :: pyfloat
  sc_sd :: pyfloat
  sc_required :: int
  sc_upper :: pyfloat
  sc_required_upper :: int

record size_scenario =
  ss_workload :: string
  ss_metric :: string
  ss_descriptive :: bool
  ss_contrasts :: "size_contrast list"
  ss_raw :: int
  ss_floored :: int
  ss_frozen :: "int option"
  ss_frozen_upper :: "int option"

definition too_few_pilot :: "string \<Rightarrow> string \<Rightarrow> nat \<Rightarrow> string" where
  "too_few_pilot workload scheduler n = ''pilot for '' @ workload @ ''/'' @ scheduler @ '' has '' @ show_nat n @ '' paired blocks; ''
     @ show_nat MIN_PILOT_PAIRED_BLOCKS @ '' are required to estimate variance''"

definition alpha_per_contrast :: "pyfloat res" where
  "alpha_per_contrast = f_div DEFAULT_ALPHA (Fin (of_int PRIMARY_CONTRASTS))"

definition size_contrast_of ::
  "'y cmath_scheme \<Rightarrow> comparison_key \<Rightarrow> arm_values \<Rightarrow> string \<times> arm_values \<Rightarrow> size_contrast res" where
  "size_contrast_of m key control arm = (case (key, arm) of ((workload, metric, direction), (scheduler, vals)) \<Rightarrow>
     let shared = shared_blocks control vals; effect = practical_effect metric in
     require (MIN_PILOT_PAIRED_BLOCKS \<le> length shared) ValueError (too_few_pilot workload scheduler (length shared)) (
     rbind (rmap (block_log m (is_lower_better metric direction) control vals) shared) (\<lambda>logs.
     rbind (stdev logs) (\<lambda>sd.
     rbind (sd_upper_bound (normal_ppf m) (m_pow m) sd (length shared) (lit 5 2)) (\<lambda>upper.
     rbind alpha_per_contrast (\<lambda>alpha.
     rbind (required_n_paired m sd effect alpha DEFAULT_POWER MAX_N) (\<lambda>required.
     rbind (required_n_paired m upper effect alpha DEFAULT_POWER MAX_N) (\<lambda>required_upper.
     Inr \<lparr> sc_scheduler = scheduler, sc_paired = length shared, sc_effect = effect, sc_sd = sd, sc_required = required,
       sc_upper = upper, sc_required_upper = required_upper \<rparr>))))))))"

text \<open>\<open>max(\<dots>)\<close> of a generator, which raises when it is empty.\<close>

definition max_of :: "int list \<Rightarrow> int res" where
  "max_of xs = (case xs of [] \<Rightarrow> raise ValueError ''max() arg is an empty sequence'' | x # rest \<Rightarrow> Inr (foldl max x rest))"

definition size_scenario_of ::
  "'y cmath_scheme \<Rightarrow> comparison_key \<times> (string \<times> arm_values) list \<Rightarrow> size_scenario res" where
  "size_scenario_of m group_entry = (case group_entry of (key, arms) \<Rightarrow> case key of (workload, metric, direction) \<Rightarrow>
     let control = sub_dict arms CONTROL_SCHEDULER; descriptive = is_descriptive workload in
     require (control \<noteq> []) ValueError (''pilot for '' @ workload @ ''/'' @ metric @ '' has no control arm'') (
     rbind (rmap (size_contrast_of m key control) (filter (\<lambda>(s, _). s \<noteq> CONTROL_SCHEDULER) (by_name arms))) (\<lambda>contrasts.
     rbind (max_of (map sc_required contrasts)) (\<lambda>raw_required.
     let floored = max raw_required CONFIRMATORY_FLOOR_BLOCKS; frozen = round_up_to_multiple floored SCHED_BALANCE in
     rbind (if descriptive then Inr None
       else rbind (max_of (map sc_required_upper contrasts)) (\<lambda>u. Inr (Some (round_up_to_multiple u SCHED_BALANCE)))) (\<lambda>upper.
     Inr \<lparr> ss_workload = workload, ss_metric = metric, ss_descriptive = descriptive, ss_contrasts = contrasts,
       ss_raw = raw_required, ss_floored = floored, ss_frozen = (if descriptive then None else Some frozen),
       ss_frozen_upper = upper \<rparr>)))))"

definition sched_plan :: "'y cmath_scheme \<Rightarrow> sched_obs list \<Rightarrow> size_scenario list res" where
  "sched_plan m observations = rmap (size_scenario_of m) (sorted_groups (foldl put_obs [] observations))"

section \<open>The record\<close>

definition count_val :: "int option \<Rightarrow> pyval" where
  "count_val n = (case n of None \<Rightarrow> VNone | Some k \<Rightarrow> VInt k)"

definition size_contrast_val :: "size_contrast \<Rightarrow> pyval" where
  "size_contrast_val c = VDict [(''scheduler'', VStr (sc_scheduler c)), (''paired_blocks'', VInt (int (sc_paired c))),
     (''effect'', VFloat (sc_effect c)), (''sd_log_ratio'', VFloat (py_round 6 (sc_sd c))), (''required_n'', VInt (sc_required c)),
     (''sd_upper95_log_ratio'', VFloat (py_round 6 (sc_upper c))), (''required_n_upper95'', VInt (sc_required_upper c))]"

definition size_scenario_val :: "size_scenario \<Rightarrow> pyval" where
  "size_scenario_val s = VDict [(''scenario'', VStr (ss_workload s)), (''metric'', VStr (ss_metric s)),
     (''descriptive'', VBool (ss_descriptive s)), (''contrasts'', VList (map size_contrast_val (ss_contrasts s))),
     (''required_n_raw'', VInt (ss_raw s)), (''required_n_floored'', VInt (ss_floored s)),
     (''confirmatory_blocks'', count_val (ss_frozen s)), (''confirmatory_blocks_upper95'', count_val (ss_frozen_upper s)),
     (''balanced_multiple'', VInt SCHED_BALANCE)]"

definition sched_plan_record :: "pyfloat \<Rightarrow> size_scenario list \<Rightarrow> pyval" where
  "sched_plan_record alpha scenarios = VDict [(''schema_version'', VInt 1), (''control_scheduler'', VStr CONTROL_SCHEDULER),
     (''practical_effect_by_metric'', VDict (map (\<lambda>(k, e). (k, VFloat e)) PRACTICAL_EFFECT_BY_METRIC)),
     (''power'', VFloat DEFAULT_POWER), (''alpha'', VFloat DEFAULT_ALPHA), (''primary_contrasts'', VInt PRIMARY_CONTRASTS),
     (''alpha_per_contrast'', VFloat alpha), (''min_blocks'', VInt CONFIRMATORY_FLOOR_BLOCKS),
     (''balance_multiple'', VInt SCHED_BALANCE), (''scenarios'', VList (map size_scenario_val scenarios))]"

definition scenario_line :: "size_scenario \<Rightarrow> string" where
  "scenario_line s = (if ss_descriptive s then ss_workload s @ '': descriptive, no confirmatory count''
     else ss_workload s @ '': '' @ py_str (count_val (ss_frozen s)) @ '' blocks (raw '' @ show_int (ss_raw s)
       @ '', floor '' @ show_int CONFIRMATORY_FLOOR_BLOCKS @ '', balanced to '' @ show_int SCHED_BALANCE @ ''; ''
       @ py_str (count_val (ss_frozen_upper s)) @ '' at the 95% variance bound)'')"

text \<open>The parent of a text path is written first; a path without a directory has the working directory.\<close>

definition write_plan :: "path \<Rightarrow> string \<Rightarrow> pyval \<Rightarrow> unit io" where
  "write_plan cwd output record =
     io_then (io_do (mkdir_p (butlast (path_join cwd output))))
       (write_text (path_join cwd output) (dumps indent2_style record @ nl))"

definition sample_size_main :: "'y cmath_scheme \<Rightarrow> path \<Rightarrow> string \<Rightarrow> string \<Rightarrow> string list io" where
  "sample_size_main m cwd pilot_blocks output =
     io_bind (io_read (\<lambda>fs. read_blocks cwd fs pilot_blocks)) (\<lambda>observations.
     io_bind (io_lift (sched_plan m observations)) (\<lambda>scenarios.
     io_bind (io_lift alpha_per_contrast) (\<lambda>alpha.
     io_then (write_plan cwd output (sched_plan_record alpha scenarios))
       (io_return (map scenario_line scenarios @ [''wrote '' @ show_path output])))))"

section \<open>The required count\<close>

definition count_needed :: "'y cmath_scheme \<Rightarrow> pyfloat \<Rightarrow> pyfloat \<Rightarrow> pyfloat \<Rightarrow> pyfloat \<Rightarrow> int \<Rightarrow> pyfloat res" where
  "count_needed m sd effect alpha target_power n =
     rbind (m_log m (f_add (Fin 1) effect)) (\<lambda>delta. n_required (m_pow m) (t_ppf m) sd delta alpha target_power n)"

lemma required_n_paired_floor:
  assumes "required_n_paired m sd effect alpha target_power max_n = Inr k"
  shows "3 \<le> k"
  using assms required_loop_least by (fastforce simp: required_n_paired_def MIN_BLOCKS_FOR_VERDICT_def split: if_splits)

text \<open>
  C23: the sizing loop ends and is the exhaustive search: for a positive deviation whose count can be
  computed at every size up to the guard, the result is the first size from three on that covers its own
  count, and the error about the guard exactly when there is none.
\<close>

theorem required_n_paired_search:
  assumes "\<not> f_le sd (Fin 0)"
    "list_all (\<lambda>n. is_ok (count_needed m sd effect alpha target_power n)) [3..max_n]" "3 \<le> max_n"
  shows "required_n_paired m sd effect alpha target_power max_n =
    (case find (size_covers (count_needed m sd effect alpha target_power)) [3..max_n] of
       Some k \<Rightarrow> Inr k | None \<Rightarrow> Inl (guard_reached max_n))"
proof -
  have "is_ok (count_needed m sd effect alpha target_power 3)" using assms(2,3) by (simp add: list_all_iff)
  then obtain delta where delta: "m_log m (f_add (Fin 1) effect) = Inr delta"
    by (cases "m_log m (f_add (Fin 1) effect)") (auto simp: count_needed_def is_ok_def)
  then have "count_needed m sd effect alpha target_power = n_required (m_pow m) (t_ppf m) sd delta alpha target_power"
    by (simp add: count_needed_def fun_eq_iff)
  then show ?thesis using required_loop_search assms(1,2) delta
    by (simp add: required_n_paired_def MIN_BLOCKS_FOR_VERDICT_def)
qed

definition four_math :: cmath where
  "four_math = nan_math\<lparr> m_pow := (\<lambda>_ _. Inr (Fin 4)) \<rparr>"

lemma four_needed:
  assumes "n = 3 \<or> n = 4"
  shows "count_needed four_math (Fin 1) (Fin 1) (Fin (1 / 8)) (Fin (15 / 16)) n = Inr (Fin 4)"
proof -
  have d: "to_float (15 / 16) = Fin (15 / 16)" "to_float (7 / 16) = Fin (7 / 16)" "to_float (1 / 16) = Fin (1 / 16)"
    using to_float_dyadic [of 15 4] to_float_dyadic [of 7 4] to_float_dyadic [of 1 4] by simp_all
  have logs: "m_log four_math = m_log nan_math" by (simp add: four_math_def nan_math_def)
  have same: "t_ppf four_math p df = t_ppf nan_math p df" for p df unfolding t_ppf_def inv_cdf_def logs by (rule refl)
  have "t_ppf nan_math (Fin (15 / 16)) 2 = Inr NaN" "t_ppf nan_math (Fin (15 / 16)) 3 = Inr NaN"
    using d nan_t_ppf [of "Fin (15 / 16)" "7 / 16" "15 / 16"] by (simp_all add: f_sub_def)
  then show ?thesis using assms d
    by (auto simp: count_needed_def n_required_def same f_div_def f_sub_def f_mul_def) (simp_all add: four_math_def nan_math_def f_div_def)
qed

theorem required_n_paired_search_witness:
  "required_n_paired four_math (Fin 1) (Fin 1) (Fin (1 / 8)) (Fin (15 / 16)) 4 = Inr 4"
proof -
  have "[3..4] = [3, 4 :: int]" by code_simp
  then show ?thesis using required_n_paired_search [of "Fin 1" four_math "Fin 1" "Fin (1 / 8)" "Fin (15 / 16)" 4]
    by (simp add: four_needed is_ok_def size_covers_def)
qed

section \<open>Frozen counts\<close>

lemma max_of_Inr:
  assumes "max_of xs = Inr k"
  shows "k \<in> set xs \<and> list_all (\<lambda>x. x \<le> k) xs"
proof -
  have fold: "(foldl max x ys = x \<or> foldl max x ys \<in> set ys) \<and> x \<le> foldl max x ys \<and> list_all (\<lambda>y. y \<le> foldl max x ys) ys" for x :: int and ys
  proof (induction ys arbitrary: x)
    case (Cons y ys)
    show ?case using Cons.IH [of "max x y"] by (auto simp: max_def split: if_splits)
  qed simp
  obtain x ys where "xs = x # ys" "k = foldl max x ys" using assms by (auto simp: max_of_def split: list.splits)
  then show ?thesis using fold [of x ys] by auto
qed

definition scenario_balanced :: "size_scenario \<Rightarrow> bool" where
  "scenario_balanced s = (case ss_frozen s of
     None \<Rightarrow> ss_descriptive s
   | Some k \<Rightarrow> \<not> ss_descriptive s \<and> 3 dvd k \<and> 6 \<le> k
       \<and> list_all (\<lambda>c. 3 \<le> sc_required c \<and> sc_required c \<le> k) (ss_contrasts s)
       \<and> list_ex (\<lambda>c. k < max (sc_required c) 5 + 3) (ss_contrasts s))"

lemma size_contrast_floor:
  assumes "size_contrast_of m key control arm = Inr c"
  shows "3 \<le> sc_required c"
  using assms required_n_paired_floor
  by (cases key; cases arm) (auto simp: size_contrast_of_def Let_def)

lemma size_scenario_balanced:
  assumes "size_scenario_of m entry = Inr s"
  shows "scenario_balanced s \<and> (ss_workload s, ss_metric s) = (fst (fst entry), fst (snd (fst entry)))"
proof -
  obtain w mt d arms where entry: "entry = ((w, mt, d), arms)" by (cases entry) auto
  let ?control = "sub_dict arms CONTROL_SCHEDULER"
  obtain cs raw upper where cs: "rmap (size_contrast_of m (w, mt, d) ?control) (filter (\<lambda>(s, _). s \<noteq> CONTROL_SCHEDULER) (by_name arms)) = Inr cs"
    and raw: "max_of (map sc_required cs) = Inr raw"
    and s: "s = \<lparr> ss_workload = w, ss_metric = mt, ss_descriptive = is_descriptive w, ss_contrasts = cs, ss_raw = raw,
      ss_floored = max raw CONFIRMATORY_FLOOR_BLOCKS,
      ss_frozen = (if is_descriptive w then None else Some (round_up_to_multiple (max raw CONFIRMATORY_FLOOR_BLOCKS) SCHED_BALANCE)),
      ss_frozen_upper = upper \<rparr>"
    using assms unfolding entry size_scenario_of_def Let_def by (auto split: if_splits)
  let ?k = "round_up_to_multiple (max raw 5) 3"
  have "3 \<le> sc_required c" if "c \<in> set cs" for c using rmap_elem [OF cs that] size_contrast_floor by blast
  then have floor: "list_all (\<lambda>c. 3 \<le> sc_required c) cs" by (simp add: list_all_iff)
  obtain c where c: "c \<in> set cs" "sc_required c = raw" and top: "list_all (\<lambda>c. sc_required c \<le> raw) cs"
    using max_of_Inr [OF raw] by (auto simp: list.pred_map comp_def)
  have k: "3 dvd ?k" "max raw 5 \<le> ?k" "?k < max raw 5 + 3" using round_up_to_multiple_bounds [of 3 "max raw 5"] by simp_all
  have six: "6 \<le> ?k" using k(1,2) by (elim dvdE) simp
  have "list_ex (\<lambda>c. ?k < max (sc_required c) 5 + 3) cs" using c k(3) by (auto simp: list_ex_iff)
  moreover have "list_all (\<lambda>c. 3 \<le> sc_required c \<and> sc_required c \<le> ?k) cs" using floor top k(2) by (fastforce simp: list_all_iff)
  ultimately show ?thesis using k(1) six
    by (simp add: s entry scenario_balanced_def CONFIRMATORY_FLOOR_BLOCKS_def SCHED_BALANCE_def)
qed

text \<open>
  Every confirmatory count the freeze produces is a multiple of three of at least six blocks that
  covers the requirement of every contrast of its scenario, and is less than three blocks above the
  largest requirement and the floor of five; exactly the descriptive scenarios get no count.
\<close>

lemma plan_scenarios:
  assumes "sched_plan m observations = Inr scenarios"
  shows "list_all scenario_balanced scenarios"
proof -
  have "scenario_balanced s" if "s \<in> set scenarios" for s
    using rmap_elem [OF assms [unfolded sched_plan_def] that] size_scenario_balanced by blast
  then show ?thesis by (simp add: list_all_iff)
qed

text \<open>A pilot of three blocks in which both schedulers measure the same.\<close>

definition flat_obs :: "string \<Rightarrow> string \<Rightarrow> sched_obs" where
  "flat_obs block scheduler = \<lparr> ob_block = block, ob_workload = ''http'', ob_metric = ''rps'', ob_scheduler = scheduler,
     ob_value = Fin 1, ob_direction = None \<rparr>"

definition flat_pilot :: "sched_obs list" where
  "flat_pilot = concat (map (\<lambda>b. [flat_obs b ''eevdf'', flat_obs b ''scx_lavd'']) [''b1'', ''b2'', ''b3''])"

definition flat_scenario :: size_scenario where
  "flat_scenario = \<lparr> ss_workload = ''http'', ss_metric = ''rps'', ss_descriptive = False,
     ss_contrasts = [\<lparr> sc_scheduler = ''scx_lavd'', sc_paired = 3, sc_effect = practical_effect ''rps'', sc_sd = Fin 0, sc_required = 3,
       sc_upper = Fin 0, sc_required_upper = 3 \<rparr>],
     ss_raw = 3, ss_floored = 5, ss_frozen = Some 6, ss_frozen_upper = Some 3 \<rparr>"

lemma flat_grouped:
  "sorted_groups (foldl put_obs [] flat_pilot)
   = [((''http'', ''rps'', None), [(''eevdf'', map (\<lambda>b. (b, Fin 1)) [''b1'', ''b2'', ''b3'']), (''scx_lavd'', map (\<lambda>b. (b, Fin 1)) [''b1'', ''b2'', ''b3''])])]"
  by code_simp

lemma stdev_zeros: "stdev [Fin 0, Fin 0, Fin 0] = Inr (Fin 0)"
proof -
  have "to_float 0 = Fin 0" using to_float_small [of 0] by simp
  then show ?thesis
    by (simp add: stdev_def root_of_squares_def sum_of_squares_def float_sqrt_of_frac_def sqrt_rto_def isqrt.simps int_truediv_def Let_def)
qed

lemma flat_contrast:
  "size_contrast_of flat_math (''http'', ''rps'', None) (map (\<lambda>b. (b, Fin 1)) [''b1'', ''b2'', ''b3''])
     (''scx_lavd'', map (\<lambda>b. (b, Fin 1)) [''b1'', ''b2'', ''b3'']) = Inr (hd (ss_contrasts flat_scenario))"
proof -
  obtain alpha where alpha: "alpha_per_contrast = Inr alpha"
    using f_div_total [of "Fin (of_int PRIMARY_CONTRASTS)" DEFAULT_ALPHA] by (auto simp: alpha_per_contrast_def PRIMARY_CONTRASTS_def)
  have req: "required_n_paired flat_math (Fin 0) e a p n = Inr 3" for e a p n
    by (simp add: required_n_paired_def MIN_BLOCKS_FOR_VERDICT_def)
  show ?thesis using stdev_zeros
    unfolding size_contrast_of_def prod.case Let_def flat_shared
    by (simp add: alpha MIN_PILOT_PAIRED_BLOCKS_def block_log_def block_value_def as_some_def flat_log req sd_upper_bound_def flat_scenario_def)
qed

lemma flat_plan: "sched_plan flat_math flat_pilot = Inr [flat_scenario]"
  unfolding sched_plan_def flat_grouped
  by (simp add: size_scenario_of_def sub_dict_def CONTROL_SCHEDULER_def flat_named flat_contrast [simplified] is_descriptive_def
    DESCRIPTIVE_WORKLOADS_def flat_scenario_def max_of_def round_up_to_multiple_def SCHED_BALANCE_def CONFIRMATORY_FLOOR_BLOCKS_def)

text \<open>
  The count reported at the upper variance bound is rounded without the floor, so it can be smaller than
  the frozen count it is meant to bound from above.
\<close>

lemma upper_count_below_frozen:
  "\<exists>(m :: cmath) observations s. sched_plan m observations = Inr [s] \<and> the (ss_frozen_upper s) < the (ss_frozen s)"
  using flat_plan by (intro exI [of _ flat_math] exI [of _ flat_pilot] exI [of _ flat_scenario]) (simp add: flat_scenario_def)

section \<open>The analysis reads the frozen counts back\<close>

definition frozen_of :: "size_scenario list \<Rightarrow> ((string \<times> string) \<times> int) list" where
  "frozen_of scenarios = concat (map (\<lambda>s. case ss_frozen s of None \<Rightarrow> [] | Some k \<Rightarrow> [((ss_workload s, ss_metric s), k)]) scenarios)"

lemma wanted_set_count:
  "wanted_blocks (set_count required (VStr w, VStr mt) k) w' mt' = (if w' = w \<and> mt' = mt then Some k else wanted_blocks required w' mt')"
  unfolding wanted_blocks_def by (induction required "(VStr w, VStr mt)" k rule: set_count.induct) (auto simp: py_eq_VStr)

lemma frozen_entry_scenario:
  assumes "scenario_balanced s"
  shows "frozen_entry required (size_scenario_val s)
    = Inr (case ss_frozen s of None \<Rightarrow> required | Some k \<Rightarrow> set_count required (VStr (ss_workload s), VStr (ss_metric s)) k)"
  using assms
  by (auto simp: frozen_entry_def size_scenario_val_def as_dict_def dget_def ditem_def count_val_def truthy_def int_of_val_def
    hashable_def is_list_def is_dict_def scenario_balanced_def split: option.splits)

lemma frozen_entries:
  assumes "list_all scenario_balanced scenarios"
  shows "\<exists>required'. rfold frozen_entry required (map size_scenario_val scenarios) = Inr required'
    \<and> (\<forall>w mt. wanted_blocks required' w mt
        = (case map_of (rev (frozen_of scenarios)) (w, mt) of Some k \<Rightarrow> Some k | None \<Rightarrow> wanted_blocks required w mt))"
  using assms
proof (induction scenarios arbitrary: required)
  case (Cons s scenarios)
  let ?next = "case ss_frozen s of None \<Rightarrow> required | Some k \<Rightarrow> set_count required (VStr (ss_workload s), VStr (ss_metric s)) k"
  obtain required' where r: "rfold frozen_entry ?next (map size_scenario_val scenarios) = Inr required'"
    and w: "\<And>w mt. wanted_blocks required' w mt
      = (case map_of (rev (frozen_of scenarios)) (w, mt) of Some k \<Rightarrow> Some k | None \<Rightarrow> wanted_blocks ?next w mt)"
    using Cons.IH [of ?next] Cons.prems by auto
  have "frozen_of (s # scenarios) = (case ss_frozen s of None \<Rightarrow> [] | Some k \<Rightarrow> [((ss_workload s, ss_metric s), k)]) @ frozen_of scenarios"
    by (simp add: frozen_of_def)
  then show ?case using r w Cons.prems
    by (auto simp: frozen_entry_scenario wanted_set_count map_add_def split: option.splits)
qed (simp add: frozen_of_def)

text \<open>
  C24: from the record the freeze builds, the analysis reads for every workload and metric the count
  frozen for it (the last one, when two comparisons differ in their direction only), and no count for a
  descriptive workload or for one the record does not name.
\<close>

theorem frozen_counts_read_back:
  assumes "sched_plan m observations = Inr scenarios"
  shows "\<exists>required. counts_of_record (sched_plan_record alpha scenarios) = Inr required
    \<and> (\<forall>w mt. wanted_blocks required w mt = map_of (rev (frozen_of scenarios)) (w, mt))"
proof -
  obtain required where r: "rfold frozen_entry [] (map size_scenario_val scenarios) = Inr required"
    and w: "\<And>w mt. wanted_blocks required w mt
      = (case map_of (rev (frozen_of scenarios)) (w, mt) of Some k \<Rightarrow> Some k | None \<Rightarrow> wanted_blocks [] w mt)"
    using frozen_entries [OF plan_scenarios [OF assms], of "[]"] by blast
  have "wanted_blocks required w mt = map_of (rev (frozen_of scenarios)) (w, mt)" for w mt
    unfolding w by (simp add: wanted_blocks_def split: option.splits)
  then show ?thesis using r
    by (simp add: counts_of_record_def sched_plan_record_def as_dict_def dget_or_def iter_val_def)
qed

theorem frozen_counts_read_back_witness:
  "\<exists>required. counts_of_record (sched_plan_record (Fin 1) [flat_scenario]) = Inr required
    \<and> (\<forall>w mt. wanted_blocks required w mt = (if w = ''http'' \<and> mt = ''rps'' then Some 6 else None))"
  using frozen_counts_read_back [OF flat_plan, of "Fin 1"] by (simp add: frozen_of_def flat_scenario_def)

end
