(* ===== verification/Factorial_Sample_Size.thy ===== *)
theory Factorial_Sample_Size
  imports Factorial_Analysis Sched_Sample_Size
begin

text \<open>
  The freeze of the block counts of the CPU-quota campaign
  (\<open>linux-sched/analysis/factorial_sample_size.py\<close>): contrasts per metric kind, their required counts,
  the floor and the balancing over twelve cells, and the record the factorial analysis reads back.
\<close>

section \<open>The plan\<close>

definition QUOTA_BALANCE :: int where "QUOTA_BALANCE = 12"
definition QUOTA_FLOOR_BLOCKS :: int where "QUOTA_FLOOR_BLOCKS = 12"

text \<open>A contrast entry; the interaction entries have no \<open>policy\<close> key.\<close>

record quota_contrast = size_contrast +
  qc_policy :: "string option option"
  qc_contrast :: string

record quota_scenario_rec =
  qs_workload :: string
  qs_metric :: string
  qs_descriptive :: bool
  qs_contrasts :: "quota_contrast list"
  qs_raw :: int
  qs_floored :: int
  qs_frozen :: "int option"
  qs_frozen_upper :: "int option"

definition fact_alpha_per_contrast :: "pyfloat res" where
  "fact_alpha_per_contrast = f_div FACT_ALPHA (Fin (of_int FACT_PRIMARY_CONTRASTS))"

definition required_for_logs :: "fact_env \<Rightarrow> string \<Rightarrow> pyfloat list \<Rightarrow> (pyfloat \<times> pyfloat \<times> int \<times> int) res" where
  "required_for_logs m metric logs =
     rbind (if 2 \<le> length logs then stdev logs else Inr (Fin 0)) (\<lambda>sd.
     rbind (sd_upper_bound (fact_normal_ppf m) (m_pow m) sd (length logs) (lit 5 2)) (\<lambda>upper.
     let effect = fact_practical_effect metric in
     rbind fact_alpha_per_contrast (\<lambda>alpha_pc.
     rbind (fact_required_n_paired m sd effect alpha_pc FACT_POWER MAX_N) (\<lambda>req.
     rbind (fact_required_n_paired m upper effect alpha_pc FACT_POWER MAX_N) (\<lambda>req_upper.
     Inr (sd, upper, req, req_upper))))))"

text \<open>The three places that append a contrast: enough shared blocks, their log ratios, the entry.\<close>

definition quota_contrast_of ::
  "fact_env \<Rightarrow> string \<Rightarrow> string \<Rightarrow> string \<Rightarrow> string option option \<Rightarrow> string \<Rightarrow> string list \<Rightarrow> (string \<Rightarrow> pyfloat res) \<Rightarrow> quota_contrast res" where
  "quota_contrast_of m workload metric scheduler policy contrast shared log_of =
     require (MIN_PILOT_PAIRED_BLOCKS \<le> length shared) ValueError (too_few_pilot workload scheduler (length shared)) (
     rbind (rmap log_of shared) (\<lambda>logs.
     rbind (required_for_logs m metric logs) (\<lambda>(sd, upper, req, req_upper).
     Inr \<lparr> sc_scheduler = scheduler, sc_paired = length shared, sc_effect = fact_practical_effect metric, sc_sd = sd,
       sc_required = req, sc_upper = upper, sc_required_upper = req_upper, qc_policy = policy, qc_contrast = contrast \<rparr>)))"

definition throttle_contrast ::
  "fact_env \<Rightarrow> comparison_key \<Rightarrow> string option \<Rightarrow> policy_values \<Rightarrow> string \<times> policy_values \<Rightarrow> quota_contrast list res" where
  "throttle_contrast m key target control arm = (case (key, arm) of ((workload, metric, direction), (scheduler, by_policy)) \<Rightarrow>
     let ctrl_vals = sub_dict control target; arm_vals = sub_dict by_policy target in
     rbind (quota_contrast_of m workload metric scheduler (Some target) ''throttling'' (shared_blocks ctrl_vals arm_vals)
       (block_log m (fact_is_lower_better metric direction) ctrl_vals arm_vals)) (\<lambda>c. Inr [c]))"

definition interaction_contrast ::
  "fact_env \<Rightarrow> comparison_key \<Rightarrow> policy_values \<Rightarrow> string \<times> policy_values \<Rightarrow> quota_contrast list res" where
  "interaction_contrast m key control arm = (case (key, arm) of ((workload, metric, direction), (scheduler, by_policy)) \<Rightarrow>
     if \<not> has_policies by_policy then Inr []
     else rbind (quota_contrast_of m workload metric scheduler None ''performance_interaction'' (interaction_blocks control by_policy)
       (interaction_log m (fact_is_lower_better metric direction) control by_policy)) (\<lambda>c. Inr [c]))"

definition policy_contrasts ::
  "fact_env \<Rightarrow> comparison_key \<Rightarrow> policy_values \<Rightarrow> string \<times> policy_values \<Rightarrow> quota_contrast list res" where
  "policy_contrasts m key control arm = (case (key, arm) of ((workload, metric, direction), (scheduler, by_policy)) \<Rightarrow>
     rmap (\<lambda>(policy, vals). let ctrl_vals = sub_dict control policy in
       quota_contrast_of m workload metric scheduler (Some policy) ''performance'' (shared_blocks ctrl_vals vals)
         (block_log m (fact_is_lower_better metric direction) ctrl_vals vals))
       (sort_key (\<lambda>(policy, _). policy_rank policy) by_policy))"

definition scenario_contrasts ::
  "fact_env \<Rightarrow> comparison_key \<Rightarrow> string option list \<Rightarrow> policy_values \<Rightarrow> (string \<times> policy_values) list \<Rightarrow> quota_contrast list res" where
  "scenario_contrasts m key policies control arms =
     (let others = filter (\<lambda>(s, _). s \<noteq> CONTROL_SCHEDULER) (by_name arms);
          of_arm = (if is_throttle_metric (fst (snd key)) then throttle_contrast m key (target_policy_of policies) control
            else if 2 \<le> length policies \<and> list_all (\<lambda>p. Some p \<in> set policies) QUOTA_POLICIES \<and> has_policies control
            then interaction_contrast m key control
            else policy_contrasts m key control) in
      rbind (rmap of_arm others) (\<lambda>css. Inr (concat css)))"

definition quota_scenario_of :: "fact_env \<Rightarrow> comparison_key \<times> (string \<times> policy_values) list \<Rightarrow> quota_scenario_rec res" where
  "quota_scenario_of m group_entry = (case group_entry of (key, arms) \<Rightarrow> case key of (workload, metric, direction) \<Rightarrow>
     let control = sub_dict arms CONTROL_SCHEDULER; descriptive = fact_is_descriptive workload in
     require (control \<noteq> []) ValueError (''pilot for '' @ workload @ ''/'' @ metric @ '' has no control arm'') (
     rbind (scenario_contrasts m key (policies_present arms) control arms) (\<lambda>contrasts.
     rbind (if contrasts = [] then Inr 0 else max_of (map sc_required contrasts)) (\<lambda>raw_required.
     rbind (if contrasts = [] then Inr 0 else max_of (map sc_required_upper contrasts)) (\<lambda>raw_upper.
     let floored = max raw_required QUOTA_FLOOR_BLOCKS in
     Inr \<lparr> qs_workload = workload, qs_metric = metric, qs_descriptive = descriptive, qs_contrasts = contrasts,
       qs_raw = raw_required, qs_floored = floored,
       qs_frozen = (if descriptive then None else Some (round_up_to_multiple floored QUOTA_BALANCE)),
       qs_frozen_upper = (if descriptive then None
         else Some (round_up_to_multiple (max raw_upper QUOTA_FLOOR_BLOCKS) QUOTA_BALANCE)) \<rparr>)))))"

definition quota_plan :: "fact_env \<Rightarrow> fact_obs list \<Rightarrow> quota_scenario_rec list res" where
  "quota_plan m observations = rmap (quota_scenario_of m) (sorted_groups (foldl fact_put_obs [] observations))"

section \<open>The record\<close>

definition quota_contrast_val :: "quota_contrast \<Rightarrow> pyval" where
  "quota_contrast_val c = VDict ([(''scheduler'', VStr (sc_scheduler c))]
     @ (case qc_policy c of None \<Rightarrow> [] | Some p \<Rightarrow> [(''policy'', policy_name_val p)])
     @ [(''contrast'', VStr (qc_contrast c)), (''paired_blocks'', VInt (int (sc_paired c))), (''effect'', VFloat (sc_effect c)),
        (''sd_log_ratio'', VFloat (py_round 6 (sc_sd c))), (''required_n'', VInt (sc_required c)),
        (''sd_upper95_log_ratio'', VFloat (py_round 6 (sc_upper c))), (''required_n_upper95'', VInt (sc_required_upper c))])"

definition quota_scenario_val :: "quota_scenario_rec \<Rightarrow> pyval" where
  "quota_scenario_val s = VDict [(''scenario'', VStr (qs_workload s)), (''metric'', VStr (qs_metric s)),
     (''descriptive'', VBool (qs_descriptive s)), (''contrasts'', VList (map quota_contrast_val (qs_contrasts s))),
     (''required_n_raw'', VInt (qs_raw s)), (''required_n_floored'', VInt (qs_floored s)),
     (''confirmatory_blocks'', count_val (qs_frozen s)), (''confirmatory_blocks_upper95'', count_val (qs_frozen_upper s)),
     (''balanced_multiple'', VInt QUOTA_BALANCE)]"

definition quota_plan_record :: "pyfloat \<Rightarrow> quota_scenario_rec list \<Rightarrow> pyval" where
  "quota_plan_record alpha scenarios = VDict [(''schema_version'', VInt 1), (''control_scheduler'', VStr CONTROL_SCHEDULER),
     (''performance_effect'', VFloat PERFORMANCE_EFFECT), (''throttle_effect'', VFloat THROTTLE_EFFECT),
     (''practical_effect_by_metric'', VDict []), (''power'', VFloat FACT_POWER), (''alpha'', VFloat FACT_ALPHA),
     (''primary_contrasts'', VInt FACT_PRIMARY_CONTRASTS), (''alpha_per_contrast'', VFloat alpha),
     (''min_blocks'', VInt QUOTA_FLOOR_BLOCKS), (''balance_multiple'', VInt QUOTA_BALANCE),
     (''policies'', VList [VStr ''unlimited'', VStr ''limited'']), (''scenarios'', VList (map quota_scenario_val scenarios))]"

definition quota_line :: "quota_scenario_rec \<Rightarrow> string" where
  "quota_line s = (if qs_descriptive s then qs_workload s @ '': descriptive, no confirmatory count''
     else qs_workload s @ '': '' @ py_str (count_val (qs_frozen s)) @ '' blocks (raw '' @ show_int (qs_raw s)
       @ '', floor '' @ show_int QUOTA_FLOOR_BLOCKS @ '')'')"

definition quota_size_main :: "fact_env \<Rightarrow> path \<Rightarrow> string \<Rightarrow> string \<Rightarrow> string list io" where
  "quota_size_main m cwd pilot_blocks output =
     io_bind (io_read (\<lambda>fs. fact_read_blocks cwd fs pilot_blocks)) (\<lambda>observations.
     io_bind (io_lift (quota_plan m observations)) (\<lambda>scenarios.
     io_bind (io_lift fact_alpha_per_contrast) (\<lambda>alpha.
     io_then (write_plan cwd output (quota_plan_record alpha scenarios))
       (io_return (map quota_line scenarios @ [''wrote '' @ show_path output])))))"

section \<open>Frozen counts\<close>

definition quota_balanced :: "quota_scenario_rec \<Rightarrow> bool" where
  "quota_balanced s = (case (qs_frozen s, qs_frozen_upper s) of
     (Some k, Some u) \<Rightarrow> \<not> qs_descriptive s \<and> 12 dvd k \<and> 12 \<le> k \<and> 12 dvd u \<and> 12 \<le> u
       \<and> list_all (\<lambda>c. 3 \<le> sc_required c \<and> sc_required c \<le> k \<and> sc_required_upper c \<le> u) (qs_contrasts s)
       \<and> (k = 12 \<or> list_ex (\<lambda>c. k < sc_required c + 12) (qs_contrasts s))
   | (None, None) \<Rightarrow> qs_descriptive s
   | _ \<Rightarrow> False)"

lemma fact_required_floor:
  assumes "fact_required_n_paired m sd effect alpha target_power max_n = Inr k"
  shows "3 \<le> k"
  using assms required_loop_least by (fastforce simp: fact_required_n_paired_def MIN_BLOCKS_FOR_VERDICT_def split: if_splits)

lemma quota_contrast_floor:
  assumes "quota_contrast_of m workload metric scheduler policy contrast shared log_of = Inr c"
  shows "3 \<le> sc_required c"
  using assms by (auto simp: quota_contrast_of_def required_for_logs_def Let_def intro: fact_required_floor)

lemma rmap_concat_all:
  assumes "rmap f xs = Inr css" "\<And>x ys. f x = Inr ys \<Longrightarrow> list_all P ys"
  shows "list_all P (concat css)"
proof -
  have "list_all P ys" if "ys \<in> set css" for ys using rmap_elem [OF assms(1) that] assms(2) by blast
  then show ?thesis by (auto simp: list_all_iff)
qed

lemma scenario_contrasts_floor:
  assumes "scenario_contrasts m key policies control arms = Inr cs"
  shows "list_all (\<lambda>c. 3 \<le> sc_required c) cs"
proof -
  have arm: "list_all (\<lambda>c. 3 \<le> sc_required c) ds"
    if "throttle_contrast m key t control a = Inr ds \<or> interaction_contrast m key control a = Inr ds \<or> policy_contrasts m key control a = Inr ds"
    for t a ds
  proof -
    obtain w mt d where "key = (w, mt, d)" by (cases key)
    moreover obtain s bp where "a = (s, bp)" by (cases a)
    ultimately show ?thesis using that
      by (auto simp: throttle_contrast_def interaction_contrast_def policy_contrasts_def Let_def list_all_iff
        dest!: rmap_elem intro: quota_contrast_floor split: if_splits)
  qed
  obtain css where "rmap (if is_throttle_metric (fst (snd key)) then throttle_contrast m key (target_policy_of policies) control
      else if 2 \<le> length policies \<and> list_all (\<lambda>p. Some p \<in> set policies) QUOTA_POLICIES \<and> has_policies control
      then interaction_contrast m key control else policy_contrasts m key control)
      (filter (\<lambda>(s, _). s \<noteq> CONTROL_SCHEDULER) (by_name arms)) = Inr css" "cs = concat css"
    using assms unfolding scenario_contrasts_def Let_def rbind_Inr by blast
  moreover note arms = arm [OF disjI1] arm [OF disjI2 [OF disjI1]] arm [OF disjI2 [OF disjI2]]
  ultimately show ?thesis by (auto intro!: rmap_concat_all intro: arms split: if_splits)
qed

lemma quota_scenario_balanced:
  assumes "quota_scenario_of m entry = Inr s"
  shows "quota_balanced s"
proof -
  obtain w mt d arms where entry: "entry = ((w, mt, d), arms)" by (cases entry) auto
  obtain cs raw raw_upper where cs: "scenario_contrasts m (w, mt, d) (policies_present arms) (sub_dict arms CONTROL_SCHEDULER) arms = Inr cs"
    and raw: "(if cs = [] then Inr 0 else max_of (map sc_required cs)) = Inr raw"
    and upper: "(if cs = [] then Inr 0 else max_of (map sc_required_upper cs)) = Inr raw_upper"
    and s: "s = \<lparr> qs_workload = w, qs_metric = mt, qs_descriptive = fact_is_descriptive w, qs_contrasts = cs, qs_raw = raw,
      qs_floored = max raw QUOTA_FLOOR_BLOCKS,
      qs_frozen = (if fact_is_descriptive w then None else Some (round_up_to_multiple (max raw QUOTA_FLOOR_BLOCKS) QUOTA_BALANCE)),
      qs_frozen_upper = (if fact_is_descriptive w then None
        else Some (round_up_to_multiple (max raw_upper QUOTA_FLOOR_BLOCKS) QUOTA_BALANCE)) \<rparr>"
    using assms unfolding entry quota_scenario_of_def prod.case Let_def rbind_Inr require_Inr by blast
  let ?k = "round_up_to_multiple (max raw 12) 12" let ?u = "round_up_to_multiple (max raw_upper 12) 12"
  have k: "12 dvd ?k" "max raw 12 \<le> ?k" "?k < max raw 12 + 12" and u: "12 dvd ?u" "max raw_upper 12 \<le> ?u"
    using round_up_to_multiple_bounds [of 12] by simp_all
  have floor: "list_all (\<lambda>c. 3 \<le> sc_required c) cs" by (rule scenario_contrasts_floor [OF cs])
  have top: "list_all (\<lambda>c. sc_required c \<le> raw \<and> sc_required_upper c \<le> raw_upper) cs"
    and some: "cs = [] \<and> raw = 0 \<or> (\<exists>c \<in> set cs. sc_required c = raw)"
    using raw upper max_of_Inr [of "map sc_required cs" raw] max_of_Inr [of "map sc_required_upper cs" raw_upper]
    by (auto simp: list_all_iff split: if_splits)
  have "?k = 12 \<or> list_ex (\<lambda>c. ?k < sc_required c + 12) cs"
  proof (cases "12 < raw")
    case True
    then show ?thesis using some k(3) by (auto simp: list_ex_iff)
  next
    case False
    then show ?thesis using k by (auto simp: max_def elim!: dvdE)
  qed
  moreover have "list_all (\<lambda>c. 3 \<le> sc_required c \<and> sc_required c \<le> ?k \<and> sc_required_upper c \<le> ?u) cs"
    using floor top k(2) u(2) by (fastforce simp: list_all_iff)
  ultimately show ?thesis using k u by (simp add: s quota_balanced_def QUOTA_FLOOR_BLOCKS_def QUOTA_BALANCE_def)
qed

text \<open>
  C26: every count the quota campaign freezes is a multiple of twelve of at least twelve blocks, covers the
  requirement of every contrast of its scenario and is twelve or less than twelve above one of them; the
  count at the upper variance bound is floored and balanced in the same way and covers every requirement
  at that bound.
\<close>

theorem quota_plan_balanced:
  assumes "quota_plan m observations = Inr scenarios"
  shows "list_all quota_balanced scenarios"
proof -
  have "quota_balanced s" if "s \<in> set scenarios" for s
    using rmap_elem [OF assms [unfolded quota_plan_def] that] quota_scenario_balanced by blast
  then show ?thesis by (simp add: list_all_iff)
qed

definition flat_quota_scenario :: quota_scenario_rec where
  "flat_quota_scenario = \<lparr> qs_workload = ''http'', qs_metric = ''rps'', qs_descriptive = False,
     qs_contrasts = [\<lparr> sc_scheduler = ''scx_lavd'', sc_paired = 3, sc_effect = fact_practical_effect ''rps'', sc_sd = Fin 0,
       sc_required = 3, sc_upper = Fin 0, sc_required_upper = 3, qc_policy = Some (Some ''unlimited''), qc_contrast = ''performance'' \<rparr>],
     qs_raw = 3, qs_floored = 12, qs_frozen = Some 12, qs_frozen_upper = Some 12 \<rparr>"

lemma flat_put: "foldl fact_put_obs [] flat_run = [((''http'', ''rps'', None), flat_arms)]"
  by code_simp

lemma flat_quota_contrast:
  "quota_contrast_of flat_env ''http'' ''rps'' ''scx_lavd'' (Some (Some ''unlimited'')) ''performance'' [''b1'', ''b2'', ''b3'']
     (block_log flat_env b ones ones) = Inr (hd (qs_contrasts flat_quota_scenario))"
proof -
  obtain alpha where alpha: "fact_alpha_per_contrast = Inr alpha"
    using f_div_total [of "Fin (of_int FACT_PRIMARY_CONTRASTS)" FACT_ALPHA]
    by (auto simp: fact_alpha_per_contrast_def FACT_PRIMARY_CONTRASTS_def FAMILY_SIZES_def)
  have logs: "oriented_log_ratio flat_env (Fin 1) (Fin 1) b = Inr (Fin 0)"
    using flat_log [of b] by (simp add: oriented_log_ratio_def flat_env_def cmath.extend_def flat_math_def nan_math_def)
  have req: "fact_required_n_paired flat_env (Fin 0) e a p n = Inr 3" for e a p n
    by (simp add: fact_required_n_paired_def MIN_BLOCKS_FOR_VERDICT_def)
  show ?thesis using stdev_zeros
    by (simp add: quota_contrast_of_def required_for_logs_def alpha MIN_PILOT_PAIRED_BLOCKS_def block_log_def block_value_def as_some_def
      logs req sd_upper_bound_def flat_quota_scenario_def)
qed

lemma flat_scenario_contrasts:
  "scenario_contrasts flat_env (''http'', ''rps'', None) [Some ''unlimited''] [(Some ''unlimited'', ones)] flat_arms
   = Inr (qs_contrasts flat_quota_scenario)"
proof -
  have sub: "sub_dict [(Some ''unlimited'', ones)] (Some ''unlimited'') = ones" by (simp add: sub_dict_def)
  have "policy_contrasts flat_env (''http'', ''rps'', None) [(Some ''unlimited'', ones)] (''scx_lavd'', [(Some ''unlimited'', ones)])
      = Inr (qs_contrasts flat_quota_scenario)"
    using flat_quota_contrast
    by (simp add: policy_contrasts_def sub [simplified] flat_shared [simplified] flat_quota_scenario_def)
  then show ?thesis unfolding scenario_contrasts_def flat_policies Let_def
    by (simp add: flat_arms_def CONTROL_SCHEDULER_def flat_policies(3))
qed

theorem quota_plan_balanced_witness:
  "quota_plan flat_env flat_run = Inr [flat_quota_scenario] \<and> list_all quota_balanced [flat_quota_scenario]"
proof -
  have w: "quota_plan flat_env flat_run = Inr [flat_quota_scenario]"
    unfolding quota_plan_def flat_put
    by (simp add: sorted_groups_def quota_scenario_of_def flat_policies [simplified] flat_scenario_contrasts [simplified] fact_is_descriptive_def
      FACT_DESCRIPTIVE_WORKLOADS_def)
      (simp add: flat_quota_scenario_def max_of_def QUOTA_FLOOR_BLOCKS_def QUOTA_BALANCE_def round_up_to_multiple_def)
  show ?thesis using w quota_plan_balanced [OF w] by blast
qed

section \<open>What is sized\<close>

text \<open>
  With both policies measured, a performance scenario is sized for the quota interaction alone: none of
  its entries is a contrast of the unlimited family, the largest family the analysis tests.
\<close>

lemma interaction_entry:
  assumes "interaction_contrast m key control arm = Inr cs"
  shows "list_all (\<lambda>c. qc_contrast c = ''performance_interaction'') cs"
  using assms by (cases key; cases arm) (auto simp: interaction_contrast_def quota_contrast_of_def split: if_splits prod.splits)

lemma unlimited_family_not_sized:
  assumes "scenario_contrasts m key policies control arms = Inr cs" "\<not> is_throttle_metric (fst (snd key))"
    "2 \<le> length policies" "list_all (\<lambda>p. Some p \<in> set policies) QUOTA_POLICIES" "has_policies control"
  shows "list_all (\<lambda>c. qc_contrast c = ''performance_interaction'') cs"
proof -
  obtain css where css: "rmap (interaction_contrast m key control) (filter (\<lambda>(s, _). s \<noteq> CONTROL_SCHEDULER) (by_name arms)) = Inr css"
    "cs = concat css"
    using assms by (auto simp: scenario_contrasts_def)
  show ?thesis unfolding css(2) by (rule rmap_concat_all [OF css(1)]) (rule interaction_entry)
qed

end
