(* ===== verification/Campaign_Sample_Size.thy ===== *)
theory Campaign_Sample_Size
  imports Sched_Stats Analyze
begin

text \<open>
  The block counts a CPU-limits pilot freezes for the confirmatory campaign
  (\<open>cpu-limits/analysis/sample_size.py\<close>): an upper bound of the pilot deviation, the blocks it asks for,
  and one record per planned family and workload.
\<close>

section \<open>Block requirement\<close>

definition POWER :: pyfloat where "POWER = lit 90 2"
definition SD_UPPER_CONFIDENCE :: pyfloat where "SD_UPPER_CONFIDENCE = lit 95 2"
definition MAX_CONFIRMATORY_BLOCKS :: int where "MAX_CONFIRMATORY_BLOCKS = 6"

definition chi_square_lower_quantile :: "'z cmath_scheme \<Rightarrow> pyfloat \<Rightarrow> int \<Rightarrow> pyfloat res" where
  "chi_square_lower_quantile m probability df =
     require (f_lt (Fin 0) probability \<and> f_lt probability (Fin 1)) ValueError ''probability must be between zero and one'' (
     require (1 \<le> df) ValueError ''degrees of freedom must be positive'' (
     rbind (inv_cdf m probability) (\<lambda>z.
     rbind (float_of_int df) (\<lambda>degrees.
     rbind (f_div (Fin 2) (f_mul (Fin 9) degrees)) (\<lambda>v.
     rbind (f_sqrt v) (\<lambda>r.
     rbind (m_pow m (f_add (f_sub (Fin 1) v) (f_mul z r)) (Fin 3)) (\<lambda>cube.
     let approximation = f_mul degrees cube; floor_value = lit 1 12 in
     Inr (if f_lt approximation floor_value then floor_value else approximation))))))))"

definition sd_upper_bound :: "'z cmath_scheme \<Rightarrow> pyfloat list \<Rightarrow> pyfloat \<Rightarrow> pyfloat res" where
  "sd_upper_bound m logs confidence =
     require (MIN_BLOCKS \<le> length logs) ValueError ''pilot variance needs at least three paired blocks'' (
     rbind (variance logs) (\<lambda>v.
     rbind (chi_square_lower_quantile m (f_sub (Fin 1) confidence) (int (length logs) - 1)) (\<lambda>lower.
     rbind (float_of_int (int (length logs) - 1)) (\<lambda>n.
     rbind (f_div (f_mul n v) lower) f_sqrt))))"

text \<open>\<open>math.ceil(x)\<close>.\<close>

definition f_ceil :: "pyfloat \<Rightarrow> int res" where
  "f_ceil x = (case x of Fin a \<Rightarrow> Inr \<lceil>a\<rceil>
     | NaN \<Rightarrow> raise ValueError ''cannot convert float NaN to integer''
     | _ \<Rightarrow> raise OverflowError ''cannot convert float infinity to integer'')"

definition required_blocks :: "'z cmath_scheme \<Rightarrow> pyfloat \<Rightarrow> pyfloat \<Rightarrow> int \<Rightarrow> int res" where
  "required_blocks m sd_upper margin planned_family_size =
     require (\<not> f_lt sd_upper (Fin 0) \<and> isfinite sd_upper) ValueError ''standard deviation bound must be finite and non-negative'' (
     require (f_lt (Fin 0) margin \<and> f_lt margin (Fin 1)) ValueError ''margin must be between zero and one'' (
     require (1 \<le> planned_family_size) ValueError ''planned family size must be positive'' (
     if f_eq sd_upper (Fin 0) then Inr (int MIN_BLOCKS)
     else
       rbind (float_of_int planned_family_size) (\<lambda>k.
       rbind (f_div (lit 5 2) k) (\<lambda>alpha.
       rbind (m_log1p m margin) (\<lambda>delta.
       rbind (inv_cdf m (f_sub (Fin 1) alpha)) (\<lambda>z_alpha.
       rbind (inv_cdf m POWER) (\<lambda>z_power.
       rbind (f_div (f_mul (f_add z_alpha z_power) sd_upper) delta) (\<lambda>ratio.
       rbind (m_pow m ratio (Fin 2)) (\<lambda>estimate.
       rbind (f_ceil estimate) (\<lambda>n. Inr (max (int MIN_BLOCKS) n))))))))))))"

section \<open>Gathering a contrast\<close>

definition pilot_value :: "campaign_cell \<Rightarrow> string \<Rightarrow> pyfloat option \<times> bool" where
  "pilot_value cell fam =
     (if fam = ''throttle_gap''
      then (case map_of (ac_summary cell) ''throttled_period_ratio'' of Some v \<Rightarrow> v | None \<Rightarrow> None, False)
      else if (ac_workload cell = VStr ''io-bound'' \<or> ac_workload cell = VStr ''hybrid'') \<and> ac_latency cell \<noteq> None
      then (ac_latency cell, True)
      else (ac_throughput cell, False))"

record size_arms =
  sg_control :: "(string \<times> pyfloat) list"
  sg_treatment :: "(string \<times> pyfloat) list"
  sg_lower :: bool

definition size_cell :: "family \<Rightarrow> string \<Rightarrow> size_arms \<Rightarrow> campaign_cell \<Rightarrow> size_arms" where
  "size_cell fam workload st cell =
     (if ac_workload cell \<noteq> VStr workload \<or> ac_condition cell \<noteq> VStr (fam_condition fam) then st
      else case pilot_value cell (fam_name fam) of (v, lower) \<Rightarrow>
        let st1 = st\<lparr> sg_lower := lower \<rparr> in
        case v of
          None \<Rightarrow> st1
        | Some x \<Rightarrow>
            if f_le x (Fin 0) then st1
            else let block = py_str (ac_block cell) in
              if ac_policy cell = VStr (fam_control fam) then st1\<lparr> sg_control := AList.update block x (sg_control st1) \<rparr>
              else if ac_policy cell = VStr (fam_treatment fam) then st1\<lparr> sg_treatment := AList.update block x (sg_treatment st1) \<rparr>
              else st1)"

definition size_gather :: "family \<Rightarrow> string \<Rightarrow> campaign_cell list \<Rightarrow> size_arms" where
  "size_gather fam workload cells =
     foldl (size_cell fam workload) \<lparr> sg_control = [], sg_treatment = [], sg_lower = False \<rparr> cells"

definition seen_blocks :: "size_arms \<Rightarrow> string list" where
  "seen_blocks st = sort (remdups (map fst (sg_control st) @ map fst (sg_treatment st)))"

definition size_shared :: "size_arms \<Rightarrow> string list" where
  "size_shared st = sort (remdups (filter (\<lambda>b. b \<in> fst ` set (sg_treatment st)) (map fst (sg_control st))))"

definition size_missing :: "size_arms \<Rightarrow> string list" where
  "size_missing st = filter (\<lambda>b. b \<notin> set (size_shared st)) (seen_blocks st)"

record size_entry =
  sz_family :: family
  sz_workload :: string
  sz_paired :: "string list"
  sz_missing :: "string list"
  sz_result :: "(pyfloat \<times> int) option"

definition size_log :: "'z cmath_scheme \<Rightarrow> size_arms \<Rightarrow> string \<Rightarrow> pyfloat res" where
  "size_log m st block =
     as_some (map_of (sg_treatment st) block) KeyError (repr_str block) (\<lambda>t.
     as_some (map_of (sg_control st) block) KeyError (repr_str block) (\<lambda>c.
     rbind (f_div t c) (\<lambda>ratio. rbind (m_log m ratio) (\<lambda>l. Inr (if sg_lower st then f_neg l else l)))))"

text \<open>An entry with a missing block or too few pairs is kept without a result.\<close>

definition size_scenario :: "'z cmath_scheme \<Rightarrow> campaign_cell list \<Rightarrow> family \<times> string \<Rightarrow> size_entry res" where
  "size_scenario m cells = (\<lambda>(fam, workload).
     let st = size_gather fam workload cells; shared = size_shared st; missing = size_missing st;
         entry = \<lparr> sz_family = fam, sz_workload = workload, sz_paired = shared, sz_missing = missing, sz_result = None \<rparr> in
     if missing \<noteq> [] \<or> length shared < MIN_BLOCKS then Inr entry
     else rbind (rmap (size_log m st) shared) (\<lambda>logs.
       rbind (sd_upper_bound m logs SD_UPPER_CONFIDENCE) (\<lambda>upper.
       rbind (required_blocks m upper (fam_margin fam) (fam_size fam)) (\<lambda>required.
       Inr (entry\<lparr> sz_result := Some (upper, required) \<rparr>)))))"

definition estimate_sample_sizes :: "'z cmath_scheme \<Rightarrow> campaign_cell list \<Rightarrow> size_entry list res" where
  "estimate_sample_sizes m cells =
     rmap (size_scenario m cells) (concat (map (\<lambda>fam. map (\<lambda>w. (fam, w)) (workloads_of cells)) FAMILIES))"

section \<open>The record\<close>

definition confirmatory_blocks :: "int \<Rightarrow> int" where
  "confirmatory_blocks required = min required MAX_CONFIRMATORY_BLOCKS"

definition underpowered :: "int \<Rightarrow> bool" where
  "underpowered required \<longleftrightarrow> MAX_CONFIRMATORY_BLOCKS < required"

definition size_outcome :: "'z size_entry_scheme \<Rightarrow> pydict" where
  "size_outcome s = (case sz_result s of
     None \<Rightarrow> [(''status'', VStr ''incomplete''), (''required_blocks'', VNone), (''confirmatory_blocks'', VNone),
       (''underpowered'', VBool False)]
   | Some (upper, required) \<Rightarrow> [(''status'', VStr ''complete''), (''sd_upper'', VFloat upper), (''required_blocks'', VInt required),
       (''confirmatory_blocks'', VInt (confirmatory_blocks required)), (''underpowered'', VBool (underpowered required))])"

definition size_items :: "'z size_entry_scheme \<Rightarrow> pydict" where
  "size_items s = [(''family'', VStr (fam_name (sz_family s))), (''workload'', VStr (sz_workload s)),
     (''control'', VStr (fam_control (sz_family s))), (''treatment'', VStr (fam_treatment (sz_family s))),
     (''condition'', VStr (fam_condition (sz_family s))), (''margin'', VFloat (fam_margin (sz_family s))),
     (''planned_family_size'', VInt (fam_size (sz_family s))), (''paired_blocks'', VList (map VStr (sz_paired s))),
     (''missing_blocks'', VList (map VStr (sz_missing s))), (''power'', VFloat POWER),
     (''sd_upper_confidence'', VFloat SD_UPPER_CONFIDENCE)] @ size_outcome s"

definition size_status :: "size_entry list \<Rightarrow> string" where
  "size_status entries = (if list_all (\<lambda>s. dget (size_items s) ''status'' = VStr ''complete'') entries then ''PASS'' else ''FAIL'')"

definition size_record :: "size_entry list \<Rightarrow> pyval" where
  "size_record entries = VDict [
     (''protocol'', VStr ''cpu-limits-v1''), (''phase'', VStr ''pilot''), (''status'', VStr (size_status entries)),
     (''power'', VFloat POWER), (''sd_upper_confidence'', VFloat SD_UPPER_CONFIDENCE), (''cap'', VInt MAX_CONFIRMATORY_BLOCKS),
     (''scenarios'', VList (map (\<lambda>s. VDict (size_items s)) entries))]"

definition campaign_size_main ::
  "'z cmath_scheme \<Rightarrow> path \<Rightarrow> string \<Rightarrow> string \<Rightarrow> string \<Rightarrow> string \<Rightarrow> string io" where
  "campaign_size_main m cwd blocks cgroups metrics output =
     io_bind (io_read (\<lambda>fs. load_campaign cwd fs blocks cgroups metrics ''pilot'')) (\<lambda>campaign.
     io_bind (io_lift (estimate_sample_sizes m (cc_cells campaign))) (\<lambda>entries.
     let out = path_join cwd output in
     io_then (io_do (mkdir_p (butlast out)))
    (io_then (write_text out (dumps indent2_style (sort_keys (size_record entries)) @ nl))
       (io_return (''wrote '' @ show_nat (length entries) @ '' sample-size records'')))))"


section \<open>What is frozen\<close>

text \<open>One record: complete exactly when every block is paired and there are three, and then within its bounds.\<close>

definition size_sound :: "size_entry \<Rightarrow> bool" where
  "size_sound s \<longleftrightarrow> (case sz_result s of
     None \<Rightarrow> sz_missing s \<noteq> [] \<or> length (sz_paired s) < MIN_BLOCKS
   | Some (upper, required) \<Rightarrow> sz_missing s = [] \<and> MIN_BLOCKS \<le> length (sz_paired s)
       \<and> int MIN_BLOCKS \<le> required \<and> isfinite upper \<and> \<not> f_lt upper (Fin 0)
       \<and> int MIN_BLOCKS \<le> confirmatory_blocks required \<and> confirmatory_blocks required \<le> MAX_CONFIRMATORY_BLOCKS
       \<and> (underpowered required \<longleftrightarrow> confirmatory_blocks required < required))"

lemma required_blocks_bounds:
  assumes "required_blocks m upper margin k = Inr n"
  shows "int MIN_BLOCKS \<le> n" "isfinite upper" "\<not> f_lt upper (Fin 0)"
  using assms by (auto simp: required_blocks_def split: if_splits)

lemma size_scenario_sound:
  assumes "size_scenario m cells (fam, workload) = Inr s"
  shows "size_sound s \<and> sz_family s = fam \<and> sz_workload s = workload"
proof -
  let ?st = "size_gather fam workload cells"
  show ?thesis
  proof (cases "size_missing ?st \<noteq> [] \<or> length (size_shared ?st) < MIN_BLOCKS")
    case True
    then show ?thesis using assms by (auto simp: size_scenario_def Let_def size_sound_def)
  next
    case False
    then obtain upper n where "required_blocks m upper (fam_margin fam) (fam_size fam) = Inr n"
      and s: "s = \<lparr> sz_family = fam, sz_workload = workload, sz_paired = size_shared ?st, sz_missing = size_missing ?st,
        sz_result = Some (upper, n) \<rparr>"
      using assms unfolding size_scenario_def Let_def by auto
    then show ?thesis
      using False required_blocks_bounds [of m upper "fam_margin fam" "fam_size fam" n]
      by (auto simp: size_sound_def confirmatory_blocks_def underpowered_def MAX_CONFIRMATORY_BLOCKS_def MIN_BLOCKS_def)
  qed
qed

lemma size_status_iff: "size_status entries = ''PASS'' \<longleftrightarrow> list_all (\<lambda>s. sz_result s \<noteq> None) entries"
  by (auto simp: size_status_def size_items_def size_outcome_def dget_def list_all_iff split: option.splits)

text \<open>
  C39: the counts frozen from a pilot are bounded and honest. Whenever they are computed, there is one record
  for every planned family and every workload of the pilot, in this order; a record has a count exactly when
  at least three blocks are paired and none is missing; the count is between three and six blocks, a
  requirement beyond six is marked underpowered, and the whole is a PASS only if every record has a count.
\<close>

theorem sample_sizes_bounded:
  assumes "estimate_sample_sizes m cells = Inr entries"
  shows "map (\<lambda>s. (sz_family s, sz_workload s)) entries = concat (map (\<lambda>fam. map (\<lambda>w. (fam, w)) (workloads_of cells)) FAMILIES)
    \<and> list_all size_sound entries
    \<and> (size_status entries = ''PASS'') = list_all (\<lambda>s. sz_result s \<noteq> None) entries"
proof -
  have all: "list_all2 (\<lambda>fw s. size_scenario m cells fw = Inr s) (concat (map (\<lambda>fam. map (\<lambda>w. (fam, w)) (workloads_of cells)) FAMILIES)) entries"
    using assms by (simp add: estimate_sample_sizes_def rmap_Inr)
  then have "list_all2 (\<lambda>fw s. size_sound s \<and> (sz_family s, sz_workload s) = fw)
    (concat (map (\<lambda>fam. map (\<lambda>w. (fam, w)) (workloads_of cells)) FAMILIES)) entries"
    by (rule list_all2_mono) (use size_scenario_sound in fast)
  then have "list_all size_sound entries"
    "map (\<lambda>s. (sz_family s, sz_workload s)) entries = concat (map (\<lambda>fam. map (\<lambda>w. (fam, w)) (workloads_of cells)) FAMILIES)"
    by (induction rule: list_all2_induct) auto
  then show ?thesis using size_status_iff by blast
qed

text \<open>A pilot of one workload in which three blocks of both policies have equal values; nothing else was run.\<close>

definition size_sample :: "string \<Rightarrow> string \<Rightarrow> campaign_cell" where
  "size_sample block policy = \<lparr> ac_block = VStr block, ac_cell = VStr policy, ac_workload = VStr ''cpu-bound'', ac_policy = VStr policy,
     ac_condition = VStr ''solo'', ac_summary = [], ac_throughput = Some (Fin 8), ac_latency = None, ac_metrics = [], ac_parameters = [] \<rparr>"

definition size_pilot :: "campaign_cell list" where
  "size_pilot = concat (map (\<lambda>b. map (size_sample b) [''fit'', ''burstable-low'']) [''b1'', ''b2'', ''b3''])"


text \<open>A library that knows the logarithm of one and no other.\<close>

definition one_math :: cmath where
  "one_math = \<lparr> m_exp = (\<lambda>_. Inr NaN), m_log = (\<lambda>x. Inr (if x = Fin 1 then Fin 0 else NaN)), m_log1p = (\<lambda>_. Inr NaN),
     m_lgamma = (\<lambda>_. Inr NaN), m_pow = (\<lambda>_ _. Inr (Fin 1)) \<rparr>"

lemma one_tail:
  obtains p where "f_sub (Fin 1) SD_UPPER_CONFIDENCE = Fin p" "0 < p" "p < 1" "inv_cdf one_math (Fin p) = Inr NaN"
proof -
  let ?c = "fl (95 / 100)" let ?p = "fl (1 - ?c)" let ?q = "fl (?p - 1 / 2)"
  have c: "15 / 16 \<le> ?c" "?c \<le> 31 / 32"
    using fl_mono [of "15 / 16" "95 / 100"] fl_dyadic [of 15 4] fl_mono [of "95 / 100" "31 / 32"] fl_dyadic [of 31 5] by simp_all
  have p: "1 / 32 \<le> ?p" "?p \<le> 1 / 16"
    using c fl_mono [of "1 / 32" "1 - ?c"] fl_dyadic [of 1 5] fl_mono [of "1 - ?c" "1 / 16"] fl_dyadic [of 1 4] by simp_all
  have q: "?q \<le> - (7 / 16)"
    using p fl_mono [of "?p - 1 / 2" "- (7 / 16)"] fl_dyadic [of 7 4] fl_minus [of "7 / 16"] by simp
  have conf: "SD_UPPER_CONFIDENCE = Fin ?c" by (simp add: SD_UPPER_CONFIDENCE_def lit_def to_float_unit)
  have sub: "f_sub (Fin 1) SD_UPPER_CONFIDENCE = Fin ?p" unfolding conf f_sub_def using c by (simp add: to_float_unit)
  have "to_float (1 / 2 - ?p) = Fin (fl (1 / 2 - ?p))" using p by (intro to_float_unit) simp_all
  then have "to_float (- (1 / 2 - ?p)) = Fin ?q" using fl_minus [of "1 / 2 - ?p"] by (simp add: to_float_def Let_def split: if_splits)
  then have dq: "f_sub (Fin ?p) (Fin (1 / 2)) = Fin ?q" by (simp add: f_sub_def)
  have "fl (425 / 1000) \<le> 55 / 128" using fl_mono [of "425 / 1000" "55 / 128"] fl_dyadic [of 55 7] by simp
  then have far: "\<not> f_le (f_abs (Fin ?q)) (lit 425 3)" using q by (simp add: lit_def to_float_unit f_abs_def)
  have "inv_cdf one_math (Fin ?p) = Inr NaN" unfolding inv_cdf_def dq Let_def using far p q
    by (simp add: one_math_def f_sqrt_def f_sub_def f_mul_def f_div_def inv_far_tail_num_def inv_far_tail_den_def horner_NaN)
  then show thesis using that sub p by simp
qed

lemma to_float_two:
  assumes "0 \<le> x" "x \<le> 2"
  shows "to_float x = Fin (fl x)"
proof -
  have "fl x \<le> 2" using fl_mono [OF assms(2)] fl_of_int [of 2] by simp
  moreover have "0 \<le> fl x" using assms(1) by (rule fl_nonneg)
  moreover have "(2 :: rat) \<le> max_float" unfolding max_float_def by simp
  ultimately show ?thesis by (simp add: to_float_def Let_def)
qed

lemma f_sqrt_unit:
  assumes "0 \<le> a" "a \<le> 1"
  shows "\<exists>r. f_sqrt (Fin a) = Inr r"
proof -
  obtain n m where nm: "quotient_of a = (n, m)" by fastforce
  have m: "0 < m" and a: "a = of_int n / of_int m" using quotient_of_denom_pos [OF nm] quotient_of_div [OF nm] by simp_all
  then have eq: "(of_int n :: rat) = a * of_int m" by simp
  have "0 \<le> (of_int n :: rat)" unfolding eq using assms(1) m by simp
  moreover have "(of_int n :: rat) \<le> of_int m" unfolding eq using mult_right_mono [OF assms(2), of "of_int m"] m by simp
  ultimately have n: "0 \<le> n" "n \<le> m" by simp_all
  have "n < 2 ^ nat (bitlen m)" using bitlen_bounds [OF m] n by simp
  then have len: "bitlen n \<le> bitlen m" using bitlen_nonneg [of m] by (simp add: bitlen_le_iff_power)
  define q where "q = (bitlen n - bitlen m - 109) div 2"
  define k where "k = nat (- q)"
  have neg: "\<not> 0 \<le> q" using len by (simp add: q_def)
  let ?d = "n * 4 ^ k div m"
  have "n * 4 ^ k \<le> 4 ^ k * m" using n by (simp add: mult.commute mult_left_mono)
  then have d: "0 \<le> ?d" "?d \<le> 4 ^ k" using m n(1) zdiv_mono1 [of "n * 4 ^ k" "4 ^ k * m" m] by (simp_all add: pos_imp_zdiv_nonneg_iff)
  have "isqrt ?d * isqrt ?d \<le> 2 ^ k * 2 ^ k"
    using isqrt_bounds [OF d(1)] d(2) by (simp add: power_mult_distrib [symmetric])
  then have i: "0 \<le> isqrt ?d" "isqrt ?d \<le> 2 ^ k"
    using isqrt_bounds [OF d(1)] by (auto intro: power2_le_imp_le simp: power2_eq_square)
  have x: "0 \<le> sqrt_rto (n * 4 ^ k) m" "sqrt_rto (n * 4 ^ k) m \<le> 2 ^ k + 1" using i by (simp_all add: sqrt_rto_def Let_def)
  have "of_int (sqrt_rto (n * 4 ^ k) m) \<le> (2 * 2 ^ k :: rat)"
    using x(2) of_int_le_iff [of "sqrt_rto (n * 4 ^ k) m" "2 * 2 ^ k", where 'a = rat] by (simp add: order_trans [OF x(2)])
  then have u: "0 \<le> of_int (sqrt_rto (n * 4 ^ k) m) / (2 ^ k :: rat)" "of_int (sqrt_rto (n * 4 ^ k) m) / (2 ^ k :: rat) \<le> 2"
    using x(1) by (simp_all add: field_simps)
  have "\<exists>y. to_float (of_int (sqrt_rto (n * 4 ^ k) m) / 2 ^ k) = Fin y"
    using to_float_two [OF u] by blast
  then obtain y where "int_truediv (sqrt_rto (n * 4 ^ k) m) (2 ^ k) = Inr (Fin y)" by (auto simp: int_truediv_def)
  then show ?thesis using assms(1) neg nm by (simp add: f_sqrt_def float_sqrt_of_frac_def q_def [symmetric] k_def [symmetric])
qed

lemma one_sd: "sd_upper_bound one_math [Fin 0, Fin 0, Fin 0] SD_UPPER_CONFIDENCE = Inr (Fin 0)"
proof -
  obtain p where p: "f_sub (Fin 1) SD_UPPER_CONFIDENCE = Fin p" "0 < p" "p < 1" "inv_cdf one_math (Fin p) = Inr NaN" by (rule one_tail)
  have i: "to_float 0 = Fin 0" "to_float 2 = Fin 2" "to_float 18 = Fin 18" "float_of_int 2 = Inr (Fin 2)"
    using to_float_small [of 0] to_float_small [of 2] to_float_small [of 18] float_of_int_small [of 2] by simp_all
  have nine: "to_float (1 / 9) = Fin (fl (1 / 9))" by (rule to_float_unit) simp_all
  have "0 \<le> fl (1 / 9) \<and> fl (1 / 9) \<le> 1" by (rule ieee.rnd_unit_interval) simp_all
  then obtain r where r: "f_sqrt (Fin (fl (1 / 9))) = Inr r" using f_sqrt_unit by blast
  have "\<not> f_lt (Fin 2) (lit 1 12)" using ieee.rnd_unit_interval [of "1 / 10 ^ 12"] by (simp add: lit_def to_float_unit)
  moreover have arith: "f_mul (Fin 9) (Fin 2) = Fin 18" "f_div (Fin 2) (Fin 18) = Inr (Fin (fl (1 / 9)))" "f_mul (Fin 2) (Fin 1) = Fin 2"
    "m_pow one_math x y = Inr (Fin 1)" for x y
    using i nine by (simp_all add: f_mul_def f_div_def one_math_def)
  ultimately have chi: "chi_square_lower_quantile one_math (Fin p) 2 = Inr (Fin 2)"
    using p(2-4) i(4) r arith unfolding chi_square_lower_quantile_def by simp
  have "variance [Fin 0, Fin 0, Fin 0] = Inr (Fin 0)" using i by (simp add: variance_def sum_of_squares_def)
  moreover have "f_sqrt (Fin 0) = Inr (Fin 0)" by (simp add: f_sqrt_def float_sqrt_of_0)
  ultimately show ?thesis using p i chi by (simp add: sd_upper_bound_def MIN_BLOCKS_def f_mul_def f_div_def)
qed


lemma workloads_of_pilot: "workloads_of size_pilot = [''cpu-bound'']"
  by code_simp

definition sized_entry :: size_entry where
  "sized_entry = \<lparr> sz_family = hd FAMILIES, sz_workload = ''cpu-bound'', sz_paired = [''b1'', ''b2'', ''b3''], sz_missing = [],
     sz_result = Some (Fin 0, 3) \<rparr>"

definition unsized_entry :: "family \<Rightarrow> size_entry" where
  "unsized_entry fam = \<lparr> sz_family = fam, sz_workload = ''cpu-bound'', sz_paired = [], sz_missing = [], sz_result = None \<rparr>"

lemma margin_unit: "f_lt (Fin 0) PERFORMANCE_MARGIN" "f_lt PERFORMANCE_MARGIN (Fin 1)"
proof -
  have "1 / 32 \<le> fl (5 / 100)" "fl (5 / 100) \<le> 1 / 16"
    using fl_mono [of "1 / 32" "5 / 100"] fl_dyadic [of 1 5] fl_mono [of "5 / 100" "1 / 16"] fl_dyadic [of 1 4] by simp_all
  then show "f_lt (Fin 0) PERFORMANCE_MARGIN" "f_lt PERFORMANCE_MARGIN (Fin 1)"
    by (simp_all add: PERFORMANCE_MARGIN_def to_float_unit)
qed

lemma size_first: "size_scenario one_math size_pilot (hd FAMILIES, ''cpu-bound'') = Inr sized_entry"
proof -
  let ?vals = "map (\<lambda>b. (b, Fin 8)) [''b1'', ''b2'', ''b3'']"
  have st: "size_gather (hd FAMILIES) ''cpu-bound'' size_pilot = \<lparr> sg_control = ?vals, sg_treatment = ?vals, sg_lower = False \<rparr>"
    by (simp add: size_gather_def size_pilot_def size_sample_def size_cell_def pilot_value_def FAMILIES_def py_str_def)
  have lists: "size_shared \<lparr> sg_control = ?vals, sg_treatment = ?vals, sg_lower = False \<rparr> = [''b1'', ''b2'', ''b3'']"
    "size_missing \<lparr> sg_control = ?vals, sg_treatment = ?vals, sg_lower = False \<rparr> = []" by code_simp+
  have "to_float 1 = Fin 1" using to_float_small [of 1] by simp
  then have logs: "rmap (size_log one_math \<lparr> sg_control = ?vals, sg_treatment = ?vals, sg_lower = False \<rparr>) [''b1'', ''b2'', ''b3'']
      = Inr [Fin 0, Fin 0, Fin 0]"
    by (simp add: size_log_def f_div_def one_math_def)
  have "required_blocks one_math (Fin 0) (fam_margin (hd FAMILIES)) (fam_size (hd FAMILIES)) = Inr 3"
    using margin_unit by (simp add: required_blocks_def FAMILIES_def f_eq_def MIN_BLOCKS_def)
  then show ?thesis using st lists logs one_sd by (simp add: size_scenario_def sized_entry_def MIN_BLOCKS_def)
qed

lemma size_others: "fam \<in> set (tl FAMILIES) \<Longrightarrow> size_scenario one_math size_pilot (fam, ''cpu-bound'') = Inr (unsized_entry fam)"
proof -
  assume "fam \<in> set (tl FAMILIES)"
  then have "size_gather fam ''cpu-bound'' size_pilot = \<lparr> sg_control = [], sg_treatment = [], sg_lower = False \<rparr>"
    by (auto simp: size_gather_def size_pilot_def size_sample_def size_cell_def pilot_value_def FAMILIES_def)
  then show ?thesis
    by (simp add: size_scenario_def unsized_entry_def size_missing_def size_shared_def seen_blocks_def MIN_BLOCKS_def)
qed

theorem sample_sizes_bounded_witness:
  "let entries = sized_entry # map unsized_entry (tl FAMILIES) in
     estimate_sample_sizes one_math size_pilot = Inr entries
     \<and> map (\<lambda>s. (sz_family s, sz_workload s)) entries = concat (map (\<lambda>fam. map (\<lambda>w. (fam, w)) (workloads_of size_pilot)) FAMILIES)
     \<and> list_all size_sound entries
     \<and> (size_status entries = ''PASS'') = list_all (\<lambda>s. sz_result s \<noteq> None) entries"
proof -
  have fams: "FAMILIES = hd FAMILIES # tl FAMILIES" by (simp add: FAMILIES_def)
  have "rmap (size_scenario one_math size_pilot) (map (\<lambda>fam. (fam, ''cpu-bound'')) (tl FAMILIES)) = Inr (map unsized_entry (tl FAMILIES))"
    unfolding rmap_map by (rule rmap_total) (rule size_others)
  then have e: "estimate_sample_sizes one_math size_pilot = Inr (sized_entry # map unsized_entry (tl FAMILIES))"
    unfolding estimate_sample_sizes_def workloads_of_pilot by (subst fams) (simp add: size_first concat_map_singleton)
  from sample_sizes_bounded [OF e] show ?thesis using e by (simp only: Let_def simp_thms)
qed

text \<open>A latency and a throughput make a pair here too: the orientation is that of the last cell.\<close>

lemma size_mixes_metrics:
  "size_gather (hd FAMILIES) ''io-bound'' [mixed_cell ''fit'' None, mixed_cell ''burstable-low'' (Some (Fin 7))]
     = \<lparr> sg_control = [(''b1'', Fin 900)], sg_treatment = [(''b1'', Fin 7)], sg_lower = True \<rparr>"
  by (simp add: size_gather_def FAMILIES_def size_cell_def pilot_value_def mixed_cell_def py_str_def)

end
