(* ===== verification/Mode_Scenarios.thy ===== *)
theory Mode_Scenarios
  imports Py_Json
begin

text \<open>
  The workload matrix and the analytical share model of the cgroup-mode study
  (\<open>sched-core-modes/experiments/scenarios.py\<close>). Shares are binary64 numbers; \<open>sum\<close> adds from
  left to right (the compensated \<open>sum\<close> of newer interpreters agrees on the integral weights it
  is applied to, whose partial sums are exact).
\<close>

section \<open>Tables\<close>

definition MODES :: "string list" where
  "MODES = [''up'', ''smp'', ''concur'', ''max'', ''tasks'']"

definition MODE_DEFAULT_CPUS :: int where
  "MODE_DEFAULT_CPUS = 2"

definition MODE_SUMMARY :: "(string \<times> string) list" where
  "MODE_SUMMARY = [(''up'', ''full group weight on every CPU (F_g_n = 1)''),
     (''smp'', ''group weight distributed across the CPUs its tasks use''),
     (''concur'', ''min(tasks, cpus) x weight (per active CPU)''),
     (''max'', ''cpus x weight, clipped at nice -20''),
     (''tasks'', ''tasks x weight (weight per runnable task)'')]"

definition weighted_threads_scenario :: pydict where
  "weighted_threads_scenario =
     [(''kind'', VStr ''flat''),
      (''description'', VStr (''Three groups with deliberately inverse weight/thread pairs: 400/1t, '' @
         ''200/2t, 100/4t. This separates every mode.'')),
      (''groups'', VList [VDict [(''name'', VStr ''w400-t1''), (''weight'', VInt 400), (''threads'', VInt 1)],
         VDict [(''name'', VStr ''w200-t2''), (''weight'', VInt 200), (''threads'', VInt 2)],
         VDict [(''name'', VStr ''w100-t4''), (''weight'', VInt 100), (''threads'', VInt 4)]])]"

definition qos_nested_scenario :: pydict where
  "qos_nested_scenario =
     [(''kind'', VStr ''nested''),
      (''description'', VStr (''Guaranteed-shaped parent (100/1t) versus a Burstable-shaped parent (100 '' @
         ''with two 100/2t pod children). Shows QoS-level amplification under '' @
         ''concur/tasks.'')),
      (''parents'', VList [VDict [(''name'', VStr ''qos-guaranteed''),
           (''weight'', VInt 100),
           (''threads'', VInt 1),
           (''children'', VList [])],
         VDict [(''name'', VStr ''qos-burstable''),
           (''weight'', VInt 100),
           (''threads'', VInt 4),
           (''children'', VList [VDict [(''name'', VStr ''pod-a''), (''weight'', VInt 100), (''threads'', VInt 2)],
              VDict [(''name'', VStr ''pod-b''), (''weight'', VInt 100), (''threads'', VInt 2)]])]])]"

definition mode_quota_scenario :: pydict where
  "mode_quota_scenario =
     [(''kind'', VStr ''flat''),
      (''description'', VStr (''Equal-weight 100/2t groups; one has cpu.max=50000 100000 (0.5 CPU), the '' @
         ''other is unconstrained. Quota enforcement is independent of cgroup_mode.'')),
      (''groups'', VList [VDict [(''name'', VStr ''limited''),
           (''weight'', VInt 100),
           (''threads'', VInt 2),
           (''cpu_max'', VStr ''50000 100000'')],
         VDict [(''name'', VStr ''open''), (''weight'', VInt 100), (''threads'', VInt 2)]])]"

definition latency_scenario :: pydict where
  "latency_scenario =
     [(''kind'', VStr ''flat''),
      (''description'', VStr (''Load group 400/2t plus a 1 ms wakeup probe in a 100/1t group. Measures '' @
         (''p50/p99 wakeup delay and the probe'' @ [CHR 0x27] @ ''s CPU share.''))),
      (''groups'', VList [VDict [(''name'', VStr ''load''),
           (''weight'', VInt 400),
           (''threads'', VInt 2),
           (''workload'', VStr ''cpu'')],
         VDict [(''name'', VStr ''probe''),
           (''weight'', VInt 100),
           (''threads'', VInt 1),
           (''workload'', VStr ''latency'')]])]"

definition MODE_SCENARIOS :: "(string \<times> pydict) list" where
  "MODE_SCENARIOS = [(''weighted_threads'', weighted_threads_scenario),
     (''qos_nested'', qos_nested_scenario),
     (''quota'', mode_quota_scenario),
     (''latency'', latency_scenario)]"

section \<open>Operations\<close>

record unit_spec =
  unit_name :: string
  unit_weight :: int
  unit_threads :: int
  unit_kind :: string
  unit_parent :: string
  unit_cpu_max :: string
  unit_workload :: string

definition parent_unit :: "pyval \<Rightarrow> unit_spec res" where
  "parent_unit v =
     as_dict v TypeError ''parent must be a mapping'' (\<lambda>p.
     rbind (ditem p ''name'') (\<lambda>name.
     rbind (rbind (ditem p ''weight'') int_of_val) (\<lambda>weight.
     rbind (rbind (ditem p ''threads'') int_of_val) (\<lambda>threads.
     Inr \<lparr> unit_name = py_str name, unit_weight = weight, unit_threads = threads,
           unit_kind = ''parent'', unit_parent = [], unit_cpu_max = [], unit_workload = ''cpu'' \<rparr>))))"

definition group_unit :: "pyval \<Rightarrow> unit_spec res" where
  "group_unit v =
     as_dict v TypeError ''group must be a mapping'' (\<lambda>g.
     rbind (ditem g ''name'') (\<lambda>name.
     rbind (rbind (ditem g ''weight'') int_of_val) (\<lambda>weight.
     rbind (rbind (ditem g ''threads'') int_of_val) (\<lambda>threads.
     Inr \<lparr> unit_name = py_str name, unit_weight = weight, unit_threads = threads,
           unit_kind = ''group'', unit_parent = [],
           unit_cpu_max = py_str (dget_or g ''cpu_max'' (VStr [])),
           unit_workload = py_str (dget_or g ''workload'' (VStr ''cpu'')) \<rparr>))))"

definition scenario_units :: "string \<Rightarrow> unit_spec list res" where
  "scenario_units scenario_name =
     as_some (map_of MODE_SCENARIOS scenario_name) KeyError scenario_name (\<lambda>scenario.
     rbind (ditem scenario ''kind'') (\<lambda>kind.
     if kind = VStr ''nested''
     then rbind (rbind (ditem scenario ''parents'') iter_val) (rmap parent_unit)
     else rbind (rbind (ditem scenario ''groups'') iter_val) (rmap group_unit)))"

definition mode_multiplier :: "string \<Rightarrow> int \<Rightarrow> int \<Rightarrow> int res" where
  "mode_multiplier mode threads cpus =
     (if mode = ''up'' then Inr 1
      else if mode = ''smp'' then Inr 1
      else if mode = ''concur'' then Inr (min threads cpus)
      else if mode = ''max'' then Inr cpus
      else if mode = ''tasks'' then Inr threads
      else raise ValueError (''unknown cgroup mode: '' @ mode))"

text \<open>\<open>zip(..., strict=True)\<close> raises once the shorter list is exhausted.\<close>

definition effective_weights :: "string \<Rightarrow> int list \<Rightarrow> int list \<Rightarrow> int \<Rightarrow> pyfloat list res" where
  "effective_weights mode weights threads cpus =
     rbind (rmap (\<lambda>(weight, thread_count).
         rbind (mode_multiplier mode thread_count cpus) (\<lambda>m. float_of_int (m * weight)))
       (zip weights threads)) (\<lambda>ws.
     require (length weights = length threads) ValueError
       ''zip() arguments have different lengths'' (Inr ws))"

definition expected_shares :: "string \<Rightarrow> string \<Rightarrow> int \<Rightarrow> (string \<times> pyfloat) list option res" where
  "expected_shares scenario_name mode cpus =
     (if scenario_name = ''quota'' then Inr None else
      rbind (scenario_units scenario_name) (\<lambda>units.
      rbind (effective_weights mode (map unit_weight units) (map unit_threads units) cpus) (\<lambda>effective.
      let total = py_sum effective in
      if f_le total (Fin 0) then Inr None else
      rbind (rmap (\<lambda>value. f_div value total) effective) (\<lambda>shares.
      Inr (Some (foldl (\<lambda>d (name, s). AList.update name s d) []
        (zip (map unit_name units) shares)))))))"

definition expected_per_task_shares ::
  "string \<Rightarrow> string \<Rightarrow> int \<Rightarrow> (string \<times> pyfloat) list option res" where
  "expected_per_task_shares scenario_name mode cpus =
     rbind (expected_shares scenario_name mode cpus) (\<lambda>r. case r of
       None \<Rightarrow> Inr None
     | Some shares \<Rightarrow>
         rbind (scenario_units scenario_name) (\<lambda>units.
         rbind (rmap (\<lambda>u.
             as_some (map_of shares (unit_name u)) KeyError (unit_name u) (\<lambda>s.
             rbind (float_of_int (max 1 (unit_threads u))) (\<lambda>n.
             rbind (f_div s n) (\<lambda>x. Inr (unit_name u, x))))) units) (\<lambda>items.
         Inr (Some (foldl (\<lambda>d (name, s). AList.update name s d) [] items)))))"

definition thread_amplification :: "string \<Rightarrow> string \<Rightarrow> int \<Rightarrow> (string \<times> pyfloat) list res" where
  "thread_amplification scenario_name mode cpus =
     rbind (scenario_units scenario_name) (\<lambda>units.
     rbind (rmap (\<lambda>u. rbind (mode_multiplier mode (unit_threads u) cpus) (\<lambda>m.
         rbind (float_of_int m) (\<lambda>x. Inr (unit_name u, x)))) units) (\<lambda>items.
     Inr (foldl (\<lambda>d (name, s). AList.update name s d) [] items)))"

definition allowed_modes :: "string \<Rightarrow> bool" where
  "allowed_modes mode \<longleftrightarrow> mode \<in> set MODES"

definition active_token :: "string \<Rightarrow> bool" where
  "active_token token \<longleftrightarrow> prefix ''('' token \<and> suffix '')'' token"

definition parse_mode_file :: "string \<Rightarrow> string res" where
  "parse_mode_file s = (case find active_token (py_split s) of
     Some token \<Rightarrow> Inr (butlast (tl token))
   | None \<Rightarrow> raise ValueError (''no active cgroup mode in '' @ repr_str s))"

section \<open>Laws\<close>

lemma py_sum_integral:
  assumes "list_all (\<lambda>i. 0 \<le> i) ns" "0 \<le> a" "a + sum_list ns < 2 ^ 53"
  shows "foldl f_add (Fin (of_int a)) (map (\<lambda>i. Fin (of_int i)) ns) = Fin (of_int (a + sum_list ns))"
  using assms
proof (induction ns arbitrary: a)
  case (Cons i ns)
  have "0 \<le> sum_list ns" using Cons.prems(1) by (auto simp: list_all_iff intro: sum_list_nonneg)
  then have "\<bar>a + i\<bar> < 2 ^ 53" using Cons.prems by simp
  then have "f_add (Fin (of_int a)) (Fin (of_int i)) = Fin (of_int (a + i))"
    using float_of_int_small [of "a + i"]
    by (simp add: float_of_int_def of_int_add split: pyfloat.splits)
  then show ?case using Cons.IH [of "a + i"] Cons.prems by (simp add: add.assoc)
qed simp

lemma foldl_update_distinct:
  "distinct (map fst d @ map fst ps) \<Longrightarrow>
     foldl (\<lambda>d (name, s). AList.update name s d) d ps = d @ ps"
proof (induction ps arbitrary: d)
  case (Cons p ps)
  obtain k v where p: "p = (k, v)" by (cases p)
  have "AList.update k v d = d @ [(k, v)]"
    using Cons.prems p by (induction d) auto
  then show ?case using Cons.IH [of "d @ [(k, v)]"] Cons.prems p by simp
qed simp

lemma share_unit:
  fixes e t :: int
  assumes "0 \<le> e" "e \<le> t" "0 < t"
  shows "f_div (Fin (of_int e)) (Fin (of_int t)) = Inr (Fin (fl (of_int e / of_int t)))"
    and "0 \<le> fl (of_int e / of_int t) \<and> fl (of_int e / of_int t) \<le> 1"
proof -
  have "0 \<le> (of_int e / of_int t :: rat)" "(of_int e / of_int t :: rat) \<le> 1"
    using assms by (simp_all add: divide_le_eq_1)
  then show "f_div (Fin (of_int e)) (Fin (of_int t)) = Inr (Fin (fl (of_int e / of_int t)))"
    "0 \<le> fl (of_int e / of_int t) \<and> fl (of_int e / of_int t) \<le> 1"
    using assms to_float_unit ieee.rnd_unit_interval by (simp_all add: f_div_def)
qed

lemma member_le_total: "list_all (\<lambda>i. 0 \<le> i) ns \<Longrightarrow> n \<in> set ns \<Longrightarrow> (n :: int) \<le> sum_list ns"
  by (rule member_le_sum_list) (auto simp: list_all_iff)

definition multiplier :: "string \<Rightarrow> int \<Rightarrow> int \<Rightarrow> int" where
  "multiplier mode threads cpus =
     (if mode = ''concur'' then min threads cpus else if mode = ''max'' then cpus
      else if mode = ''tasks'' then threads else 1)"

lemma mode_multiplier_allowed:
  "allowed_modes mode \<Longrightarrow> mode_multiplier mode threads cpus = Inr (multiplier mode threads cpus)"
  by (auto simp: allowed_modes_def MODES_def mode_multiplier_def multiplier_def)

definition group_weights :: "string \<Rightarrow> unit_spec list \<Rightarrow> int \<Rightarrow> int list" where
  "group_weights mode units cpus = map (\<lambda>u. multiplier mode (unit_threads u) cpus * unit_weight u) units"

lemma effective_weights_exact:
  assumes "allowed_modes mode" "list_all (\<lambda>n. \<bar>n\<bar> < 2 ^ 53) (group_weights mode units cpus)"
  shows "effective_weights mode (map unit_weight units) (map unit_threads units) cpus
    = Inr (map (\<lambda>i. Fin (of_int i)) (group_weights mode units cpus))"
proof -
  have "zip (map unit_weight units) (map unit_threads units)
      = map (\<lambda>u. (unit_weight u, unit_threads u)) units"
    by (induction units) simp_all
  moreover have "rmap (\<lambda>u. float_of_int (multiplier mode (unit_threads u) cpus * unit_weight u)) units
      = Inr (map (\<lambda>u. Fin (of_int (multiplier mode (unit_threads u) cpus * unit_weight u))) units)"
    by (rule rmap_total, rule float_of_int_small) (use assms(2) in \<open>simp add: group_weights_def list_all_iff\<close>)
  ultimately show ?thesis
    by (simp add: effective_weights_def rmap_map mode_multiplier_allowed [OF assms(1)] group_weights_def)
qed

lemma expected_shares_units:
  assumes "scenario_units scenario = Inr units" "scenario \<noteq> ''quota''" "allowed_modes mode"
    and nn: "list_all (\<lambda>n. 0 \<le> n) (group_weights mode units cpus)"
    and pos: "0 < sum_list (group_weights mode units cpus)"
    and small: "sum_list (group_weights mode units cpus) < 2 ^ 53"
    and d: "distinct (map unit_name units)"
  shows "\<exists>shares. expected_shares scenario mode cpus = Inr (Some shares)
    \<and> map fst shares = map unit_name units
    \<and> list_all (\<lambda>(name, s). \<exists>a. s = Fin a \<and> 0 \<le> a \<and> a \<le> 1) shares"
proof -
  let ?ns = "group_weights mode units cpus"
  let ?t = "sum_list ?ns"
  let ?q = "\<lambda>i. Fin (fl (of_int i / of_int ?t))"
  have "list_all (\<lambda>n. \<bar>n\<bar> < 2 ^ 53) ?ns"
    using nn small member_le_total [OF nn] by (fastforce simp: list_all_iff)
  note e = effective_weights_exact [OF assms(3) this]
  have t: "py_sum (map (\<lambda>i. Fin (of_int i)) ?ns) = Fin (of_int ?t)"
    using py_sum_integral [OF nn, of 0] small by (simp add: py_sum_def)
  have "f_div (Fin (of_int i)) (Fin (of_int ?t)) = Inr (?q i)" if "i \<in> set ?ns" for i
    using that nn pos member_le_total [OF nn] share_unit(1) by (simp add: list_all_iff)
  then have r: "rmap (\<lambda>value. f_div value (Fin (of_int ?t))) (map (\<lambda>i. Fin (of_int i)) ?ns)
      = Inr (map ?q ?ns)"
    unfolding rmap_map by (rule rmap_total)
  let ?sh = "zip (map unit_name units) (map ?q ?ns)"
  have len: "length ?ns = length units" by (simp add: group_weights_def)
  have "expected_shares scenario mode cpus = Inr (Some ?sh)"
    using assms(1,2) e t r pos d len foldl_update_distinct [of "[]" ?sh]
    by (simp add: expected_shares_def Let_def)
  moreover have "map fst ?sh = map unit_name units" using len by simp
  moreover have "list_all (\<lambda>(name, s). \<exists>a. s = Fin a \<and> 0 \<le> a \<and> a \<le> 1) ?sh"
  proof -
    have "0 \<le> fl (of_int i / of_int ?t) \<and> fl (of_int i / of_int ?t) \<le> 1" if "i \<in> set ?ns" for i
      using that nn pos member_le_total [OF nn] share_unit(2) by (simp add: list_all_iff)
    then show ?thesis by (auto simp: list_all_iff dest!: set_zip_rightD)
  qed
  ultimately show ?thesis by blast
qed

lemma sum_list_bound: "(\<And>n. n \<in> set ns \<Longrightarrow> n \<le> (b :: int)) \<Longrightarrow> sum_list ns \<le> int (length ns) * b"
  by (induction ns) (force simp: algebra_simps)+

lemma sum_list_positive:
  assumes "ns \<noteq> []" "\<And>n. n \<in> set ns \<Longrightarrow> 0 < (n :: int)"
  shows "0 < sum_list ns"
  using assms by (induction ns rule: list_nonempty_induct) (simp_all add: add_pos_pos)

definition table_ok :: "unit_spec list \<Rightarrow> bool" where
  "table_ok units \<longleftrightarrow> list_all (\<lambda>u. 0 < unit_weight u \<and> unit_weight u \<le> 400 \<and> 0 < unit_threads u
     \<and> unit_threads u \<le> 4) units \<and> units \<noteq> [] \<and> length units \<le> 3 \<and> distinct (map unit_name units)"

lemma table_units:
  assumes "scenario \<in> {''weighted_threads'', ''qos_nested'', ''latency''}"
  shows "\<exists>units. scenario_units scenario = Inr units \<and> table_ok units"
proof -
  have "list_all (\<lambda>s. case scenario_units s of Inr u \<Rightarrow> table_ok u | Inl _ \<Rightarrow> False)
      [''weighted_threads'', ''qos_nested'', ''latency'']"
    by code_simp
  then show ?thesis using assms by (auto split: sum.splits)
qed

section \<open>Properties\<close>

definition mode_file :: "string \<Rightarrow> string" where
  "mode_file active =
     join '' '' (map (\<lambda>m. if m = active then ''('' @ m @ '')'' else m) MODES) @ nl"

text \<open>
  The expected shares exist and are shares. For every mode, every scenario that is not capped
  by a quota and every machine of at most a million CPUs, the model yields one share per unit,
  under the unit's name and in the order of the table, each a number between 0 and 1.
\<close>

theorem expected_shares_unit_interval:
  assumes "allowed_modes mode" "scenario \<in> {''weighted_threads'', ''qos_nested'', ''latency''}"
    "0 < cpus" "cpus \<le> 1000000"
  shows "\<exists>units shares. scenario_units scenario = Inr units
    \<and> expected_shares scenario mode cpus = Inr (Some shares)
    \<and> map fst shares = map unit_name units
    \<and> list_all (\<lambda>(name, s). \<exists>a. s = Fin a \<and> 0 \<le> a \<and> a \<le> 1) shares"
proof -
  obtain units where u: "scenario_units scenario = Inr units"
    and b: "list_all (\<lambda>u. 0 < unit_weight u \<and> unit_weight u \<le> 400 \<and> 0 < unit_threads u
        \<and> unit_threads u \<le> 4) units" and l: "units \<noteq> []" "length units \<le> 3"
    and d: "distinct (map unit_name units)"
    using table_units [OF assms(2)] unfolding table_ok_def by blast
  have w: "0 < n \<and> n \<le> 400000000" if n: "n \<in> set (group_weights mode units cpus)" for n
  proof -
    obtain x where x: "x \<in> set units" "n = multiplier mode (unit_threads x) cpus * unit_weight x"
      using n by (auto simp: group_weights_def)
    have "0 < unit_weight x" "unit_weight x \<le> 400" "0 < unit_threads x" "unit_threads x \<le> 4"
      using b x(1) by (auto simp: list_all_iff)
    moreover from this have "0 < multiplier mode (unit_threads x) cpus"
      "multiplier mode (unit_threads x) cpus \<le> 1000000"
      using assms(3,4) by (auto simp: multiplier_def min_def)
    ultimately show ?thesis
      using x(2) mult_mono [of "multiplier mode (unit_threads x) cpus" 1000000 "unit_weight x" 400] by simp
  qed
  have "sum_list (group_weights mode units cpus) \<le> int (length (group_weights mode units cpus)) * 400000000"
    by (rule sum_list_bound) (use w in blast)
  moreover have "0 < sum_list (group_weights mode units cpus)"
    by (rule sum_list_positive) (use l(1) w in \<open>auto simp: group_weights_def\<close>)
  moreover have "list_all (\<lambda>n. 0 \<le> n) (group_weights mode units cpus)"
    using w by (auto simp: list_all_iff less_imp_le)
  moreover have "int (length (group_weights mode units cpus)) \<le> 3"
    using l(2) by (simp add: group_weights_def)
  ultimately show ?thesis
    using expected_shares_units [OF u _ assms(1) _ _ _ d] u assms(2) by fastforce
qed

theorem expected_shares_unit_interval_witness:
  "\<exists>units shares. scenario_units ''weighted_threads'' = Inr units
    \<and> expected_shares ''weighted_threads'' ''concur'' 2 = Inr (Some shares)
    \<and> map fst shares = map unit_name units
    \<and> list_all (\<lambda>(name, s). \<exists>a. s = Fin a \<and> 0 \<le> a \<and> a \<le> 1) shares"
  by (rule expected_shares_unit_interval) (simp_all add: allowed_modes_def MODES_def)

text \<open>
  Reading the mode file gives the active mode: the line in which one of the modes stands in
  parentheses among the others, as the kernel prints it, is read back as that mode.
\<close>

theorem parse_mode_file_active:
  "list_all (\<lambda>active. parse_mode_file (mode_file active) = Inr active) MODES"
  by code_simp

end
