(* ===== verification/Mode_Analysis.thy ===== *)
theory Mode_Analysis
  imports Mode_Scenarios Py_Statistics Py_Files
begin

text \<open>
  The analysis of the cgroup-mode study (\<open>sched-core-modes/experiments/analyze.py\<close>): the readers of the
  matrix and its description, the check that the run is complete, the shares of every repetition, and the
  tables of shares, metrics and pods. The Markdown report is not modelled.
\<close>

section \<open>Readers\<close>

definition mode_fail :: "string \<Rightarrow> 'a res" where
  "mode_fail message = raise SystemExit (''analyze: '' @ message)"

definition REQUIRED_ROW :: "string list" where
  "REQUIRED_ROW = [''scenario'', ''mode'', ''group'', ''kind'', ''rep'', ''usage_usec'', ''elapsed_s'', ''weight'',
     ''threads'', ''cpus'']"

definition matrix_line :: "path \<Rightarrow> nat \<times> string \<Rightarrow> pydict option res" where
  "matrix_line p = (\<lambda>(line_number, line).
     let place = path_text p @ '':'' @ show_nat line_number @ '': '' in
     if strip line = [] then Inr None
     else case loads line of
       Inl e \<Rightarrow> if exn_of e = JSONDecodeError then mode_fail (place @ ''invalid JSON: '' @ msg_of e) else Inl e
     | Inr (VDict row) \<Rightarrow>
         let missing = sort (filter (\<lambda>k. \<not> has_key row k) REQUIRED_ROW) in
         if missing \<noteq> [] then mode_fail (place @ ''missing keys: '' @ py_str (VList (map VStr missing)))
         else Inr (Some row)
     | Inr _ \<Rightarrow> mode_fail (place @ ''row is not an object''))"

definition load_matrix :: "path \<Rightarrow> fs \<Rightarrow> pydict list res" where
  "load_matrix p fs =
     (if \<not> is_file fs p then mode_fail (''matrix file not found: '' @ path_text p)
      else rbind (read_text fs p) (\<lambda>s.
        rbind (rmap (matrix_line p) (enumerate 1 (splitlines s))) (\<lambda>lines.
        let rows = List.map_filter id lines in
        if rows = [] then mode_fail (''matrix file is empty: '' @ path_text p) else Inr rows)))"

definition META_KEYS :: "string list" where
  "META_KEYS = [''run_id'', ''node'', ''kernel'', ''cpus'', ''reps'', ''modes'', ''scenarios'', ''rows'', ''duration_s'', ''warmup_s'']"

definition load_meta :: "path \<Rightarrow> fs \<Rightarrow> pydict res" where
  "load_meta p fs =
     (if \<not> is_file fs p then mode_fail (''meta file not found: '' @ path_text p)
      else rbind (read_text fs p) (\<lambda>s.
        case loads s of
          Inl e \<Rightarrow> if exn_of e = JSONDecodeError then mode_fail (path_text p @ '': invalid JSON: '' @ msg_of e) else Inl e
        | Inr (VDict meta) \<Rightarrow>
            rbind (rforeach (\<lambda>key. if has_key meta key then Inr ()
              else mode_fail (path_text p @ '': missing meta key '' @ repr_str key)) META_KEYS) (\<lambda>_. Inr meta)
        | Inr _ \<Rightarrow> mode_fail (path_text p @ '': meta is not an object'')))"

section \<open>Completeness of the run\<close>

definition meta_int :: "pydict \<Rightarrow> string \<Rightarrow> int res" where
  "meta_int d key = rbind (ditem d key) int_of_val"

definition known_scenario :: "pyval \<Rightarrow> unit res" where
  "known_scenario v =
     require (hashable v) TypeError ''unhashable type'' (
     if list_ex (\<lambda>s. v = VStr s) (map fst MODE_SCENARIOS) then Inr ()
     else mode_fail (''unknown scenario in meta: '' @ py_str v))"

definition known_mode :: "pyval \<Rightarrow> unit res" where
  "known_mode v = (if list_ex (\<lambda>m. v = VStr m) MODES then Inr () else mode_fail (''unknown mode in meta: '' @ py_str v))"

text \<open>\<open>any(...)\<close> stops at the first row that holds.\<close>

fun rany :: "('a \<Rightarrow> bool res) \<Rightarrow> 'a list \<Rightarrow> bool res" where
  "rany f [] = Inr False"
| "rany f (x # xs) = rbind (f x) (\<lambda>b. if b then Inr True else rany f xs)"

definition row_matches :: "pyval \<Rightarrow> pyval \<Rightarrow> int \<Rightarrow> pydict \<Rightarrow> bool res" where
  "row_matches scenario mode rep row =
     rbind (ditem row ''scenario'') (\<lambda>s.
     if \<not> py_eq s scenario then Inr False
     else rbind (ditem row ''mode'') (\<lambda>m.
       if \<not> py_eq m mode then Inr False
       else rbind (meta_int row ''rep'') (\<lambda>r. Inr (r = rep))))"

definition repetitions :: "int \<Rightarrow> int list" where
  "repetitions n = [1..n]"

definition mode_cells :: "'s list \<Rightarrow> 'm list \<Rightarrow> int list \<Rightarrow> ('s \<times> 'm \<times> int) list" where
  "mode_cells scenarios modes reps = concat (map (\<lambda>s. concat (map (\<lambda>m. map (\<lambda>r. (s, m, r)) reps) modes)) scenarios)"

definition require_cell :: "pydict list \<Rightarrow> pyval \<times> pyval \<times> int \<Rightarrow> unit res" where
  "require_cell rows = (\<lambda>(scenario, mode, rep).
     rbind (rany (row_matches scenario mode rep) rows) (\<lambda>found.
     if found then Inr ()
     else mode_fail (''missing data for '' @ py_str scenario @ ''/'' @ py_str mode @ ''/rep'' @ show_int rep)))"

definition mode_validate :: "pydict list \<Rightarrow> pydict \<Rightarrow> unit res" where
  "mode_validate rows meta =
     rbind (meta_int meta ''rows'') (\<lambda>n.
     if n \<noteq> int (length rows)
     then rbind (ditem meta ''rows'') (\<lambda>v. mode_fail (''meta says '' @ py_str v @ '' rows but the matrix has ''
       @ show_int (int (length rows)) @ ''; '' @ ''the run was truncated''))
     else
       rbind (rbind (ditem meta ''scenarios'') iter_val) (\<lambda>scenarios.
       rbind (rbind (ditem meta ''modes'') iter_val) (\<lambda>modes.
       rbind (rforeach known_scenario scenarios) (\<lambda>_.
       rbind (rforeach known_mode modes) (\<lambda>_.
       rbind (meta_int meta ''reps'') (\<lambda>reps.
       if reps < 1 then mode_fail ''meta reps must be >= 1''
       else rbind (meta_int meta ''cpus'') (\<lambda>cpus.
         if cpus < 1 then mode_fail ''meta cpus must be >= 1''
         else rforeach (require_cell rows) (mode_cells scenarios modes (repetitions reps)))))))))"

section \<open>Shares of one repetition\<close>

definition mean_sd :: "pyfloat list \<Rightarrow> (pyfloat \<times> pyfloat \<times> nat) res" where
  "mean_sd xs =
     (if xs = [] then Inr (Fin 0, Fin 0, 0)
      else rbind (fmean xs) (\<lambda>mean.
        rbind (if 1 < length xs then stdev xs else Inr (Fin 0)) (\<lambda>sd. Inr (mean, sd, length xs))))"

type_synonym row_index = "((string \<times> string \<times> int) \<times> pydict list) list"

definition index_row :: "row_index \<Rightarrow> pydict \<Rightarrow> row_index res" where
  "index_row idx row =
     rbind (text_item row ''scenario'') (\<lambda>scenario.
     rbind (text_item row ''mode'') (\<lambda>mode.
     rbind (meta_int row ''rep'') (\<lambda>rep. Inr (add_sample idx (scenario, mode, rep) row))))"

definition index_rows :: "pydict list \<Rightarrow> row_index res" where
  "index_rows rows = rfold index_row [] rows"

text \<open>The index is a \<open>defaultdict(list)\<close>.\<close>

definition indexed :: "row_index \<Rightarrow> string \<times> string \<times> int \<Rightarrow> pydict list" where
  "indexed idx key = (case map_of idx key of Some rows \<Rightarrow> rows | None \<Rightarrow> [])"

definition text_is :: "string \<Rightarrow> string \<Rightarrow> pydict \<Rightarrow> bool res" where
  "text_is key s row = rbind (text_item row key) (\<lambda>t. Inr (t = s))"

definition usage_total :: "pydict list \<Rightarrow> int res" where
  "usage_total rows = rbind (rmap (\<lambda>row. meta_int row ''usage_usec'') rows) (\<lambda>us. Inr (sum_list us))"

definition share_item :: "int \<Rightarrow> (string \<times> pyfloat) list \<Rightarrow> pydict \<Rightarrow> (string \<times> pyfloat) list res" where
  "share_item amount shares row =
     rbind (text_item row ''group'') (\<lambda>name.
     rbind (meta_int row ''usage_usec'') (\<lambda>usage.
     rbind (int_truediv usage amount) (\<lambda>x. Inr (AList.update name x shares))))"

definition level_share :: "pydict list \<Rightarrow> string \<Rightarrow> (string \<times> pyfloat) list res" where
  "level_share rows kind =
     rbind (rfilter (text_is ''kind'' kind) rows) (\<lambda>selected.
     rbind (usage_total selected) (\<lambda>total.
     if total \<le> 0 then mode_fail (''no CPU usage for kind='' @ kind)
     else rfold (share_item total) [] selected))"

definition pod_share :: "pydict list \<Rightarrow> (string \<times> (string \<times> pyfloat) list) list \<Rightarrow> pydict \<Rightarrow> (string \<times> (string \<times> pyfloat) list) list res" where
  "pod_share children result parent =
     rbind (text_item parent ''group'') (\<lambda>name.
     rbind (rfilter (text_is ''parent'' name) children) (\<lambda>kids.
     rbind (usage_total kids) (\<lambda>total.
     if total \<le> 0 then Inr result
     else rbind (rfold (share_item total) [] kids) (\<lambda>shares. Inr (AList.update name shares result)))))"

definition pod_shares :: "pydict list \<Rightarrow> (string \<times> (string \<times> pyfloat) list) list res" where
  "pod_shares rows =
     rbind (rfilter (text_is ''kind'' ''parent'') rows) (\<lambda>parents.
     rbind (rfilter (text_is ''kind'' ''child'') rows) (\<lambda>children.
     rfold (pod_share children) [] parents))"

fun find_row :: "pydict list \<Rightarrow> string \<Rightarrow> string option \<Rightarrow> pydict option res" where
  "find_row [] grp kind = Inr None"
| "find_row (row # rows) grp kind =
     rbind (text_is ''group'' grp row) (\<lambda>same.
     rbind (if \<not> same then Inr False else case kind of None \<Rightarrow> Inr True | Some k \<Rightarrow> text_is ''kind'' k row) (\<lambda>found.
     if found then Inr (Some row) else find_row rows grp kind))"

section \<open>Records\<close>

record mode_metric =
  mm_scenario :: string
  mm_mode :: string
  mm_group :: string
  mm_kind :: string
  mm_parent :: string
  mm_weight :: int
  mm_threads :: int
  mm_cpu_max :: string
  mm_metric :: string
  mm_mean :: pyfloat
  mm_sd :: pyfloat
  mm_n :: nat
  mm_unit :: string
  mm_expected :: "pyfloat option"
  mm_delta :: "pyfloat option"
  mm_note :: string

record mode_wide =
  mw_scenario :: string
  mw_mode :: string
  mw_group :: string
  mw_kind :: string
  mw_parent :: string
  mw_weight :: int
  mw_threads :: int
  mw_cpu_max :: string
  mw_share_mean_pct :: pyfloat
  mw_share_sd_pct :: pyfloat
  mw_share_n :: nat
  mw_expected_pct :: "pyfloat option"
  mw_delta_pp :: "pyfloat option"
  mw_relative_to_smp :: "pyfloat option"
  mw_relative_to_smp_sd :: "pyfloat option"
  mw_per_task_mean_pct :: pyfloat
  mw_per_task_sd_pct :: pyfloat
  mw_per_task_expected_pct :: "pyfloat option"
  mw_iterations_per_s :: pyfloat
  mw_iterations_per_s_sd :: pyfloat
  mw_iterations_per_thread_s :: pyfloat
  mw_iterations_per_thread_s_sd :: pyfloat

record mode_pod =
  mp_scenario :: string
  mp_mode :: string
  mp_parent :: string
  mp_child :: string
  mp_weight :: int
  mp_threads :: int
  mp_share_within_parent_pct :: pyfloat
  mp_share_within_parent_sd_pct :: pyfloat
  mp_share_of_machine_pct :: pyfloat
  mp_share_of_machine_sd_pct :: pyfloat
  mp_n :: nat

definition metric_record ::
  "string \<Rightarrow> string \<Rightarrow> string \<Rightarrow> string \<Rightarrow> string \<Rightarrow> int \<Rightarrow> int \<Rightarrow> string \<Rightarrow> string \<Rightarrow> pyfloat \<Rightarrow> pyfloat \<Rightarrow> nat \<Rightarrow> string
    \<Rightarrow> pyfloat option \<Rightarrow> string \<Rightarrow> mode_metric" where
  "metric_record scenario mode grp kind parent weight threads cpu_max metric mean sd n unit expected note =
     \<lparr> mm_scenario = scenario, mm_mode = mode, mm_group = grp, mm_kind = kind, mm_parent = parent, mm_weight = weight,
       mm_threads = threads, mm_cpu_max = cpu_max, mm_metric = metric, mm_mean = py_round 6 mean, mm_sd = py_round 6 sd,
       mm_n = n, mm_unit = unit, mm_expected = map_option (py_round 6) expected,
       mm_delta = map_option (\<lambda>e. py_round 6 (f_sub mean e)) expected, mm_note = note \<rparr>"

definition pct_round :: "pyfloat \<Rightarrow> pyfloat" where
  "pct_round x = py_round 3 (f_mul x (Fin 100))"

section \<open>One unit\<close>

type_synonym share_cache = "((string \<times> string \<times> int) \<times> (string \<times> pyfloat) list) list"
type_synonym pod_cache = "((string \<times> string \<times> int) \<times> (string \<times> (string \<times> pyfloat) list) list) list"

definition cached_share :: "share_cache \<Rightarrow> string \<Rightarrow> string \<times> string \<times> int \<Rightarrow> pyfloat res" where
  "cached_share cache name key =
     as_some (map_of cache key) KeyError [] (\<lambda>shares. as_some (map_of shares name) KeyError (repr_str name) Inr)"

text \<open>A list that a loop appends to in some of its turns.\<close>

definition rmap_filter :: "('a \<Rightarrow> 'b option res) \<Rightarrow> 'a list \<Rightarrow> 'b list res" where
  "rmap_filter f xs = rbind (rmap f xs) (\<lambda>ys. Inr (List.map_filter id ys))"

definition smp_ratio :: "share_cache \<Rightarrow> string \<Rightarrow> string \<Rightarrow> string \<Rightarrow> int \<Rightarrow> pyfloat option res" where
  "smp_ratio cache scenario mode name rep =
     rbind (cached_share cache name (scenario, ''smp'', rep)) (\<lambda>baseline.
     if f_lt (Fin 0) baseline
     then rbind (cached_share cache name (scenario, mode, rep)) (\<lambda>s. rbind (f_div s baseline) (\<lambda>x. Inr (Some x)))
     else Inr None)"

definition get_int :: "pydict \<Rightarrow> string \<Rightarrow> int \<Rightarrow> int res" where
  "get_int row key dflt = int_of_val (dget_or row key (VInt dflt))"

definition get_float :: "pydict \<Rightarrow> string \<Rightarrow> pyfloat res" where
  "get_float row key = float_of_val (dget_or row key (VFloat (Fin 0)))"

definition unit_rate :: "row_index \<Rightarrow> string \<Rightarrow> string \<Rightarrow> string \<Rightarrow> string \<Rightarrow> int \<Rightarrow> (pyfloat \<times> pyfloat) option res" where
  "unit_rate idx scenario mode name kind rep =
     rbind (find_row (indexed idx (scenario, mode, rep)) name (Some kind)) (\<lambda>found. case found of
       None \<Rightarrow> Inr None
     | Some row \<Rightarrow>
         rbind (get_float row ''elapsed_s'') (\<lambda>elapsed.
         rbind (get_int row ''threads'' 1) (\<lambda>t.
         let threads = max 1 t in
         rbind (get_int row ''iterations'' 0) (\<lambda>iterations.
         if f_lt (Fin 0) elapsed \<and> 0 < iterations
         then rbind (float_of_int iterations) (\<lambda>i.
           rbind (f_div i elapsed) (\<lambda>rate.
           rbind (float_of_int threads) (\<lambda>n.
           rbind (f_div rate n) (\<lambda>per_thread. Inr (Some (rate, per_thread))))))
         else Inr None))))"

definition per_task :: "int \<Rightarrow> pyfloat \<Rightarrow> pyfloat res" where
  "per_task threads x = rbind (float_of_int (max 1 threads)) (f_div x)"

text \<open>The expectation of a unit; the latency probe sleeps, so its scenario has none.\<close>

definition unit_expectation :: "string \<Rightarrow> string \<Rightarrow> (string \<times> pyfloat) list option \<Rightarrow> pyfloat option res" where
  "unit_expectation scenario name expected =
     (case expected of None \<Rightarrow> Inr None
      | Some shares \<Rightarrow> as_some (map_of shares name) KeyError (repr_str name) (\<lambda>x.
          Inr (if scenario = ''latency'' then None else Some x)))"

record unit_measure =
  um_share :: "pyfloat \<times> pyfloat \<times> nat"
  um_task :: "pyfloat \<times> pyfloat \<times> nat"
  um_expected :: "pyfloat option"
  um_task_expected :: "pyfloat option"
  um_ratio :: "pyfloat \<times> pyfloat \<times> nat"
  um_rate :: "pyfloat \<times> pyfloat \<times> nat"
  um_thread_rate :: "pyfloat \<times> pyfloat \<times> nat"

definition measure_unit ::
  "share_cache \<Rightarrow> row_index \<Rightarrow> string list \<Rightarrow> int list \<Rightarrow> string \<Rightarrow> string \<Rightarrow> (string \<times> pyfloat) list option
    \<Rightarrow> (string \<times> pyfloat) list option \<Rightarrow> unit_spec \<Rightarrow> unit_measure res" where
  "measure_unit cache idx modes reps scenario mode expected expected_task u =
     (let name = unit_name u in
      rbind (rmap (\<lambda>rep. cached_share cache name (scenario, mode, rep)) reps) (\<lambda>xs.
      rbind (mean_sd xs) (\<lambda>share.
      rbind (rmap (per_task (unit_threads u)) xs) (\<lambda>ts.
      rbind (mean_sd ts) (\<lambda>task.
      rbind (unit_expectation scenario name expected) (\<lambda>expected_share.
      rbind (unit_expectation scenario name expected_task) (\<lambda>expected_task_share.
      rbind (if ''smp'' \<in> set modes then rmap_filter (smp_ratio cache scenario mode name) reps else Inr []) (\<lambda>ratios.
      rbind (mean_sd ratios) (\<lambda>ratio.
      rbind (rmap_filter (unit_rate idx scenario mode name (unit_kind u)) reps) (\<lambda>rates.
      rbind (mean_sd (map fst rates)) (\<lambda>rate.
      rbind (mean_sd (map snd rates)) (\<lambda>thread_rate.
      Inr \<lparr> um_share = share, um_task = task, um_expected = expected_share, um_task_expected = expected_task_share,
        um_ratio = ratio, um_rate = rate, um_thread_rate = thread_rate \<rparr>))))))))))))"

definition wide_row :: "string \<Rightarrow> string \<Rightarrow> unit_spec \<Rightarrow> unit_measure \<Rightarrow> mode_wide" where
  "wide_row scenario mode u q =
     (case (um_share q, um_task q, um_ratio q, um_rate q, um_thread_rate q) of
        ((mean, sd, n), (task_mean, task_sd, _), (ratio_mean, ratio_sd, ratios), (rate_mean, rate_sd, _), (thread_mean, thread_sd, _)) \<Rightarrow>
      \<lparr> mw_scenario = scenario, mw_mode = mode, mw_group = unit_name u, mw_kind = unit_kind u, mw_parent = unit_parent u,
        mw_weight = unit_weight u, mw_threads = unit_threads u, mw_cpu_max = unit_cpu_max u,
        mw_share_mean_pct = pct_round mean, mw_share_sd_pct = pct_round sd, mw_share_n = n,
        mw_expected_pct = map_option pct_round (um_expected q),
        mw_delta_pp = map_option (\<lambda>e. pct_round (f_sub mean e)) (um_expected q),
        mw_relative_to_smp = (if ratios = 0 then None else Some (py_round 4 ratio_mean)),
        mw_relative_to_smp_sd = (if ratios = 0 then None else Some (py_round 4 ratio_sd)),
        mw_per_task_mean_pct = pct_round task_mean, mw_per_task_sd_pct = pct_round task_sd,
        mw_per_task_expected_pct = map_option pct_round (um_task_expected q),
        mw_iterations_per_s = py_round 1 rate_mean, mw_iterations_per_s_sd = py_round 1 rate_sd,
        mw_iterations_per_thread_s = py_round 1 thread_mean, mw_iterations_per_thread_s_sd = py_round 1 thread_sd \<rparr>)"

definition unit_metrics :: "string \<Rightarrow> string \<Rightarrow> unit_spec \<Rightarrow> unit_measure \<Rightarrow> mode_metric list" where
  "unit_metrics scenario mode u q =
     (case (um_share q, um_task q, um_ratio q, um_rate q, um_thread_rate q) of
        ((mean, sd, n), (task_mean, task_sd, _), (ratio_mean, ratio_sd, ratios), (rate_mean, rate_sd, rates), (thread_mean, thread_sd, _)) \<Rightarrow>
      let entry = metric_record scenario mode (unit_name u) (unit_kind u) (unit_parent u) (unit_weight u) (unit_threads u)
            (unit_cpu_max u);
          pct = (\<lambda>x. f_mul x (Fin 100)) in
      [entry ''cpu_share_pct'' (pct mean) (pct sd) n ''percent'' (map_option pct (um_expected q))
         (if um_expected q \<noteq> None then ''idealized full-concurrency model'' else ''quota-capped; no mode expectation''),
       entry ''per_task_share_pct'' (pct task_mean) (pct task_sd) n ''percent'' (map_option pct (um_task_expected q))
         (''CPU share divided by the group'' @ [CHR 0x27] @ ''s thread count'')]
      @ (if ratios = 0 then [] else
         [entry ''relative_to_smp'' ratio_mean ratio_sd ratios ''ratio'' (Some (Fin 1)) ''paired by repetition against the smp baseline''])
      @ (if rates = 0 then [] else
         [entry ''iterations_per_s'' rate_mean rate_sd rates ''iterations/s'' None [],
          entry ''iterations_per_thread_s'' thread_mean thread_sd rates ''iterations/s/thread'' None []]))"

section \<open>One scenario in one mode\<close>

definition level_metric ::
  "string \<Rightarrow> string \<Rightarrow> string \<Rightarrow> pyfloat list \<Rightarrow> string \<Rightarrow> pyfloat option \<Rightarrow> string \<Rightarrow> string \<Rightarrow> mode_metric list res" where
  "level_metric scenario mode grp xs metric expected unit note =
     rbind (mean_sd xs) (\<lambda>(mean, sd, n).
     Inr (if n = 0 then [] else [metric_record scenario mode grp ''scenario'' [] 0 0 [] metric mean sd n unit expected note]))"

definition switch_rate :: "row_index \<Rightarrow> string \<Rightarrow> string \<Rightarrow> int \<Rightarrow> pyfloat option res" where
  "switch_rate idx scenario mode rep =
     (case indexed idx (scenario, mode, rep) of
        [] \<Rightarrow> Inr None
      | row # _ \<Rightarrow>
          rbind (get_float row ''elapsed_s'') (\<lambda>elapsed.
          if f_lt (Fin 0) elapsed
          then rbind (get_int row ''ctxt'' 0) (\<lambda>c. rbind (float_of_int c) (\<lambda>x. rbind (f_div x elapsed) (\<lambda>r. Inr (Some r))))
          else Inr None))"

definition switch_metrics :: "row_index \<Rightarrow> int list \<Rightarrow> string \<Rightarrow> string \<Rightarrow> mode_metric list res" where
  "switch_metrics idx reps scenario mode =
     rbind (rmap_filter (switch_rate idx scenario mode) reps) (\<lambda>xs.
     level_metric scenario mode [] xs ''ctxt_per_s'' None ''context switches/s'' ''whole-node counter during the measurement window'')"

definition share_or_zero :: "(string \<times> pyfloat) list \<Rightarrow> string \<Rightarrow> pyfloat" where
  "share_or_zero shares name = (case map_of shares name of Some x \<Rightarrow> x | None \<Rightarrow> Fin 0)"

definition qos_value :: "share_cache \<Rightarrow> string \<Rightarrow> string \<Rightarrow> int \<Rightarrow> pyfloat option res" where
  "qos_value cache scenario mode rep =
     as_some (map_of cache (scenario, mode, rep)) KeyError [] (\<lambda>shares.
     let guaranteed = share_or_zero shares ''qos-guaranteed''; burstable = share_or_zero shares ''qos-burstable'' in
     if f_lt (Fin 0) guaranteed then rbind (f_div burstable guaranteed) (\<lambda>x. Inr (Some x)) else Inr None)"

definition qos_expected :: "(string \<times> pyfloat) list option \<Rightarrow> pyfloat option res" where
  "qos_expected model = (case model of
     None \<Rightarrow> Inr None
   | Some shares \<Rightarrow>
       as_some (map_of shares ''qos-burstable'') KeyError ''qos-burstable'' (\<lambda>b.
       as_some (map_of shares ''qos-guaranteed'') KeyError ''qos-guaranteed'' (\<lambda>g.
       rbind (f_div b g) (\<lambda>x. Inr (Some x)))))"

definition qos_metrics :: "share_cache \<Rightarrow> int list \<Rightarrow> string \<Rightarrow> string \<Rightarrow> (string \<times> pyfloat) list option \<Rightarrow> mode_metric list res" where
  "qos_metrics cache reps scenario mode model =
     rbind (rmap_filter (qos_value cache scenario mode) reps) (\<lambda>xs.
     if xs = [] then Inr []
     else rbind (mean_sd xs) (\<lambda>_.
       rbind (qos_expected model) (\<lambda>expected_ratio.
       level_metric scenario mode ''qos-burstable/qos-guaranteed'' xs ''qos_ratio'' expected_ratio ''ratio'' ''QoS-class CPU ratio'')))"

text \<open>The share of a pod within its parent and of the machine, in one repetition.\<close>

definition pod_within :: "pod_cache \<Rightarrow> string \<times> string \<times> int \<Rightarrow> string \<Rightarrow> string \<Rightarrow> pyfloat option res" where
  "pod_within pods key parent child =
     as_some (map_of pods key) KeyError [] (\<lambda>d.
     Inr (case map_of d parent of Some shares \<Rightarrow> map_of shares child | None \<Rightarrow> None))"

definition pod_of_machine :: "pydict list \<Rightarrow> string \<Rightarrow> pyfloat option res" where
  "pod_of_machine rows child =
     rbind (rbind (rfilter (text_is ''kind'' ''parent'') rows) usage_total) (\<lambda>total.
     rbind (find_row rows child (Some ''child'')) (\<lambda>found. case found of
       Some row \<Rightarrow>
         if 0 < total then rbind (meta_int row ''usage_usec'') (\<lambda>u. rbind (int_truediv u total) (\<lambda>x. Inr (Some x))) else Inr None
     | None \<Rightarrow> Inr None))"

definition pod_values ::
  "pod_cache \<Rightarrow> row_index \<Rightarrow> string \<Rightarrow> string \<Rightarrow> string \<Rightarrow> string \<Rightarrow> int \<Rightarrow> (pyfloat option \<times> pyfloat option) res" where
  "pod_values pods idx scenario mode parent child rep =
     rbind (pod_within pods (scenario, mode, rep) parent child) (\<lambda>inner.
     rbind (pod_of_machine (indexed idx (scenario, mode, rep)) child) (\<lambda>machine. Inr (inner, machine)))"

definition pod_entry ::
  "pod_cache \<Rightarrow> row_index \<Rightarrow> int list \<Rightarrow> string \<Rightarrow> string \<Rightarrow> string \<Rightarrow> pyval \<Rightarrow> (mode_pod \<times> mode_metric) res" where
  "pod_entry pods idx reps scenario mode parent v =
     as_dict v TypeError ''child must be a mapping'' (\<lambda>child.
     rbind (text_item child ''name'') (\<lambda>short.
     let name = parent @ ''-'' @ short in
     rbind (rmap (pod_values pods idx scenario mode parent name) reps) (\<lambda>vs.
     rbind (mean_sd (List.map_filter fst vs)) (\<lambda>(within_mean, within_sd, within_n).
     rbind (mean_sd (List.map_filter snd vs)) (\<lambda>(machine_mean, machine_sd, _).
     rbind (meta_int child ''weight'') (\<lambda>weight.
     rbind (meta_int child ''threads'') (\<lambda>threads.
     Inr (\<lparr> mp_scenario = scenario, mp_mode = mode, mp_parent = parent, mp_child = name, mp_weight = weight, mp_threads = threads,
            mp_share_within_parent_pct = pct_round within_mean, mp_share_within_parent_sd_pct = pct_round within_sd,
            mp_share_of_machine_pct = pct_round machine_mean, mp_share_of_machine_sd_pct = pct_round machine_sd, mp_n = within_n \<rparr>,
          metric_record scenario mode name ''child'' parent weight threads [] ''pod_share_within_parent_pct''
            (f_mul within_mean (Fin 100)) (f_mul within_sd (Fin 100)) within_n ''percent'' (Some (Fin 50))
            ''equal pod weights and thread counts''))))))))"

definition parent_pods ::
  "pod_cache \<Rightarrow> row_index \<Rightarrow> int list \<Rightarrow> string \<Rightarrow> string \<Rightarrow> pyval \<Rightarrow> (mode_pod \<times> mode_metric) list res" where
  "parent_pods pods idx reps scenario mode v =
     as_dict v TypeError ''parent must be a mapping'' (\<lambda>parent.
     rbind (text_item parent ''name'') (\<lambda>name.
     rbind (rbind (ditem parent ''children'') iter_val) (rmap (pod_entry pods idx reps scenario mode name))))"

definition scenario_pods ::
  "pod_cache \<Rightarrow> row_index \<Rightarrow> int list \<Rightarrow> string \<Rightarrow> string \<Rightarrow> (mode_pod \<times> mode_metric) list res" where
  "scenario_pods pods idx reps scenario mode =
     as_some (map_of MODE_SCENARIOS scenario) KeyError (repr_str scenario) (\<lambda>d.
     rbind (rbind (ditem d ''parents'') iter_val) (\<lambda>parents.
     rbind (rmap (parent_pods pods idx reps scenario mode) parents) (\<lambda>ps. Inr (concat ps))))"

definition percent_of :: "pyfloat \<Rightarrow> pyfloat \<Rightarrow> pyfloat option res" where
  "percent_of x y = rbind (f_div x y) (\<lambda>r. Inr (Some (f_mul r (Fin 100))))"

definition throttle_row :: "pydict \<Rightarrow> (pyfloat option \<times> pyfloat option \<times> pyfloat option) res" where
  "throttle_row row =
     rbind (get_int row ''usage_usec'' 0) (\<lambda>usage.
     rbind (get_int row ''throttled_usec'' 0) (\<lambda>throttled.
     rbind (get_int row ''nr_periods'' 0) (\<lambda>periods.
     rbind (get_int row ''nr_throttled'' 0) (\<lambda>throttled_periods.
     rbind (get_float row ''elapsed_s'') (\<lambda>elapsed.
     rbind (if 0 < usage then rbind (int_truediv throttled usage) (\<lambda>r. Inr (Some (f_mul r (Fin 100)))) else Inr None) (\<lambda>of_usage.
     rbind (if f_lt (Fin 0) elapsed
            then rbind (float_of_int throttled) (\<lambda>t. percent_of t (f_mul elapsed (Fin 1000000))) else Inr None) (\<lambda>of_wall.
     rbind (if 0 < periods then rbind (int_truediv throttled_periods periods) (\<lambda>r. Inr (Some (f_mul r (Fin 100)))) else Inr None) (\<lambda>of_periods.
     Inr (of_usage, of_wall, of_periods)))))))))"

definition throttle_values :: "row_index \<Rightarrow> string \<Rightarrow> string \<Rightarrow> int \<Rightarrow> (pyfloat option \<times> pyfloat option \<times> pyfloat option) res" where
  "throttle_values idx scenario mode rep =
     rbind (find_row (indexed idx (scenario, mode, rep)) ''limited'' (Some ''group'')) (\<lambda>found. case found of
       None \<Rightarrow> Inr (None, None, None) | Some row \<Rightarrow> throttle_row row)"

definition limited_metric :: "string \<Rightarrow> string \<Rightarrow> string \<times> pyfloat list \<times> string \<Rightarrow> mode_metric list res" where
  "limited_metric scenario mode = (\<lambda>(metric, xs, note).
     rbind (mean_sd xs) (\<lambda>(mean, sd, n).
     Inr (if n = 0 then [] else
       [metric_record scenario mode ''limited'' ''group'' [] 100 2 ''50000 100000'' metric mean sd n ''percent'' None note])))"

definition throttle_metrics :: "row_index \<Rightarrow> int list \<Rightarrow> string \<Rightarrow> string \<Rightarrow> mode_metric list res" where
  "throttle_metrics idx reps scenario mode =
     rbind (rmap (throttle_values idx scenario mode) reps) (\<lambda>vs.
     rbind (rmap (limited_metric scenario mode)
       [(''throttled_usage_pct'', List.map_filter fst vs, ''throttled_usec / usage_usec''),
        (''throttled_wall_pct'', List.map_filter (fst \<circ> snd) vs, ''throttled_usec / wall time''),
        (''throttled_periods_pct'', List.map_filter (snd \<circ> snd) vs, ''nr_throttled / nr_periods'')]) (\<lambda>ms.
     Inr (concat ms)))"

definition probe_value :: "row_index \<Rightarrow> string \<Rightarrow> string \<Rightarrow> string \<Rightarrow> int \<Rightarrow> pyfloat option res" where
  "probe_value idx scenario mode field rep =
     rbind (find_row (indexed idx (scenario, mode, rep)) ''probe'' (Some ''group'')) (\<lambda>found. case found of
       None \<Rightarrow> Inr None
     | Some row \<Rightarrow> (case map_of row field of None \<Rightarrow> Inr None | Some v \<Rightarrow> rbind (float_of_val v) (\<lambda>x. Inr (Some x))))"

definition probe_metric :: "row_index \<Rightarrow> int list \<Rightarrow> string \<Rightarrow> string \<Rightarrow> string \<times> string \<Rightarrow> mode_metric list res" where
  "probe_metric idx reps scenario mode = (\<lambda>(field, metric).
     rbind (rmap_filter (probe_value idx scenario mode field) reps) (\<lambda>xs.
     rbind (mean_sd xs) (\<lambda>(mean, sd, n).
     Inr (if n = 0 then [] else
       [metric_record scenario mode ''probe'' ''group'' [] 100 1 [] metric mean sd n ''microseconds'' None ''1 ms timer'']))))"

definition wakeup_metrics :: "row_index \<Rightarrow> int list \<Rightarrow> string \<Rightarrow> string \<Rightarrow> mode_metric list res" where
  "wakeup_metrics idx reps scenario mode =
     rbind (rmap (probe_metric idx reps scenario mode)
       [(''p50_us'', ''wakeup_p50_us''), (''p99_us'', ''wakeup_p99_us''), (''p999_us'', ''wakeup_p999_us''), (''max_us'', ''wakeup_max_us'')]) (\<lambda>ms.
     Inr (concat ms))"

record mode_tables =
  mt_wide :: "mode_wide list"
  mt_metrics :: "mode_metric list"
  mt_pods :: "mode_pod list"

record mode_run =
  mr_cpus :: int
  mr_reps :: "int list"
  mr_scenarios :: "string list"
  mr_modes :: "string list"
  mr_index :: row_index
  mr_shares :: share_cache
  mr_pods :: pod_cache

definition analyze_unit ::
  "mode_run \<Rightarrow> string \<Rightarrow> string \<Rightarrow> (string \<times> pyfloat) list option \<Rightarrow> (string \<times> pyfloat) list option \<Rightarrow> unit_spec
    \<Rightarrow> (mode_wide \<times> mode_metric list) res" where
  "analyze_unit r scenario mode expected expected_task u =
     rbind (measure_unit (mr_shares r) (mr_index r) (mr_modes r) (mr_reps r) scenario mode expected expected_task u) (\<lambda>q.
     Inr (wide_row scenario mode u q, unit_metrics scenario mode u q))"

definition analyze_mode ::
  "mode_run \<Rightarrow> string \<Rightarrow> unit_spec list \<Rightarrow> (string \<times> (string \<times> pyfloat) list option) list
    \<Rightarrow> (string \<times> (string \<times> pyfloat) list option) list \<Rightarrow> string \<Rightarrow> mode_tables res" where
  "analyze_mode r scenario units model model_per_task mode =
     as_some (map_of model mode) KeyError (repr_str mode) (\<lambda>expected.
     as_some (map_of model_per_task mode) KeyError (repr_str mode) (\<lambda>expected_task.
     rbind (rmap (analyze_unit r scenario mode expected expected_task) units) (\<lambda>us.
     rbind (switch_metrics (mr_index r) (mr_reps r) scenario mode) (\<lambda>switches.
     rbind (if scenario = ''qos_nested'' then qos_metrics (mr_shares r) (mr_reps r) scenario mode expected else Inr []) (\<lambda>qos.
     rbind (if scenario = ''qos_nested'' then scenario_pods (mr_pods r) (mr_index r) (mr_reps r) scenario mode else Inr []) (\<lambda>pods.
     rbind (if scenario = ''quota'' then throttle_metrics (mr_index r) (mr_reps r) scenario mode else Inr []) (\<lambda>throttle.
     rbind (if scenario = ''latency'' then wakeup_metrics (mr_index r) (mr_reps r) scenario mode else Inr []) (\<lambda>wakeups.
     Inr \<lparr> mt_wide = map fst us,
           mt_metrics = concat (map snd us) @ switches @ qos @ map snd pods @ throttle @ wakeups,
           mt_pods = map fst pods \<rparr>))))))))"

definition join_tables :: "mode_tables list \<Rightarrow> mode_tables" where
  "join_tables ts = \<lparr> mt_wide = concat (map mt_wide ts), mt_metrics = concat (map mt_metrics ts), mt_pods = concat (map mt_pods ts) \<rparr>"

definition model_of :: "(string \<Rightarrow> 'v res) \<Rightarrow> string list \<Rightarrow> (string \<times> 'v) list res" where
  "model_of f modes = rmap (\<lambda>mode. rbind (f mode) (\<lambda>x. Inr (mode, x))) modes"

definition analyze_scenario :: "mode_run \<Rightarrow> string \<Rightarrow> mode_tables res" where
  "analyze_scenario r scenario =
     rbind (scenario_units scenario) (\<lambda>units.
     rbind (model_of (\<lambda>mode. expected_shares scenario mode (mr_cpus r)) (mr_modes r)) (\<lambda>model.
     rbind (model_of (\<lambda>mode. expected_per_task_shares scenario mode (mr_cpus r)) (mr_modes r)) (\<lambda>model_per_task.
     rbind (rmap (analyze_mode r scenario units model model_per_task) (mr_modes r)) (\<lambda>ts. Inr (join_tables ts)))))"

section \<open>The whole run\<close>

definition is_nested :: "string \<Rightarrow> bool res" where
  "is_nested scenario =
     as_some (map_of MODE_SCENARIOS scenario) KeyError (repr_str scenario) (\<lambda>d.
     rbind (ditem d ''kind'') (\<lambda>kind. Inr (kind = VStr ''nested'')))"

definition cache_cell :: "row_index \<Rightarrow> share_cache \<times> pod_cache \<Rightarrow> string \<times> string \<times> int \<Rightarrow> (share_cache \<times> pod_cache) res" where
  "cache_cell idx = (\<lambda>(shares, pods) key.
     let rep_rows = indexed idx key in
     rbind (is_nested (fst key)) (\<lambda>nested.
     rbind (level_share rep_rows (if nested then ''parent'' else ''group'')) (\<lambda>s.
     if nested
     then rbind (pod_shares rep_rows) (\<lambda>p. Inr (AList.update key s shares, AList.update key p pods))
     else Inr (AList.update key s shares, pods))))"

definition text_list :: "pydict \<Rightarrow> string \<Rightarrow> string list res" where
  "text_list d key = rbind (rbind (ditem d key) iter_val) (\<lambda>vs. Inr (map py_str vs))"

definition open_run :: "pydict list \<Rightarrow> pydict \<Rightarrow> mode_run res" where
  "open_run rows meta =
     rbind (meta_int meta ''cpus'') (\<lambda>cpus.
     rbind (meta_int meta ''reps'') (\<lambda>n.
     rbind (text_list meta ''scenarios'') (\<lambda>scenarios.
     rbind (text_list meta ''modes'') (\<lambda>modes.
     rbind (index_rows rows) (\<lambda>idx.
     rbind (rfold (cache_cell idx) ([], []) (mode_cells scenarios modes (repetitions n))) (\<lambda>(shares, pods).
     Inr \<lparr> mr_cpus = cpus, mr_reps = repetitions n, mr_scenarios = scenarios, mr_modes = modes, mr_index = idx,
           mr_shares = shares, mr_pods = pods \<rparr>))))))"

definition blank_or :: "pyfloat option \<Rightarrow> pyval" where
  "blank_or x = (case x of None \<Rightarrow> VStr [] | Some v \<Rightarrow> VFloat v)"

definition wide_items :: "mode_wide \<Rightarrow> pydict" where
  "wide_items w = [(''scenario'', VStr (mw_scenario w)), (''mode'', VStr (mw_mode w)), (''group'', VStr (mw_group w)),
     (''kind'', VStr (mw_kind w)), (''parent'', VStr (mw_parent w)), (''weight'', VInt (mw_weight w)),
     (''threads'', VInt (mw_threads w)), (''cpu_max'', VStr (mw_cpu_max w)),
     (''share_mean_pct'', VFloat (mw_share_mean_pct w)), (''share_sd_pct'', VFloat (mw_share_sd_pct w)),
     (''share_n'', VInt (int (mw_share_n w))), (''expected_pct'', blank_or (mw_expected_pct w)),
     (''delta_pp'', blank_or (mw_delta_pp w)), (''relative_to_smp'', blank_or (mw_relative_to_smp w)),
     (''relative_to_smp_sd'', blank_or (mw_relative_to_smp_sd w)), (''per_task_mean_pct'', VFloat (mw_per_task_mean_pct w)),
     (''per_task_sd_pct'', VFloat (mw_per_task_sd_pct w)), (''per_task_expected_pct'', blank_or (mw_per_task_expected_pct w)),
     (''iterations_per_s'', VFloat (mw_iterations_per_s w)), (''iterations_per_s_sd'', VFloat (mw_iterations_per_s_sd w)),
     (''iterations_per_thread_s'', VFloat (mw_iterations_per_thread_s w)),
     (''iterations_per_thread_s_sd'', VFloat (mw_iterations_per_thread_s_sd w))]"

definition metric_items :: "mode_metric \<Rightarrow> pydict" where
  "metric_items q = [(''scenario'', VStr (mm_scenario q)), (''mode'', VStr (mm_mode q)), (''group'', VStr (mm_group q)),
     (''kind'', VStr (mm_kind q)), (''parent'', VStr (mm_parent q)), (''weight'', VInt (mm_weight q)),
     (''threads'', VInt (mm_threads q)), (''cpu_max'', VStr (mm_cpu_max q)), (''metric'', VStr (mm_metric q)),
     (''mean'', VFloat (mm_mean q)), (''sd'', VFloat (mm_sd q)), (''n'', VInt (int (mm_n q))), (''unit'', VStr (mm_unit q)),
     (''expected'', blank_or (mm_expected q)), (''delta'', blank_or (mm_delta q)), (''note'', VStr (mm_note q))]"

definition pod_items :: "mode_pod \<Rightarrow> pydict" where
  "pod_items p = [(''scenario'', VStr (mp_scenario p)), (''mode'', VStr (mp_mode p)), (''parent'', VStr (mp_parent p)),
     (''child'', VStr (mp_child p)), (''weight'', VInt (mp_weight p)), (''threads'', VInt (mp_threads p)),
     (''share_within_parent_pct'', VFloat (mp_share_within_parent_pct p)),
     (''share_within_parent_sd_pct'', VFloat (mp_share_within_parent_sd_pct p)),
     (''share_of_machine_pct'', VFloat (mp_share_of_machine_pct p)),
     (''share_of_machine_sd_pct'', VFloat (mp_share_of_machine_sd_pct p)), (''n'', VInt (int (mp_n p)))]"

definition copy_keys :: "string list \<Rightarrow> pydict \<Rightarrow> pydict res" where
  "copy_keys keys d = rmap (\<lambda>k. rbind (ditem d k) (\<lambda>v. Inr (k, v))) keys"

definition mode_result :: "pydict \<Rightarrow> mode_run \<Rightarrow> mode_tables \<Rightarrow> pydict res" where
  "mode_result meta r t =
     rbind (copy_keys [''run_id'', ''node'', ''kernel''] meta) (\<lambda>first.
     rbind (copy_keys [''reps'', ''duration_s'', ''warmup_s''] meta) (\<lambda>second.
     Inr (first @ [(''cpus'', VInt (mr_cpus r))] @ second
       @ [(''modes'', VList (map VStr (mr_modes r))), (''scenarios'', VList (map VStr (mr_scenarios r))),
          (''original_mode'', dget_or meta ''original_mode'' (VStr [])), (''restored_mode'', dget_or meta ''restored_mode'' (VStr [])),
          (''mode_summary'', VDict (map (\<lambda>(mode, s). (mode, VStr s)) MODE_SUMMARY)),
          (''wide'', VList (map (VDict \<circ> wide_items) (mt_wide t))), (''metrics'', VList (map (VDict \<circ> metric_items) (mt_metrics t))),
          (''pods'', VList (map (VDict \<circ> pod_items) (mt_pods t)))])))"

definition mode_analyze :: "pydict list \<Rightarrow> pydict \<Rightarrow> (mode_tables \<times> pydict) res" where
  "mode_analyze rows meta =
     rbind (open_run rows meta) (\<lambda>r.
     rbind (rmap (analyze_scenario r) (mr_scenarios r)) (\<lambda>ts.
     rbind (mode_result meta r (join_tables ts)) (\<lambda>result. Inr (join_tables ts, result))))"

text \<open>The command up to the writing of its reports.\<close>

definition mode_study :: "path \<Rightarrow> path \<Rightarrow> fs \<Rightarrow> (mode_tables \<times> pydict) res" where
  "mode_study matrix_path meta_path fs =
     rbind (load_matrix matrix_path fs) (\<lambda>rows.
     rbind (load_meta meta_path fs) (\<lambda>meta.
     rbind (mode_validate rows meta) (\<lambda>_. mode_analyze rows meta)))"

section \<open>Laws of the shares\<close>

definition is_share :: "pyfloat \<Rightarrow> bool" where
  "is_share x \<longleftrightarrow> (\<exists>a. x = Fin a \<and> 0 \<le> a \<and> a \<le> 1)"

definition is_percentage :: "pyfloat \<Rightarrow> bool" where
  "is_percentage x \<longleftrightarrow> (\<exists>a. x = Fin a \<and> 0 \<le> a \<and> a \<le> 100)"

lemma to_float_Fin: "to_float x = Fin a \<Longrightarrow> a = fl x"
  by (simp add: to_float_def Let_def split: if_splits)

lemma to_float_percentage:
  assumes "0 \<le> x" "x \<le> 100"
  shows "is_percentage (to_float x)"
proof -
  have "x \<le> 2 ^ 7" using assms(2) by simp
  then have "to_float x = Fin (fl x)" "0 \<le> fl x" using to_float_range [OF assms(1), of 7] by simp_all
  moreover have "fl x \<le> 100" using fl_mono [OF assms(2)] fl_of_int [of 100] by simp
  ultimately show ?thesis by (simp add: is_percentage_def)
qed

lemma pct_round_share:
  assumes "is_share x"
  shows "is_percentage (pct_round x)"
proof -
  obtain a where a: "x = Fin a" "0 \<le> a" "a \<le> 1" using assms by (auto simp: is_share_def)
  then obtain b where b: "f_mul x (Fin 100) = Fin b" "0 \<le> b" "b \<le> 100"
    using to_float_percentage [of "a * 100"] by (auto simp: is_percentage_def f_mul_def)
  have "0 \<le> round_even (b * 10 ^ 3)" using round_even_mono [of 0 "b * 10 ^ 3"] round_even_of_int [of 0] b(2) by simp
  moreover have "round_even (b * 10 ^ 3) \<le> 100000"
    using round_even_mono [of "b * 10 ^ 3" "of_int 100000"] round_even_of_int [of 100000] b(3) by simp
  moreover define i where "i = round_even (b * 10 ^ 3)"
  ultimately have "0 \<le> (of_int i :: rat)" "(of_int i :: rat) \<le> of_int 100000" by (simp_all only: of_int_0_le_iff of_int_le_iff)
  then have "is_percentage (to_float (of_int (round_even (b * 10 ^ 3)) / 10 ^ 3))"
    unfolding i_def [symmetric] by (intro to_float_percentage) (simp_all add: divide_le_eq)
  then show ?thesis by (simp add: pct_round_def b(1) py_round_def)
qed

lemma shares_finite:
  assumes "list_all is_share xs"
  obtains qs where "xs = map Fin qs" "finite_vals xs = Some qs" "0 \<le> sum_list qs" "sum_list qs \<le> of_nat (length xs)"
  using assms
proof (induction xs arbitrary: thesis)
  case (Cons x xs)
  obtain a where "x = Fin a" "0 \<le> a" "a \<le> 1" using Cons.prems(2) by (auto simp: is_share_def)
  moreover obtain qs where "xs = map Fin qs" "finite_vals xs = Some qs" "0 \<le> sum_list qs" "sum_list qs \<le> of_nat (length xs)"
    using Cons.IH Cons.prems(2) by auto
  ultimately show ?case using Cons.prems(1) [of "a # qs"] by simp
qed simp

lemma fmean_share:
  assumes "list_all is_share xs" "fmean xs = Inr v"
  shows "is_share v"
proof -
  obtain qs where q: "finite_vals xs = Some qs" "0 \<le> sum_list qs" "sum_list qs \<le> of_nat (length xs)"
    using shares_finite [OF assms(1)] by blast
  obtain s n where x: "xs \<noteq> []" "fsum xs = Inr s" "float_of_int (int (length xs)) = Inr n" "f_div s n = Inr v"
    using assms(2) unfolding fmean_def by (auto simp: require_def split: if_splits)
  have s: "s = Fin (fl (sum_list qs))" using x(2) q(1)
    by (cases "to_float (sum_list qs)") (auto simp: fsum_def dest: to_float_Fin)
  have n: "n = Fin (fl (of_nat (length xs)))" using x(3)
    by (cases "to_float (of_int (int (length xs)))") (auto simp: float_of_int_def dest: to_float_Fin)
  have "(1 :: rat) \<le> of_nat (length xs)" using x(1) by (cases xs) simp_all
  then have "1 \<le> fl (of_nat (length xs))" using fl_mono fl_1 by metis
  moreover have "0 \<le> fl (sum_list qs)" "fl (sum_list qs) \<le> fl (of_nat (length xs))"
    using fl_nonneg [OF q(2)] fl_mono [OF q(3)] by simp_all
  ultimately have d: "0 \<le> fl (sum_list qs) / fl (of_nat (length xs))" "fl (sum_list qs) / fl (of_nat (length xs)) \<le> 1"
    and "fl (of_nat (length xs)) \<noteq> 0" by (simp_all add: divide_le_eq_1)
  then have "v = Fin (fl (fl (sum_list qs) / fl (of_nat (length xs))))"
    using x(4) to_float_unit [OF d] by (simp add: s n f_div_def)
  then show ?thesis using ieee.rnd_unit_interval [OF d] by (simp add: is_share_def)
qed

lemma mean_sd_share:
  assumes "list_all is_share xs" "mean_sd xs = Inr (mean, sd, n)"
  shows "is_share mean" "n = length xs"
proof -
  show "is_share mean"
  proof (cases "xs = []")
    case True
    then show ?thesis using assms(2) by (auto simp: mean_sd_def is_share_def)
  next
    case False
    then have "fmean xs = Inr mean" using assms(2) by (simp add: mean_sd_def split: if_splits)
    then show ?thesis by (rule fmean_share [OF assms(1)])
  qed
  show "n = length xs" using assms(2) by (auto simp: mean_sd_def split: if_splits)
qed

definition usage_ok :: "pydict \<Rightarrow> bool" where
  "usage_ok row = (case meta_int row ''usage_usec'' of Inr u \<Rightarrow> 0 \<le> u | Inl _ \<Rightarrow> False)"

lemma quotient_is_share:
  assumes "0 \<le> u" "u \<le> t" "0 < t" "int_truediv u t = Inr x"
  shows "is_share x"
  using assms int_truediv_share [of u t] share_unit(2) [of u t] by (auto simp: is_share_def)

lemma usage_total_bounds:
  assumes "list_all usage_ok rows" "usage_total rows = Inr amount" "row \<in> set rows" "meta_int row ''usage_usec'' = Inr u"
  shows "0 \<le> u" "u \<le> amount"
proof -
  obtain us where us: "list_all2 (\<lambda>row u. meta_int row ''usage_usec'' = Inr u) rows us" "amount = sum_list us"
    using assms(2) by (auto simp: usage_total_def rmap_Inr)
  have nn: "list_all (\<lambda>u. 0 \<le> u) us"
    using us(1) assms(1) by (induction rule: list_all2_induct) (auto simp: usage_ok_def split: sum.splits)
  have "u \<in> set us" using us(1) assms(3,4) by (induction rule: list_all2_induct) auto
  then show "0 \<le> u" "u \<le> amount" using nn member_le_total [OF nn] us(2) by (auto simp: list_all_iff)
qed

lemma update_values:
  "list_all (P \<circ> snd) d \<Longrightarrow> P v \<Longrightarrow> list_all (P \<circ> snd) (AList.update k v d)"
  by (induction d) auto

lemma map_of_values: "list_all (P \<circ> snd) d \<Longrightarrow> map_of d k = Some v \<Longrightarrow> P v"
  by (force simp: list_all_iff dest: map_of_SomeD)

lemma level_share_shares:
  assumes "list_all usage_ok rows" "level_share rows kind = Inr shares"
  shows "list_all (is_share \<circ> snd) shares"
proof -
  obtain selected amount where s: "rfilter (text_is ''kind'' kind) rows = Inr selected" "usage_total selected = Inr amount"
    "0 < amount" "rfold (share_item amount) [] selected = Inr shares"
    using assms(2) by (auto simp: level_share_def mode_fail_def split: if_splits)
  have ok: "list_all usage_ok selected" using s(1) assms(1) by (auto simp: rfilter_Inr list_all_iff)
  show ?thesis
  proof (rule rfold_invariant [OF s(4)])
    fix d row d' assume r: "row \<in> set selected" "list_all (is_share \<circ> snd) d" "share_item amount d row = Inr d'"
    then obtain name u x where x: "meta_int row ''usage_usec'' = Inr u" "int_truediv u amount = Inr x" "d' = AList.update name x d"
      by (auto simp: share_item_def)
    have "is_share x" using usage_total_bounds [OF ok s(2) r(1) x(1)] s(3) x(2) by (rule quotient_is_share)
    then show "list_all (is_share \<circ> snd) d'" unfolding x(3) by (rule update_values [OF r(2)])
  qed simp
qed

lemma index_rows_ok:
  assumes "list_all usage_ok rows" "index_rows rows = Inr idx"
  shows "list_all usage_ok (indexed idx key)"
proof -
  have "list_all (list_all usage_ok \<circ> snd) idx"
  proof (rule rfold_invariant [OF assms(2) [unfolded index_rows_def]])
    fix d row d' assume r: "row \<in> set rows" "list_all (list_all usage_ok \<circ> snd) d" "index_row d row = Inr d'"
    then obtain k where k: "d' = add_sample d k row" by (auto simp: index_row_def)
    have "list_all usage_ok ((case map_of d k of Some vs \<Rightarrow> vs | None \<Rightarrow> []) @ [row])"
      using map_of_values [OF r(2), of k] r(1) assms(1) by (cases "map_of d k") (auto simp: list_all_iff)
    then show "list_all (list_all usage_ok \<circ> snd) d'" unfolding k add_sample_def by (rule update_values [OF r(2)])
  qed simp
  then show ?thesis using map_of_values [of "list_all usage_ok" idx key] by (auto simp: indexed_def split: option.splits)
qed

lemma cache_shares:
  assumes "list_all usage_ok rows" "index_rows rows = Inr idx" "rfold (cache_cell idx) ([], []) cells = Inr (shares, pods)"
  shows "list_all (list_all (is_share \<circ> snd) \<circ> snd) shares"
proof -
  have "list_all (list_all (is_share \<circ> snd) \<circ> snd) (fst (shares, pods))"
  proof (rule rfold_invariant [OF assms(3)])
    fix c key c' assume r: "list_all (list_all (is_share \<circ> snd) \<circ> snd) (fst c)" "cache_cell idx c key = Inr c'"
    then obtain kind s where s: "level_share (indexed idx key) kind = Inr s" "fst c' = AList.update key s (fst c)"
      by (auto simp: cache_cell_def Let_def split: prod.splits if_splits)
    show "list_all (list_all (is_share \<circ> snd) \<circ> snd) (fst c')"
      unfolding s(2) by (rule update_values [OF r(1) level_share_shares [OF index_rows_ok [OF assms(1,2)] s(1)]])
  qed simp
  then show ?thesis by simp
qed

lemma cached_share_share:
  assumes "list_all (list_all (is_share \<circ> snd) \<circ> snd) cache" "cached_share cache name key = Inr x"
  shows "is_share x"
proof -
  obtain shares where "map_of cache key = Some shares" "map_of shares name = Some x"
    using assms(2) by (auto simp: cached_share_def as_some_def split: option.splits)
  then show ?thesis using map_of_values [OF assms(1)] map_of_values [of is_share shares name] by blast
qed

section \<open>Tables\<close>

lemma measure_unit_share:
  assumes "list_all (list_all (is_share \<circ> snd) \<circ> snd) cache"
    "measure_unit cache idx modes reps scenario mode expected expected_task u = Inr q"
  shows "is_share (fst (um_share q))" "snd (snd (um_share q)) = length reps"
proof -
  obtain xs where xs: "rmap (\<lambda>rep. cached_share cache (unit_name u) (scenario, mode, rep)) reps = Inr xs"
    "mean_sd xs = Inr (um_share q)"
    using assms(2) by (auto simp: measure_unit_def Let_def)
  obtain mean sd n where m: "um_share q = (mean, sd, n)" by (metis prod_cases3)
  have l: "list_all2 (\<lambda>rep x. cached_share cache (unit_name u) (scenario, mode, rep) = Inr x) reps xs"
    using xs(1) by (simp add: rmap_Inr)
  then have "list_all is_share xs"
    by (induction rule: list_all2_induct) (auto intro: cached_share_share [OF assms(1)])
  note mean_sd_share [OF this xs(2) [unfolded m]]
  then show "is_share (fst (um_share q))" "snd (snd (um_share q)) = length reps"
    using list_all2_lengthD [OF l] by (simp_all add: m)
qed

definition wide_key :: "mode_wide \<Rightarrow> string \<times> string \<times> string" where
  "wide_key w = (mw_scenario w, mw_mode w, mw_group w)"

definition wide_sound :: "nat \<Rightarrow> mode_wide \<Rightarrow> bool" where
  "wide_sound n w \<longleftrightarrow> mw_share_n w = n \<and> is_percentage (mw_share_mean_pct w)"

lemma analyze_unit_wide:
  assumes "list_all (list_all (is_share \<circ> snd) \<circ> snd) (mr_shares r)"
    "analyze_unit r scenario mode expected expected_task u = Inr (w, ms)"
  shows "wide_key w = (scenario, mode, unit_name u) \<and> wide_sound (length (mr_reps r)) w"
proof -
  obtain q where q: "measure_unit (mr_shares r) (mr_index r) (mr_modes r) (mr_reps r) scenario mode expected expected_task u = Inr q"
    "w = wide_row scenario mode u q"
    using assms(2) by (auto simp: analyze_unit_def)
  note m = measure_unit_share [OF assms(1) q(1)]
  show ?thesis
    using pct_round_share [OF m(1)] m(2) by (auto simp: q(2) wide_row_def wide_key_def wide_sound_def split: prod.splits)
qed

lemma analyze_mode_wide:
  assumes "list_all (list_all (is_share \<circ> snd) \<circ> snd) (mr_shares r)"
    "analyze_mode r scenario units model model_per_task mode = Inr t"
  shows "map wide_key (mt_wide t) = map (\<lambda>u. (scenario, mode, unit_name u)) units
    \<and> list_all (wide_sound (length (mr_reps r))) (mt_wide t)"
proof -
  obtain e e' us where u: "rmap (analyze_unit r scenario mode e e') units = Inr us" "mt_wide t = map fst us"
    using assms(2) by (auto simp: analyze_mode_def as_some_def split: option.splits)
  have "list_all2 (\<lambda>u y. analyze_unit r scenario mode e e' u = Inr y) units us" using u(1) by (simp add: rmap_Inr)
  then have "map wide_key (map fst us) = map (\<lambda>u. (scenario, mode, unit_name u)) units
    \<and> list_all (wide_sound (length (mr_reps r))) (map fst us)"
  proof (induction rule: list_all2_induct)
    case (Cons u us' y ys)
    then show ?case using analyze_unit_wide [OF assms(1), of scenario mode e e' u "fst y" "snd y"] by simp
  qed simp
  then show ?thesis by (simp add: u(2))
qed

lemma join_tables_wide:
  assumes "list_all2 (\<lambda>x t. map wide_key (mt_wide t) = g x \<and> list_all P (mt_wide t)) xs ts"
  shows "map wide_key (mt_wide (join_tables ts)) = concat (map g xs) \<and> list_all P (mt_wide (join_tables ts))"
  using assms by (induction rule: list_all2_induct) (auto simp: join_tables_def)

definition unit_names :: "string \<Rightarrow> string list" where
  "unit_names scenario = (case scenario_units scenario of Inr units \<Rightarrow> map unit_name units | Inl _ \<Rightarrow> [])"

definition wide_keys :: "string list \<Rightarrow> string list \<Rightarrow> (string \<times> string \<times> string) list" where
  "wide_keys scenarios modes =
     concat (map (\<lambda>s. concat (map (\<lambda>m. map (\<lambda>g. (s, m, g)) (unit_names s)) modes)) scenarios)"

lemma analyze_scenario_wide:
  assumes "list_all (list_all (is_share \<circ> snd) \<circ> snd) (mr_shares r)" "analyze_scenario r scenario = Inr t"
  shows "map wide_key (mt_wide t) = concat (map (\<lambda>m. map (\<lambda>g. (scenario, m, g)) (unit_names scenario)) (mr_modes r))
    \<and> list_all (wide_sound (length (mr_reps r))) (mt_wide t)"
proof -
  obtain units model mpt ts where u: "scenario_units scenario = Inr units"
    "rmap (analyze_mode r scenario units model mpt) (mr_modes r) = Inr ts" "t = join_tables ts"
    using assms(2) by (auto simp: analyze_scenario_def)
  have "list_all2 (\<lambda>m t. map wide_key (mt_wide t) = map (\<lambda>g. (scenario, m, g)) (unit_names scenario)
      \<and> list_all (wide_sound (length (mr_reps r))) (mt_wide t)) (mr_modes r) ts"
    using u(2) [unfolded rmap_Inr]
    by (rule list_all2_mono) (use analyze_mode_wide [OF assms(1)] in \<open>simp add: unit_names_def u(1)\<close>)
  then show ?thesis unfolding u(3) by (rule join_tables_wide)
qed

lemma open_run_fields:
  assumes "open_run rows meta = Inr r" "list_all usage_ok rows"
  shows "text_list meta ''scenarios'' = Inr (mr_scenarios r)" "text_list meta ''modes'' = Inr (mr_modes r)"
    "\<exists>n. meta_int meta ''reps'' = Inr n \<and> mr_reps r = repetitions n"
    "list_all (list_all (is_share \<circ> snd) \<circ> snd) (mr_shares r)"
  using assms(1) cache_shares [OF assms(2)] by (auto simp: open_run_def)

lemma mode_analyze_wide:
  assumes "mode_analyze rows meta = Inr (t, result)" "list_all usage_ok rows"
    "text_list meta ''scenarios'' = Inr scenarios" "text_list meta ''modes'' = Inr modes" "meta_int meta ''reps'' = Inr reps"
  shows "map wide_key (mt_wide t) = wide_keys scenarios modes \<and> list_all (wide_sound (nat reps)) (mt_wide t)"
proof -
  obtain r ts where r: "open_run rows meta = Inr r" "rmap (analyze_scenario r) (mr_scenarios r) = Inr ts" "t = join_tables ts"
    using assms(1) by (auto simp: mode_analyze_def)
  note f = open_run_fields [OF r(1) assms(2)]
  have l: "length (mr_reps r) = nat reps" using f(3) assms(5) by (auto simp: repetitions_def)
  have "list_all2 (\<lambda>s t. map wide_key (mt_wide t) = concat (map (\<lambda>m. map (\<lambda>g. (s, m, g)) (unit_names s)) (mr_modes r))
      \<and> list_all (wide_sound (length (mr_reps r))) (mt_wide t)) (mr_scenarios r) ts"
    using r(2) [unfolded rmap_Inr] by (rule list_all2_mono) (rule analyze_scenario_wide [OF f(4)])
  then have "map wide_key (mt_wide t) = wide_keys (mr_scenarios r) (mr_modes r) \<and> list_all (wide_sound (length (mr_reps r))) (mt_wide t)"
    unfolding r(3) wide_keys_def by (rule join_tables_wide)
  then show ?thesis using f(1,2) assms(3,4) l by simp
qed

section \<open>A complete run\<close>

lemma rany_True: "rany f xs = Inr True \<Longrightarrow> \<exists>x \<in> set xs. f x = Inr True"
  by (induction xs) (auto split: if_splits)

lemma known_scenario_Inr: "known_scenario v = Inr () \<Longrightarrow> \<exists>s \<in> fst ` set MODE_SCENARIOS. v = VStr s"
  by (auto simp: known_scenario_def mode_fail_def list_ex_iff split: if_splits)

lemma known_mode_Inr: "known_mode v = Inr () \<Longrightarrow> \<exists>m \<in> set MODES. v = VStr m"
  by (auto simp: known_mode_def mode_fail_def list_ex_iff split: if_splits)

lemma known_texts:
  assumes "rforeach f vs = Inr ()" "\<And>v. f v = Inr () \<Longrightarrow> \<exists>s \<in> A. v = VStr s"
  shows "\<exists>ss. vs = map VStr ss \<and> set ss \<subseteq> A"
proof -
  have "\<forall>v \<in> set vs. \<exists>s. s \<in> A \<and> v = VStr s" using assms by auto
  then obtain text_of where t: "\<And>v. v \<in> set vs \<Longrightarrow> text_of v \<in> A \<and> v = VStr (text_of v)" by metis
  then have "vs = map VStr (map text_of vs)" by (simp add: map_idI)
  then show ?thesis using t by (intro exI [of _ "map text_of vs"]) auto
qed

lemma texts_of_VStr: "map py_str (map VStr ss) = ss"
  by (simp add: py_str_def comp_def)

definition cell_present :: "pydict list \<Rightarrow> string \<times> string \<times> int \<Rightarrow> bool" where
  "cell_present rows = (\<lambda>(scenario, mode, rep).
     list_ex (\<lambda>row. ditem row ''scenario'' = Inr (VStr scenario) \<and> ditem row ''mode'' = Inr (VStr mode)
       \<and> meta_int row ''rep'' = Inr rep) rows)"

lemma require_cell_Inr:
  assumes "require_cell rows (VStr scenario, VStr mode, rep) = Inr ()"
  shows "cell_present rows (scenario, mode, rep)"
proof -
  have "rany (row_matches (VStr scenario) (VStr mode) rep) rows = Inr True"
    using assms by (auto simp: require_cell_def mode_fail_def split: if_splits)
  then obtain row where "row \<in> set rows" "row_matches (VStr scenario) (VStr mode) rep row = Inr True" using rany_True by blast
  then show ?thesis
    unfolding cell_present_def list_ex_iff prod.case
    by (intro bexI [of _ row]) (auto simp: row_matches_def py_eq_VStr split: if_splits)
qed

lemma mode_cells_VStr:
  "mode_cells (map VStr ss) (map VStr ms) reps = map (\<lambda>(s, m, r). (VStr s, VStr m, r)) (mode_cells ss ms reps)"
  by (simp add: mode_cells_def map_concat comp_def)

lemma mode_validate_Inr:
  assumes "mode_validate rows meta = Inr ()"
  shows "\<exists>scenarios modes reps. text_list meta ''scenarios'' = Inr scenarios \<and> text_list meta ''modes'' = Inr modes
    \<and> meta_int meta ''reps'' = Inr reps \<and> 1 \<le> reps
    \<and> set scenarios \<subseteq> fst ` set MODE_SCENARIOS \<and> set modes \<subseteq> set MODES
    \<and> list_all (cell_present rows) (mode_cells scenarios modes (repetitions reps))"
proof -
  obtain ss ms reps where v: "rbind (ditem meta ''scenarios'') iter_val = Inr ss" "rbind (ditem meta ''modes'') iter_val = Inr ms"
    "rforeach known_scenario ss = Inr ()" "rforeach known_mode ms = Inr ()" "meta_int meta ''reps'' = Inr reps" "1 \<le> reps"
    "rforeach (require_cell rows) (mode_cells ss ms (repetitions reps)) = Inr ()"
    using assms by (auto simp: mode_validate_def mode_fail_def split: if_splits)
  obtain scenarios where s: "ss = map VStr scenarios" "set scenarios \<subseteq> fst ` set MODE_SCENARIOS"
    using known_texts [OF v(3) known_scenario_Inr] by blast
  obtain modes where m: "ms = map VStr modes" "set modes \<subseteq> set MODES"
    using known_texts [OF v(4) known_mode_Inr] by blast
  have "list_all (cell_present rows) (mode_cells scenarios modes (repetitions reps))"
    using v(7) unfolding s(1) m(1) mode_cells_VStr
    by (auto simp: list_all_iff intro: require_cell_Inr)
  moreover have "text_list meta ''scenarios'' = Inr scenarios" "text_list meta ''modes'' = Inr modes"
    using v(1,2) unfolding text_list_def s(1) m(1) by (simp_all only: rbind_simps texts_of_VStr)
  ultimately show ?thesis using v(5,6) s(2) m(2) by blast
qed


section \<open>A sample run\<close>

definition mode_row :: "string \<Rightarrow> int \<Rightarrow> pydict" where
  "mode_row grp usage = [(''scenario'', VStr ''quota''), (''mode'', VStr ''up''), (''group'', VStr grp), (''kind'', VStr ''group''),
     (''rep'', VInt 1), (''usage_usec'', VInt usage), (''elapsed_s'', VFloat (Fin 0)), (''weight'', VInt 100), (''threads'', VInt 2),
     (''cpus'', VInt 2)]"

definition mode_rows :: "pydict list" where
  "mode_rows = [mode_row ''limited'' 0, mode_row ''open'' 1]"

definition mode_meta :: pydict where
  "mode_meta = [(''run_id'', VStr ''r''), (''node'', VStr ''n''), (''kernel'', VStr ''k''), (''cpus'', VInt 2), (''reps'', VInt 1),
     (''modes'', VList [VStr ''up'']), (''scenarios'', VList [VStr ''quota'']), (''rows'', VInt 2), (''duration_s'', VInt 1), (''warmup_s'', VInt 0)]"

definition mode_index :: row_index where
  "mode_index = [((''quota'', ''up'', 1), mode_rows)]"

lemma mode_sample_facts:
  "mode_validate mode_rows mode_meta = Inr ()" "list_all usage_ok mode_rows" "index_rows mode_rows = Inr mode_index"
  "rfilter (text_is ''kind'' ''group'') mode_rows = Inr mode_rows" "usage_total mode_rows = Inr 1"
  by code_simp+

lemma mode_divisions:
  "int_truediv 0 1 = Inr (Fin 0)" "int_truediv 1 1 = Inr (Fin 1)"
  using to_float_small [of 0] to_float_small [of 1] by (simp_all add: int_truediv_def)

definition mode_sample_shares :: "(string \<times> pyfloat) list" where
  "mode_sample_shares = [(''limited'', Fin 0), (''open'', Fin 1)]"

lemma mode_level: "level_share mode_rows ''group'' = Inr mode_sample_shares"
proof -
  have "share_item 1 [] (mode_row ''limited'' 0) = Inr [(''limited'', Fin 0)]"
    "share_item 1 [(''limited'', Fin 0)] (mode_row ''open'' 1) = Inr mode_sample_shares"
    by (simp_all add: share_item_def text_item_def meta_int_def mode_row_def ditem_def py_str_def int_of_val_def mode_divisions mode_sample_shares_def)
  then show ?thesis
    using mode_sample_facts(4,5) by (simp add: level_share_def) (simp add: mode_rows_def)
qed

definition mode_state :: mode_run where
  "mode_state = \<lparr> mr_cpus = 2, mr_reps = [1], mr_scenarios = [''quota''], mr_modes = [''up''], mr_index = mode_index,
     mr_shares = [((''quota'', ''up'', 1), mode_sample_shares)], mr_pods = [] \<rparr>"

lemma mode_open: "open_run mode_rows mode_meta = Inr mode_state"
proof -
  have "meta_int mode_meta ''cpus'' = Inr 2" "meta_int mode_meta ''reps'' = Inr 1" "text_list mode_meta ''scenarios'' = Inr [''quota'']"
    "text_list mode_meta ''modes'' = Inr [''up'']" "mode_cells [''quota''] [''up''] (repetitions 1) = [(''quota'', ''up'', 1)]"
    "repetitions 1 = [1]" "is_nested ''quota'' = Inr False" "indexed mode_index (''quota'', ''up'', 1) = mode_rows"
    by code_simp+
  then show ?thesis using mode_sample_facts(3) mode_level
    by (simp add: open_run_def cache_cell_def Let_def mode_state_def)
qed

lemma mean_sd_single: "is_share x \<Longrightarrow> is_ok (mean_sd [x])"
proof -
  assume "is_share x"
  then obtain a where a: "x = Fin a" "0 \<le> a" "a \<le> 1" by (auto simp: is_share_def)
  then have "fsum [x] = Inr (Fin (fl a))" using to_float_unit [of a] by (simp add: fsum_def)
  moreover have "float_of_int 1 = Inr (Fin 1)" using float_of_int_small [of 1] by simp
  ultimately show ?thesis by (simp add: mean_sd_def fmean_def f_div_def is_ok_def)
qed

lemma mode_unit:
  assumes "x = Fin 0 \<or> x = Fin 1" "map_of mode_sample_shares (unit_name u) = Some x" "unit_threads u = 2" "unit_name u \<in> {''limited'', ''open''}"
    "unit_kind u = ''group''"
  shows "is_ok (analyze_unit mode_state ''quota'' ''up'' None None u)"
proof -
  have c: "cached_share (mr_shares mode_state) (unit_name u) (''quota'', ''up'', 1) = Inr x"
    using assms(2) by (simp add: cached_share_def mode_state_def as_some_def)
  have x: "is_share x" using assms(1) by (auto simp: is_share_def)
  obtain q where q: "mean_sd [x] = Inr q" using mean_sd_single [OF x] by (auto simp: is_ok_conv)
  have "float_of_int 2 = Inr (Fin 2)" using float_of_int_small [of 2] by simp
  moreover have "is_share (to_float 0)" "is_share (to_float (1 / 2))"
    using to_float_unit [of 0] to_float_unit [of "1 / 2"] ieee.rnd_unit_interval [of "1 / 2"] by (simp_all add: is_share_def)
  ultimately obtain y where y: "per_task 2 x = Inr y" "is_share y"
    using assms(1) by (auto simp: per_task_def f_div_def)
  obtain p where p: "mean_sd [y] = Inr p" using mean_sd_single [OF y(2)] by (auto simp: is_ok_conv)
  have "rmap_filter (unit_rate (mr_index mode_state) ''quota'' ''up'' (unit_name u) (unit_kind u)) [1] = Inr []"
  proof -
    have "list_all (\<lambda>name. rmap_filter (unit_rate (mr_index mode_state) ''quota'' ''up'' name ''group'') [1] = Inr []) [''limited'', ''open'']"
      by code_simp
    then show ?thesis using assms(4,5) by auto
  qed
  moreover have "mr_reps mode_state = [1]" "mr_modes mode_state = [''up'']" by (simp_all add: mode_state_def)
  ultimately show ?thesis
    using c q y(1) p assms(3)
    by (simp add: analyze_unit_def measure_unit_def unit_expectation_def Let_def mean_sd_def [of "[]"] is_ok_def)
qed

lemma mode_analysed: "\<exists>t result. mode_analyze mode_rows mode_meta = Inr (t, result)"
proof -
  obtain u v where u: "scenario_units ''quota'' = Inr [u, v]" "unit_name u = ''limited''" "unit_name v = ''open''"
    "unit_threads u = 2" "unit_threads v = 2" "unit_kind u = ''group''" "unit_kind v = ''group''"
  proof -
    have "case scenario_units ''quota'' of Inr [u, v] \<Rightarrow> unit_name u = ''limited'' \<and> unit_name v = ''open''
      \<and> unit_threads u = 2 \<and> unit_threads v = 2 \<and> unit_kind u = ''group'' \<and> unit_kind v = ''group'' | _ \<Rightarrow> False"
      by code_simp
    then show ?thesis using that by (auto split: sum.splits list.splits)
  qed
  have "is_ok (analyze_unit mode_state ''quota'' ''up'' None None u)" "is_ok (analyze_unit mode_state ''quota'' ''up'' None None v)"
    using mode_unit [of "Fin 0" u] mode_unit [of "Fin 1" v] u by (simp_all add: mode_sample_shares_def)
  then obtain a b where ab: "analyze_unit mode_state ''quota'' ''up'' None None u = Inr a"
    "analyze_unit mode_state ''quota'' ''up'' None None v = Inr b" by (auto simp: is_ok_conv)
  have c: "switch_metrics (mr_index mode_state) (mr_reps mode_state) ''quota'' ''up'' = Inr []"
    "throttle_metrics (mr_index mode_state) (mr_reps mode_state) ''quota'' ''up'' = Inr []"
    "model_of (\<lambda>mode. expected_shares ''quota'' mode (mr_cpus mode_state)) (mr_modes mode_state) = Inr [(''up'', None)]"
    "model_of (\<lambda>mode. expected_per_task_shares ''quota'' mode (mr_cpus mode_state)) (mr_modes mode_state) = Inr [(''up'', None)]"
    by code_simp+
  have s: "mr_scenarios mode_state = [''quota'']" "mr_modes mode_state = [''up'']" by (simp_all add: mode_state_def)
  have "is_ok (analyze_scenario mode_state ''quota'')"
    using u(1) c ab s(2) by (simp add: analyze_scenario_def analyze_mode_def as_some_def is_ok_def)
  then obtain t where t: "analyze_scenario mode_state ''quota'' = Inr t" by (auto simp: is_ok_conv)
  have "is_ok (copy_keys [''run_id'', ''node'', ''kernel''] mode_meta)" "is_ok (copy_keys [''reps'', ''duration_s'', ''warmup_s''] mode_meta)"
    by code_simp+
  then obtain f g where "copy_keys [''run_id'', ''node'', ''kernel''] mode_meta = Inr f"
    "copy_keys [''reps'', ''duration_s'', ''warmup_s''] mode_meta = Inr g" by (auto simp: is_ok_conv)
  then show ?thesis using mode_open t s(1) by (simp add: mode_analyze_def mode_result_def)
qed


text \<open>
  The note on the share of a unit without an expectation says that the unit is capped by a quota. The latency
  scenario has no expectation either, and its units have no quota: their shares carry the same note.
\<close>

lemma latency_noted_as_quota:
  assumes "measure_unit cache idx modes reps ''latency'' mode expected expected_task u = Inr q"
  shows "mm_note (hd (unit_metrics ''latency'' mode u q)) = ''quota-capped; no mode expectation''"
proof -
  have "um_expected q = None"
    using assms by (auto simp: measure_unit_def unit_expectation_def as_some_def Let_def split: option.splits)
  then show ?thesis by (simp add: unit_metrics_def metric_record_def Let_def split: prod.splits)
qed

lemma latency_has_no_quota: "case scenario_units ''latency'' of Inr us \<Rightarrow> us \<noteq> [] \<and> list_all (\<lambda>u. unit_cpu_max u = []) us | Inl _ \<Rightarrow> False"
  by code_simp

end
