(* ===== verification/Cpu_Stat.thy ===== *)
theory Cpu_Stat
  imports Py_Text Py_Files
begin

text \<open>
  Snapshots of the cgroup v2 \<open>cpu.stat\<close> file (\<open>linux-sched/experiments/cgroup_stats.py\<close>):
  parsing, the difference of two snapshots and the totals of a pod. Counters are unbounded
  integers, as in the source; the throttled share is a binary64 number.
\<close>

section \<open>Operations\<close>

type_synonym counters = "(string \<times> int) list"

definition REQUIRED :: "string list" where
  "REQUIRED = [''usage_usec'', ''nr_periods'', ''nr_throttled'', ''throttled_usec'']"

definition parse_stat_line :: "counters \<Rightarrow> string \<Rightarrow> counters res" where
  "parse_stat_line values line = (case py_split line of
     [name, txt] \<Rightarrow>
       if name \<notin> set REQUIRED then Inr values
       else as_some (py_int txt) ValueError (''invalid cpu.stat counter: '' @ name) (\<lambda>v.
         require (0 \<le> v) ValueError (''invalid cpu.stat counter: '' @ name) (
         Inr (AList.update name v values)))
   | _ \<Rightarrow> Inr values)"

definition parse_cpu_stat :: "string \<Rightarrow> counters res" where
  "parse_cpu_stat txt =
     rbind (rfold parse_stat_line [] (splitlines txt)) (\<lambda>values.
     rbind (rforeach (\<lambda>name. require (name \<in> set (map fst values)) ValueError
       (''missing required cpu.stat counter: '' @ name) (Inr ())) REQUIRED) (\<lambda>_.
     Inr values))"

definition counter_delta :: "counters \<Rightarrow> counters \<Rightarrow> string \<Rightarrow> (string \<times> int) res" where
  "counter_delta before after name =
     (let missing = ''missing required cpu.stat counter: '' @ name in
      as_some (map_of after name) ValueError missing (\<lambda>a.
      as_some (map_of before name) ValueError missing (\<lambda>b.
      require (0 \<le> a - b) ValueError (''counter regressed: '' @ name) (Inr (name, a - b)))))"

record stat_delta =
  delta_counters :: counters
  throttled_period_ratio :: pyfloat

definition stat_delta_of :: "counters \<Rightarrow> counters \<Rightarrow> stat_delta res" where
  "stat_delta_of before after =
     rbind (rmap (counter_delta before after) REQUIRED) (\<lambda>result.
     as_some (map_of result ''nr_periods'') KeyError ''nr_periods'' (\<lambda>periods.
     as_some (map_of result ''nr_throttled'') KeyError ''nr_throttled'' (\<lambda>throttled.
     require (periods \<noteq> 0) ValueError ''no quota periods observed'' (
     rbind (int_truediv throttled periods) (\<lambda>ratio.
     Inr \<lparr> delta_counters = result, throttled_period_ratio = ratio \<rparr>)))))"

definition read_cpu_stat_file :: "path \<Rightarrow> fs \<Rightarrow> counters res" where
  "read_cpu_stat_file p fs = rbind (read_text fs p) parse_cpu_stat"

text \<open>A container's statistics: parsed counters, or the text of its snapshot.\<close>

datatype stat_item = Counters counters | Snapshot string

definition item_counters :: "stat_item \<Rightarrow> counters res" where
  "item_counters item = (case item of Counters c \<Rightarrow> Inr c | Snapshot t \<Rightarrow> parse_cpu_stat t)"

definition add_counters :: "counters \<Rightarrow> counters \<Rightarrow> counters res" where
  "add_counters result parsed =
     rmap (\<lambda>(name, total). as_some (map_of parsed name) KeyError name (\<lambda>v. Inr (name, total + v))) result"

definition merge_cpu_stats :: "stat_item list \<Rightarrow> counters res" where
  "merge_cpu_stats stats =
     rfold (\<lambda>result item. rbind (item_counters item) (add_counters result))
       (map (\<lambda>name. (name, 0)) REQUIRED) stats"

record pod_stat =
  pod_containers :: "(string \<times> counters) list"
  pod_total :: counters

definition pod_cpu_stat :: "(string \<times> stat_item) list \<Rightarrow> pod_stat res" where
  "pod_cpu_stat container_stats =
     rbind (rfold (\<lambda>containers (name, item). rbind (item_counters item) (\<lambda>c.
       Inr (AList.update name c containers))) [] container_stats) (\<lambda>containers.
     rbind (merge_cpu_stats (map (\<lambda>nc. Counters (snd nc)) containers)) (\<lambda>total.
     Inr \<lparr> pod_containers = containers, pod_total = total \<rparr>))"

text \<open>The command: the line it prints.\<close>

definition stats_main :: "path \<Rightarrow> path \<Rightarrow> bool \<Rightarrow> fs \<Rightarrow> string res" where
  "stats_main before_path after_path json fs =
     rbind (read_cpu_stat_file before_path fs) (\<lambda>before.
     rbind (read_cpu_stat_file after_path fs) (\<lambda>after.
     rbind (stat_delta_of before after) (\<lambda>measured.
     Inr (if json
       then dumps default_style (sort_keys (VDict (map (\<lambda>(name, v). (name, VInt v)) (delta_counters measured)
              @ [(''throttled_period_ratio'', VFloat (throttled_period_ratio measured))])))
       else fmt_fixed 6 (throttled_period_ratio measured)))))"

section \<open>Laws\<close>

definition counter_of :: "counters \<Rightarrow> string \<Rightarrow> int" where
  "counter_of c name = (case map_of c name of Some v \<Rightarrow> v | None \<Rightarrow> 0)"

definition complete_counters :: "counters \<Rightarrow> bool" where
  "complete_counters c \<longleftrightarrow> list_all (\<lambda>name. map_of c name \<noteq> None) REQUIRED"

lemma complete_countersD: "complete_counters c \<Longrightarrow> name \<in> set REQUIRED \<Longrightarrow> map_of c name = Some (counter_of c name)"
  by (auto simp: complete_counters_def list_all_iff counter_of_def)

lemma counter_delta_ok:
  assumes "complete_counters before" "complete_counters after" "name \<in> set REQUIRED"
    "counter_of before name \<le> counter_of after name"
  shows "counter_delta before after name = Inr (name, counter_of after name - counter_of before name)"
  using assms complete_countersD by (simp add: counter_delta_def Let_def)

lemma stat_delta_ok:
  assumes "complete_counters before" "complete_counters after"
    and "\<And>name. name \<in> set REQUIRED \<Longrightarrow> counter_of before name \<le> counter_of after name"
  shows "stat_delta_of before after =
    (let periods = counter_of after ''nr_periods'' - counter_of before ''nr_periods'';
         throttled = counter_of after ''nr_throttled'' - counter_of before ''nr_throttled'' in
     require (periods \<noteq> 0) ValueError ''no quota periods observed'' (
     rbind (int_truediv throttled periods) (\<lambda>ratio.
     Inr \<lparr> delta_counters = map (\<lambda>name. (name, counter_of after name - counter_of before name)) REQUIRED,
           throttled_period_ratio = ratio \<rparr>)))"
proof -
  have "rmap (counter_delta before after) REQUIRED
      = Inr (map (\<lambda>name. (name, counter_of after name - counter_of before name)) REQUIRED)"
    using counter_delta_ok [OF assms(1,2) _ assms(3)] by (intro rmap_total) simp
  then show ?thesis by (simp add: stat_delta_of_def REQUIRED_def Let_def)
qed

lemma add_counters_ok:
  assumes "complete_counters c"
  shows "add_counters (map (\<lambda>name. (name, f name)) REQUIRED) c
    = Inr (map (\<lambda>name. (name, f name + counter_of c name)) REQUIRED)"
  unfolding add_counters_def rmap_map
  by (rule rmap_total) (simp add: complete_countersD [OF assms])

lemma merge_ok:
  assumes "list_all complete_counters cs"
  shows "merge_cpu_stats (map Counters cs)
    = Inr (map (\<lambda>name. (name, sum_list (map (\<lambda>c. counter_of c name) cs))) REQUIRED)"
proof -
  have "rfold (\<lambda>result item. rbind (item_counters item) (add_counters result))
      (map (\<lambda>name. (name, f name)) REQUIRED) (map Counters cs)
    = Inr (map (\<lambda>name. (name, f name + sum_list (map (\<lambda>c. counter_of c name) cs))) REQUIRED)" for f
    using assms
  proof (induction cs arbitrary: f)
    case (Cons c cs)
    then show ?case
      using Cons.IH [of "\<lambda>name. f name + counter_of c name"] add_counters_ok [of c f]
      by (simp add: item_counters_def add.assoc)
  qed simp
  from this [of "\<lambda>_. 0"] show ?thesis by (simp add: merge_cpu_stats_def)
qed

text \<open>A parsed snapshot has every required counter, none of them negative.\<close>

definition nonneg_counters :: "counters \<Rightarrow> bool" where
  "nonneg_counters c \<longleftrightarrow> (\<forall>k v. map_of c k = Some v \<longrightarrow> 0 \<le> v)"

lemma parse_cpu_stat_ok:
  assumes "parse_cpu_stat txt = Inr c"
  shows "complete_counters c" "nonneg_counters c"
proof -
  have r: "rfold parse_stat_line [] (splitlines txt) = Inr c"
    and k: "\<forall>name \<in> set REQUIRED. name \<in> set (map fst c)"
    using assms by (auto simp: parse_cpu_stat_def)
  show "complete_counters c"
    using k by (auto simp: complete_counters_def list_all_iff map_of_eq_None_iff)
  from r show "nonneg_counters c"
  proof (rule rfold_invariant)
    fix s x s' assume "nonneg_counters s" "parse_stat_line s x = Inr s'"
    then show "nonneg_counters s'"
      by (auto simp: parse_stat_line_def nonneg_counters_def update_conv' split: list.splits if_splits)
  qed (simp add: nonneg_counters_def)
qed

text \<open>The text of a snapshot: one line per counter, in any order, with other counters among them.\<close>

definition stat_text :: "(string \<times> nat) list \<Rightarrow> string" where
  "stat_text kvs = concat (map (\<lambda>(name, n). name @ '' '' @ show_nat n @ nl) kvs)"

definition stat_name :: "string \<Rightarrow> bool" where
  "stat_name name \<longleftrightarrow> is_word name \<and> list_all (\<lambda>c. \<not> is_linebreak c) name"

lemma parse_stat_line_text:
  assumes "stat_name name"
  shows "parse_stat_line values (name @ '' '' @ show_nat n)
    = Inr (if name \<in> set REQUIRED then AList.update name (int n) values else values)"
  using assms py_split_two [of name "show_nat n"]
  by (simp add: parse_stat_line_def stat_name_def)

lemma stat_line_no_break:
  assumes "stat_name name"
  shows "list_all (\<lambda>c. \<not> is_linebreak c) (name @ '' '' @ show_nat n)"
proof -
  have "\<not> is_linebreak (CHR '' '')" by (simp add: is_linebreak_def)
  then show ?thesis
    using assms show_nat_digits [of n] digit_not_break by (auto simp: stat_name_def list_all_iff)
qed

lemma update_fresh: "k \<notin> set (map fst d) \<Longrightarrow> AList.update k v d = d @ [(k, v)]"
  by (induction d) auto

lemma rfold_stat_text:
  assumes "list_all (\<lambda>kv. stat_name (fst kv)) kvs" "distinct (map fst values @ map fst kvs)"
  shows "rfold parse_stat_line values (splitlines (stat_text kvs))
    = Inr (values @ map (\<lambda>(name, n). (name, int n)) (filter (\<lambda>kv. fst kv \<in> set REQUIRED) kvs))"
  using assms
proof (induction kvs arbitrary: "values")
  case (Cons kv kvs)
  obtain name n where kv: "kv = (name, n)" by (cases kv)
  then have nm: "stat_name name" using Cons.prems(1) by simp
  have "stat_text (kv # kvs) = (name @ '' '' @ show_nat n) @ nl @ stat_text kvs"
    by (simp add: stat_text_def kv)
  then have "splitlines (stat_text (kv # kvs)) = (name @ '' '' @ show_nat n) # splitlines (stat_text kvs)"
    using splitlines_first [OF stat_line_no_break [OF nm]] by simp
  moreover have "AList.update name (int n) values = values @ [(name, int n)]"
    using Cons.prems(2) kv by (intro update_fresh) auto
  ultimately show ?case
    using Cons.IH [of "values @ [(name, int n)]"] Cons.IH [of "values"] Cons.prems
      parse_stat_line_text [OF nm, of "values" n] kv
    by (auto simp: append_assoc)
qed (simp add: stat_text_def)

lemma pod_containers_fold:
  assumes "distinct (map fst acc @ map fst ncs)"
  shows "rfold (\<lambda>containers (name, item). rbind (item_counters item) (\<lambda>c.
       Inr (AList.update name c containers))) acc (map (\<lambda>(name, c). (name, Counters c)) ncs) = Inr (acc @ ncs)"
  using assms
proof (induction ncs arbitrary: acc)
  case (Cons nc ncs)
  obtain name c where nc: "nc = (name, c)" by (cases nc)
  have "AList.update name c acc = acc @ [(name, c)]"
    using Cons.prems nc by (intro update_fresh) auto
  then show ?case using Cons.IH [of "acc @ [(name, c)]"] Cons.prems nc
    by (simp add: item_counters_def)
qed simp

section \<open>Properties\<close>

text \<open>
  A snapshot is read back exactly. A text of one line per counter, in any order and with any
  other counters among them, is parsed to the four required counters with their values.
\<close>

theorem parse_cpu_stat_text:
  assumes "list_all (\<lambda>kv. stat_name (fst kv)) kvs" "distinct (map fst kvs)"
    "set REQUIRED \<subseteq> set (map fst kvs)"
  shows "parse_cpu_stat (stat_text kvs)
    = Inr (map (\<lambda>(name, n). (name, int n)) (filter (\<lambda>kv. fst kv \<in> set REQUIRED) kvs))"
proof -
  let ?c = "map (\<lambda>(name, n). (name, int n)) (filter (\<lambda>kv. fst kv \<in> set REQUIRED) kvs)"
  have "rfold parse_stat_line [] (splitlines (stat_text kvs)) = Inr ?c"
    using rfold_stat_text [OF assms(1), of "[]"] assms(2) by simp
  moreover have "name \<in> set (map fst ?c)" if "name \<in> set REQUIRED" for name
    using assms(3) that by force
  ultimately show ?thesis by (simp add: parse_cpu_stat_def image_comp comp_def)
qed

theorem parse_cpu_stat_text_witness:
  "parse_cpu_stat (stat_text [(''usage_usec'', 900), (''user_usec'', 700), (''nr_periods'', 10),
      (''nr_throttled'', 4), (''throttled_usec'', 55), (''nr_bursts'', 0)])
    = Inr [(''usage_usec'', 900), (''nr_periods'', 10), (''nr_throttled'', 4), (''throttled_usec'', 55)]"
  by (subst parse_cpu_stat_text)
    (simp_all add: REQUIRED_def stat_name_def is_word_def py_isspace_def is_linebreak_def)

text \<open>
  The throttled share of a window is a share. For two parsed snapshots in which no counter
  regressed, a quota period elapsed and no more periods were throttled than elapsed, the
  difference is computed and its ratio is the correctly rounded quotient, between 0 and 1.
\<close>

theorem stat_delta_ratio:
  assumes "parse_cpu_stat t1 = Inr before" "parse_cpu_stat t2 = Inr after"
    and "list_all (\<lambda>name. counter_of before name \<le> counter_of after name) REQUIRED"
    and "periods = counter_of after ''nr_periods'' - counter_of before ''nr_periods''" "0 < periods"
    and "throttled = counter_of after ''nr_throttled'' - counter_of before ''nr_throttled''"
      "throttled \<le> periods"
  shows "\<exists>d r. stat_delta_of before after = Inr d \<and> throttled_period_ratio d = Fin r
    \<and> r = fl (of_int throttled / of_int periods) \<and> 0 \<le> r \<and> r \<le> 1
    \<and> delta_counters d = map (\<lambda>name. (name, counter_of after name - counter_of before name)) REQUIRED"
proof -
  have t: "0 \<le> throttled" using assms(3,6) by (simp add: REQUIRED_def)
  have "0 \<le> fl (of_int throttled / of_int periods)" "fl (of_int throttled / of_int periods) \<le> 1"
    using ieee.rnd_ratio t assms(5,7) by simp_all
  then show ?thesis
    using stat_delta_ok [of before after] parse_cpu_stat_ok(1) [OF assms(1)]
      parse_cpu_stat_ok(1) [OF assms(2)] assms(3-7) int_truediv_share [OF t assms(7,5)]
    by (simp add: Let_def list_all_iff)
qed

theorem stat_delta_ratio_witness:
  "\<exists>d r. stat_delta_of [(''usage_usec'', 1), (''nr_periods'', 10), (''nr_throttled'', 4), (''throttled_usec'', 5)]
      [(''usage_usec'', 9), (''nr_periods'', 30), (''nr_throttled'', 9), (''throttled_usec'', 5)] = Inr d
    \<and> throttled_period_ratio d = Fin r \<and> 0 \<le> r \<and> r \<le> 1"
proof -
  let ?t1 = "[(''usage_usec'', 1), (''nr_periods'', 10), (''nr_throttled'', 4), (''throttled_usec'', 5)]"
  let ?t2 = "[(''usage_usec'', 9), (''nr_periods'', 30), (''nr_throttled'', 9), (''throttled_usec'', 5)]"
  have p: "parse_cpu_stat (concat (map (\<lambda>(name, n). name @ '' '' @ show_nat n @ nl) ?t1)) = Inr ?t1"
    "parse_cpu_stat (concat (map (\<lambda>(name, n). name @ '' '' @ show_nat n @ nl) ?t2)) = Inr ?t2"
    by code_simp+
  from stat_delta_ratio [OF this, of 20 5] show ?thesis
    by (simp add: REQUIRED_def counter_of_def) blast
qed

text \<open>
  The totals of a pod are the sums over its containers, counter by counter, and the
  containers' own counters are preserved beside them.
\<close>

theorem pod_cpu_stat_totals:
  assumes "distinct (map fst ncs)" "list_all (\<lambda>nc. complete_counters (snd nc)) ncs"
  shows "pod_cpu_stat (map (\<lambda>(name, c). (name, Counters c)) ncs) = Inr
    \<lparr> pod_containers = ncs,
      pod_total = map (\<lambda>name. (name, sum_list (map (\<lambda>nc. counter_of (snd nc) name) ncs))) REQUIRED \<rparr>"
proof -
  have "list_all complete_counters (map snd ncs)" using assms(2) by (simp add: list_all_iff)
  from merge_ok [OF this] show ?thesis
    using pod_containers_fold [of "[]" ncs] assms(1) by (simp add: pod_cpu_stat_def comp_def)
qed

theorem pod_cpu_stat_totals_witness:
  "\<exists>p. pod_cpu_stat [(''web'', Counters [(''usage_usec'', 1), (''nr_periods'', 2), (''nr_throttled'', 0), (''throttled_usec'', 0)]),
      (''db'', Counters [(''usage_usec'', 5), (''nr_periods'', 2), (''nr_throttled'', 1), (''throttled_usec'', 7)])] = Inr p
    \<and> pod_total p = [(''usage_usec'', 6), (''nr_periods'', 4), (''nr_throttled'', 1), (''throttled_usec'', 7)]"
  using pod_cpu_stat_totals [of
      "[(''web'', [(''usage_usec'', 1), (''nr_periods'', 2), (''nr_throttled'', 0), (''throttled_usec'', 0)]),
        (''db'', [(''usage_usec'', 5), (''nr_periods'', 2), (''nr_throttled'', 1), (''throttled_usec'', 7)])]"]
  by (simp add: REQUIRED_def complete_counters_def counter_of_def)

end
