(* ===== verification/Quota.thy ===== *)
theory Quota
  imports Py_Text
begin

text \<open>
  CPU quotas of the scheduler campaign (\<open>linux-sched/experiments\<close>): the next limit of the pilot
  sweep (\<open>quota_calibration.py\<close>), the freeze of the pilot rows into a manifest
  (\<open>freeze_quota.py\<close>), the rendering of a limit into a workload manifest
  (\<open>cpu_limit_policy.py\<close>) and the allow-list of cgroup parents (\<open>cgroup_manifest.py\<close>).
\<close>

section \<open>Calibration\<close>

definition float_text :: "string \<Rightarrow> pyfloat res" where
  "float_text s = as_some (py_float s) ValueError (''could not convert string to float: '' @ repr_str s) Inr"

definition parse_cpu_quantity :: "string \<Rightarrow> pyfloat res" where
  "parse_cpu_quantity value =
     (let txt = strip value in
      if suffix ''m'' txt then float_text (butlast txt)
      else rbind (float_text txt) (\<lambda>x. Inr (f_mul x (Fin 1000))))"

text \<open>\<open>millicpu % 1000 == 0\<close>, and \<open>int(millicpu // 1000)\<close> where that holds.\<close>

definition whole_cores :: "pyfloat \<Rightarrow> int option" where
  "whole_cores x = (case x of
     Fin a \<Rightarrow> if a = 1000 * of_int \<lfloor>a / 1000\<rfloor> then Some \<lfloor>a / 1000\<rfloor> else None | _ \<Rightarrow> None)"

definition format_cpu_quantity :: "pyfloat \<Rightarrow> string res" where
  "format_cpu_quantity millicpu =
     (case (if f_le (Fin 1000) millicpu then whole_cores millicpu else None) of
        Some n \<Rightarrow> Inr (show_int n)
      | None \<Rightarrow> rbind (int_of_float millicpu) (\<lambda>i.
          Inr (if millicpu = Fin (of_int i) then show_int i @ ''m'' else float_repr millicpu @ ''m'')))"

definition DEFAULT_TARGET_THROTTLED_RATIO :: pyfloat where
  "DEFAULT_TARGET_THROTTLED_RATIO = to_float (1 / 10)"

definition float_max :: "pyfloat \<Rightarrow> pyfloat \<Rightarrow> pyfloat" where
  "float_max a b = (if f_lt a b then b else a)"

text \<open>The limit in millicores after one step of the sweep.\<close>

definition adjust_limit :: "pyfloat \<Rightarrow> pyfloat \<Rightarrow> pyfloat \<Rightarrow> pyfloat \<Rightarrow> pyfloat res" where
  "adjust_limit current observed target_ratio step =
     (if f_lt observed target_ratio then Inr (float_max (Fin 1) (f_mul current step))
      else if f_lt (to_float (9 / 10)) observed then f_div current step
      else Inr current)"

definition calibrate_cpu_limit :: "string \<Rightarrow> pyfloat \<Rightarrow> pyfloat \<Rightarrow> pyfloat \<Rightarrow> string res" where
  "calibrate_cpu_limit current_limit observed target_ratio step =
     rbind (parse_cpu_quantity current_limit) (\<lambda>current.
     rbind (adjust_limit current observed target_ratio step) format_cpu_quantity)"

text \<open>The command: exit status, standard output and standard error.\<close>

definition calibration_main ::
  "string \<Rightarrow> pyfloat \<Rightarrow> pyfloat \<Rightarrow> pyfloat \<Rightarrow> string option \<Rightarrow> (nat \<times> string \<times> string) res" where
  "calibration_main current observed target step floor_limit =
     rbind (calibrate_cpu_limit current observed target step) (\<lambda>next_limit.
     case floor_limit of
       None \<Rightarrow> Inr (0, next_limit, [])
     | Some f \<Rightarrow>
         rbind (parse_cpu_quantity next_limit) (\<lambda>n.
         rbind (parse_cpu_quantity f) (\<lambda>low.
         Inr (if f_lt n low
           then (3, [], ''cannot reach the target above the request floor '' @ f)
           else (0, next_limit, [])))))"

section \<open>Freezing the pilot rows\<close>

record calibration =
  cal_workload :: string
  cal_cpu_limit :: string
  cal_ratio :: pyfloat
  cal_healthy :: bool

definition TARGET_THROTTLED_RATIO :: pyfloat where
  "TARGET_THROTTLED_RATIO = to_float (1 / 10)"

definition HEALTHY_MAX_THROTTLED_RATIO :: pyfloat where
  "HEALTHY_MAX_THROTTLED_RATIO = to_float (9 / 10)"

definition SATURATION_WORKLOADS :: "string list" where
  "SATURATION_WORKLOADS = [''stress-ng'']"

definition CONFIRMATORY_WORKLOADS :: "string list" where
  "CONFIRMATORY_WORKLOADS = [''http'', ''ffmpeg'', ''postgres'', ''stress-ng'', ''mixed-http-ffmpeg'']"

definition TRUE_WORDS :: "string list" where
  "TRUE_WORDS = [''1'', ''true'', ''yes'', ''y'']"

definition FALSE_WORDS :: "string list" where
  "FALSE_WORDS = [''0'', ''false'', ''no'', ''n'']"

definition parse_bool :: "string \<Rightarrow> string \<Rightarrow> bool res" where
  "parse_bool value workload =
     (let txt = py_lower (strip value) in
      if txt \<in> set TRUE_WORDS then Inr True
      else if txt \<in> set FALSE_WORDS then Inr False
      else raise ValueError (workload @ '': invalid healthy value: '' @ repr_str value))"

text \<open>One row of the reader's output, a mapping from column to text.\<close>

definition read_calibration :: "(string \<times> string) list \<Rightarrow> calibration res" where
  "read_calibration row =
     as_some (map_of row ''workload'') KeyError ''workload'' (\<lambda>w.
     as_some (map_of row ''cpu_limit'') KeyError ''cpu_limit'' (\<lambda>l.
     as_some (map_of row ''throttled_period_ratio'') KeyError ''throttled_period_ratio'' (\<lambda>r.
     rbind (float_text r) (\<lambda>ratio.
     as_some (map_of row ''healthy'') KeyError ''healthy'' (\<lambda>h.
     rbind (parse_bool h (strip w)) (\<lambda>healthy.
     Inr \<lparr> cal_workload = strip w, cal_cpu_limit = strip l, cal_ratio = ratio, cal_healthy = healthy \<rparr>))))))"

text \<open>The first loop: the error texts and the first row of every workload.\<close>

definition collect_row ::
  "string list \<times> (string \<times> calibration) list \<Rightarrow> calibration \<Rightarrow> string list \<times> (string \<times> calibration) list" where
  "collect_row st row = (case st of (errors, seen) \<Rightarrow>
     if cal_workload row \<in> set (map fst seen)
     then (errors @ [cal_workload row @ '': duplicate calibration row''], seen)
     else (errors, seen @ [(cal_workload row, row)]))"

definition row_max :: "pyfloat \<Rightarrow> string \<Rightarrow> pyfloat" where
  "row_max max_ratio workload = (if workload \<in> set SATURATION_WORKLOADS then Fin 1 else max_ratio)"

definition workload_errors ::
  "pyfloat \<Rightarrow> pyfloat \<Rightarrow> (string \<times> calibration) list \<Rightarrow> string \<Rightarrow> string list" where
  "workload_errors target_ratio max_ratio seen workload = (case map_of seen workload of
     None \<Rightarrow> [workload @ '': no calibration row'']
   | Some row \<Rightarrow>
       (if cal_cpu_limit row = [] then [workload @ '': empty cpu_limit''] else []) @
       (if \<not> cal_healthy row
        then [workload @ '': workload is not healthy under '' @ cal_cpu_limit row] else []) @
       (if f_lt (cal_ratio row) target_ratio
        then [workload @ '': throttled_period_ratio '' @ fmt_fixed 4 (cal_ratio row) @ '' < '' @
              fmt_fixed 2 target_ratio @ ''; tighten the limit and rerun the pilot''] else []) @
       (if f_lt (row_max max_ratio workload) (cal_ratio row)
        then [workload @ '': throttled_period_ratio '' @ fmt_fixed 4 (cal_ratio row) @ '' > '' @
              fmt_fixed 2 (row_max max_ratio workload) @ ''; the workload is over-throttled''] else []))"

definition freeze_errors :: "calibration list \<Rightarrow> pyfloat \<Rightarrow> pyfloat \<Rightarrow> string list" where
  "freeze_errors calibrations target_ratio max_ratio =
     (case foldl collect_row ([], []) calibrations of (errors, seen) \<Rightarrow>
      let unknown = sort (filter (\<lambda>w. w \<notin> set CONFIRMATORY_WORKLOADS) (map fst seen)) in
      errors @ concat (map (workload_errors target_ratio max_ratio seen) CONFIRMATORY_WORKLOADS) @
      (if unknown \<noteq> [] then [''unknown workload(s): '' @ py_repr (VList (map VStr unknown))] else []))"

definition quota_entry :: "(string \<times> calibration) list \<Rightarrow> string \<Rightarrow> pyval res" where
  "quota_entry seen workload =
     as_some (map_of seen workload) KeyError workload (\<lambda>row.
     Inr (VDict [(''workload'', VStr workload), (''cpu_limit'', VStr (cal_cpu_limit row)),
       (''observed_throttled_period_ratio'', VFloat (py_round 6 (cal_ratio row)))]))"

definition freeze :: "calibration list \<Rightarrow> pyfloat \<Rightarrow> pyfloat \<Rightarrow> pydict res" where
  "freeze calibrations target_ratio max_ratio =
     (let errors = freeze_errors calibrations target_ratio max_ratio in
      require (errors = []) ValueError (join ''; '' errors) (
      rbind (rmap (quota_entry (snd (foldl collect_row ([], []) calibrations))) CONFIRMATORY_WORKLOADS) (\<lambda>quotas.
      Inr [(''schema_version'', VInt 1), (''kind'', VStr ''frozen-cpu-quotas''),
           (''target_throttled_period_ratio'', VFloat target_ratio),
           (''maximum_throttled_period_ratio'', VFloat max_ratio),
           (''control_scheduler'', VStr ''eevdf''), (''quotas'', VList quotas)])))"

definition fingerprint :: "pydict \<Rightarrow> string" where
  "fingerprint payload = sha256_hex (dumps compact_style (sort_keys (VDict payload)))"

section \<open>Rendering a limit\<close>

definition DEFAULT_LIMITED_CPU :: string where
  "DEFAULT_LIMITED_CPU = ''500m''"

definition normalize_limit :: "string option \<Rightarrow> string" where
  "normalize_limit cpu_limit = (case cpu_limit of None \<Rightarrow> DEFAULT_LIMITED_CPU | Some l \<Rightarrow> l)"

definition placeholder :: string where
  "placeholder = ''__CPU_LIMIT__''"

definition quote :: string where
  "quote = [CHR 0x22]"

definition limits_block :: string where
  "limits_block = ''        limits:'' @ nl @ ''          cpu: '' @ quote @ placeholder @ quote @ nl"

definition no_limits :: string where
  "no_limits = ''        limits: {}'' @ nl"

text \<open>\<open>s.split(sep, 1)[-1]\<close>.\<close>

definition after_first :: "string \<Rightarrow> string \<Rightarrow> string" where
  "after_first sep s = (case str_find sep s of None \<Rightarrow> s | Some i \<Rightarrow> drop (i + length sep) s)"

definition render_cpu_limit_policy ::
  "string \<Rightarrow> string option \<Rightarrow> string option \<Rightarrow> string option \<Rightarrow> string" where
  "render_cpu_limit_policy manifest policy cpu_limit0 limit =
     (let cpu_limit = normalize_limit (if limit \<noteq> None \<and> cpu_limit0 = None then limit else cpu_limit0) in
      if policy = Some ''unlimited'' \<or> policy = None then replace_all limits_block no_limits manifest
      else let rendered = replace_all placeholder cpu_limit manifest in
        if \<not> str_in ''limits:'' rendered \<or> \<not> str_in ''cpu:'' (take 80 (after_first ''limits:'' rendered))
        then replace_all no_limits
               (''        limits:'' @ nl @ ''          cpu: '' @ cpu_limit @ nl) rendered
        else rendered)"

definition render_manifest ::
  "string \<Rightarrow> string option \<Rightarrow> string option \<Rightarrow> string option \<Rightarrow> string" where
  "render_manifest manifest cpu_limit policy limit =
     render_cpu_limit_policy manifest
       (if policy = None then Some (if cpu_limit \<noteq> None then ''limited'' else ''unlimited'') else policy)
       cpu_limit limit"

definition requests_fixed :: "string \<Rightarrow> bool" where
  "requests_fixed manifest \<longleftrightarrow> str_in ''requests:'' manifest \<and> str_in ''cpu:'' manifest"

section \<open>Cgroup parents\<close>

definition KUBERNETES_WORKLOAD_CGROUP_PARENT :: string where
  "KUBERNETES_WORKLOAD_CGROUP_PARENT = ''/kubepods.slice''"

definition ALLOWED_CGROUP_PARENTS :: "string list" where
  "ALLOWED_CGROUP_PARENTS = [''/kubepods'', ''/kubepods.slice'', ''/sys/fs/cgroup/kubepods'',
     ''/sys/fs/cgroup/kubepods.slice'']"

text \<open>\<open>^/[A-Za-z0-9_./-]+$\<close>, where \<open>$\<close> also matches before a final newline.\<close>

definition path_char :: "char \<Rightarrow> bool" where
  "path_char c \<longleftrightarrow> is_alpha c \<or> is_digit c \<or> c \<in> set ''_./-''"

definition CGROUP_PATH_RE :: "string \<Rightarrow> bool" where
  "CGROUP_PATH_RE s \<longleftrightarrow> prefix ''/'' s \<and>
     (let r = drop 1 s; body = takeWhile path_char r; rest = dropWhile path_char r in
      body \<noteq> [] \<and> (rest = [] \<or> rest = nl))"

definition is_valid_cgroup_path :: "string \<Rightarrow> bool" where
  "is_valid_cgroup_path p \<longleftrightarrow> p \<noteq> [] \<and> ''..'' \<notin> set (split_on (CHR ''/'') p) \<and> CGROUP_PATH_RE p"

definition validate_cgroup_parent :: "string \<Rightarrow> bool" where
  "validate_cgroup_parent p \<longleftrightarrow> is_valid_cgroup_path p \<and> p \<in> set ALLOWED_CGROUP_PARENTS"

text \<open>\<open>env\<close> is the environment variable \<open>LINUX_SCHED_NITOSIS_CGROUP_PARENT\<close>, if set.\<close>

definition resolve_nitosis_cgroup_parent :: "string option \<Rightarrow> string option \<Rightarrow> string res" where
  "resolve_nitosis_cgroup_parent env p =
     (let candidate = (case p of Some q \<Rightarrow> q
            | None \<Rightarrow> (case env of Some q \<Rightarrow> q | None \<Rightarrow> KUBERNETES_WORKLOAD_CGROUP_PARENT)) in
      require (validate_cgroup_parent candidate) ValueError
        (''narrow read-only cgroup manifest access rejected path: '' @ repr_str candidate) (Inr candidate))"

definition read_cgroup_manifest :: "string \<Rightarrow> string res" where
  "read_cgroup_manifest p =
     require (validate_cgroup_parent p) ValueError
       (''read-only cgroup manifest access rejected: '' @ repr_str p) (Inr p)"

section \<open>Laws\<close>

lemma float_text_show_nat: "n < 2 ^ 53 \<Longrightarrow> float_text (show_nat n) = Inr (Fin (of_nat n))"
  by (simp add: float_text_def py_float_show_nat)

lemma not_suffix_m_show_nat: "\<not> suffix ''m'' (show_nat n)"
proof
  assume "suffix ''m'' (show_nat n)"
  then have "CHR ''m'' \<in> set (show_nat n)" by (auto simp: suffix_def)
  then have "is_digit (CHR ''m'')" using show_nat_digits [of n] by (simp add: list_all_iff)
  then show False by (simp add: is_digit_def)
qed

lemma is_word_m: "is_word (show_nat n @ ''m'')"
  using show_nat_word [of n] by (simp add: is_word_def py_isspace_def)

lemma whole_cores_nat:
  "whole_cores (Fin (of_nat n)) = (if 1000 dvd n then Some (int (n div 1000)) else None)"
proof -
  have f: "\<lfloor>(of_nat n :: rat) / 1000\<rfloor> = int (n div 1000)"
    using floor_divide_of_nat_eq [of n 1000, where 'a = rat] by simp
  have "(of_nat n :: rat) = of_nat (1000 * (n div 1000)) \<longleftrightarrow> n = 1000 * (n div 1000)"
    by (rule of_nat_eq_iff)
  then have "(of_nat n :: rat) = 1000 * of_int (int (n div 1000)) \<longleftrightarrow> n = 1000 * (n div 1000)"
    by simp
  also have "\<dots> \<longleftrightarrow> 1000 dvd n" by (metis dvd_mult_div_cancel dvd_triv_left)
  finally show ?thesis by (simp add: whole_cores_def f)
qed

lemma format_cpu_quantity_nat:
  "format_cpu_quantity (Fin (of_nat n))
    = Inr (if 1000 \<le> n \<and> 1000 dvd n then show_nat (n div 1000) else show_nat n @ ''m'')"
proof -
  have "(1000 :: rat) \<le> of_nat n \<longleftrightarrow> 1000 \<le> n" by (metis of_nat_le_iff of_nat_numeral)
  moreover have "int_of_float (Fin (of_nat n)) = Inr (int n)" by (simp add: int_of_float_def)
  ultimately show ?thesis
    by (simp add: format_cpu_quantity_def whole_cores_nat show_int_def)
qed

lemma adjust_limit_tightens:
  assumes "f_lt observed target_ratio" "fl c = c" "1 \<le> c" "c \<le> max_float" "0 \<le> step" "step \<le> 1"
  shows "\<exists>r. adjust_limit (Fin c) observed target_ratio (Fin step) = Inr (Fin r) \<and> 1 \<le> r \<and> r \<le> c"
proof -
  have "c * step \<le> c" using assms(3,6) mult_left_mono [of step 1 c] by simp
  then have le: "fl (c * step) \<le> c" using fl_mono assms(2) by metis
  have "0 \<le> fl (c * step)" using assms(3,5) by (intro fl_nonneg) simp
  then have "to_float (c * step) = Fin (fl (c * step))"
    using le assms(4) by (simp add: to_float_def Let_def)
  then have "adjust_limit (Fin c) observed target_ratio (Fin step)
      = Inr (Fin (if 1 < fl (c * step) then fl (c * step) else 1))"
    using assms(1) by (simp add: adjust_limit_def f_mul_def float_max_def)
  then show ?thesis using le assms(3) by auto
qed

text \<open>The rows that are kept: the first of every workload, none dropped unless it is a duplicate.\<close>

lemma collect_rows:
  assumes "foldl collect_row (errors0, seen0) rows = (errors, seen)" "distinct (map fst seen0)"
  shows "errors = [] \<longleftrightarrow> errors0 = [] \<and> distinct (map fst seen0 @ map cal_workload rows)"
    and "errors = [] \<Longrightarrow> seen = seen0 @ map (\<lambda>r. (cal_workload r, r)) rows"
proof -
  have "(errors = [] \<longleftrightarrow> errors0 = [] \<and> distinct (map fst seen0 @ map cal_workload rows))
    \<and> (errors = [] \<longrightarrow> seen = seen0 @ map (\<lambda>r. (cal_workload r, r)) rows)"
    using assms
  proof (induction rows arbitrary: errors0 seen0)
    case (Cons r rows)
    show ?case
    proof (cases "cal_workload r \<in> set (map fst seen0)")
      case True
      then show ?thesis using Cons.IH Cons.prems by (auto simp: collect_row_def)
    next
      case False
      then show ?thesis
        using Cons.IH [of errors0 "seen0 @ [(cal_workload r, r)]"] Cons.prems
        by (auto simp: collect_row_def)
    qed
  qed simp
  then show "errors = [] \<longleftrightarrow> errors0 = [] \<and> distinct (map fst seen0 @ map cal_workload rows)"
    "errors = [] \<Longrightarrow> seen = seen0 @ map (\<lambda>r. (cal_workload r, r)) rows" by blast+
qed

text \<open>A row the freeze accepts.\<close>

definition row_admissible :: "pyfloat \<Rightarrow> pyfloat \<Rightarrow> calibration \<Rightarrow> bool" where
  "row_admissible target_ratio max_ratio row \<longleftrightarrow> cal_cpu_limit row \<noteq> [] \<and> cal_healthy row
     \<and> \<not> f_lt (cal_ratio row) target_ratio
     \<and> \<not> f_lt (row_max max_ratio (cal_workload row)) (cal_ratio row)"

definition rows_by_workload :: "calibration list \<Rightarrow> (string \<times> calibration) list" where
  "rows_by_workload rows = map (\<lambda>r. (cal_workload r, r)) rows"

lemma map_of_rows:
  "distinct (map cal_workload rows) \<Longrightarrow> r \<in> set rows \<Longrightarrow>
    map_of (rows_by_workload rows) (cal_workload r) = Some r"
  by (rule map_of_is_SomeI) (auto simp: rows_by_workload_def comp_def)

lemma map_of_rows_workload: "map_of (rows_by_workload rows) w = Some r \<Longrightarrow> r \<in> set rows \<and> cal_workload r = w"
  by (auto simp: rows_by_workload_def dest!: map_of_SomeD)

lemma workload_errors_none:
  "workload_errors t m (rows_by_workload rows) w = [] \<longleftrightarrow>
     (\<exists>r. map_of (rows_by_workload rows) w = Some r \<and> row_admissible t m r)"
  by (auto simp: workload_errors_def row_admissible_def split: option.splits dest: map_of_rows_workload)

lemma sort_Nil_iff: "sort xs = [] \<longleftrightarrow> xs = []"
  by (metis length_0_conv length_sort)

lemma freeze_errors_none:
  "freeze_errors rows t m = [] \<longleftrightarrow> distinct (map cal_workload rows)
     \<and> set (map cal_workload rows) = set CONFIRMATORY_WORKLOADS \<and> list_all (row_admissible t m) rows"
proof -
  obtain errors seen where c: "foldl collect_row ([], []) rows = (errors, seen)" by fastforce
  note cr = collect_rows [OF c]
  show ?thesis
  proof (cases "errors = []")
    case False
    then show ?thesis using c cr(1) by (simp add: freeze_errors_def Let_def)
  next
    case True
    then have d: "distinct (map cal_workload rows)" and s: "seen = rows_by_workload rows"
      using cr by (simp_all add: rows_by_workload_def)
    have un: "filter (\<lambda>w. w \<notin> set CONFIRMATORY_WORKLOADS) (map fst seen) = [] \<longleftrightarrow>
        set (map cal_workload rows) \<subseteq> set CONFIRMATORY_WORKLOADS"
      by (auto simp: s rows_by_workload_def filter_empty_conv comp_def)
    have "freeze_errors rows t m = [] \<longleftrightarrow>
        (\<forall>w \<in> set CONFIRMATORY_WORKLOADS. \<exists>r. map_of (rows_by_workload rows) w = Some r \<and> row_admissible t m r)
        \<and> set (map cal_workload rows) \<subseteq> set CONFIRMATORY_WORKLOADS"
      using c True un s by (simp add: freeze_errors_def Let_def sort_Nil_iff workload_errors_none)
    also have "\<dots> \<longleftrightarrow> set (map cal_workload rows) = set CONFIRMATORY_WORKLOADS
        \<and> list_all (row_admissible t m) rows" (is "?l \<longleftrightarrow> ?r")
    proof
      assume l: ?l
      have sub: "set CONFIRMATORY_WORKLOADS \<subseteq> set (map cal_workload rows)"
        using l map_of_rows_workload by fastforce
      have "row_admissible t m r" if r: "r \<in> set rows" for r
      proof -
        have "cal_workload r \<in> set CONFIRMATORY_WORKLOADS" using l r by auto
        then show ?thesis using l map_of_rows [OF d r] by fastforce
      qed
      then show ?r using l sub by (auto simp: list_all_iff)
    next
      assume r: ?r
      have "\<exists>x. map_of (rows_by_workload rows) w = Some x \<and> row_admissible t m x"
        if w: "w \<in> set CONFIRMATORY_WORKLOADS" for w
      proof -
        have "w \<in> set (map cal_workload rows)" using r w by blast
        then obtain x where x: "x \<in> set rows" "cal_workload x = w" by auto
        then show ?thesis using r map_of_rows [OF d x(1)] by (auto simp: list_all_iff)
      qed
      then show ?l using r by blast
    qed
    finally show ?thesis using d by blast
  qed
qed

section \<open>Properties\<close>

definition nan_rows :: "calibration list" where
  "nan_rows = map (\<lambda>w. \<lparr> cal_workload = w, cal_cpu_limit = ''500m'', cal_ratio = NaN,
     cal_healthy = True \<rparr>) CONFIRMATORY_WORKLOADS"

lemma is_ok_freeze: "is_ok (freeze rows t m) \<longleftrightarrow> freeze_errors rows t m = []"
proof
  assume "is_ok (freeze rows t m)"
  then show "freeze_errors rows t m = []" by (auto simp: freeze_def Let_def is_ok_conv)
next
  assume e: "freeze_errors rows t m = []"
  obtain errors seen where c: "foldl collect_row ([], []) rows = (errors, seen)" by fastforce
  then have s: "errors = [] \<and> seen = rows_by_workload rows"
    using e collect_rows(2) [OF c] by (simp add: freeze_errors_def Let_def rows_by_workload_def)
  have d: "distinct (map cal_workload rows)"
    and k: "set (map cal_workload rows) = set CONFIRMATORY_WORKLOADS"
    using e by (simp_all add: freeze_errors_none)
  have "errs (\<lambda>_. False) (quota_entry (rows_by_workload rows) w)" if w: "w \<in> set CONFIRMATORY_WORKLOADS" for w
  proof -
    have "w \<in> set (map cal_workload rows)" using k w by blast
    then obtain r where r: "r \<in> set rows" "cal_workload r = w" by auto
    then show ?thesis using map_of_rows [OF d r(1)] by (simp add: quota_entry_def)
  qed
  then have "errs (\<lambda>_. False) (rmap (quota_entry seen) CONFIRMATORY_WORKLOADS)"
    using s by (intro errs_rmap) simp
  then obtain qs where "rmap (quota_entry seen) CONFIRMATORY_WORKLOADS = Inr qs"
    by (cases "rmap (quota_entry seen) CONFIRMATORY_WORKLOADS") simp_all
  then show "is_ok (freeze rows t m)" using e c by (simp add: freeze_def Let_def)
qed


text \<open>
  A share that is not a number passes both bounds: a manifest is frozen from rows whose
  throttled share is NaN, which \<open>float\<close> reads from the word \<open>nan\<close>.
\<close>

theorem freeze_accepts_nan:
  "py_float ''nan'' = Some NaN
    \<and> is_ok (freeze nan_rows TARGET_THROTTLED_RATIO HEALTHY_MAX_THROTTLED_RATIO)"
proof
  show "py_float ''nan'' = Some NaN" by code_simp
  have "f_lt NaN x = False" "f_lt x NaN = False" for x by (cases x; simp)+
  then show "is_ok (freeze nan_rows TARGET_THROTTLED_RATIO HEALTHY_MAX_THROTTLED_RATIO)"
    unfolding is_ok_freeze freeze_errors_none
    by (simp add: nan_rows_def CONFIRMATORY_WORKLOADS_def row_admissible_def)
qed

text \<open>
  A CPU quantity that is printed is read back: every number of millicores below \<open>2 ^ 53\<close>,
  printed as whole cores where it is a multiple of 1000 and as millicores otherwise, is parsed
  to the same number.
\<close>

theorem cpu_quantity_round_trip:
  assumes "n < 2 ^ 53"
  shows "rbind (format_cpu_quantity (Fin (of_nat n))) parse_cpu_quantity = Inr (Fin (of_nat n))"
proof (cases "1000 \<le> n \<and> 1000 dvd n")
  case True
  have small: "n div 1000 < 2 ^ 53" using assms by (meson div_le_dividend le_less_trans)
  have "(of_nat (n div 1000) * 1000 :: rat) = of_nat (n div 1000 * 1000)" by simp
  also have "n div 1000 * 1000 = n" using True by simp
  finally have e: "(of_nat (n div 1000) * 1000 :: rat) = of_nat n" .
  have "\<bar>int n\<bar> < 2 ^ 53" using assms by (simp flip: of_nat_less_iff)
  then have "to_float (of_nat n) = Fin (of_nat n)"
    using float_of_int_small [of "int n"] by (simp add: float_of_int_def split: pyfloat.splits)
  then have "f_mul (Fin (of_nat (n div 1000))) (Fin 1000) = Fin (of_nat n)"
    using e by (simp add: f_mul_def)
  then show ?thesis
    using True small not_suffix_m_show_nat [of "n div 1000"]
    by (simp add: format_cpu_quantity_nat parse_cpu_quantity_def Let_def float_text_show_nat)
next
  case False
  have "suffix ''m'' (show_nat n @ ''m'')" by (rule suffixI) simp
  then have "parse_cpu_quantity (show_nat n @ ''m'') = float_text (show_nat n)"
    using strip_word [OF is_word_m [of n]] by (simp add: parse_cpu_quantity_def Let_def butlast_append)
  then show ?thesis
    using False assms float_text_show_nat [of n] by (simp only: format_cpu_quantity_nat if_False rbind_simps)
qed

theorem cpu_quantity_round_trip_witness:
  "rbind (format_cpu_quantity (Fin (of_nat 2000))) parse_cpu_quantity = Inr (Fin (of_nat 2000))
    \<and> rbind (format_cpu_quantity (Fin (of_nat 750))) parse_cpu_quantity = Inr (Fin (of_nat 750))"
  by (intro conjI; rule cpu_quantity_round_trip) simp_all

text \<open>
  The pilot sweep never loosens a quota it means to tighten and never goes below one
  millicore: while the observed share is below the target, a limit of at least \<open>1m\<close> and a step
  between 0 and 1 give a limit between \<open>1m\<close> and the current one.
\<close>

theorem calibration_tightens:
  assumes "parse_cpu_quantity current_limit = Inr (Fin c)" "f_lt observed target_ratio"
    "fl c = c" "1 \<le> c" "c \<le> max_float" "0 \<le> step" "step \<le> 1"
  shows "\<exists>r. calibrate_cpu_limit current_limit observed target_ratio (Fin step)
      = format_cpu_quantity (Fin r) \<and> 1 \<le> r \<and> r \<le> c"
  using adjust_limit_tightens [OF assms(2-7)] assms(1)
  by (auto simp: calibrate_cpu_limit_def)

theorem calibration_tightens_witness:
  "\<exists>r. calibrate_cpu_limit ''750m'' (Fin 0) (Fin (1 / 2)) (Fin (1 / 2)) = format_cpu_quantity (Fin r)
    \<and> 1 \<le> r \<and> r \<le> 750"
proof (rule calibration_tightens)
  have "suffix ''m'' ''750m''" by (simp add: suffix_def)
  moreover have "show_nat 750 = ''750''" by code_simp
  ultimately show "parse_cpu_quantity ''750m'' = Inr (Fin 750)"
    using float_text_show_nat [of 750] strip_word [of "''750m''"]
    by (simp add: parse_cpu_quantity_def Let_def is_word_def py_isspace_def)
  show "fl 750 = 750" using fl_of_int [of 750] by simp
  show "750 \<le> max_float" unfolding max_float_def by simp
qed simp_all

text \<open>
  A rendered manifest has no placeholder left. Under the limited policy, a limit that shares
  no character with the placeholder (digits and a lower-case unit) replaces every occurrence.
\<close>

theorem render_clears_placeholder:
  assumes "policy = Some ''limited''" "normalize_limit cpu_limit \<noteq> []"
    "set placeholder \<inter> set (normalize_limit cpu_limit) = {}"
  shows "\<not> str_in placeholder (render_cpu_limit_policy manifest policy cpu_limit None)"
proof -
  let ?l = "normalize_limit cpu_limit"
  let ?new = "''        limits:'' @ nl @ ''          cpu: '' @ ?l @ nl"
  have c: "\<not> str_in placeholder (replace_all placeholder ?l manifest)"
    using assms(2,3) by (intro replace_all_clears) (simp_all add: placeholder_def)
  have "set placeholder \<inter> set ?new = {}"
    using assms(3) by (auto simp: placeholder_def nl_def)
  then have "\<not> str_in placeholder (replace_all no_limits ?new (replace_all placeholder ?l manifest))"
    using c str_in_replace_all [of ?new placeholder no_limits] by (auto simp: placeholder_def)
  then show ?thesis using c assms(1) by (simp add: render_cpu_limit_policy_def Let_def)
qed

theorem render_clears_placeholder_witness:
  "\<not> str_in placeholder (render_cpu_limit_policy limits_block (Some ''limited'') (Some ''750m'') None)"
  by (rule render_clears_placeholder) (simp_all add: normalize_limit_def placeholder_def)

text \<open>
  The scheduler is only ever handed an allow-listed cgroup parent, and every allow-listed
  parent is accepted: without an argument and without the environment variable it is the
  Kubernetes workload cgroup.
\<close>

theorem resolve_cgroup_parent_exact:
  "(resolve_nitosis_cgroup_parent env (Some p) = Inr q \<longleftrightarrow> q = p \<and> p \<in> set ALLOWED_CGROUP_PARENTS)
    \<and> resolve_nitosis_cgroup_parent None None = Inr KUBERNETES_WORKLOAD_CGROUP_PARENT"
proof -
  have all: "list_all validate_cgroup_parent ALLOWED_CGROUP_PARENTS" by code_simp
  then have v: "validate_cgroup_parent x \<longleftrightarrow> x \<in> set ALLOWED_CGROUP_PARENTS" for x
    by (auto simp: validate_cgroup_parent_def list_all_iff)
  have "KUBERNETES_WORKLOAD_CGROUP_PARENT \<in> set ALLOWED_CGROUP_PARENTS" by code_simp
  then show ?thesis by (auto simp: resolve_nitosis_cgroup_parent_def Let_def v)
qed

end
