(* ===== verification/Prune_Data.thy ===== *)
theory Prune_Data
  imports Py_Files "HOL-Library.Product_Lexorder"
begin

text \<open>
  The retention policy of the measurement data (\<open>linux-sched/analysis/prune_data.py\<close>): which files
  of which blocks may go, the report, and the removal. \<open>rglob\<close> lists the files in the order of the
  store; wherever the order matters the code sorts.
\<close>

section \<open>The plan\<close>

definition bulk_patterns :: "(string \<Rightarrow> bool) list" where
  "bulk_patterns = [prefix ''perf.data'', \<lambda>n. n = ''sched-trace.csv.gz'', prefix ''sched-trace.txt'']"

definition NEVER_REMOVE :: "string list" where
  "NEVER_REMOVE = [''blocks.csv'', ''analysis'']"

text \<open>\<open>[p for p in directory.iterdir() if p.is_dir()]\<close> and \<open>directory.glob("block-*")\<close>.\<close>

definition child_dirs :: "fs \<Rightarrow> path \<Rightarrow> path list" where
  "child_dirs fs d = filter (is_dir fs) (map (\<lambda>n. d @ [n]) (child_names fs d))"

definition block_dirs :: "fs \<Rightarrow> path \<Rightarrow> path list" where
  "block_dirs fs d = filter (\<lambda>p. prefix ''block-'' (path_name p)) (child_dirs fs d)"

definition has_blocks :: "fs \<Rightarrow> path \<Rightarrow> bool" where
  "has_blocks fs d = (block_dirs fs d \<noteq> [])"

definition scenario_dirs :: "path \<Rightarrow> fs \<Rightarrow> path list" where
  "scenario_dirs data_root fs = concat (map (\<lambda>child.
     if path_name child \<in> set NEVER_REMOVE then []
     else if has_blocks fs child then [child]
     else filter (\<lambda>g. path_name g \<notin> set NEVER_REMOVE \<and> has_blocks fs g) (sort (child_dirs fs child)))
     (sort (child_dirs fs data_root)))"

definition block_sort_key :: "path \<Rightarrow> int \<times> string" where
  "block_sort_key p =
     (let suffix = (if prefix ''block-'' (path_name p) then drop 6 (path_name p) else path_name p) in
      case py_int suffix of Some i \<Rightarrow> (i, path_name p) | None \<Rightarrow> (10 ^ 9, path_name p))"

text \<open>\<open>[p for p in directory.rglob("*") if p.is_file()]\<close>.\<close>

definition files_below :: "fs \<Rightarrow> path \<Rightarrow> path list" where
  "files_below fs d = filter (\<lambda>p. strict_prefix d p \<and> is_file fs p) (remdups (map fst fs))"

definition bulk_files :: "fs \<Rightarrow> path \<Rightarrow> path list" where
  "bulk_files fs block_dir =
     concat (map (\<lambda>pattern. sort (filter (\<lambda>p. pattern (path_name p)) (files_below fs block_dir))) bulk_patterns)"

definition file_size :: "fs \<Rightarrow> path \<Rightarrow> nat" where
  "file_size fs p = (case lookup fs p of Some (File c) \<Rightarrow> length c | _ \<Rightarrow> 0)"

record pruning =
  removable :: "path list"
  removable_bytes :: nat
  kept_bytes :: nat

definition prune_file :: "fs \<Rightarrow> path list \<Rightarrow> pruning \<Rightarrow> path \<Rightarrow> pruning" where
  "prune_file fs remove_here st p =
     (if p \<in> set remove_here
      then st\<lparr>removable := removable st @ [p], removable_bytes := removable_bytes st + file_size fs p\<rparr>
      else st\<lparr>kept_bytes := kept_bytes st + file_size fs p\<rparr>)"

definition prune_block :: "fs \<Rightarrow> path list \<Rightarrow> pruning \<Rightarrow> path \<Rightarrow> pruning" where
  "prune_block fs keep st block_dir =
     (let candidates = (if block_dir \<notin> set keep then bulk_files fs block_dir else []) in
      foldl (prune_file fs candidates) st (files_below fs block_dir))"

definition kept_blocks :: "int \<Rightarrow> path list \<Rightarrow> path list" where
  "kept_blocks keep_blocks blocks =
     (if 0 < keep_blocks then drop (length blocks - nat keep_blocks) blocks else [])"

definition prune_scenario :: "fs \<Rightarrow> int \<Rightarrow> pruning \<Rightarrow> path \<Rightarrow> pruning" where
  "prune_scenario fs keep_blocks st scenario_dir =
     (let blocks = sort_key block_sort_key (block_dirs fs scenario_dir) in
      foldl (prune_block fs (kept_blocks keep_blocks blocks)) st blocks)"

definition plan_pruning :: "path \<Rightarrow> int \<Rightarrow> fs \<Rightarrow> (pruning \<times> path list) res" where
  "plan_pruning data_root keep_blocks fs =
     require (is_dir fs data_root) FileNotFoundError (''no data root at '' @ path_text data_root) (
     let scenarios = scenario_dirs data_root fs in
     Inr (foldl (prune_scenario fs keep_blocks)
       \<lparr> removable = [], removable_bytes = 0, kept_bytes = 0 \<rparr> scenarios, scenarios))"

section \<open>The command\<close>

fun human_loop :: "pyfloat \<Rightarrow> string list \<Rightarrow> string res" where
  "human_loop v [] = Inr (fmt_fixed 1 v @ '' TiB'')"
| "human_loop v (u # us) =
     (if f_lt v (Fin 1024) \<or> u = ''TiB'' then Inr (fmt_fixed 1 v @ '' '' @ u)
      else rbind (f_div v (Fin 1024)) (\<lambda>v'. human_loop v' us))"

definition human :: "nat \<Rightarrow> string res" where
  "human n = rbind (float_of_int (int n)) (\<lambda>v. human_loop v [''B'', ''KiB'', ''MiB'', ''GiB'', ''TiB''])"

text \<open>\<open>path.unlink()\<close> of a file that may be gone: whether it was removed.\<close>

definition remove_one :: "path \<Rightarrow> bool io" where
  "remove_one p fs =
     (if path_exists fs p then (case unlink p fs of Inr fs' \<Rightarrow> (Inr True, fs') | Inl e \<Rightarrow> (Inl e, fs))
      else if list_ex (is_file fs) (prefixes (butlast p))
      then (raise NotADirectoryError (join ''/'' p), fs) else (Inr False, fs))"

fun remove_all :: "path list \<Rightarrow> nat \<Rightarrow> nat io" where
  "remove_all [] n = io_return n"
| "remove_all (p # ps) n = io_bind (remove_one p) (\<lambda>removed. remove_all ps (if removed then n + 1 else n))"

definition prune_main :: "path \<Rightarrow> int \<Rightarrow> bool \<Rightarrow> string list io" where
  "prune_main data_root keep_blocks apply_it =
     io_bind (io_read (plan_pruning data_root keep_blocks)) (\<lambda>(plan, scenarios).
     io_bind (io_lift (human (removable_bytes plan + kept_bytes plan))) (\<lambda>total.
     io_bind (io_lift (human (kept_bytes plan))) (\<lambda>kept.
     io_bind (io_lift (human (removable_bytes plan))) (\<lambda>gone.
     let report = [''data root: '' @ path_text data_root,
           ''  scenarios walked '' @ show_nat (length scenarios), ''  total            '' @ total,
           ''  retained in blocks '' @ kept,
           ''  prunable (bulk)  '' @ gone @ '' in '' @ show_nat (length (removable plan)) @ '' file(s)'']
         @ (if scenarios = [] then [''warning: no block directories found; the layout is <root>/<phase>/''
              @ ''<scenario>/block-NN (or <root>/<scenario>/block-NN)''] else []) in
     if \<not> apply_it
     then io_return (report @ [''report only; pass --apply to remove the prunable files''])
     else io_bind (remove_all (removable plan) 0) (\<lambda>removed.
       io_return (report @ [''removed '' @ show_nat removed @ '' file(s), freeing about '' @ gone]))))))"

section \<open>What may go\<close>

definition bulk_name :: "string \<Rightarrow> bool" where
  "bulk_name n \<longleftrightarrow> prefix ''perf.data'' n \<or> n = ''sched-trace.csv.gz'' \<or> prefix ''sched-trace.txt'' n"

definition newest_blocks :: "fs \<Rightarrow> int \<Rightarrow> path \<Rightarrow> path list" where
  "newest_blocks fs k s = kept_blocks k (sort_key block_sort_key (block_dirs fs s))"

definition prunable :: "path \<Rightarrow> int \<Rightarrow> fs \<Rightarrow> path \<Rightarrow> bool" where
  "prunable r k fs p \<longleftrightarrow> is_file fs p \<and> bulk_name (path_name p) \<and>
     (\<exists>s \<in> set (scenario_dirs r fs). \<exists>b \<in> set (block_dirs fs s). b \<notin> set (newest_blocks fs k s) \<and> strict_prefix b p)"

lemma files_below_iff: "p \<in> set (files_below fs d) \<longleftrightarrow> strict_prefix d p \<and> is_file fs p"
proof -
  have "p \<in> fst ` set fs" if "strict_prefix d p" "is_file fs p"
    using that map_of_eq_None_iff [of fs p] by (auto simp: is_file_iff lookup_def split: if_splits)
  then show ?thesis by (auto simp: files_below_def)
qed

lemma bulk_files_iff: "p \<in> set (bulk_files fs b) \<longleftrightarrow> strict_prefix b p \<and> is_file fs p \<and> bulk_name (path_name p)"
  by (auto simp: bulk_files_def bulk_patterns_def files_below_iff bulk_name_def)

lemma fold_files: "set (removable (foldl (prune_file fs c) st ps)) = set (removable st) \<union> (set ps \<inter> set c)"
  by (induction ps arbitrary: st) (auto simp: prune_file_def)

lemma fold_blocks:
  "p \<in> set (removable (foldl (prune_block fs keep) st bs)) \<longleftrightarrow> p \<in> set (removable st)
     \<or> (\<exists>b \<in> set bs. b \<notin> set keep \<and> strict_prefix b p \<and> is_file fs p \<and> bulk_name (path_name p))"
proof (induction bs arbitrary: st)
  case (Cons b bs)
  have "p \<in> set (removable (prune_block fs keep st b)) \<longleftrightarrow> p \<in> set (removable st)
      \<or> b \<notin> set keep \<and> strict_prefix b p \<and> is_file fs p \<and> bulk_name (path_name p)"
    by (auto simp: prune_block_def fold_files files_below_iff bulk_files_iff)
  then show ?case using Cons by auto
qed simp

lemma fold_scenarios:
  "p \<in> set (removable (foldl (prune_scenario fs k) st ss)) \<longleftrightarrow> p \<in> set (removable st)
     \<or> (\<exists>s \<in> set ss. \<exists>b \<in> set (block_dirs fs s). b \<notin> set (newest_blocks fs k s) \<and> strict_prefix b p
          \<and> is_file fs p \<and> bulk_name (path_name p))"
proof (induction ss arbitrary: st)
  case (Cons s ss)
  have "p \<in> set (removable (prune_scenario fs k st s)) \<longleftrightarrow> p \<in> set (removable st)
      \<or> (\<exists>b \<in> set (block_dirs fs s). b \<notin> set (newest_blocks fs k s) \<and> strict_prefix b p
          \<and> is_file fs p \<and> bulk_name (path_name p))"
    by (simp add: prune_scenario_def fold_blocks newest_blocks_def Let_def)
  then show ?case using Cons by auto
qed simp

lemma plan_removable:
  assumes "plan_pruning r k fs = Inr (plan, scenarios)"
  shows "p \<in> set (removable plan) \<longleftrightarrow> prunable r k fs p" "scenarios = scenario_dirs r fs"
proof -
  have plan: "plan = foldl (prune_scenario fs k)
      \<lparr> removable = [], removable_bytes = 0, kept_bytes = 0 \<rparr> (scenario_dirs r fs)"
    and "scenarios = scenario_dirs r fs"
    using assms by (auto simp: plan_pruning_def Let_def)
  then show "scenarios = scenario_dirs r fs" by blast
  show "p \<in> set (removable plan) \<longleftrightarrow> prunable r k fs p"
    unfolding plan fold_scenarios prunable_def by auto
qed

lemma remove_one_ok:
  assumes "remove_one p fs = (Inr b, fs')"
  shows "lookup fs' q = (if q = p then None else lookup fs q)"
proof (cases "path_exists fs p")
  case True
  then have "unlink p fs = Inr fs'" using assms by (auto simp: remove_one_def split: sum.splits)
  then show ?thesis by (rule unlink_ok)
next
  case False
  then show ?thesis using assms by (auto simp: remove_one_def path_exists_def split: if_splits)
qed

lemma remove_all_ok:
  "remove_all ps n fs = (Inr m, fs') \<Longrightarrow> lookup fs' q = (if q \<in> set ps then None else lookup fs q)"
proof (induction ps arbitrary: n fs)
  case (Cons p ps)
  then obtain b fs1 where s: "remove_one p fs = (Inr b, fs1)" "remove_all ps (if b then n + 1 else n) fs1 = (Inr m, fs')"
    by (auto simp: io_bind_def split: prod.splits sum.splits)
  then show ?case using Cons.IH [OF s(2)] remove_one_ok [OF s(1)] by auto
qed (simp add: io_return_def)

text \<open>A file is removed, and one that is gone under existing directories is passed over.\<close>

definition removable_in :: "fs \<Rightarrow> path \<Rightarrow> bool" where
  "removable_in fs p \<longleftrightarrow> \<not> is_dir fs p \<and> (\<forall>q. strict_prefix q p \<longrightarrow> \<not> is_file fs q)"

lemma file_removable: "wf_fs fs \<Longrightarrow> is_file fs p \<Longrightarrow> removable_in fs p"
  using wf_prefix_dir [of fs p] by (auto simp: removable_in_def is_dir_def is_file_def split: option.splits)

lemma remove_one_total: "removable_in fs p \<Longrightarrow> \<exists>b fs'. remove_one p fs = (Inr b, fs')"
proof -
  assume r: "removable_in fs p"
  then have "p \<noteq> []" by (auto simp: removable_in_def)
  then have "\<not> list_ex (is_file fs) (prefixes (butlast p))"
    using r by (auto simp: removable_in_def list_ex_iff) (metis append_butlast_last_id prefix_snoc strict_prefixI' prefix_order.dual_order.strict_trans1 strict_prefix_def)
  then show ?thesis using r
    by (auto simp: remove_one_def unlink_def removable_in_def is_dir_def path_exists_def split: option.splits node.splits)
qed

lemma remove_all_total:
  "\<forall>p \<in> set ps. removable_in fs p \<Longrightarrow> \<exists>m fs'. remove_all ps n fs = (Inr m, fs')"
proof (induction ps arbitrary: n fs)
  case (Cons p ps)
  then obtain b fs1 where s: "remove_one p fs = (Inr b, fs1)" using remove_one_total by force
  have "\<forall>q \<in> set ps. removable_in fs1 q"
    using Cons.prems remove_one_ok [OF s] by (auto simp: removable_in_def is_dir_def is_file_def split: if_splits)
  from Cons.IH [OF this] show ?case using s by (auto simp: io_bind_def)
qed (simp add: io_return_def)

text \<open>The report never fails on sizes a float represents exactly.\<close>

lemma human_loop_total: "\<exists>t. human_loop v us = Inr t"
proof (induction us arbitrary: v)
  case (Cons u us)
  obtain w where "f_div v (Fin 1024) = Inr w" by (cases v) (auto simp: f_div_def)
  then show ?case using Cons [of w] by simp
qed simp

lemma human_total: "n < 2 ^ 53 \<Longrightarrow> \<exists>t. human n = Inr t"
  using float_of_int_small [of "int n"] human_loop_total by (simp add: human_def del: human_loop.simps)

lemma prune_main_returns:
  assumes "wf_fs fs" "plan_pruning r k fs = Inr (plan, scenarios)" "removable_bytes plan + kept_bytes plan < 2 ^ 53"
  shows "\<exists>out fs'. prune_main r k apply_it fs = (Inr out, fs')"
proof -
  obtain t1 t2 t3 where t: "human (removable_bytes plan + kept_bytes plan) = Inr t1"
    "human (kept_bytes plan) = Inr t2" "human (removable_bytes plan) = Inr t3"
    using assms(3) human_total by (metis add_lessD1 add.commute)
  have "\<forall>p \<in> set (removable plan). removable_in fs p"
    using file_removable [OF assms(1)] plan_removable(1) [OF assms(2)] by (auto simp: prunable_def)
  then obtain m fs' where "remove_all (removable plan) 0 fs = (Inr m, fs')" using remove_all_total by blast
  then show ?thesis
    using t assms(2) by (auto simp: prune_main_def io_bind_def io_read_def io_lift_def io_return_def Let_def)
qed

text \<open>Scenarios lie one or two levels below the root, and never inside one another.\<close>

lemma scenario_shape:
  assumes "s \<in> set (scenario_dirs r fs)"
  shows "has_blocks fs s \<and> ((\<exists>c. s = r @ [c]) \<or> (\<exists>c g. s = r @ [c, g] \<and> \<not> has_blocks fs (r @ [c])))"
  using assms by (auto simp: scenario_dirs_def child_dirs_def split: if_splits)

lemma block_shape: "b \<in> set (block_dirs fs s) \<Longrightarrow> \<exists>n. b = s @ [n]"
  by (auto simp: block_dirs_def child_dirs_def)

lemma newest_subset: "set (newest_blocks fs k s) \<subseteq> set (block_dirs fs s)"
  by (auto simp: newest_blocks_def kept_blocks_def dest: in_set_dropD)

lemma blocks_apart:
  assumes "s \<in> set (scenario_dirs r fs)" "b \<in> set (block_dirs fs s)"
    and "s' \<in> set (scenario_dirs r fs)" "b' \<in> set (block_dirs fs s')"
    and "prefix b p" "prefix b' p"
  shows "s = s' \<and> b = b'"
proof -
  obtain n n' where n: "b = s @ [n]" "b' = s' @ [n']" using assms(2,4) block_shape by blast
  note h = scenario_shape [OF assms(1)] scenario_shape [OF assms(3)]
  have "prefix b b' \<or> prefix b' b" using assms(5,6) by (meson prefix_same_cases)
  then show ?thesis using h n by auto
qed

lemma newest_not_prunable:
  assumes "s \<in> set (scenario_dirs r fs)" "b \<in> set (newest_blocks fs k s)" "prefix b p"
  shows "\<not> prunable r k fs p"
proof
  assume "prunable r k fs p"
  then obtain s' b' where s': "s' \<in> set (scenario_dirs r fs)" "b' \<in> set (block_dirs fs s')"
    "b' \<notin> set (newest_blocks fs k s')" "strict_prefix b' p" by (auto simp: prunable_def)
  have "b \<in> set (block_dirs fs s)" using assms(2) newest_subset by blast
  from blocks_apart [OF assms(1) this s'(1,2) assms(3)] have "s = s' \<and> b = b'" using s'(4) by auto
  then show False using s'(3) assms(2) by blast
qed

section \<open>Properties\<close>

text \<open>
  C32: the retention policy removes exactly the bulk evidence of old blocks. On a well-formed tree
  with a data root the command returns; without \<open>--apply\<close> nothing has changed, and with it a path is
  gone exactly if it was a raw trace or profile below a block that is not among the newest of its
  scenario. Everything below one of the newest blocks and every result table is kept.
\<close>

theorem prune_main_removes_exactly:
  assumes "wf_fs fs" "plan_pruning r k fs = Inr (plan, scenarios)"
    and "removable_bytes plan + kept_bytes plan < 2 ^ 53"
  shows "\<exists>out fs'. prune_main r k apply_it fs = (Inr out, fs')
    \<and> (\<forall>p. lookup fs' p = (if apply_it \<and> prunable r k fs p then None else lookup fs p))
    \<and> (\<forall>s b p. s \<in> set (scenario_dirs r fs) \<and> b \<in> set (newest_blocks fs k s) \<and> prefix b p
         \<longrightarrow> lookup fs' p = lookup fs p)
    \<and> (\<forall>p. path_name p = ''blocks.csv'' \<longrightarrow> lookup fs' p = lookup fs p)"
proof -
  obtain out fs' where main: "prune_main r k apply_it fs = (Inr out, fs')" using prune_main_returns [OF assms] by blast
  then have run: "if apply_it then \<exists>m. remove_all (removable plan) 0 fs = (Inr m, fs') else fs' = fs"
    using assms(2) by (auto simp: prune_main_def Let_def io_bind_def io_read_def io_lift_def io_return_def
        split: sum.splits prod.splits if_splits)
  have 1: "lookup fs' p = (if apply_it \<and> prunable r k fs p then None else lookup fs p)" for p
    using run remove_all_ok plan_removable(1) [OF assms(2), of p] by (auto split: if_splits)
  moreover have "\<not> prunable r k fs p" if "path_name p = ''blocks.csv''" for p
    using that by (simp add: prunable_def bulk_name_def)
  ultimately show ?thesis using newest_not_prunable main by (intro exI conjI) auto
qed

definition sample_data :: fs where
  "sample_data = [([''d''], Dir), ([''d'', ''pilot''], Dir), ([''d'', ''pilot'', ''web''], Dir),
     ([''d'', ''pilot'', ''web'', ''block-9''], Dir), ([''d'', ''pilot'', ''web'', ''block-10''], Dir),
     ([''d'', ''pilot'', ''web'', ''block-9'', ''perf.data.old''], File ''abc''),
     ([''d'', ''pilot'', ''web'', ''block-10'', ''perf.data''], File ''de'')]"

lemma sample_plan:
  "plan_pruning [''d''] 1 sample_data =
     Inr (\<lparr> removable = [[''d'', ''pilot'', ''web'', ''block-9'', ''perf.data.old'']], removable_bytes = 3,
       kept_bytes = 2 \<rparr>, [[''d'', ''pilot'', ''web'']])"
  by code_simp

lemma sample_wf: "wf_fs sample_data"
proof -
  have "list_all (\<lambda>e. is_dir sample_data (butlast (fst e))) sample_data" by code_simp
  then show ?thesis
    unfolding wf_fs_def lookup_def by (fastforce simp: list_all_iff dest: map_of_SomeD)
qed

theorem prune_main_removes_exactly_witness:
  "\<exists>out fs'. prune_main [''d''] 1 True sample_data = (Inr out, fs')
    \<and> lookup fs' [''d'', ''pilot'', ''web'', ''block-9'', ''perf.data.old''] = None
    \<and> lookup fs' [''d'', ''pilot'', ''web'', ''block-10'', ''perf.data''] = Some (File ''de'')"
proof -
  have "prunable [''d''] 1 sample_data [''d'', ''pilot'', ''web'', ''block-9'', ''perf.data.old'']"
    "\<not> prunable [''d''] 1 sample_data [''d'', ''pilot'', ''web'', ''block-10'', ''perf.data'']"
    by code_simp+
  moreover have "lookup sample_data [''d'', ''pilot'', ''web'', ''block-10'', ''perf.data''] = Some (File ''de'')"
    by (simp add: lookup_def sample_data_def)
  ultimately show ?thesis
    using prune_main_removes_exactly [OF sample_wf sample_plan, of True] by auto
qed

end
