(* ===== verification/Py_Base64.thy ===== *)
theory Py_Base64
  imports Py_Json
begin

text \<open>
  The \<open>base64\<close> module as the tools use it: the encoder, a decoder for stating what a payload is,
  and the lenient decoder of the standard library, with the laws that relate them.
\<close>

section \<open>Encoding\<close>

definition b64_alphabet :: string where
  "b64_alphabet = ''ABCDEFGHIJKLMNOPQRSTUVWXYZabcdefghijklmnopqrstuvwxyz0123456789+/''"

definition b64_char :: "nat \<Rightarrow> char" where
  "b64_char n = b64_alphabet ! (n mod 64)"

fun b64encode :: "string \<Rightarrow> string" where
  "b64encode [] = []"
| "b64encode [a] =
     [b64_char (code a div 4), b64_char (code a mod 4 * 16), CHR ''='', CHR ''='']"
| "b64encode [a, b] =
     [b64_char (code a div 4), b64_char (code a mod 4 * 16 + code b div 16),
      b64_char (code b mod 16 * 4), CHR ''='']"
| "b64encode (a # b # c # r) =
     [b64_char (code a div 4), b64_char (code a mod 4 * 16 + code b div 16),
      b64_char (code b mod 16 * 4 + code c div 64), b64_char (code c mod 64)] @ b64encode r"

text \<open>The decoder, for stating what a payload is.\<close>

fun index_of :: "'a \<Rightarrow> 'a list \<Rightarrow> nat option" where
  "index_of x [] = None"
| "index_of x (y # ys) = (if x = y then Some 0 else map_option Suc (index_of x ys))"

definition b64_val :: "char \<Rightarrow> nat" where
  "b64_val c = (case index_of c b64_alphabet of Some n \<Rightarrow> n | None \<Rightarrow> 0)"

fun b64decode :: "string \<Rightarrow> string" where
  "b64decode (p # q # r # s # rest) =
     (let a = char_of (b64_val p * 4 + b64_val q div 16);
          b = char_of (b64_val q mod 16 * 16 + b64_val r div 4);
          c = char_of (b64_val r mod 4 * 64 + b64_val s)
      in if r = CHR ''='' then [a] else if s = CHR ''='' then [a, b]
         else a # b # c # b64decode rest)"
| "b64decode _ = []"

section \<open>The decoder of the standard library\<close>

text \<open>
  \<open>base64.b64decode\<close>: characters outside the alphabet are skipped, a valid pad sequence ends the
  input. \<open>n\<close> counts the data characters, \<open>left\<close> holds the bits not yet written, \<open>pads\<close> the pad
  characters since the last data character.
\<close>

fun a2b_base64 :: "nat \<Rightarrow> nat \<Rightarrow> nat \<Rightarrow> string \<Rightarrow> string res" where
  "a2b_base64 n left pads [] =
     (if n mod 4 = 0 then Inr []
      else if n mod 4 = 1 then raise ValueError (''Invalid base64-encoded string: number of data characters (''
        @ show_nat n @ '') cannot be 1 more than a multiple of 4'')
      else raise ValueError ''Incorrect padding'')"
| "a2b_base64 n left pads (c # cs) =
     (if c = CHR ''='' then
        if 2 \<le> n mod 4
        then if 4 \<le> n mod 4 + (pads + 1) then Inr [] else a2b_base64 n left (pads + 1) cs
        else a2b_base64 n left pads cs
      else case index_of c b64_alphabet of
        None \<Rightarrow> a2b_base64 n left pads cs
      | Some v \<Rightarrow>
          if n mod 4 = 0 then a2b_base64 (n + 1) v 0 cs
          else if n mod 4 = 1 then
            rbind (a2b_base64 (n + 1) (v mod 16) 0 cs) (\<lambda>r. Inr (char_of (left * 4 + v div 16) # r))
          else if n mod 4 = 2 then
            rbind (a2b_base64 (n + 1) (v mod 4) 0 cs) (\<lambda>r. Inr (char_of (left * 16 + v div 4) # r))
          else rbind (a2b_base64 (n + 1) 0 0 cs) (\<lambda>r. Inr (char_of (left * 64 + v) # r)))"

definition py_b64decode :: "string \<Rightarrow> string res" where
  "py_b64decode s = a2b_base64 0 0 0 s"

section \<open>Laws of base64\<close>

lemma b64_val_char: "n < 64 \<Longrightarrow> b64_val (b64_char n) = n \<and> b64_char n \<noteq> CHR ''=''"
proof -
  have "list_all (\<lambda>n. b64_val (b64_char n) = n \<and> b64_char n \<noteq> CHR ''='') [0 ..< 64]" by code_simp
  then show "n < 64 \<Longrightarrow> b64_val (b64_char n) = n \<and> b64_char n \<noteq> CHR ''=''" by (auto simp: list_all_iff)
qed

lemma b64_digits:
  assumes "a < 256" "b < 256" "c < (256 :: nat)"
  shows "a div 4 < 64" "a mod 4 * 16 + b div 16 < 64" "b mod 16 * 4 + c div 64 < 64" "c mod 64 < 64"
    "a mod 4 * 16 < 64" "b mod 16 * 4 < 64"
    "a div 4 * 4 + (a mod 4 * 16 + b div 16) div 16 = a" "a div 4 * 4 + a mod 4 * 16 div 16 = a"
    "(a mod 4 * 16 + b div 16) mod 16 * 16 + (b mod 16 * 4 + c div 64) div 4 = b"
    "(a mod 4 * 16 + b div 16) mod 16 * 16 + b mod 16 * 4 div 4 = b"
    "(b mod 16 * 4 + c div 64) mod 4 * 64 + c mod 64 = c"
proof -
  have l: "a mod 4 < 4" "b mod 16 < 16" by simp_all
  have q: "b div 16 < 16" "c div 64 < 4" using assms by (simp_all add: less_mult_imp_div_less)
  show "a div 4 < 64" "c mod 64 < 64" using assms by (simp_all add: less_mult_imp_div_less)
  show "a mod 4 * 16 + b div 16 < 64" "b mod 16 * 4 + c div 64 < 64" "a mod 4 * 16 < 64" "b mod 16 * 4 < 64"
    using l q by linarith+
  show "a div 4 * 4 + (a mod 4 * 16 + b div 16) div 16 = a"
    "(a mod 4 * 16 + b div 16) mod 16 * 16 + (b mod 16 * 4 + c div 64) div 4 = b"
    "(a mod 4 * 16 + b div 16) mod 16 * 16 + b mod 16 * 4 div 4 = b"
    "(b mod 16 * 4 + c div 64) mod 4 * 64 + c mod 64 = c" "a div 4 * 4 + a mod 4 * 16 div 16 = a"
    using q by (simp_all add: div_mult_self3 div_mult_mod_eq)
qed

lemma b64_byte_digits:
  fixes a b c :: char
  shows "code a div 4 < 64" "code a mod 4 * 16 + code b div 16 < 64"
    "code b mod 16 * 4 + code c div 64 < 64" "code c mod 64 < 64"
    "code a mod 4 * 16 < 64" "code b mod 16 * 4 < 64"
    "code a div 4 * 4 + (code a mod 4 * 16 + code b div 16) div 16 = code a"
    "code a div 4 * 4 + code a mod 4 * 16 div 16 = code a"
    "(code a mod 4 * 16 + code b div 16) mod 16 * 16 + (code b mod 16 * 4 + code c div 64) div 4 = code b"
    "(code a mod 4 * 16 + code b div 16) mod 16 * 16 + code b mod 16 * 4 div 4 = code b"
    "(code b mod 16 * 4 + code c div 64) mod 4 * 64 + code c mod 64 = code c"
  by (rule b64_digits; rule code_lt_256)+

lemma b64_high: "code b div 16 < 16" "code b div 64 < 4"
  using code_lt_256 [of b] by (simp_all add: less_mult_imp_div_less)

lemma b64decode_encode [simp]: "b64decode (b64encode s) = s"
proof -
  have v: "n < 64 \<Longrightarrow> b64_val (b64_char n) = n" "n < 64 \<Longrightarrow> (b64_char n = CHR ''='') = False" for n
    using b64_val_char by blast+
  show ?thesis
    by (induction s rule: b64encode.induct)
      (simp_all add: v b64_high b64_byte_digits Let_def div_mult_mod_eq)
qed

lemma length_b64encode: "length (b64encode s) = 4 * ((length s + 2) div 3)"
proof (induction s rule: b64encode.induct)
  case (4 a b c r)
  have "(length r + 2 + 3) div 3 = (length r + 2) div 3 + 1" by simp
  then show ?case using 4 by simp
qed simp_all

lemma index_of_b64_char: "n < 64 \<Longrightarrow> index_of (b64_char n) b64_alphabet = Some n"
proof -
  have "list_all (\<lambda>n. index_of (b64_char n) b64_alphabet = Some n) [0 ..< 64]" by code_simp
  then show "n < 64 \<Longrightarrow> index_of (b64_char n) b64_alphabet = Some n" by (auto simp: list_all_iff)
qed

lemma a2b_base64_data:
  assumes "v < 64"
  shows "a2b_base64 (4 * k) left 0 (b64_char v # cs) = a2b_base64 (4 * k + 1) v 0 cs"
    "a2b_base64 (4 * k + 1) left 0 (b64_char v # cs)
      = rbind (a2b_base64 (4 * k + 2) (v mod 16) 0 cs) (\<lambda>r. Inr (char_of (left * 4 + v div 16) # r))"
    "a2b_base64 (4 * k + 2) left 0 (b64_char v # cs)
      = rbind (a2b_base64 (4 * k + 3) (v mod 4) 0 cs) (\<lambda>r. Inr (char_of (left * 16 + v div 4) # r))"
    "a2b_base64 (4 * k + 3) left 0 (b64_char v # cs)
      = rbind (a2b_base64 (4 * Suc k) 0 0 cs) (\<lambda>r. Inr (char_of (left * 64 + v) # r))"
proof -
  have m: "(4 * k + 1) mod 4 = 1" "(4 * k + 2) mod 4 = 2" "(4 * k + 3) mod 4 = 3"
    by (simp_all only: mod_mult_self4) simp_all
  have s: "4 * k + 1 + 1 = 4 * k + 2" "4 * k + 2 + 1 = 4 * k + 3" "4 * k + 3 + 1 = 4 * Suc k" by simp_all
  have c: "index_of (b64_char v) b64_alphabet = Some v" "b64_char v \<noteq> CHR ''=''"
    using assms index_of_b64_char b64_val_char by blast+
  show "a2b_base64 (4 * k) left 0 (b64_char v # cs) = a2b_base64 (4 * k + 1) v 0 cs"
    using c by simp
  show "a2b_base64 (4 * k + 1) left 0 (b64_char v # cs)
      = rbind (a2b_base64 (4 * k + 2) (v mod 16) 0 cs) (\<lambda>r. Inr (char_of (left * 4 + v div 16) # r))"
    unfolding a2b_base64.simps m s using c by simp
  show "a2b_base64 (4 * k + 2) left 0 (b64_char v # cs)
      = rbind (a2b_base64 (4 * k + 3) (v mod 4) 0 cs) (\<lambda>r. Inr (char_of (left * 16 + v div 4) # r))"
    unfolding a2b_base64.simps m s using c by simp
  show "a2b_base64 (4 * k + 3) left 0 (b64_char v # cs)
      = rbind (a2b_base64 (4 * Suc k) 0 0 cs) (\<lambda>r. Inr (char_of (left * 64 + v) # r))"
    unfolding a2b_base64.simps m s using c by simp
qed

lemma a2b_base64_pad:
  "a2b_base64 (4 * k + 2) left 0 ''=='' = Inr []" "a2b_base64 (4 * k + 3) left 0 ''='' = Inr []"
proof -
  have m: "(4 * k + 2) mod 4 = 2" "(4 * k + 3) mod 4 = 3" by (simp_all only: mod_mult_self4) simp_all
  show "a2b_base64 (4 * k + 2) left 0 ''=='' = Inr []" unfolding a2b_base64.simps m by simp
  show "a2b_base64 (4 * k + 3) left 0 ''='' = Inr []" unfolding a2b_base64.simps m by simp
qed

lemma a2b_base64_encode: "a2b_base64 (4 * k) left 0 (b64encode s) = Inr s"
proof (induction s arbitrary: k left rule: b64encode.induct)
  case (1 k left)
  then show ?case by simp
next
  case (2 a k left)
  then show ?case
    by (simp add: a2b_base64_data b64_byte_digits b64_high div_mult_mod_eq a2b_base64_pad del: a2b_base64.simps One_nat_def add_Suc_right add_2_eq_Suc')
next
  case (3 a b k left)
  then show ?case
    by (simp add: a2b_base64_data b64_byte_digits b64_high div_mult_mod_eq a2b_base64_pad del: a2b_base64.simps One_nat_def add_Suc_right add_2_eq_Suc')
next
  case (4 a b c r k left)
  then show ?case
    using 4 [of "Suc k" 0]
    by (simp add: a2b_base64_data b64_byte_digits b64_high div_mult_mod_eq del: a2b_base64.simps mult_Suc_right One_nat_def add_Suc_right add_2_eq_Suc')
qed

lemma py_b64decode_encode [simp]: "py_b64decode (b64encode s) = Inr s"
  using a2b_base64_encode [of 0 0 s] by (simp add: py_b64decode_def)

end
