(* ===== verification/Addons.thy ===== *)
theory Addons
  imports Py_Base64 Py_Files
begin

text \<open>
  The generator of the Cluster API addon Secrets (\<open>scripts/generate_capi_addons.py\<close>): discovery
  of the source manifests, base64 payloads, packing into Secrets below a size limit, and the
  files it writes. \<open>yaml.dump\<close> is a parameter, as is the name of the temporary directory of the
  check mode.
\<close>

section \<open>Data structures\<close>

record manifest_entry =
  entry_key :: string
  entry_path :: path
  entry_content :: string
  entry_size :: nat

record secret_group =
  sg_name :: string
  sg_entries :: "manifest_entry list"
  sg_size :: nat

record generated_secret =
  secret_name :: string
  secret_data :: "(string \<times> string) list"
  secret_namespace :: string
  secret_type :: string

definition DEFAULT_NAMESPACE :: string where
  "DEFAULT_NAMESPACE = ''default''"

definition RESOURCE_SET_TYPE :: string where
  "RESOURCE_SET_TYPE = ''addons.cluster.x-k8s.io/resource-set''"

definition CILIUM_BASE_NAME :: string where
  "CILIUM_BASE_NAME = ''cilium-manifests''"

definition COREDNS_BASE_NAME :: string where
  "COREDNS_BASE_NAME = ''coredns-manifests''"

definition RBAC_BASE_NAME :: string where
  "RBAC_BASE_NAME = ''rbac-manifests''"

section \<open>Discovery\<close>

definition canonical_key :: "path \<Rightarrow> string" where
  "canonical_key rel_path = replace_all ''/'' ''--'' (join ''/'' rel_path)"

text \<open>\<open>sorted(root.rglob("*.yaml"))\<close> and \<open>sorted(root.glob("*.yaml"))\<close>.\<close>

definition yaml_files :: "bool \<Rightarrow> path \<Rightarrow> fs \<Rightarrow> path list" where
  "yaml_files recursive d fs =
     sort (remdups (filter (\<lambda>p. strict_prefix d p \<and> suffix ''.yaml'' (last p)
       \<and> (recursive \<or> length p = Suc (length d))) (map fst fs)))"

definition read_entry :: "fs \<Rightarrow> path \<Rightarrow> path \<Rightarrow> manifest_entry res" where
  "read_entry fs addon_root p =
     rbind (read_bytes fs p) (\<lambda>content.
     Inr \<lparr> entry_key = canonical_key (drop (length addon_root) p), entry_path = p,
           entry_content = content, entry_size = length (b64encode content) \<rparr>)"

definition discover_manifests :: "path \<Rightarrow> string \<Rightarrow> bool \<Rightarrow> fs \<Rightarrow> manifest_entry list res" where
  "discover_manifests repo_root addon_dir recursive fs =
     (let addon_root = repo_root @ [addon_dir] in
      require (is_dir fs addon_root) FileNotFoundError
        (''addon directory not found: '' @ path_text addon_root) (
      let files = yaml_files recursive addon_root fs in
      require (files \<noteq> []) ValueError (''no YAML files found under '' @ path_text addon_root) (
      rbind (rmap (read_entry fs addon_root) (filter (is_file fs) files)) (\<lambda>found.
      let entries = sort_key entry_key found; keys = map entry_key entries in
      require (distinct keys) ValueError
        (''duplicate canonical keys under '' @ addon_dir @ '': '' @
         py_repr (VList (map VStr (sort (remdups (filter (\<lambda>k. 1 < count_list keys k) keys))))))
        (Inr entries)))))"

section \<open>Packing\<close>

definition b64_data_char :: "char \<Rightarrow> bool" where
  "b64_data_char c \<longleftrightarrow> is_alpha c \<or> is_digit c \<or> c \<in> set ''+/=''"

definition payload_line :: "string \<Rightarrow> nat" where
  "payload_line line =
     (let stripped = strip line in
      if prefix ''- '' stripped \<or> stripped = [] then 0
      else if 200 < length stripped \<and> list_ex b64_data_char stripped then length stripped else 0)"

definition compute_default_threshold :: "path list \<Rightarrow> fs \<Rightarrow> int res" where
  "compute_default_threshold existing_secrets fs =
     rbind (rmap (\<lambda>p. read_text fs p) existing_secrets) (\<lambda>texts.
     let max_payload = foldl max 0 (map payload_line (concat (map splitlines texts))) in
     if max_payload > 0
     then rbind (float_of_int (int max_payload)) (\<lambda>x.
       rbind (int_of_float (f_mul x (to_float (11 / 10)))) (\<lambda>threshold.
       Inr (min threshold (1024 * 1024 - 4096))))
     else Inr (900 * 1024))"

text \<open>One turn of the packing loop; the current group is the last one.\<close>

definition pack :: "string \<Rightarrow> int \<Rightarrow> secret_group list \<Rightarrow> manifest_entry \<Rightarrow> secret_group list res" where
  "pack base_name threshold groups entry =
     require (int (entry_size entry) \<le> threshold) ValueError
       (''manifest '' @ path_text (entry_path entry) @ '' has encoded size '' @
        show_nat (entry_size entry) @ '' which exceeds the per-Secret limit of '' @
        show_int threshold @ '' bytes; cannot split a single file'') (
     Inr (if groups = [] \<or> int (sg_size (last groups) + entry_size entry) > threshold
       then groups @ [\<lparr> sg_name = base_name @ ''-'' @ show_nat (length groups + 1),
                        sg_entries = [entry], sg_size = entry_size entry \<rparr>]
       else butlast groups @
         [(last groups) \<lparr> sg_entries := sg_entries (last groups) @ [entry],
                          sg_size := sg_size (last groups) + entry_size entry \<rparr>]))"

definition split_by_size :: "manifest_entry list \<Rightarrow> string \<Rightarrow> int \<Rightarrow> secret_group list res" where
  "split_by_size entries base_name threshold =
     rfold (pack base_name threshold) [] (sort_key entry_key entries)"

section \<open>Manifests\<close>

definition assemble_secret :: "secret_group \<Rightarrow> generated_secret" where
  "assemble_secret g =
     \<lparr> secret_name = sg_name g,
       secret_data = foldl (\<lambda>d e. AList.update (entry_key e) (b64encode (entry_content e)) d) [] (sg_entries g),
       secret_namespace = DEFAULT_NAMESPACE, secret_type = RESOURCE_SET_TYPE \<rparr>"

definition generate_crs_manifest :: "string \<Rightarrow> string list \<Rightarrow> string \<Rightarrow> pyval" where
  "generate_crs_manifest crs_name secret_names cluster_name =
     VDict [(''apiVersion'', VStr ''addons.cluster.x-k8s.io/v1beta2''),
       (''kind'', VStr ''ClusterResourceSet''),
       (''metadata'', VDict [(''name'', VStr crs_name), (''namespace'', VStr DEFAULT_NAMESPACE)]),
       (''spec'', VDict [
          (''clusterSelector'', VDict [(''matchLabels'',
             VDict [(''cluster.x-k8s.io/cluster-name'', VStr cluster_name)])]),
          (''resources'', VList (map (\<lambda>n. VDict [(''kind'', VStr ''Secret''), (''name'', VStr n)])
             secret_names))])]"

definition serialize_secret :: "(pyval \<Rightarrow> string) \<Rightarrow> generated_secret \<Rightarrow> string" where
  "serialize_secret yaml_dump s = yaml_dump (VDict
     [(''apiVersion'', VStr ''v1''), (''kind'', VStr ''Secret''),
      (''metadata'', VDict [(''name'', VStr (secret_name s)), (''namespace'', VStr (secret_namespace s))]),
      (''type'', VStr (secret_type s)),
      (''data'', VDict (sort_key fst (map (\<lambda>(k, v). (k, VStr v)) (secret_data s))))])"

section \<open>Generation\<close>

text \<open>\<open>p.stem\<close>: the name without its last suffix.\<close>

definition path_stem :: "path \<Rightarrow> string" where
  "path_stem p = (case last_split ''.'' (path_name p) of
     Some (a, b) \<Rightarrow> if a \<noteq> [] \<and> b \<noteq> [] then a else path_name p
   | None \<Rightarrow> path_name p)"

definition secret_file :: "path \<Rightarrow> generated_secret \<Rightarrow> path" where
  "secret_file output_dir s = output_dir @ [secret_name s @ ''.yaml'']"

definition write_secret :: "(pyval \<Rightarrow> string) \<Rightarrow> path \<Rightarrow> generated_secret \<Rightarrow> unit io" where
  "write_secret yaml_dump output_dir s =
     write_text (secret_file output_dir s) (serialize_secret yaml_dump s)"

definition single_secret :: "string \<Rightarrow> manifest_entry list \<Rightarrow> generated_secret" where
  "single_secret base_name entries = assemble_secret
     \<lparr> sg_name = base_name, sg_entries = entries, sg_size = sum_list (map entry_size entries) \<rparr>"

type_synonym addon_results = "(string \<times> path list) list"

definition crs_text :: "(pyval \<Rightarrow> string) \<Rightarrow> string \<Rightarrow> string \<times> path list \<Rightarrow> string" where
  "crs_text yaml_dump cluster_name r = (case r of (addon, paths) \<Rightarrow>
     yaml_dump (generate_crs_manifest (addon @ ''-crs'') (map path_stem paths) cluster_name))"

definition crs_file :: "path \<Rightarrow> string \<times> path list \<Rightarrow> path" where
  "crs_file d r = d @ [fst r @ ''-crs.yaml'']"

definition write_crs :: "(pyval \<Rightarrow> string) \<Rightarrow> string \<Rightarrow> path \<Rightarrow> string \<times> path list \<Rightarrow> unit io" where
  "write_crs yaml_dump cluster_name d r = write_text (crs_file d r) (crs_text yaml_dump cluster_name r)"

definition update_tracked :: "(pyval \<Rightarrow> string) \<Rightarrow> string \<Rightarrow> path \<Rightarrow> string \<times> path list \<Rightarrow> unit io" where
  "update_tracked yaml_dump cluster_name repo_root r =
     (let d = repo_root @ [''capi'', ''addons''] in
      io_bind (io_get (\<lambda>fs. path_exists fs (crs_file d r))) (\<lambda>there.
      if there then write_crs yaml_dump cluster_name d r else io_return ()))"

definition generate_secrets ::
  "(pyval \<Rightarrow> string) \<Rightarrow> path \<Rightarrow> path \<Rightarrow> int option \<Rightarrow> path list \<Rightarrow> addon_results io" where
  "generate_secrets yaml_dump repo_root output_dir cilium_limit existing =
     io_then (io_do (mkdir_p output_dir)) (
     io_bind (io_read (discover_manifests repo_root ''rbac'' False)) (\<lambda>rbac_entries.
     let rbac = single_secret RBAC_BASE_NAME rbac_entries in
     io_then (write_secret yaml_dump output_dir rbac) (
     io_bind (io_read (discover_manifests repo_root ''coredns'' False)) (\<lambda>coredns_entries.
     let coredns = single_secret COREDNS_BASE_NAME coredns_entries in
     io_then (write_secret yaml_dump output_dir coredns) (
     io_bind (io_read (discover_manifests repo_root ''cilium'' True)) (\<lambda>cilium_entries.
     io_bind (io_read (\<lambda>fs. case cilium_limit of Some l \<Rightarrow> Inr l
       | None \<Rightarrow> compute_default_threshold existing fs)) (\<lambda>threshold.
     io_bind (io_lift (split_by_size cilium_entries CILIUM_BASE_NAME threshold)) (\<lambda>groups.
     let secrets = map assemble_secret groups in
     io_then (io_foreach (write_secret yaml_dump output_dir) secrets) (
     io_return [(''rbac'', [secret_file output_dir rbac]),
       (''coredns'', [secret_file output_dir coredns]),
       (''cilium'', map (secret_file output_dir) secrets)])))))))))"

definition generate_all ::
  "(pyval \<Rightarrow> string) \<Rightarrow> path \<Rightarrow> path \<Rightarrow> int option \<Rightarrow> string \<Rightarrow> path list \<Rightarrow> bool \<Rightarrow> addon_results io" where
  "generate_all yaml_dump repo_root output_dir cilium_limit cluster_name existing update_tracked_crs =
     io_bind (generate_secrets yaml_dump repo_root output_dir cilium_limit existing) (\<lambda>results.
     io_then (io_foreach (write_crs yaml_dump cluster_name output_dir) results) (
     io_then (if update_tracked_crs
       then io_foreach (update_tracked yaml_dump cluster_name repo_root) results else io_return ()) (
     io_return results)))"

section \<open>Check mode\<close>

definition same_file :: "fs \<Rightarrow> path \<Rightarrow> path \<Rightarrow> bool res" where
  "same_file fs tmp f =
     (let expected = tmp @ [path_name f] in
      if \<not> path_exists fs expected then Inr False
      else rbind (read_bytes fs f) (\<lambda>a. rbind (read_bytes fs expected) (\<lambda>b. Inr (a = b))))"

fun all_same :: "fs \<Rightarrow> path \<Rightarrow> path list \<Rightarrow> bool res" where
  "all_same fs tmp [] = Inr True"
| "all_same fs tmp (f # files) =
     rbind (same_file fs tmp f) (\<lambda>same. if same then all_same fs tmp files else Inr False)"

definition check :: "(pyval \<Rightarrow> string) \<Rightarrow> path \<Rightarrow> path \<Rightarrow> path \<Rightarrow> bool io" where
  "check yaml_dump tmp repo_root output_dir =
     io_then (io_do (mkdir_p tmp)) (
     io_finally (
       io_bind (generate_all yaml_dump repo_root tmp None ''k8labs'' [] True) (\<lambda>_.
       io_read (\<lambda>fs. all_same fs tmp (yaml_files False output_dir fs))))
     (io_do (rmtree tmp)))"

section \<open>Laws of the packing\<close>

definition group_ok :: "int \<Rightarrow> secret_group \<Rightarrow> bool" where
  "group_ok t g \<longleftrightarrow> sg_entries g \<noteq> [] \<and> sg_size g = sum_list (map entry_size (sg_entries g))
     \<and> int (sg_size g) \<le> t"

text \<open>A group is closed only when the first entry of the next one no longer fits.\<close>

definition tight :: "int \<Rightarrow> secret_group \<Rightarrow> secret_group \<Rightarrow> bool" where
  "tight t g h \<longleftrightarrow> t < int (sg_size g + entry_size (hd (sg_entries h)))"

definition packed :: "string \<Rightarrow> int \<Rightarrow> secret_group list \<Rightarrow> bool" where
  "packed base t gs \<longleftrightarrow> list_all (group_ok t) gs \<and> successively (tight t) gs
     \<and> map sg_name gs = map (\<lambda>i. base @ ''-'' @ show_nat (i + 1)) [0 ..< length gs]"

lemma pack_step:
  assumes "packed base t gs" "int (entry_size e) \<le> t"
  shows "\<exists>gs'. pack base t gs e = Inr gs' \<and> packed base t gs'
    \<and> concat (map sg_entries gs') = concat (map sg_entries gs) @ [e]"
proof (cases "gs = [] \<or> int (sg_size (last gs) + entry_size e) > t")
  case True
  then show ?thesis using assms
    by (auto simp: pack_def packed_def group_ok_def successively_append_iff tight_def)
next
  case False
  then obtain hs g where gs: "gs = hs @ [g]" by (metis rev_exhaust)
  let ?g = "g\<lparr>sg_entries := sg_entries g @ [e], sg_size := sg_size g + entry_size e\<rparr>"
  have ok: "group_ok t g" "list_all (group_ok t) hs" using assms(1) gs by (simp_all add: packed_def)
  have "group_ok t ?g" using ok(1) False gs by (simp add: group_ok_def)
  moreover have "successively (tight t) (hs @ [?g])"
    using assms(1) ok(1) gs by (auto simp: packed_def successively_append_iff tight_def group_ok_def)
  moreover have "map sg_name (hs @ [?g]) = map sg_name gs" using gs by simp
  ultimately have "packed base t (hs @ [?g])" using assms(1) ok(2) gs by (simp add: packed_def)
  moreover have "pack base t gs e = Inr (hs @ [?g])" using False assms(2) gs by (simp add: pack_def)
  ultimately show ?thesis using gs by simp
qed

lemma pack_fold:
  "packed base t gs \<Longrightarrow> list_all (\<lambda>e. int (entry_size e) \<le> t) es \<Longrightarrow>
     \<exists>gs'. rfold (pack base t) gs es = Inr gs' \<and> packed base t gs'
       \<and> concat (map sg_entries gs') = concat (map sg_entries gs) @ es"
proof (induction es arbitrary: gs)
  case (Cons e es)
  obtain h where h: "pack base t gs e = Inr h" "packed base t h"
    "concat (map sg_entries h) = concat (map sg_entries gs) @ [e]"
    using pack_step [of base t gs e] Cons.prems by auto
  then show ?case using Cons.IH [OF h(2)] Cons.prems(2) by auto
qed simp

lemma pack_oversized:
  "e \<in> set es \<Longrightarrow> t < int (entry_size e) \<Longrightarrow> \<exists>x. rfold (pack base t) gs es = Inl (Raise ValueError x)"
proof (induction es arbitrary: gs)
  case (Cons f es)
  show ?case
  proof (cases "int (entry_size f) \<le> t")
    case True
    then obtain h where "pack base t gs f = Inr h" by (simp add: pack_def)
    then show ?thesis using Cons True by auto
  next
    case False
    then show ?thesis by (simp add: pack_def)
  qed
qed simp

section \<open>Laws of the assembly and of the files\<close>

lemma foldl_update_fresh:
  "distinct (map fst d @ map f es) \<Longrightarrow>
     foldl (\<lambda>d e. AList.update (f e) (g e) d) d es = d @ map (\<lambda>e. (f e, g e)) es"
proof (induction es arbitrary: d)
  case (Cons e es)
  have "AList.update (f e) (g e) d = d @ [(f e, g e)]" using Cons.prems by (induction d) auto
  then show ?case using Cons.IH [of "d @ [(f e, g e)]"] Cons.prems by simp
qed simp

lemma assemble_secret_data:
  "distinct (map entry_key (sg_entries g)) \<Longrightarrow>
     secret_data (assemble_secret g) = map (\<lambda>e. (entry_key e, b64encode (entry_content e))) (sg_entries g)"
  using foldl_update_fresh [of "[]" entry_key "sg_entries g" "\<lambda>e. b64encode (entry_content e)"]
  by (simp add: assemble_secret_def)

lemma write_text_ok:
  "write_text p s fs = (Inr (), fs') \<Longrightarrow>
     lookup fs' q = (if q = p then Some (File (utf8_encode s)) else lookup fs q)"
  by (auto simp: write_text_def write_bytes_ok(1))

lemma crs_file_inj: "crs_file d r = crs_file d r' \<Longrightarrow> fst r = fst r'"
  by (simp add: crs_file_def)

definition holds_crs :: "(pyval \<Rightarrow> string) \<Rightarrow> string \<Rightarrow> path \<Rightarrow> fs \<Rightarrow> string \<times> path list \<Rightarrow> bool" where
  "holds_crs yaml_dump cluster_name d fs r \<longleftrightarrow>
     lookup fs (crs_file d r) = Some (File (utf8_encode (crs_text yaml_dump cluster_name r)))"

lemma write_all_crs:
  assumes "io_foreach (write_crs yaml_dump cluster d) results fs = (Inr (), fs')" "distinct (map fst results)"
  shows "\<forall>r \<in> set results. holds_crs yaml_dump cluster d fs' r"
proof -
  have inj: "crs_file d x \<noteq> crs_file d y" if "x \<in> set results" "y \<in> set results" "x \<noteq> y" for x y
    using that assms(2) crs_file_inj by (metis distinct_map inj_on_contraD)
  have "True \<and> (\<forall>r \<in> set results. holds_crs yaml_dump cluster d fs' r)"
  proof (rule io_foreach_post [OF assms(1), where I = "\<lambda>_. True"])
    show "holds_crs yaml_dump cluster d s' x \<and> True"
      if "write_crs yaml_dump cluster d x s = (Inr (), s')" for x s s'
      using write_text_ok [OF that [unfolded write_crs_def]] by (simp add: holds_crs_def)
    show "holds_crs yaml_dump cluster d s' x"
      if "x \<in> set results" "y \<in> set results" "x \<noteq> y" "holds_crs yaml_dump cluster d s x"
        "write_crs yaml_dump cluster d y s = (Inr (), s')" for x y s s'
      using write_text_ok [OF that(5) [unfolded write_crs_def]] inj [OF that(1-3)] that(4)
      by (simp add: holds_crs_def)
  qed simp
  then show ?thesis by simp
qed

lemma tracked_keeps_crs:
  assumes "holds_crs yaml_dump cluster d fs r" "update_tracked yaml_dump cluster root_dir x fs = (Inr (), fs')"
    and same: "fst x = fst r \<Longrightarrow> x = r"
  shows "holds_crs yaml_dump cluster d fs' r"
proof (cases "path_exists fs (crs_file (root_dir @ [''capi'', ''addons'']) x)")
  case True
  let ?t = "root_dir @ [''capi'', ''addons'']"
  have w: "write_text (crs_file ?t x) (crs_text yaml_dump cluster x) fs = (Inr (), fs')"
    using assms(2) True by (simp add: update_tracked_def write_crs_def Let_def)
  show ?thesis
  proof (cases "crs_file d r = crs_file ?t x")
    case True
    then have "d = ?t" "fst x = fst r" by (simp_all add: crs_file_def)
    then have "x = r" using same by blast
    then show ?thesis using write_text_ok [OF w] True by (simp add: holds_crs_def)
  next
    case False
    then show ?thesis using write_text_ok [OF w] assms(1) by (simp add: holds_crs_def)
  qed
next
  case False
  then show ?thesis using assms(1,2) by (simp add: update_tracked_def Let_def)
qed

lemma tracked_loop_keeps_crs:
  "io_foreach (update_tracked yaml_dump cluster root_dir) xs fs = (Inr (), fs')
    \<Longrightarrow> holds_crs yaml_dump cluster d fs r \<Longrightarrow> (\<And>x. x \<in> set xs \<Longrightarrow> fst x = fst r \<Longrightarrow> x = r)
    \<Longrightarrow> holds_crs yaml_dump cluster d fs' r"
proof (induction xs arbitrary: fs)
  case (Cons x xs)
  then obtain fs1 where fs1: "update_tracked yaml_dump cluster root_dir x fs = (Inr (), fs1)"
    "io_foreach (update_tracked yaml_dump cluster root_dir) xs fs1 = (Inr (), fs')" by auto
  have "holds_crs yaml_dump cluster d fs1 r"
    using tracked_keeps_crs [OF Cons.prems(2) fs1(1)] Cons.prems(3) by simp
  then show ?case using Cons.IH [OF fs1(2)] Cons.prems(3) by simp
qed simp

lemma generate_secrets_names:
  assumes "generate_secrets yaml_dump r d l ex fs = (Inr results, fs')"
  shows "map fst results = [''rbac'', ''coredns'', ''cilium'']"
  using assms by (auto simp: generate_secrets_def Let_def)

section \<open>Properties\<close>

text \<open>
  C33: the packing is complete, ordered and within the limit. When every manifest fits by itself,
  the groups hold the manifests in key order, each exactly once; no group is empty, the size of
  a group is the sum of its payloads and never exceeds the limit, the groups are numbered from
  1, and a group is closed only when the next manifest no longer fits. A manifest over the limit
  is refused.
\<close>

theorem split_by_size_packs:
  "if list_all (\<lambda>e. int (entry_size e) \<le> threshold) entries
   then \<exists>groups. split_by_size entries base_name threshold = Inr groups
     \<and> concat (map sg_entries groups) = sort_key entry_key entries
     \<and> packed base_name threshold groups
   else \<exists>m. split_by_size entries base_name threshold = raise ValueError m"
proof (cases "list_all (\<lambda>e. int (entry_size e) \<le> threshold) entries")
  case True
  then have "list_all (\<lambda>e. int (entry_size e) \<le> threshold) (sort_key entry_key entries)"
    by (simp add: list_all_iff)
  moreover have "packed base_name threshold []" by (simp add: packed_def)
  ultimately obtain gs where "rfold (pack base_name threshold) [] (sort_key entry_key entries) = Inr gs"
    "packed base_name threshold gs" "concat (map sg_entries gs) = sort_key entry_key entries"
    using pack_fold [of base_name threshold "[]" "sort_key entry_key entries"] by auto
  then show ?thesis using True by (simp add: split_by_size_def)
next
  case False
  then obtain e where "e \<in> set (sort_key entry_key entries)" "threshold < int (entry_size e)"
    by (auto simp: list_all_iff)
  from pack_oversized [OF this] show ?thesis using False by (simp only: split_by_size_def if_False)
qed

text \<open>
  A Secret carries its manifests unchanged and weighs what was counted. For a group with
  distinct keys the data of the Secret are the keys in order, every payload decodes to the
  content of its file, and every payload is four characters for each three bytes begun.
\<close>

theorem assemble_secret_payloads:
  assumes "distinct (map entry_key (sg_entries g))"
  shows "map fst (secret_data (assemble_secret g)) = map entry_key (sg_entries g)
    \<and> map (\<lambda>kv. b64decode (snd kv)) (secret_data (assemble_secret g)) = map entry_content (sg_entries g)
    \<and> map (\<lambda>kv. length (snd kv)) (secret_data (assemble_secret g))
        = map (\<lambda>e. 4 * ((length (entry_content e) + 2) div 3)) (sg_entries g)"
  using assms by (simp add: assemble_secret_data comp_def length_b64encode)

theorem assemble_secret_payloads_witness:
  "map (\<lambda>kv. b64decode (snd kv)) (secret_data (assemble_secret
     \<lparr> sg_name = ''s-1'', sg_entries =
         [\<lparr> entry_key = ''a.yaml'', entry_path = [''a.yaml''], entry_content = ''kind: X'', entry_size = 12 \<rparr>,
          \<lparr> entry_key = ''b.yaml'', entry_path = [''b.yaml''], entry_content = [], entry_size = 0 \<rparr>],
       sg_size = 12 \<rparr>)) = [''kind: X'', []]"
  using assemble_secret_payloads [of "\<lparr> sg_name = ''s-1'', sg_entries =
         [\<lparr> entry_key = ''a.yaml'', entry_path = [''a.yaml''], entry_content = ''kind: X'', entry_size = 12 \<rparr>,
          \<lparr> entry_key = ''b.yaml'', entry_path = [''b.yaml''], entry_content = [], entry_size = 0 \<rparr>],
       sg_size = 12 \<rparr>"]
  by simp

text \<open>
  The resource sets name what was generated. After a successful generation the manifest of
  each addon's resource set in the output directory lists exactly the Secrets whose files the
  generation returns for that addon, also when the tracked copies were rewritten.
\<close>

theorem generate_all_crs:
  assumes "generate_all yaml_dump repo_root output_dir cilium_limit cluster_name existing tracked fs
      = (Inr results, fs')"
  shows "map fst results = [''rbac'', ''coredns'', ''cilium'']
    \<and> list_all (\<lambda>r. lookup fs' (output_dir @ [fst r @ ''-crs.yaml'']) = Some (File (utf8_encode (yaml_dump
          (generate_crs_manifest (fst r @ ''-crs'') (map path_stem (snd r)) cluster_name))))) results"
proof -
  obtain fs1 fs2 where g: "generate_secrets yaml_dump repo_root output_dir cilium_limit existing fs = (Inr results, fs1)"
    and c: "io_foreach (write_crs yaml_dump cluster_name output_dir) results fs1 = (Inr (), fs2)"
    and t: "(if tracked then io_foreach (update_tracked yaml_dump cluster_name repo_root) results
        else io_return ()) fs2 = (Inr (), fs')"
    using assms by (auto simp: generate_all_def)
  note names = generate_secrets_names [OF g]
  then have d: "distinct (map fst results)" by simp
  have same: "x = r" if "x \<in> set results" "r \<in> set results" "fst x = fst r" for x r
    using d that by (metis distinct_map inj_onD)
  have "holds_crs yaml_dump cluster_name output_dir fs' r" if r: "r \<in> set results" for r
  proof (cases tracked)
    case True
    then have "io_foreach (update_tracked yaml_dump cluster_name repo_root) results fs2 = (Inr (), fs')"
      using t by simp
    moreover have "holds_crs yaml_dump cluster_name output_dir fs2 r"
      using write_all_crs [OF c d] r by blast
    ultimately show ?thesis using same [OF _ r] by (rule tracked_loop_keeps_crs)
  next
    case False
    then show ?thesis using write_all_crs [OF c d] r t by simp
  qed
  then show ?thesis
    using names by (simp add: list_all_iff holds_crs_def crs_file_def crs_text_def split_def)
qed

text \<open>A repository with one manifest per addon and a tracked resource set.\<close>

definition sample_repo :: fs where
  "sample_repo =
     [([''r''], Dir), ([''r'', ''rbac''], Dir), ([''r'', ''rbac'', ''a.yaml''], File ''A''),
      ([''r'', ''coredns''], Dir), ([''r'', ''coredns'', ''b.yaml''], File ''B''),
      ([''r'', ''cilium''], Dir), ([''r'', ''cilium'', ''c.yaml''], File ''C''),
      ([''r'', ''capi''], Dir), ([''r'', ''capi'', ''addons''], Dir),
      ([''r'', ''capi'', ''addons'', ''rbac-crs.yaml''], File ''old''), ([''o''], Dir)]"

definition sample_results :: "(addon_results res \<times> fs)" where
  "sample_results = generate_all (\<lambda>_. ''doc'') [''r''] [''o''] None ''k8labs'' [] True sample_repo"

lemma sample_generates: "is_ok (fst sample_results)"
  by code_simp

theorem generate_all_crs_witness:
  "\<exists>results fs'. sample_results = (Inr results, fs')
    \<and> map fst results = [''rbac'', ''coredns'', ''cilium'']"
proof -
  obtain results fs' where r: "sample_results = (Inr results, fs')"
    using sample_generates by (metis is_ok_conv prod.collapse)
  from generate_all_crs [OF r [unfolded sample_results_def]] show ?thesis
    using r by (elim conjE) (intro exI conjI)
qed

text \<open>
  The check mode is not a check without effects, and it does not notice missing output. On a
  repository whose tracked resource set is outdated and whose output directory is empty it
  reports success and leaves the tracked file rewritten.
\<close>

theorem check_mode_writes:
  "fst (check (\<lambda>_. ''doc'') [''tmp''] [''r''] [''o''] sample_repo) = Inr True
    \<and> lookup sample_repo [''r'', ''capi'', ''addons'', ''rbac-crs.yaml''] = Some (File ''old'')
    \<and> lookup (snd (check (\<lambda>_. ''doc'') [''tmp''] [''r''] [''o''] sample_repo))
        [''r'', ''capi'', ''addons'', ''rbac-crs.yaml''] = Some (File ''doc'')"
  by code_simp

end
