(* ===== verification/Trace.thy ===== *)
theory Trace
  imports Py_Json
begin

text \<open>
  The scheduler-trace summary of one cell (\<open>cpu-limits/capture/parse_trace.py\<close>): a state machine
  over the events in time order that pairs wakeups with switches and splits the life of every
  target task into intervals on and off the CPU. The events are the parsed records; reading the
  CSV file and the output of \<open>perf\<close> is not modelled.
\<close>

section \<open>Events\<close>

record trace_event =
  ev_event :: string
  ts_ns :: int
  ev_pid :: int
  target_pid :: "int option"
  runtime_ns :: "int option"
  ev_row :: "(string \<times> string) list"

definition TRACE_COLUMNS :: "string list" where
  "TRACE_COLUMNS = [''protocol'', ''run_id'', ''block_id'', ''cell_id'', ''source'', ''event'', ''ts_ns'',
     ''cpu'', ''pid'', ''tgid'', ''comm'', ''target_pid'', ''latency_ns'', ''runtime_ns'', ''prev_state'',
     ''cgroup_path'']"

definition WAKEUP_EVENTS :: "string list" where
  "WAKEUP_EVENTS = [''sched_wakeup'', ''sched_wakeup_new'']"

definition THROTTLE_EVENTS :: "string list" where
  "THROTTLE_EVENTS = [''throttle_cfs_rq'', ''throttle_cfs_rq_work'', ''unthrottle_cfs_rq'']"

definition optional_int :: "string \<Rightarrow> int option" where
  "optional_int value = (let stripped = strip value in if stripped = [] then None else py_int stripped)"

text \<open>
  The rows are those the CSV reader yields before the end of the file or its first error: both end
  the parse with the events read so far.
\<close>

definition csv_field :: "(string \<times> string) list \<Rightarrow> string \<Rightarrow> string" where
  "csv_field row column = (case map_of row column of Some v \<Rightarrow> v | None \<Rightarrow> [])"

definition parse_trace_row :: "string list \<Rightarrow> string \<Rightarrow> string list \<Rightarrow> trace_event option" where
  "parse_trace_row header ts_column values =
     (if length values \<noteq> length header then None
      else let row = rev (zip header values);
               event = strip (csv_field row ''event'');
               target_text = (if csv_field row ''target_pid'' \<noteq> [] then csv_field row ''target_pid''
                              else csv_field row ''next_pid'') in
        case (optional_int (csv_field row ts_column), optional_int (csv_field row ''pid'')) of
          (Some ts, Some p) \<Rightarrow>
            if event = [] \<or> ts < 0 \<or> p < 0 then None
            else Some \<lparr> ev_event = event, ts_ns = ts, ev_pid = p, target_pid = optional_int target_text,
              runtime_ns = optional_int (csv_field row ''runtime_ns''),
              ev_row = map (\<lambda>column. (column, csv_field row column)) TRACE_COLUMNS \<rparr>
        | _ \<Rightarrow> None)"

definition parse_trace_csv :: "string list list \<Rightarrow> trace_event list" where
  "parse_trace_csv rows = (case rows of
     [] \<Rightarrow> []
   | header # rest \<Rightarrow>
       let ts_column = (if ''ts_ns'' \<in> set header then ''ts_ns'' else ''timestamp'') in
       if \<not> {''event'', ts_column, ''pid''} \<subseteq> set header then []
       else List.map_filter (parse_trace_row header ts_column) rest)"

text \<open>\<open>event.target_pid in target_pids\<close>; \<open>None\<close> is in no set of numbers.\<close>

definition target_in :: "trace_event \<Rightarrow> int list \<Rightarrow> bool" where
  "target_in e pids = (case target_pid e of Some p \<Rightarrow> p \<in> set pids | None \<Rightarrow> False)"

definition related :: "trace_event \<Rightarrow> int list \<Rightarrow> bool" where
  "related e pids \<longleftrightarrow> ev_pid e \<in> set pids \<or> target_in e pids"

definition target_from_wakeup :: "trace_event \<Rightarrow> int list \<Rightarrow> int option" where
  "target_from_wakeup e pids =
     (let candidate = (case target_pid e of Some p \<Rightarrow> p | None \<Rightarrow> ev_pid e) in
      if candidate \<in> set pids then Some candidate else None)"

definition switch_in_pid :: "trace_event \<Rightarrow> int list \<Rightarrow> int option" where
  "switch_in_pid e pids =
     (if target_in e pids then target_pid e
      else if target_pid e = None \<and> ev_pid e \<in> set pids then Some (ev_pid e) else None)"

definition switch_out_pid :: "trace_event \<Rightarrow> int list \<Rightarrow> int option" where
  "switch_out_pid e pids =
     (if ev_pid e \<in> set pids \<and> target_pid e \<noteq> Some (ev_pid e) then Some (ev_pid e) else None)"

text \<open>The task a runtime or throttle record is charged to.\<close>

definition charged_pid :: "trace_event \<Rightarrow> int list \<Rightarrow> int" where
  "charged_pid e pids = (if target_in e pids then the (target_pid e) else ev_pid e)"

section \<open>The state machine\<close>

text \<open>An interval of a task; for a run-queue delay the wakeup and the switch.\<close>

record interval =
  iv_pid :: int
  iv_start :: int
  iv_end :: int
  iv_duration :: int

record trace_state =
  delays :: "interval list"
  on_cpu :: "interval list"
  off_cpu :: "interval list"
  throttle_events :: "(int \<times> string \<times> int) list"
  runtime_samples :: "(int \<times> int \<times> int) list"
  switches :: "(int \<times> nat) list"
  pending_wakeups :: "(int \<times> trace_event) list"
  on_cpu_start :: "(int \<times> int) list"
  off_cpu_start :: "(int \<times> int) list"

definition init_state :: trace_state where
  "init_state = \<lparr> delays = [], on_cpu = [], off_cpu = [], throttle_events = [], runtime_samples = [],
     switches = [], pending_wakeups = [], on_cpu_start = [], off_cpu_start = [] \<rparr>"

definition close_interval :: "int \<Rightarrow> int option \<Rightarrow> int \<Rightarrow> interval list \<Rightarrow> interval list" where
  "close_interval p start now ivs = (case start of
     Some s \<Rightarrow> if s \<le> now then ivs @ [\<lparr> iv_pid = p, iv_start = s, iv_end = now, iv_duration = now - s \<rparr>]
       else ivs
   | None \<Rightarrow> ivs)"

definition switch_out :: "int \<Rightarrow> int \<Rightarrow> trace_state \<Rightarrow> trace_state" where
  "switch_out p now st =
     st \<lparr> on_cpu := close_interval p (map_of (on_cpu_start st) p) now (on_cpu st),
          on_cpu_start := AList.delete p (on_cpu_start st),
          off_cpu_start := AList.update p now (off_cpu_start st) \<rparr>"

definition switch_in :: "int \<Rightarrow> int \<Rightarrow> trace_state \<Rightarrow> trace_state" where
  "switch_in p now st =
     st \<lparr> delays := close_interval p (map_option ts_ns (map_of (pending_wakeups st) p)) now (delays st),
          pending_wakeups := AList.delete p (pending_wakeups st),
          off_cpu := close_interval p (map_of (off_cpu_start st) p) now (off_cpu st),
          off_cpu_start := AList.delete p (off_cpu_start st),
          on_cpu_start := AList.update p now (on_cpu_start st),
          switches := AList.update p (Suc (case map_of (switches st) p of Some n \<Rightarrow> n | None \<Rightarrow> 0)) (switches st) \<rparr>"

definition trace_step :: "int list \<Rightarrow> trace_state \<Rightarrow> trace_event \<Rightarrow> trace_state" where
  "trace_step pids st e =
     (if \<not> related e pids then st
      else if ev_event e \<in> set WAKEUP_EVENTS then
        (case target_from_wakeup e pids of
           Some p \<Rightarrow> st \<lparr> pending_wakeups := AList.update p e (pending_wakeups st) \<rparr> | None \<Rightarrow> st)
      else if ev_event e = ''sched_switch'' then
        (let st1 = (case switch_out_pid e pids of Some p \<Rightarrow> switch_out p (ts_ns e) st | None \<Rightarrow> st) in
         case switch_in_pid e pids of Some p \<Rightarrow> switch_in p (ts_ns e) st1 | None \<Rightarrow> st1)
      else if ev_event e = ''sched_stat_runtime'' \<and> runtime_ns e \<noteq> None then
        (if charged_pid e pids \<in> set pids
         then st \<lparr> runtime_samples := runtime_samples st @
                     [(charged_pid e pids, ts_ns e, the (runtime_ns e))] \<rparr> else st)
      else if ev_event e \<in> set THROTTLE_EVENTS then
        (if charged_pid e pids \<in> set pids
         then st \<lparr> throttle_events := throttle_events st @
                     [(charged_pid e pids, ev_event e, ts_ns e)] \<rparr> else st)
      else st)"

definition run_trace :: "int list \<Rightarrow> trace_event list \<Rightarrow> trace_state" where
  "run_trace pids events = foldl (trace_step pids) init_state (sort_key ts_ns events)"

definition interval_val :: "string \<Rightarrow> string \<Rightarrow> string \<Rightarrow> interval \<Rightarrow> pyval" where
  "interval_val start_name end_name duration_name i =
     VDict [(''pid'', VInt (iv_pid i)), (start_name, VInt (iv_start i)), (end_name, VInt (iv_end i)),
       (duration_name, VInt (iv_duration i))]"

definition summarize_trace :: "trace_event list \<Rightarrow> int list \<Rightarrow> pydict" where
  "summarize_trace events pids = (let st = run_trace pids events in
     [(''protocol'', VStr ''cpu-limits-v1''),
      (''target_pids'', VList (map VInt (sort (remdups pids)))),
      (''run_queue_delays_ns'', VList (map (interval_val ''wakeup_ts_ns'' ''switch_ts_ns'' ''delay_ns'') (delays st))),
      (''on_cpu_intervals_ns'', VList (map (interval_val ''start_ts_ns'' ''end_ts_ns'' ''duration_ns'') (on_cpu st))),
      (''off_cpu_intervals_ns'', VList (map (interval_val ''start_ts_ns'' ''end_ts_ns'' ''duration_ns'') (off_cpu st))),
      (''context_switches'', VDict (map (\<lambda>(p, n). (show_int p, VInt (int n))) (sort_key fst (switches st)))),
      (''throttle_events'', VList (map (\<lambda>(p, e, t).
         VDict [(''pid'', VInt p), (''event'', VStr e), (''ts_ns'', VInt t)]) (throttle_events st))),
      (''runtime_samples_ns'', VList (map (\<lambda>(p, t, r).
         VDict [(''pid'', VInt p), (''ts_ns'', VInt t), (''runtime_ns'', VInt r)]) (runtime_samples st)))])"

text \<open>The rows of the filtered trace; a row holds exactly the columns, in their order.\<close>

definition write_filtered_trace :: "trace_event list \<Rightarrow> int list \<Rightarrow> string list list" where
  "write_filtered_trace events pids =
     TRACE_COLUMNS # map (\<lambda>e. map (csv_field (ev_row e)) TRACE_COLUMNS)
       (filter (\<lambda>e. related e pids) (sort_key ts_ns events))"

section \<open>Reachable states\<close>

text \<open>
  \<open>reach pids t st\<close>: the state \<open>st\<close> is reached by events in time order, the last one not after
  \<open>t\<close>.
\<close>

inductive reach :: "int list \<Rightarrow> int \<Rightarrow> trace_state \<Rightarrow> bool" for pids where
  start: "reach pids t init_state"
| step: "reach pids t st \<Longrightarrow> t \<le> ts_ns e \<Longrightarrow> reach pids (ts_ns e) (trace_step pids st e)"

definition interval_ok :: "int list \<Rightarrow> interval \<Rightarrow> bool" where
  "interval_ok pids i \<longleftrightarrow> iv_pid i \<in> set pids \<and> iv_start i \<le> iv_end i
     \<and> iv_duration i = iv_end i - iv_start i"

definition apart :: "interval \<Rightarrow> interval \<Rightarrow> bool" where
  "apart i j \<longleftrightarrow> iv_pid i \<noteq> iv_pid j \<or> iv_end i \<le> iv_start j \<or> iv_end j \<le> iv_start i"

text \<open>
  All recorded intervals; what is recorded of \<open>p\<close> ended by \<open>s\<close>; and an open start of a task lies
  in the past, after everything recorded of that task.
\<close>

definition life :: "trace_state \<Rightarrow> interval list" where
  "life st = on_cpu st @ off_cpu st"

definition ended :: "interval list \<Rightarrow> int \<Rightarrow> int \<Rightarrow> bool" where
  "ended L p s \<longleftrightarrow> (\<forall>i \<in> set L. iv_pid i = p \<longrightarrow> iv_end i \<le> s)"

definition starts_ok :: "int \<Rightarrow> interval list \<Rightarrow> (int \<times> int) list \<Rightarrow> bool" where
  "starts_ok t L m \<longleftrightarrow> (\<forall>p s. map_of m p = Some s \<longrightarrow> s \<le> t \<and> ended L p s)"

definition life_ok :: "int list \<Rightarrow> int \<Rightarrow> interval list \<Rightarrow> bool" where
  "life_ok pids t L \<longleftrightarrow> list_all (interval_ok pids) L \<and> sorted_wrt apart L \<and> (\<forall>p. ended L p t)"

definition delays_ok :: "int list \<Rightarrow> int \<Rightarrow> trace_state \<Rightarrow> bool" where
  "delays_ok pids t st \<longleftrightarrow> list_all (interval_ok pids) (delays st)
     \<and> (\<forall>p e. map_of (pending_wakeups st) p = Some e \<longrightarrow> ts_ns e \<le> t)"

definition trace_inv :: "int list \<Rightarrow> int \<Rightarrow> trace_state \<Rightarrow> bool" where
  "trace_inv pids t st \<longleftrightarrow> life_ok pids t (life st) \<and> delays_ok pids t st
     \<and> starts_ok t (life st) (on_cpu_start st) \<and> starts_ok t (life st) (off_cpu_start st)"

lemma trace_inv_init: "trace_inv pids t init_state"
  by (simp add: trace_inv_def init_state_def life_def ended_def starts_ok_def life_ok_def delays_ok_def)

lemma ended_mono: "ended L p s \<Longrightarrow> s \<le> s' \<Longrightarrow> ended L p s'"
  by (fastforce simp: ended_def)

lemma starts_ok_mono: "starts_ok t L m \<Longrightarrow> t \<le> t' \<Longrightarrow> starts_ok t' L m"
  by (fastforce simp: starts_ok_def)

lemma trace_inv_mono:
  assumes "trace_inv pids t st" "t \<le> t'"
  shows "trace_inv pids t' st"
proof -
  have "life_ok pids t' (life st)"
    using assms ended_mono [OF _ assms(2)] by (simp add: trace_inv_def life_ok_def)
  moreover have "delays_ok pids t' st" using assms by (fastforce simp: trace_inv_def delays_ok_def)
  ultimately show ?thesis using assms starts_ok_mono [OF _ assms(2)] by (simp add: trace_inv_def)
qed

lemma apart_sym: "apart i j \<Longrightarrow> apart j i"
  by (auto simp: apart_def)

lemma apart_after: "ended L p s \<Longrightarrow> i \<in> set L \<Longrightarrow> iv_pid j = p \<Longrightarrow> iv_start j = s \<Longrightarrow> apart i j"
  by (auto simp: ended_def apart_def)

lemma sorted_wrt_apart_insert:
  assumes "sorted_wrt apart (xs @ ys)" "\<And>i. i \<in> set (xs @ ys) \<Longrightarrow> apart i j"
  shows "sorted_wrt apart (xs @ j # ys)" "sorted_wrt apart (xs @ ys @ [j])"
proof -
  have "apart j i" if "i \<in> set (xs @ ys)" for i using assms(2) [OF that] by (rule apart_sym)
  then show "sorted_wrt apart (xs @ j # ys)" using assms by (simp add: sorted_wrt_append)
  show "sorted_wrt apart (xs @ ys @ [j])" using assms by (simp add: sorted_wrt_append ball_Un)
qed

text \<open>One more interval of \<open>p\<close>, from its open start to now, at the end of either list.\<close>

lemma grow_starts:
  assumes "starts_ok t L m" "\<forall>q. ended L q t" "t \<le> now" "set L' \<subseteq> insert j (set L)"
    "iv_pid j = p" "iv_end j = now"
  shows "starts_ok now L' (AList.delete p m)" "starts_ok now L' (AList.update p now m)" "\<forall>q. ended L' q now"
proof -
  have all: "ended L' q now" for q
    using assms ended_mono [of L q t now] by (auto simp: ended_def)
  have other: "ended L' q s" if "q \<noteq> p" "ended L q s" for q s
    using assms(4,5) that by (auto simp: ended_def)
  show "\<forall>q. ended L' q now" using all by blast
  have "s \<le> now \<and> ended L' q s" if "map_of m q = Some s" "q \<noteq> p" for q s
    using assms(1,3) other that by (fastforce simp: starts_ok_def)
  then show "starts_ok now L' (AList.delete p m)" "starts_ok now L' (AList.update p now m)"
    using all by (auto simp: starts_ok_def delete_conv' update_conv' split: if_splits)
qed

lemma closed_interval:
  assumes "life_ok pids t L" "starts_ok t L m" "t \<le> now" "p \<in> set pids"
    and "L = xs @ ys" "L' = close_interval p (map_of m p) now xs @ ys
      \<or> L' = xs @ close_interval p (map_of m p) now ys"
  shows "life_ok pids now L'" "starts_ok t L k \<Longrightarrow> starts_ok now L' (AList.delete p k)"
    "starts_ok t L k \<Longrightarrow> starts_ok now L' (AList.update p now k)"
proof -
  define j where "j = \<lparr> iv_pid = p, iv_start = (case map_of m p of Some s \<Rightarrow> s | None \<Rightarrow> 0),
    iv_end = now, iv_duration = now - (case map_of m p of Some s \<Rightarrow> s | None \<Rightarrow> 0) \<rparr>"
  have j: "iv_pid j = p" "iv_end j = now" and d: "iv_duration j = iv_end j - iv_start j"
    by (simp_all add: j_def)
  have cases: "L' = L \<or> (map_of m p = Some (iv_start j) \<and> (L' = (xs @ [j]) @ ys \<or> L' = xs @ ys @ [j]))"
    using assms(5,6) by (auto simp: close_interval_def j_def split: option.splits if_splits)
  then have sub: "set L' \<subseteq> insert j (set L)" using assms(5) by auto
  have e: "\<forall>q. ended L q t" using assms(1) by (simp add: life_ok_def)
  note g = grow_starts [OF _ e assms(3) sub j]
  show "starts_ok t L k \<Longrightarrow> starts_ok now L' (AList.delete p k)"
    "starts_ok t L k \<Longrightarrow> starts_ok now L' (AList.update p now k)" by (rule g; assumption)+
  have "list_all (interval_ok pids) L' \<and> sorted_wrt apart L'"
    using cases
  proof
    assume "L' = L"
    then show ?thesis using assms(1) by (simp add: life_ok_def)
  next
    assume c: "map_of m p = Some (iv_start j) \<and> (L' = (xs @ [j]) @ ys \<or> L' = xs @ ys @ [j])"
    then have s: "iv_start j \<le> t" "ended L p (iv_start j)" using assms(2) by (auto simp: starts_ok_def)
    then have ap: "apart i j" if "i \<in> set L" for i using that apart_after j(1) by blast
    have "interval_ok pids j" using s(1) assms(3,4) j d by (simp add: interval_ok_def)
    moreover have "sorted_wrt apart (xs @ ys)" using assms(1,5) by (simp add: life_ok_def)
    then have "sorted_wrt apart L'"
      using sorted_wrt_apart_insert [of xs ys j] ap assms(5) c by auto
    ultimately show ?thesis using c assms(1,5) by (auto simp: life_ok_def)
  qed
  then show "life_ok pids now L'" using g(3) [OF assms(2)] by (simp add: life_ok_def)
qed

lemma switch_out_inv:
  assumes "trace_inv pids t st" "t \<le> now" "p \<in> set pids"
  shows "trace_inv pids now (switch_out p now st)"
proof -
  have i: "life_ok pids t (life st)" "starts_ok t (life st) (on_cpu_start st)"
    "starts_ok t (life st) (off_cpu_start st)" "delays_ok pids t st"
    using assms(1) by (simp_all add: trace_inv_def)
  have "life (switch_out p now st) = close_interval p (map_of (on_cpu_start st) p) now (on_cpu st) @ off_cpu st"
    by (simp add: life_def switch_out_def)
  note c = closed_interval [OF i(1,2) assms(2,3) life_def disjI1 [OF this]]
  have "delays_ok pids now (switch_out p now st)"
    using i(4) assms(2) by (fastforce simp: delays_ok_def switch_out_def)
  then show ?thesis
    using c(1) c(2) [OF i(2)] c(3) [OF i(3)] by (simp add: trace_inv_def switch_out_def)
qed

lemma switch_in_delays:
  assumes "delays_ok pids t st" "t \<le> now" "p \<in> set pids"
  shows "delays_ok pids now (switch_in p now st)"
proof -
  have "list_all (interval_ok pids)
      (close_interval p (map_option ts_ns (map_of (pending_wakeups st) p)) now (delays st))"
    using assms by (auto simp: delays_ok_def close_interval_def interval_ok_def split: option.splits)
  moreover have "ts_ns e \<le> now" if "map_of (AList.delete p (pending_wakeups st)) q = Some e" for q e
    using assms(1,2) that by (fastforce simp: delays_ok_def delete_conv' split: if_splits)
  ultimately show ?thesis by (simp add: delays_ok_def switch_in_def)
qed

lemma switch_in_inv:
  assumes "trace_inv pids t st" "t \<le> now" "p \<in> set pids"
  shows "trace_inv pids now (switch_in p now st)"
proof -
  have i: "life_ok pids t (life st)" "starts_ok t (life st) (off_cpu_start st)"
    "starts_ok t (life st) (on_cpu_start st)" "delays_ok pids t st"
    using assms(1) by (simp_all add: trace_inv_def)
  have "life (switch_in p now st) = on_cpu st @ close_interval p (map_of (off_cpu_start st) p) now (off_cpu st)"
    by (simp add: life_def switch_in_def)
  note c = closed_interval [OF i(1,2) assms(2,3) life_def disjI2 [OF this]]
  show ?thesis
    using c(1) c(2) [OF i(2)] c(3) [OF i(3)] switch_in_delays [OF i(4) assms(2,3)]
    by (simp add: trace_inv_def switch_in_def)
qed

lemma switch_pids:
  "switch_out_pid e pids = Some p \<Longrightarrow> p \<in> set pids" "switch_in_pid e pids = Some p \<Longrightarrow> p \<in> set pids"
  "target_from_wakeup e pids = Some p \<Longrightarrow> p \<in> set pids"
  by (auto simp: switch_out_pid_def switch_in_pid_def target_in_def target_from_wakeup_def Let_def
      split: if_splits option.splits)

lemma trace_inv_records:
  "trace_inv pids t (st\<lparr>runtime_samples := r\<rparr>) = trace_inv pids t st"
  "trace_inv pids t (st\<lparr>throttle_events := x\<rparr>) = trace_inv pids t st"
  by (simp_all add: trace_inv_def life_def delays_ok_def)

lemma wakeup_inv:
  assumes "trace_inv pids t st" "t \<le> ts_ns e"
  shows "trace_inv pids (ts_ns e) (st\<lparr>pending_wakeups := AList.update p e (pending_wakeups st)\<rparr>)"
  using trace_inv_mono [OF assms]
  by (auto simp: trace_inv_def delays_ok_def life_def update_conv')

lemma trace_step_inv:
  assumes "trace_inv pids t st" "t \<le> ts_ns e"
  shows "trace_inv pids (ts_ns e) (trace_step pids st e)"
proof -
  note m = trace_inv_mono [OF assms]
  define st1 where "st1 = (case switch_out_pid e pids of Some p \<Rightarrow> switch_out p (ts_ns e) st | None \<Rightarrow> st)"
  have st1: "trace_inv pids (ts_ns e) st1"
    using m switch_out_inv [OF assms] switch_pids(1) by (auto simp: st1_def split: option.splits)
  have "trace_inv pids (ts_ns e)
      (case switch_in_pid e pids of Some p \<Rightarrow> switch_in p (ts_ns e) st1 | None \<Rightarrow> st1)"
    using st1 switch_in_inv [OF st1 order_refl] switch_pids(2) by (auto split: option.splits)
  then show ?thesis
    using m wakeup_inv [OF assms]
    by (simp add: trace_step_def trace_inv_records Let_def st1_def [symmetric] split: option.split)
qed

lemma reach_inv: "reach pids t st \<Longrightarrow> trace_inv pids t st"
  by (induction rule: reach.induct) (rule trace_inv_init, rule trace_step_inv)

lemma run_reaches:
  "reach pids t st \<Longrightarrow> sorted (map ts_ns es) \<Longrightarrow> (\<And>e. e \<in> set es \<Longrightarrow> t \<le> ts_ns e) \<Longrightarrow>
     \<exists>t'. reach pids t' (foldl (trace_step pids) st es)"
proof (induction es arbitrary: t st)
  case (Cons e es)
  have "reach pids (ts_ns e) (trace_step pids st e)"
    using Cons.prems(1) Cons.prems(3) [of e] by (auto intro: reach.step)
  then show ?case using Cons.IH [of "ts_ns e"] Cons.prems(2) by simp
qed auto

lemma run_trace_inv: "\<exists>t. trace_inv pids t (run_trace pids events)"
proof (cases "sort_key ts_ns events")
  case Nil
  then show ?thesis using trace_inv_init by (auto simp: run_trace_def)
next
  case (Cons e es)
  have "sorted (map ts_ns (sort_key ts_ns events))" by simp
  then have "\<exists>t'. reach pids t' (run_trace pids events)"
    unfolding run_trace_def using Cons
    by (intro run_reaches [where t = "ts_ns e"]) (auto intro: reach.start)
  then show ?thesis using reach_inv by blast
qed

section \<open>Counting switches\<close>

definition switch_count :: "trace_state \<Rightarrow> int \<Rightarrow> nat" where
  "switch_count st p = (case map_of (switches st) p of Some n \<Rightarrow> n | None \<Rightarrow> 0)"

definition switches_in :: "int list \<Rightarrow> int \<Rightarrow> trace_event \<Rightarrow> bool" where
  "switches_in pids p e \<longleftrightarrow> ev_event e = ''sched_switch'' \<and> switch_in_pid e pids = Some p"

lemma switch_in_related: "switch_in_pid e pids = Some p \<Longrightarrow> related e pids"
  by (auto simp: switch_in_pid_def related_def split: if_splits)

lemma trace_step_count:
  "switch_count (trace_step pids st e) p = switch_count st p + (if switches_in pids p e then 1 else 0)"
proof -
  have o: "switches (case switch_out_pid e pids of Some q \<Rightarrow> switch_out q (ts_ns e) st | None \<Rightarrow> st) = switches st"
    by (simp add: switch_out_def split: option.split)
  have "\<not> switches_in pids p e" if "\<not> related e pids"
    using that switch_in_related by (auto simp: switches_in_def)
  then show ?thesis
    using o by (auto simp: trace_step_def switches_in_def switch_count_def switch_in_def Let_def
        WAKEUP_EVENTS_def update_conv' split: option.splits)
qed

lemma foldl_count:
  "switch_count (foldl (trace_step pids) st es) p
    = switch_count st p + length (filter (switches_in pids p) es)"
  by (induction es arbitrary: st) (simp_all add: trace_step_count)

section \<open>Properties\<close>

text \<open>
  C34: the summary accounts for every moment of a task at most once. Whatever the order of the
  records in the trace, every recorded interval on the CPU, off the CPU or in the run queue
  belongs to a target task and has a non-negative length equal to the difference of its ends,
  and no two intervals of the same task, on or off the CPU, overlap.
\<close>

theorem trace_intervals_disjoint:
  "list_all (interval_ok pids) (on_cpu (run_trace pids events) @ off_cpu (run_trace pids events)
       @ delays (run_trace pids events))
    \<and> sorted_wrt apart (on_cpu (run_trace pids events) @ off_cpu (run_trace pids events))"
proof -
  obtain t where "trace_inv pids t (run_trace pids events)" using run_trace_inv by blast
  then show ?thesis by (simp add: trace_inv_def life_ok_def delays_ok_def life_def)
qed

text \<open>
  The context switches reported for a task are the switches to it: their number is the number
  of switch records of the trace that put the task on a CPU.
\<close>

theorem trace_switch_count:
  "switch_count (run_trace pids events) p = length (filter (switches_in pids p) events)"
proof -
  have "switch_count init_state p = 0" by (simp add: switch_count_def init_state_def)
  moreover have "length (filter (switches_in pids p) (sort_key ts_ns events))
      = length (filter (switches_in pids p) events)"
    by (metis mset_filter mset_sort size_mset)
  ultimately show ?thesis by (simp add: run_trace_def foldl_count)
qed

end
