(* ===== verification/Esl.thy ===== *)
theory Esl
  imports Py_Base64 Py_Text Py_Files
begin

text \<open>
  The Secure Boot signature lists of the guest firmware (\<open>scripts/edk2_esl.py\<close>): GUIDs in the
  mixed byte order of EFI, one \<open>EFI_SIGNATURE_LIST\<close> over DER certificates with its 32-bit size
  fields, the reader of PEM and DER files, and the C header. Bytes are 8-bit characters;
  \<open>struct.pack\<close> and \<open>bytes.fromhex\<close> are modelled with the values they reject.
\<close>

section \<open>Numbers and bytes of the standard library\<close>

fun hex_body :: "string \<Rightarrow> bool" where
  "hex_body [] = False"
| "hex_body [c] = (hex_val c \<noteq> None)"
| "hex_body (c # d # cs) =
     (hex_val c \<noteq> None \<and> (if d = CHR ''_'' then hex_body cs else hex_body (d # cs)))"

definition hex_number :: "string \<Rightarrow> int" where
  "hex_number s = foldl (\<lambda>a c. 16 * a + (case hex_val c of Some v \<Rightarrow> int v | None \<Rightarrow> 0)) 0 s"

text \<open>\<open>int(s, 16)\<close>: a sign, a prefix \<open>0x\<close> that one underscore may follow, and single underscores.\<close>

definition py_int16 :: "string \<Rightarrow> int res" where
  "py_int16 s0 =
     (let s = strip s0;
          neg = (s \<noteq> [] \<and> hd s = CHR ''-'');
          body = (if s \<noteq> [] \<and> (hd s = CHR ''-'' \<or> hd s = CHR ''+'') then tl s else s);
          bare = (if take 2 body \<in> {''0x'', ''0X''} then drop 2 body else body);
          digits = (if bare \<noteq> body \<and> bare \<noteq> [] \<and> hd bare = CHR ''_'' then tl bare else bare);
          n = hex_number (filter (\<lambda>c. c \<noteq> CHR ''_'') digits)
      in require (hex_body digits) ValueError
           (''invalid literal for int() with base 16: '' @ repr_str s0) (
         Inr (if neg then - n else n)))"

definition ascii_space :: "char \<Rightarrow> bool" where
  "ascii_space c \<longleftrightarrow> c \<in> set [CHR '' '', CHR 0x09, CHR 0x0A, CHR 0x0B, CHR 0x0C, CHR 0x0D]"

text \<open>\<open>bytes.fromhex(s)\<close>: pairs of digits, with white space between the pairs.\<close>

definition fromhex_error :: "nat \<Rightarrow> 'a res" where
  "fromhex_error i =
     raise ValueError (''non-hexadecimal number found in fromhex() arg at position '' @ show_nat i)"

fun fromhex :: "nat \<Rightarrow> string \<Rightarrow> string res" where
  "fromhex i [] = Inr []"
| "fromhex i [c] =
     (if ascii_space c then Inr [] else fromhex_error (if hex_val c = None then i else i + 1))"
| "fromhex i (c # d # cs) =
     (if ascii_space c then fromhex (i + 1) (d # cs)
      else case (hex_val c, hex_val d) of
        (Some a, Some b) \<Rightarrow> rbind (fromhex (i + 2) cs) (\<lambda>r. Inr (char_of (16 * a + b) # r))
      | (Some _, None) \<Rightarrow> fromhex_error (i + 1)
      | (None, _) \<Rightarrow> fromhex_error i)"

text \<open>
  \<open>struct.pack\<close> of one unsigned little-endian field of \<open>w\<close> bytes; the wording of its error is
  left out.
\<close>

fun le_bytes :: "nat \<Rightarrow> int \<Rightarrow> string" where
  "le_bytes 0 n = []"
| "le_bytes (Suc w) n = char_of (n mod 256) # le_bytes w (n div 256)"

definition pack_le :: "nat \<Rightarrow> int \<Rightarrow> string res" where
  "pack_le w n = require (0 \<le> n \<and> n < 2 ^ (8 * w)) StructError []
     (Inr (le_bytes w n))"

section \<open>Signature lists\<close>

definition EFI_CERT_X509_GUID :: string where
  "EFI_CERT_X509_GUID = ''a5c059a1-94e4-4aa7-87b5-ab155c2bf072''"

definition K8LABS_OWNER_GUID :: string where
  "K8LABS_OWNER_GUID = ''6b1b3c1e-6f4a-4c8e-9b2d-0f7a5c3e1d42''"

definition guid_bytes :: "string \<Rightarrow> string res" where
  "guid_bytes v =
     (let parts = split_on CHR ''-'' (strip v) in
      require (length parts = 5) ValueError (''invalid GUID: '' @ repr_str v) (
      rbind (py_int16 (parts ! 0)) (\<lambda>data1.
      rbind (py_int16 (parts ! 1)) (\<lambda>data2.
      rbind (py_int16 (parts ! 2)) (\<lambda>data3.
      rbind (fromhex 0 (parts ! 3 @ parts ! 4)) (\<lambda>data4.
      require (length data4 = 8) ValueError (''invalid GUID: '' @ repr_str v) (
      rbind (pack_le 4 data1) (\<lambda>b1. rbind (pack_le 2 data2) (\<lambda>b2. rbind (pack_le 2 data3) (\<lambda>b3.
      Inr (b1 @ b2 @ b3 @ data4)))))))))))"

definition build_signature_list :: "string list \<Rightarrow> string res" where
  "build_signature_list certificates =
     require (certificates \<noteq> []) ValueError ''at least one certificate is required'' (
     rbind (guid_bytes K8LABS_OWNER_GUID) (\<lambda>owner.
     let entries = concat (map (\<lambda>cert. owner @ cert) certificates);
         signature_size = length owner + length (hd certificates) in
     rbind (rforeach (\<lambda>cert. require (length owner + length cert = signature_size) ValueError
       ''all certificates in one list must have equal size'' (Inr ())) certificates) (\<lambda>_.
     rbind (guid_bytes EFI_CERT_X509_GUID) (\<lambda>header.
     let list_size = 16 + 4 + 4 + 4 + length entries in
     rbind (pack_le 4 (int list_size)) (\<lambda>b1. rbind (pack_le 4 0) (\<lambda>b2.
     rbind (pack_le 4 (int signature_size)) (\<lambda>b3.
     Inr (header @ b1 @ b2 @ b3 @ entries))))))))"

section \<open>Certificates\<close>

definition BEGIN_MARK :: string where
  "BEGIN_MARK = ''-----BEGIN CERTIFICATE-----''"

definition END_MARK :: string where
  "END_MARK = ''-----END CERTIFICATE-----''"

text \<open>The loop over the lines: the body lines collected, \<open>inside\<close> once the first marker was seen.\<close>

fun pem_body :: "bool \<Rightarrow> string list \<Rightarrow> string list" where
  "pem_body inside [] = []"
| "pem_body inside (line # lines) =
     (if prefix BEGIN_MARK line then pem_body True lines
      else if prefix END_MARK line then []
      else if inside then strip line # pem_body inside lines
      else pem_body inside lines)"

definition read_der_certificate :: "path \<Rightarrow> fs \<Rightarrow> string res" where
  "read_der_certificate p fs =
     rbind (read_bytes fs p) (\<lambda>raw.
     if \<not> str_in BEGIN_MARK raw then Inr raw
     else require (list_all (\<lambda>c. code c < 128) raw) UnicodeDecodeError [] (
       let body = pem_body False (splitlines raw) in
       require (body \<noteq> []) ValueError (''no certificate body found in '' @ path_text p) (
       py_b64decode (concat body))))"

section \<open>The C header\<close>

definition hex_digit :: "nat \<Rightarrow> char" where
  "hex_digit n = ''0123456789abcdef'' ! (n mod 16)"

definition byte_text :: "char \<Rightarrow> string" where
  "byte_text c = ''0x'' @ [hex_digit (code c div 16), hex_digit (code c)]"

function chunks :: "nat \<Rightarrow> 'a list \<Rightarrow> 'a list list" where
  "chunks n xs = (if n = 0 \<or> xs = [] then [] else take n xs # chunks n (drop n xs))"
  by pat_completeness auto
termination by (relation "measure (\<lambda>(n, xs). length xs)") auto

declare chunks.simps [simp del]

definition header_lines :: "string \<times> string \<Rightarrow> string list res" where
  "header_lines = (\<lambda>(name, blob).
     require (blob \<noteq> []) ValueError (''empty signature list for '' @ name) (
     Inr ([''STATIC CONST UINT8  '' @ name @ ''[] = {'']
       @ map (\<lambda>chunk. ''  '' @ join '', '' (map byte_text chunk) @ '','') (chunks 12 blob)
       @ [''};'', ''#define '' @ name @ ''_SIZE  (sizeof ('' @ name @ ''))'', []])))"

definition to_c_header :: "(string \<times> string) list \<Rightarrow> string res" where
  "to_c_header blobs =
     rbind (rmap header_lines blobs) (\<lambda>bodies.
     Inr (join nl ([''/** @file'', ''  Generated by scripts/edk2_esl.py. Do not edit.'', [],
       ''  SPDX-License-Identifier: BSD-2-Clause-Patent'', ''**/'', [],
       ''#ifndef K8LABS_SECURE_BOOT_KEYS_H_'', ''#define K8LABS_SECURE_BOOT_KEYS_H_'', []]
       @ concat bodies @ [''#endif'', []])))"

definition esl_main :: "path \<Rightarrow> path \<Rightarrow> path option \<Rightarrow> string list io" where
  "esl_main certificate output header_out =
     io_bind (io_read (read_der_certificate certificate)) (\<lambda>der.
     io_bind (io_lift (build_signature_list [der])) (\<lambda>esl.
     io_then (io_do (write_bytes output esl)) (
     let wrote = ''wrote '' @ path_text output in
     case header_out of
       None \<Rightarrow> io_return [wrote]
     | Some p \<Rightarrow>
         io_bind (io_lift (to_c_header [(''K8LABS_PK_ESL'', esl), (''K8LABS_KEK_ESL'', esl),
           (''K8LABS_DB_ESL'', esl)])) (\<lambda>header.
         io_then (io_do (write_bytes p (utf8_encode header))) (
         io_return [wrote, ''wrote '' @ path_text p])))))"

section \<open>Reading a signature list\<close>

text \<open>
  The format of the UEFI specification: the type, the size of the list, of its header and of one
  signature, then the signatures, each an owner followed by the certificate.
\<close>

definition le_number :: "string \<Rightarrow> nat" where
  "le_number s = nat (foldr (\<lambda>c n. of_char c + 256 * n) s 0)"

definition parse_esl :: "string \<Rightarrow> (string \<times> (string \<times> string) list) option" where
  "parse_esl blob =
     (let list_size = le_number (take 4 (drop 16 blob)); header_size = le_number (take 4 (drop 20 blob));
          size = le_number (take 4 (drop 24 blob)); body = drop (28 + header_size) blob in
      if length blob < 28 \<or> list_size \<noteq> length blob \<or> size < 16 \<or> length body mod size \<noteq> 0 then None
      else Some (take 16 blob, map (\<lambda>e. (take 16 e, drop 16 e)) (chunks size body)))"

text \<open>The two GUIDs as the firmware stores them.\<close>

definition X509_TYPE :: string where
  "X509_TYPE = map char_of [0xa1, 0x59, 0xc0, 0xa5, 0xe4, 0x94, 0xa7, 0x4a, 0x87, 0xb5, 0xab, 0x15, 0x5c,
     0x2b, 0xf0, 0x72 :: nat]"

definition LAB_OWNER :: string where
  "LAB_OWNER = map char_of [0x1e, 0x3c, 0x1b, 0x6b, 0x4a, 0x6f, 0x8e, 0x4c, 0x9b, 0x2d, 0x0f, 0x7a, 0x5c,
     0x3e, 0x1d, 0x42 :: nat]"

lemma guid_bytes_constants:
  "guid_bytes EFI_CERT_X509_GUID = Inr X509_TYPE" "guid_bytes K8LABS_OWNER_GUID = Inr LAB_OWNER"
  by code_simp+

lemma length_guids [simp]: "length X509_TYPE = 16" "length LAB_OWNER = 16"
  by (simp_all add: X509_TYPE_def LAB_OWNER_def)

lemma length_le_bytes [simp]: "length (le_bytes w n) = w"
  by (induction w arbitrary: n) simp_all

lemma fold_le_bytes: "0 \<le> n \<Longrightarrow> n < 256 ^ w \<Longrightarrow> foldr (\<lambda>c n. of_char c + 256 * n) (le_bytes w n) 0 = n"
proof (induction w arbitrary: n)
  case (Suc w)
  then have "n < 256 ^ w * 256" by simp
  then have "n div 256 < 256 ^ w" by linarith
  then show ?case using Suc.IH [of "n div 256"] Suc.prems(1) by simp
qed simp

lemma le_number_bytes: "n < 256 ^ w \<Longrightarrow> le_number (le_bytes w (int n)) = n"
  using fold_le_bytes [of "int n" w] by (simp add: le_number_def)

lemma pack_le_4:
  "pack_le 4 (int n) = (if n < 2 ^ 32 then Inr (le_bytes 4 (int n))
     else raise StructError [])"
  by (simp add: pack_le_def require_def)

lemma chunks_concat: "0 < k \<Longrightarrow> list_all (\<lambda>x. length x = k) xs \<Longrightarrow> chunks k (concat xs) = xs"
proof (induction xs)
  case (Cons x xs)
  then have "x \<noteq> []" by auto
  then show ?case using Cons by (subst chunks.simps) simp
qed (simp add: chunks.simps)

lemma length_concat_equal: "list_all (\<lambda>x. length x = k) xs \<Longrightarrow> length (concat xs) = length xs * k"
  by (induction xs) simp_all

lemma concat_chunks: "0 < n \<Longrightarrow> concat (chunks n xs) = xs"
proof (induction n xs rule: chunks.induct)
  case (1 n xs)
  then show ?case by (subst chunks.simps) simp
qed

lemma parse_built:
  assumes "list_all (\<lambda>e. length e = 16 + k) es" "28 + length es * (16 + k) < 2 ^ 32" "length t = 16" "es \<noteq> []"
  shows "parse_esl (t @ le_bytes 4 (int (28 + length es * (16 + k))) @ le_bytes 4 0 @ le_bytes 4 (int (16 + k)) @ concat es)
    = Some (t, map (\<lambda>e. (take 16 e, drop 16 e)) es)"
proof -
  have l: "length (concat es) = length es * (16 + k)" using assms(1) by (rule length_concat_equal)
  have "1 * (16 + k) \<le> length es * (16 + k)" using assms(4) by (intro mult_le_mono1) (simp add: Suc_le_eq)
  then have "16 + k < 2 ^ 32" using assms(2) by (simp only: mult_1)
  then have n: "le_number (le_bytes 4 (int (28 + length es * (16 + k)))) = 28 + length es * (16 + k)"
    "le_number (le_bytes 4 (int (16 + k))) = 16 + k" "le_number (le_bytes 4 0) = 0"
    using assms(2) le_number_bytes [of 0 4] by (simp_all add: le_number_bytes del: le_bytes.simps of_nat_add of_nat_mult)
  show ?thesis
    using assms(3) n l chunks_concat [OF _ assms(1)] by (simp add: parse_esl_def Let_def del: le_bytes.simps of_nat_add of_nat_mult)
qed

section \<open>Reading a certificate\<close>

definition pem_text :: "string list \<Rightarrow> string" where
  "pem_text ls = BEGIN_MARK @ nl @ concat (map (\<lambda>l. l @ nl) ls) @ END_MARK @ nl"

definition pem_char :: "char \<Rightarrow> bool" where
  "pem_char c \<longleftrightarrow> code c < 128 \<and> \<not> py_isspace c \<and> \<not> is_linebreak c \<and> c \<noteq> CHR ''-''"

lemma pem_char_b64: "pem_char (b64_char n)"
proof -
  have "list_all (\<lambda>n. pem_char (b64_char n)) [0 ..< 64]" by code_simp
  then have "pem_char (b64_char (n mod 64))" unfolding list_all_iff by (rule bspec) simp
  then show ?thesis by (simp add: b64_char_def)
qed

lemma pem_char_encode: "list_all pem_char (b64encode s)"
proof -
  have "pem_char CHR ''=''" by code_simp
  then show ?thesis by (induction s rule: b64encode.induct) (simp_all add: pem_char_b64)
qed

lemma strip_pem_line: "list_all pem_char l \<Longrightarrow> strip l = l"
proof (cases "l = []")
  case False
  moreover assume "list_all pem_char l"
  ultimately have "is_word l" by (auto simp: is_word_def list_all_iff pem_char_def)
  then show ?thesis by simp
qed (simp add: strip_def)

lemma pem_body_lines:
  "list_all (list_all pem_char) ls \<Longrightarrow> pem_body True (ls @ [END_MARK]) = ls"
proof (induction ls)
  case (Cons l ls)
  then have "\<not> prefix BEGIN_MARK l" "\<not> prefix END_MARK l"
    by (auto simp: BEGIN_MARK_def END_MARK_def pem_char_def elim!: prefixE)
  then show ?case using Cons by (simp add: strip_pem_line)
qed (simp add: BEGIN_MARK_def END_MARK_def)

lemma splitlines_pem:
  "list_all (list_all pem_char) ls \<Longrightarrow>
     splitlines (concat (map (\<lambda>l. l @ nl) ls) @ END_MARK @ nl) = ls @ [END_MARK]"
proof (induction ls)
  case Nil
  have "splitlines (END_MARK @ nl) = [END_MARK]" by code_simp
  then show ?case by simp
next
  case (Cons l ls)
  then have "list_all (\<lambda>c. \<not> is_linebreak c) l" by (auto simp: list_all_iff pem_char_def)
  from splitlines_first [OF this] Cons show ?case by simp
qed

lemma read_pem:
  assumes "lookup fs p = Some (File (pem_text ls))" "concat ls = b64encode der" "ls \<noteq> []"
  shows "read_der_certificate p fs = Inr der"
proof -
  have c: "list_all (list_all pem_char) ls"
    using pem_char_encode [of der] unfolding assms(2) [symmetric] by (simp add: list_all_iff)
  have "splitlines (pem_text ls) = BEGIN_MARK # ls @ [END_MARK]"
    using splitlines_first [of BEGIN_MARK] splitlines_pem [OF c]
    by (simp add: pem_text_def) (simp add: BEGIN_MARK_def is_linebreak_def)
  then have b: "pem_body False (splitlines (pem_text ls)) = ls" using pem_body_lines [OF c] by simp
  have "list_all (\<lambda>c. code c < 128) (BEGIN_MARK @ nl)" "list_all (\<lambda>c. code c < 128) (END_MARK @ nl)"
    by code_simp+
  then have a: "list_all (\<lambda>c. code c < 128) (pem_text ls)"
    using c by (auto simp: pem_text_def list_all_iff pem_char_def nl_def)
  have "str_in BEGIN_MARK (BEGIN_MARK @ r)" for r by (simp add: BEGIN_MARK_def)
  then have "str_in BEGIN_MARK (pem_text ls)" by (simp add: pem_text_def)
  then show ?thesis
    using assms a b by (simp add: read_der_certificate_def read_bytes_def require_def Let_def)
qed

lemma sizes_checked:
  "rforeach (\<lambda>cert. require (length o1 + length cert = length o1 + n) e m (Inr ())) certs
    = (if list_all (\<lambda>c. length c = n) certs then Inr () else raise e m)"
  by (induction certs) (simp_all add: require_def)

lemma build_signature_list_eq:
  "build_signature_list certs =
     (if certs = [] then raise ValueError ''at least one certificate is required''
      else if \<not> list_all (\<lambda>c. length c = length (hd certs)) certs
      then raise ValueError ''all certificates in one list must have equal size''
      else let n = 28 + length certs * (16 + length (hd certs)) in
        if 2 ^ 32 \<le> n then raise StructError []
        else Inr (X509_TYPE @ le_bytes 4 (int n) @ le_bytes 4 0 @ le_bytes 4 (int (16 + length (hd certs)))
          @ concat (map (\<lambda>c. LAB_OWNER @ c) certs)))"
proof (cases "certs \<noteq> [] \<and> list_all (\<lambda>c. length c = length (hd certs)) certs")
  case True
  define k where "k = length (hd certs)"
  have a: "certs \<noteq> []" "list_all (\<lambda>c. length c = k) certs" using True unfolding k_def by blast+
  have l: "length (concat (map (\<lambda>c. LAB_OWNER @ c) certs)) = length certs * (16 + k)"
    using length_concat_equal [of "16 + k" "map (\<lambda>c. LAB_OWNER @ c) certs"] a(2)
    by (simp add: list_all_iff)
  have "1 * (16 + k) \<le> length certs * (16 + k)" using a(1) by (intro mult_le_mono1) (simp add: Suc_le_eq)
  then have s: "16 + k < 2 ^ 32" if "28 + length certs * (16 + k) < 2 ^ 32" using that by (simp only: mult_1)
  have c: "16 + 4 + 4 + 4 + length (concat (map (\<lambda>c. LAB_OWNER @ c) certs)) = 28 + length certs * (16 + k)"
    unfolding l by simp
  have z: "pack_le 4 0 = Inr (le_bytes 4 0)" using pack_le_4 [of 0] by simp
  show ?thesis
    using a s
    unfolding build_signature_list_def guid_bytes_constants rbind_simps Let_def length_guids
      sizes_checked [of LAB_OWNER, unfolded length_guids] c k_def [symmetric] pack_le_4 z
    by (simp add: require_def not_le del: le_bytes.simps of_nat_add of_nat_mult)
next
  case False
  then show ?thesis
    unfolding build_signature_list_def guid_bytes_constants rbind_simps Let_def length_guids
      sizes_checked [of LAB_OWNER, unfolded length_guids]
    by (auto simp: require_def simp del: le_bytes.simps)
qed

lemma parse_build:
  assumes "build_signature_list certs = Inr blob"
  shows "parse_esl blob = Some (X509_TYPE, map (Pair LAB_OWNER) certs)"
proof -
  define k where "k = length (hd certs)"
  define es where "es = map (\<lambda>c. LAB_OWNER @ c) certs"
  have a: "certs \<noteq> []" "list_all (\<lambda>c. length c = k) certs" "28 + length certs * (16 + k) < 2 ^ 32"
    and b: "blob = X509_TYPE @ le_bytes 4 (int (28 + length es * (16 + k))) @ le_bytes 4 0
      @ le_bytes 4 (int (16 + k)) @ concat es"
    using assms unfolding build_signature_list_eq k_def [symmetric] es_def [symmetric]
    by (simp_all add: Let_def es_def not_le del: le_bytes.simps of_nat_add of_nat_mult split: if_splits)
  have "list_all (\<lambda>e. length e = 16 + k) es" using a(2) by (simp add: es_def list_all_iff)
  from parse_built [OF this _ length_guids(1)] have
    "parse_esl blob = Some (X509_TYPE, map (\<lambda>e. (take 16 e, drop 16 e)) es)"
    using a b by (simp add: es_def del: le_bytes.simps of_nat_add of_nat_mult)
  then show ?thesis by (simp add: es_def)
qed

section \<open>Properties\<close>

text \<open>
  C35: a signature list is built exactly from a non-empty list of certificates of one size whose
  total fits the 32-bit size field, and reading it back as the UEFI specification says gives the
  X.509 type and the same certificates in order, each under the owner of the laboratory. In every
  other case an exception is raised and nothing is built.
\<close>

theorem signature_list_round_trip:
  "if certs \<noteq> [] \<and> list_all (\<lambda>c. length c = length (hd certs)) certs
      \<and> 28 + length certs * (16 + length (hd certs)) < 2 ^ 32
   then \<exists>blob. build_signature_list certs = Inr blob
      \<and> parse_esl blob = Some (X509_TYPE, map (Pair LAB_OWNER) certs)
   else \<exists>e. build_signature_list certs = Inl e"
proof -
  have "(\<exists>blob. build_signature_list certs = Inr blob) \<longleftrightarrow> certs \<noteq> []
      \<and> list_all (\<lambda>c. length c = length (hd certs)) certs
      \<and> 28 + length certs * (16 + length (hd certs)) < 2 ^ 32"
    unfolding build_signature_list_eq Let_def by (simp add: not_le del: le_bytes.simps)
  then show ?thesis
    using parse_build by (cases "build_signature_list certs") (auto simp del: le_bytes.simps)
qed

text \<open>
  The command enrols the certificate it is given. For a PEM file, however its base64 body is
  broken into lines, it returns and the output file holds a signature list with exactly that
  certificate, under the owner of the laboratory.
\<close>

theorem esl_main_enrolls:
  assumes "lookup fs p = Some (File (pem_text ls))" "concat ls = b64encode der" "ls \<noteq> []"
    and "44 + length der < 2 ^ 32" "is_dir fs (butlast out)" "\<not> is_dir fs out"
  shows "\<exists>printed fs' blob. esl_main p out None fs = (Inr printed, fs')
    \<and> lookup fs' out = Some (File blob) \<and> parse_esl blob = Some (X509_TYPE, [(LAB_OWNER, der)])"
proof -
  have "\<exists>blob. build_signature_list [der] = Inr blob"
    using assms(4) unfolding build_signature_list_eq Let_def by (simp del: le_bytes.simps)
  then obtain blob where b: "build_signature_list [der] = Inr blob" by blast
  have out: "out \<noteq> []" using assms(6) by (auto simp: is_dir_def lookup_def)
  have w: "write_bytes out blob fs = Inr (AList.update out (File blob) fs)"
    using assms(5,6) by (simp add: write_bytes_def)
  have "esl_main p out None fs = (Inr [''wrote '' @ path_text out], AList.update out (File blob) fs)"
    using read_pem [OF assms(1-3)] b w by (simp add: esl_main_def Let_def)
  moreover have "lookup (AList.update out (File blob) fs) out = Some (File blob)"
    using out by (simp add: lookup_def update_conv')
  ultimately show ?thesis using parse_build [OF b] by auto
qed

theorem esl_main_enrolls_witness:
  "\<exists>printed fs' blob. esl_main [''c.pem''] [''out''] None
      [([''c.pem''], File (pem_text [''MIIB'', ''AgM='']))] = (Inr printed, fs')
    \<and> lookup fs' [''out''] = Some (File blob)
    \<and> parse_esl blob = Some (X509_TYPE, [(LAB_OWNER, [CHR ''0'', CHR 0x82, CHR 0x01, CHR 0x02, CHR 0x03])])"
proof (rule esl_main_enrolls)
  show "concat [''MIIB'', ''AgM=''] = b64encode [CHR ''0'', CHR 0x82, CHR 0x01, CHR 0x02, CHR 0x03]"
    by code_simp
qed (simp_all add: lookup_def is_dir_def)

end
