(* ===== verification/Offline.thy ===== *)
theory Offline
  imports Cache
begin

text \<open>
  The two commands over the cache: \<open>scripts/cache.py\<close> itself and the fail-closed gate
  \<open>scripts/offline.py\<close> that every network-capable target runs first. The value of \<open>OFFLINE\<close>, the
  parsed options and the root of the cache are arguments; a run returns its exit status with the
  lines it printed, and an exit through the argument parser is a \<open>SystemExit\<close>.
\<close>

section \<open>The cache command\<close>

record cache_args =
  arg_check :: bool
  arg_populate :: bool
  arg_check_upgrade_artifacts :: bool
  arg_populate_upgrade_artifacts :: bool
  arg_write_metadata :: bool
  arg_prune :: bool

definition offline_enabled :: "string option \<Rightarrow> bool" where
  "offline_enabled env = ((case env of Some v \<Rightarrow> v | None \<Rightarrow> ''0'') = ''1'')"

text \<open>A population that prints the directory; its runtime errors leave through the parser.\<close>

definition populate_step :: "bool \<Rightarrow> string \<Rightarrow> path io \<Rightarrow> string list io" where
  "populate_step offline refusal m =
     (if offline then io_raise SystemExit refusal
      else io_except (io_bind m (\<lambda>d. io_return [path_text d]))
        (\<lambda>e. if exn_of e = RuntimeError then io_raise SystemExit (msg_of e) else io_lift (Inl e)))"

definition report :: "string \<Rightarrow> string list \<Rightarrow> bool \<times> string list" where
  "report ready problems =
     (if problems \<noteq> [] then (False, map (\<lambda>p. ''ERROR: '' @ p) problems) else (True, [ready]))"

definition normal_check :: "cache_args \<Rightarrow> bool" where
  "normal_check a \<longleftrightarrow> arg_check a \<or> \<not> (arg_write_metadata a \<or> arg_prune a
     \<or> arg_populate_upgrade_artifacts a \<or> arg_check_upgrade_artifacts a)"

definition check_step :: "bool \<Rightarrow> string \<Rightarrow> (fs \<Rightarrow> string list res) \<Rightarrow> (bool \<times> string list) io" where
  "check_step wanted ready validate =
     (if wanted then io_bind (io_read validate) (\<lambda>problems. io_return (report ready problems))
      else io_return (True, []))"

definition cache_main ::
  "services \<Rightarrow> (string \<Rightarrow> pyval res) \<Rightarrow> path \<Rightarrow> string option \<Rightarrow> cache_args \<Rightarrow> path \<Rightarrow> (int \<times> string list) io" where
  "cache_main srv safe_load lock_file env a r =
     io_bind (io_read (\<lambda>fs. rbind (read_text fs lock_file) (load_lock safe_load))) (\<lambda>lock.
     io_bind (if arg_populate a
       then populate_step (offline_enabled env) ''OFFLINE=1 forbids cache population from the network''
         (populate srv lock r)
       else io_return []) (\<lambda>o1.
     io_bind (if arg_populate_upgrade_artifacts a
       then populate_step (offline_enabled env) ''OFFLINE=1 forbids Kubernetes upgrade artifact downloads''
         (populate_kubernetes_upgrade_artifacts srv lock r)
       else if arg_write_metadata a then io_bind (write_metadata lock r) (\<lambda>d. io_return [path_text d])
       else io_return []) (\<lambda>o2.
     io_bind (if arg_prune a
       then io_bind (prune lock r) (\<lambda>ps. io_return (map (\<lambda>p. ''removed '' @ path_text p) ps))
       else io_return []) (\<lambda>o3.
     io_bind (check_step (normal_check a) (''artifact cache ready: '' @ path_text (cache_dir lock r))
       (validate_cache lock r)) (\<lambda>(ok4, o4).
     if \<not> ok4 then io_return (1, o1 @ o2 @ o3 @ o4)
     else io_bind (check_step (arg_check_upgrade_artifacts a)
       (''guest upgrade artifacts ready: '' @ path_text (cache_dir lock r))
       (validate_kubernetes_upgrade_cache lock r)) (\<lambda>(ok5, o5).
     io_return (if ok5 then 0 else 1, o1 @ o2 @ o3 @ o4 @ o5)))))))"

section \<open>The offline gate\<close>

definition require_cache :: "path \<Rightarrow> pydict \<Rightarrow> fs \<Rightarrow> path res" where
  "require_cache cache_root lock fs =
     rbind (validate_cache lock cache_root fs) (\<lambda>problems.
     require (problems = []) SystemExit (''offline cache is incomplete for lock '' @ lock_digest lock
       @ '': '' @ join ''; '' problems) (
     Inr (cache_root @ [''locks'', lock_digest lock])))"

definition offline_main ::
  "(string \<Rightarrow> pyval res) \<Rightarrow> path \<Rightarrow> string option \<Rightarrow> path \<Rightarrow> string option \<Rightarrow> bool \<Rightarrow> (int \<times> string list) io" where
  "offline_main safe_load lock_file env cache_root digest network_operation =
     (if offline_enabled env \<and> network_operation
      then io_raise SystemExit
        ''OFFLINE=1 forbids network access; use verified local cache and registry artifacts''
      else if offline_enabled env then
        io_bind (io_read (\<lambda>fs. rbind (read_text fs lock_file) (load_lock safe_load))) (\<lambda>lock.
        io_bind (io_lift (require (digest = None \<or> digest = Some (lock_digest lock)) SystemExit
          ''offline lock digest does not match the supplied lock'' (Inr ()))) (\<lambda>_.
        io_bind (io_read (require_cache cache_root lock)) (\<lambda>cache.
        io_return (0, [path_text cache]))))
      else io_return (0, []))"

section \<open>Laws\<close>

definition check_only :: cache_args where
  "check_only = \<lparr> arg_check = True, arg_populate = False, arg_check_upgrade_artifacts = False,
     arg_populate_upgrade_artifacts = False, arg_write_metadata = False, arg_prune = False \<rparr>"

lemma check_only_zero:
  "(\<exists>out. cache_main srv safe_load lock_file env check_only r fs = (Inr (0, out), fs))
    \<longleftrightarrow> (\<exists>doc lock. read_text fs lock_file = Inr doc \<and> load_lock safe_load doc = Inr lock
      \<and> validate_cache lock r fs = Inr [])"
proof (cases "rbind (read_text fs lock_file) (load_lock safe_load)")
  case (Inl e)
  then have "\<not> (\<exists>doc lock. read_text fs lock_file = Inr doc \<and> load_lock safe_load doc = Inr lock)"
    by auto
  then show ?thesis using Inl by (auto simp: cache_main_def)
next
  case (Inr lock)
  then obtain doc where d: "read_text fs lock_file = Inr doc" "load_lock safe_load doc = Inr lock"
    by (cases "read_text fs lock_file") auto
  show ?thesis
    using Inr d by (cases "validate_cache lock r fs")
      (auto simp: cache_main_def check_only_def check_step_def normal_check_def report_def)
qed

lemma offline_zero:
  "(\<exists>out. offline_main safe_load lock_file (Some ''1'') r digest False fs = (Inr (0, out), fs))
    \<longleftrightarrow> (\<exists>doc lock. read_text fs lock_file = Inr doc \<and> load_lock safe_load doc = Inr lock
      \<and> (digest = None \<or> digest = Some (lock_digest lock)) \<and> validate_cache lock r fs = Inr [])"
proof (cases "rbind (read_text fs lock_file) (load_lock safe_load)")
  case (Inl e)
  then have "\<not> (\<exists>doc lock. read_text fs lock_file = Inr doc \<and> load_lock safe_load doc = Inr lock)"
    by auto
  then show ?thesis using Inl by (auto simp: offline_main_def offline_enabled_def)
next
  case (Inr lock)
  then obtain doc where d: "read_text fs lock_file = Inr doc" "load_lock safe_load doc = Inr lock"
    by (cases "read_text fs lock_file") auto
  show ?thesis
    using Inr d by (cases "validate_cache lock r fs")
      (auto simp: offline_main_def offline_enabled_def require_cache_def require_def)
qed

text \<open>Under \<open>OFFLINE=1\<close> neither population starts: the command stops before any file is touched.\<close>

lemma populate_refused_offline:
  assumes "arg_populate a \<or> arg_populate_upgrade_artifacts a \<and> \<not> arg_populate a"
  shows "\<exists>e. cache_main srv safe_load lock_file (Some ''1'') a r fs = (Inl e, fs)"
  using assms
  by (cases "rbind (read_text fs lock_file) (load_lock safe_load)")
    (auto simp: cache_main_def populate_step_def offline_enabled_def io_bind_def io_read_def io_raise_def
      io_return_def)

section \<open>Properties\<close>

text \<open>
  The offline gate and the check of the cache command agree. Under \<open>OFFLINE=1\<close> an operation
  that needs no network is let through exactly when \<open>cache.py --check\<close> exits with 0 on the same
  lock, root and files, and one that needs the network never is; both leave the files as they are.
\<close>

theorem offline_gate_equiv_check:
  "((\<exists>out. offline_main safe_load lock_file (Some ''1'') r None network fs = (Inr (0, out), fs))
      \<longleftrightarrow> \<not> network \<and> (\<exists>out. cache_main srv safe_load lock_file env check_only r fs = (Inr (0, out), fs)))
    \<and> snd (offline_main safe_load lock_file (Some ''1'') r None network fs) = fs
    \<and> snd (cache_main srv safe_load lock_file env check_only r fs) = fs"
proof -
  have n: "offline_main safe_load lock_file (Some ''1'') r None True fs \<noteq> (Inr x, fs)" for x
    by (simp add: offline_main_def offline_enabled_def)
  have "snd (offline_main safe_load lock_file (Some ''1'') r None network fs) = fs"
    by (auto simp: offline_main_def offline_enabled_def io_bind_def io_read_def io_lift_def io_return_def
        io_raise_def split: sum.splits)
  moreover have "snd (cache_main srv safe_load lock_file env check_only r fs) = fs"
    by (auto simp: cache_main_def check_only_def check_step_def normal_check_def io_bind_def io_read_def
        io_return_def split: sum.splits prod.splits)
  moreover have "(\<exists>out. offline_main safe_load lock_file (Some ''1'') r None network fs = (Inr (0, out), fs))
      \<longleftrightarrow> \<not> network \<and> (\<exists>out. cache_main srv safe_load lock_file env check_only r fs = (Inr (0, out), fs))"
    using n offline_zero [of safe_load lock_file r None fs] check_only_zero [of srv safe_load lock_file env r fs]
    by (cases network) auto
  ultimately show ?thesis by blast
qed

end
