(* ===== verification/Observer_Gate.thy ===== *)
theory Observer_Gate
  imports Py_Files
begin

text \<open>
  The offline check of the observer DaemonSet (\<open>linux-sched/observers/validate.py\<close>) that stands before
  every apply: which namespace, host access, volumes, capabilities and mounts a manifest may have. The
  documents of the manifest are values; the YAML reader is a parameter of the command. So is \<open>show_set\<close>,
  the text of a set, whose order Python does not fix.
\<close>

section \<open>Allow-lists\<close>

definition ALLOWED_HOST_PATHS :: "string list" where
  "ALLOWED_HOST_PATHS = [''/sys/kernel/tracing'', ''/sys/kernel/btf'', ''/boot'', ''/lib/modules'', ''/usr/src/kernels'',
     ''/var/tmp/linux-sched'', ''/var/lib/linux-sched/fixtures'', ''/var/lib/linux-sched/bin'', ''/sys/fs/cgroup'']"

definition WRITABLE_HOST_PATHS :: "string list" where
  "WRITABLE_HOST_PATHS = [''/var/tmp/linux-sched'']"

definition OBSERVER_CAPABILITIES :: "string list" where
  "OBSERVER_CAPABILITIES = [''BPF'', ''PERFMON'']"

definition CONTAINER_KEYS :: "string list" where
  "CONTAINER_KEYS = [''containers'', ''initContainers'', ''ephemeralContainers'']"

section \<open>Documents\<close>

text \<open>\<open>v.get(k, default)\<close> and \<open>v.get(k)\<close> of a value that should be a mapping.\<close>

definition val_get_or :: "pyval \<Rightarrow> string \<Rightarrow> pyval \<Rightarrow> pyval res" where
  "val_get_or v k dflt = as_dict v AttributeError ''object has no attribute get'' (\<lambda>d. Inr (dget_or d k dflt))"

definition val_get :: "pyval \<Rightarrow> string \<Rightarrow> pyval res" where
  "val_get v k = val_get_or v k VNone"

text \<open>\<open>v[k]\<close> of a value of which \<open>v.get\<close> was called before.\<close>

definition val_item :: "pyval \<Rightarrow> string \<Rightarrow> pyval res" where
  "val_item v k = as_dict v TypeError ''object is not subscriptable'' (\<lambda>d. ditem d k)"

text \<open>The errors of the turns of a loop, in order.\<close>

definition collect_errors :: "('a \<Rightarrow> string list res) \<Rightarrow> 'a list \<Rightarrow> string list res" where
  "collect_errors f xs = rbind (rmap f xs) (\<lambda>ess. Inr (concat ess))"

definition error_if :: "bool \<Rightarrow> string \<Rightarrow> string list" where
  "error_if c message = (if c then [message] else [])"

definition of_kind :: "string \<Rightarrow> pyval list \<Rightarrow> pyval list res" where
  "of_kind k docs = rbind (rmap (\<lambda>d. rbind (val_get d ''kind'') (\<lambda>v. Inr (d, v = VStr k))) docs) (\<lambda>ps.
     Inr (map fst (filter snd ps)))"

text \<open>The set of the names of the namespaces.\<close>

definition namespace_name :: "pyval \<Rightarrow> pyval res" where
  "namespace_name d = rbind (val_get_or d ''metadata'' (VDict [])) (\<lambda>meta. rbind (val_get meta ''name'') (\<lambda>name.
     require (hashable name) TypeError ''unhashable type'' (Inr name)))"

definition pod_spec :: "pyval \<Rightarrow> pyval res" where
  "pod_spec ds = rbind (val_get_or ds ''spec'' (VDict [])) (\<lambda>spec.
     rbind (val_get_or spec ''template'' (VDict [])) (\<lambda>template. val_get_or template ''spec'' (VDict [])))"

section \<open>The checks\<close>

definition namespace_errors :: "(pyval list \<Rightarrow> string) \<Rightarrow> pyval list \<Rightarrow> string \<Rightarrow> pyval \<Rightarrow> string list res" where
  "namespace_errors show_set names origin ns =
     require (hashable ns) TypeError ''unhashable type'' (
     Inr (error_if (\<not> list_ex (py_eq ns) names)
       (origin @ '': namespace '' @ py_repr ns @ '' is not one of '' @ show_set names)))"

definition host_errors :: "bool \<Rightarrow> string \<Rightarrow> pyval \<Rightarrow> string list res" where
  "host_errors allow_host_network origin spec =
     rbind (val_get spec ''hostPID'') (\<lambda>host_pid.
     rbind (val_get spec ''hostNetwork'') (\<lambda>host_network.
     rbind (val_get spec ''hostIPC'') (\<lambda>host_ipc.
     rbind (val_get spec ''automountServiceAccountToken'') (\<lambda>automount.
     rbind (val_get_or spec ''nodeSelector'' (VDict [])) (\<lambda>selector.
     rbind (val_get selector ''linux-sched/research'') (\<lambda>research.
     rbind (val_get_or spec ''securityContext'' (VDict [])) (\<lambda>context.
     rbind (val_get context ''privileged'') (\<lambda>privileged.
     Inr (error_if (host_pid \<noteq> VBool True) (origin @ '': observer needs hostPID to see host tasks'')
       @ error_if (truthy host_network \<and> \<not> allow_host_network) (origin @ '': observer must not use host network/IPC'')
       @ error_if (truthy host_ipc) (origin @ '': observer must not use host network/IPC'')
       @ error_if (automount \<noteq> VBool False) (origin @ '': pod must disable automatic token mounting'')
       @ error_if (research \<noteq> VStr ''observer'') (origin @ '': must be node-selected to research workers'')
       @ error_if (truthy privileged) (origin @ '': pod must not be privileged''))))))))))"

definition volume_errors :: "string \<Rightarrow> pyval \<Rightarrow> string list res" where
  "volume_errors origin volume =
     rbind (val_get volume ''hostPath'') (\<lambda>host_path.
     if \<not> truthy host_path then Inr []
     else rbind (val_get host_path ''path'') (\<lambda>p.
       if p = VStr ''/'' then Inr [origin @ '': volume uses hostPath /'']
       else rbind (str_in_set p ALLOWED_HOST_PATHS) (\<lambda>allowed.
         Inr (error_if (\<not> allowed) (origin @ '': unexpected hostPath '' @ py_repr p @ '' (allowed: ''
           @ py_repr (VList (map VStr (sort ALLOWED_HOST_PATHS))) @ '')'')))))"

text \<open>The dictionary from the name of a volume to its host path; a later volume of the same name wins.\<close>

definition host_volume :: "pyval \<Rightarrow> (pyval \<times> pyval) list res" where
  "host_volume volume =
     rbind (val_get volume ''hostPath'') (\<lambda>host_path.
     if \<not> truthy host_path then Inr []
     else rbind (val_item volume ''name'') (\<lambda>name. rbind (val_item host_path ''path'') (\<lambda>p.
       require (hashable name) TypeError ''unhashable type'' (Inr [(name, p)]))))"

definition host_volume_paths :: "pyval list \<Rightarrow> (pyval \<times> pyval) list res" where
  "host_volume_paths volumes = rbind (rmap host_volume volumes) (\<lambda>vs. Inr (concat vs))"

definition host_path_of :: "(pyval \<times> pyval) list \<Rightarrow> pyval \<Rightarrow> pyval" where
  "host_path_of paths name = (case find (\<lambda>(n, _). py_eq n name) (rev paths) of Some (_, p) \<Rightarrow> p | None \<Rightarrow> VNone)"

definition mount_errors :: "string \<Rightarrow> string \<Rightarrow> (pyval \<times> pyval) list \<Rightarrow> pyval \<Rightarrow> string list res" where
  "mount_errors origin key paths mount =
     rbind (val_get mount ''mountPath'') (\<lambda>mount_path.
     rbind (val_get mount ''name'') (\<lambda>name.
     require (hashable name) TypeError ''unhashable type'' (
     let at_root = error_if (mount_path = VStr ''/'') (origin @ '': '' @ key @ '' mounts host root'');
         host_path = host_path_of paths name in
     if host_path = VNone then Inr at_root
     else rbind (str_in_set host_path WRITABLE_HOST_PATHS) (\<lambda>writable.
       if writable then Inr at_root
       else rbind (val_get mount ''readOnly'') (\<lambda>read_only.
         Inr (at_root @ error_if (read_only \<noteq> VBool True)
           (origin @ '': host mount '' @ py_repr host_path @ '' in '' @ key @ '' must be readOnly'')))))))"

text \<open>The added capabilities, as a set of texts.\<close>

definition added_capabilities :: "pyval \<Rightarrow> pyval list res" where
  "added_capabilities context =
     rbind (val_get_or context ''capabilities'' (VDict [])) (\<lambda>capabilities.
     rbind (val_get_or capabilities ''add'' (VList [])) (\<lambda>add.
     rbind (iter_val (if truthy add then add else VList [])) (\<lambda>caps.
     require (list_all hashable caps) TypeError ''unhashable type'' (Inr caps))))"

definition capability_errors :: "string \<Rightarrow> pyval list \<Rightarrow> string list" where
  "capability_errors origin caps =
     (let missing = filter (\<lambda>c. VStr c \<notin> set caps) OBSERVER_CAPABILITIES in
      error_if (missing \<noteq> []) (origin @ '': observer missing capabilities '' @ py_repr (VList (map VStr (sort missing))))
      @ error_if (VStr ''SYS_ADMIN'' \<notin> set caps) (origin @ '': observer missing SYS_ADMIN''))"

definition container_errors :: "string \<Rightarrow> (pyval \<times> pyval) list \<Rightarrow> string \<times> pyval \<Rightarrow> string list res" where
  "container_errors origin paths = (\<lambda>(key, container).
     rbind (val_get_or container ''securityContext'' (VDict [])) (\<lambda>context.
     rbind (val_get context ''privileged'') (\<lambda>privileged.
     rbind (added_capabilities context) (\<lambda>caps.
     rbind (rbind (val_get_or container ''volumeMounts'' (VList [])) iter_val) (\<lambda>mounts.
     rbind (collect_errors (mount_errors origin key paths) mounts) (\<lambda>mount_es.
     Inr (error_if (truthy privileged) (origin @ '': container in '' @ key @ '' is privileged'')
       @ (if key = ''containers'' then capability_errors origin caps else []) @ mount_es)))))))"

definition containers_at :: "pyval \<Rightarrow> string \<Rightarrow> (string \<times> pyval) list res" where
  "containers_at spec key =
     rbind (val_get_or spec key (VList [])) (\<lambda>v.
     rbind (iter_val (if truthy v then v else VList [])) (\<lambda>cs. Inr (map (\<lambda>c. (key, c)) cs)))"

definition containers_errors :: "string \<Rightarrow> (pyval \<times> pyval) list \<Rightarrow> pyval \<Rightarrow> string \<Rightarrow> string list res" where
  "containers_errors origin paths spec key =
     rbind (containers_at spec key) (collect_errors (container_errors origin paths))"

definition daemonset_errors :: "(pyval list \<Rightarrow> string) \<Rightarrow> pyval list \<Rightarrow> bool \<Rightarrow> pyval \<Rightarrow> string list res" where
  "daemonset_errors show_set names allow_host_network ds =
     rbind (val_get_or ds ''metadata'' (VDict [])) (\<lambda>meta.
     rbind (val_get_or meta ''name'' (VStr ''?'')) (\<lambda>name.
     let origin = py_str name in
     rbind (val_get meta ''namespace'') (\<lambda>ns.
     rbind (namespace_errors show_set names origin ns) (\<lambda>namespace_es.
     rbind (pod_spec ds) (\<lambda>spec.
     rbind (host_errors allow_host_network origin spec) (\<lambda>host_es.
     rbind (rbind (val_get_or spec ''volumes'' (VList [])) iter_val) (\<lambda>volumes.
     rbind (collect_errors (volume_errors origin) volumes) (\<lambda>volume_es.
     rbind (host_volume_paths volumes) (\<lambda>paths.
     rbind (collect_errors (containers_errors origin paths spec) CONTAINER_KEYS) (\<lambda>container_es.
     Inr (namespace_es @ host_es @ volume_es @ container_es)))))))))))"

definition observer_validate :: "(pyval list \<Rightarrow> string) \<Rightarrow> pyval list \<Rightarrow> bool \<Rightarrow> string list res" where
  "observer_validate show_set docs allow_host_network =
     rbind (of_kind ''Namespace'' docs) (\<lambda>namespaces.
     rbind (of_kind ''DaemonSet'' docs) (\<lambda>daemonsets.
     let first = error_if (namespaces = []) ''no Namespace manifest found'' in
     if daemonsets = [] then Inr (first @ [''no DaemonSet manifest found''])
     else rbind (rmap namespace_name namespaces) (\<lambda>names.
       rbind (collect_errors (daemonset_errors show_set names allow_host_network) daemonsets) (\<lambda>es.
       Inr (first @ es)))))"

text \<open>The command: the documents that are not empty, the environment decides about the host network.\<close>

definition observer_load :: "(string \<Rightarrow> pyval list res) \<Rightarrow> path \<Rightarrow> fs \<Rightarrow> pyval list res" where
  "observer_load safe_load_all p fs =
     rbind (read_text fs p) (\<lambda>text. rbind (safe_load_all text) (\<lambda>docs. Inr (filter truthy docs)))"

definition observer_main ::
  "(string \<Rightarrow> pyval list res) \<Rightarrow> (pyval list \<Rightarrow> string) \<Rightarrow> path \<Rightarrow> string option \<Rightarrow> fs \<Rightarrow> (int \<times> string list) res" where
  "observer_main safe_load_all show_set p allow fs =
     rbind (observer_load safe_load_all p fs) (\<lambda>docs.
     rbind (observer_validate show_set docs (allow = Some ''1'')) (\<lambda>errors.
     Inr (if errors \<noteq> [] then (1, map (\<lambda>e. ''FAIL: '' @ e) errors) else (0, [''observer manifests OK'']))))"


section \<open>What an accepted manifest grants\<close>

lemma collect_errors_Nil: "collect_errors f xs = Inr [] \<longleftrightarrow> (\<forall>x \<in> set xs. f x = Inr [])"
proof -
  have "rmap f xs = Inr ess \<and> concat ess = [] \<longleftrightarrow> rmap f xs = Inr ess \<and> (\<forall>es \<in> set ess. es = [])" for ess by auto
  moreover have "(\<exists>ess. rmap f xs = Inr ess \<and> (\<forall>es \<in> set ess. es = [])) \<longleftrightarrow> (\<forall>x \<in> set xs. f x = Inr [])"
    by (induction xs) auto
  ultimately show ?thesis by (simp add: collect_errors_def)
qed

lemma error_if_Nil [simp]: "error_if c m = [] \<longleftrightarrow> \<not> c"
  by (simp add: error_if_def)

lemma val_get_Inr [simp]:
  "val_get_or v k dflt = Inr x \<longleftrightarrow> (\<exists>d. v = VDict d \<and> dget_or d k dflt = x)"
  "val_get v k = Inr x \<longleftrightarrow> (\<exists>d. v = VDict d \<and> dget d k = x)"
  by (simp_all add: val_get_or_def val_get_def dget_or_def dget_def)

lemma of_kind_Inr: "of_kind k docs = Inr ds \<Longrightarrow> set ds = {d \<in> set docs. val_get d ''kind'' = Inr (VStr k)}"
proof (induction docs arbitrary: ds)
  case (Cons d docs)
  then obtain v ps where v: "val_get d ''kind'' = Inr v"
    and ps: "rmap (\<lambda>d. rbind (val_get d ''kind'') (\<lambda>v. Inr (d, v = VStr k))) docs = Inr ps"
    and ds: "ds = map fst (filter snd ((d, v = VStr k) # ps))"
    by (auto simp: of_kind_def)
  have "of_kind k docs = Inr (map fst (filter snd ps))" using ps by (simp add: of_kind_def)
  then show ?case using Cons.IH v ds by auto
qed (simp add: of_kind_def)

definition mount_safe :: "(pyval \<times> pyval) list \<Rightarrow> pyval \<Rightarrow> bool" where
  "mount_safe paths mount \<longleftrightarrow> (\<exists>d. mount = VDict d \<and> dget d ''mountPath'' \<noteq> VStr ''/''
     \<and> (host_path_of paths (dget d ''name'') = VNone \<or> host_path_of paths (dget d ''name'') = VStr ''/var/tmp/linux-sched''
        \<or> dget d ''readOnly'' = VBool True))"

definition container_safe :: "(pyval \<times> pyval) list \<Rightarrow> string \<times> pyval \<Rightarrow> bool" where
  "container_safe paths = (\<lambda>(key, container). \<exists>c context caps mounts.
     container = VDict c \<and> dget_or c ''securityContext'' (VDict []) = VDict context \<and> \<not> truthy (dget context ''privileged'')
     \<and> added_capabilities (VDict context) = Inr caps
     \<and> (key = ''containers'' \<longrightarrow> {VStr ''BPF'', VStr ''PERFMON'', VStr ''SYS_ADMIN''} \<subseteq> set caps)
     \<and> iter_val (dget_or c ''volumeMounts'' (VList [])) = Inr mounts \<and> list_all (mount_safe paths) mounts)"

definition pod_safe :: "bool \<Rightarrow> pyval \<Rightarrow> bool" where
  "pod_safe allow_host_network ds \<longleftrightarrow> (\<exists>spec volumes paths.
     pod_spec ds = Inr (VDict spec) \<and> dget spec ''hostPID'' = VBool True
     \<and> (truthy (dget spec ''hostNetwork'') \<longrightarrow> allow_host_network) \<and> \<not> truthy (dget spec ''hostIPC'')
     \<and> dget spec ''automountServiceAccountToken'' = VBool False
     \<and> iter_val (dget_or spec ''volumes'' (VList [])) = Inr volumes \<and> host_volume_paths volumes = Inr paths
     \<and> list_all (\<lambda>(_, p). p \<in> VStr ` set ALLOWED_HOST_PATHS) paths
     \<and> list_all (\<lambda>key. \<exists>cs. containers_at (VDict spec) key = Inr cs \<and> list_all (container_safe paths) cs) CONTAINER_KEYS)"

lemma mount_errors_Nil: "mount_errors origin key paths mount = Inr [] \<Longrightarrow> mount_safe paths mount"
  by (auto simp: mount_errors_def mount_safe_def Let_def WRITABLE_HOST_PATHS_def split: if_splits)

lemma capability_errors_Nil:
  "capability_errors origin caps = [] \<Longrightarrow> {VStr ''BPF'', VStr ''PERFMON'', VStr ''SYS_ADMIN''} \<subseteq> set caps"
  by (auto simp: capability_errors_def OBSERVER_CAPABILITIES_def filter_empty_conv split: if_splits)

lemma container_errors_Nil: "container_errors origin paths kc = Inr [] \<Longrightarrow> container_safe paths kc"
proof (cases kc)
  case (Pair key container)
  assume "container_errors origin paths kc = Inr []"
  then obtain c ctx caps mounts where c: "container = VDict c" "dget_or c ''securityContext'' (VDict []) = VDict ctx"
    "\<not> truthy (dget ctx ''privileged'')" "added_capabilities (VDict ctx) = Inr caps"
    "iter_val (dget_or c ''volumeMounts'' (VList [])) = Inr mounts"
    "collect_errors (mount_errors origin key paths) mounts = Inr []"
    and caps: "key = ''containers'' \<Longrightarrow> capability_errors origin caps = []"
    unfolding container_errors_def Pair by (auto split: if_splits)
  have "list_all (mount_safe paths) mounts"
    using c(6) mount_errors_Nil by (auto simp: collect_errors_Nil list_all_iff)
  then show ?thesis using c caps capability_errors_Nil unfolding container_safe_def Pair by auto
qed

lemma host_paths_allowed:
  assumes "\<forall>v \<in> set volumes. volume_errors origin v = Inr []" "host_volume_paths volumes = Inr paths"
  shows "list_all (\<lambda>(_, p). p \<in> VStr ` set ALLOWED_HOST_PATHS) paths"
proof -
  have "p \<in> VStr ` set ALLOWED_HOST_PATHS"
    if "host_volume v = Inr vs" "volume_errors origin v = Inr []" "(n, p) \<in> set vs" for v vs n p
    using that by (auto simp: host_volume_def volume_errors_def val_item_def ditem_def dget_def split: if_splits option.splits)
  then show ?thesis
    using assms by (force simp: host_volume_paths_def list_all_iff dest: rmap_elem)
qed

lemma daemonset_errors_Nil:
  assumes "daemonset_errors show_set names allow ds = Inr []"
  shows "pod_safe allow ds"
proof -
  obtain origin spec volumes paths where spec: "pod_spec ds = Inr (VDict spec)"
    and host: "host_errors allow origin (VDict spec) = Inr []"
    and volumes: "iter_val (dget_or spec ''volumes'' (VList [])) = Inr volumes" "collect_errors (volume_errors origin) volumes = Inr []"
      "host_volume_paths volumes = Inr paths"
    and containers: "collect_errors (containers_errors origin paths (VDict spec)) CONTAINER_KEYS = Inr []"
    using assms unfolding daemonset_errors_def Let_def by auto
  have "list_all (\<lambda>(_, p). p \<in> VStr ` set ALLOWED_HOST_PATHS) paths"
    using volumes by (intro host_paths_allowed [of volumes origin]) (simp_all add: collect_errors_Nil)
  moreover have "\<exists>cs. containers_at (VDict spec) key = Inr cs \<and> list_all (container_safe paths) cs" if "key \<in> set CONTAINER_KEYS" for key
    using containers that container_errors_Nil [of origin paths]
    by (fastforce simp: collect_errors_Nil containers_errors_def list_all_iff)
  ultimately show ?thesis
    using spec host volumes(1,3) unfolding pod_safe_def host_errors_def list_all_iff by auto
qed

text \<open>
  C40: a manifest the observer check accepts without an error holds a DaemonSet, and every DaemonSet in
  it runs with the host's process namespace but without its IPC namespace, without its network unless
  that was allowed, and without a mounted token; each of its host volumes is on the allow-list; no
  container of any kind is privileged; the main ones have the tracing capabilities; nothing is mounted
  over the root, and every mount of a host volume but the artifact spool is read-only.
\<close>

theorem observer_accepts_safe:
  assumes "observer_validate show_set docs allow_host_network = Inr []"
  shows "list_ex (\<lambda>d. val_get d ''kind'' = Inr (VStr ''DaemonSet'')) docs
    \<and> list_all (\<lambda>d. val_get d ''kind'' = Inr (VStr ''DaemonSet'') \<longrightarrow> pod_safe allow_host_network d) docs"
proof -
  obtain daemonsets names where ds: "of_kind ''DaemonSet'' docs = Inr daemonsets" "daemonsets \<noteq> []"
    and es: "collect_errors (daemonset_errors show_set names allow_host_network) daemonsets = Inr []"
    using assms unfolding observer_validate_def Let_def by (auto split: if_splits)
  have s: "set daemonsets = {d \<in> set docs. val_get d ''kind'' = Inr (VStr ''DaemonSet'')}" by (rule of_kind_Inr [OF ds(1)])
  then have "pod_safe allow_host_network d" if "d \<in> set docs" "val_get d ''kind'' = Inr (VStr ''DaemonSet'')" for d
    using es that daemonset_errors_Nil unfolding collect_errors_Nil by blast
  moreover have "\<exists>d \<in> set docs. val_get d ''kind'' = Inr (VStr ''DaemonSet'')" using s hd_in_set [OF ds(2)] by blast
  ultimately show ?thesis by (auto simp: list_ex_iff list_all_iff simp del: val_get_Inr)
qed

text \<open>A manifest with the spool and one read-only host mount.\<close>

definition sample_mount :: "string \<Rightarrow> string \<Rightarrow> bool \<Rightarrow> pyval" where
  "sample_mount name p read_only = VDict [(''name'', VStr name), (''mountPath'', VStr p), (''readOnly'', VBool read_only)]"

definition sample_volume :: "string \<Rightarrow> string \<Rightarrow> pyval" where
  "sample_volume name p = VDict [(''name'', VStr name), (''hostPath'', VDict [(''path'', VStr p)])]"

definition sample_observer :: "pyval list" where
  "sample_observer =
    [VDict [(''kind'', VStr ''Namespace''), (''metadata'', VDict [(''name'', VStr ''linux-sched'')])],
     VDict [(''kind'', VStr ''DaemonSet''), (''metadata'', VDict [(''name'', VStr ''observer''), (''namespace'', VStr ''linux-sched'')]),
       (''spec'', VDict [(''template'', VDict [(''spec'', VDict [
         (''hostPID'', VBool True), (''automountServiceAccountToken'', VBool False),
         (''nodeSelector'', VDict [(''linux-sched/research'', VStr ''observer'')]),
         (''volumes'', VList [sample_volume ''boot'' ''/boot'', sample_volume ''work'' ''/var/tmp/linux-sched'']),
         (''containers'', VList [VDict [
            (''securityContext'', VDict [(''capabilities'', VDict [(''add'', VList [VStr ''BPF'', VStr ''PERFMON'', VStr ''SYS_ADMIN''])])]),
            (''volumeMounts'', VList [sample_mount ''boot'' ''/boot'' True, sample_mount ''work'' ''/var/tmp/linux-sched'' False])]])])])])]]"

theorem observer_accepts_safe_witness:
  "observer_validate (\<lambda>_. []) sample_observer False = Inr []
   \<and> list_ex (\<lambda>d. val_get d ''kind'' = Inr (VStr ''DaemonSet'')) sample_observer
   \<and> list_all (\<lambda>d. val_get d ''kind'' = Inr (VStr ''DaemonSet'') \<longrightarrow> pod_safe False d) sample_observer"
proof -
  have a: "observer_validate (\<lambda>_. []) sample_observer False = Inr []" by code_simp
  show ?thesis using a observer_accepts_safe [OF a] by blast
qed

text \<open>
  The same manifest with a volume without a path is not reported: the check ends with an exception.
\<close>

lemma observer_pathless_volume:
  "volume_errors ''observer'' (VDict [(''name'', VStr ''v''), (''hostPath'', VDict [(''type'', VStr ''Directory'')])])
     = Inr [''observer: unexpected hostPath None (allowed: '' @ py_repr (VList (map VStr (sort ALLOWED_HOST_PATHS))) @ '')'']
   \<and> host_volume (VDict [(''name'', VStr ''v''), (''hostPath'', VDict [(''type'', VStr ''Directory'')])]) = raise KeyError ''path''"
  by (simp add: volume_errors_def host_volume_def val_get_def val_get_or_def val_item_def ditem_def dget_or_def
      str_in_set_def error_if_def truthy_def)

end
