(* ===== verification/Series_Gates.thy ===== *)
theory Series_Gates
  imports Py_Files
begin

text \<open>
  The offline gates of the scheduler series: the eligibility of the added schedulers
  (\<open>linux-sched/experiments/runtime_gate.py\<close>), the kernel that images, lock and documents must name
  (\<open>kernel_image_contract.py\<close>), the tooling baked into the node image (\<open>observer_check.py\<close>) and the
  artefacts of the profiling campaign (\<open>otel/validate_campaign.py\<close>). All read a source tree. The
  environment, the permission to execute a file and the YAML reader are parameters; regular expressions
  are written out as the matches they find.
\<close>

definition problem_if :: "bool \<Rightarrow> string \<Rightarrow> string list" where
  "problem_if c message = (if c then [message] else [])"

text \<open>The exit code and the lines of a gate that prints its errors.\<close>

definition gate_exit :: "string \<Rightarrow> string list \<Rightarrow> int \<times> string list" where
  "gate_exit ok errors = (if errors \<noteq> [] then (1, map (\<lambda>e. ''FAIL: '' @ e) errors) else (0, [ok]))"

section \<open>Eligible schedulers\<close>

definition RUNTIME_SCHEDULERS :: "string list" where
  "RUNTIME_SCHEDULERS = [''scx_mavd'', ''scx_mlfq'', ''scx_nitosis'']"

definition scx_root :: "path \<Rightarrow> path \<Rightarrow> string option \<Rightarrow> path" where
  "scx_root cwd project env = (case env of Some s \<Rightarrow> path_join cwd s | None \<Rightarrow> butlast project @ [''scx''])"

definition binary_path :: "path \<Rightarrow> string \<Rightarrow> path" where
  "binary_path tree name = tree @ [''target'', ''release'', name]"

definition check_build :: "fs \<Rightarrow> (path \<Rightarrow> bool) \<Rightarrow> path \<Rightarrow> string \<Rightarrow> bool" where
  "check_build fs executable tree name =
     (if name \<notin> set RUNTIME_SCHEDULERS then False
      else is_file fs (binary_path tree name) \<and> executable (binary_path tree name))"

text \<open>The flag is imported from the image contract, and false when that import fails.\<close>

definition check_verifier :: "bool \<Rightarrow> string \<Rightarrow> bool" where
  "check_verifier arena name = (if name = ''scx_mavd'' \<and> \<not> arena then False else True)"

definition check_attach :: "bool \<Rightarrow> string \<Rightarrow> bool" where
  "check_attach arena name = (if name = ''scx_mavd'' \<and> \<not> arena then False else True)"

definition check_progress :: "bool \<Rightarrow> string \<Rightarrow> bool" where
  "check_progress arena name = (if name = ''scx_mavd'' \<and> \<not> arena then False else True)"

definition check_detach :: "bool \<Rightarrow> string \<Rightarrow> bool" where
  "check_detach arena name = (if name = ''scx_mavd'' \<and> \<not> arena then False else True)"

definition gate_results :: "fs \<Rightarrow> (path \<Rightarrow> bool) \<Rightarrow> path \<Rightarrow> bool \<Rightarrow> string \<Rightarrow> (string \<times> bool) list res" where
  "gate_results fs executable tree arena name =
     require (name \<in> set RUNTIME_SCHEDULERS) ValueError (''unknown runtime scheduler: '' @ name) (
     Inr [(''build'', check_build fs executable tree name), (''verifier'', check_verifier arena name),
       (''attach'', check_attach arena name), (''progress'', check_progress arena name), (''detach'', check_detach arena name)])"

definition all_gates_pass :: "fs \<Rightarrow> (path \<Rightarrow> bool) \<Rightarrow> path \<Rightarrow> bool \<Rightarrow> string \<Rightarrow> bool res" where
  "all_gates_pass fs executable tree arena name =
     rbind (gate_results fs executable tree arena name) (\<lambda>gates. Inr (list_all snd gates))"

definition chosen_schedulers :: "(string \<Rightarrow> bool res) \<Rightarrow> string list res" where
  "chosen_schedulers p = rbind (rmap (\<lambda>name. rbind (p name) (\<lambda>b. Inr (name, b))) RUNTIME_SCHEDULERS) (\<lambda>ps.
     Inr (map fst (filter snd ps)))"

definition eligible_schedulers :: "fs \<Rightarrow> (path \<Rightarrow> bool) \<Rightarrow> path \<Rightarrow> bool \<Rightarrow> string list res" where
  "eligible_schedulers fs executable tree arena = chosen_schedulers (all_gates_pass fs executable tree arena)"

definition blocked_schedulers :: "fs \<Rightarrow> (path \<Rightarrow> bool) \<Rightarrow> path \<Rightarrow> bool \<Rightarrow> string list res" where
  "blocked_schedulers fs executable tree arena =
     chosen_schedulers (\<lambda>name. rbind (all_gates_pass fs executable tree arena name) (\<lambda>b. Inr (\<not> b)))"

definition sched_run_gate :: "fs \<Rightarrow> (path \<Rightarrow> bool) \<Rightarrow> path \<Rightarrow> bool \<Rightarrow> (string \<times> (string \<times> bool) list) list res" where
  "sched_run_gate fs executable tree arena =
     rmap (\<lambda>name. rbind (gate_results fs executable tree arena name) (\<lambda>gates. Inr (name, gates))) RUNTIME_SCHEDULERS"

definition gates_repr :: "(string \<times> bool) list \<Rightarrow> string" where
  "gates_repr gates = py_repr (VDict (map (\<lambda>(k, b). (k, VBool b)) gates))"

definition sched_gate_main :: "fs \<Rightarrow> (path \<Rightarrow> bool) \<Rightarrow> path \<Rightarrow> bool \<Rightarrow> (int \<times> string list \<times> string list) res" where
  "sched_gate_main fs executable tree arena =
     rbind (sched_run_gate fs executable tree arena) (\<lambda>results.
     let blocked = map fst (filter (\<lambda>(name, gates). \<not> list_all snd gates) results);
         lines = map (\<lambda>(name, gates). name @ '': '' @ (if list_all snd gates then ''PASS'' else ''BLOCKED'') @ '' '' @ gates_repr gates) results in
     Inr (if blocked \<noteq> [] then (1, lines, [''blocked schedulers: '' @ join '', '' blocked])
       else (0, lines @ [''runtime integration gate OK''], [])))"

section \<open>The kernel-image contract\<close>

definition ARENA_SCALAR_AVAILABLE :: bool where "ARENA_SCALAR_AVAILABLE = True"
definition STOCK_KERNEL_VERSION :: string where "STOCK_KERNEL_VERSION = ''7.3.0-65.fc46''"
definition CUSTOM_KERNEL_VERSION :: string where "CUSTOM_KERNEL_VERSION = ''7.3.0-k8labs''"
definition PINNED_LINUX_NEXT_COMMIT :: string where "PINNED_LINUX_NEXT_COMMIT = ''2efb7a11f1aa4d2dc285fe2680cca22cb9f72f64''"

definition dquote :: string where
  "dquote = [CHR 0x22]"

text \<open>\<open>default\s*=\s*"([^"]+)"\<close> at the start of a text.\<close>

definition default_here :: "string \<Rightarrow> string option" where
  "default_here s =
     (if \<not> prefix ''default'' s then None
      else let r = dropWhile py_isspace (drop 7 s) in
        if \<not> prefix ''='' r then None
        else let t = dropWhile py_isspace (tl r) in
          if \<not> prefix dquote t then None
          else let v = takeWhile (\<lambda>c. c \<noteq> CHR 0x22) (tl t) in
            if v = [] \<or> length v = length (tl t) then None else Some v)"

fun first_default :: "string \<Rightarrow> string option" where
  "first_default [] = None"
| "first_default (c # cs) = (case default_here (c # cs) of Some v \<Rightarrow> Some v | None \<Rightarrow> first_default cs)"

text \<open>\<open>re.search('variable "<name>" \{.*?default\s*=\s*"([^"]+)"', text, re.S)\<close>: the shortest stretch from the first head.\<close>

fun variable_default :: "string \<Rightarrow> string \<Rightarrow> string option" where
  "variable_default head [] = None"
| "variable_default head (c # cs) =
     (if prefix head (c # cs)
      then (case first_default (drop (length head) (c # cs)) of Some v \<Rightarrow> Some v | None \<Rightarrow> variable_default head cs)
      else variable_default head cs)"

definition packer_version :: "path \<Rightarrow> fs \<Rightarrow> string \<Rightarrow> string option res" where
  "packer_version tree fs name =
     rbind (read_text fs (tree @ [''packer'', ''variables.pkr.hcl''])) (\<lambda>text.
     Inr (variable_default (''variable '' @ dquote @ name @ dquote @ '' {'') text))"

definition opt_repr :: "string option \<Rightarrow> string" where
  "opt_repr v = (case v of None \<Rightarrow> ''None'' | Some s \<Rightarrow> repr_str s)"

text \<open>\<open>data.get(k, {}).get(k2)\<close> inside a handler of every exception.\<close>

definition yaml_entry :: "(string \<Rightarrow> pyval res) \<Rightarrow> fs \<Rightarrow> path \<Rightarrow> string \<Rightarrow> string \<Rightarrow> pyval" where
  "yaml_entry safe_load fs p k k2 =
     (if \<not> is_file fs p then VNone
      else case rbind (read_text fs p) safe_load of
        Inr (VDict d) \<Rightarrow> (case dget_or d k (VDict []) of VDict e \<Rightarrow> dget e k2 | _ \<Rightarrow> VNone)
      | _ \<Rightarrow> VNone)"

definition provisioner_is_fail_closed :: "path \<Rightarrow> fs \<Rightarrow> bool res" where
  "provisioner_is_fail_closed tree fs =
     (let p = tree @ [''packer'', ''scripts'', ''01-configure-system.sh''] in
      if \<not> is_file fs p then Inr False
      else rbind (read_text fs p) (\<lambda>text.
        Inr (if str_in ''Exact kernel'' text \<and> str_in ''is unavailable'' text then False
          else str_in ''kernel-modules-extra-'' text \<and> str_in ''kernel-k8labs'' text \<and> str_in ''CUSTOM_KERNEL_REPO_URL'' text)))"

text \<open>The documents are read up to the first that is wrong.\<close>

fun doc_errors :: "fs \<Rightarrow> path list \<Rightarrow> string list res" where
  "doc_errors fs [] = Inr []"
| "doc_errors fs (p # ps) =
     (if \<not> is_file fs p then doc_errors fs ps
      else rbind (read_text fs p) (\<lambda>text.
        if \<not> str_in ''BPF_F_ARENA_SCALAR'' text then Inr [path_text p @ '' does not document the kernel-image contract'']
        else if \<not> str_in PINNED_LINUX_NEXT_COMMIT text then Inr [path_text p @ '' does not record the pinned source commit'']
        else doc_errors fs ps))"

definition series_docs :: "path \<Rightarrow> path list" where
  "series_docs tree = map (\<lambda>f. tree @ [''research'', ''linux-sched'', f]) [''GATES.md'', ''README.md'']"

definition version_error :: "string \<Rightarrow> pyval \<Rightarrow> string list" where
  "version_error what v = problem_if (v \<noteq> VNone \<and> v \<noteq> VStr STOCK_KERNEL_VERSION)
     (what @ '' '' @ py_repr v @ '' != stock '' @ repr_str STOCK_KERNEL_VERSION)"

definition contract_check :: "(string \<Rightarrow> pyval res) \<Rightarrow> path \<Rightarrow> fs \<Rightarrow> string list res" where
  "contract_check safe_load tree fs =
     rbind (packer_version tree fs ''kernel_version'') (\<lambda>packer.
     rbind (packer_version tree fs ''custom_kernel_version'') (\<lambda>custom.
     let lock = yaml_entry safe_load fs (tree @ [''versions.lock.yaml'']) ''fedora'' ''kernel'';
         manifest = yaml_entry safe_load fs (tree @ [''extensions'', ''manifest.yaml'']) ''settings'' ''kernel_version'' in
     rbind (provisioner_is_fail_closed tree fs) (\<lambda>closed.
     rbind (doc_errors fs (series_docs tree)) (\<lambda>docs.
     Inr (problem_if (packer \<noteq> Some STOCK_KERNEL_VERSION)
           (''packer kernel_version '' @ opt_repr packer @ '' != stock '' @ repr_str STOCK_KERNEL_VERSION)
       @ problem_if (custom \<noteq> Some CUSTOM_KERNEL_VERSION)
           (''packer custom_kernel_version '' @ opt_repr custom @ '' != custom '' @ repr_str CUSTOM_KERNEL_VERSION)
       @ version_error ''versions.lock.yaml kernel'' lock
       @ version_error ''extensions/manifest.yaml kernel_version'' manifest
       @ problem_if (\<not> closed) ''packer provisioner is not fail-closed on an unavailable kernel''
       @ docs)))))"

definition contract_main :: "(string \<Rightarrow> pyval res) \<Rightarrow> path \<Rightarrow> fs \<Rightarrow> (int \<times> string list) res" where
  "contract_main safe_load tree fs =
     rbind (contract_check safe_load tree fs) (\<lambda>errors. Inr (gate_exit ''kernel image contract OK'' errors))"


section \<open>The baked observer tooling\<close>

definition REQUIRED_PACKAGES :: "string list" where
  "REQUIRED_PACKAGES = [''bpftrace'', ''perf'', ''bcc-tools'', ''libbpf-tools'', ''python3-bcc'', ''bpftool'']"

definition FIXTURE_MARKERS :: "string list" where
  "FIXTURE_MARKERS = [''FIXTURE_DIR'', ''input.mp4'', ''wrk2'', ''wrk.lua'']"

definition OBSERVER_MOUNT_PATHS :: "string list" where
  "OBSERVER_MOUNT_PATHS = [''/var/lib/linux-sched/fixtures'', ''/var/lib/linux-sched/bin'']"

text \<open>\<open>\w\<close> on a code point below 256, and \<open>\b\<close>.\<close>

definition word_char :: "char \<Rightarrow> bool" where
  "word_char c \<longleftrightarrow> is_digit c \<or> is_alpha c \<or> c = CHR ''_'' \<or> code c \<in> set [170, 178, 179, 181, 185, 186, 188, 189, 190]
     \<or> (192 \<le> code c \<and> code c \<noteq> 215 \<and> code c \<noteq> 247)"

definition boundary :: "string \<Rightarrow> nat \<Rightarrow> bool" where
  "boundary s i \<longleftrightarrow> (0 < i \<and> word_char (s ! (i - 1))) \<noteq> (i < length s \<and> word_char (s ! i))"

definition word_at :: "string \<Rightarrow> string \<Rightarrow> nat \<Rightarrow> bool" where
  "word_at w s i \<longleftrightarrow> prefix w (drop i s) \<and> boundary s i \<and> boundary s (i + length w)"

text \<open>\<open>\bdnf\b.*\binstall\b\<close> in a line.\<close>

definition dnf_install :: "string \<Rightarrow> bool" where
  "dnf_install s \<longleftrightarrow> list_ex (\<lambda>i. word_at ''dnf'' s i \<and> list_ex (word_at ''install'' s) [i + 3 ..< length s]) [0 ..< length s]"

record dnf_state =
  ds_blocks :: "string list"
  ds_current :: "string list"
  ds_collecting :: bool

definition dnf_emit :: "string \<Rightarrow> dnf_state \<Rightarrow> dnf_state" where
  "dnf_emit stripped st =
     (if suffix [CHR 0x5C] stripped then st
      else st\<lparr> ds_blocks := ds_blocks st @ [join '' '' (ds_current st)], ds_collecting := False \<rparr>)"

definition dnf_line :: "dnf_state \<Rightarrow> string \<Rightarrow> dnf_state" where
  "dnf_line st line = (let stripped = strip line in
     if dnf_install stripped then dnf_emit stripped (st\<lparr> ds_collecting := True, ds_current := [stripped] \<rparr>)
     else if ds_collecting st then dnf_emit stripped (st\<lparr> ds_current := ds_current st @ [stripped] \<rparr>)
     else st)"

definition dnf_install_block :: "string \<Rightarrow> string" where
  "dnf_install_block text =
     join nl (ds_blocks (foldl dnf_line \<lparr> ds_blocks = [], ds_current = [], ds_collecting = False \<rparr> (splitlines text)))"

text \<open>\<open>(?<![\w-])<package>(-[\w.${}-]*)?(?![\w-])\<close> somewhere in the block.\<close>

definition name_char :: "char \<Rightarrow> bool" where
  "name_char c \<longleftrightarrow> word_char c \<or> c = CHR ''-''"

definition name_ends :: "string \<Rightarrow> nat \<Rightarrow> bool" where
  "name_ends s k \<longleftrightarrow> length s \<le> k \<or> \<not> name_char (s ! k)"

definition version_char :: "char \<Rightarrow> bool" where
  "version_char c \<longleftrightarrow> word_char c \<or> c \<in> set ''.${}-''"

definition package_at :: "string \<Rightarrow> string \<Rightarrow> nat \<Rightarrow> bool" where
  "package_at package s i \<longleftrightarrow> (i = 0 \<or> \<not> name_char (s ! (i - 1))) \<and> prefix package (drop i s)
     \<and> (let r = i + length package in
        name_ends s r \<or> (r < length s \<and> s ! r = CHR ''-''
          \<and> list_ex (name_ends s) [r + 1 ..< r + 2 + length (takeWhile version_char (drop (r + 1) s))]))"

definition installs :: "string \<Rightarrow> string \<Rightarrow> bool" where
  "installs package block \<longleftrightarrow> list_ex (package_at package block) [0 ..< length block]"

definition fixture_errors :: "path \<Rightarrow> fs \<Rightarrow> string \<Rightarrow> string list res" where
  "fixture_errors tree fs provisioner =
     (let markers = concat (map (\<lambda>m. problem_if (\<not> str_in m provisioner) (''node-image bake is missing fixture: '' @ m)) FIXTURE_MARKERS);
          daemonset = tree @ [''research'', ''linux-sched'', ''observers'', ''observer-daemonset.yaml''] in
      if \<not> is_file fs daemonset then Inr (markers @ [''missing observer DaemonSet: '' @ path_text daemonset])
      else rbind (read_text fs daemonset) (\<lambda>manifest.
        Inr (markers @ concat (map (\<lambda>p. problem_if (\<not> str_in p manifest)
          (''observer DaemonSet does not mount fixture path: '' @ p)) OBSERVER_MOUNT_PATHS))))"

definition capture_errors :: "path \<Rightarrow> fs \<Rightarrow> string list res" where
  "capture_errors tree fs =
     (let capture = tree @ [''research'', ''linux-sched'', ''capture'', ''capture-block.sh''] in
      if \<not> is_file fs capture then Inr []
      else rbind (read_text fs capture) (\<lambda>text.
        Inr (problem_if (str_in ''privileged: true'' text \<or> str_in ''securityContext'' text)
              ''capture-block.sh must not create privileged Pods; observers run node-native''
          @ concat (map (\<lambda>tool. problem_if (\<not> str_in tool text) (''capture-block.sh does not invoke native tool: '' @ tool))
              [''bpftrace'', ''perf sched'', ''runqlat'']))))"

definition tooling_check :: "path \<Rightarrow> fs \<Rightarrow> string list res" where
  "tooling_check tree fs =
     (let p = tree @ [''packer'', ''scripts'', ''01-configure-system.sh''] in
      if \<not> is_file fs p then Inr [''missing node-image provisioner: '' @ path_text p]
      else rbind (read_text fs p) (\<lambda>text.
        let block = dnf_install_block text in
        rbind (capture_errors tree fs) (\<lambda>capture_es.
        rbind (fixture_errors tree fs text) (\<lambda>fixture_es.
        Inr (concat (map (\<lambda>package. problem_if (\<not> installs package block)
              (''node image does not install required observer package: '' @ package)) REQUIRED_PACKAGES)
          @ problem_if (path_exists fs (tree @ [''research'', ''linux-sched'', ''telemetry'']))
              ''research/linux-sched/telemetry still exists; privileged observer DaemonSets are not supported on this lab''
          @ capture_es @ fixture_es)))))"

definition tooling_main :: "path \<Rightarrow> fs \<Rightarrow> (int \<times> string list) res" where
  "tooling_main tree fs =
     rbind (tooling_check tree fs) (\<lambda>errors. Inr (gate_exit ''node-native observer tooling OK'' errors))"

section \<open>The profiling campaign\<close>

definition SESSION_LABELS :: "string list" where
  "SESSION_LABELS = [''workload'', ''scheduler'', ''node'', ''kernel'', ''image'', ''run_id'']"

definition REQUIRED_CAPABILITIES :: "string list" where
  "REQUIRED_CAPABILITIES = [''BPF'', ''PERFMON'', ''SYS_PTRACE'', ''CHECKPOINT_RESTORE'', ''SYS_RESOURCE'', ''DAC_READ_SEARCH'', ''SYSLOG'']"

definition without_comments :: "string \<Rightarrow> string" where
  "without_comments text = join nl (filter (\<lambda>line. \<not> prefix ''#'' (lstrip line)) (splitlines text))"

text \<open>A list of texts that have to occur, with the message for each that does not.\<close>

definition needs :: "string \<Rightarrow> (string \<times> string) list \<Rightarrow> string list" where
  "needs text = (\<lambda>ps. concat (map (\<lambda>(sub, message). problem_if (\<not> str_in sub text) message) ps))"

definition privilege_problems :: "string \<Rightarrow> string list" where
  "privilege_problems daemonset =
     (let active = without_comments daemonset in
      problem_if (str_in ''privileged: true'' active \<or> str_in ''privileged:true'' active)
        ''the profiling DaemonSet must not use privileged: true''
      @ needs daemonset (map (\<lambda>c. (''- '' @ c, ''the profiling DaemonSet is missing capability '' @ c)) REQUIRED_CAPABILITIES
          @ [(''hostPID: true'', ''the DaemonSet needs hostPID: true''),
             (''mountPath: /sys/kernel/tracing'', ''the DaemonSet must mount /sys/kernel/tracing'')])
      @ problem_if (str_in ''kind: ConfigMap'' daemonset)
          (''alloy-daemonset.yaml must not contain a ConfigMap: applying it with the ''
           @ ''rendered session configuration reverts the labels to the placeholder''))"

text \<open>The placeholder is read only where it is a file.\<close>

definition placeholder_problems :: "path \<Rightarrow> fs \<Rightarrow> string list res" where
  "placeholder_problems root_dir fs =
     (let p = root_dir @ [''k8s'', ''alloy-configmap.yaml''] in
      if \<not> is_file fs p then Inr [''the placeholder Alloy configuration must live in its own file'']
      else rbind (read_text fs p) (\<lambda>text.
        Inr (needs text [(''kind: ConfigMap'', ''alloy-configmap.yaml must define the placeholder ConfigMap'')])))"

definition node_problems :: "string \<Rightarrow> string list" where
  "node_problems daemonset = needs daemonset [(''kubernetes.io/hostname: __TARGET_NODE__'',
     ''the DaemonSet must be pinned to a rendered target node, not to every ''
     @ ''research worker: other nodes would profile under the session'' @ [CHR 0x27] @ ''s labels'')]"

definition volume_problems :: "path \<Rightarrow> fs \<Rightarrow> string list res" where
  "volume_problems root_dir fs =
     (let p = root_dir @ [''host'', ''provision-volume.sh''] in
      rbind (read_text fs p) (\<lambda>text.
      Inr (problem_if (\<not> path_exists fs p) ''the 10 GiB volume provisioning script must exist''
        @ needs text [(''PROFILE_SIZE_BYTES'', ''the volume script must verify the 10 GiB size, not just create a directory'')])))"

definition image_problems :: "string \<Rightarrow> string \<Rightarrow> string list" where
  "image_problems daemonset compose =
     needs daemonset [(''@sha256:'', ''DaemonSet: images must be pinned by digest'')]
     @ needs compose [(''@sha256:'', ''compose: images must be pinned by digest'')]
     @ needs daemonset [(''grafana/alloy:v1.20.1@sha256:5133c159d34c7acf37a1b6d91682abcb6b28b2a29bae152ff5cf4753296f956c'',
         ''the DaemonSet must pin Alloy to the digest the campaign validated'')]
     @ needs compose
         [(''grafana/pyroscope:2.4.0@sha256:999dba0da6a9300af264ddba12ac3b78e637ea5bb419852866ba7f2dabe74eaa'',
           ''the compose file must pin Pyroscope to the digest the campaign validated''),
          (''-retention-period=336h'', ''Pyroscope must run with the plan'' @ [CHR 0x27] @ ''s 336h retention''),
          (''${PROFILE_VOLUME'', ''Pyroscope'' @ [CHR 0x27] @ ''s data must be a host-owned bind mount, not a node filesystem'')]"

definition label_problems :: "string \<Rightarrow> string \<Rightarrow> string list" where
  "label_problems template profiles =
     concat (map (\<lambda>label.
       needs template [(''target_label  = '' @ dquote @ label @ dquote, ''the Alloy template is missing the '' @ label @ '' session label'')]
       @ needs profiles [(dquote @ label @ dquote, ''the session runner does not record the '' @ label @ '' label'')]) SESSION_LABELS)
     @ needs template
         [(''replacement   = '' @ dquote @ ''linux-sched-profile'' @ dquote,
           ''the Alloy template must pin service_name to linux-sched-profile''),
          (''__PYROSCOPE_URL__'', ''the Alloy template must take the Pyroscope URL from the runner'')]
     @ problem_if (str_in ''otelcol.receiver.otlp'' template)
         (''the campaign must not route profiles through Alloy'' @ [CHR 0x27] @ ''s OTLP receiver: it ''
          @ ''rejects the profiles signal (verified on v1.20.1 and v1.21.0-rc.0)'')"

definition gate_script_problems :: "string \<Rightarrow> string list" where
  "gate_script_problems gate = needs gate
     [(''-/healthy'', ''the gate must check Alloy health''),
      (''All Alloy components are healthy.'', ''the gate must require the documented health string''),
      (''pyroscope_ebpf_pprofs_total'', ''the gate must require collected profiles to have advanced''),
      (''pyroscope_ebpf_profiling_sessions_failing_total'', ''the gate must require no failing profiling sessions''),
      (''df -B1'', ''the gate must verify the volume with df -B1''),
      (''-retention-period='', ''the gate must verify Pyroscope'' @ [CHR 0x27] @ ''s retention''),
      (''STOP_BYTES'', ''the gate must enforce the 9 GiB stop threshold''),
      (''profilecli'', ''the gate must query profiles with profilecli'')]"

definition taskfile_problems :: "string \<Rightarrow> string list" where
  "taskfile_problems taskfile = needs taskfile
     [(''linux-sched-otel-check:'', ''the Taskfile must expose linux-sched-otel-check''),
      (''check.sh'', ''linux-sched-otel-check must run the gate script'')]"

definition otel_validate :: "path \<Rightarrow> path \<Rightarrow> fs \<Rightarrow> string list res" where
  "otel_validate root_dir taskfile_path fs =
     rbind (read_text fs (root_dir @ [''k8s'', ''alloy-daemonset.yaml''])) (\<lambda>daemonset.
     rbind (read_text fs (root_dir @ [''k8s'', ''alloy-config.alloy.tmpl''])) (\<lambda>template.
     rbind (read_text fs (root_dir @ [''host'', ''compose.yaml''])) (\<lambda>compose.
     rbind (read_text fs (root_dir @ [''profiles.sh''])) (\<lambda>profiles.
     rbind (read_text fs (root_dir @ [''check.sh''])) (\<lambda>gate.
     rbind (read_text fs taskfile_path) (\<lambda>taskfile.
     rbind (placeholder_problems root_dir fs) (\<lambda>placeholder.
     rbind (volume_problems root_dir fs) (\<lambda>volume.
     Inr (privilege_problems daemonset @ placeholder @ node_problems daemonset @ volume @ image_problems daemonset compose
       @ label_problems template profiles @ gate_script_problems gate @ taskfile_problems taskfile)))))))))"

definition otel_main :: "path \<Rightarrow> path \<Rightarrow> fs \<Rightarrow> (int \<times> string list) res" where
  "otel_main root_dir taskfile_path fs =
     rbind (otel_validate root_dir taskfile_path fs) (\<lambda>problems.
     Inr (if problems \<noteq> []
       then (1, map (\<lambda>e. ''FAIL: '' @ e) problems @ [show_nat (length problems) @ '' problem(s)''])
       else (0, [''OTel campaign artefacts OK''])))"

section \<open>What the gates establish\<close>

lemma problem_if_Nil [simp]: "problem_if c m = [] \<longleftrightarrow> \<not> c"
  by (simp add: problem_if_def)

lemma needs_Nil: "needs text ps = [] \<longleftrightarrow> list_all (\<lambda>(sub, _). str_in sub text) ps"
  by (auto simp: needs_def list_all_iff)

text \<open>
  Whatever the plan asks for, a scheduler is eligible exactly when its binary is an executable file: with
  the arena flag the four other checks are constantly true.
\<close>

lemma eligible_iff_built:
  "eligible_schedulers fs executable scx ARENA_SCALAR_AVAILABLE
     = Inr (filter (\<lambda>name. is_file fs (binary_path scx name) \<and> executable (binary_path scx name)) RUNTIME_SCHEDULERS)"
  by (simp add: eligible_schedulers_def chosen_schedulers_def all_gates_pass_def gate_results_def RUNTIME_SCHEDULERS_def
      ARENA_SCALAR_AVAILABLE_def check_build_def check_verifier_def check_attach_def check_progress_def check_detach_def)

lemma eligible_blocked_partition:
  assumes "eligible_schedulers fs executable scx arena = Inr es" "blocked_schedulers fs executable scx arena = Inr bs"
  shows "set es \<union> set bs = set RUNTIME_SCHEDULERS \<and> set es \<inter> set bs = {}"
proof -
  let ?ok = "\<lambda>name. check_build fs executable scx name \<and> check_verifier arena name \<and> check_attach arena name
    \<and> check_progress arena name \<and> check_detach arena name"
  have all: "all_gates_pass fs executable scx arena name = Inr (?ok name)" if "name \<in> set RUNTIME_SCHEDULERS" for name
    using that by (simp add: all_gates_pass_def gate_results_def)
  have chosen: "chosen_schedulers p = Inr (filter q RUNTIME_SCHEDULERS)"
    if "\<And>name. name \<in> set RUNTIME_SCHEDULERS \<Longrightarrow> p name = Inr (q name)" for p q
  proof -
    have "rmap (\<lambda>name. rbind (p name) (\<lambda>b. Inr (name, b))) RUNTIME_SCHEDULERS = Inr (map (\<lambda>name. (name, q name)) RUNTIME_SCHEDULERS)"
      by (rule rmap_total) (simp add: that)
    then show ?thesis by (simp add: chosen_schedulers_def filter_map comp_def)
  qed
  have "es = filter ?ok RUNTIME_SCHEDULERS" using assms(1) chosen [of _ ?ok] all by (simp add: eligible_schedulers_def)
  moreover have "bs = filter (\<lambda>name. \<not> ?ok name) RUNTIME_SCHEDULERS"
    using assms(2) chosen [of _ "\<lambda>name. \<not> ?ok name"] all by (simp add: blocked_schedulers_def)
  ultimately show ?thesis by auto
qed

definition doc_states_contract :: "fs \<Rightarrow> path \<Rightarrow> bool" where
  "doc_states_contract fs p \<longleftrightarrow> (\<exists>text. read_text fs p = Inr text \<and> str_in ''BPF_F_ARENA_SCALAR'' text
     \<and> str_in PINNED_LINUX_NEXT_COMMIT text)"

lemma doc_errors_Nil: "doc_errors fs ps = Inr [] \<Longrightarrow> list_all (\<lambda>p. is_file fs p \<longrightarrow> doc_states_contract fs p) ps"
  by (induction ps) (auto simp: doc_states_contract_def split: if_splits)

text \<open>
  An image contract without an error pins the kernels: both Packer variables carry exactly the stock and
  the custom version, the lock and the extension manifest name no other kernel where they name one, the
  provisioner is fail-closed, and each document that exists states the contract and the pinned commit.
\<close>

lemma contract_pins_kernels:
  assumes "contract_check safe_load tree fs = Inr []"
  shows "packer_version tree fs ''kernel_version'' = Inr (Some STOCK_KERNEL_VERSION)"
    and "packer_version tree fs ''custom_kernel_version'' = Inr (Some CUSTOM_KERNEL_VERSION)"
    and "yaml_entry safe_load fs (tree @ [''versions.lock.yaml'']) ''fedora'' ''kernel'' \<in> {VNone, VStr STOCK_KERNEL_VERSION}"
    and "yaml_entry safe_load fs (tree @ [''extensions'', ''manifest.yaml'']) ''settings'' ''kernel_version'' \<in> {VNone, VStr STOCK_KERNEL_VERSION}"
    and "provisioner_is_fail_closed tree fs = Inr True"
    and "list_all (\<lambda>p. is_file fs p \<longrightarrow> doc_states_contract fs p) (series_docs tree)"
  using assms doc_errors_Nil [of fs "series_docs tree"] by (auto simp: contract_check_def Let_def version_error_def)

text \<open>A lock that cannot be read as YAML names no kernel and passes the contract.\<close>

lemma unreadable_lock_passes:
  assumes "\<And>text. \<exists>e. safe_load text = Inl e"
  shows "version_error what (yaml_entry safe_load fs p k k2) = []"
proof -
  have "yaml_entry safe_load fs p k k2 = VNone"
  proof (cases "read_text fs p")
    case (Inr t)
    then obtain e where "rbind (read_text fs p) safe_load = Inl e" using assms by (metis rbind_simps(2))
    then show ?thesis by (simp add: yaml_entry_def)
  qed (simp add: yaml_entry_def)
  then show ?thesis by (simp add: version_error_def)
qed

text \<open>Without the volume script the campaign check does not report it: reading it raises.\<close>

lemma missing_volume_script_raises: "lookup fs (d @ [''host'', ''provision-volume.sh'']) = None \<Longrightarrow> \<exists>e. volume_problems d fs = Inl e"
  by (auto simp: volume_problems_def read_text_def read_bytes_def path_error_def Let_def)

text \<open>A campaign that passes has a profiler that is not privileged and has its capabilities, and pinned images.\<close>

lemma otel_valid:
  assumes "otel_validate d taskfile fs = Inr []"
  obtains daemonset compose where "read_text fs (d @ [''k8s'', ''alloy-daemonset.yaml'']) = Inr daemonset"
    "read_text fs (d @ [''host'', ''compose.yaml'']) = Inr compose" "\<not> str_in ''privileged: true'' (without_comments daemonset)"
    "list_all (\<lambda>c. str_in (''- '' @ c) daemonset) REQUIRED_CAPABILITIES" "str_in ''@sha256:'' daemonset" "str_in ''@sha256:'' compose"
proof -
  obtain daemonset compose where r: "read_text fs (d @ [''k8s'', ''alloy-daemonset.yaml'']) = Inr daemonset"
    "read_text fs (d @ [''host'', ''compose.yaml'']) = Inr compose"
    and p: "privilege_problems daemonset = []" "image_problems daemonset compose = []"
    using assms unfolding otel_validate_def by auto
  show thesis using that r p by (auto simp: privilege_problems_def image_problems_def needs_Nil Let_def list_all_iff)
qed

text \<open>The package pattern on a guarded, continued install line: a name inside another does not count.\<close>

lemma sample_install:
  "let block = dnf_install_block (''if ! dnf -y install bpftrace '' @ [CHR 0x5C] @ nl @ ''  performance bcc-tools-1.2; then'' @ nl @ ''  exit'') in
     installs ''bpftrace'' block \<and> installs ''bcc-tools'' block \<and> \<not> installs ''perf'' block \<and> \<not> installs ''tools'' block"
  by code_simp

end
