(* ===== verification/Spec2Isabelle.thy ===== *)
theory Spec2Isabelle
  imports Pilot Campaign Monotonic Policies Paired_Stats Analyze Cgroup_Probe Runtime_Gate Collector Host_Agent Cache_Populate Bundle Delta_Analysis Design Factorial_Sample_Size Campaign_Sample_Size Mode_Analysis Cpu_Stat Quota Prune_Data Addons Trace Esl Offline Observer_Gate Series_Gates
begin

text \<open>
  Verification of the k8labs tooling.

  The repository builds and measures a virtual-machine Kubernetes laboratory. Its Python code
  has two halves. The laboratory half, under \<open>src/scripts\<close>, pins every dependency in a lock file
  (\<open>lock.py\<close>), mirrors the pinned artifacts and images into a cache keyed by the digest of the lock
  (\<open>cache.py\<close>), lets offline targets run only over a verified cache (\<open>offline.py\<close>), packs the
  cluster addons into Secrets (\<open>generate_capi_addons.py\<close>), builds the Secure Boot signature
  lists of the guest firmware (\<open>edk2_esl.py\<close>) and installs the agent that runs the virtual machines
  of a host (\<open>host_agent.py\<close>). The research half, under \<open>src/research\<close>, plans and
  judges experiments on CPU limits and scheduling: fixed designs and scenario tables, calibration
  and freezing of quotas and limits, gates before a run, readers of kernel counters and scheduler
  traces, the search for the smallest admissible CPU limit, the verdict on one cell, monotone
  response fits, paired statistics, and the sealed model bundle that is the result of a campaign.

  \<^bold>\<open>The Python layer.\<close> The theories \<open>Py_*\<close> model what the sources use of the language and its
  standard library; they hold no code of the repository.

  \<^item> \<open>Py_Base\<close>: exceptions as the left values of \<open>pyerr + 'a\<close> with their class and message, the
    combinators for sequences and loops of raising code with their collections of rules, and \<open>str\<close>
    methods on characters below 256.
  \<^item> \<open>Py_Float\<close>: \<open>float\<close> as exact binary64, that is a rational or an infinity or NaN, rounded to
    nearest even after every operation. The locale \<open>rounding\<close> collects what the clients need of the
    rounding (monotone, exact on the representable integers) and is interpreted for it.
  \<^item> \<open>Py_Value\<close>, \<open>Py_Json\<close>: untyped documents, \<open>==\<close> on them, \<open>json.dumps\<close> and \<open>json.loads\<close> with the
    round trip between them, \<open>repr\<close>, \<open>float()\<close>, \<open>int()\<close> and \<open>round()\<close>.
  \<^item> \<open>Py_Sha256\<close>: SHA-256 on 32-bit words. \<open>Py_Base64\<close>: base64 with both decoders. \<open>Py_Text\<close>: laws of
    words, lines, decimal numbers and replacements. \<open>Py_Random\<close>: \<open>sample\<close> and \<open>shuffle\<close> over a parameter
    of uniform draws.
  \<^item> \<open>Py_Statistics\<close>: the integer square root, \<open>math.sqrt\<close>, \<open>fsum\<close>, \<open>fmean\<close> and \<open>stdev\<close> in binary64, and
    the stable sort by a float key with its laws. \<open>Py_Csv\<close>: \<open>csv.reader\<close> as its state machine and
    \<open>csv.DictReader\<close>.
  \<^item> \<open>Py_Files\<close>: a store of files and directories, the operations of \<open>os\<close>, \<open>pathlib\<close> and \<open>shutil\<close>
    with the errors the tree forces, and programs over it that keep the store they leave when they
    raise. The locale \<open>store_op\<close> is the contract of an operation that keeps the tree well-formed, with
    one interpretation per operation.

  \<^bold>\<open>The laboratory half.\<close>

  \<^item> \<open>Lock\<close> models \<open>lock.py\<close>: \<open>check_lock\<close> and \<open>load_lock\<close> with every check in the order of the code,
    \<open>validate_artifacts\<close> with the state of its loops, \<open>validate_upgrade_matrix\<close>. Its theorems: an
    accepted lock holds no mutable reference, its artifacts have distinct ids and safe distinct
    paths and digests, and its upgrade stages form a ladder of single minor versions.
  \<^item> \<open>Cache\<close> models \<open>cache.py\<close>: inventories, the validators, downloads, installation of OCI layouts,
    publication and pruning, each a program over the store. \<open>layout_spec\<close> is the abstract contract of
    a layout, and the validator is shown to decide it. \<open>Cache_Populate\<close> proves what a population
    leaves: a cache that validates if it returns, no completion record if it raises; pruning keeps
    the active cache.
  \<^item> \<open>Offline\<close> models the command of \<open>cache.py\<close> and \<open>offline.py\<close> and shows that the gate and the check
    of the cache accept the same caches.
  \<^item> \<open>Addons\<close> models \<open>generate_capi_addons.py\<close>: packing within the size limit, payloads that decode to
    their files, resource sets that list the generated Secrets.
  \<^item> \<open>Esl\<close> models \<open>edk2_esl.py\<close>: a signature list reads back to its certificates, and the command
    enrols the certificate of a PEM file.
  \<^item> \<open>Host_Agent\<close> models \<open>host_agent.py\<close>: key pairs, the staging of images and firmware, the manifest
    and its verification, the unit file, \<open>install\<close>, \<open>start\<close> and \<open>check\<close>. What was staged is what the
    verification accepts, with the contents of the build directory; an incomplete key pair stops the
    installation before any file changed.

  \<^bold>\<open>The research half.\<close>

  \<^item> \<open>Bracket\<close> and \<open>Slo\<close> model \<open>phase8/campaign/bracket.py\<close> and \<open>slo.py\<close>: the plan of limits in
    binary64, the bracket derived from the trials, and the verdict with its reasons. \<open>Campaign\<close> models
    \<open>campaign.py\<close>: a plan within its budget is a permutation or a fraction of the factorial design.
    \<open>Monotonic\<close> models \<open>monotonic.py\<close>: pooling of adjacent violators, the fit, its predictions and the
    table of responses; a fit is monotone in the asked direction and its predictions stay in range.
    \<open>Pilot\<close> models the part of \<open>pilot.py\<close> from the counters and the report of a cell to its verdict, and
    shows which verdicts it can reach.
  \<^item> \<open>Bundle\<close> models \<open>phase8/model/bundle.py\<close>: the validator check by check, the content hash and the
    constructor.
  \<^item> \<open>Design\<close> models \<open>cpu-limits/experiments/design.py\<close>: the 36 cells and the seeded schedule.
    \<open>Delta_Scenarios\<close> and \<open>Mode_Scenarios\<close> hold the tables of the two \<open>sched-core\<close> studies literally,
    with their validator and their model of shares.
  \<^item> \<open>Policies\<close> models \<open>freeze_policies.py\<close> with its CSV and JSON inputs: which limits are frozen from
    the pilot samples and when a workload is recorded as failed. \<open>Cgroup_Probe\<close> models
    \<open>cgroup_probe.py\<close>: a captured record of a pod's cgroup levels and the differences of two records.
    \<open>Runtime_Gate\<close> models \<open>runtime_gate.py\<close> over a host with 32-bit mode words: the gate fails closed.
  \<^item> \<open>Paired_Stats\<close> models \<open>cpu-limits/analysis/stats.py\<close>: paired estimates, the Student distribution by
    its continued fraction, Holm's procedure and the block bootstrap. The locale \<open>saturating\<close> is the
    contract the quantile search needs of a distribution function (values in the unit interval that
    reach one), interpreted for \<open>student_t_cdf\<close>; the search is shown to end, the step-down loop to
    reject what the procedure defines.
  \<^item> \<open>Analyze\<close> models \<open>cpu-limits/analysis/analyze.py\<close> on top of these statistics: the loader accounts for
    every scheduled cell, and the analysis ends with the decisions of its plan.
  \<^item> \<open>Collector\<close> models \<open>cpu-limits/observers/collector.py\<close>: its inventories, the readers of a cgroup, the
    Prometheus text and the service. The text depends on registered cgroups below the root only, and
    its labels read back.
  \<^item> \<open>Cpu_Stat\<close> and \<open>Quota\<close> model \<open>cgroup_stats.py\<close>, \<open>quota_calibration.py\<close>, \<open>freeze_quota.py\<close>,
    \<open>cpu_limit_policy.py\<close> and \<open>cgroup_manifest.py\<close> of \<open>linux-sched/experiments\<close>.
  \<^item> \<open>Prune_Data\<close> models \<open>linux-sched/analysis/prune_data.py\<close>: the command returns and removes exactly
    the bulk files of old blocks.
  \<^item> \<open>Trace\<close> models \<open>cpu-limits/capture/parse_trace.py\<close> as a state machine over the events in time
    order, with the invariant of its reachable states proved by rule induction.
  \<^item> \<open>Sched_Stats\<close> and \<open>Sched_Analysis\<close> model \<open>linux-sched/analysis/sched_analysis.py\<close>: the ratios of the
    blocks, their intervals and tests, the classification of an effect and the report of a study.
    \<open>Sched_Sample_Size\<close> models its \<open>sample_size.py\<close>. \<open>Factorial_Analysis\<close> and \<open>Factorial_Sample_Size\<close> model
    the two modules of the factorial study on the same statistics. The locale \<open>observation_store\<close> states
    what the analyses need of a store of observations and is interpreted for the stores of both.
  \<^item> \<open>Delta_Analysis\<close> models \<open>sched-core-delta/analysis/analyze.py\<close>: a reported PASS
    or FAIL is earned by the estimate and the number of blocks, and a feature counts as observed only
    when every decided metric of it passed.
  \<^item> \<open>Mode_Analysis\<close> models \<open>sched-core-modes/experiments/analyze.py\<close> up to its report: an accepted run is
    complete, and the table of shares has one row per scenario, mode and unit with a percentage in it.
  \<^item> \<open>Campaign_Sample_Size\<close> models \<open>cpu-limits/analysis/sample_size.py\<close>: the counts it freezes
    lie between the three blocks of the floor and the six of the cap.
  \<^item> \<open>Observer_Gate\<close> models \<open>linux-sched/observers/validate.py\<close>: an accepted manifest
    takes no privilege, host access or writable mount beyond what the check allows. \<open>Series_Gates\<close> models the four smaller gates of that study,
    \<open>runtime_gate.py\<close>, \<open>kernel_image_contract.py\<close>, \<open>observer_check.py\<close> and \<open>otel/validate_campaign.py\<close>: the
    eligible and the blocked schedulers partition those asked for, and an accepted tree names the pinned
    kernels.

  \<^bold>\<open>Names.\<close> A definition has the name of the function, class or constant it models, without a
  leading underscore; the turn of a loop or a part of a long function that is a definition of its
  own has a name of its own. Fields of records carry a prefix where two classes share a name.

  \<^bold>\<open>Bounds and fuel.\<close> Every function is total. The loop of \<open>plan_limits\<close> runs over its own bound
  \<open>max_cells\<close>; the JSON reader has the length of its input as fuel, which the round trip shows to be
  enough. The doubling of the quantile search is a \<open>partial_function\<close>, whose value is shown to exist
  for every probability; the bisection has the number of turns of the code. The sizing loop of the
  scheduler study counts up to its own largest size. \<open>analyze\<close>, which calls it, is an option that is
  shown to be a value. The random draws of the schedule are a parameter of which only the documented range is
  assumed.

  \<^bold>\<open>Parameters.\<close> Code outside the repository is an argument: \<open>yaml.safe_load\<close> and \<open>yaml.dump\<close>, the
  network, \<open>skopeo\<close>, the random part of temporary names, the random generator, the functions
  of the C library (\<open>libm\<close>), external commands, the discovered network address, the API server, the
  time, the environment, the permission to execute a file and the printed order of a set. What is assumed of them is a named hypothesis of the theorem that needs it
  (\<open>confined_copy\<close>, \<open>plain_suffixes\<close>, \<open>draws_below\<close>, \<open>exp_contract\<close>), with a witness.

  \<^bold>\<open>Not modelled.\<close> Options are taken as parsed, and printed lines are part of a result only where a
  command returns them. Strings hold code points below 256, and text files are taken with the line
  ends they have. Links, owners and failures of devices are not part of the store, modes only where a
  gate tests them. The runners, observers and bootstrap scripts drive live clusters, virtual
  machines, BPF programs and subprocesses and have no model here; nor have the plots, the dashboards,
  the reports of the CPU-limits and the mode study, the summaries of result directories and the analysis
  of pod placement. The texts of \<open>perf\<close> in \<open>parse_trace.py\<close>, the length limit of CSV fields, the
  address discovery of \<open>host_agent.py\<close>, the request line of the collector and the YAML output of
  \<open>freeze_quota.py\<close> are left out as well.
\<close>

end
